(* ===== verification/NQ_Prelude.thy ===== *)
theory NQ_Prelude
  imports
    Main
    "HOL-Library.Word"
    "HOL-Library.Char_ord"
    "HOL-Library.List_Lexorder"
begin

text \<open>
  Shared ground of the development: the machine integers and strings of the Rust sources, the
  \<open>Result\<close> type with the sequencing that the \<open>?\<close> operator gives, decimal text, the ordered
  containers \<open>BTreeMap\<close> and \<open>BTreeSet\<close>, and the generic lemmas on them.

  A Rust \<open>String\<close> is UTF-8 text; here it is the list of its bytes, one \<open>char\<close> (an eight-bit
  value) per byte, so that \<open>length\<close> is Rust's \<open>len()\<close> and the order of \<open>List_Lexorder\<close> over
  \<open>Char_ord\<close> is Rust's order on \<open>str\<close>. A \<open>usize\<close> that counts bytes or elements in memory is a
  \<open>nat\<close>; \<open>u32\<close>, \<open>u64\<close> and \<open>u128\<close> values are words of that width. An instant is a number of
  nanoseconds since the Unix epoch and a duration a number of nanoseconds, both \<open>int\<close>.
\<close>

section \<open>Types\<close>

type_synonym u32 = "32 word"
type_synonym u64 = "64 word"
type_synonym u128 = "128 word"
type_synonym usize = nat
type_synonym bytes = "char list"
type_synonym instant = int
type_synonym duration = int

text \<open>Facts that open up a sequence of checks into the conditions it enforces.\<close>

named_theorems checks

section \<open>Results and the question mark operator\<close>

datatype ('t, 'e) result = Ok 't | Err 'e

definition and_then :: "('t, 'e) result \<Rightarrow> ('t \<Rightarrow> ('u, 'e) result) \<Rightarrow> ('u, 'e) result" where
  "and_then r f = (case r of Ok v \<Rightarrow> f v | Err e \<Rightarrow> Err e)"

definition map_err :: "('e \<Rightarrow> 'f) \<Rightarrow> ('t, 'e) result \<Rightarrow> ('t, 'f) result" where
  "map_err f r = (case r of Ok v \<Rightarrow> Ok v | Err e \<Rightarrow> Err (f e))"

definition map_ok :: "('t \<Rightarrow> 'u) \<Rightarrow> ('t, 'e) result \<Rightarrow> ('u, 'e) result" where
  "map_ok f r = (case r of Ok v \<Rightarrow> Ok (f v) | Err e \<Rightarrow> Err e)"

definition ok_or :: "'e \<Rightarrow> 't option \<Rightarrow> ('t, 'e) result" where
  "ok_or e v = (case v of None \<Rightarrow> Err e | Some t \<Rightarrow> Ok t)"

fun is_ok :: "('t, 'e) result \<Rightarrow> bool" where
  "is_ok (Ok _) = True"
| "is_ok (Err _) = False"

text \<open>
  \<open>if bad { return Err(e) }\<close> is \<open>refuse_if bad e\<close>, and a run of such statements, or of calls
  followed by \<open>?\<close>, is \<open>run_checks\<close> of the list of them: the first error is the result.
\<close>

definition refuse_if :: "bool \<Rightarrow> 'e \<Rightarrow> (unit, 'e) result" where
  "refuse_if bad e = (if bad then Err e else Ok ())"

fun run_checks :: "(unit, 'e) result list \<Rightarrow> (unit, 'e) result" where
  "run_checks [] = Ok ()"
| "run_checks (c # cs) = (case c of Ok _ \<Rightarrow> run_checks cs | Err e \<Rightarrow> Err e)"

lemma and_then_simps [simp]:
  "and_then (Ok v) f = f v"
  "and_then (Err e) f = Err e"
  by (simp_all add: and_then_def)

lemma and_then_Ok [checks]: "and_then r f = Ok u \<longleftrightarrow> (\<exists>v. r = Ok v \<and> f v = Ok u)"
  by (cases r) auto

lemma and_then_Err: "and_then r f = Err e \<longleftrightarrow> r = Err e \<or> (\<exists>v. r = Ok v \<and> f v = Err e)"
  by (cases r) auto

lemma map_err_simps [simp]:
  "map_err f (Ok v) = Ok v"
  "map_err f (Err e) = Err (f e)"
  by (simp_all add: map_err_def)

lemma map_err_Ok [checks, simp]: "map_err f r = Ok v \<longleftrightarrow> r = Ok v"
  by (cases r) auto

lemma map_err_Err: "map_err f r = Err e \<longleftrightarrow> (\<exists>e'. r = Err e' \<and> e = f e')"
  by (cases r) auto

lemma map_ok_simps [simp]:
  "map_ok f (Ok v) = Ok (f v)"
  "map_ok f (Err e) = Err e"
  by (simp_all add: map_ok_def)

lemma map_ok_Ok [checks, simp]: "map_ok f r = Ok u \<longleftrightarrow> (\<exists>v. r = Ok v \<and> u = f v)"
  by (cases r) auto

lemma ok_or_simps [simp]:
  "ok_or e None = Err e"
  "ok_or e (Some t) = Ok t"
  by (simp_all add: ok_or_def)

lemma ok_or_Ok [checks, simp]: "ok_or e v = Ok t \<longleftrightarrow> v = Some t"
  by (cases v) auto

lemma refuse_if_simps [simp]:
  "refuse_if True e = Err e"
  "refuse_if False e = Ok ()"
  by (simp_all add: refuse_if_def)

lemma refuse_if_Ok [checks, simp]: "refuse_if bad e = Ok u \<longleftrightarrow> \<not> bad"
  by (simp add: refuse_if_def)

lemma refuse_if_Err [simp]: "refuse_if bad e = Err e' \<longleftrightarrow> bad \<and> e' = e"
  by (auto simp: refuse_if_def)

lemma run_checks_Ok: "run_checks cs = Ok u \<longleftrightarrow> (\<forall>c \<in> set cs. c = Ok ())"
  by (induction cs) (auto split: result.splits)

lemma run_checks_Cons_Ok [checks, simp]:
  "run_checks (c # cs) = Ok u \<longleftrightarrow> c = Ok () \<and> run_checks cs = Ok ()"
  by (auto split: result.splits)

lemma run_checks_Nil_Ok [checks]: "run_checks [] = Ok u \<longleftrightarrow> True"
  by simp

text \<open>An error of a run of checks is the error of its first failing check.\<close>

lemma run_checks_Err:
  "run_checks cs = Err e \<longleftrightarrow>
     (\<exists>before after. cs = before @ Err e # after \<and> (\<forall>c \<in> set before. c = Ok ()))"
proof (induction cs)
  case Nil
  then show ?case by simp
next
  case (Cons c cs)
  show ?case
  proof (cases c)
    case (Ok u)
    with Cons.IH show ?thesis
      by (auto simp: Cons_eq_append_conv) (metis append_Cons list.set_intros(2) set_ConsD)+
  next
    case (Err e')
    then show ?thesis by (auto simp: Cons_eq_append_conv)
  qed
qed

lemma run_checks_append:
  "run_checks (cs @ ds) = (case run_checks cs of Ok _ \<Rightarrow> run_checks ds | Err e \<Rightarrow> Err e)"
  by (induction cs) (auto split: result.splits)

lemma run_checks_append_Ok [checks]: "run_checks (cs @ ds) = Ok u \<longleftrightarrow> run_checks cs = Ok () \<and> run_checks ds = Ok ()"
  by (auto simp: run_checks_Ok)

lemma run_checks_map_Ok [checks]:
  "run_checks (map f xs) = Ok u \<longleftrightarrow> (\<forall>x \<in> set xs. f x = Ok ())"
  by (auto simp: run_checks_Ok)

declare run_checks.simps(2) [simp del]

lemma run_checks_first [simp]: "run_checks (Err e # cs) = Err e"
  by (simp add: run_checks.simps)

lemma run_checks_next [simp]: "run_checks (Ok u # cs) = run_checks cs"
  by (simp add: run_checks.simps)

text \<open>\<open>iter().map(f).collect::<Result<Vec<_>, _>>()\<close>: the results in order, or the first error.\<close>

fun collect_results :: "('a \<Rightarrow> ('b, 'e) result) \<Rightarrow> 'a list \<Rightarrow> ('b list, 'e) result" where
  "collect_results f [] = Ok []"
| "collect_results f (x # xs) =
     and_then (f x) (\<lambda>y. map_ok (Cons y) (collect_results f xs))"

lemma exactly_one_Ok:
  "(case os of [] \<Rightarrow> Err e | ob # obs \<Rightarrow> (case obs of [] \<Rightarrow> f ob | _ # _ \<Rightarrow> Err e)) = Ok u \<longleftrightarrow>
     (\<exists>ob. os = [ob] \<and> f ob = Ok u)"
  by (cases os rule: remdups_adj.cases) auto

lemma collect_results_Ok:
  "collect_results f xs = Ok ys \<longleftrightarrow> list_all2 (\<lambda>x y. f x = Ok y) xs ys"
  by (induction xs arbitrary: ys) (auto simp: list_all2_Cons1 and_then_Ok)

section \<open>Text\<close>

abbreviation LF :: char where "LF \<equiv> CHR 0x0A"
abbreviation CR :: char where "CR \<equiv> CHR 0x0D"

definition is_ascii_digit :: "char \<Rightarrow> bool" where
  "is_ascii_digit c \<longleftrightarrow> 48 \<le> (of_char c :: nat) \<and> (of_char c :: nat) \<le> 57"

definition is_ascii_alphanumeric :: "char \<Rightarrow> bool" where
  "is_ascii_alphanumeric c \<longleftrightarrow>
     (let n = (of_char c :: nat) in (48 \<le> n \<and> n \<le> 57) \<or> (65 \<le> n \<and> n \<le> 90) \<or> (97 \<le> n \<and> n \<le> 122))"

definition is_lower_hex_digit :: "char \<Rightarrow> bool" where
  "is_lower_hex_digit c \<longleftrightarrow> is_ascii_digit c \<or> (97 \<le> (of_char c :: nat) \<and> (of_char c :: nat) \<le> 102)"

fun starts_with :: "string \<Rightarrow> string \<Rightarrow> bool" where
  "starts_with s [] = True"
| "starts_with [] (p # ps) = False"
| "starts_with (c # cs) (p # ps) = (c = p \<and> starts_with cs ps)"

lemma starts_with_iff: "starts_with s p \<longleftrightarrow> (\<exists>rest. s = p @ rest)"
  by (induction s p rule: starts_with.induct) auto

lemma starts_with_append [simp]: "starts_with (p @ s) p"
  by (auto simp: starts_with_iff)

text \<open>\<open>str::strip_prefix\<close>, \<open>str::split_once\<close> and \<open>str::split\<close> at one separator byte.\<close>

definition strip_prefix :: "string \<Rightarrow> string \<Rightarrow> string option" where
  "strip_prefix p s = (if starts_with s p then Some (drop (length p) s) else None)"

lemma strip_prefix_Some: "strip_prefix p s = Some r \<longleftrightarrow> s = p @ r"
  by (auto simp: strip_prefix_def starts_with_iff)

fun split_once :: "char \<Rightarrow> string \<Rightarrow> (string \<times> string) option" where
  "split_once d [] = None"
| "split_once d (c # cs) =
     (if c = d then Some ([], cs)
      else (case split_once d cs of None \<Rightarrow> None | Some (l, r) \<Rightarrow> Some (c # l, r)))"

lemma split_once_Some: "split_once d s = Some (l, r) \<longleftrightarrow> s = l @ d # r \<and> d \<notin> set l"
proof (induction s arbitrary: l)
  case (Cons c cs)
  show ?case
  proof (cases l)
    case Nil
    then show ?thesis by (auto split: option.splits)
  next
    case (Cons a l')
    have "split_once d (c # cs) = Some (a # l', r) \<longleftrightarrow>
            c \<noteq> d \<and> a = c \<and> split_once d cs = Some (l', r)"
      by (auto split: option.splits)
    with Cons.IH [of l'] Cons show ?thesis by auto
  qed
qed simp

fun split_on :: "char \<Rightarrow> string \<Rightarrow> string list" where
  "split_on d [] = [[]]"
| "split_on d (c # cs) =
     (if c = d then [] # split_on d cs
      else (case split_on d cs of [] \<Rightarrow> [[c]] | w # ws \<Rightarrow> (c # w) # ws))"

lemma split_on_none: "d \<notin> set s \<Longrightarrow> split_on d s = [s]"
  by (induction s) auto

lemma split_on_append: "d \<notin> set l \<Longrightarrow> split_on d (l @ d # r) = l # split_on d r"
  by (induction l) auto

text \<open>\<open>str::contains\<close> on a text and \<open>str::ends_with\<close> on a character.\<close>

definition str_contains :: "string \<Rightarrow> string \<Rightarrow> bool" where
  "str_contains s p = list_ex (\<lambda>i. starts_with (drop i s) p) [0..<Suc (length s)]"

definition ends_with_char :: "string \<Rightarrow> char \<Rightarrow> bool" where
  "ends_with_char s c \<longleftrightarrow> s \<noteq> [] \<and> last s = c"

text \<open>
  \<open>str::lines\<close> (a line ends at a line feed, a carriage return before it is dropped, and a final
  line feed opens no further line) and \<open>str::split_ascii_whitespace\<close>.
\<close>

definition strip_cr :: "string \<Rightarrow> string" where
  "strip_cr line = (if line \<noteq> [] \<and> last line = CR then butlast line else line)"

definition str_lines :: "string \<Rightarrow> string list" where
  "str_lines text =
     (let pieces = split_on LF text;
          closed = map strip_cr (butlast pieces);
          open_line = last pieces
      in if open_line = [] then closed else closed @ [open_line])"

definition is_ascii_whitespace :: "char \<Rightarrow> bool" where
  "is_ascii_whitespace c \<longleftrightarrow> c \<in> {CHR '' '', CHR 0x09, CHR 0x0A, CHR 0x0C, CHR 0x0D}"

lemma length_dropWhile_less [termination_simp]: "length (dropWhile P xs) < Suc (length xs)"
  by (simp add: length_dropWhile_le less_Suc_eq_le)

fun split_ascii_whitespace :: "string \<Rightarrow> string list" where
  "split_ascii_whitespace [] = []"
| "split_ascii_whitespace (c # cs) =
     (if is_ascii_whitespace c then split_ascii_whitespace cs
      else (c # takeWhile (\<lambda>d. \<not> is_ascii_whitespace d) cs) #
        split_ascii_whitespace (dropWhile (\<lambda>d. \<not> is_ascii_whitespace d) cs))"

text \<open>\<open>char::is_control\<close> on UTF-8: the ASCII controls, and U+0080 to U+009F in two bytes.\<close>

fun has_control :: "string \<Rightarrow> bool" where
  "has_control [] \<longleftrightarrow> False"
| "has_control (c # cs) \<longleftrightarrow>
     (of_char c :: nat) < 32 \<or> (of_char c :: nat) = 127 \<or>
     (of_char c :: nat) = 194 \<and>
       (case cs of [] \<Rightarrow> False | d # _ \<Rightarrow> 128 \<le> (of_char d :: nat) \<and> (of_char d :: nat) < 160) \<or>
     has_control cs"

text \<open>\<open>str::chars\<close> on UTF-8: the bytes of each character, and its code point.\<close>

definition is_continuation :: "char \<Rightarrow> bool" where
  "is_continuation c \<longleftrightarrow> 128 \<le> (of_char c :: nat) \<and> (of_char c :: nat) < 192"

fun utf8_chars :: "string \<Rightarrow> string list" where
  "utf8_chars [] = []"
| "utf8_chars (c # cs) =
     (if (of_char c :: nat) < 128 then [c] # utf8_chars cs
      else (c # takeWhile is_continuation cs) # utf8_chars (dropWhile is_continuation cs))"

lemma concat_utf8_chars: "concat (utf8_chars s) = s"
  by (induction s rule: utf8_chars.induct) simp_all

definition code_point :: "string \<Rightarrow> nat" where
  "code_point c =
     (case map (of_char :: char \<Rightarrow> nat) c of
        [a] \<Rightarrow> a
      | [a, b] \<Rightarrow> a mod 32 * 2 ^ 6 + b mod 64
      | [a, b, d] \<Rightarrow> a mod 16 * 2 ^ 12 + b mod 64 * 2 ^ 6 + d mod 64
      | [a, b, d, e] \<Rightarrow> a mod 8 * 2 ^ 18 + b mod 64 * 2 ^ 12 + d mod 64 * 2 ^ 6 + e mod 64
      | _ \<Rightarrow> 0)"

text \<open>Decimal rendering of an unsigned number.\<close>

definition digit_char :: "nat \<Rightarrow> char" where
  "digit_char d = char_of (48 + d)"

fun show_nat :: "nat \<Rightarrow> string" where
  "show_nat n = (if n < 10 then [digit_char n] else show_nat (n div 10) @ [digit_char (n mod 10)])"

declare show_nat.simps [simp del]

definition show_int :: "int \<Rightarrow> string" where
  "show_int i = (if i < 0 then CHR ''-'' # show_nat (nat (- i)) else show_nat (nat i))"

definition show_bool :: "bool \<Rightarrow> string" where
  "show_bool b = (if b then ''true'' else ''false'')"

text \<open>
  \<open>str::parse\<close> for an unsigned integer type with the given greatest value: one leading \<open>+\<close> is
  accepted when a character follows it, then at least one decimal digit and nothing else, and
  the value must not exceed the type.
\<close>

definition digits_value :: "string \<Rightarrow> nat" where
  "digits_value ds = foldl (\<lambda>acc c. 10 * acc + (of_char c - 48)) 0 ds"

definition parse_unsigned :: "nat \<Rightarrow> string \<Rightarrow> nat option" where
  "parse_unsigned greatest s =
     (let ds = (case s of c # d # rest \<Rightarrow> if c = CHR ''+'' then d # rest else s | _ \<Rightarrow> s)
      in if ds = [] \<or> \<not> list_all is_ascii_digit ds then None
         else if digits_value ds \<le> greatest then Some (digits_value ds) else None)"

text \<open>The text of the \<open>ParseIntError\<close> that a refused text gives: the first fault from the left.\<close>

fun digits_fault :: "nat \<Rightarrow> nat \<Rightarrow> string \<Rightarrow> string" where
  "digits_fault greatest acc [] = []"
| "digits_fault greatest acc (c # cs) =
     (if \<not> is_ascii_digit c then ''invalid digit found in string''
      else if 10 * acc + (of_char c - 48) > greatest then ''number too large to fit in target type''
      else digits_fault greatest (10 * acc + (of_char c - 48)) cs)"

definition parse_int_fault :: "nat \<Rightarrow> string \<Rightarrow> string" where
  "parse_int_fault greatest s =
     (if s = [] then ''cannot parse integer from empty string''
      else digits_fault greatest 0
        (case s of c # d # rest \<Rightarrow> if c = CHR ''+'' then d # rest else s | _ \<Rightarrow> s))"

lemma of_char_digit_char: "d < 10 \<Longrightarrow> (of_char (digit_char d) :: nat) = 48 + d"
  by (simp add: digit_char_def)

lemma is_ascii_digit_digit_char: "d < 10 \<Longrightarrow> is_ascii_digit (digit_char d)"
  by (simp add: is_ascii_digit_def of_char_digit_char)

lemma digits_value_snoc: "digits_value (ds @ [c]) = 10 * digits_value ds + (of_char c - 48)"
  by (simp add: digits_value_def)

lemma show_nat_digits: "list_all is_ascii_digit (show_nat n)"
proof (induction n rule: show_nat.induct)
  case (1 n)
  then show ?case
    by (subst show_nat.simps) (auto simp: is_ascii_digit_digit_char)
qed

lemma show_nat_nonempty: "show_nat n \<noteq> []"
  by (subst show_nat.simps) simp

lemma digits_value_show_nat: "digits_value (show_nat n) = n"
proof (induction n rule: show_nat.induct)
  case (1 n)
  show ?case
  proof (cases "n < 10")
    case True
    then show ?thesis
      by (subst show_nat.simps) (simp add: digits_value_def of_char_digit_char)
  next
    case False
    with 1 show ?thesis
      by (subst show_nat.simps) (simp add: digits_value_snoc of_char_digit_char)
  qed
qed

lemma digit_char_zero_iff: "d < 10 \<Longrightarrow> digit_char d = CHR ''0'' \<longleftrightarrow> d = 0"
proof
  assume "d < 10" "digit_char d = CHR ''0''"
  then show "d = 0" using of_char_digit_char [of d] by simp
next
  assume "d = 0"
  then show "digit_char d = CHR ''0''"
    using char_of_char [of "CHR ''0''", where 'a = nat] by (simp add: digit_char_def)
qed

lemma digits_value_single: "is_ascii_digit c \<Longrightarrow> show_nat (digits_value [c]) = [c]"
proof -
  assume "is_ascii_digit c"
  then have "48 \<le> (of_char c :: nat)" "(of_char c :: nat) - 48 < 10"
    by (auto simp: is_ascii_digit_def)
  then show ?thesis
    by (subst show_nat.simps) (simp add: digits_value_def digit_char_def)
qed

lemma show_nat_digits_value:
  assumes "list_all is_ascii_digit s" "s \<noteq> []" "1 < length s \<Longrightarrow> hd s \<noteq> CHR ''0''"
  shows "show_nat (digits_value s) = s"
  using assms
proof (induction s rule: rev_induct)
  case (snoc c s)
  show ?case
  proof (cases "s = []")
    case True
    then show ?thesis using snoc.prems digits_value_single [of c] by simp
  next
    case False
    then have IH: "show_nat (digits_value s) = s" and hd: "hd s \<noteq> CHR ''0''"
      using snoc by (auto simp: hd_append)
    have "digits_value s \<noteq> 0"
    proof
      assume "digits_value s = 0"
      then have "s = [digit_char 0]" using IH by (simp add: show_nat.simps)
      then show False using hd digit_char_zero_iff [of 0] by simp
    qed
    moreover obtain d where d: "(of_char c :: nat) = 48 + d" "d < 10"
      using snoc.prems le_Suc_ex [of 48 "of_char c :: nat"] by (auto simp: is_ascii_digit_def)
    moreover have "digit_char d = c"
      using char_of_char [of c, where 'a = nat] d by (simp add: digit_char_def)
    ultimately show ?thesis
      using IH by (subst show_nat.simps) (simp add: digits_value_snoc)
  qed
qed simp

lemma parse_unsigned_show_nat: "n \<le> greatest \<Longrightarrow> parse_unsigned greatest (show_nat n) = Some n"
proof -
  assume n: "n \<le> greatest"
  have plus: "show_nat n = CHR ''+'' # rest \<Longrightarrow> False" for rest
    using show_nat_digits [of n] by (simp add: is_ascii_digit_def)
  have "(case show_nat n of c # d # rest \<Rightarrow> if c = CHR ''+'' then d # rest else show_nat n
           | _ \<Rightarrow> show_nat n) = show_nat n"
    by (auto split: list.splits dest: plus)
  then show ?thesis
    using n show_nat_digits [of n] show_nat_nonempty [of n]
    by (simp add: parse_unsigned_def digits_value_show_nat)
qed

lemma parse_unsigned_digits:
  "s \<noteq> [] \<Longrightarrow> list_all is_ascii_digit s \<Longrightarrow>
   parse_unsigned greatest s = (if digits_value s \<le> greatest then Some (digits_value s) else None)"
  by (cases s rule: remdups_adj.cases) (auto simp: parse_unsigned_def is_ascii_digit_def)

lemma hd_show_nat: "0 < n \<Longrightarrow> hd (show_nat n) \<noteq> CHR ''0''"
proof (induction n rule: show_nat.induct)
  case (1 n)
  show ?case
  proof (cases "n < 10")
    case True
    then show ?thesis using 1 by (subst show_nat.simps) (simp add: digit_char_zero_iff)
  next
    case False
    then show ?thesis
      using 1 show_nat_nonempty [of "n div 10"] by (subst show_nat.simps) (simp add: hd_append)
  qed
qed

lemma length_show_nat_le: "n < 10 ^ k \<Longrightarrow> 0 < k \<Longrightarrow> length (show_nat n) \<le> k"
proof (induction n arbitrary: k rule: show_nat.induct)
  case (1 n)
  show ?case
  proof (cases "n < 10")
    case True
    then show ?thesis using 1 by (subst show_nat.simps) simp
  next
    case False
    obtain j where k: "k = Suc j" using 1(3) by (cases k) auto
    then have "n div 10 < 10 ^ j" using 1(2) by (simp add: less_mult_imp_div_less mult.commute)
    moreover have "0 < j" using False 1(2) k by (cases j) auto
    ultimately show ?thesis using 1(1) [OF False, of j] False k by (subst show_nat.simps) simp
  qed
qed

lemma length_show_nat_gt_1: "1 < length (show_nat n) \<Longrightarrow> 10 \<le> n"
  by (rule ccontr) (simp add: show_nat.simps)

lemma parse_unsigned_bound: "parse_unsigned greatest s = Some n \<Longrightarrow> n \<le> greatest"
  by (auto simp: parse_unsigned_def Let_def split: if_splits)

section \<open>Machine integers\<close>

text \<open>\<open>u32::try_from(n).unwrap_or(u32::MAX)\<close> on a count.\<close>

definition clamp_u32 :: "usize \<Rightarrow> u32" where
  "clamp_u32 n = (if n < 2 ^ 32 then of_nat n else - 1)"

lemma unat_clamp_u32: "unat (clamp_u32 n) = min n (2 ^ 32 - 1)"
proof -
  have "unat (- 1 :: u32) = 2 ^ 32 - 1"
    by (simp add: unsigned_minus_1_eq_mask mask_eq_exp_minus_1)
  then show ?thesis
    by (auto simp: clamp_u32_def unat_of_nat min_def)
qed

lemma clamp_u32_le_iff: "unat b < 2 ^ 32 - 1 \<Longrightarrow> clamp_u32 n \<le> b \<longleftrightarrow> n \<le> unat b"
  by (auto simp: word_le_nat_alt unat_clamp_u32)

lemma clamp_u32_le: "n \<le> unat b \<Longrightarrow> clamp_u32 n \<le> b"
  by (simp add: word_le_nat_alt unat_clamp_u32)

text \<open>\<open>u64::saturating_sub\<close>.\<close>

definition saturating_sub :: "'l::len word \<Rightarrow> 'l word \<Rightarrow> 'l word" where
  "saturating_sub a b = (if a < b then 0 else a - b)"

lemma unat_saturating_sub: "unat (saturating_sub a b) = unat a - unat b"
proof (cases "a < b")
  case True
  then show ?thesis by (simp add: saturating_sub_def word_less_nat_alt)
next
  case False
  then have "b \<le> a" by simp
  then show ?thesis
    using False by (simp add: saturating_sub_def unat_sub)
qed

text \<open>\<open>checked_add\<close>, \<open>checked_sub\<close>, \<open>checked_mul\<close> and \<open>div_ceil\<close> of the unsigned integers.\<close>

definition checked_add :: "'l::len word \<Rightarrow> 'l word \<Rightarrow> 'l word option" where
  "checked_add a b = (if unat a + unat b < 2 ^ LENGTH('l) then Some (a + b) else None)"

definition checked_sub :: "'l::len word \<Rightarrow> 'l word \<Rightarrow> 'l word option" where
  "checked_sub a b = (if b \<le> a then Some (a - b) else None)"

definition checked_mul :: "'l::len word \<Rightarrow> 'l word \<Rightarrow> 'l word option" where
  "checked_mul a b = (if unat a * unat b < 2 ^ LENGTH('l) then Some (a * b) else None)"

definition div_ceil :: "'l::len word \<Rightarrow> 'l word \<Rightarrow> 'l word" where
  "div_ceil a b = a div b + (if a mod b = 0 then 0 else 1)"

lemma checked_add_Some [checks]:
  "checked_add a b = Some c \<longleftrightarrow> unat c = unat a + unat b"
proof
  assume "unat c = unat a + unat b"
  moreover have "unat c < 2 ^ LENGTH('a)" by (rule unsigned_less)
  ultimately show "checked_add a b = Some c"
    by (simp add: checked_add_def word_unat_eq_iff unat_word_ariths)
qed (auto simp: checked_add_def unat_word_ariths split: if_splits)

lemma checked_sub_Some [checks]:
  "checked_sub a b = Some c \<longleftrightarrow> unat b \<le> unat a \<and> unat c = unat a - unat b"
  by (auto simp: checked_sub_def word_le_nat_alt unat_sub word_unat_eq_iff)

lemma checked_mul_Some [checks]:
  "checked_mul a b = Some c \<longleftrightarrow> unat c = unat a * unat b"
proof
  assume "unat c = unat a * unat b"
  moreover have "unat c < 2 ^ LENGTH('a)" by (rule unsigned_less)
  ultimately show "checked_mul a b = Some c"
    by (simp add: checked_mul_def word_unat_eq_iff unat_word_ariths)
qed (auto simp: checked_mul_def unat_word_ariths split: if_splits)

section \<open>Numbers as bytes\<close>

text \<open>The number that little-endian and big-endian bytes stand for.\<close>

fun le_nat :: "bytes \<Rightarrow> nat" where
  "le_nat [] = 0"
| "le_nat (c # cs) = of_char c + 256 * le_nat cs"

definition be_nat :: "bytes \<Rightarrow> nat" where
  "be_nat bs = le_nat (List.rev bs)"

lemma of_char_less: "(of_char c :: nat) < 256"
  by simp

lemma base_256: "d < 256 \<Longrightarrow> d + 256 * n < 256 * (n + 1)" for d n :: nat
  by simp

lemma base_256_inject:
  assumes "d < 256" and "e < 256"
  shows "d + 256 * m = e + 256 * n \<longleftrightarrow> d = e \<and> m = (n :: nat)"
proof
  assume "d + 256 * m = e + 256 * n"
  then have "(d + 256 * m) mod 256 = (e + 256 * n) mod 256" "(d + 256 * m) div 256 = (e + 256 * n) div 256"
    by simp_all
  with assms show "d = e \<and> m = n" by simp
qed simp

lemma le_nat_bound: "le_nat bs < 256 ^ length bs"
proof (induction bs)
  case (Cons c bs)
  have "le_nat (c # bs) < 256 * (le_nat bs + 1)"
    using base_256 [OF of_char_less] by simp
  also have "\<dots> \<le> 256 * 256 ^ length bs"
    using Cons.IH by (intro mult_le_mono2) simp
  finally show ?case by simp
qed simp

lemma be_nat_bound: "be_nat bs < 256 ^ length bs"
  using le_nat_bound [of "List.rev bs"] by (simp add: be_nat_def)

lemma le_nat_inject: "length as = length bs \<Longrightarrow> le_nat as = le_nat bs \<longleftrightarrow> as = bs"
proof (induction as bs rule: list_induct2)
  case (Cons a as b bs)
  then show ?case
    by (simp only: le_nat.simps base_256_inject [OF of_char_less of_char_less] of_char_eq_iff list.inject)
qed simp

lemma be_nat_inject: "length as = length bs \<Longrightarrow> be_nat as = be_nat bs \<longleftrightarrow> as = bs"
  by (simp add: be_nat_def le_nat_inject)

section \<open>Ordered containers\<close>

text \<open>
  A \<open>BTreeMap\<close> is the association list of its entries in ascending key order and a
  \<open>BTreeSet\<close> the ascending list of its elements; iteration is list order.
\<close>

type_synonym ('k, 'v) btree_map = "('k \<times> 'v) list"
type_synonym 'a btree_set = "'a list"

fun bt_insert :: "'k::linorder \<Rightarrow> 'v \<Rightarrow> ('k, 'v) btree_map \<Rightarrow> ('k, 'v) btree_map" where
  "bt_insert k v [] = [(k, v)]"
| "bt_insert k v (e # es) =
     (if k < fst e then (k, v) # e # es
      else if k = fst e then (k, v) # es
      else e # bt_insert k v es)"

abbreviation bt_get :: "('k, 'v) btree_map \<Rightarrow> 'k \<Rightarrow> 'v option" where
  "bt_get \<equiv> map_of"

definition bt_keys :: "('k, 'v) btree_map \<Rightarrow> 'k list" where
  "bt_keys m = map fst m"

definition bt_from :: "('k::linorder \<times> 'v) list \<Rightarrow> ('k, 'v) btree_map" where
  "bt_from es = fold (\<lambda>(k, v). bt_insert k v) es []"

fun bs_insert :: "'a::linorder \<Rightarrow> 'a btree_set \<Rightarrow> 'a btree_set" where
  "bs_insert a [] = [a]"
| "bs_insert a (x # xs) = (if a < x then a # x # xs else if a = x then x # xs else x # bs_insert a xs)"

definition bs_from :: "'a::linorder list \<Rightarrow> 'a btree_set" where
  "bs_from xs = fold bs_insert xs []"

definition bt_ordered :: "('k::linorder, 'v) btree_map \<Rightarrow> bool" where
  "bt_ordered m \<longleftrightarrow> sorted_wrt (<) (map fst m)"

definition bs_ordered :: "'a::linorder btree_set \<Rightarrow> bool" where
  "bs_ordered xs \<longleftrightarrow> sorted_wrt (<) xs"

lemma bt_get_insert [simp]: "bt_get (bt_insert k v m) = (bt_get m)(k \<mapsto> v)"
  by (induction m) (auto simp: fun_eq_iff)

lemma keys_bt_insert [simp]: "fst ` set (bt_insert k v m) = insert k (fst ` set m)"
  by (induction m) auto

lemma bt_ordered_insert: "bt_ordered m \<Longrightarrow> bt_ordered (bt_insert k v m)"
proof (induction m)
  case (Cons e es)
  have "fst ` set (bt_insert k v es) = insert k (fst ` set es)" by simp
  with Cons show ?case by (fastforce simp: bt_ordered_def)
qed (simp add: bt_ordered_def)

lemma set_bs_insert [simp]: "set (bs_insert a xs) = insert a (set xs)"
  by (induction xs) auto

lemma bs_ordered_insert: "bs_ordered xs \<Longrightarrow> bs_ordered (bs_insert a xs)"
proof (induction xs)
  case (Cons x xs)
  then show ?case by (auto simp: bs_ordered_def)
qed (simp add: bs_ordered_def)

lemma set_fold_bs_insert: "set (fold bs_insert xs acc) = set xs \<union> set acc"
  by (induction xs arbitrary: acc) auto

lemma set_bs_from [simp]: "set (bs_from xs) = set xs"
  by (simp add: bs_from_def set_fold_bs_insert)

lemma bs_ordered_from: "bs_ordered (bs_from xs)"
proof -
  have "bs_ordered acc \<Longrightarrow> bs_ordered (fold bs_insert xs acc)" for acc
    by (induction xs arbitrary: acc) (simp_all add: bs_ordered_insert)
  then show ?thesis by (simp add: bs_from_def bs_ordered_def)
qed

text \<open>Two ordered sets with the same elements are the same list.\<close>

lemma bs_ordered_eq: "bs_ordered xs \<Longrightarrow> bs_ordered ys \<Longrightarrow> set xs = set ys \<Longrightarrow> xs = ys"
  by (simp add: bs_ordered_def strict_sorted_equal)

subsection \<open>The map interface the other theories use\<close>

locale keyed_store =
  fixes none :: "'m"
    and put :: "'k \<Rightarrow> 'v \<Rightarrow> 'm \<Rightarrow> 'm"
    and look :: "'m \<Rightarrow> 'k \<Rightarrow> 'v option"
    and valid :: "'m \<Rightarrow> bool"
  assumes valid_none: "valid none"
    and valid_put: "valid m \<Longrightarrow> valid (put k v m)"
    and look_none: "look none k = None"
    and look_put: "look (put k v m) k' = (if k' = k then Some v else look m k')"
begin

lemma look_put_same: "look (put k v m) k = Some v"
  by (simp add: look_put)

lemma look_put_other: "k' \<noteq> k \<Longrightarrow> look (put k v m) k' = look m k'"
  by (simp add: look_put)

text \<open>After a run of insertions the last value written under a key is the one found.\<close>

lemma look_fold_put:
  "look (fold (\<lambda>(k, v). put k v) es m) q =
     (case map_of (rev es) q of None \<Rightarrow> look m q | Some v \<Rightarrow> Some v)"
proof (induction es arbitrary: m)
  case (Cons e es)
  then show ?case
    by (cases e) (auto simp: look_put map_add_def split: option.splits)
qed simp

lemma valid_fold_put: "valid m \<Longrightarrow> valid (fold (\<lambda>(k, v). put k v) es m)"
  by (induction es arbitrary: m) (auto simp: valid_put)

end

interpretation bt: keyed_store
  "[] :: ('k::linorder, 'v) btree_map" bt_insert bt_get bt_ordered
proof unfold_locales
  show "bt_ordered ([] :: ('k::linorder, 'v) btree_map)"
    by (simp add: bt_ordered_def)
qed (simp_all add: bt_ordered_insert)

lemma bt_get_from: "bt_get (bt_from es) k = map_of (rev es) k"
  by (simp add: bt_from_def bt.look_fold_put split: option.split)

lemma set_bt_insert:
  "k \<notin> fst ` set m \<Longrightarrow> set (bt_insert k v m) = insert (k, v) (set m)"
  by (induction m) auto

lemma set_bt_from: "distinct (map fst es) \<Longrightarrow> set (bt_from es) = set es"
proof -
  have "distinct (map fst es) \<Longrightarrow> fst ` set es \<inter> fst ` set m = {} \<Longrightarrow>
      set (fold (\<lambda>(k, v). bt_insert k v) es m) = set es \<union> set m" for m
    by (induction es arbitrary: m) (auto simp: set_bt_insert)
  from this [of "[]"] show "distinct (map fst es) \<Longrightarrow> ?thesis"
    by (simp add: bt_from_def)
qed

lemma bt_ordered_from: "bt_ordered (bt_from es)"
  by (simp add: bt_from_def bt.valid_fold_put bt.valid_none)

end
