(* ===== verification/Protocol_Primitives.thy ===== *)
theory Protocol_Primitives
  imports NQ_Prelude Complex_Main
begin

text \<open>
  The primitives of the helper protocol crate: JSON values, canonical bytes and digests
  (\<open>crates/nq-protocol/src/canonical.rs\<close>) and the validated token vocabulary
  (\<open>crates/nq-protocol/src/ids.rs\<close>).

  The JSON canonicalizer (\<open>serde_jcs::to_vec\<close>) and the hash (\<open>sha2\<close>, rendered by \<open>hex\<close>) are
  third-party code and therefore fields of the record \<open>externals\<close> that every definition which
  reaches them takes as an argument.
\<close>

section \<open>JSON values\<close>

text \<open>
  \<open>serde_json::Value\<close>. A number is a non-negative \<open>u64\<close>, a negative \<open>i64\<close> or a finite \<open>f64\<close>,
  the last as the rational it denotes, so that equality is the source's \<open>==\<close> (the two zeros are
  equal). An object is the \<open>BTreeMap\<close> of its members.
\<close>

datatype json_number = PosInt u64 | NegInt u64 | Float rat

datatype json =
    JNull
  | JBool bool
  | JNumber json_number
  | JString string
  | JArray "json list"
  | JObject "(string \<times> json) list"

abbreviation as_object :: "json \<Rightarrow> (string \<times> json) list option" where
  "as_object v \<equiv> (case v of JObject es \<Rightarrow> Some es | _ \<Rightarrow> None)"

definition json_get :: "json \<Rightarrow> string \<Rightarrow> json option" where
  "json_get v k = (case v of JObject es \<Rightarrow> map_of es k | _ \<Rightarrow> None)"

lemma size_snd_member [termination_simp]:
  "e \<in> set es \<Longrightarrow> size (snd e) < Suc (size_list (size_prod (\<lambda>_. 0) size) es)"
  by (induction es) (auto simp: prod.size)

section \<open>Canonical bytes and digests\<close>

record externals =
  jcs_to_vec :: "json \<Rightarrow> (bytes, string) result"
  sha256_hex :: "bytes \<Rightarrow> string"

datatype CanonicalizationError = Serialization string | UnsafeInteger string

definition MAX_SAFE_INTEGER :: int where
  "MAX_SAFE_INTEGER = 9007199254740991"

definition number_is_i64 :: "json_number \<Rightarrow> bool" where
  "number_is_i64 n = (case n of PosInt v \<Rightarrow> unat v < 2 ^ 63 | NegInt _ \<Rightarrow> True | Float _ \<Rightarrow> False)"

definition number_is_u64 :: "json_number \<Rightarrow> bool" where
  "number_is_u64 n = (case n of PosInt _ \<Rightarrow> True | _ \<Rightarrow> False)"

text \<open>The integer a \<open>PosInt\<close> or \<open>NegInt\<close> number stands for, and its rendering.\<close>

definition number_int :: "json_number \<Rightarrow> int" where
  "number_int n = (case n of PosInt v \<Rightarrow> uint v | NegInt v \<Rightarrow> sint v | Float _ \<Rightarrow> 0)"

definition check_i_json_number :: "json_number \<Rightarrow> (unit, CanonicalizationError) result" where
  "check_i_json_number n =
     (if number_is_i64 n then
        refuse_if (\<not> (- MAX_SAFE_INTEGER \<le> number_int n \<and> number_int n \<le> MAX_SAFE_INTEGER))
          (UnsafeInteger (show_int (number_int n)))
      else if number_is_u64 n then
        refuse_if (number_int n > MAX_SAFE_INTEGER) (UnsafeInteger (show_int (number_int n)))
      else Ok ())"

fun validate_i_json_numbers :: "json \<Rightarrow> (unit, CanonicalizationError) result" where
  "validate_i_json_numbers (JNumber n) = check_i_json_number n"
| "validate_i_json_numbers (JArray vs) = run_checks (map validate_i_json_numbers vs)"
| "validate_i_json_numbers (JObject es) = run_checks (map (\<lambda>e. validate_i_json_numbers (snd e)) es)"
| "validate_i_json_numbers JNull = Ok ()"
| "validate_i_json_numbers (JBool _) = Ok ()"
| "validate_i_json_numbers (JString _) = Ok ()"

definition canonical_json_bytes ::
  "'x externals_scheme \<Rightarrow> json \<Rightarrow> (bytes, CanonicalizationError) result" where
  "canonical_json_bytes x v =
     and_then (validate_i_json_numbers v) (\<lambda>_. map_err Serialization (jcs_to_vec x v))"

text \<open>
  For a serializable type the value is first turned into JSON by the serializer that
  \<open>serde\<close> derives for it, here the argument \<open>to_value\<close>.
\<close>

definition canonical_json_bytes_of ::
  "'x externals_scheme \<Rightarrow> ('t \<Rightarrow> (json, string) result) \<Rightarrow> 't \<Rightarrow>
   (bytes, CanonicalizationError) result" where
  "canonical_json_bytes_of x to_value t =
     and_then (map_err Serialization (to_value t)) (canonical_json_bytes x)"

type_synonym Sha256Digest = string

datatype DigestParseError = DigestParseError

definition parse_sha256_digest :: "string \<Rightarrow> (Sha256Digest, DigestParseError) result" where
  "parse_sha256_digest value =
     (case strip_prefix ''sha256:'' value of
        None \<Rightarrow> Err DigestParseError
      | Some hex \<Rightarrow>
          if length hex \<noteq> 64 \<or> \<not> list_all is_lower_hex_digit hex then Err DigestParseError
          else Ok value)"

definition sha256_bytes :: "'x externals_scheme \<Rightarrow> bytes \<Rightarrow> Sha256Digest" where
  "sha256_bytes x bs = ''sha256:'' @ sha256_hex x bs"

definition semantic_digest ::
  "'x externals_scheme \<Rightarrow> json \<Rightarrow> (Sha256Digest, CanonicalizationError) result" where
  "semantic_digest x v = map_ok (sha256_bytes x) (canonical_json_bytes x v)"

definition semantic_digest_of ::
  "'x externals_scheme \<Rightarrow> ('t \<Rightarrow> (json, string) result) \<Rightarrow> 't \<Rightarrow>
   (Sha256Digest, CanonicalizationError) result" where
  "semantic_digest_of x to_value t = map_ok (sha256_bytes x) (canonical_json_bytes_of x to_value t)"

section \<open>Tokens\<close>

definition MAX_TOKEN_BYTES :: usize where
  "MAX_TOKEN_BYTES = 255"

datatype TokenError = Empty | TooLong usize usize | InvalidCharacter usize nat

text \<open>The code point of the first character of a UTF-8 text.\<close>

fun utf8_first :: "string \<Rightarrow> nat" where
  "utf8_first [] = 0"
| "utf8_first (c # cs) =
     (let lead = (of_char c :: nat); low = map (\<lambda>b. (of_char b :: nat) mod 64) cs
      in if lead < 128 then lead
         else if lead < 224 then foldl (\<lambda>acc b. 64 * acc + b) (lead - 192) (take 1 low)
         else if lead < 240 then foldl (\<lambda>acc b. 64 * acc + b) (lead - 224) (take 2 low)
         else foldl (\<lambda>acc b. 64 * acc + b) (lead - 240) (take 3 low))"

definition token_character :: "char \<Rightarrow> bool" where
  "token_character c \<longleftrightarrow>
     is_ascii_alphanumeric c \<or>
     c \<in> {CHR ''.'', CHR ''_'', CHR ''-'', CHR '':'', CHR ''/'', CHR ''@''}"

fun validate_token_chars :: "usize \<Rightarrow> string \<Rightarrow> (unit, TokenError) result" where
  "validate_token_chars index [] = Ok ()"
| "validate_token_chars index (c # cs) =
     (if token_character c then validate_token_chars (Suc index) cs
      else Err (InvalidCharacter index (utf8_first (c # cs))))"

definition validate_token :: "string \<Rightarrow> (unit, TokenError) result" where
  "validate_token value =
     run_checks
       [refuse_if (value = []) Empty,
        refuse_if (length value > MAX_TOKEN_BYTES) (TooLong (length value) MAX_TOKEN_BYTES),
        validate_token_chars 0 value]"

definition token_new :: "string \<Rightarrow> (string, TokenError) result" where
  "token_new value = map_ok (\<lambda>_. value) (validate_token value)"

section \<open>Laws of the canonical form\<close>

text \<open>Every number of a document, at every depth.\<close>

fun json_numbers :: "json \<Rightarrow> json_number list" where
  "json_numbers (JNumber n) = [n]"
| "json_numbers (JArray vs) = concat (map json_numbers vs)"
| "json_numbers (JObject es) = concat (map (\<lambda>e. json_numbers (snd e)) es)"
| "json_numbers _ = []"

definition exact_i_json :: "json_number \<Rightarrow> bool" where
  "exact_i_json n = (case n of Float _ \<Rightarrow> True | _ \<Rightarrow> \<bar>number_int n\<bar> \<le> 2 ^ 53 - 1)"

lemma check_i_json_number_Ok: "check_i_json_number n = Ok u \<longleftrightarrow> exact_i_json n"
proof (cases n)
  case (PosInt v)
  have "0 \<le> uint v" "- 9007199254740991 \<le> uint v"
    using uint_ge_0 [of v] by linarith+
  then show ?thesis
    using PosInt
    by (auto simp: check_i_json_number_def number_is_i64_def number_is_u64_def number_int_def
        exact_i_json_def MAX_SAFE_INTEGER_def)
next
  case (NegInt v)
  then show ?thesis
    by (auto simp: check_i_json_number_def number_is_i64_def number_int_def exact_i_json_def
        MAX_SAFE_INTEGER_def)
next
  case (Float v)
  then show ?thesis
    by (simp add: check_i_json_number_def number_is_i64_def number_is_u64_def exact_i_json_def)
qed

lemma validate_i_json_numbers_Ok:
  "validate_i_json_numbers v = Ok u \<longleftrightarrow> (\<forall>n \<in> set (json_numbers v). exact_i_json n)"
  by (induction v rule: validate_i_json_numbers.induct)
     (auto simp: check_i_json_number_Ok run_checks_map_Ok)

lemma canonical_json_bytes_Ok:
  "canonical_json_bytes x v = Ok bs \<longleftrightarrow>
     (\<forall>n \<in> set (json_numbers v). exact_i_json n) \<and> jcs_to_vec x v = Ok bs"
  by (auto simp: canonical_json_bytes_def and_then_Ok validate_i_json_numbers_Ok)

text \<open>
  A document has canonical bytes, and with them a semantic digest, only when every integer
  in it, at every depth, is exactly representable as an I-JSON number, and then the digest is the
  algorithm-qualified hash of what the canonicalizer renders.
\<close>

lemma semantic_digest_characterization:
  "semantic_digest x v = Ok d \<longleftrightarrow>
     list_all exact_i_json (json_numbers v) \<and>
     (\<exists>bs. jcs_to_vec x v = Ok bs \<and> d = ''sha256:'' @ sha256_hex x bs)"
  by (auto simp: semantic_digest_def canonical_json_bytes_Ok sha256_bytes_def list_all_iff)

lemma parse_sha256_digest_Ok:
  "parse_sha256_digest s = Ok d \<longleftrightarrow>
     d = s \<and> (\<exists>hex. s = ''sha256:'' @ hex \<and> length hex = 64 \<and> list_all is_lower_hex_digit hex)"
proof (cases "strip_prefix ''sha256:'' s")
  case None
  then have "\<nexists>hex. s = ''sha256:'' @ hex"
    by (metis not_Some_eq strip_prefix_Some)
  then show ?thesis by (simp add: parse_sha256_digest_def None)
next
  case (Some hex)
  then have "s = ''sha256:'' @ hex" by (simp only: strip_prefix_Some)
  then have "(\<exists>h. s = ''sha256:'' @ h \<and> length h = 64 \<and> list_all is_lower_hex_digit h) \<longleftrightarrow>
      length hex = 64 \<and> list_all is_lower_hex_digit hex"
    by (simp only: same_append_eq) blast
  then show ?thesis by (simp only: parse_sha256_digest_def Some option.case) auto
qed

section \<open>Laws of tokens\<close>

text \<open>
  The scan is the split of the text at its first character outside the alphabet.
\<close>

lemma validate_token_chars_split:
  "validate_token_chars i s =
     (case dropWhile token_character s of
        [] \<Rightarrow> Ok ()
      | bad \<Rightarrow> Err (InvalidCharacter (i + length (takeWhile token_character s)) (utf8_first bad)))"
  by (induction s arbitrary: i) (auto simp del: utf8_first.simps simp flip: dropWhile_eq_Nil_conv split: list.split)

lemma validate_token_chars_Ok:
  "validate_token_chars i s = Ok u \<longleftrightarrow> list_all token_character s"
  by (induction s arbitrary: i) auto

lemma validate_token_Ok:
  "validate_token s = Ok u \<longleftrightarrow> s \<noteq> [] \<and> length s \<le> 255 \<and> list_all token_character s"
  by (auto simp: validate_token_def validate_token_chars_Ok MAX_TOKEN_BYTES_def)

text \<open>
  A text is a token exactly when it has between one and 255 bytes of the token alphabet, and a
  text of admissible length that is refused is refused at its first byte outside the alphabet,
  with the character that stands there.
\<close>

theorem validate_token_decides:
  "(validate_token s = Ok () \<longleftrightarrow> 0 < length s \<and> length s \<le> 255 \<and> list_all token_character s) \<and>
   (validate_token s = Err Empty \<longleftrightarrow> s = []) \<and>
   (validate_token s = Err (TooLong n m) \<longleftrightarrow> n = length s \<and> m = 255 \<and> 255 < length s) \<and>
   (validate_token s = Err (InvalidCharacter i c) \<longleftrightarrow>
      length s \<le> 255 \<and> i = length (takeWhile token_character s) \<and> i < length s \<and>
      c = utf8_first (drop i s))"
proof (cases "dropWhile token_character s")
  case Nil
  then have all: "list_all token_character s" "takeWhile token_character s = s"
    by (simp_all add: dropWhile_eq_Nil_conv takeWhile_eq_all_conv list_all_iff)
  then have whole: "length (takeWhile token_character s) = length s" by metis
  show ?thesis
    using all(1)
    by (auto simp: whole validate_token_def validate_token_chars_split Nil MAX_TOKEN_BYTES_def
        refuse_if_def)
next
  case (Cons b bs)
  let ?k = "length (takeWhile token_character s)"
  have "drop ?k s = b # bs" using Cons dropWhile_eq_drop [of token_character s] by simp
  moreover from this have "?k < length s" by (metis drop_all linorder_not_le list.discI)
  moreover have "\<not> list_all token_character s"
    using Cons by (metis dropWhile_eq_Nil_conv list.discI list_all_iff)
  ultimately show ?thesis
    by (auto simp: validate_token_def validate_token_chars_split Cons MAX_TOKEN_BYTES_def
        refuse_if_def simp del: utf8_first.simps)
qed

end
