(* ===== verification/Protocol_Model.thy ===== *)
theory Protocol_Model
  imports Protocol_Primitives
begin

text \<open>
  The documents of the helper protocol (\<open>crates/nq-protocol/src/model.rs\<close>) and the builders
  that assemble them (\<open>crates/nq-protocol/src/builder.rs\<close>, without the closing \<open>build\<close> calls,
  which belong to the validation theory). Token newtypes are their text; an instant is its
  nanosecond count.
\<close>

section \<open>Constants of the protocol\<close>

definition HELPER_PROTOCOL_VERSION :: string where
  "HELPER_PROTOCOL_VERSION = ''nq.helper.v1''"

definition HELPER_REQUEST_SCHEMA :: string where
  "HELPER_REQUEST_SCHEMA = ''nq.helper.request.v1''"

definition HELPER_RESPONSE_SCHEMA :: string where
  "HELPER_RESPONSE_SCHEMA = ''nq.helper.response.v1''"

definition EVIDENCE_REPORT_SCHEMA :: string where
  "EVIDENCE_REPORT_SCHEMA = ''nq.evidence_report.v1''"

definition MAX_REQUEST_FRAME_BYTES :: usize where
  "MAX_REQUEST_FRAME_BYTES = 1048576"

definition MAX_RESPONSE_FRAME_BYTES :: usize where
  "MAX_RESPONSE_FRAME_BYTES = 16 * 1048576"

definition MAX_OBSERVATIONS :: usize where
  "MAX_OBSERVATIONS = 65535"

definition MAX_COVERAGE_ENTRIES :: usize where
  "MAX_COVERAGE_ENTRIES = 4096"

definition MAX_REPORT_ERRORS :: usize where
  "MAX_REPORT_ERRORS = 1024"

section \<open>Documents\<close>

record ProfileBinding =
  pb_id :: string
  pb_version :: string
  pb_digest :: Sha256Digest

record ScopeBinding =
  scope_kind :: string
  scope_value :: json

record VantageBinding =
  vantage_kind :: string
  vantage_value :: json

record SubjectBinding =
  sb_subject :: string
  sb_scope :: ScopeBinding
  sb_vantage :: VantageBinding

datatype MonotonicClock = LinuxBoottime

record MonotonicDeadline =
  dl_clock :: MonotonicClock
  dl_expires_at_ns :: u64

definition MonotonicDeadline_default :: MonotonicDeadline where
  "MonotonicDeadline_default = \<lparr> dl_clock = LinuxBoottime, dl_expires_at_ns = 1 \<rparr>"

record CollectionBounds =
  max_response_bytes :: u32
  max_observations :: u32
  max_payload_bytes :: u32
  max_coverage_entries :: u32
  max_report_errors :: u32
  max_checkpoint_bytes :: u32

definition CollectionBounds_default :: CollectionBounds where
  "CollectionBounds_default =
     \<lparr> max_response_bytes = 4 * 1048576,
       max_observations = 4096,
       max_payload_bytes = 64 * 1024,
       max_coverage_entries = 256,
       max_report_errors = 128,
       max_checkpoint_bytes = 64 * 1024 \<rparr>"

record Checkpoint =
  checkpoint_value :: json

record HelperRequest =
  req_schema :: string
  req_protocol_version :: string
  req_request_id :: string
  req_instance_id :: string
  req_profile :: ProfileBinding
  req_binding :: SubjectBinding
  req_granted_capabilities :: "string list"
  req_checkpoint :: "Checkpoint option"
  req_deadline :: MonotonicDeadline
  req_bounds :: CollectionBounds

record RequestEcho =
  echo_protocol_version :: string
  echo_request_id :: string
  echo_instance_id :: string
  echo_profile :: ProfileBinding
  echo_binding :: SubjectBinding
  echo_granted_capabilities :: "string list"
  echo_checkpoint :: "Checkpoint option"
  echo_deadline :: MonotonicDeadline
  echo_bounds :: CollectionBounds

definition RequestEcho_from :: "HelperRequest \<Rightarrow> RequestEcho" where
  "RequestEcho_from request =
     \<lparr> echo_protocol_version = req_protocol_version request,
       echo_request_id = req_request_id request,
       echo_instance_id = req_instance_id request,
       echo_profile = req_profile request,
       echo_binding = req_binding request,
       echo_granted_capabilities = req_granted_capabilities request,
       echo_checkpoint = req_checkpoint request,
       echo_deadline = req_deadline request,
       echo_bounds = req_bounds request \<rparr>"

datatype ReportStatus = Complete | Partial | Failed

datatype CoverageState = Complete | Partial | Unavailable

record CoverageDeclaration =
  cov_kind :: string
  cov_subject :: "string option"
  cov_state :: CoverageState
  cov_detail :: "json option"

record Observation =
  obs_ordinal :: u32
  obs_kind :: string
  obs_subject :: string
  obs_observed_at :: instant
  obs_payload :: json

datatype ErrorSeverity = Warning | Error

record ReportError =
  err_code :: string
  err_severity :: ErrorSeverity
  err_message :: string
  err_subject :: "string option"
  err_observation_ordinal :: "u32 option"
  err_retriable :: bool

record BackendIdentity =
  be_name :: string
  be_version :: "string option"
  be_digest :: "Sha256Digest option"

record BackendProvenance =
  bp_implementation :: BackendIdentity
  bp_tools :: "BackendIdentity list"

record EvidenceReport =
  rep_schema :: string
  rep_profile :: ProfileBinding
  rep_binding :: SubjectBinding
  rep_observed_at :: instant
  rep_status :: ReportStatus
  rep_coverage :: "CoverageDeclaration list"
  rep_observations :: "Observation list"
  rep_errors :: "ReportError list"
  rep_used_capabilities :: "string list"
  rep_backend :: BackendProvenance
  rep_next_checkpoint :: "Checkpoint option"

datatype RefusalBoundary =
    Protocol | Profile | Scope | Vantage | Capability
  | Deadline | Checkpoint | Collection | Resource | Internal

datatype RefusalCode =
    UnsupportedProtocol | UnknownProfile | ProfileDigestMismatch | UnsupportedScope
  | UnsupportedVantage | CapabilityDenied | DeadlineExpired | BoundsUnsupported
  | CheckpointInvalid | CollectionFailed | ResourceExhausted | InternalError

record Refusal =
  rfs_responsible_instance_id :: string
  rfs_boundary :: RefusalBoundary
  rfs_code :: RefusalCode
  rfs_message :: string
  rfs_retriable :: bool
  rfs_details :: json

datatype ResponseOutcome = Report EvidenceReport | Refusal Refusal

record HelperResponse =
  resp_schema :: string
  resp_echo :: RequestEcho
  resp_outcome :: ResponseOutcome

definition HelperResponse_report :: "HelperRequest \<Rightarrow> EvidenceReport \<Rightarrow> HelperResponse" where
  "HelperResponse_report request report =
     \<lparr> resp_schema = HELPER_RESPONSE_SCHEMA, resp_echo = RequestEcho_from request,
       resp_outcome = ResponseOutcome.Report report \<rparr>"

definition HelperResponse_refusal :: "HelperRequest \<Rightarrow> Refusal \<Rightarrow> HelperResponse" where
  "HelperResponse_refusal request refusal =
     \<lparr> resp_schema = HELPER_RESPONSE_SCHEMA, resp_echo = RequestEcho_from request,
       resp_outcome = ResponseOutcome.Refusal refusal \<rparr>"

section \<open>The wire form of the deadline\<close>

text \<open>
  The module \<open>decimal_u64\<close>: the deadline travels as a canonical decimal text. The decoder receives
  the text of the JSON string and reports the text of its error.
\<close>

definition decimal_u64_serialize :: "u64 \<Rightarrow> string" where
  "decimal_u64_serialize value = show_nat (unat value)"

definition decimal_u64_deserialize :: "string \<Rightarrow> (u64, string) result" where
  "decimal_u64_deserialize value =
     (if value = [] \<or> (length value > 1 \<and> starts_with value ''0'') \<or> \<not> list_all is_ascii_digit value
      then Err ''monotonic nanoseconds must be a canonical decimal u64 string''
      else (case parse_unsigned (2 ^ 64 - 1) value of
              Some n \<Rightarrow> Ok (of_nat n)
            | None \<Rightarrow> Err ''number too large to fit in target type''))"

section \<open>Builders\<close>

definition HelperRequest_builder ::
  "string \<Rightarrow> string \<Rightarrow> ProfileBinding \<Rightarrow> SubjectBinding \<Rightarrow> MonotonicDeadline \<Rightarrow> HelperRequest" where
  "HelperRequest_builder request_id instance_id profile binding deadline =
     \<lparr> req_schema = HELPER_REQUEST_SCHEMA,
       req_protocol_version = HELPER_PROTOCOL_VERSION,
       req_request_id = request_id,
       req_instance_id = instance_id,
       req_profile = profile,
       req_binding = binding,
       req_granted_capabilities = [],
       req_checkpoint = None,
       req_deadline = deadline,
       req_bounds = CollectionBounds_default \<rparr>"

definition builder_bounds :: "CollectionBounds \<Rightarrow> HelperRequest \<Rightarrow> HelperRequest" where
  "builder_bounds bounds self = self \<lparr> req_bounds := bounds \<rparr>"

definition builder_capability :: "string \<Rightarrow> HelperRequest \<Rightarrow> HelperRequest" where
  "builder_capability capability self =
     self \<lparr> req_granted_capabilities := req_granted_capabilities self @ [capability] \<rparr>"

definition builder_capabilities :: "string list \<Rightarrow> HelperRequest \<Rightarrow> HelperRequest" where
  "builder_capabilities capabilities self = self \<lparr> req_granted_capabilities := capabilities \<rparr>"

definition builder_checkpoint :: "Checkpoint \<Rightarrow> HelperRequest \<Rightarrow> HelperRequest" where
  "builder_checkpoint checkpoint self = self \<lparr> req_checkpoint := Some checkpoint \<rparr>"

definition EvidenceReport_builder ::
  "ProfileBinding \<Rightarrow> SubjectBinding \<Rightarrow> instant \<Rightarrow> ReportStatus \<Rightarrow> BackendProvenance \<Rightarrow> EvidenceReport" where
  "EvidenceReport_builder profile binding observed_at status backend =
     \<lparr> rep_schema = EVIDENCE_REPORT_SCHEMA,
       rep_profile = profile,
       rep_binding = binding,
       rep_observed_at = observed_at,
       rep_status = status,
       rep_coverage = [],
       rep_observations = [],
       rep_errors = [],
       rep_used_capabilities = [],
       rep_backend = backend,
       rep_next_checkpoint = None \<rparr>"

definition builder_coverage :: "CoverageDeclaration \<Rightarrow> EvidenceReport \<Rightarrow> EvidenceReport" where
  "builder_coverage declaration self = self \<lparr> rep_coverage := rep_coverage self @ [declaration] \<rparr>"

definition builder_observation :: "Observation \<Rightarrow> EvidenceReport \<Rightarrow> EvidenceReport" where
  "builder_observation observation self =
     self \<lparr> rep_observations := rep_observations self @ [observation] \<rparr>"

definition builder_observed_payload ::
  "string \<Rightarrow> string \<Rightarrow> instant \<Rightarrow> json \<Rightarrow> EvidenceReport \<Rightarrow> EvidenceReport" where
  "builder_observed_payload kind subject observed_at payload self =
     (let ordinal = clamp_u32 (length (rep_observations self)) in
      self \<lparr> rep_observations := rep_observations self @
               [\<lparr> obs_ordinal = ordinal, obs_kind = kind, obs_subject = subject,
                  obs_observed_at = observed_at, obs_payload = payload \<rparr>] \<rparr>)"

definition builder_error :: "ReportError \<Rightarrow> EvidenceReport \<Rightarrow> EvidenceReport" where
  "builder_error e self = self \<lparr> rep_errors := rep_errors self @ [e] \<rparr>"

definition builder_used_capability :: "string \<Rightarrow> EvidenceReport \<Rightarrow> EvidenceReport" where
  "builder_used_capability capability self =
     self \<lparr> rep_used_capabilities := rep_used_capabilities self @ [capability] \<rparr>"

definition builder_next_checkpoint :: "Checkpoint \<Rightarrow> EvidenceReport \<Rightarrow> EvidenceReport" where
  "builder_next_checkpoint checkpoint self = self \<lparr> rep_next_checkpoint := Some checkpoint \<rparr>"

section \<open>The deadline survives the wire\<close>

text \<open>
  The deadline text decodes to a value exactly when it is the decimal rendering of that value:
  the codec is a bijection between the 64-bit numbers and the canonical texts, and a text with
  a sign, a leading zero, another character or a greater value is refused.
\<close>

theorem decimal_u64_round_trip:
  "decimal_u64_deserialize s = Ok n \<longleftrightarrow> s = decimal_u64_serialize n"
proof
  assume "decimal_u64_deserialize s = Ok n"
  then have s: "s \<noteq> []" "list_all is_ascii_digit s" "1 < length s \<longrightarrow> hd s \<noteq> CHR ''0''"
    and n: "parse_unsigned (2 ^ 64 - 1) s \<noteq> None" "n = of_nat (the (parse_unsigned (2 ^ 64 - 1) s))"
    by (cases s; auto simp: decimal_u64_deserialize_def starts_with_iff split: if_splits option.splits)+
  then have "digits_value s < 2 ^ 64" "n = of_nat (digits_value s)"
    by (auto simp: parse_unsigned_digits split: if_splits)
  then have "unat n = digits_value s" by (simp add: unat_of_nat)
  then show "s = decimal_u64_serialize n"
    using s by (simp add: decimal_u64_serialize_def show_nat_digits_value)
next
  assume s: "s = decimal_u64_serialize n"
  have lead: "\<not> (1 < length s \<and> starts_with s ''0'')"
    using hd_show_nat [of "unat n"] length_show_nat_gt_1 [of "unat n"]
    by (auto simp: s decimal_u64_serialize_def starts_with_iff)
  have "unat n \<le> 2 ^ 64 - 1"
    using unsigned_less [of n, where 'a = nat] by simp
  then have "parse_unsigned (2 ^ 64 - 1) s = Some (unat n)"
    by (simp add: s decimal_u64_serialize_def parse_unsigned_show_nat)
  then show "decimal_u64_deserialize s = Ok n"
    using lead show_nat_digits [of "unat n"] show_nat_nonempty [of "unat n"]
    by (auto simp: decimal_u64_deserialize_def s decimal_u64_serialize_def)
qed

end
