(* ===== verification/Protocol_Validation.thy ===== *)
theory Protocol_Validation
  imports Protocol_Model
begin

text \<open>
  The common-envelope validation of the helper protocol
  (\<open>crates/nq-protocol/src/validation.rs\<close>) and the closing \<open>build\<close> calls of the builders.
  Every check is one result value; a function is the run of its checks in the order of the source,
  so the error it returns is that of the first check that fails.

  The serializer that \<open>serde\<close> derives for a response is generated code: it is the field
  \<open>response_to_value\<close> of the externals.
\<close>

record wire_externals = externals +
  response_to_value :: "HelperResponse \<Rightarrow> (json, string) result"

section \<open>Limits and errors\<close>

definition MAX_BINDING_BYTES :: usize where
  "MAX_BINDING_BYTES = 64 * 1024"

definition MAX_DIAGNOSTIC_BYTES :: usize where
  "MAX_DIAGNOSTIC_BYTES = 64 * 1024"

definition MAX_MESSAGE_BYTES :: usize where
  "MAX_MESSAGE_BYTES = 4 * 1024"

definition MAX_BACKEND_IDENTITIES :: usize where
  "MAX_BACKEND_IDENTITIES = 64"

definition MAX_BACKEND_VERSION_BYTES :: usize where
  "MAX_BACKEND_VERSION_BYTES = 512"

definition MAX_HARD_PAYLOAD_BYTES :: usize where
  "MAX_HARD_PAYLOAD_BYTES = 1048576"

text \<open>The fields of each variant stand in the order of the source.\<close>

datatype ValidationError =
    InvalidSchema string string string
  | InvalidProtocolVersion string string
  | InvalidField string string
  | BoundExceeded string usize usize
  | Duplicate string string
  | EchoMismatch string
  | CapabilityEscape string
  | Canonicalization string CanonicalizationError

section \<open>Single checks\<close>

definition exact_schema :: "string \<Rightarrow> string \<Rightarrow> string \<Rightarrow> (unit, ValidationError) result" where
  "exact_schema document actual expected =
     (if actual = expected then Ok () else Err (InvalidSchema document expected actual))"

definition upper_bound :: "string \<Rightarrow> usize \<Rightarrow> usize \<Rightarrow> (unit, ValidationError) result" where
  "upper_bound field actual limit =
     (if actual > limit then Err (BoundExceeded field limit actual) else Ok ())"

definition bounded_nonempty_text :: "string \<Rightarrow> string \<Rightarrow> usize \<Rightarrow> (unit, ValidationError) result" where
  "bounded_nonempty_text field value limit =
     (if value = [] then Err (InvalidField field ''must not be empty'')
      else upper_bound field (length value) limit)"

definition bounded_json ::
  "'x externals_scheme \<Rightarrow> string \<Rightarrow> json \<Rightarrow> usize \<Rightarrow> (unit, ValidationError) result" where
  "bounded_json x field value limit =
     and_then (map_err (Canonicalization field) (canonical_json_bytes x value))
       (\<lambda>bs. upper_bound field (length bs) limit)"

text \<open>A check on an optional member: absent members pass.\<close>

definition check_some :: "('t \<Rightarrow> (unit, 'e) result) \<Rightarrow> 't option \<Rightarrow> (unit, 'e) result" where
  "check_some f v = (case v of None \<Rightarrow> Ok () | Some t \<Rightarrow> f t)"

fun unique_capabilities ::
  "string \<Rightarrow> string set \<Rightarrow> string list \<Rightarrow> (unit, ValidationError) result" where
  "unique_capabilities field seen [] = Ok ()"
| "unique_capabilities field seen (capability # capabilities) =
     (if capability \<in> seen then Err (Duplicate field capability)
      else unique_capabilities field (insert capability seen) capabilities)"

definition validate_unique_capabilities ::
  "string list \<Rightarrow> string \<Rightarrow> (unit, ValidationError) result" where
  "validate_unique_capabilities capabilities field = unique_capabilities field {} capabilities"

section \<open>Requests\<close>

definition validate_bounds :: "CollectionBounds \<Rightarrow> (unit, ValidationError) result" where
  "validate_bounds bounds = run_checks
     [refuse_if (max_response_bytes bounds < 256)
        (InvalidField ''bounds.max_response_bytes'' ''must be at least 256 bytes''),
      upper_bound ''bounds.max_response_bytes''
        (unat (max_response_bytes bounds)) MAX_RESPONSE_FRAME_BYTES,
      upper_bound ''bounds.max_observations''
        (unat (max_observations bounds)) MAX_OBSERVATIONS,
      upper_bound ''bounds.max_payload_bytes''
        (unat (max_payload_bytes bounds)) MAX_HARD_PAYLOAD_BYTES,
      upper_bound ''bounds.max_coverage_entries''
        (unat (max_coverage_entries bounds)) MAX_COVERAGE_ENTRIES,
      upper_bound ''bounds.max_report_errors''
        (unat (max_report_errors bounds)) MAX_REPORT_ERRORS,
      upper_bound ''bounds.max_checkpoint_bytes''
        (unat (max_checkpoint_bytes bounds)) MAX_HARD_PAYLOAD_BYTES]"

definition validate_request ::
  "'x externals_scheme \<Rightarrow> HelperRequest \<Rightarrow> (unit, ValidationError) result" where
  "validate_request x request = run_checks
     [exact_schema ''request'' (req_schema request) HELPER_REQUEST_SCHEMA,
      refuse_if (req_protocol_version request \<noteq> HELPER_PROTOCOL_VERSION)
        (InvalidProtocolVersion HELPER_PROTOCOL_VERSION (req_protocol_version request)),
      refuse_if (dl_expires_at_ns (req_deadline request) = 0)
        (InvalidField ''deadline.expires_at_ns'' ''zero is not an absolute monotonic deadline''),
      validate_bounds (req_bounds request),
      validate_unique_capabilities (req_granted_capabilities request) ''granted_capabilities'',
      bounded_json x ''binding.scope.value''
        (scope_value (sb_scope (req_binding request))) MAX_BINDING_BYTES,
      bounded_json x ''binding.vantage.value''
        (vantage_value (sb_vantage (req_binding request))) MAX_BINDING_BYTES,
      check_some
        (\<lambda>checkpoint. bounded_json x ''checkpoint.value'' (checkpoint_value checkpoint)
           (unat (max_checkpoint_bytes (req_bounds request))))
        (req_checkpoint request)]"

definition HelperRequestBuilder_build ::
  "'x externals_scheme \<Rightarrow> HelperRequest \<Rightarrow> (HelperRequest, ValidationError) result" where
  "HelperRequestBuilder_build x self = map_ok (\<lambda>_. self) (validate_request x self)"

section \<open>Reports\<close>

fun validate_coverage_entries ::
  "'x externals_scheme \<Rightarrow> (string \<times> string option) set \<Rightarrow> CoverageDeclaration list \<Rightarrow>
   (unit, ValidationError) result" where
  "validate_coverage_entries x seen [] = Ok ()"
| "validate_coverage_entries x seen (declaration # declarations) =
     (let key = (cov_kind declaration, cov_subject declaration) in
      if key \<in> seen then
        Err (Duplicate ''report.coverage(kind,subject)''
          (cov_kind declaration @ '':'' @
           (case cov_subject declaration of None \<Rightarrow> ''<root>'' | Some s \<Rightarrow> s)))
      else
        and_then
          (check_some
             (\<lambda>detail. bounded_json x ''report.coverage[].detail'' detail MAX_DIAGNOSTIC_BYTES)
             (cov_detail declaration))
          (\<lambda>_. validate_coverage_entries x (insert key seen) declarations))"

fun validate_observation_entries ::
  "'x externals_scheme \<Rightarrow> usize \<Rightarrow> Observation list \<Rightarrow> (unit, ValidationError) result" where
  "validate_observation_entries x index [] = Ok ()"
| "validate_observation_entries x index (observation # observations) = run_checks
     [refuse_if (unat (obs_ordinal observation) \<noteq> index)
        (InvalidField ''report.observations[].ordinal''
          (''ordinal '' @ show_nat (unat (obs_ordinal observation)) @ '' appears at position '' @
           show_nat index @ ''; ordinals must be contiguous from zero'')),
      bounded_json x ''report.observations[].payload'' (obs_payload observation)
        MAX_HARD_PAYLOAD_BYTES,
      validate_observation_entries x (Suc index) observations]"

definition validate_error_entry ::
  "usize \<Rightarrow> ReportError \<Rightarrow> (unit, ValidationError) result" where
  "validate_error_entry observation_count e = run_checks
     [bounded_nonempty_text ''report.errors[].message'' (err_message e) MAX_MESSAGE_BYTES,
      check_some
        (\<lambda>ordinal. refuse_if (unat ordinal \<ge> observation_count)
           (InvalidField ''report.errors[].observation_ordinal''
             (''ordinal '' @ show_nat (unat ordinal) @ '' does not identify an observation'')))
        (err_observation_ordinal e)]"

definition validate_backend :: "BackendIdentity \<Rightarrow> string \<Rightarrow> (unit, ValidationError) result" where
  "validate_backend identity field =
     check_some (\<lambda>version. bounded_nonempty_text field version MAX_BACKEND_VERSION_BYTES)
       (be_version identity)"

definition validate_report_status :: "EvidenceReport \<Rightarrow> (unit, ValidationError) result" where
  "validate_report_status report =
     (case rep_status report of
        ReportStatus.Complete \<Rightarrow> run_checks
          [refuse_if (list_ex (\<lambda>entry. cov_state entry \<noteq> CoverageState.Complete) (rep_coverage report))
             (InvalidField ''report.status''
               ''complete report contains partial or unavailable coverage''),
           refuse_if (list_ex (\<lambda>e. err_severity e = ErrorSeverity.Error) (rep_errors report))
             (InvalidField ''report.status''
               ''complete report contains an error-severity report error'')]
      | ReportStatus.Failed \<Rightarrow>
          refuse_if (\<not> list_ex (\<lambda>e. err_severity e = ErrorSeverity.Error) (rep_errors report))
            (InvalidField ''report.status''
              ''failed report must retain at least one error-severity report error'')
      | ReportStatus.Partial \<Rightarrow> Ok ())"

definition validate_report ::
  "'x externals_scheme \<Rightarrow> EvidenceReport \<Rightarrow> (unit, ValidationError) result" where
  "validate_report x report = run_checks
     [exact_schema ''evidence report'' (rep_schema report) EVIDENCE_REPORT_SCHEMA,
      bounded_json x ''report.binding.scope.value''
        (scope_value (sb_scope (rep_binding report))) MAX_BINDING_BYTES,
      bounded_json x ''report.binding.vantage.value''
        (vantage_value (sb_vantage (rep_binding report))) MAX_BINDING_BYTES,
      upper_bound ''report.coverage'' (length (rep_coverage report)) MAX_COVERAGE_ENTRIES,
      upper_bound ''report.observations'' (length (rep_observations report)) MAX_OBSERVATIONS,
      upper_bound ''report.errors'' (length (rep_errors report)) MAX_REPORT_ERRORS,
      upper_bound ''report.backend.tools'' (length (bp_tools (rep_backend report)))
        MAX_BACKEND_IDENTITIES,
      validate_coverage_entries x {} (rep_coverage report),
      validate_observation_entries x 0 (rep_observations report),
      run_checks (map (validate_error_entry (length (rep_observations report))) (rep_errors report)),
      validate_unique_capabilities (rep_used_capabilities report) ''report.used_capabilities'',
      validate_backend (bp_implementation (rep_backend report)) ''report.backend.implementation'',
      run_checks (map (\<lambda>tool. validate_backend tool ''report.backend.tools[]'')
        (bp_tools (rep_backend report))),
      check_some
        (\<lambda>checkpoint. bounded_json x ''report.next_checkpoint.value''
           (checkpoint_value checkpoint) MAX_HARD_PAYLOAD_BYTES)
        (rep_next_checkpoint report),
      validate_report_status report]"

definition EvidenceReportBuilder_build ::
  "'x externals_scheme \<Rightarrow> EvidenceReport \<Rightarrow> (EvidenceReport, ValidationError) result" where
  "EvidenceReportBuilder_build x self = map_ok (\<lambda>_. self) (validate_report x self)"

section \<open>Responses\<close>

text \<open>The derived \<open>Debug\<close> names that the refusal check prints.\<close>

fun show_RefusalBoundary :: "RefusalBoundary \<Rightarrow> string" where
  "show_RefusalBoundary RefusalBoundary.Protocol = ''Protocol''"
| "show_RefusalBoundary RefusalBoundary.Profile = ''Profile''"
| "show_RefusalBoundary RefusalBoundary.Scope = ''Scope''"
| "show_RefusalBoundary RefusalBoundary.Vantage = ''Vantage''"
| "show_RefusalBoundary RefusalBoundary.Capability = ''Capability''"
| "show_RefusalBoundary RefusalBoundary.Deadline = ''Deadline''"
| "show_RefusalBoundary RefusalBoundary.Checkpoint = ''Checkpoint''"
| "show_RefusalBoundary RefusalBoundary.Collection = ''Collection''"
| "show_RefusalBoundary RefusalBoundary.Resource = ''Resource''"
| "show_RefusalBoundary RefusalBoundary.Internal = ''Internal''"

fun show_RefusalCode :: "RefusalCode \<Rightarrow> string" where
  "show_RefusalCode RefusalCode.UnsupportedProtocol = ''UnsupportedProtocol''"
| "show_RefusalCode RefusalCode.UnknownProfile = ''UnknownProfile''"
| "show_RefusalCode RefusalCode.ProfileDigestMismatch = ''ProfileDigestMismatch''"
| "show_RefusalCode RefusalCode.UnsupportedScope = ''UnsupportedScope''"
| "show_RefusalCode RefusalCode.UnsupportedVantage = ''UnsupportedVantage''"
| "show_RefusalCode RefusalCode.CapabilityDenied = ''CapabilityDenied''"
| "show_RefusalCode RefusalCode.DeadlineExpired = ''DeadlineExpired''"
| "show_RefusalCode RefusalCode.BoundsUnsupported = ''BoundsUnsupported''"
| "show_RefusalCode RefusalCode.CheckpointInvalid = ''CheckpointInvalid''"
| "show_RefusalCode RefusalCode.CollectionFailed = ''CollectionFailed''"
| "show_RefusalCode RefusalCode.ResourceExhausted = ''ResourceExhausted''"
| "show_RefusalCode RefusalCode.InternalError = ''InternalError''"

fun expected_boundary :: "RefusalCode \<Rightarrow> RefusalBoundary" where
  "expected_boundary UnsupportedProtocol = RefusalBoundary.Protocol"
| "expected_boundary UnknownProfile = RefusalBoundary.Profile"
| "expected_boundary ProfileDigestMismatch = RefusalBoundary.Profile"
| "expected_boundary UnsupportedScope = RefusalBoundary.Scope"
| "expected_boundary UnsupportedVantage = RefusalBoundary.Vantage"
| "expected_boundary CapabilityDenied = RefusalBoundary.Capability"
| "expected_boundary DeadlineExpired = RefusalBoundary.Deadline"
| "expected_boundary BoundsUnsupported = RefusalBoundary.Resource"
| "expected_boundary ResourceExhausted = RefusalBoundary.Resource"
| "expected_boundary CheckpointInvalid = RefusalBoundary.Checkpoint"
| "expected_boundary CollectionFailed = RefusalBoundary.Collection"
| "expected_boundary InternalError = RefusalBoundary.Internal"

definition validate_refusal_pair :: "Refusal \<Rightarrow> (unit, ValidationError) result" where
  "validate_refusal_pair refusal =
     (let expected = expected_boundary (rfs_code refusal) in
      refuse_if (rfs_boundary refusal \<noteq> expected)
        (InvalidField ''refusal.boundary''
          (''boundary '' @ show_RefusalBoundary (rfs_boundary refusal) @
           '' is inconsistent with refusal code '' @ show_RefusalCode (rfs_code refusal) @
           ''; expected '' @ show_RefusalBoundary expected)))"

definition validate_response ::
  "'x externals_scheme \<Rightarrow> HelperResponse \<Rightarrow> (unit, ValidationError) result" where
  "validate_response x response = (let e = resp_echo response in run_checks
     [exact_schema ''response'' (resp_schema response) HELPER_RESPONSE_SCHEMA,
      refuse_if (echo_protocol_version e \<noteq> HELPER_PROTOCOL_VERSION)
        (InvalidProtocolVersion HELPER_PROTOCOL_VERSION (echo_protocol_version e)),
      refuse_if (dl_expires_at_ns (echo_deadline e) = 0)
        (InvalidField ''echo.deadline.expires_at_ns''
          ''zero is not an absolute monotonic deadline''),
      validate_bounds (echo_bounds e),
      validate_unique_capabilities (echo_granted_capabilities e) ''echo.granted_capabilities'',
      bounded_json x ''echo.binding.scope.value''
        (scope_value (sb_scope (echo_binding e))) MAX_BINDING_BYTES,
      bounded_json x ''echo.binding.vantage.value''
        (vantage_value (sb_vantage (echo_binding e))) MAX_BINDING_BYTES,
      check_some
        (\<lambda>checkpoint. bounded_json x ''echo.checkpoint.value'' (checkpoint_value checkpoint)
           (unat (max_checkpoint_bytes (echo_bounds e))))
        (echo_checkpoint e),
      (case resp_outcome response of
         ResponseOutcome.Report report \<Rightarrow> validate_report x report
       | ResponseOutcome.Refusal refusal \<Rightarrow> run_checks
           [bounded_nonempty_text ''refusal.message'' (rfs_message refusal) MAX_MESSAGE_BYTES,
            bounded_json x ''refusal.details'' (rfs_details refusal) MAX_DIAGNOSTIC_BYTES,
            validate_refusal_pair refusal])])"

section \<open>Exchanges\<close>

definition echo :: "string \<Rightarrow> ValidationError" where
  "echo field = EchoMismatch field"

definition validate_echo :: "RequestEcho \<Rightarrow> RequestEcho \<Rightarrow> (unit, ValidationError) result" where
  "validate_echo actual expected = run_checks
     [refuse_if (echo_protocol_version actual \<noteq> echo_protocol_version expected)
        (echo ''echo.protocol_version''),
      refuse_if (echo_request_id actual \<noteq> echo_request_id expected) (echo ''echo.request_id''),
      refuse_if (echo_instance_id actual \<noteq> echo_instance_id expected) (echo ''echo.instance_id''),
      refuse_if (echo_profile actual \<noteq> echo_profile expected) (echo ''echo.profile''),
      refuse_if (echo_binding actual \<noteq> echo_binding expected) (echo ''echo.binding''),
      refuse_if (echo_granted_capabilities actual \<noteq> echo_granted_capabilities expected)
        (echo ''echo.granted_capabilities''),
      refuse_if (echo_checkpoint actual \<noteq> echo_checkpoint expected) (echo ''echo.checkpoint''),
      refuse_if (echo_deadline actual \<noteq> echo_deadline expected) (echo ''echo.deadline''),
      refuse_if (echo_bounds actual \<noteq> echo_bounds expected) (echo ''echo.bounds'')]"

definition validate_exchange_outcome ::
  "'x externals_scheme \<Rightarrow> HelperRequest \<Rightarrow> ResponseOutcome \<Rightarrow> (unit, ValidationError) result" where
  "validate_exchange_outcome x request outcome =
     (case outcome of
        ResponseOutcome.Report report \<Rightarrow> run_checks
          [refuse_if (rep_profile report \<noteq> req_profile request) (echo ''outcome.report.profile''),
           refuse_if (rep_binding report \<noteq> req_binding request) (echo ''outcome.report.binding''),
           upper_bound ''report.observations'' (length (rep_observations report))
             (unat (max_observations (req_bounds request))),
           upper_bound ''report.coverage'' (length (rep_coverage report))
             (unat (max_coverage_entries (req_bounds request))),
           upper_bound ''report.errors'' (length (rep_errors report))
             (unat (max_report_errors (req_bounds request))),
           run_checks (map
             (\<lambda>observation. bounded_json x ''report.observations[].payload''
                (obs_payload observation) (unat (max_payload_bytes (req_bounds request))))
             (rep_observations report)),
           check_some
             (\<lambda>checkpoint. bounded_json x ''report.next_checkpoint.value''
                (checkpoint_value checkpoint) (unat (max_checkpoint_bytes (req_bounds request))))
             (rep_next_checkpoint report),
           run_checks (map
             (\<lambda>capability. refuse_if (capability \<notin> set (req_granted_capabilities request))
                (CapabilityEscape capability))
             (rep_used_capabilities report))]
      | ResponseOutcome.Refusal refusal \<Rightarrow>
          refuse_if (rfs_responsible_instance_id refusal \<noteq> req_instance_id request)
            (echo ''outcome.refusal.responsible_instance_id''))"

definition validate_exchange ::
  "'x wire_externals_scheme \<Rightarrow> HelperRequest \<Rightarrow> HelperResponse \<Rightarrow> (unit, ValidationError) result" where
  "validate_exchange x request response = run_checks
     [validate_request x request,
      validate_response x response,
      validate_echo (resp_echo response) (RequestEcho_from request),
      and_then
        (map_err (Canonicalization ''response'')
           (canonical_json_bytes_of x (response_to_value x) response))
        (\<lambda>bs. upper_bound ''response frame'' (length bs + 1)
           (unat (max_response_bytes (req_bounds request)))),
      validate_exchange_outcome x request (resp_outcome response)]"

section \<open>What the single checks decide\<close>

lemma exact_schema_Ok [checks, simp]: "exact_schema d a e = Ok u \<longleftrightarrow> a = e"
  by (simp add: exact_schema_def)

lemma upper_bound_Ok [checks, simp]: "upper_bound f a l = Ok u \<longleftrightarrow> a \<le> l"
  by (simp add: upper_bound_def not_less)

lemma bounded_nonempty_text_Ok [checks, simp]:
  "bounded_nonempty_text f v l = Ok u \<longleftrightarrow> v \<noteq> [] \<and> length v \<le> l"
  by (simp add: bounded_nonempty_text_def)

lemma check_some_Ok [checks, simp]:
  "check_some f v = Ok u \<longleftrightarrow> (\<forall>t. v = Some t \<longrightarrow> f t = Ok ())"
  by (simp add: check_some_def split: option.split)

text \<open>The value has a canonical form of at most the given number of bytes.\<close>

definition json_fits :: "'x externals_scheme \<Rightarrow> json \<Rightarrow> usize \<Rightarrow> bool" where
  "json_fits x v n \<longleftrightarrow> (\<exists>bs. canonical_json_bytes x v = Ok bs \<and> length bs \<le> n)"

lemma bounded_json_Ok [checks, simp]: "bounded_json x f v l = Ok u \<longleftrightarrow> json_fits x v l"
  by (simp add: bounded_json_def json_fits_def and_then_Ok)

lemma json_fits_mono: "json_fits x v m \<Longrightarrow> m \<le> n \<Longrightarrow> json_fits x v n"
  by (auto simp: json_fits_def)

lemma unique_capabilities_Ok:
  "unique_capabilities f seen cs = Ok u \<longleftrightarrow> distinct cs \<and> seen \<inter> set cs = {}"
  by (induction cs arbitrary: seen) auto

lemma validate_unique_capabilities_Ok [checks, simp]:
  "validate_unique_capabilities cs f = Ok u \<longleftrightarrow> distinct cs"
  by (simp add: validate_unique_capabilities_def unique_capabilities_Ok)

lemma validate_coverage_entries_Ok:
  "validate_coverage_entries x seen ds = Ok u \<longleftrightarrow>
     distinct (map (\<lambda>d. (cov_kind d, cov_subject d)) ds) \<and>
     seen \<inter> set (map (\<lambda>d. (cov_kind d, cov_subject d)) ds) = {} \<and>
     (\<forall>d \<in> set ds. \<forall>v. cov_detail d = Some v \<longrightarrow> json_fits x v MAX_DIAGNOSTIC_BYTES)"
  by (induction ds arbitrary: seen) (auto simp: Let_def and_then_Ok)

lemma validate_observation_entries_Ok:
  "validate_observation_entries x i obs = Ok u \<longleftrightarrow>
     map (unat \<circ> obs_ordinal) obs = [i..<i + length obs] \<and>
     (\<forall>ob \<in> set obs. json_fits x (obs_payload ob) MAX_HARD_PAYLOAD_BYTES)"
proof (induction obs arbitrary: i)
  case (Cons ob obs)
  have "[i..<i + length (ob # obs)] = i # [Suc i..<Suc i + length obs]"
    by (simp add: upt_conv_Cons del: upt_Suc)
  then show ?case using Cons.IH [of "Suc i"] by (auto simp del: upt_Suc)
qed simp

lemma validate_echo_Ok [checks, simp]: "validate_echo a b = Ok u \<longleftrightarrow> a = b"
  by (auto simp: validate_echo_def)

section \<open>The contract of an exchange\<close>

text \<open>
  What the protocol promises of a request, a report and a refusal, stated without the order of
  the checks, the running sets and the position counters of the code.
\<close>

definition bounds_law :: "CollectionBounds \<Rightarrow> bool" where
  "bounds_law b \<longleftrightarrow>
     unat (max_response_bytes b) \<in> {256..16777216} \<and>
     unat (max_observations b) \<le> 65535 \<and> unat (max_payload_bytes b) \<le> 1048576 \<and>
     unat (max_coverage_entries b) \<le> 4096 \<and> unat (max_report_errors b) \<le> 1024 \<and>
     unat (max_checkpoint_bytes b) \<le> 1048576"

definition binding_law :: "'x externals_scheme \<Rightarrow> SubjectBinding \<Rightarrow> bool" where
  "binding_law x b \<longleftrightarrow>
     json_fits x (scope_value (sb_scope b)) 65536 \<and>
     json_fits x (vantage_value (sb_vantage b)) 65536"

definition request_law :: "'x externals_scheme \<Rightarrow> HelperRequest \<Rightarrow> bool" where
  "request_law x r \<longleftrightarrow>
     req_schema r = ''nq.helper.request.v1'' \<and> req_protocol_version r = ''nq.helper.v1'' \<and>
     0 < dl_expires_at_ns (req_deadline r) \<and> bounds_law (req_bounds r) \<and>
     distinct (req_granted_capabilities r) \<and> binding_law x (req_binding r) \<and>
     (\<forall>c. req_checkpoint r = Some c \<longrightarrow>
        json_fits x (checkpoint_value c) (unat (max_checkpoint_bytes (req_bounds r))))"

definition backend_law :: "BackendIdentity \<Rightarrow> bool" where
  "backend_law b \<longleftrightarrow> (\<forall>v. be_version b = Some v \<longrightarrow> v \<noteq> [] \<and> length v \<le> 512)"

definition status_law :: "EvidenceReport \<Rightarrow> bool" where
  "status_law r \<longleftrightarrow>
     (rep_status r = ReportStatus.Complete \<longrightarrow>
        (\<forall>c \<in> set (rep_coverage r). cov_state c = CoverageState.Complete) \<and>
        (\<forall>e \<in> set (rep_errors r). err_severity e = Warning)) \<and>
     (rep_status r = ReportStatus.Failed \<longrightarrow>
        (\<exists>e \<in> set (rep_errors r). err_severity e = Error))"

text \<open>The structure of a report, with limits for its counts and its payload and cursor sizes.\<close>

definition report_structure ::
  "'x externals_scheme \<Rightarrow> usize \<Rightarrow> usize \<Rightarrow> usize \<Rightarrow> usize \<Rightarrow> usize \<Rightarrow> EvidenceReport \<Rightarrow> bool" where
  "report_structure x observations coverage errors payload cursor r \<longleftrightarrow>
     rep_schema r = ''nq.evidence_report.v1'' \<and>
     length (rep_observations r) \<le> observations \<and> length (rep_coverage r) \<le> coverage \<and>
     length (rep_errors r) \<le> errors \<and> length (bp_tools (rep_backend r)) \<le> 64 \<and>
     distinct (map (\<lambda>d. (cov_kind d, cov_subject d)) (rep_coverage r)) \<and>
     (\<forall>d \<in> set (rep_coverage r). \<forall>v. cov_detail d = Some v \<longrightarrow> json_fits x v 65536) \<and>
     map (unat \<circ> obs_ordinal) (rep_observations r) = [0..<length (rep_observations r)] \<and>
     (\<forall>ob \<in> set (rep_observations r). json_fits x (obs_payload ob) payload) \<and>
     (\<forall>e \<in> set (rep_errors r). err_message e \<noteq> [] \<and> length (err_message e) \<le> 4096 \<and>
        (\<forall>i. err_observation_ordinal e = Some i \<longrightarrow> unat i < length (rep_observations r))) \<and>
     distinct (rep_used_capabilities r) \<and>
     backend_law (bp_implementation (rep_backend r)) \<and>
     (\<forall>t \<in> set (bp_tools (rep_backend r)). backend_law t) \<and>
     (\<forall>c. rep_next_checkpoint r = Some c \<longrightarrow> json_fits x (checkpoint_value c) cursor) \<and>
     status_law r"

definition report_law :: "'x externals_scheme \<Rightarrow> EvidenceReport \<Rightarrow> bool" where
  "report_law x r \<longleftrightarrow>
     binding_law x (rep_binding r) \<and> report_structure x 65535 4096 1024 1048576 1048576 r"

definition refusal_law :: "'x externals_scheme \<Rightarrow> Refusal \<Rightarrow> bool" where
  "refusal_law x r \<longleftrightarrow>
     rfs_message r \<noteq> [] \<and> length (rfs_message r) \<le> 4096 \<and> json_fits x (rfs_details r) 65536 \<and>
     rfs_boundary r = expected_boundary (rfs_code r)"

definition outcome_law :: "'x externals_scheme \<Rightarrow> HelperRequest \<Rightarrow> ResponseOutcome \<Rightarrow> bool" where
  "outcome_law x q out \<longleftrightarrow> (case out of
     ResponseOutcome.Report r \<Rightarrow>
       rep_profile r = req_profile q \<and> rep_binding r = req_binding q \<and>
       set (rep_used_capabilities r) \<subseteq> set (req_granted_capabilities q) \<and>
       report_structure x
         (unat (max_observations (req_bounds q))) (unat (max_coverage_entries (req_bounds q)))
         (unat (max_report_errors (req_bounds q))) (unat (max_payload_bytes (req_bounds q)))
         (unat (max_checkpoint_bytes (req_bounds q))) r
   | ResponseOutcome.Refusal r \<Rightarrow>
       rfs_responsible_instance_id r = req_instance_id q \<and> refusal_law x r)"

definition exchange_law ::
  "'x wire_externals_scheme \<Rightarrow> HelperRequest \<Rightarrow> HelperResponse \<Rightarrow> bool" where
  "exchange_law x q p \<longleftrightarrow>
     request_law x q \<and> resp_schema p = ''nq.helper.response.v1'' \<and>
     resp_echo p = RequestEcho_from q \<and>
     (\<exists>bs. canonical_json_bytes_of x (response_to_value x) p = Ok bs \<and>
        length bs < unat (max_response_bytes (req_bounds q))) \<and>
     outcome_law x q (resp_outcome p)"

lemmas protocol_limits =
  MAX_RESPONSE_FRAME_BYTES_def MAX_OBSERVATIONS_def MAX_HARD_PAYLOAD_BYTES_def
  MAX_COVERAGE_ENTRIES_def MAX_REPORT_ERRORS_def MAX_BINDING_BYTES_def MAX_DIAGNOSTIC_BYTES_def
  MAX_MESSAGE_BYTES_def MAX_BACKEND_IDENTITIES_def MAX_BACKEND_VERSION_BYTES_def

lemmas protocol_schemas =
  HELPER_PROTOCOL_VERSION_def HELPER_REQUEST_SCHEMA_def HELPER_RESPONSE_SCHEMA_def
  EVIDENCE_REPORT_SCHEMA_def

lemma validate_bounds_Ok [checks]: "validate_bounds b = Ok u \<longleftrightarrow> bounds_law b"
  by (auto simp: validate_bounds_def bounds_law_def protocol_limits word_less_nat_alt)

lemma validate_request_Ok [checks]: "validate_request x r = Ok u \<longleftrightarrow> request_law x r"
  by (simp add: validate_request_def request_law_def binding_law_def validate_bounds_Ok
      MAX_BINDING_BYTES_def HELPER_PROTOCOL_VERSION_def HELPER_REQUEST_SCHEMA_def
      word_greater_zero_iff conj_assoc)

lemma validate_backend_Ok [checks]: "validate_backend b f = Ok u \<longleftrightarrow> backend_law b"
  by (simp add: validate_backend_def backend_law_def MAX_BACKEND_VERSION_BYTES_def)

lemma validate_report_status_Ok [checks]: "validate_report_status r = Ok u \<longleftrightarrow> status_law r"
proof -
  have "err_severity e \<noteq> Error \<longleftrightarrow> err_severity e = Warning" for e :: ReportError
    by (cases "err_severity e") auto
  then show ?thesis
    by (auto simp: validate_report_status_def status_law_def list_ex_iff split: ReportStatus.split)
qed

lemma validate_report_Ok [checks]: "validate_report x r = Ok u \<longleftrightarrow> report_law x r"
  by (auto simp: validate_report_def report_law_def report_structure_def binding_law_def
      validate_coverage_entries_Ok validate_observation_entries_Ok validate_error_entry_def
      validate_backend_Ok validate_report_status_Ok run_checks_map_Ok protocol_limits
      EVIDENCE_REPORT_SCHEMA_def not_le)

lemma validate_refusal_pair_Ok [checks]:
  "validate_refusal_pair r = Ok u \<longleftrightarrow> rfs_boundary r = expected_boundary (rfs_code r)"
  by (simp add: validate_refusal_pair_def Let_def)

text \<open>
  Under admissible bounds the negotiated limits are the sharper ones, so that the hard limits
  of a report add nothing to them.
\<close>

lemma report_structure_negotiated:
  assumes "bounds_law b"
  shows "report_structure x (unat (max_observations b)) (unat (max_coverage_entries b))
       (unat (max_report_errors b)) (unat (max_payload_bytes b)) (unat (max_checkpoint_bytes b)) r \<longleftrightarrow>
     report_structure x 65535 4096 1024 1048576 1048576 r \<and>
     length (rep_observations r) \<le> unat (max_observations b) \<and>
     length (rep_coverage r) \<le> unat (max_coverage_entries b) \<and>
     length (rep_errors r) \<le> unat (max_report_errors b) \<and>
     (\<forall>ob \<in> set (rep_observations r). json_fits x (obs_payload ob) (unat (max_payload_bytes b))) \<and>
     (\<forall>c. rep_next_checkpoint r = Some c \<longrightarrow>
        json_fits x (checkpoint_value c) (unat (max_checkpoint_bytes b)))"
  using assms unfolding report_structure_def bounds_law_def
  by (meson json_fits_mono order_trans)

lemma validate_exchange_outcome_Ok:
  assumes "request_law x q"
  shows "(case out of ResponseOutcome.Report r \<Rightarrow> report_law x r
            | ResponseOutcome.Refusal r \<Rightarrow> refusal_law x r) \<and>
         validate_exchange_outcome x q out = Ok () \<longleftrightarrow> outcome_law x q out"
proof (cases out)
  case (Report r)
  have "bounds_law (req_bounds q)" "binding_law x (req_binding q)"
    using assms by (simp_all add: request_law_def)
  then show ?thesis
    using Report
    by (auto simp: validate_exchange_outcome_def outcome_law_def report_law_def
        report_structure_negotiated run_checks_map_Ok)
next
  case (Refusal r)
  then show ?thesis by (auto simp: validate_exchange_outcome_def outcome_law_def)
qed

lemma validate_response_Ok:
  assumes "request_law x q" "resp_echo p = RequestEcho_from q"
  shows "validate_response x p = Ok u \<longleftrightarrow>
     resp_schema p = ''nq.helper.response.v1'' \<and>
     (case resp_outcome p of ResponseOutcome.Report r \<Rightarrow> report_law x r
        | ResponseOutcome.Refusal r \<Rightarrow> refusal_law x r)"
  using assms
  by (auto simp: validate_response_def request_law_def binding_law_def RequestEcho_from_def Let_def
      validate_bounds_Ok validate_report_Ok validate_refusal_pair_Ok refusal_law_def protocol_limits
      HELPER_PROTOCOL_VERSION_def HELPER_RESPONSE_SCHEMA_def word_greater_zero_iff
      split: ResponseOutcome.split)

lemma validate_exchange_Ok: "validate_exchange x q p = Ok u \<longleftrightarrow> exchange_law x q p"
proof (cases "request_law x q \<and> resp_echo p = RequestEcho_from q")
  case True
  then show ?thesis
    using validate_exchange_outcome_Ok [of x q "resp_outcome p"]
    by (auto simp: validate_exchange_def exchange_law_def validate_request_Ok validate_response_Ok
        and_then_Ok Suc_le_eq)
next
  case False
  then show ?thesis by (auto simp: validate_exchange_def exchange_law_def validate_request_Ok)
qed

text \<open>
  C1. An exchange is accepted exactly when it meets the contract: the request is admissible, the
  response is the exact echo of it, its frame with the line feed fits the negotiated size, and the
  outcome is either a well-formed report of the requested profile and binding within every
  negotiated limit that uses only granted capabilities, or a well-formed refusal by the requested
  instance at the boundary its code belongs to.
\<close>

theorem validate_exchange_refines_contract:
  "validate_exchange x q p = Ok () \<longleftrightarrow> exchange_law x q p"
  by (rule validate_exchange_Ok)

text \<open>
  A report is accepted on its own exactly when it meets the profile-independent report laws:
  bounded counts and sizes, contiguous ordinals from zero, one declaration per coverage key, errors
  that name existing observations, distinct capabilities, and a status that agrees with the coverage
  and the errors.
\<close>

lemma validate_report_decides_law: "validate_report x r = Ok () \<longleftrightarrow> report_law x r"
  by (rule validate_report_Ok)

section \<open>Reports assembled by the builder\<close>

type_synonym observed = "string \<times> string \<times> instant \<times> json"

definition observe_all :: "observed list \<Rightarrow> EvidenceReport \<Rightarrow> EvidenceReport" where
  "observe_all items r =
     fold (\<lambda>(kind, subject, seen_at, payload). builder_observed_payload kind subject seen_at payload) items r"

definition numbered_observations :: "nat \<Rightarrow> observed list \<Rightarrow> Observation list" where
  "numbered_observations n items =
     map (\<lambda>(i, kind, subject, seen_at, payload).
            \<lparr> obs_ordinal = clamp_u32 i, obs_kind = kind, obs_subject = subject,
              obs_observed_at = seen_at, obs_payload = payload \<rparr>)
         (enumerate n items)"

lemma observe_all_observations:
  "observe_all items r =
     r \<lparr> rep_observations := rep_observations r @
           numbered_observations (length (rep_observations r)) items \<rparr>"
  by (induction items arbitrary: r)
     (auto simp: observe_all_def numbered_observations_def builder_observed_payload_def Let_def)

lemma numbered_observations_ordinals:
  "n + length items \<le> 2 ^ 32 \<Longrightarrow>
   map (unat \<circ> obs_ordinal) (numbered_observations n items) = [n..<n + length items]"
  by (intro nth_equalityI)
     (auto simp: numbered_observations_def nth_enumerate_eq unat_clamp_u32 split: prod.split)

text \<open>
  A report that the builder assembles from at most 65535 payloads is accepted by the closing
  build and carries the payloads in order under contiguous ordinals, when the binding and the
  backend identities are within their limits, every payload fits and the report does not claim to
  have failed.
\<close>

lemma built_report_is_accepted:
  assumes "binding_law x binding" "backend_law (bp_implementation backend)"
    and "list_all backend_law (bp_tools backend)" "length (bp_tools backend) \<le> 64"
    and "length items \<le> 65535" "status \<noteq> ReportStatus.Failed"
    and "list_all (\<lambda>(_, _, _, payload). json_fits x payload 1048576) items"
  shows "\<exists>r. EvidenceReportBuilder_build x
              (observe_all items (EvidenceReport_builder profile binding seen_at status backend)) = Ok r \<and>
            map obs_payload (rep_observations r) = map (\<lambda>(_, _, _, payload). payload) items \<and>
            map (unat \<circ> obs_ordinal) (rep_observations r) = [0..<length items]"
proof -
  let ?r = "observe_all items (EvidenceReport_builder profile binding seen_at status backend)"
  have obs: "rep_observations ?r = numbered_observations 0 items"
    by (simp add: observe_all_observations EvidenceReport_builder_def)
  have len: "length (numbered_observations 0 items) = length items"
    by (simp add: numbered_observations_def)
  have payloads: "map obs_payload (numbered_observations 0 items) = map (\<lambda>(_, _, _, p). p) items"
    by (intro nth_equalityI)
       (auto simp: numbered_observations_def nth_enumerate_eq split: prod.split)
  have "obs_payload ` set (numbered_observations 0 items) = (\<lambda>(_, _, _, p). p) ` set items"
    using payloads by (metis list.set_map)
  then have fit: "\<forall>ob \<in> set (numbered_observations 0 items). json_fits x (obs_payload ob) 1048576"
    using assms(7) by (fastforce simp: list_all_iff)
  have ord: "map (unat \<circ> obs_ordinal) (numbered_observations 0 items) = [0..<length items]"
    using numbered_observations_ordinals [of 0 items] assms(5) by simp
  have "report_law x ?r"
    using assms fit ord obs len
    by (auto simp: report_law_def report_structure_def status_law_def list_all_iff
        observe_all_observations EvidenceReport_builder_def EVIDENCE_REPORT_SCHEMA_def)
  then have "EvidenceReportBuilder_build x ?r = Ok ?r"
    by (simp add: EvidenceReportBuilder_build_def validate_report_Ok)
  then show ?thesis using obs payloads ord by auto
qed

end
