(* ===== verification/Protocol_Framing.thy ===== *)
theory Protocol_Framing
  imports Protocol_Validation
begin

text \<open>
  NDJSON framing and strict decoding (\<open>crates/nq-protocol/src/framing.rs\<close>).

  The JSON text parser is \<open>serde_json\<close> and the conversions between a value and a document are
  generated by \<open>serde\<close>: both are externals. The parser delivers the events of one document as a
  \<open>raw_json\<close> tree, in which objects keep the order and the repetitions of their keys and a node
  may say that the text is malformed from there on; the visitor that turns the events into a
  value and refuses repeated keys is the code of this crate.
\<close>

datatype raw_json =
    RawUnit
  | RawBool bool
  | RawI64 u64
  | RawU64 u64
  | RawF64 "rat option"
  | RawStr string
  | RawSeq "raw_json list"
  | RawMap "((string, string) result \<times> raw_json) list"
  | RawFail string

text \<open>
  The kinds of \<open>serde_json::Error\<close> that arise, without the text position they carry.
\<close>

datatype json_error =
    Malformed string
  | NonFiniteNumber
  | DuplicateObjectKey string
  | DocumentMismatch string

record frame_externals = wire_externals +
  json_events :: "bytes \<Rightarrow> raw_json"
  json_end :: "bytes \<Rightarrow> (unit, string) result"
  request_from_value :: "json \<Rightarrow> (HelperRequest, string) result"
  response_from_value :: "json \<Rightarrow> (HelperResponse, string) result"
  request_to_value :: "HelperRequest \<Rightarrow> (json, string) result"

datatype FramingError =
    TooLarge usize usize
  | NotExactlyOneLine
  | Json json_error
  | Validation ValidationError
  | FrameCanonicalization CanonicalizationError

section \<open>The visitor\<close>

definition number_from_i64 :: "u64 \<Rightarrow> json_number" where
  "number_from_i64 v = (if sint v < 0 then NegInt v else PosInt v)"

text \<open>
  The loop of \<open>visit_map\<close> over the members, each with the result of visiting its value: the
  key is read and looked up before the value is asked for.
\<close>

fun visit_members ::
  "(string, json) btree_map \<Rightarrow> ((string, string) result \<times> (json, json_error) result) list \<Rightarrow>
   ((string, json) btree_map, json_error) result" where
  "visit_members values [] = Ok values"
| "visit_members values ((key_result, value_result) # members) =
     (case key_result of
        Err e \<Rightarrow> Err (Malformed e)
      | Ok key \<Rightarrow>
          if bt_get values key \<noteq> None then Err (DuplicateObjectKey key)
          else and_then value_result (\<lambda>v. visit_members (bt_insert key v values) members))"

lemma size_snd_member_raw [termination_simp]:
  "e \<in> set es \<Longrightarrow> size (snd e) < Suc (size_list (size_prod size size) es)"
  by (induction es) (auto simp: prod.size)

fun no_duplicate_value :: "raw_json \<Rightarrow> (json, json_error) result" where
  "no_duplicate_value RawUnit = Ok JNull"
| "no_duplicate_value (RawBool b) = Ok (JBool b)"
| "no_duplicate_value (RawI64 v) = Ok (JNumber (number_from_i64 v))"
| "no_duplicate_value (RawU64 v) = Ok (JNumber (PosInt v))"
| "no_duplicate_value (RawF64 v) =
     (case v of None \<Rightarrow> Err NonFiniteNumber | Some q \<Rightarrow> Ok (JNumber (Float q)))"
| "no_duplicate_value (RawStr s) = Ok (JString s)"
| "no_duplicate_value (RawSeq rs) =
     map_ok JArray (collect_results (\<lambda>r. r) (map no_duplicate_value rs))"
| "no_duplicate_value (RawMap es) =
     map_ok JObject (visit_members [] (map (\<lambda>e. (fst e, no_duplicate_value (snd e))) es))"
| "no_duplicate_value (RawFail e) = Err (Malformed e)"

section \<open>Frames\<close>

definition encode_ndjson ::
  "'x externals_scheme \<Rightarrow> ('t \<Rightarrow> (json, string) result) \<Rightarrow> 't \<Rightarrow> (bytes, FramingError) result" where
  "encode_ndjson x to_value t =
     map_ok (\<lambda>bs. bs @ [LF]) (map_err FrameCanonicalization (canonical_json_bytes_of x to_value t))"

definition decode_json_document ::
  "'x frame_externals_scheme \<Rightarrow> (json \<Rightarrow> ('t, string) result) \<Rightarrow> bytes \<Rightarrow> usize \<Rightarrow>
   ('t, FramingError) result" where
  "decode_json_document x from_value bs max_bytes =
     (if length bs > max_bytes then Err (TooLarge max_bytes (length bs))
      else
        and_then (map_err Json (no_duplicate_value (json_events x bs)))
          (\<lambda>v. and_then (map_err (Json \<circ> Malformed) (json_end x bs))
             (\<lambda>_. map_err (Json \<circ> DocumentMismatch) (from_value v))))"

definition strip_suffix_lf :: "bytes \<Rightarrow> bytes option" where
  "strip_suffix_lf bs = (if bs \<noteq> [] \<and> last bs = LF then Some (butlast bs) else None)"

definition decode_ndjson ::
  "'x frame_externals_scheme \<Rightarrow> (json \<Rightarrow> ('t, string) result) \<Rightarrow> bytes \<Rightarrow> usize \<Rightarrow>
   ('t, FramingError) result" where
  "decode_ndjson x from_value bs max_bytes =
     (if length bs > max_bytes then Err (TooLarge max_bytes (length bs))
      else case strip_suffix_lf bs of
        None \<Rightarrow> Err NotExactlyOneLine
      | Some body \<Rightarrow>
          if body = [] \<or> LF \<in> set body \<or> CR \<in> set body then Err NotExactlyOneLine
          else decode_json_document x from_value body max_bytes)"

definition parse_request ::
  "'x frame_externals_scheme \<Rightarrow> bytes \<Rightarrow> (HelperRequest, FramingError) result" where
  "parse_request x bs =
     and_then (decode_ndjson x (request_from_value x) bs MAX_REQUEST_FRAME_BYTES)
       (\<lambda>request. map_ok (\<lambda>_. request) (map_err Validation (validate_request x request)))"

definition parse_response ::
  "'x frame_externals_scheme \<Rightarrow> HelperRequest \<Rightarrow> bytes \<Rightarrow> (HelperResponse, FramingError) result" where
  "parse_response x request bs =
     and_then
       (decode_ndjson x (response_from_value x) bs (unat (max_response_bytes (req_bounds request))))
       (\<lambda>response. map_ok (\<lambda>_. response) (map_err Validation (validate_exchange x request response)))"

section \<open>Strict decoding\<close>

text \<open>
  A document is strict when it is well-formed, all its numbers are finite and no object of it, at
  any depth, repeats a key.
\<close>

fun strict_raw :: "raw_json \<Rightarrow> bool" where
  "strict_raw (RawF64 v) \<longleftrightarrow> v \<noteq> None"
| "strict_raw (RawSeq rs) \<longleftrightarrow> list_all strict_raw rs"
| "strict_raw (RawMap es) \<longleftrightarrow>
     list_all (\<lambda>e. is_ok (fst e)) es \<and> distinct (map fst es) \<and> list_all (\<lambda>e. strict_raw (snd e)) es"
| "strict_raw (RawFail e) \<longleftrightarrow> False"
| "strict_raw _ \<longleftrightarrow> True"

fun key_text :: "(string, string) result \<Rightarrow> string" where
  "key_text (Ok k) = k"
| "key_text (Err _) = []"

fun value_or_null :: "(json, json_error) result \<Rightarrow> json" where
  "value_or_null (Ok v) = v"
| "value_or_null (Err _) = JNull"

fun raw_value :: "raw_json \<Rightarrow> json" where
  "raw_value RawUnit = JNull"
| "raw_value (RawBool b) = JBool b"
| "raw_value (RawI64 v) = JNumber (number_from_i64 v)"
| "raw_value (RawU64 v) = JNumber (PosInt v)"
| "raw_value (RawF64 v) = JNumber (Float (case v of Some q \<Rightarrow> q | None \<Rightarrow> 0))"
| "raw_value (RawStr s) = JString s"
| "raw_value (RawSeq rs) = JArray (map raw_value rs)"
| "raw_value (RawMap es) = JObject (bt_from (map (\<lambda>e. (key_text (fst e), raw_value (snd e))) es))"
| "raw_value (RawFail e) = JNull"

lemma members_fresh_insert:
  "list_all (\<lambda>e. is_ok (fst e) \<and> is_ok (snd e) \<and>
     bt_get (bt_insert k v m) (key_text (fst e)) = None) es \<longleftrightarrow>
   list_all (\<lambda>e. is_ok (fst e) \<and> is_ok (snd e) \<and> bt_get m (key_text (fst e)) = None) es \<and>
   Ok k \<notin> fst ` set es"
proof (induction es)
  case (Cons e es)
  then show ?case by (cases "fst e") auto
qed simp

lemma visit_members_Ok:
  "visit_members m es = Ok m' \<longleftrightarrow>
     list_all (\<lambda>e. is_ok (fst e) \<and> is_ok (snd e) \<and> bt_get m (key_text (fst e)) = None) es \<and>
     distinct (map fst es) \<and>
     m' = fold (\<lambda>(k, v). bt_insert k v)
            (map (\<lambda>e. (key_text (fst e), value_or_null (snd e))) es) m"
proof (induction es arbitrary: m)
  case Nil
  then show ?case by auto
next
  case (Cons e es)
  show ?case
  proof (cases "\<exists>k v. e = (Ok k, Ok v)")
    case True
    then obtain k v where e: "e = (Ok k, Ok v)" by blast
    show ?thesis
      by (simp add: e Cons.IH members_fresh_insert del: bt_get_insert)
  next
    case False
    then show ?thesis
      by (cases e; cases "fst e"; cases "snd e") auto
  qed
qed

lemma collect_visited:
  assumes "\<And>r v. r \<in> set rs \<Longrightarrow> f r = Ok v \<longleftrightarrow> P r \<and> v = g r"
  shows "collect_results (\<lambda>r. r) (map f rs) = Ok vs \<longleftrightarrow> list_all P rs \<and> vs = map g rs"
  using assms by (induction rs arbitrary: vs) (auto simp: and_then_Ok)

lemma visit_visited:
  assumes "\<And>e v. e \<in> set es \<Longrightarrow> f (snd e) = Ok v \<longleftrightarrow> P (snd e) \<and> v = g (snd e)"
  shows "visit_members [] (map (\<lambda>e. (fst e, f (snd e))) es) = Ok m \<longleftrightarrow>
     list_all (\<lambda>e. is_ok (fst e)) es \<and> distinct (map fst es) \<and> list_all (\<lambda>e. P (snd e)) es \<and>
     m = bt_from (map (\<lambda>e. (key_text (fst e), g (snd e))) es)"
proof -
  have ok: "is_ok (f (snd e)) \<longleftrightarrow> P (snd e)"
    and val: "P (snd e) \<Longrightarrow> value_or_null (f (snd e)) = g (snd e)" if "e \<in> set es" for e
    using that by (metis assms is_ok.simps result.exhaust) (metis assms that value_or_null.simps(1))
  have same: "bt_from (map (\<lambda>e. (key_text (fst e), value_or_null (f (snd e)))) es) =
      bt_from (map (\<lambda>e. (key_text (fst e), g (snd e))) es)" if "list_all (\<lambda>e. P (snd e)) es"
    using that val by (intro arg_cong [of _ _ bt_from]) (simp add: list_all_iff)
  have all: "list_all (\<lambda>e. is_ok (fst e) \<and> is_ok (f (snd e))) es \<longleftrightarrow>
      list_all (\<lambda>e. is_ok (fst e)) es \<and> list_all (\<lambda>e. P (snd e)) es"
    using ok by (auto simp: list_all_iff)
  show ?thesis
    using same all by (auto simp: visit_members_Ok list.pred_map comp_def simp flip: bt_from_def)
qed

lemma no_duplicate_value_Ok:
  "no_duplicate_value r = Ok v \<longleftrightarrow> strict_raw r \<and> v = raw_value r"
proof (induction r arbitrary: v rule: no_duplicate_value.induct)
  case (7 rs)
  then show ?case
    by (simp add: collect_visited [where P = strict_raw and g = raw_value])
next
  case (8 es)
  then show ?case
    by (simp add: visit_visited [where P = strict_raw and g = raw_value])
qed (auto split: option.splits)

section \<open>Frames and documents\<close>

text \<open>
  The frame of a document: one non-empty line, without a carriage return, closed by its only line
  feed, whose text is a strict JSON document and nothing else.
\<close>

definition framed :: "'x frame_externals_scheme \<Rightarrow> bytes \<Rightarrow> json \<Rightarrow> bool" where
  "framed x bs v \<longleftrightarrow> (\<exists>body. bs = body @ [LF] \<and> body \<noteq> [] \<and> LF \<notin> set body \<and> CR \<notin> set body \<and>
     strict_raw (json_events x body) \<and> json_end x body = Ok () \<and> v = raw_value (json_events x body))"

lemma decode_json_document_Ok:
  "decode_json_document x from_value bs n = Ok t \<longleftrightarrow>
     length bs \<le> n \<and> strict_raw (json_events x bs) \<and> json_end x bs = Ok () \<and>
     from_value (raw_value (json_events x bs)) = Ok t"
  by (auto simp: decode_json_document_def and_then_Ok no_duplicate_value_Ok)

lemma strip_suffix_lf_Some: "strip_suffix_lf bs = Some body \<longleftrightarrow> bs = body @ [LF]"
  by (auto simp: strip_suffix_lf_def) (metis append_butlast_last_id)

lemma decode_ndjson_Ok:
  "decode_ndjson x from_value bs n = Ok t \<longleftrightarrow>
     length bs \<le> n \<and> (\<exists>v. framed x bs v \<and> from_value v = Ok t)"
proof (cases "strip_suffix_lf bs")
  case None
  then have "bs \<noteq> body @ [LF]" for body by (metis option.discI strip_suffix_lf_Some)
  then show ?thesis by (auto simp: decode_ndjson_def framed_def None)
next
  case (Some body)
  then have "bs = body @ [LF]" by (simp add: strip_suffix_lf_Some)
  with Some show ?thesis
    by (auto simp: decode_ndjson_def framed_def decode_json_document_Ok)
qed

text \<open>
  A frame decodes exactly when it is within its byte limit and is one line, closed by its only
  line feed and free of carriage returns, that holds one strict JSON document: well-formed, with
  finite numbers, nothing after it, and no object at any depth that repeats a key. The decoded
  document is the one the value of that text stands for.
\<close>

lemma decode_ndjson_accepts_strict_frames:
  "decode_ndjson x from_value bs n = Ok t \<longleftrightarrow>
     length bs \<le> n \<and> (\<exists>v. framed x bs v \<and> from_value v = Ok t)"
  by (rule decode_ndjson_Ok)

text \<open>
  A response is taken from a frame exactly when the frame, within the size the request
  negotiated, decodes to it and the exchange meets the whole contract of the request.
\<close>

lemma parse_response_accepts_contract:
  "parse_response x q bs = Ok p \<longleftrightarrow>
     length bs \<le> unat (max_response_bytes (req_bounds q)) \<and>
     (\<exists>v. framed x bs v \<and> response_from_value x v = Ok p) \<and> exchange_law x q p"
proof -
  have "validate_exchange x q p = Ok () \<longleftrightarrow> exchange_law x q p" for p
    by (rule validate_exchange_Ok)
  then show ?thesis
    by (auto simp: parse_response_def and_then_Ok decode_ndjson_Ok)
qed

lemma encode_ndjson_framed:
  assumes "to_value t = Ok v" and "canonical_json_bytes x v = Ok bs"
    and "bs \<noteq> []" "LF \<notin> set bs" "CR \<notin> set bs"
    and "strict_raw (json_events x bs)" "raw_value (json_events x bs) = v" "json_end x bs = Ok ()"
  shows "encode_ndjson x to_value t = Ok (bs @ [LF])" and "framed x (bs @ [LF]) v"
  using assms by (auto simp: encode_ndjson_def canonical_json_bytes_of_def framed_def)


text \<open>A request and the refusal of it, under externals whose canonical text is an empty object.\<close>

definition sample_request :: HelperRequest where
  "sample_request = HelperRequest_builder ''r-1'' ''i-1''
     \<lparr> pb_id = ''nq.host'', pb_version = ''1'', pb_digest = ''sha256:'' \<rparr>
     \<lparr> sb_subject = ''host:a'', sb_scope = \<lparr> scope_kind = ''host'', scope_value = JNull \<rparr>,
       sb_vantage = \<lparr> vantage_kind = ''local'', vantage_value = JNull \<rparr> \<rparr>
     MonotonicDeadline_default"

definition sample_response :: HelperResponse where
  "sample_response = HelperResponse_refusal sample_request
     \<lparr> rfs_responsible_instance_id = ''i-1'', rfs_boundary = RefusalBoundary.Resource,
       rfs_code = ResourceExhausted, rfs_message = ''busy'', rfs_retriable = True, rfs_details = JNull \<rparr>"

definition sample_externals :: frame_externals where
  "sample_externals =
     \<lparr> jcs_to_vec = (\<lambda>_. Ok ''{}''), sha256_hex = (\<lambda>_. []),
       response_to_value = (\<lambda>_. Ok (JObject [])),
       json_events = (\<lambda>_. RawMap []), json_end = (\<lambda>_. Ok ()),
       request_from_value = (\<lambda>_. Ok sample_request),
       response_from_value = (\<lambda>_. Ok sample_response),
       request_to_value = (\<lambda>_. Ok (JObject [])) \<rparr>"

lemma sample_exchange_law: "exchange_law sample_externals sample_request sample_response"
  by (simp add: exchange_law_def request_law_def bounds_law_def binding_law_def json_fits_def
      outcome_law_def refusal_law_def canonical_json_bytes_Ok canonical_json_bytes_of_def
      sample_externals_def sample_response_def sample_request_def HelperRequest_builder_def
      HelperResponse_refusal_def MonotonicDeadline_default_def CollectionBounds_default_def
      protocol_schemas)


end
