(* ===== verification/Profile_Descriptor.thy ===== *)
theory Profile_Descriptor
  imports Protocol_Framing
begin

text \<open>
  Profile descriptors and their identities (\<open>crates/nq-profiles/src/descriptor.rs\<close> and
  \<open>identity.rs\<close>). The serializers that \<open>serde\<close> derives for a descriptor and for a protocol report,
  and the source digest that the build computes, are externals.
\<close>

record ProfileKey =
  pk_id :: string
  pk_version :: u32

type_synonym ProfileDigest = Sha256Digest

record VocabularyTerm =
  vt_name :: string
  vt_description :: string

record CardinalityLimits =
  lim_max_observations :: u32
  lim_max_payload_bytes :: u32
  lim_max_subject_bytes :: u32
  lim_max_coverage_declarations :: u32

record FreshnessPolicy =
  reliance_seconds :: u64
  alignment_seconds :: u64

record SubjectRules =
  sr_namespace :: string
  sr_exact_request_subject :: bool

record ProfileDescriptor =
  pd_schema :: string
  pd_family :: string
  pd_profile :: ProfileKey
  pd_title :: string
  pd_observation_kinds :: "VocabularyTerm list"
  pd_coverage :: "VocabularyTerm list"
  pd_subjects :: SubjectRules
  pd_scope_kinds :: "VocabularyTerm list"
  pd_vantages :: "VocabularyTerm list"
  pd_access_paths :: "VocabularyTerm list"
  pd_bases :: "VocabularyTerm list"
  pd_regimes :: "VocabularyTerm list"
  pd_capabilities :: "VocabularyTerm list"
  pd_freshness :: FreshnessPolicy
  pd_limits :: CardinalityLimits
  pd_disturbance_assumptions :: "string list"

definition PROFILE_DESCRIPTOR_SCHEMA :: string where
  "PROFILE_DESCRIPTOR_SCHEMA = ''nq.profile_descriptor.v1''"

definition ProfileKey_new :: "string \<Rightarrow> u32 \<Rightarrow> ProfileKey" where
  "ProfileKey_new i version = \<lparr> pk_id = i, pk_version = version \<rparr>"

definition VocabularyTerm_new :: "string \<Rightarrow> string \<Rightarrow> VocabularyTerm" where
  "VocabularyTerm_new name description = \<lparr> vt_name = name, vt_description = description \<rparr>"

datatype DescriptorError = DescriptorCanonicalization string

record profile_externals = frame_externals +
  descriptor_to_value :: "ProfileDescriptor \<Rightarrow> (json, string) result"
  report_to_value :: "EvidenceReport \<Rightarrow> (json, string) result"
  evaluator_source_digest :: string

text \<open>The texts of the \<open>Display\<close> implementations that refusals carry.\<close>

fun show_CanonicalizationError :: "CanonicalizationError \<Rightarrow> string" where
  "show_CanonicalizationError (Serialization e) = ''cannot canonicalize JSON: '' @ e"
| "show_CanonicalizationError (UnsafeInteger n) =
     ''integer '' @ n @ '' exceeds the exact I-JSON range; encode it as a decimal string''"

fun show_DescriptorError :: "DescriptorError \<Rightarrow> string" where
  "show_DescriptorError (DescriptorCanonicalization e) =
     ''profile descriptor canonicalization failed: '' @ e"

definition vocabulary_contains :: "VocabularyTerm list \<Rightarrow> string \<Rightarrow> bool" where
  "vocabulary_contains vocabulary value = list_ex (\<lambda>term. vt_name term = value) vocabulary"

definition knows_observation_kind :: "ProfileDescriptor \<Rightarrow> string \<Rightarrow> bool" where
  "knows_observation_kind self kind = vocabulary_contains (pd_observation_kinds self) kind"

definition knows_coverage :: "ProfileDescriptor \<Rightarrow> string \<Rightarrow> bool" where
  "knows_coverage self coverage = vocabulary_contains (pd_coverage self) coverage"

definition descriptor_digest ::
  "'x profile_externals_scheme \<Rightarrow> ProfileDescriptor \<Rightarrow> (ProfileDigest, DescriptorError) result" where
  "descriptor_digest x self =
     map_err (\<lambda>e. DescriptorCanonicalization (show_CanonicalizationError e))
       (semantic_digest_of x (descriptor_to_value x) self)"

section \<open>Semantic identity\<close>

definition PROFILE_SEMANTIC_ID_SCHEMA :: string where
  "PROFILE_SEMANTIC_ID_SCHEMA = ''nq.profile_semantic_id.v1''"

text \<open>The preimage struct as the JSON object of its four text members.\<close>

definition semantic_id_preimage :: "string \<Rightarrow> string \<Rightarrow> string \<Rightarrow> string \<Rightarrow> json" where
  "semantic_id_preimage schema protocol_semantics_version digest source_digest = JObject (bt_from
     [(''schema'', JString schema),
      (''protocol_semantics_version'', JString protocol_semantics_version),
      (''descriptor_digest'', JString digest),
      (''evaluator_source_digest'', JString source_digest)])"

definition compose_semantic_id ::
  "'x externals_scheme \<Rightarrow> string \<Rightarrow> string \<Rightarrow> string \<Rightarrow> string \<Rightarrow>
   (Sha256Digest, DescriptorError) result" where
  "compose_semantic_id x schema protocol_semantics_version digest source_digest =
     map_err (\<lambda>e. DescriptorCanonicalization (show_CanonicalizationError e))
       (semantic_digest x
          (semantic_id_preimage schema protocol_semantics_version digest source_digest))"

definition profile_semantic_id ::
  "'x profile_externals_scheme \<Rightarrow> ProfileDescriptor \<Rightarrow> (Sha256Digest, DescriptorError) result" where
  "profile_semantic_id x descriptor =
     and_then (descriptor_digest x descriptor)
       (\<lambda>digest. compose_semantic_id x PROFILE_SEMANTIC_ID_SCHEMA HELPER_PROTOCOL_VERSION digest
          (evaluator_source_digest x))"

section \<open>Vocabularies and identities\<close>

lemma vocabulary_contains_iff:
  "vocabulary_contains vocabulary v \<longleftrightarrow> v \<in> set (map vt_name vocabulary)"
  by (auto simp: vocabulary_contains_def list_ex_iff)

lemma semantic_id_preimage_inj:
  "semantic_id_preimage a b c d = semantic_id_preimage a' b' c' d' \<longleftrightarrow>
     a = a' \<and> b = b' \<and> c = c' \<and> d = d'"
proof
  assume same: "semantic_id_preimage a b c d = semantic_id_preimage a' b' c' d'"
  have "json_get (semantic_id_preimage a b c d) ''schema'' = Some (JString a)"
    "json_get (semantic_id_preimage a b c d) ''protocol_semantics_version'' = Some (JString b)"
    "json_get (semantic_id_preimage a b c d) ''descriptor_digest'' = Some (JString c)"
    "json_get (semantic_id_preimage a b c d) ''evaluator_source_digest'' = Some (JString d)"
    for a b c d
    by (simp_all add: semantic_id_preimage_def json_get_def bt_get_from)
  with same show "a = a' \<and> b = b' \<and> c = c' \<and> d = d'"
    by (metis json.inject(3) option.inject)
qed simp

end
