(* ===== verification/Profile_Validation.thy ===== *)
theory Profile_Validation
  imports Profile_Descriptor
begin

text \<open>
  Normalization of protocol reports and the laws that every compiled profile shares
  (\<open>crates/nq-profiles/src/validation.rs\<close>).
\<close>

named_theorems refusals

section \<open>Profile input\<close>

datatype SemanticReportStatus = Complete | Partial | Failed

datatype RetainedErrorSeverity = Error | Warning

datatype SemanticCoverageState = Complete | Partial | Unavailable

record RetainedReportError =
  rre_code :: string
  rre_severity :: RetainedErrorSeverity
  rre_retriable :: bool

record CoverageInput =
  ci_name :: string
  ci_subject :: "string option"
  ci_state :: SemanticCoverageState
  ci_detail :: "json option"

record ObservationInput =
  oi_kind :: string
  oi_subject :: string
  oi_ordinal :: u32
  oi_observed_at :: instant
  oi_payload :: json

record ReportInput =
  ri_report_digest :: string
  ri_profile :: ProfileKey
  ri_profile_digest :: string
  ri_status :: SemanticReportStatus
  ri_observed_at :: instant
  ri_coverage :: "CoverageInput list"
  ri_observations :: "ObservationInput list"
  ri_error_count :: u32
  ri_failure_error_count :: u32
  ri_used_capabilities :: "string btree_set"
  ri_errors :: "RetainedReportError list"

datatype ReportNormalizationError = ProfileVersion string | ReportCanonicalization string

fun normalized_status :: "ReportStatus \<Rightarrow> SemanticReportStatus" where
  "normalized_status ReportStatus.Complete = SemanticReportStatus.Complete"
| "normalized_status ReportStatus.Partial = SemanticReportStatus.Partial"
| "normalized_status ReportStatus.Failed = SemanticReportStatus.Failed"

fun normalized_state :: "CoverageState \<Rightarrow> SemanticCoverageState" where
  "normalized_state CoverageState.Complete = SemanticCoverageState.Complete"
| "normalized_state CoverageState.Partial = SemanticCoverageState.Partial"
| "normalized_state CoverageState.Unavailable = SemanticCoverageState.Unavailable"

fun normalized_severity :: "ErrorSeverity \<Rightarrow> RetainedErrorSeverity" where
  "normalized_severity ErrorSeverity.Error = RetainedErrorSeverity.Error"
| "normalized_severity ErrorSeverity.Warning = RetainedErrorSeverity.Warning"

definition normalized_coverage :: "CoverageDeclaration \<Rightarrow> CoverageInput" where
  "normalized_coverage declaration =
     \<lparr> ci_name = cov_kind declaration, ci_subject = cov_subject declaration,
       ci_state = normalized_state (cov_state declaration), ci_detail = cov_detail declaration \<rparr>"

definition normalized_observation :: "Observation \<Rightarrow> ObservationInput" where
  "normalized_observation observation =
     \<lparr> oi_kind = obs_kind observation, oi_subject = obs_subject observation,
       oi_ordinal = obs_ordinal observation, oi_observed_at = obs_observed_at observation,
       oi_payload = obs_payload observation \<rparr>"

definition normalized_error :: "ReportError \<Rightarrow> RetainedReportError" where
  "normalized_error e =
     \<lparr> rre_code = err_code e, rre_severity = normalized_severity (err_severity e),
       rre_retriable = err_retriable e \<rparr>"

definition from_protocol ::
  "EvidenceReport \<Rightarrow> Sha256Digest \<Rightarrow> (ReportInput, ReportNormalizationError) result" where
  "from_protocol report digest =
     (case parse_unsigned (2 ^ 32 - 1) (pb_version (rep_profile report)) of
        None \<Rightarrow> Err (ProfileVersion (pb_version (rep_profile report)))
      | Some version \<Rightarrow> Ok
          \<lparr> ri_report_digest = digest,
            ri_profile = ProfileKey_new (pb_id (rep_profile report)) (of_nat version),
            ri_profile_digest = pb_digest (rep_profile report),
            ri_status = normalized_status (rep_status report),
            ri_observed_at = rep_observed_at report,
            ri_coverage = map normalized_coverage (rep_coverage report),
            ri_observations = map normalized_observation (rep_observations report),
            ri_error_count = clamp_u32 (length (rep_errors report)),
            ri_failure_error_count = clamp_u32
              (length (filter (\<lambda>e. err_severity e = ErrorSeverity.Error) (rep_errors report))),
            ri_used_capabilities = bs_from (rep_used_capabilities report),
            ri_errors = map normalized_error (rep_errors report) \<rparr>)"

definition from_protocol_with_digest ::
  "'x profile_externals_scheme \<Rightarrow> EvidenceReport \<Rightarrow> (ReportInput, ReportNormalizationError) result" where
  "from_protocol_with_digest x report =
     and_then
       (map_err (\<lambda>e. ReportCanonicalization (show_CanonicalizationError e))
          (semantic_digest_of x (report_to_value x) report))
       (from_protocol report)"

section \<open>The binding of a request\<close>

record ScopeGrant =
  sg_kind :: string
  sg_value :: json

record VantageGrant =
  vg_kind :: string
  vg_value :: json

record ValidationContext =
  ctx_instance_id :: string
  ctx_request_subject :: string
  ctx_scope :: ScopeGrant
  ctx_vantage :: VantageGrant
  ctx_granted_capabilities :: "string btree_set"
  ctx_received_at :: instant
  ctx_max_observations :: u32
  ctx_max_future_skew :: duration

definition context_from_request :: "HelperRequest \<Rightarrow> instant \<Rightarrow> duration \<Rightarrow> ValidationContext" where
  "context_from_request request received_at max_future_skew =
     \<lparr> ctx_instance_id = req_instance_id request,
       ctx_request_subject = sb_subject (req_binding request),
       ctx_scope = \<lparr> sg_kind = scope_kind (sb_scope (req_binding request)),
                     sg_value = scope_value (sb_scope (req_binding request)) \<rparr>,
       ctx_vantage = \<lparr> vg_kind = vantage_kind (sb_vantage (req_binding request)),
                       vg_value = vantage_value (sb_vantage (req_binding request)) \<rparr>,
       ctx_granted_capabilities = bs_from (req_granted_capabilities request),
       ctx_received_at = received_at,
       ctx_max_observations = max_observations (req_bounds request),
       ctx_max_future_skew = max_future_skew \<rparr>"

record EvidenceBasis =
  eb_scope :: ScopeGrant
  eb_vantage :: VantageGrant
  eb_access_path :: string
  eb_basis :: string
  eb_regime :: string
  eb_capabilities_used :: "string btree_set"

section \<open>Refusals\<close>

datatype ProfileRefusalBoundary = Profile | Report | Coverage | Observation | Detector

datatype ProfileRefusalCode =
    UnknownProfile | UnknownObservationKind | UnknownCoverage | DuplicateCoverage
  | MissingCoverage | CoverageStatusMismatch | ReportStatusOverclaim
  | ObservationLimitExceeded | PayloadLimitExceeded | InvalidOrdinal | SubjectEscape
  | ScopeEscape | VantageEscape | CapabilityEscape | UnknownAccessPath | UnknownBasis
  | UnknownRegime | FutureObservation | InvalidPayload | InconsistentReport
  | ForbiddenHelperAssertion | CannotEvaluate

record ProfileRefusal =
  pr_instance_id :: string
  pr_profile :: ProfileKey
  pr_boundary :: ProfileRefusalBoundary
  pr_code :: ProfileRefusalCode
  pr_message :: string
  pr_details :: "(string, string) btree_map"

definition refusal_new ::
  "ValidationContext \<Rightarrow> ProfileDescriptor \<Rightarrow> ProfileRefusalBoundary \<Rightarrow> ProfileRefusalCode \<Rightarrow> string \<Rightarrow>
   ProfileRefusal" where
  "refusal_new context descriptor boundary code message =
     \<lparr> pr_instance_id = ctx_instance_id context, pr_profile = pd_profile descriptor,
       pr_boundary = boundary, pr_code = code, pr_message = message, pr_details = [] \<rparr>"

definition with_detail :: "string \<Rightarrow> string \<Rightarrow> ProfileRefusal \<Rightarrow> ProfileRefusal" where
  "with_detail key value self = self \<lparr> pr_details := bt_insert key value (pr_details self) \<rparr>"

section \<open>Admitted reports\<close>

record AdmittedObservation =
  ao_kind :: string
  ao_subject :: string
  ao_ordinal :: u32
  ao_observed_at :: instant
  ao_payload :: json

record ValidatedReport =
  vr_instance_id :: string
  vr_report_digest :: string
  vr_profile :: ProfileKey
  vr_profile_digest :: ProfileDigest
  vr_status :: SemanticReportStatus
  vr_observed_at :: instant
  vr_coverage :: "(string, SemanticCoverageState) btree_map"
  vr_observations :: "AdmittedObservation list"
  vr_error_count :: u32
  vr_failure_error_count :: u32
  vr_used_capabilities :: "string btree_set"
  vr_received_at :: instant
  vr_report_errors :: "RetainedReportError list"

definition single_failure_error :: "ValidatedReport \<Rightarrow> RetainedReportError option" where
  "single_failure_error self =
     (case filter (\<lambda>e. rre_severity e = RetainedErrorSeverity.Error) (vr_report_errors self) of
        [first] \<Rightarrow> Some first
      | _ \<Rightarrow> None)"

type_synonym ValidationResult = "(ValidatedReport, ProfileRefusal) result"

section \<open>Shared laws\<close>

definition validate_profile_binding ::
  "'x profile_externals_scheme \<Rightarrow> ProfileDescriptor \<Rightarrow> ValidationContext \<Rightarrow> ReportInput \<Rightarrow>
   (ProfileDigest, ProfileRefusal) result" where
  "validate_profile_binding x descriptor context report =
     and_then
       (map_err
          (\<lambda>e. refusal_new context descriptor ProfileRefusalBoundary.Profile InvalidPayload
             (show_DescriptorError e))
          (descriptor_digest x descriptor))
       (\<lambda>digest.
          if ri_profile report \<noteq> pd_profile descriptor \<or> ri_profile_digest report \<noteq> digest then
            Err (with_detail ''declared_digest'' (ri_profile_digest report)
              (with_detail ''declared_profile''
                (pk_id (ri_profile report) @ ''/v'' @ show_nat (unat (pk_version (ri_profile report))))
                (refusal_new context descriptor ProfileRefusalBoundary.Profile
                   ProfileRefusalCode.UnknownProfile
                   ''report profile identity or descriptor digest does not match the compiled profile'')))
          else
            map_ok (\<lambda>_. digest)
              (run_checks (map
                 (\<lambda>capability.
                    refuse_if
                      (\<not> vocabulary_contains (pd_capabilities descriptor) capability \<or>
                       capability \<notin> set (ctx_granted_capabilities context))
                      (with_detail ''capability'' capability
                        (refusal_new context descriptor ProfileRefusalBoundary.Report
                          ProfileRefusalCode.CapabilityEscape
                          ''report exercised a capability outside the profile or request grant'')))
                 (ri_used_capabilities report))))"

definition validate_coverage_declaration ::
  "'x externals_scheme \<Rightarrow> ProfileDescriptor \<Rightarrow> ValidationContext \<Rightarrow> CoverageInput \<Rightarrow>
   (unit, ProfileRefusal) result" where
  "validate_coverage_declaration x descriptor context declaration = run_checks
     [refuse_if (\<not> knows_coverage descriptor (ci_name declaration))
        (with_detail ''coverage'' (ci_name declaration)
          (refusal_new context descriptor ProfileRefusalBoundary.Coverage UnknownCoverage
             ''coverage class is outside the compiled vocabulary'')),
      check_some
        (\<lambda>subject. refuse_if (subject \<noteq> ctx_request_subject context)
           (with_detail ''subject'' subject
             (refusal_new context descriptor ProfileRefusalBoundary.Coverage SubjectEscape
                ''coverage subject is outside the request binding'')))
        (ci_subject declaration),
      check_some
        (\<lambda>detail. and_then
           (map_err
              (\<lambda>e. with_detail ''error'' (show_CanonicalizationError e)
                 (refusal_new context descriptor ProfileRefusalBoundary.Coverage InvalidPayload
                    ''coverage detail cannot be canonicalized''))
              (canonical_json_bytes x detail))
           (\<lambda>bs. refuse_if (length bs > unat (lim_max_payload_bytes (pd_limits descriptor)))
              (refusal_new context descriptor ProfileRefusalBoundary.Coverage PayloadLimitExceeded
                 ''coverage detail exceeds the profile payload limit'')))
        (ci_detail declaration)]"

fun collect_coverage ::
  "'x externals_scheme \<Rightarrow> ProfileDescriptor \<Rightarrow> ValidationContext \<Rightarrow>
   (string, SemanticCoverageState) btree_map \<Rightarrow> CoverageInput list \<Rightarrow>
   ((string, SemanticCoverageState) btree_map, ProfileRefusal) result" where
  "collect_coverage x descriptor context coverage [] = Ok coverage"
| "collect_coverage x descriptor context coverage (declaration # declarations) =
     and_then (validate_coverage_declaration x descriptor context declaration)
       (\<lambda>_. if bt_get coverage (ci_name declaration) \<noteq> None then
               Err (with_detail ''coverage'' (ci_name declaration)
                 (refusal_new context descriptor ProfileRefusalBoundary.Coverage DuplicateCoverage
                    ''coverage class appears more than once''))
             else
               collect_coverage x descriptor context
                 (bt_insert (ci_name declaration) (ci_state declaration) coverage) declarations)"

definition validate_coverage ::
  "'x externals_scheme \<Rightarrow> ProfileDescriptor \<Rightarrow> ValidationContext \<Rightarrow> CoverageInput list \<Rightarrow>
   ((string, SemanticCoverageState) btree_map, ProfileRefusal) result" where
  "validate_coverage x descriptor context declarations =
     and_then (collect_coverage x descriptor context [] declarations)
       (\<lambda>coverage. map_ok (\<lambda>_. coverage)
          (run_checks (map
             (\<lambda>term. refuse_if (bt_get coverage (vt_name term) = None)
                (with_detail ''coverage'' (vt_name term)
                  (refusal_new context descriptor ProfileRefusalBoundary.Coverage MissingCoverage
                     ''required coverage declaration is missing'')))
             (pd_coverage descriptor))))"

definition validate_status ::
  "ProfileDescriptor \<Rightarrow> ValidationContext \<Rightarrow> ReportInput \<Rightarrow>
   (string, SemanticCoverageState) btree_map \<Rightarrow> (unit, ProfileRefusal) result" where
  "validate_status descriptor context report coverage =
     (let all_complete = list_all (\<lambda>s. s = SemanticCoverageState.Complete) (map snd coverage);
          all_unavailable = list_all (\<lambda>s. s = SemanticCoverageState.Unavailable) (map snd coverage);
          valid = (case ri_status report of
             SemanticReportStatus.Complete \<Rightarrow> all_complete \<and> ri_failure_error_count report = 0
           | SemanticReportStatus.Partial \<Rightarrow>
               \<not> all_complete \<and> \<not> all_unavailable \<and> ri_error_count report > 0
           | SemanticReportStatus.Failed \<Rightarrow>
               all_unavailable \<and> ri_observations report = [] \<and> ri_failure_error_count report > 0)
      in refuse_if (\<not> valid)
           (refusal_new context descriptor ProfileRefusalBoundary.Report ReportStatusOverclaim
              ''report status is not supported by coverage, observations, and errors''))"

definition validate_observation_subject ::
  "ProfileDescriptor \<Rightarrow> ValidationContext \<Rightarrow> ObservationInput \<Rightarrow> (unit, ProfileRefusal) result" where
  "validate_observation_subject descriptor context observation =
     (let subject_bytes = clamp_u32 (length (oi_subject observation));
          valid_namespace = starts_with (oi_subject observation) (sr_namespace (pd_subjects descriptor));
          exact_subject = (\<not> sr_exact_request_subject (pd_subjects descriptor) \<or>
            oi_subject observation = ctx_request_subject context)
      in if subject_bytes \<le> lim_max_subject_bytes (pd_limits descriptor) \<and> valid_namespace \<and>
            exact_subject
         then Ok ()
         else Err (with_detail ''request_subject'' (ctx_request_subject context)
           (with_detail ''subject'' (oi_subject observation)
             (refusal_new context descriptor ProfileRefusalBoundary.Observation SubjectEscape
                ''observation subject is outside the request binding''))))"

definition validate_observation_payload ::
  "'x externals_scheme \<Rightarrow> ProfileDescriptor \<Rightarrow> ValidationContext \<Rightarrow> ObservationInput \<Rightarrow>
   (unit, ProfileRefusal) result" where
  "validate_observation_payload x descriptor context observation =
     and_then
       (map_err
          (\<lambda>e. with_detail ''error'' (show_CanonicalizationError e)
             (refusal_new context descriptor ProfileRefusalBoundary.Observation InvalidPayload
                ''observation payload cannot be canonicalized''))
          (canonical_json_bytes x (oi_payload observation)))
       (\<lambda>bs. let payload_bytes = clamp_u32 (length bs) in
          if payload_bytes \<le> lim_max_payload_bytes (pd_limits descriptor) then Ok ()
          else Err
            (with_detail ''actual'' (show_nat (unat payload_bytes))
              (with_detail ''limit'' (show_nat (unat (lim_max_payload_bytes (pd_limits descriptor))))
                (refusal_new context descriptor ProfileRefusalBoundary.Observation
                   PayloadLimitExceeded ''observation payload exceeds the profile limit''))))"

definition FORBIDDEN :: "string list" where
  "FORBIDDEN = [''admission'', ''authoritative_for'', ''authorization'', ''claim'', ''detector'',
     ''remediation'', ''severity'']"

definition reject_forbidden_assertions ::
  "ProfileDescriptor \<Rightarrow> ValidationContext \<Rightarrow> json \<Rightarrow> (unit, ProfileRefusal) result" where
  "reject_forbidden_assertions descriptor context payload =
     (case payload of
        JObject object \<Rightarrow>
          (case find (\<lambda>key. bt_get object key \<noteq> None) FORBIDDEN of
             Some key \<Rightarrow> Err (with_detail ''field'' key
               (refusal_new context descriptor ProfileRefusalBoundary.Observation
                  ForbiddenHelperAssertion
                  ''helper payload attempted to assert NQ-owned semantics or authority''))
           | None \<Rightarrow> Ok ())
      | _ \<Rightarrow> Ok ())"

definition validate_observation ::
  "'x externals_scheme \<Rightarrow> ProfileDescriptor \<Rightarrow> ValidationContext \<Rightarrow> ObservationInput \<Rightarrow> u32 \<Rightarrow>
   (unit, ProfileRefusal) result" where
  "validate_observation x descriptor context observation expected_ordinal = run_checks
     [refuse_if (oi_ordinal observation \<noteq> expected_ordinal)
        (with_detail ''actual'' (show_nat (unat (oi_ordinal observation)))
          (with_detail ''expected'' (show_nat (unat expected_ordinal))
            (refusal_new context descriptor ProfileRefusalBoundary.Observation InvalidOrdinal
               ''observation ordinals must be contiguous and ordered from zero''))),
      refuse_if (\<not> knows_observation_kind descriptor (oi_kind observation))
        (with_detail ''kind'' (oi_kind observation)
          (refusal_new context descriptor ProfileRefusalBoundary.Observation UnknownObservationKind
             ''observation kind is outside the compiled vocabulary'')),
      validate_observation_subject descriptor context observation,
      validate_observation_payload x descriptor context observation,
      refuse_if (oi_observed_at observation > ctx_received_at context + ctx_max_future_skew context)
        (refusal_new context descriptor ProfileRefusalBoundary.Observation FutureObservation
           ''observation time exceeds the allowed clock lead''),
      reject_forbidden_assertions descriptor context (oi_payload observation)]"

definition admitted_observation :: "ObservationInput \<Rightarrow> AdmittedObservation" where
  "admitted_observation observation =
     \<lparr> ao_kind = oi_kind observation, ao_subject = oi_subject observation,
       ao_ordinal = oi_ordinal observation, ao_observed_at = oi_observed_at observation,
       ao_payload = oi_payload observation \<rparr>"

definition validate_observations ::
  "'x externals_scheme \<Rightarrow> ProfileDescriptor \<Rightarrow> ValidationContext \<Rightarrow> ObservationInput list \<Rightarrow>
   (AdmittedObservation list, ProfileRefusal) result" where
  "validate_observations x descriptor context inputs =
     (let hard_limit = min (lim_max_observations (pd_limits descriptor)) (ctx_max_observations context);
          observation_count = clamp_u32 (length inputs)
      in if observation_count > hard_limit then
           Err (with_detail ''actual'' (show_nat (unat observation_count))
             (with_detail ''limit'' (show_nat (unat hard_limit))
               (refusal_new context descriptor ProfileRefusalBoundary.Report ObservationLimitExceeded
                  ''report exceeds the effective observation limit'')))
         else
           map_ok (\<lambda>_. map admitted_observation inputs)
             (run_checks (map
                (\<lambda>(position, observation).
                   validate_observation x descriptor context observation (clamp_u32 position))
                (enumerate 0 inputs))))"

definition validate_common ::
  "'x profile_externals_scheme \<Rightarrow> ProfileDescriptor \<Rightarrow> ValidationContext \<Rightarrow> ReportInput \<Rightarrow>
   ValidationResult" where
  "validate_common x descriptor context report =
     and_then (validate_profile_binding x descriptor context report) (\<lambda>digest.
     and_then (validate_coverage x descriptor context (ri_coverage report)) (\<lambda>coverage.
     and_then
       (run_checks
          [refuse_if
             (clamp_u32 (length (ri_coverage report)) >
                lim_max_coverage_declarations (pd_limits descriptor))
             (refusal_new context descriptor ProfileRefusalBoundary.Coverage ObservationLimitExceeded
                ''report exceeds the coverage declaration limit''),
           validate_status descriptor context report coverage]) (\<lambda>_.
     and_then (validate_observations x descriptor context (ri_observations report)) (\<lambda>observations.
       Ok \<lparr> vr_instance_id = ctx_instance_id context,
            vr_report_digest = ri_report_digest report,
            vr_profile = pd_profile descriptor,
            vr_profile_digest = digest,
            vr_status = ri_status report,
            vr_observed_at = ri_observed_at report,
            vr_coverage = coverage,
            vr_observations = observations,
            vr_error_count = ri_error_count report,
            vr_failure_error_count = ri_failure_error_count report,
            vr_used_capabilities = ri_used_capabilities report,
            vr_received_at = ctx_received_at context,
            vr_report_errors = ri_errors report \<rparr>))))"

definition validate_basis ::
  "ProfileDescriptor \<Rightarrow> ValidationContext \<Rightarrow> EvidenceBasis \<Rightarrow> (unit, ProfileRefusal) result" where
  "validate_basis descriptor context basis =
     (let refuse = refusal_new context descriptor ProfileRefusalBoundary.Observation in run_checks
     [refuse_if (eb_scope basis \<noteq> ctx_scope context)
        (refuse ScopeEscape ''payload scope differs from the request scope''),
      refuse_if (\<not> vocabulary_contains (pd_scope_kinds descriptor) (sg_kind (eb_scope basis)))
        (refuse ScopeEscape ''payload scope kind is outside the profile vocabulary''),
      refuse_if (eb_vantage basis \<noteq> ctx_vantage context \<or>
          \<not> vocabulary_contains (pd_vantages descriptor) (vg_kind (eb_vantage basis)))
        (refuse VantageEscape ''payload vantage differs from the request or profile vocabulary''),
      refuse_if (\<not> vocabulary_contains (pd_access_paths descriptor) (eb_access_path basis))
        (refuse UnknownAccessPath ''payload access path is outside the compiled vocabulary''),
      refuse_if (\<not> vocabulary_contains (pd_bases descriptor) (eb_basis basis))
        (refuse UnknownBasis ''payload basis is outside the compiled vocabulary''),
      refuse_if (\<not> vocabulary_contains (pd_regimes descriptor) (eb_regime basis))
        (refuse UnknownRegime ''payload regime is outside the compiled vocabulary''),
      run_checks (map
        (\<lambda>capability.
           refuse_if (\<not> vocabulary_contains (pd_capabilities descriptor) capability \<or>
               capability \<notin> set (ctx_granted_capabilities context))
             (with_detail ''capability'' capability
               (refuse ProfileRefusalCode.CapabilityEscape
                  ''payload exercised a capability outside the request grant'')))
        (eb_capabilities_used basis))])"

section \<open>What the shared laws admit\<close>

text \<open>
  The declarative reading of the shared laws. A clamped count is within a limit when it is at
  most the limit, or when the limit is the greatest 32-bit number.
\<close>

definition within_u32 :: "usize \<Rightarrow> u32 \<Rightarrow> bool" where
  "within_u32 n limit \<longleftrightarrow> n \<le> unat limit \<or> unat limit = 2 ^ 32 - 1"

definition capability_admissible :: "ProfileDescriptor \<Rightarrow> ValidationContext \<Rightarrow> string \<Rightarrow> bool" where
  "capability_admissible d c k \<longleftrightarrow>
     k \<in> vt_name ` set (pd_capabilities d) \<and> k \<in> set (ctx_granted_capabilities c)"

definition coverage_admissible ::
  "'x externals_scheme \<Rightarrow> ProfileDescriptor \<Rightarrow> ValidationContext \<Rightarrow> CoverageInput \<Rightarrow> bool" where
  "coverage_admissible x d c e \<longleftrightarrow>
     ci_name e \<in> vt_name ` set (pd_coverage d) \<and>
     (\<forall>s. ci_subject e = Some s \<longrightarrow> s = ctx_request_subject c) \<and>
     (\<forall>v. ci_detail e = Some v \<longrightarrow> json_fits x v (unat (lim_max_payload_bytes (pd_limits d))))"

definition status_supported :: "ReportInput \<Rightarrow> bool" where
  "status_supported r \<longleftrightarrow>
     (case ri_status r of
        SemanticReportStatus.Complete \<Rightarrow>
          ci_state ` set (ri_coverage r) \<subseteq> {SemanticCoverageState.Complete} \<and> ri_failure_error_count r = 0
      | SemanticReportStatus.Partial \<Rightarrow>
          \<not> ci_state ` set (ri_coverage r) \<subseteq> {SemanticCoverageState.Complete} \<and>
          \<not> ci_state ` set (ri_coverage r) \<subseteq> {SemanticCoverageState.Unavailable} \<and> ri_error_count r > 0
      | SemanticReportStatus.Failed \<Rightarrow>
          ci_state ` set (ri_coverage r) \<subseteq> {SemanticCoverageState.Unavailable} \<and>
          ri_observations r = [] \<and> ri_failure_error_count r > 0)"

definition observation_admissible ::
  "'x externals_scheme \<Rightarrow> ProfileDescriptor \<Rightarrow> ValidationContext \<Rightarrow> ObservationInput \<Rightarrow> bool" where
  "observation_admissible x d c ob \<longleftrightarrow>
     oi_kind ob \<in> vt_name ` set (pd_observation_kinds d) \<and>
     within_u32 (length (oi_subject ob)) (lim_max_subject_bytes (pd_limits d)) \<and>
     (\<exists>rest. oi_subject ob = sr_namespace (pd_subjects d) @ rest) \<and>
     (sr_exact_request_subject (pd_subjects d) \<longrightarrow> oi_subject ob = ctx_request_subject c) \<and>
     (\<exists>bs. canonical_json_bytes x (oi_payload ob) = Ok bs \<and>
        within_u32 (length bs) (lim_max_payload_bytes (pd_limits d))) \<and>
     oi_observed_at ob \<le> ctx_received_at c + ctx_max_future_skew c \<and>
     (\<forall>k \<in> set FORBIDDEN. json_get (oi_payload ob) k = None)"

definition report_admissible ::
  "'x profile_externals_scheme \<Rightarrow> ProfileDescriptor \<Rightarrow> ValidationContext \<Rightarrow> ReportInput \<Rightarrow> bool" where
  "report_admissible x d c r \<longleftrightarrow>
     ri_profile r = pd_profile d \<and> descriptor_digest x d = Ok (ri_profile_digest r) \<and>
     list_all (capability_admissible d c) (ri_used_capabilities r) \<and>
     list_all (coverage_admissible x d c) (ri_coverage r) \<and> distinct (map ci_name (ri_coverage r)) \<and>
     vt_name ` set (pd_coverage d) \<subseteq> ci_name ` set (ri_coverage r) \<and>
     within_u32 (length (ri_coverage r)) (lim_max_coverage_declarations (pd_limits d)) \<and>
     status_supported r \<and>
     within_u32 (length (ri_observations r))
       (min (lim_max_observations (pd_limits d)) (ctx_max_observations c)) \<and>
     map oi_ordinal (ri_observations r) = map clamp_u32 [0..<length (ri_observations r)] \<and>
     list_all (observation_admissible x d c) (ri_observations r)"

definition admitted_report :: "ProfileDescriptor \<Rightarrow> ValidationContext \<Rightarrow> ReportInput \<Rightarrow> ValidatedReport" where
  "admitted_report d c r =
     \<lparr> vr_instance_id = ctx_instance_id c, vr_report_digest = ri_report_digest r,
       vr_profile = pd_profile d, vr_profile_digest = ri_profile_digest r, vr_status = ri_status r,
       vr_observed_at = ri_observed_at r,
       vr_coverage = bt_from (map (\<lambda>e. (ci_name e, ci_state e)) (ri_coverage r)),
       vr_observations = map admitted_observation (ri_observations r),
       vr_error_count = ri_error_count r, vr_failure_error_count = ri_failure_error_count r,
       vr_used_capabilities = ri_used_capabilities r, vr_received_at = ctx_received_at c,
       vr_report_errors = ri_errors r \<rparr>"

lemma clamp_u32_within [simp]: "clamp_u32 n \<le> b \<longleftrightarrow> within_u32 n b"
  using unsigned_less [of b, where 'a = nat]
  by (auto simp: word_le_nat_alt unat_clamp_u32 within_u32_def)

lemma clamp_u32_exceeds [simp]: "b < clamp_u32 n \<longleftrightarrow> \<not> within_u32 n b"
  by (simp add: not_le flip: clamp_u32_within)

lemma within_u32_min [simp]: "within_u32 n (min a b) \<longleftrightarrow> within_u32 n a \<and> within_u32 n b"
  by (simp flip: clamp_u32_within)

lemma validate_profile_binding_Ok [checks]:
  "validate_profile_binding x d c r = Ok g \<longleftrightarrow>
     ri_profile r = pd_profile d \<and> descriptor_digest x d = Ok g \<and> g = ri_profile_digest r \<and>
     list_all (capability_admissible d c) (ri_used_capabilities r)"
  by (auto simp: validate_profile_binding_def and_then_Ok run_checks_map_Ok list_all_iff
      capability_admissible_def vocabulary_contains_iff)

lemma validate_coverage_declaration_Ok [checks]:
  "validate_coverage_declaration x d c e = Ok u \<longleftrightarrow> coverage_admissible x d c e"
  by (auto simp: validate_coverage_declaration_def coverage_admissible_def and_then_Ok json_fits_def
      knows_coverage_def vocabulary_contains_iff not_less)

lemma collect_coverage_Ok:
  "collect_coverage x d c m es = Ok m' \<longleftrightarrow>
     list_all (coverage_admissible x d c) es \<and> distinct (map ci_name es) \<and>
     list_all (\<lambda>e. bt_get m (ci_name e) = None) es \<and>
     m' = fold (\<lambda>(k, v). bt_insert k v) (map (\<lambda>e. (ci_name e, ci_state e)) es) m"
proof (induction es arbitrary: m)
  case Nil
  then show ?case by auto
next
  case (Cons e es)
  have "list_all (\<lambda>f. bt_get (bt_insert (ci_name e) (ci_state e) m) (ci_name f) = None) es \<longleftrightarrow>
      ci_name e \<notin> ci_name ` set es \<and> list_all (\<lambda>f. bt_get m (ci_name f) = None) es"
    by (induction es) auto
  then show ?case
    by (auto simp: and_then_Ok validate_coverage_declaration_Ok Cons.IH simp del: bt_get_insert)
qed

lemma validate_coverage_Ok [checks]:
  "validate_coverage x d c es = Ok m \<longleftrightarrow>
     list_all (coverage_admissible x d c) es \<and> distinct (map ci_name es) \<and>
     vt_name ` set (pd_coverage d) \<subseteq> ci_name ` set es \<and>
     m = bt_from (map (\<lambda>e. (ci_name e, ci_state e)) es)"
proof -
  let ?m = "bt_from (map (\<lambda>e. (ci_name e, ci_state e)) es)"
  have "bt_get ?m k \<noteq> None \<longleftrightarrow> k \<in> ci_name ` set es" for k
    by (auto simp: bt_get_from map_of_eq_None_iff image_image simp del: not_None_eq)
  then have "(\<forall>t \<in> set (pd_coverage d). \<exists>y. bt_get ?m (vt_name t) = Some y) \<longleftrightarrow>
      vt_name ` set (pd_coverage d) \<subseteq> ci_name ` set es"
    by (auto simp: image_subset_iff)
  then show ?thesis
    by (auto simp: validate_coverage_def and_then_Ok collect_coverage_Ok run_checks_map_Ok
        list_all_iff simp flip: bt_from_def)
qed

lemma validate_status_Ok [checks]:
  assumes "distinct (map ci_name (ri_coverage r))"
  shows "validate_status d c r (bt_from (map (\<lambda>e. (ci_name e, ci_state e)) (ri_coverage r))) = Ok u \<longleftrightarrow>
     status_supported r"
proof -
  have "set (bt_from (map (\<lambda>e. (ci_name e, ci_state e)) (ri_coverage r))) =
      (\<lambda>e. (ci_name e, ci_state e)) ` set (ri_coverage r)"
    using assms by (simp add: set_bt_from comp_def)
  then show ?thesis
    by (auto simp: validate_status_def status_supported_def Let_def list_all_iff
        split: SemanticReportStatus.split)
qed

lemma validate_observation_Ok [checks]:
  "validate_observation x d c ob i = Ok u \<longleftrightarrow> oi_ordinal ob = i \<and> observation_admissible x d c ob"
proof -
  have "reject_forbidden_assertions d c v = Ok u \<longleftrightarrow> (\<forall>k \<in> set FORBIDDEN. json_get v k = None)" for v u
    by (auto simp: reject_forbidden_assertions_def json_get_def find_None_iff find_Some_iff
        split: json.splits option.splits)
  moreover have "validate_observation_payload x d c ob = Ok u \<longleftrightarrow>
      (\<exists>bs. canonical_json_bytes x (oi_payload ob) = Ok bs \<and>
        within_u32 (length bs) (lim_max_payload_bytes (pd_limits d)))" for u
    by (auto simp: validate_observation_payload_def and_then_Ok Let_def)
  ultimately show ?thesis
    by (auto simp: validate_observation_def observation_admissible_def knows_observation_kind_def
        vocabulary_contains_iff validate_observation_subject_def Let_def starts_with_iff)
qed

lemma checked_enumerate:
  assumes "\<And>ob i. check ob i = Ok () \<longleftrightarrow> f ob = i \<and> P ob"
  shows "run_checks (map (\<lambda>(i, ob). check ob (g i)) (enumerate n obs)) = Ok () \<longleftrightarrow>
     map f obs = map g [n..<n + length obs] \<and> list_all P obs"
proof (induction obs arbitrary: n)
  case (Cons ob obs)
  have "[n..<n + length (ob # obs)] = n # [Suc n..<Suc n + length obs]"
    by (simp add: upt_conv_Cons del: upt_Suc)
  then show ?case using Cons.IH [of "Suc n"] assms by (auto simp del: upt_Suc)
qed simp

lemma validate_observations_Ok [checks]:
  "validate_observations x d c obs = Ok os \<longleftrightarrow>
     within_u32 (length obs) (min (lim_max_observations (pd_limits d)) (ctx_max_observations c)) \<and>
     map oi_ordinal obs = map clamp_u32 [0..<length obs] \<and>
     list_all (observation_admissible x d c) obs \<and> os = map admitted_observation obs"
  using checked_enumerate
    [of "validate_observation x d c" oi_ordinal "observation_admissible x d c" clamp_u32 0 obs,
      OF validate_observation_Ok]
  by (auto simp: validate_observations_def Let_def validate_observation_Ok not_less)

lemma validate_common_Ok:
  "validate_common x d c r = Ok v \<longleftrightarrow> report_admissible x d c r \<and> v = admitted_report d c r"
  by (auto simp: validate_common_def and_then_Ok validate_profile_binding_Ok validate_coverage_Ok
      validate_status_Ok validate_observations_Ok report_admissible_def admitted_report_def not_less)

section \<open>Who refuses\<close>

text \<open>Every refusal names the responsible instance and the profile it was judged under.\<close>

definition refusal_of :: "ValidationContext \<Rightarrow> ProfileDescriptor \<Rightarrow> ProfileRefusal \<Rightarrow> bool" where
  "refusal_of c d e \<longleftrightarrow> pr_instance_id e = ctx_instance_id c \<and> pr_profile e = pd_profile d"

definition refuses_for :: "ValidationContext \<Rightarrow> ProfileDescriptor \<Rightarrow> ('t, ProfileRefusal) result \<Rightarrow> bool" where
  "refuses_for c d r \<longleftrightarrow> (\<forall>e. r = Err e \<longrightarrow> refusal_of c d e)"

lemma refusal_of_new [refusals]: "refusal_of c d (refusal_new c d b k m)"
  by (simp add: refusal_of_def refusal_new_def)

lemma refusal_of_with_detail [refusals]: "refusal_of c d (with_detail k v e) \<longleftrightarrow> refusal_of c d e"
  by (simp add: refusal_of_def with_detail_def)

lemma refuses_for_Ok [refusals]: "refuses_for c d (Ok v)"
  by (simp add: refuses_for_def)

lemma refuses_for_Err [refusals]: "refuses_for c d (Err e) \<longleftrightarrow> refusal_of c d e"
  by (simp add: refuses_for_def)

lemma refuses_for_refuse_if [refusals]: "refusal_of c d e \<Longrightarrow> refuses_for c d (refuse_if b e)"
  by (simp add: refuses_for_def)

lemma refuses_for_map_err [refusals]: "(\<And>e. refusal_of c d (f e)) \<Longrightarrow> refuses_for c d (map_err f r)"
  by (cases r) (simp_all add: refuses_for_def)

lemma refuses_for_map_ok [refusals]: "refuses_for c d r \<Longrightarrow> refuses_for c d (map_ok f r)"
  by (cases r) (simp_all add: refuses_for_def)

lemma refuses_for_and_then [refusals]:
  "refuses_for c d r \<Longrightarrow> (\<And>v. refuses_for c d (f v)) \<Longrightarrow> refuses_for c d (and_then r f)"
  by (cases r) (simp_all add: refuses_for_def)

lemma refuses_for_check_some [refusals]:
  "(\<And>v. refuses_for c d (f v)) \<Longrightarrow> refuses_for c d (check_some f o')"
  by (cases o') (simp_all add: refuses_for_def check_some_def)

lemma refuses_for_run_checks: "(\<And>r. r \<in> set rs \<Longrightarrow> refuses_for c d r) \<Longrightarrow> refuses_for c d (run_checks rs)"
  by (metis in_set_conv_decomp refuses_for_def run_checks_Err)

lemma refuses_for_run_checks_Cons [refusals]:
  "refuses_for c d r \<Longrightarrow> refuses_for c d (run_checks rs) \<Longrightarrow> refuses_for c d (run_checks (r # rs))"
  by (cases r) (simp_all add: refuses_for_def)

lemma refuses_for_run_checks_Nil [refusals]: "refuses_for c d (run_checks [])"
  by (simp add: refuses_for_def)

lemma refuses_for_run_checks_map [refusals]:
  "(\<And>v. refuses_for c d (f v)) \<Longrightarrow> refuses_for c d (run_checks (map f vs))"
  by (rule refuses_for_run_checks) auto

lemma refuses_for_ok_or [refusals]: "refusal_of c d e \<Longrightarrow> refuses_for c d (ok_or e v)"
  by (cases v) (simp_all add: refuses_for_def)

lemma collect_coverage_refuses: "refuses_for c d (collect_coverage x d c m es)"
proof (induction es arbitrary: m)
  case (Cons e es)
  then show ?case
    by (simp add: validate_coverage_declaration_def refusals)
qed (simp add: refusals)

lemma validate_common_refuses [refusals]: "refuses_for c d (validate_common x d c r)"
  by (simp add: validate_common_def validate_profile_binding_def validate_coverage_def
      collect_coverage_refuses validate_status_def validate_observations_def validate_observation_def
      validate_observation_subject_def validate_observation_payload_def
      reject_forbidden_assertions_def Let_def split_beta refusals split: json.split option.split)

lemma validate_basis_refuses [refusals]: "refuses_for c d (validate_basis d c b)"
  by (simp add: validate_basis_def Let_def refusals)

section \<open>The gate every compiled profile is behind\<close>

text \<open>
  What a compiled profile module promises of its \<open>validate\<close>: it admits nothing that the shared laws
  do not admit under its own descriptor, it admits exactly the report those laws produce, and it
  refuses in the name of the responsible instance.
\<close>

locale profile_gate =
  fixes x :: "'x profile_externals_scheme"
    and descriptor :: ProfileDescriptor
    and validate :: "ValidationContext \<Rightarrow> ReportInput \<Rightarrow> ValidationResult"
  assumes behind_common: "validate c r = Ok v \<Longrightarrow> validate_common x descriptor c r = Ok v"
    and refuses: "refuses_for c descriptor (validate c r)"
begin

lemma admitted_identity:
  assumes "validate c r = Ok v"
  shows "vr_instance_id v = ctx_instance_id c" and "vr_profile v = pd_profile descriptor"
    and "descriptor_digest x descriptor = Ok (vr_profile_digest v)"
    and "vr_report_digest v = ri_report_digest r" and "vr_status v = ri_status r"
  using behind_common [OF assms]
  by (auto simp: validate_common_Ok admitted_report_def report_admissible_def)

lemma admitted_within_grant:
  assumes "validate c r = Ok v"
  shows "set (vr_used_capabilities v) \<subseteq>
    set (ctx_granted_capabilities c) \<inter> vt_name ` set (pd_capabilities descriptor)"
  using behind_common [OF assms]
  by (auto simp: validate_common_Ok admitted_report_def report_admissible_def list_all_iff
      capability_admissible_def)

lemma admitted_observations:
  assumes "validate c r = Ok v" "ob \<in> set (vr_observations v)"
  shows "ao_kind ob \<in> vt_name ` set (pd_observation_kinds descriptor)"
    and "ao_observed_at ob \<le> ctx_received_at c + ctx_max_future_skew c"
    and "sr_exact_request_subject (pd_subjects descriptor) \<Longrightarrow> ao_subject ob = ctx_request_subject c"
  using behind_common [OF assms(1)] assms(2)
  by (auto simp: validate_common_Ok admitted_report_def report_admissible_def list_all_iff
      observation_admissible_def admitted_observation_def)

lemma admitted_coverage:
  assumes "validate c r = Ok v" "vr_status v = SemanticReportStatus.Complete"
    and "k \<in> vt_name ` set (pd_coverage descriptor)"
  shows "bt_get (vr_coverage v) k = Some SemanticCoverageState.Complete"
proof -
  have adm: "report_admissible x descriptor c r" and v: "v = admitted_report descriptor c r"
    using behind_common [OF assms(1)] by (simp_all add: validate_common_Ok)
  let ?es = "map (\<lambda>e. (ci_name e, ci_state e)) (ri_coverage r)"
  have "k \<in> ci_name ` set (ri_coverage r)" and dist: "distinct (map fst (rev ?es))"
    using adm assms(3) by (auto simp: report_admissible_def comp_def simp flip: rev_map)
  then obtain e where e: "e \<in> set (ri_coverage r)" "ci_name e = k" by auto
  have "ci_state e = SemanticCoverageState.Complete"
    using adm assms(2) e(1)
    by (auto simp: v admitted_report_def report_admissible_def status_supported_def)
  moreover have "(k, ci_state e) \<in> set (rev ?es)" using e by auto
  ultimately show ?thesis
    using map_of_is_SomeI [OF dist, of k "ci_state e"]
    by (simp add: v admitted_report_def bt_get_from)
qed

end

text \<open>The shared laws themselves are behind the gate, for every descriptor.\<close>

interpretation common: profile_gate x descriptor "validate_common x descriptor"
  for x :: "'x profile_externals_scheme" and descriptor
  by unfold_locales (simp_all add: validate_common_refuses)

section \<open>Properties of admission\<close>

text \<open>
  C2. The shared laws admit a report exactly when it declares the compiled profile with its
  digest, exercises only capabilities that are both in the vocabulary and granted, declares every
  coverage class of the vocabulary once and no other, has the status its coverage and errors
  support, and holds a bounded, contiguously numbered list of admissible observations; and then
  the admitted report is the image of the input under the instance of the request.
\<close>

theorem validate_common_admits_exactly:
  "validate_common x d c r = Ok v \<longleftrightarrow> report_admissible x d c r \<and> v = admitted_report d c r"
  by (rule validate_common_Ok)

text \<open>
  C40. The class of admitted coverage is the vocabulary itself: on an admitted report the coverage
  map has an entry for exactly the declared classes of the profile, in ascending order, and a
  complete report has no entry but complete ones, while a failed one has no observation at all.
\<close>

theorem admitted_coverage_is_vocabulary:
  assumes "validate_common x d c r = Ok v"
  shows "fst ` set (vr_coverage v) = vt_name ` set (pd_coverage d) \<and> bt_ordered (vr_coverage v) \<and>
    (vr_status v = SemanticReportStatus.Complete \<longrightarrow>
       snd ` set (vr_coverage v) \<subseteq> {SemanticCoverageState.Complete}) \<and>
    (vr_status v = SemanticReportStatus.Failed \<longrightarrow> vr_observations v = [])"
proof -
  have adm: "report_admissible x d c r" and v: "v = admitted_report d c r"
    using assms by (simp_all add: validate_common_Ok)
  then have cov: "set (vr_coverage v) = (\<lambda>e. (ci_name e, ci_state e)) ` set (ri_coverage r)"
    by (simp add: admitted_report_def report_admissible_def set_bt_from comp_def)
  have "ci_name ` set (ri_coverage r) = vt_name ` set (pd_coverage d)"
    using adm by (auto simp: report_admissible_def list_all_iff coverage_admissible_def)
  then have "fst ` set (vr_coverage v) = vt_name ` set (pd_coverage d)"
    by (simp add: cov image_image)
  moreover have "status_supported r" using adm by (simp add: report_admissible_def)
  moreover have "snd ` set (vr_coverage v) = ci_state ` set (ri_coverage r)"
    by (simp add: cov image_image)
  ultimately show ?thesis
    by (auto simp: v admitted_report_def bt_ordered_from status_supported_def
        split: SemanticReportStatus.splits)
qed

section \<open>From the wire to admission\<close>

text \<open>
  What the protocol established of a report survives normalization: of an accepted exchange,
  the ordinals are contiguous, the observation count is within the limit of the request context, the
  exercised capabilities are granted ones, both error counts are exact, and a complete report has
  neither incomplete coverage nor a failure error.
\<close>

lemma normalization_keeps_protocol_laws:
  assumes "exchange_law x q p" "resp_outcome p = ResponseOutcome.Report r"
    and "from_protocol r digest = Ok i" "c = context_from_request q received_at skew"
  shows "map (unat \<circ> oi_ordinal) (ri_observations i) = [0..<length (ri_observations i)] \<and>
    length (ri_observations i) \<le> unat (ctx_max_observations c) \<and>
    set (ri_used_capabilities i) \<subseteq> set (ctx_granted_capabilities c) \<and>
    unat (ri_error_count i) = length (rep_errors r) \<and>
    unat (ri_failure_error_count i) =
      length (filter (\<lambda>e. err_severity e = ErrorSeverity.Error) (rep_errors r)) \<and>
    (ri_status i = SemanticReportStatus.Complete \<longrightarrow>
       ci_state ` set (ri_coverage i) \<subseteq> {SemanticCoverageState.Complete} \<and>
       ri_failure_error_count i = 0)"
proof -
  have law: "outcome_law x q (ResponseOutcome.Report r)" and bounds: "bounds_law (req_bounds q)"
    using assms by (auto simp: exchange_law_def request_law_def)
  have errors: "length (rep_errors r) \<le> 1024"
    using law bounds by (auto simp: outcome_law_def report_structure_def bounds_law_def)
  have failures: "length (filter P (rep_errors r)) \<le> 1024" for P
    using errors length_filter_le [of P "rep_errors r"] by linarith
  have i: "ri_observations i = map normalized_observation (rep_observations r)"
    "ri_coverage i = map normalized_coverage (rep_coverage r)"
    "ri_error_count i = clamp_u32 (length (rep_errors r))"
    "ri_failure_error_count i =
       clamp_u32 (length (filter (\<lambda>e. err_severity e = ErrorSeverity.Error) (rep_errors r)))"
    "ri_status i = normalized_status (rep_status r)"
    "ri_used_capabilities i = bs_from (rep_used_capabilities r)"
    using assms(3) by (auto simp: from_protocol_def split: option.splits)
  have "map (unat \<circ> oi_ordinal) (ri_observations i) = [0..<length (ri_observations i)]"
    and "length (ri_observations i) \<le> unat (ctx_max_observations c)"
    and "set (ri_used_capabilities i) \<subseteq> set (ctx_granted_capabilities c)"
    using law assms(4)
    by (simp_all add: i outcome_law_def report_structure_def context_from_request_def
        normalized_observation_def comp_def)
  moreover have "unat (ri_error_count i) = length (rep_errors r)"
    using errors by (simp add: i unat_clamp_u32)
  moreover have failure: "unat (ri_failure_error_count i) =
      length (filter (\<lambda>e. err_severity e = ErrorSeverity.Error) (rep_errors r))"
    using failures [of "\<lambda>e. err_severity e = ErrorSeverity.Error"] by (simp add: i unat_clamp_u32)
  moreover have "ci_state ` set (ri_coverage i) \<subseteq> {SemanticCoverageState.Complete} \<and>
      ri_failure_error_count i = 0" if "ri_status i = SemanticReportStatus.Complete"
  proof -
    have "rep_status r = ReportStatus.Complete"
      using that by (cases "rep_status r") (simp_all add: i)
    then have "\<forall>e \<in> set (rep_errors r). err_severity e = ErrorSeverity.Warning"
      and states: "\<forall>e \<in> set (rep_coverage r). cov_state e = CoverageState.Complete"
      using law by (auto simp: outcome_law_def report_structure_def status_law_def)
    then have "filter (\<lambda>e. err_severity e = ErrorSeverity.Error) (rep_errors r) = []"
      by (auto simp: filter_empty_conv)
    with failure states show ?thesis
      by (auto simp: i(2) normalized_coverage_def unat_eq_0)
  qed
  ultimately show ?thesis by blast
qed

section \<open>Concrete instances\<close>

definition sample_descriptor :: ProfileDescriptor where
  "sample_descriptor =
     \<lparr> pd_schema = PROFILE_DESCRIPTOR_SCHEMA, pd_family = ''nq.host'',
       pd_profile = ProfileKey_new ''nq.host'' 1, pd_title = ''Host'',
       pd_observation_kinds = [VocabularyTerm_new ''memory'' []],
       pd_coverage = [VocabularyTerm_new ''memory'' []],
       pd_subjects = \<lparr> sr_namespace = ''host:'', sr_exact_request_subject = True \<rparr>,
       pd_scope_kinds = [], pd_vantages = [], pd_access_paths = [], pd_bases = [], pd_regimes = [],
       pd_capabilities = [],
       pd_freshness = \<lparr> reliance_seconds = 90, alignment_seconds = 30 \<rparr>,
       pd_limits = \<lparr> lim_max_observations = 1, lim_max_payload_bytes = 16384,
         lim_max_subject_bytes = 255, lim_max_coverage_declarations = 1 \<rparr>,
       pd_disturbance_assumptions = [] \<rparr>"

definition sample_profile_externals :: profile_externals where
  "sample_profile_externals = frame_externals.extend sample_externals
     \<lparr> descriptor_to_value = (\<lambda>_. Ok (JObject [])), report_to_value = (\<lambda>_. Ok (JObject [])),
       evaluator_source_digest = [] \<rparr>"

definition sample_input :: ReportInput where
  "sample_input =
     \<lparr> ri_report_digest = ''d'', ri_profile = ProfileKey_new ''nq.host'' 1,
       ri_profile_digest = ''sha256:'', ri_status = SemanticReportStatus.Complete, ri_observed_at = 5,
       ri_coverage = [\<lparr> ci_name = ''memory'', ci_subject = None,
         ci_state = SemanticCoverageState.Complete, ci_detail = None \<rparr>],
       ri_observations = [\<lparr> oi_kind = ''memory'', oi_subject = ''host:a'', oi_ordinal = 0,
         oi_observed_at = 5, oi_payload = JNull \<rparr>],
       ri_error_count = 0, ri_failure_error_count = 0, ri_used_capabilities = [], ri_errors = [] \<rparr>"

lemma sample_input_admissible:
  "report_admissible sample_profile_externals sample_descriptor
     (context_from_request sample_request 9 0) sample_input"
  by (simp add: report_admissible_def sample_input_def sample_descriptor_def
      sample_profile_externals_def frame_externals.extend_def sample_externals_def
      descriptor_digest_def semantic_digest_of_def canonical_json_bytes_of_def canonical_json_bytes_Ok
      sha256_bytes_def coverage_admissible_def observation_admissible_def status_supported_def
      within_u32_def clamp_u32_def json_get_def VocabularyTerm_new_def context_from_request_def
      sample_request_def HelperRequest_builder_def CollectionBounds_default_def)

theorem admitted_coverage_is_vocabulary_witness:
  "\<exists>v. validate_common sample_profile_externals sample_descriptor
          (context_from_request sample_request 9 0) sample_input = Ok v \<and>
       fst ` set (vr_coverage v) = {''memory''} \<and>
       snd ` set (vr_coverage v) \<subseteq> {SemanticCoverageState.Complete}"
proof -
  let ?v = "admitted_report sample_descriptor (context_from_request sample_request 9 0) sample_input"
  have "validate_common sample_profile_externals sample_descriptor
      (context_from_request sample_request 9 0) sample_input = Ok ?v"
    by (simp add: validate_common_Ok sample_input_admissible)
  from this and admitted_coverage_is_vocabulary [OF this] show ?thesis
    by (simp add: admitted_report_def sample_input_def sample_descriptor_def VocabularyTerm_new_def)
qed

end
