(* ===== verification/Detector_Core.thy ===== *)
theory Detector_Core
  imports Profile_Validation
begin

text \<open>
  The detector plane (\<open>crates/nq-profiles/src/detector.rs\<close>): descriptors, inputs, results, the
  external threshold policy, and the contract that every compiled detector of the host
  profiles keeps, as the interface \<open>governed_detector\<close>.
\<close>

section \<open>Descriptors and inputs\<close>

datatype DetectorRuleParameters =
    LoadPressure u32
  | SystemdUnitPostcondition string
  | HttpEndpointPostcondition string
  | SyntheticCacheExecutorResult
  | FilesystemCapacityPressure u32
  | FilesystemInodePressure u32
  | MemoryPressureStall u32 u32
  | SystemdUnitRequiredActive string string

record DetectorDescriptor =
  dd_schema :: string
  dd_id :: string
  dd_version :: u32
  dd_profile :: ProfileKey
  dd_profile_digest :: ProfileDigest
  dd_title :: string
  dd_condition :: string
  dd_parameters :: DetectorRuleParameters

definition DETECTOR_DESCRIPTOR_SCHEMA :: string where
  "DETECTOR_DESCRIPTOR_SCHEMA = ''nq.detector_descriptor.v1''"

text \<open>The digest of a descriptor, given the serializer derived for it.\<close>

definition detector_digest ::
  "'x externals_scheme \<Rightarrow> (DetectorDescriptor \<Rightarrow> (json, string) result) \<Rightarrow> DetectorDescriptor \<Rightarrow>
   (string, string) result" where
  "detector_digest x to_value self =
     map_err show_CanonicalizationError (semantic_digest_of x to_value self)"

record ThresholdPolicyInput =
  tp_id :: string
  tp_version :: string
  tp_digest :: Sha256Digest
  tp_value :: json

definition verify_digest :: "'x externals_scheme \<Rightarrow> ThresholdPolicyInput \<Rightarrow> (unit, string) result" where
  "verify_digest x self =
     and_then (map_err show_CanonicalizationError (semantic_digest x (tp_value self)))
       (\<lambda>actual.
          if actual = tp_digest self then Ok ()
          else Err (''threshold policy digest mismatch: expected '' @ tp_digest self @
            '', observed '' @ actual))"

text \<open>The default of the trait \<open>ProfileModule\<close>: a profile without a policy surface.\<close>

definition default_validate_threshold_policy ::
  "ProfileDescriptor \<Rightarrow> ValidationContext \<Rightarrow> ThresholdPolicyInput option \<Rightarrow>
   (unit, ProfileRefusal) result" where
  "default_validate_threshold_policy descriptor context policy =
     (if policy = None then Ok ()
      else Err (refusal_new context descriptor ProfileRefusalBoundary.Profile InvalidPayload
        ''this compiled profile does not accept an external threshold policy''))"

record DetectorReport =
  dr_report_id :: string
  dr_report_sequence :: u64
  dr_report :: ValidatedReport

record DetectorInput =
  di_instance_id :: string
  di_evaluated_at :: instant
  di_watermark :: u64
  di_threshold_policy :: "ThresholdPolicyInput option"
  di_reports :: "DetectorReport list"

section \<open>Results\<close>

record DetectorEvidence =
  de_report_id :: string
  de_report_sequence :: u64
  de_report_digest :: string
  de_observation_ordinal :: "u32 option"
  de_observed_at :: instant

datatype DetectorState = Present | ExplicitlyAbsent | CannotEvaluate

record DetectorResult =
  res_state :: DetectorState
  res_condition :: string
  res_summary :: string
  res_evidence :: "DetectorEvidence list"
  res_limitations :: "string list"
  res_refusal :: "ProfileRefusal option"
  res_watermark :: u64

definition cannot_evaluate_with_details ::
  "DetectorInput \<Rightarrow> DetectorDescriptor \<Rightarrow> string \<Rightarrow> string list \<Rightarrow> (string, string) btree_map \<Rightarrow>
   DetectorResult" where
  "cannot_evaluate_with_details input descriptor summary limitations details =
     \<lparr> res_state = DetectorState.CannotEvaluate,
       res_condition = dd_condition descriptor,
       res_summary = summary,
       res_evidence = [],
       res_limitations = limitations,
       res_refusal = Some
         \<lparr> pr_instance_id = di_instance_id input, pr_profile = dd_profile descriptor,
           pr_boundary = ProfileRefusalBoundary.Detector, pr_code = ProfileRefusalCode.CannotEvaluate,
           pr_message = summary, pr_details = details \<rparr>,
       res_watermark = di_watermark input \<rparr>"

definition cannot_evaluate ::
  "DetectorInput \<Rightarrow> DetectorDescriptor \<Rightarrow> string \<Rightarrow> string list \<Rightarrow> DetectorResult" where
  "cannot_evaluate input descriptor summary limitations =
     cannot_evaluate_with_details input descriptor summary limitations []"

section \<open>Selection of testimony\<close>

text \<open>
  \<open>Iterator::max_by_key\<close> on the durable sequence: the last of the greatest elements.
\<close>

fun max_by_sequence :: "DetectorReport list \<Rightarrow> DetectorReport option" where
  "max_by_sequence [] = None"
| "max_by_sequence (r # rs) =
     (case max_by_sequence rs of
        None \<Rightarrow> Some r
      | Some m \<Rightarrow> if dr_report_sequence m < dr_report_sequence r then Some r else Some m)"

definition newest_report :: "DetectorInput \<Rightarrow> DetectorReport option" where
  "newest_report input =
     max_by_sequence
       (filter (\<lambda>report. vr_instance_id (dr_report report) = di_instance_id input) (di_reports input))"

text \<open>Durations in nanoseconds: \<open>Duration::seconds\<close> of a clamped count, and \<open>num_seconds\<close>.\<close>

definition duration_seconds :: "u64 \<Rightarrow> duration" where
  "duration_seconds n = min (uint n) (2 ^ 63 - 1) * 1000000000"

definition num_seconds :: "duration \<Rightarrow> int" where
  "num_seconds age = sgn age * (\<bar>age\<bar> div 1000000000)"

lemma max_by_sequence_None [simp]: "max_by_sequence rs = None \<longleftrightarrow> rs = []"
  by (cases rs) (auto split: option.split)

lemma max_by_sequence_Some:
  "max_by_sequence rs = Some r \<Longrightarrow>
     r \<in> set rs \<and> (\<forall>s \<in> set rs. dr_report_sequence s \<le> dr_report_sequence r)"
  by (induction rs arbitrary: r) (fastforce split: option.splits if_splits)+

text \<open>The newest report of the instance: no report of it has a greater sequence.\<close>

definition newest :: "DetectorInput \<Rightarrow> DetectorReport \<Rightarrow> bool" where
  "newest input r \<longleftrightarrow>
     r \<in> set (di_reports input) \<and> vr_instance_id (dr_report r) = di_instance_id input \<and>
     (\<forall>s \<in> set (di_reports input). vr_instance_id (dr_report s) = di_instance_id input \<longrightarrow>
        dr_report_sequence s \<le> dr_report_sequence r)"

lemma newest_report_Some: "newest_report input = Some r \<Longrightarrow> newest input r"
  by (auto simp: newest_report_def newest_def dest!: max_by_sequence_Some)

lemma newest_report_None:
  "newest_report input = None \<longleftrightarrow>
     (\<forall>s \<in> set (di_reports input). vr_instance_id (dr_report s) \<noteq> di_instance_id input)"
  by (auto simp: newest_report_def filter_empty_conv)

section \<open>The contract of a detector\<close>

text \<open>
  Testimony that a detector may rely on: the newest of its instance, under the profile and the
  digest the detector was compiled for, complete in status and in the required coverage class, and
  neither older than the reliance window nor from the future.
\<close>

definition reliable ::
  "DetectorDescriptor \<Rightarrow> string \<Rightarrow> duration \<Rightarrow> DetectorInput \<Rightarrow> DetectorReport \<Rightarrow> bool" where
  "reliable descriptor coverage_kind reliance input occ \<longleftrightarrow>
     newest input occ \<and>
     vr_profile (dr_report occ) = dd_profile descriptor \<and>
     vr_profile_digest (dr_report occ) = dd_profile_digest descriptor \<and>
     vr_status (dr_report occ) = SemanticReportStatus.Complete \<and>
     bt_get (vr_coverage (dr_report occ)) coverage_kind = Some SemanticCoverageState.Complete \<and>
     0 \<le> di_evaluated_at input - vr_observed_at (dr_report occ) \<and>
     di_evaluated_at input - vr_observed_at (dr_report occ) \<le> reliance"

definition refused_result :: "DetectorDescriptor \<Rightarrow> DetectorInput \<Rightarrow> DetectorResult \<Rightarrow> bool" where
  "refused_result descriptor input res \<longleftrightarrow>
     res_state res = DetectorState.CannotEvaluate \<and> res_evidence res = [] \<and>
     (\<exists>refusal. res_refusal res = Some refusal \<and> pr_instance_id refusal = di_instance_id input \<and>
        pr_profile refusal = dd_profile descriptor \<and>
        pr_boundary refusal = ProfileRefusalBoundary.Detector \<and>
        pr_code refusal = ProfileRefusalCode.CannotEvaluate)"

text \<open>
  The evidence a result cites: one observation, of the required kind, of the report it relied on.
\<close>

definition cites :: "DetectorReport \<Rightarrow> string \<Rightarrow> DetectorResult \<Rightarrow> bool" where
  "cites occ kind res \<longleftrightarrow>
     (\<exists>ob \<in> set (vr_observations (dr_report occ)). ao_kind ob = kind \<and>
        res_evidence res =
          [\<lparr> de_report_id = dr_report_id occ, de_report_sequence = dr_report_sequence occ,
             de_report_digest = vr_report_digest (dr_report occ),
             de_observation_ordinal = Some (ao_ordinal ob), de_observed_at = ao_observed_at ob \<rparr>])"

lemma refused_result_cannot_evaluate [simp]:
  "refused_result d i (cannot_evaluate_with_details i d s l e)"
  by (simp add: refused_result_def cannot_evaluate_with_details_def)

text \<open>
  An evaluation that panics is \<open>None\<close>; the contract includes that it never does.
\<close>

locale governed_detector =
  fixes evaluate :: "DetectorInput \<Rightarrow> DetectorResult option"
    and descriptor :: DetectorDescriptor
    and coverage_kind :: string
    and observation_kind :: string
    and reliance :: duration
  assumes returns: "\<exists>res. evaluate input = Some res"
    and decided: "evaluate input = Some res \<Longrightarrow> res_state res \<noteq> DetectorState.CannotEvaluate \<Longrightarrow>
      \<exists>occ. reliable descriptor coverage_kind reliance input occ \<and>
        cites occ observation_kind res \<and> res_refusal res = None"
    and undecided: "evaluate input = Some res \<Longrightarrow> res_state res = DetectorState.CannotEvaluate \<Longrightarrow>
      refused_result descriptor input res"
    and keeps_watermark: "evaluate input = Some res \<Longrightarrow> res_watermark res = di_watermark input"
begin

lemma refused_unless_reliable:
  assumes "\<And>occ. \<not> reliable descriptor coverage_kind reliance input occ"
  shows "\<exists>res. evaluate input = Some res \<and> refused_result descriptor input res"
  using returns [of input] decided undecided assms by blast

lemma no_testimony:
  assumes "\<forall>s \<in> set (di_reports input). vr_instance_id (dr_report s) \<noteq> di_instance_id input"
  shows "\<exists>res. evaluate input = Some res \<and> refused_result descriptor input res"
  using assms by (intro refused_unless_reliable) (auto simp: reliable_def newest_def)

lemma newer_failure_not_shadowed:
  assumes "r \<in> set (di_reports input)" "vr_instance_id (dr_report r) = di_instance_id input"
    and "vr_status (dr_report r) \<noteq> SemanticReportStatus.Complete"
    and "\<forall>s \<in> set (di_reports input). vr_instance_id (dr_report s) = di_instance_id input \<longrightarrow> s \<noteq> r \<longrightarrow>
      dr_report_sequence s < dr_report_sequence r"
  shows "\<exists>res. evaluate input = Some res \<and> refused_result descriptor input res"
proof (rule refused_unless_reliable)
  fix occ
  show "\<not> reliable descriptor coverage_kind reliance input occ"
    using assms unfolding reliable_def newest_def by (metis not_le)
qed

lemma stale_testimony_refused:
  assumes "\<forall>s \<in> set (di_reports input). vr_instance_id (dr_report s) = di_instance_id input \<longrightarrow>
      di_evaluated_at input - vr_observed_at (dr_report s) \<notin> {0..reliance}"
  shows "\<exists>res. evaluate input = Some res \<and> refused_result descriptor input res"
  using assms by (intro refused_unless_reliable) (auto simp: reliable_def newest_def)

lemma absence_needs_evidence:
  assumes "evaluate input = Some res" "res_state res = ExplicitlyAbsent"
  shows "\<exists>occ. reliable descriptor coverage_kind reliance input occ \<and> cites occ observation_kind res"
  using decided [OF assms(1)] assms(2) by auto

end

text \<open>An input that presents the given reports in the order of their commitment.\<close>

definition sample_detector_input :: "ValidatedReport list \<Rightarrow> DetectorInput" where
  "sample_detector_input reports =
     \<lparr> di_instance_id = ''i-1'', di_evaluated_at = 11, di_watermark = 3, di_threshold_policy = None,
       di_reports = map (\<lambda>(n, r). \<lparr> dr_report_id = ''r'', dr_report_sequence = of_nat n, dr_report = r \<rparr>)
         (enumerate 1 reports) \<rparr>"

end
