(* ===== verification/Host_Memory.thy ===== *)
theory Host_Memory
  imports Detector_Core
begin

text \<open>
  The profile \<open>nq.host_memory\<close> (\<open>crates/nq-profiles/src/host_memory.rs\<close>): parsing of the kernel's
  pressure file, admission of a snapshot, projection, and the pressure-stall detector. The
  decoders that \<open>serde\<close> derives for the scope and the payload are externals.
\<close>

section \<open>Vocabulary\<close>

datatype MemoryFailureCode =
    MachineIdentityUnavailable | MachineIdentityMismatch | PsiReadFailed | PsiMalformed
  | PsiNotProvided | BootClockUnavailable

definition memory_failure_ALL :: "MemoryFailureCode list" where
  "memory_failure_ALL =
     [MachineIdentityUnavailable, MachineIdentityMismatch, PsiReadFailed, PsiMalformed,
      PsiNotProvided, BootClockUnavailable]"

fun memory_failure_as_str :: "MemoryFailureCode \<Rightarrow> string" where
  "memory_failure_as_str MachineIdentityUnavailable = ''machine_identity_unavailable''"
| "memory_failure_as_str MachineIdentityMismatch = ''machine_identity_mismatch''"
| "memory_failure_as_str PsiReadFailed = ''psi_read_failed''"
| "memory_failure_as_str PsiMalformed = ''psi_malformed''"
| "memory_failure_as_str PsiNotProvided = ''psi_not_provided''"
| "memory_failure_as_str BootClockUnavailable = ''boot_clock_unavailable''"

definition memory_failure_parse :: "string \<Rightarrow> MemoryFailureCode option" where
  "memory_failure_parse code = find (\<lambda>known. memory_failure_as_str known = code) memory_failure_ALL"

definition memory_failure_tokens :: "string list" where
  "memory_failure_tokens = map memory_failure_as_str memory_failure_ALL"

definition MEMORY_SCOPE_SCHEMA :: string where
  "MEMORY_SCOPE_SCHEMA = ''nq.host_memory_scope.v1''"

definition MEMORY_OBSERVATION_KIND :: string where
  "MEMORY_OBSERVATION_KIND = ''memory_pressure_snapshot''"

definition MEMORY_COVERAGE_KIND :: string where
  "MEMORY_COVERAGE_KIND = ''memory_pressure_stall''"

definition MEMORY_ACCESS_PATH :: string where
  "MEMORY_ACCESS_PATH = ''procfs_pressure''"

definition MEMORY_CAPABILITIES :: "string list" where
  "MEMORY_CAPABILITIES = [''read_machine_identity'', ''read_procfs'']"

definition SOME_AVG60_THRESHOLD_CENTIPERCENT :: u32 where
  "SOME_AVG60_THRESHOLD_CENTIPERCENT = 1000"

definition MINIMUM_BOOT_AGE_SECONDS :: u32 where
  "MINIMUM_BOOT_AGE_SECONDS = 180"

definition MAX_SAFE_COUNTER :: u64 where
  "MAX_SAFE_COUNTER = 2 ^ 53 - 1"

definition memory_descriptor :: ProfileDescriptor where
  "memory_descriptor =
     \<lparr> pd_schema = PROFILE_DESCRIPTOR_SCHEMA,
       pd_family = ''host_memory'',
       pd_profile = ProfileKey_new ''nq.host_memory'' 1,
       pd_title = ''Local kernel memory pressure stall'',
       pd_observation_kinds = [VocabularyTerm_new MEMORY_OBSERVATION_KIND
         ''One read of /proc/pressure/memory with the boot age at the read''],
       pd_coverage = [VocabularyTerm_new MEMORY_COVERAGE_KIND
         ''Kernel PSI memory some/full averages and totals''],
       pd_subjects = \<lparr> sr_namespace = ''host:'', sr_exact_request_subject = True \<rparr>,
       pd_scope_kinds = [VocabularyTerm_new ''host_memory'' ''One exact machine identity''],
       pd_vantages = [VocabularyTerm_new ''local''
         ''Observation from a process on the machine whose kernel is read''],
       pd_access_paths = [VocabularyTerm_new MEMORY_ACCESS_PATH
         ''A bounded read-only open of /proc/pressure/memory''],
       pd_bases = [VocabularyTerm_new ''kernel_snapshot''
         ''A bounded local kernel accounting snapshot''],
       pd_regimes = [VocabularyTerm_new ''normal''
         ''Read-only observation that registers no PSI trigger and induces no load''],
       pd_capabilities =
         [VocabularyTerm_new ''read_machine_identity'' ''Read /etc/machine-id'',
          VocabularyTerm_new ''read_procfs'' ''Read bounded local procfs state''],
       pd_freshness = \<lparr> reliance_seconds = 120, alignment_seconds = 0 \<rparr>,
       pd_limits = \<lparr> lim_max_observations = 1, lim_max_payload_bytes = 8192,
         lim_max_subject_bytes = 64, lim_max_coverage_declarations = 1 \<rparr>,
       pd_disturbance_assumptions =
         [''Reading PSI averages does not alter memory state'',
          ''One PSI cut establishes a kernel-reported stall share only; it is not a memory sufficiency, OOM-risk, swap, or service-impact claim''] \<rparr>"

section \<open>Scope and payload\<close>

record HostMemoryScope =
  hms_schema :: string
  hms_machine_id :: string

record PressureLine =
  avg10_centipercent :: u32
  avg60_centipercent :: u32
  avg300_centipercent :: u32
  total_microseconds :: u64

record MemoryPressurePayload =
  mpp_evidence_basis :: EvidenceBasis
  mpp_machine_id :: string
  mpp_boot_age_seconds :: u64
  mpp_some :: PressureLine
  mpp_full :: PressureLine

record MemoryPressureProjection =
  mproj_profile :: ProfileKey
  mproj_ordinal :: u32
  mproj_subject :: string
  mproj_payload :: MemoryPressurePayload

record memory_externals = profile_externals +
  memory_scope_from_value :: "json \<Rightarrow> (HostMemoryScope, string) result"
  memory_payload_from_value :: "json \<Rightarrow> (MemoryPressurePayload, string) result"

definition is_lower_hex :: "string \<Rightarrow> usize \<Rightarrow> bool" where
  "is_lower_hex value len \<longleftrightarrow> length value = len \<and> list_all is_lower_hex_digit value"

definition memory_subject_for :: "string \<Rightarrow> string" where
  "memory_subject_for machine_id = ''host:'' @ machine_id"

definition memory_validate_scope_value ::
  "'x memory_externals_scheme \<Rightarrow> json \<Rightarrow> string \<Rightarrow> (HostMemoryScope, string) result" where
  "memory_validate_scope_value x value request_subject =
     and_then
       (map_err (\<lambda>e. ''scope must be exactly '' @ MEMORY_SCOPE_SCHEMA @ '': '' @ e)
          (memory_scope_from_value x value))
       (\<lambda>scope. map_ok (\<lambda>_. scope) (run_checks
          [refuse_if (hms_schema scope \<noteq> MEMORY_SCOPE_SCHEMA)
             (''scope schema must be '' @ MEMORY_SCOPE_SCHEMA),
           refuse_if (\<not> is_lower_hex (hms_machine_id scope) 32)
             ''machine_id must be 32 lowercase hex characters'',
           refuse_if (request_subject \<noteq> memory_subject_for (hms_machine_id scope))
             ''subject must equal host:<machine_id>'']))"

definition validate_pressure_line :: "PressureLine \<Rightarrow> (unit, string) result" where
  "validate_pressure_line line = run_checks
     [refuse_if (avg10_centipercent line > 10000 \<or> avg60_centipercent line > 10000 \<or>
          avg300_centipercent line > 10000)
        ''PSI averages must not exceed 100.00'',
      refuse_if (total_microseconds line > MAX_SAFE_COUNTER)
        ''PSI total exceeds the safe integer bound'']"

definition memory_validate_payload_against_scope ::
  "MemoryPressurePayload \<Rightarrow> HostMemoryScope \<Rightarrow> (unit, string) result" where
  "memory_validate_payload_against_scope payload scope = run_checks
     [refuse_if (mpp_machine_id payload \<noteq> hms_machine_id scope)
        ''payload machine_id must equal the request scope'',
      run_checks (map validate_pressure_line [mpp_some payload, mpp_full payload]),
      refuse_if (mpp_boot_age_seconds payload > MAX_SAFE_COUNTER)
        ''boot age exceeds the safe integer bound'',
      refuse_if
        (avg10_centipercent (mpp_full payload) > avg10_centipercent (mpp_some payload) \<or>
         avg60_centipercent (mpp_full payload) > avg60_centipercent (mpp_some payload) \<or>
         avg300_centipercent (mpp_full payload) > avg300_centipercent (mpp_some payload) \<or>
         total_microseconds (mpp_full payload) > total_microseconds (mpp_some payload))
        ''full stall figures cannot exceed some stall figures'']"

section \<open>The pressure file\<close>

definition parse_centipercent :: "string \<Rightarrow> (u32, string) result" where
  "parse_centipercent text =
     (case split_once (CHR ''.'') text of
        None \<Rightarrow> Err (text @ '': expected two decimals'')
      | Some (whole, fraction) \<Rightarrow>
          if whole = [] \<or> length whole > 3 \<or> length fraction \<noteq> 2 \<or>
             \<not> list_all is_ascii_digit whole \<or> \<not> list_all is_ascii_digit fraction
          then Err (text @ '': not a PSI percentage'')
          else (case parse_unsigned (2 ^ 32 - 1) whole of
             None \<Rightarrow> Err (parse_int_fault (2 ^ 32 - 1) whole)
           | Some w \<Rightarrow> (case parse_unsigned (2 ^ 32 - 1) fraction of
                None \<Rightarrow> Err (parse_int_fault (2 ^ 32 - 1) fraction)
              | Some f \<Rightarrow>
                  let value = (of_nat w :: u32) * 100 + of_nat f in
                  if value > 10000 then Err (text @ '': exceeds 100.00'') else Ok value)))"

fun parse_pressure_fields ::
  "string \<Rightarrow> (string, string) btree_map \<Rightarrow> string list \<Rightarrow> ((string, string) btree_map, string) result" where
  "parse_pressure_fields line values [] = Ok values"
| "parse_pressure_fields line values (field # tokens) =
     (case split_once (CHR ''='') field of
        None \<Rightarrow> Err (line @ '': field without '' @ [CHR 0x27, CHR ''='', CHR 0x27])
      | Some (key, value) \<Rightarrow>
          if starts_with value ''+'' \<or> bt_get values key \<noteq> None
          then Err (line @ '': duplicate or signed field '' @ key)
          else parse_pressure_fields line (bt_insert key value values) tokens)"

definition pressure_field ::
  "string \<Rightarrow> (string, string) btree_map \<Rightarrow> string \<Rightarrow> (string, string) result" where
  "pressure_field line values key = ok_or (line @ '': missing '' @ key) (bt_get values key)"

definition parse_pressure_line :: "string \<Rightarrow> string list \<Rightarrow> (PressureLine, string) result" where
  "parse_pressure_line line tokens =
     and_then (parse_pressure_fields line [] tokens) (\<lambda>values.
     and_then (and_then (pressure_field line values ''avg10'') parse_centipercent) (\<lambda>avg10.
     and_then (and_then (pressure_field line values ''avg60'') parse_centipercent) (\<lambda>avg60.
     and_then (and_then (pressure_field line values ''avg300'') parse_centipercent) (\<lambda>avg300.
     and_then
       (and_then (pressure_field line values ''total'')
          (\<lambda>text. ok_or (line @ '': total: '' @ parse_int_fault (2 ^ 64 - 1) text)
             (parse_unsigned (2 ^ 64 - 1) text)))
       (\<lambda>total. Ok \<lparr> avg10_centipercent = avg10, avg60_centipercent = avg60,
          avg300_centipercent = avg300, total_microseconds = of_nat total \<rparr>)))))"

fun parse_pressure_lines ::
  "PressureLine option \<Rightarrow> PressureLine option \<Rightarrow> string list \<Rightarrow>
   (PressureLine \<times> PressureLine, string) result" where
  "parse_pressure_lines some_line full_line [] =
     (case (some_line, full_line) of
        (Some s, Some f) \<Rightarrow> Ok (s, f)
      | _ \<Rightarrow> Err ''PSI file must contain both some and full lines'')"
| "parse_pressure_lines some_line full_line (line # lines) =
     (case split_ascii_whitespace line of
        [] \<Rightarrow> parse_pressure_lines some_line full_line lines
      | kind # tokens \<Rightarrow>
          and_then (parse_pressure_line line tokens) (\<lambda>parsed.
            if kind = ''some'' \<and> some_line = None
            then parse_pressure_lines (Some parsed) full_line lines
            else if kind = ''full'' \<and> full_line = None
            then parse_pressure_lines some_line (Some parsed) lines
            else Err (''unexpected or duplicate PSI line kind '' @ kind)))"

definition parse_pressure_file :: "string \<Rightarrow> (PressureLine \<times> PressureLine, string) result" where
  "parse_pressure_file text = parse_pressure_lines None None (str_lines text)"

section \<open>Admission\<close>

definition memory_inconsistent :: "ValidationContext \<Rightarrow> string \<Rightarrow> ProfileRefusal" where
  "memory_inconsistent context message =
     refusal_new context memory_descriptor ProfileRefusalBoundary.Report InconsistentReport message"

definition memory_invalid_payload :: "ValidationContext \<Rightarrow> string \<Rightarrow> ProfileRefusal" where
  "memory_invalid_payload context message =
     refusal_new context memory_descriptor ProfileRefusalBoundary.Observation InvalidPayload message"

definition memory_validate_binding ::
  "'x memory_externals_scheme \<Rightarrow> ValidationContext \<Rightarrow> (unit, ProfileRefusal) result" where
  "memory_validate_binding x context = run_checks
     [refuse_if (sg_kind (ctx_scope context) \<noteq> ''host_memory'')
        (refusal_new context memory_descriptor ProfileRefusalBoundary.Profile ScopeEscape
           ''memory scope kind must be host_memory''),
      map_ok (\<lambda>_. ())
        (map_err
           (\<lambda>message. with_detail ''error'' message
              (refusal_new context memory_descriptor ProfileRefusalBoundary.Profile ScopeEscape
                 ''memory scope does not correlate with its request subject or bounds''))
           (memory_validate_scope_value x (sg_value (ctx_scope context)) (ctx_request_subject context))),
      refuse_if (vg_kind (ctx_vantage context) \<noteq> ''local'' \<or> vg_value (ctx_vantage context) \<noteq> JObject [])
        (refusal_new context memory_descriptor ProfileRefusalBoundary.Profile VantageEscape
           ''memory vantage must be the empty local vantage'')]"

definition memory_validate_snapshot ::
  "'x memory_externals_scheme \<Rightarrow> ValidationContext \<Rightarrow> ValidatedReport \<Rightarrow> AdmittedObservation \<Rightarrow>
   (unit, ProfileRefusal) result" where
  "memory_validate_snapshot x context admitted observation =
     and_then
       (map_err
          (\<lambda>e. with_detail ''error'' e
             (memory_invalid_payload context ''memory payload does not match the compiled contract''))
          (memory_payload_from_value x (ao_payload observation)))
       (\<lambda>payload. let used = eb_capabilities_used (mpp_evidence_basis payload) in run_checks
          [validate_basis memory_descriptor context (mpp_evidence_basis payload),
           refuse_if (used \<noteq> vr_used_capabilities admitted)
             (memory_inconsistent context ''payload capabilities differ from report used_capabilities''),
           refuse_if
             (eb_access_path (mpp_evidence_basis payload) \<noteq> MEMORY_ACCESS_PATH \<or>
              length used \<noteq> length MEMORY_CAPABILITIES \<or>
              \<not> list_all (\<lambda>c. c \<in> set used) MEMORY_CAPABILITIES)
             (refusal_new context memory_descriptor ProfileRefusalBoundary.Observation
                ProfileRefusalCode.CapabilityEscape
                ''memory access path must declare exactly its two exercised capabilities''),
           refuse_if (ao_observed_at observation \<noteq> vr_observed_at admitted)
             (memory_inconsistent context ''memory snapshot time must equal the report observation time''),
           and_then
             (map_err (memory_invalid_payload context)
                (memory_validate_scope_value x (sg_value (ctx_scope context)) (ctx_request_subject context)))
             (\<lambda>scope. map_err (memory_invalid_payload context)
                (memory_validate_payload_against_scope payload scope)),
           refuse_if
             (bt_get (vr_coverage admitted) MEMORY_COVERAGE_KIND \<noteq> Some SemanticCoverageState.Complete)
             (memory_inconsistent context
                ''a memory snapshot requires complete memory_pressure_stall coverage'')])"

definition memory_validate ::
  "'x memory_externals_scheme \<Rightarrow> ValidationContext \<Rightarrow> ReportInput \<Rightarrow> ValidationResult" where
  "memory_validate x context report =
     and_then (memory_validate_binding x context) (\<lambda>_.
     and_then (validate_common x memory_descriptor context report) (\<lambda>admitted.
       if vr_status admitted = SemanticReportStatus.Failed then Ok admitted
       else (case vr_observations admitted of
         [observation] \<Rightarrow> map_ok (\<lambda>_. admitted) (memory_validate_snapshot x context admitted observation)
       | _ \<Rightarrow> Err (memory_inconsistent context
           ''a non-failed memory report requires exactly one snapshot''))))"

definition memory_project ::
  "'x memory_externals_scheme \<Rightarrow> ValidatedReport \<Rightarrow> (MemoryPressureProjection list, ProfileRefusal) result" where
  "memory_project x report =
     collect_results
       (\<lambda>observation. map_ok
          (\<lambda>payload. \<lparr> mproj_profile = vr_profile report, mproj_ordinal = ao_ordinal observation,
             mproj_subject = ao_subject observation, mproj_payload = payload \<rparr>)
          (map_err
             (\<lambda>e. \<lparr> pr_instance_id = vr_instance_id report, pr_profile = vr_profile report,
                pr_boundary = ProfileRefusalBoundary.Observation, pr_code = InvalidPayload,
                pr_message = ''admitted memory payload could not be projected'',
                pr_details = bt_from [(''error'', e)] \<rparr>)
             (memory_payload_from_value x (ao_payload observation))))
       (vr_observations report)"

section \<open>The detector\<close>

definition pressure_stall_state :: "MemoryPressurePayload \<Rightarrow> u32 \<Rightarrow> u32 \<Rightarrow> DetectorState option" where
  "pressure_stall_state payload threshold_centipercent minimum_boot_age_seconds =
     (if mpp_boot_age_seconds payload < ucast minimum_boot_age_seconds then None
      else Some
        (if avg60_centipercent (mpp_some payload) \<ge> threshold_centipercent
         then DetectorState.Present else DetectorState.ExplicitlyAbsent))"

definition memory_detector_descriptor :: "ProfileDigest \<Rightarrow> DetectorDescriptor" where
  "memory_detector_descriptor digest =
     \<lparr> dd_schema = DETECTOR_DESCRIPTOR_SCHEMA,
       dd_id = ''nq.host_memory.pressure_stall'',
       dd_version = 1,
       dd_profile = pd_profile memory_descriptor,
       dd_profile_digest = digest,
       dd_title = ''Kernel memory pressure stall'',
       dd_condition = ''memory_pressure_stall'',
       dd_parameters =
         MemoryPressureStall SOME_AVG60_THRESHOLD_CENTIPERCENT MINIMUM_BOOT_AGE_SECONDS \<rparr>"

definition memory_newest_current_report ::
  "DetectorInput \<Rightarrow> DetectorDescriptor \<Rightarrow> (DetectorReport, DetectorResult) result" where
  "memory_newest_current_report input descriptor =
     (case newest_report input of
        None \<Rightarrow> Err (cannot_evaluate_with_details input descriptor
          ''no admitted memory testimony is available''
          [''Missing testimony cannot establish absence'']
          (bt_from [(''reason'', ''missing_testimony'')]))
      | Some report \<Rightarrow> let admitted = dr_report report in
          if vr_profile admitted \<noteq> dd_profile descriptor \<or>
             vr_profile_digest admitted \<noteq> dd_profile_digest descriptor
          then Err (cannot_evaluate_with_details input descriptor
            ''the newest testimony uses a different profile contract''
            [''Profile revisions are never silently combined'']
            (bt_from [(''reason'', ''profile_contract_mismatch'')]))
          else if vr_status admitted \<noteq> SemanticReportStatus.Complete \<or>
             bt_get (vr_coverage admitted) MEMORY_COVERAGE_KIND \<noteq> Some SemanticCoverageState.Complete
          then
            let details = bt_from
                  [(''reason'', ''incomplete_memory_coverage''),
                   (''failure_error_count'', show_nat (unat (vr_failure_error_count admitted)))]
            in Err (cannot_evaluate_with_details input descriptor
              ''the newest memory testimony lacks complete memory_pressure_stall coverage''
              [''A newer failed report is not shadowed by older success'']
              (case single_failure_error admitted of
                 None \<Rightarrow> details
               | Some failure \<Rightarrow> (case memory_failure_parse (rre_code failure) of
                    None \<Rightarrow> details
                  | Some code \<Rightarrow>
                      bt_insert ''failure_retriable'' (show_bool (rre_retriable failure))
                        (bt_insert ''failure_code'' (memory_failure_as_str code) details))))
          else
            let age = di_evaluated_at input - vr_observed_at admitted;
                reliance = duration_seconds (reliance_seconds (pd_freshness memory_descriptor))
            in if age < 0 \<or> age > reliance
               then Err (cannot_evaluate_with_details input descriptor
                 ''the newest memory testimony is outside its freshness window''
                 [''Staleness removes reliance; it does not negate testimony'']
                 (bt_from
                   [(''age_seconds'', show_int (num_seconds age)),
                    (''reason'', ''invalid_freshness''),
                    (''reliance_seconds'',
                     show_nat (unat (reliance_seconds (pd_freshness memory_descriptor))))]))
               else Ok report)"

text \<open>
  An arm that the source declares unreachable, and the panic of a compiled descriptor without a
  canonical form, are the value \<open>None\<close>.
\<close>

definition memory_evaluate_with ::
  "'x memory_externals_scheme \<Rightarrow> ProfileDigest \<Rightarrow> DetectorInput \<Rightarrow> DetectorResult option" where
  "memory_evaluate_with x digest input =
     (let descriptor = memory_detector_descriptor digest in
      case memory_newest_current_report input descriptor of
        Err result \<Rightarrow> Some result
      | Ok occurrence \<Rightarrow> (let report = dr_report occurrence in
          case find (\<lambda>ob. ao_kind ob = MEMORY_OBSERVATION_KIND) (vr_observations report) of
            None \<Rightarrow> Some (cannot_evaluate_with_details input descriptor
              ''the newest report has no memory pressure snapshot''
              [''Missing observations cannot establish absence'']
              (bt_from [(''reason'', ''missing_observation'')]))
          | Some observation \<Rightarrow> (case memory_payload_from_value x (ao_payload observation) of
              Err _ \<Rightarrow> Some (cannot_evaluate_with_details input descriptor
                ''the admitted memory snapshot cannot be projected''
                [''Projection failure requires operator inspection'']
                (bt_from [(''reason'', ''projection_failure'')]))
            | Ok payload \<Rightarrow> (case dd_parameters descriptor of
                MemoryPressureStall threshold minimum_boot_age \<Rightarrow>
                (case pressure_stall_state payload threshold minimum_boot_age of
                   None \<Rightarrow> Some (cannot_evaluate_with_details input descriptor
                     ''PSI averages are still warming up after boot''
                     [''A freshly booted kernel understates decaying averages'']
                     (bt_from
                       [(''reason'', ''psi_average_warming_up''),
                        (''boot_age_seconds'', show_nat (unat (mpp_boot_age_seconds payload))),
                        (''minimum_boot_age_seconds'', show_nat (unat minimum_boot_age))]))
                 | Some state \<Rightarrow> Some
                     \<lparr> res_state = state,
                       res_condition = dd_condition descriptor,
                       res_summary = (if state = DetectorState.Present
                         then ''kernel PSI memory some avg60 reached the detector threshold of 10.00%''
                         else ''current complete PSI coverage places memory some avg60 below the detector threshold''),
                       res_evidence =
                         [\<lparr> de_report_id = dr_report_id occurrence,
                            de_report_sequence = dr_report_sequence occurrence,
                            de_report_digest = vr_report_digest report,
                            de_observation_ordinal = Some (ao_ordinal observation),
                            de_observed_at = ao_observed_at observation \<rparr>],
                       res_limitations =
                         [''One PSI cut does not identify the workload or cgroup that stalled'',
                          ''The condition is kernel stall accounting, not memory sufficiency, OOM risk, swap health, or service impact'',
                          ''avg60 is a decaying average carrying about three minutes of history; it establishes neither persistence nor the current instant''],
                       res_refusal = None,
                       res_watermark = di_watermark input \<rparr>)
              | _ \<Rightarrow> None))))"

definition memory_evaluate ::
  "'x memory_externals_scheme \<Rightarrow> DetectorInput \<Rightarrow> DetectorResult option" where
  "memory_evaluate x input =
     (case descriptor_digest x memory_descriptor of
        Err _ \<Rightarrow> None
      | Ok digest \<Rightarrow> memory_evaluate_with x digest input)"

section \<open>The detector keeps the detector contract\<close>

lemma memory_newest_current_report_Ok:
  "memory_newest_current_report input d = Ok occ \<longleftrightarrow>
     newest_report input = Some occ \<and> reliable d MEMORY_COVERAGE_KIND 120000000000 input occ"
proof -
  have "duration_seconds (reliance_seconds (pd_freshness memory_descriptor)) = 120000000000"
    by (simp add: memory_descriptor_def duration_seconds_def)
  then show ?thesis
    by (auto simp: memory_newest_current_report_def reliable_def newest_report_Some Let_def not_less
        split: option.splits)
qed

lemma memory_newest_current_report_Err:
  "memory_newest_current_report input d = Err res \<Longrightarrow>
     refused_result d input res \<and> res_watermark res = di_watermark input"
  by (auto simp: memory_newest_current_report_def refused_result_def cannot_evaluate_with_details_def
      Let_def split: option.splits if_splits)

text \<open>
  The report a decision rests on and the payload of its first snapshot.
\<close>

definition memory_grounds ::
  "'x memory_externals_scheme \<Rightarrow> ProfileDigest \<Rightarrow> DetectorInput \<Rightarrow> DetectorReport \<Rightarrow>
   AdmittedObservation \<Rightarrow> MemoryPressurePayload \<Rightarrow> bool" where
  "memory_grounds x digest input occ ob payload \<longleftrightarrow>
     newest_report input = Some occ \<and>
     reliable (memory_detector_descriptor digest) MEMORY_COVERAGE_KIND 120000000000 input occ \<and>
     find (\<lambda>ob. ao_kind ob = MEMORY_OBSERVATION_KIND) (vr_observations (dr_report occ)) = Some ob \<and>
     memory_payload_from_value x (ao_payload ob) = Ok payload"

lemma memory_grounds_iff:
  "memory_grounds x digest input occ ob payload \<longleftrightarrow>
     memory_newest_current_report input (memory_detector_descriptor digest) = Ok occ \<and>
     find (\<lambda>ob. ao_kind ob = MEMORY_OBSERVATION_KIND) (vr_observations (dr_report occ)) = Some ob \<and>
     memory_payload_from_value x (ao_payload ob) = Ok payload"
  by (simp add: memory_grounds_def memory_newest_current_report_Ok)

lemmas memory_law_parameters =
  memory_detector_descriptor_def SOME_AVG60_THRESHOLD_CENTIPERCENT_def MINIMUM_BOOT_AGE_SECONDS_def

lemma memory_evaluate_with_cases:
  obtains (refused) res where "memory_evaluate_with x digest input = Some res"
      "refused_result (memory_detector_descriptor digest) input res" "res_watermark res = di_watermark input"
      "\<And>occ ob payload. memory_grounds x digest input occ ob payload \<Longrightarrow>
         pressure_stall_state payload 1000 180 = None"
  | (decided) res occ ob payload state where "memory_evaluate_with x digest input = Some res"
      "memory_grounds x digest input occ ob payload"
      "pressure_stall_state payload 1000 180 = Some state"
      "res_state res = state" "res_refusal res = None" "res_watermark res = di_watermark input"
      "cites occ MEMORY_OBSERVATION_KIND res"
proof (cases "\<exists>occ ob payload state. memory_grounds x digest input occ ob payload \<and>
    pressure_stall_state payload 1000 180 = Some state")
  case True
  then obtain occ ob payload state where g: "memory_grounds x digest input occ ob payload"
    and s: "pressure_stall_state payload 1000 180 = Some state" by blast
  have ob: "ob \<in> set (vr_observations (dr_report occ))" "ao_kind ob = MEMORY_OBSERVATION_KIND"
    using g by (auto simp: memory_grounds_def find_Some_iff)
  have "\<exists>res. memory_evaluate_with x digest input = Some res \<and> res_state res = state \<and>
      res_refusal res = None \<and> res_watermark res = di_watermark input \<and>
      cites occ MEMORY_OBSERVATION_KIND res"
    using g s ob
    by (auto simp: memory_grounds_iff memory_evaluate_with_def Let_def cites_def memory_law_parameters)
  then show ?thesis using decided [OF _ g s] by blast
next
  case False
  have "\<exists>res. memory_evaluate_with x digest input = Some res \<and>
      refused_result (memory_detector_descriptor digest) input res \<and>
      res_watermark res = di_watermark input"
    using False memory_newest_current_report_Err [of input "memory_detector_descriptor digest"]
    by (auto simp: memory_evaluate_with_def memory_grounds_iff Let_def refused_result_def
        memory_law_parameters cannot_evaluate_with_details_def split: result.splits option.splits)
  then show ?thesis using refused False by (metis not_None_eq)
qed

lemma pressure_stall_state_decides:
  "pressure_stall_state payload t m = Some state \<Longrightarrow> state \<noteq> DetectorState.CannotEvaluate"
  by (auto simp: pressure_stall_state_def split: if_splits)

interpretation mem: governed_detector
  "memory_evaluate_with x digest" "memory_detector_descriptor digest"
  MEMORY_COVERAGE_KIND MEMORY_OBSERVATION_KIND 120000000000
  for x :: "'x memory_externals_scheme" and digest
proof
  fix input
  show "\<exists>res. memory_evaluate_with x digest input = Some res"
    by (cases rule: memory_evaluate_with_cases [of x digest input]) auto
next
  fix input res
  assume res: "memory_evaluate_with x digest input = Some res"
  show "res_state res \<noteq> DetectorState.CannotEvaluate \<Longrightarrow>
      \<exists>occ. reliable (memory_detector_descriptor digest) MEMORY_COVERAGE_KIND 120000000000 input occ \<and>
        cites occ MEMORY_OBSERVATION_KIND res \<and> res_refusal res = None"
    by (cases rule: memory_evaluate_with_cases [of x digest input])
       (use res in \<open>auto simp: refused_result_def memory_grounds_def\<close>)
  show "res_state res = DetectorState.CannotEvaluate \<Longrightarrow>
      refused_result (memory_detector_descriptor digest) input res"
    by (cases rule: memory_evaluate_with_cases [of x digest input])
       (use res in \<open>auto dest: pressure_stall_state_decides\<close>)
  show "res_watermark res = di_watermark input"
    by (cases rule: memory_evaluate_with_cases [of x digest input]) (use res in auto)
qed

section \<open>The module is behind the gate\<close>

lemma memory_validate_Ok:
  "memory_validate x c r = Ok v \<longleftrightarrow>
     memory_validate_binding x c = Ok () \<and> validate_common x memory_descriptor c r = Ok v \<and>
     (vr_status v = SemanticReportStatus.Failed \<or>
      (\<exists>ob. vr_observations v = [ob] \<and> memory_validate_snapshot x c v ob = Ok ()))"
proof (cases "validate_common x memory_descriptor c r")
  case (Ok v')
  then show ?thesis
    by (cases "vr_status v' = SemanticReportStatus.Failed")
       (auto simp: memory_validate_def and_then_Ok exactly_one_Ok)
qed (simp add: memory_validate_def and_then_Ok)

lemma memory_validate_refuses: "refuses_for c memory_descriptor (memory_validate x c r)"
  by (simp add: memory_validate_def memory_validate_binding_def memory_validate_snapshot_def
      memory_inconsistent_def memory_invalid_payload_def Let_def refusals split: list.split)

interpretation memory_gate: profile_gate x memory_descriptor "memory_validate x"
  for x :: "'x memory_externals_scheme"
  by unfold_locales (auto simp: memory_validate_Ok memory_validate_refuses)

text \<open>The consistency that an admitted snapshot has, on numbers instead of machine words.\<close>

definition pressure_line_law :: "PressureLine \<Rightarrow> bool" where
  "pressure_line_law l \<longleftrightarrow>
     unat (avg10_centipercent l) \<le> 10000 \<and> unat (avg60_centipercent l) \<le> 10000 \<and>
     unat (avg300_centipercent l) \<le> 10000 \<and> unat (total_microseconds l) < 2 ^ 53"

definition memory_payload_law :: "MemoryPressurePayload \<Rightarrow> string \<Rightarrow> bool" where
  "memory_payload_law p machine_id \<longleftrightarrow>
     mpp_machine_id p = machine_id \<and> pressure_line_law (mpp_some p) \<and> pressure_line_law (mpp_full p) \<and>
     unat (mpp_boot_age_seconds p) < 2 ^ 53 \<and>
     avg10_centipercent (mpp_full p) \<le> avg10_centipercent (mpp_some p) \<and>
     avg60_centipercent (mpp_full p) \<le> avg60_centipercent (mpp_some p) \<and>
     avg300_centipercent (mpp_full p) \<le> avg300_centipercent (mpp_some p) \<and>
     total_microseconds (mpp_full p) \<le> total_microseconds (mpp_some p)"

lemma memory_validate_payload_Ok [checks]:
  "memory_validate_payload_against_scope p s = Ok u \<longleftrightarrow> memory_payload_law p (hms_machine_id s)"
  by (auto simp: memory_validate_payload_against_scope_def memory_payload_law_def
      validate_pressure_line_def pressure_line_law_def MAX_SAFE_COUNTER_def not_less word_le_nat_alt)

lemma memory_scope_Ok [checks]:
  "memory_validate_scope_value x v subject = Ok s \<longleftrightarrow>
     memory_scope_from_value x v = Ok s \<and> hms_schema s = ''nq.host_memory_scope.v1'' \<and>
     length (hms_machine_id s) = 32 \<and> list_all is_lower_hex_digit (hms_machine_id s) \<and>
     subject = ''host:'' @ hms_machine_id s"
  by (auto simp: memory_validate_scope_value_def and_then_Ok MEMORY_SCOPE_SCHEMA_def is_lower_hex_def
      memory_subject_for_def)

lemma memory_snapshot_Ok:
  assumes "memory_validate_snapshot x c v ob = Ok ()"
  obtains payload scope where "memory_payload_from_value x (ao_payload ob) = Ok payload"
    "memory_validate_scope_value x (sg_value (ctx_scope c)) (ctx_request_subject c) = Ok scope"
    "memory_payload_law payload (hms_machine_id scope)"
    "ao_observed_at ob = vr_observed_at v"
    "eb_capabilities_used (mpp_evidence_basis payload) = vr_used_capabilities v"
proof -
  from assms obtain payload where p: "memory_payload_from_value x (ao_payload ob) = Ok payload"
    and same: "eb_capabilities_used (mpp_evidence_basis payload) = vr_used_capabilities v"
      "ao_observed_at ob = vr_observed_at v"
    and rest: "and_then
        (map_err (memory_invalid_payload c)
           (memory_validate_scope_value x (sg_value (ctx_scope c)) (ctx_request_subject c)))
        (\<lambda>scope. map_err (memory_invalid_payload c)
           (memory_validate_payload_against_scope payload scope)) = Ok ()"
    by (simp only: memory_validate_snapshot_def and_then_Ok Let_def run_checks_Cons_Ok refuse_if_Ok
        map_err_Ok not_not de_Morgan_disj) blast
  from rest obtain scope where "memory_validate_scope_value x (sg_value (ctx_scope c))
      (ctx_request_subject c) = Ok scope" "memory_payload_law payload (hms_machine_id scope)"
    by (auto simp only: and_then_Ok map_err_Ok memory_validate_payload_Ok)
  with p same show thesis by (intro that)
qed

section \<open>Properties of the memory profile\<close>

lemma pressure_stall_state_law:
  "pressure_stall_state p 1000 180 =
     (if 180 \<le> unat (mpp_boot_age_seconds p)
      then Some (if 1000 \<le> unat (avg60_centipercent (mpp_some p)) then DetectorState.Present
                 else DetectorState.ExplicitlyAbsent)
      else None)"
  by (simp add: pressure_stall_state_def word_less_nat_alt word_le_nat_alt)

lemma memory_grounds_unique:
  "memory_grounds x digest input occ ob p \<Longrightarrow> memory_grounds x digest input occ' ob' p' \<Longrightarrow>
     occ' = occ \<and> ob' = ob \<and> p' = p"
  by (auto simp: memory_grounds_def)

lemma memory_state_on_grounds:
  assumes "memory_grounds x digest input occ ob p"
  shows "\<exists>res. memory_evaluate_with x digest input = Some res \<and> res_state res =
    (if unat (mpp_boot_age_seconds p) < 180 then DetectorState.CannotEvaluate
     else if 1000 \<le> unat (avg60_centipercent (mpp_some p)) then DetectorState.Present
     else DetectorState.ExplicitlyAbsent)"
proof (cases rule: memory_evaluate_with_cases [of x digest input])
  case (refused res)
  then show ?thesis
    using refused(4) [OF assms] by (simp add: refused_result_def pressure_stall_state_law split: if_splits)
next
  case (decided res occ' ob' p' st)
  then show ?thesis
    using memory_grounds_unique [OF assms decided(2)]
    by (auto simp: pressure_stall_state_law split: if_splits)
qed

lemma memory_state_without_grounds:
  assumes "\<nexists>occ ob p. memory_grounds x digest input occ ob p"
  shows "\<exists>res. memory_evaluate_with x digest input = Some res \<and> res_state res = DetectorState.CannotEvaluate"
  by (cases rule: memory_evaluate_with_cases [of x digest input])
     (use assms in \<open>auto simp: refused_result_def\<close>)

text \<open>
  C3. The memory detector decides by its law and by nothing else: it reports the condition
  exactly when the newest report of the instance is reliable (compiled profile and digest, complete,
  at most two minutes old), its first snapshot decodes, the machine has been up for three minutes
  and the stall share is at least ten per cent; it reports absence exactly under the same
  conditions with a lower share; and it always returns once the compiled descriptor has a digest.
\<close>

theorem memory_detector_decides_by_law:
  assumes "descriptor_digest x memory_descriptor = Ok digest"
  shows "\<exists>res. memory_evaluate x input = Some res \<and>
    (res_state res = DetectorState.Present \<longleftrightarrow>
       (\<exists>occ ob payload. memory_grounds x digest input occ ob payload \<and>
          180 \<le> unat (mpp_boot_age_seconds payload) \<and> 1000 \<le> unat (avg60_centipercent (mpp_some payload)))) \<and>
    (res_state res = DetectorState.ExplicitlyAbsent \<longleftrightarrow>
       (\<exists>occ ob payload. memory_grounds x digest input occ ob payload \<and>
          180 \<le> unat (mpp_boot_age_seconds payload) \<and> unat (avg60_centipercent (mpp_some payload)) < 1000))"
proof (cases "\<exists>occ ob p. memory_grounds x digest input occ ob p")
  case True
  then obtain occ ob p where g: "memory_grounds x digest input occ ob p" by blast
  obtain res where res: "memory_evaluate x input = Some res"
    and st: "res_state res = (if unat (mpp_boot_age_seconds p) < 180 then DetectorState.CannotEvaluate
      else if 1000 \<le> unat (avg60_centipercent (mpp_some p)) then DetectorState.Present
      else DetectorState.ExplicitlyAbsent)"
    using memory_state_on_grounds [OF g] assms by (auto simp: memory_evaluate_def)
  have "(\<exists>occ ob p. memory_grounds x digest input occ ob p \<and> Q p) \<longleftrightarrow> Q p" for Q
    using g memory_grounds_unique [OF g] by blast
  then show ?thesis
    by (intro exI [of _ res]) (simp add: res st not_le not_less)
next
  case False
  then show ?thesis
    using memory_state_without_grounds [OF False] assms by (auto simp: memory_evaluate_def)
qed

text \<open>
  An older success never stands in for a newer failure: when the newest memory report of the
  instance is not complete, the detector refuses, with no evidence and in the name of the
  instance, whatever older reports say.
\<close>

lemma memory_newer_failure_not_shadowed:
  assumes "r \<in> set (di_reports input)" "vr_instance_id (dr_report r) = di_instance_id input"
    and "vr_status (dr_report r) \<noteq> SemanticReportStatus.Complete"
    and "\<forall>s \<in> set (di_reports input). vr_instance_id (dr_report s) = di_instance_id input \<longrightarrow> s \<noteq> r \<longrightarrow>
      dr_report_sequence s < dr_report_sequence r"
  shows "\<exists>res. memory_evaluate_with x digest input = Some res \<and>
    refused_result (memory_detector_descriptor digest) input res"
  using assms by (rule mem.newer_failure_not_shadowed)

text \<open>
  Admitted testimony is decidable testimony: a complete report that the memory module admitted
  and that is the newest of its instance and fresh is decided by its own snapshot, which decoded
  and is internally consistent for the machine of the request; only a machine that has been up
  for less than three minutes leaves the condition open.
\<close>

lemma admitted_memory_report_is_decided:
  assumes "memory_validate x c r = Ok v" "vr_status v = SemanticReportStatus.Complete"
    and "newest_report input = Some occ" "dr_report occ = v"
    and "di_evaluated_at input - vr_observed_at v \<in> {0..120000000000}"
  shows "\<exists>payload machine_id. ctx_request_subject c = ''host:'' @ machine_id \<and>
    memory_payload_law payload machine_id \<and>
    memory_payload_from_value x (ao_payload (hd (vr_observations v))) = Ok payload \<and>
    (\<exists>res. memory_evaluate x input = Some res \<and> res_state res =
      (if unat (mpp_boot_age_seconds payload) < 180 then DetectorState.CannotEvaluate
       else if 1000 \<le> unat (avg60_centipercent (mpp_some payload)) then DetectorState.Present
       else DetectorState.ExplicitlyAbsent))"
proof -
  obtain ob where ob: "vr_observations v = [ob]" "memory_validate_snapshot x c v ob = Ok ()"
    using assms(1,2) by (auto simp: memory_validate_Ok)
  from ob(2) obtain payload scope
    where p: "memory_payload_from_value x (ao_payload ob) = Ok payload"
      "memory_validate_scope_value x (sg_value (ctx_scope c)) (ctx_request_subject c) = Ok scope"
      "memory_payload_law payload (hms_machine_id scope)"
    by (rule memory_snapshot_Ok)
  have "ao_kind ob = MEMORY_OBSERVATION_KIND"
    using memory_gate.admitted_observations(1) [OF assms(1), of ob] ob(1)
    by (simp add: memory_descriptor_def VocabularyTerm_new_def)
  moreover have "bt_get (vr_coverage v) MEMORY_COVERAGE_KIND = Some SemanticCoverageState.Complete"
    by (rule memory_gate.admitted_coverage [OF assms(1,2)])
      (simp add: memory_descriptor_def VocabularyTerm_new_def)
  ultimately have g: "memory_grounds x (vr_profile_digest v) input occ ob payload"
    using assms ob(1) p(1) memory_gate.admitted_identity(2) [OF assms(1)]
    by (simp add: memory_grounds_def reliable_def newest_report_Some memory_detector_descriptor_def)
  show ?thesis
    using memory_state_on_grounds [OF g] memory_gate.admitted_identity(3) [OF assms(1)] p ob(1)
    by (auto simp: memory_scope_Ok memory_evaluate_def)
qed

section \<open>Concrete instances\<close>

definition sample_machine :: string where
  "sample_machine = replicate 32 (CHR ''a'')"

definition sample_line :: "u32 \<Rightarrow> PressureLine" where
  "sample_line n =
     \<lparr> avg10_centipercent = n, avg60_centipercent = n, avg300_centipercent = n, total_microseconds = 7 \<rparr>"

definition sample_memory_context :: ValidationContext where
  "sample_memory_context =
     \<lparr> ctx_instance_id = ''i-1'', ctx_request_subject = ''host:'' @ sample_machine,
       ctx_scope = \<lparr> sg_kind = ''host_memory'', sg_value = JObject [] \<rparr>,
       ctx_vantage = \<lparr> vg_kind = ''local'', vg_value = JObject [] \<rparr>,
       ctx_granted_capabilities = MEMORY_CAPABILITIES, ctx_received_at = 9,
       ctx_max_observations = 4096, ctx_max_future_skew = 0 \<rparr>"

definition sample_memory_payload :: MemoryPressurePayload where
  "sample_memory_payload =
     \<lparr> mpp_evidence_basis =
         \<lparr> eb_scope = ctx_scope sample_memory_context, eb_vantage = ctx_vantage sample_memory_context,
           eb_access_path = MEMORY_ACCESS_PATH, eb_basis = ''kernel_snapshot'', eb_regime = ''normal'',
           eb_capabilities_used = MEMORY_CAPABILITIES \<rparr>,
       mpp_machine_id = sample_machine, mpp_boot_age_seconds = 3600,
       mpp_some = sample_line 1200, mpp_full = sample_line 300 \<rparr>"

definition sample_memory_externals :: memory_externals where
  "sample_memory_externals = profile_externals.extend sample_profile_externals
     \<lparr> memory_scope_from_value =
         (\<lambda>_. Ok \<lparr> hms_schema = ''nq.host_memory_scope.v1'', hms_machine_id = sample_machine \<rparr>),
       memory_payload_from_value = (\<lambda>_. Ok sample_memory_payload) \<rparr>"

definition sample_memory_input :: ReportInput where
  "sample_memory_input =
     \<lparr> ri_report_digest = ''d'', ri_profile = ProfileKey_new ''nq.host_memory'' 1,
       ri_profile_digest = ''sha256:'', ri_status = SemanticReportStatus.Complete, ri_observed_at = 5,
       ri_coverage = [\<lparr> ci_name = MEMORY_COVERAGE_KIND, ci_subject = None,
         ci_state = SemanticCoverageState.Complete, ci_detail = None \<rparr>],
       ri_observations = [\<lparr> oi_kind = MEMORY_OBSERVATION_KIND, oi_subject = ''host:'' @ sample_machine,
         oi_ordinal = 0, oi_observed_at = 5, oi_payload = JNull \<rparr>],
       ri_error_count = 0, ri_failure_error_count = 0, ri_used_capabilities = MEMORY_CAPABILITIES,
       ri_errors = [] \<rparr>"

abbreviation sample_memory_report :: ValidatedReport where
  "sample_memory_report \<equiv> admitted_report memory_descriptor sample_memory_context sample_memory_input"

lemma sample_memory_externals_simps:
  "canonical_json_bytes sample_memory_externals JNull = Ok ''{}''"
  "descriptor_digest sample_memory_externals d = Ok ''sha256:''"
  "memory_payload_from_value sample_memory_externals v = Ok sample_memory_payload"
  "memory_scope_from_value sample_memory_externals v =
     Ok \<lparr> hms_schema = ''nq.host_memory_scope.v1'', hms_machine_id = sample_machine \<rparr>"
  by (simp_all add: sample_memory_externals_def profile_externals.extend_def
      sample_profile_externals_def frame_externals.extend_def sample_externals_def
      descriptor_digest_def semantic_digest_of_def canonical_json_bytes_of_def canonical_json_bytes_Ok
      sha256_bytes_def)

lemma sample_memory_newest:
  "newest_report (sample_detector_input [sample_memory_report]) =
     Some \<lparr> dr_report_id = ''r'', dr_report_sequence = 1, dr_report = sample_memory_report \<rparr>"
  by (simp add: newest_report_def sample_detector_input_def admitted_report_def sample_memory_context_def)

theorem memory_detector_decides_by_law_witness:
  "\<exists>res. memory_evaluate sample_memory_externals (sample_detector_input [sample_memory_report]) =
     Some res \<and> res_state res = DetectorState.Present"
proof -
  let ?occ = "\<lparr> dr_report_id = ''r'', dr_report_sequence = 1, dr_report = sample_memory_report \<rparr>"
  have fresh: "di_evaluated_at (sample_detector_input [sample_memory_report]) -
      vr_observed_at sample_memory_report \<in> {0..120000000000}"
    by (simp add: sample_detector_input_def admitted_report_def sample_memory_input_def)
  have "\<exists>ob. memory_grounds sample_memory_externals ''sha256:''
      (sample_detector_input [sample_memory_report]) ?occ ob sample_memory_payload"
    using fresh newest_report_Some [OF sample_memory_newest]
    by (simp add: memory_grounds_def sample_memory_newest reliable_def sample_memory_externals_simps)
      (simp add: admitted_report_def sample_memory_input_def memory_detector_descriptor_def
        memory_descriptor_def admitted_observation_def bt_from_def)
  moreover have "180 \<le> unat (mpp_boot_age_seconds sample_memory_payload)"
    and "1000 \<le> unat (avg60_centipercent (mpp_some sample_memory_payload))"
    by (simp_all add: sample_memory_payload_def sample_line_def)
  ultimately show ?thesis
    using memory_detector_decides_by_law [OF sample_memory_externals_simps(2),
        of "sample_detector_input [sample_memory_report]"]
    by blast
qed

section \<open>The kernel's text\<close>

text \<open>
  The text of a pressure file as the kernel prints it: a percentage with two decimals, four named
  values a line, a line for \<open>some\<close> and a line for \<open>full\<close>.
\<close>

definition centipercent_text :: "nat \<Rightarrow> string" where
  "centipercent_text n =
     show_nat (n div 100) @ [CHR ''.'', digit_char (n mod 100 div 10), digit_char (n mod 10)]"

definition pressure_words :: "PressureLine \<Rightarrow> string list" where
  "pressure_words l =
     [''avg10='' @ centipercent_text (unat (avg10_centipercent l)),
      ''avg60='' @ centipercent_text (unat (avg60_centipercent l)),
      ''avg300='' @ centipercent_text (unat (avg300_centipercent l)),
      ''total='' @ show_nat (unat (total_microseconds l))]"

definition pressure_line_text :: "string \<Rightarrow> PressureLine \<Rightarrow> string" where
  "pressure_line_text kind l = kind @ concat (map (\<lambda>w. CHR '' '' # w) (pressure_words l))"

definition pressure_file_text :: "PressureLine \<Rightarrow> PressureLine \<Rightarrow> string" where
  "pressure_file_text s f =
     pressure_line_text ''some'' s @ [LF] @ pressure_line_text ''full'' f @ [LF]"

lemma parse_centipercent_text:
  assumes "n \<le> 10000"
  shows "parse_centipercent (centipercent_text n) = Ok (of_nat n)"
proof -
  let ?w = "show_nat (n div 100)"
  let ?f = "[digit_char (n mod 100 div 10), digit_char (n mod 10)]"
  have "CHR ''.'' \<notin> set ?w"
    using show_nat_digits [of "n div 100"] by (auto simp: list_all_iff is_ascii_digit_def)
  then have split: "split_once (CHR ''.'') (centipercent_text n) = Some (?w, ?f)"
    by (simp add: centipercent_text_def split_once_Some)
  have digits: "n mod 100 div 10 < 10" "n mod 10 < 10" by auto
  have "digits_value ?f = n mod 100"
  proof -
    have "n mod 10 = n mod 100 mod 10" by (simp add: mod_mod_cancel)
    then show ?thesis using digits by (simp add: digits_value_def of_char_digit_char)
  qed
  then have frac: "parse_unsigned 4294967295 ?f = Some (n mod 100)"
    using digits by (subst parse_unsigned_digits) (auto simp: is_ascii_digit_digit_char)
  have whole: "parse_unsigned 4294967295 ?w = Some (n div 100)"
    using assms by (intro parse_unsigned_show_nat) auto
  have "length ?w \<le> 3" using assms by (intro length_show_nat_le) auto
  moreover have "(of_nat (n div 100) * 100 + of_nat (n mod 100) :: u32) = of_nat n"
    using arg_cong [OF div_mult_mod_eq [of n 100], of "of_nat :: nat \<Rightarrow> u32"]
    by (simp only: of_nat_add of_nat_mult of_nat_numeral)
  moreover have "\<not> (10000 :: u32) < of_nat n"
    using assms by (simp add: word_less_nat_alt unat_of_nat)
  ultimately show ?thesis
    using split frac whole digits show_nat_digits [of "n div 100"] show_nat_nonempty [of "n div 100"]
    by (simp add: parse_centipercent_def is_ascii_digit_digit_char Let_def)
qed

lemma parse_centipercent_bound: "parse_centipercent t = Ok v \<Longrightarrow> unat v \<le> 10000"
  by (auto simp: parse_centipercent_def Let_def not_less word_le_nat_alt
      split: option.splits if_splits prod.splits)

lemma plain_texts:
  "\<forall>c \<in> set (show_nat n). \<not> is_ascii_whitespace c \<and> c \<noteq> CHR ''=''"
  "\<forall>c \<in> set (centipercent_text n). \<not> is_ascii_whitespace c \<and> c \<noteq> CHR ''=''"
proof -
  have digit: "is_ascii_digit c \<Longrightarrow> \<not> is_ascii_whitespace c \<and> c \<noteq> CHR ''=''" for c
    by (auto simp: is_ascii_digit_def is_ascii_whitespace_def)
  show "\<forall>c \<in> set (show_nat n). \<not> is_ascii_whitespace c \<and> c \<noteq> CHR ''=''" for n
    using show_nat_digits [of n] digit by (auto simp: list_all_iff)
  then show "\<forall>c \<in> set (centipercent_text n). \<not> is_ascii_whitespace c \<and> c \<noteq> CHR ''=''"
    using digit [OF is_ascii_digit_digit_char]
    by (auto simp: centipercent_text_def is_ascii_whitespace_def)
qed

lemma split_words:
  assumes "\<forall>c \<in> set w. \<not> is_ascii_whitespace c" "w \<noteq> []"
    and "\<forall>v \<in> set ws. v \<noteq> [] \<and> (\<forall>c \<in> set v. \<not> is_ascii_whitespace c)"
  shows "split_ascii_whitespace (w @ concat (map (\<lambda>v. CHR '' '' # v) ws)) = w # ws"
  using assms
proof (induction ws arbitrary: w)
  case Nil
  obtain a l where w: "w = a # l" using Nil(2) by (cases w) auto
  then have l: "dropWhile (\<lambda>d. \<not> is_ascii_whitespace d) l = []"
    "takeWhile (\<lambda>d. \<not> is_ascii_whitespace d) l = l"
    using Nil(1) by (auto simp: dropWhile_eq_Nil_conv takeWhile_eq_all_conv)
  then show ?case using w Nil(1) by (simp add: l)
next
  case (Cons v ws)
  have space: "is_ascii_whitespace (CHR '' '')" by (simp add: is_ascii_whitespace_def)
  have "split_ascii_whitespace (w @ CHR '' '' # rest) = w # split_ascii_whitespace rest" for rest
    using Cons.prems(1,2) space by (cases w) auto
  then show ?case using Cons by simp
qed

lemma unsigned_texts:
  "\<not> starts_with (show_nat n) ''+''" "\<not> starts_with (centipercent_text n) ''+''"
proof -
  have "hd (show_nat n) \<noteq> CHR ''+''" for n
    using show_nat_digits [of n] show_nat_nonempty [of n]
    by (cases "show_nat n") (auto simp: is_ascii_digit_def)
  then show "\<not> starts_with (show_nat n) ''+''" "\<not> starts_with (centipercent_text n) ''+''"
    using show_nat_nonempty [of n] show_nat_nonempty [of "n div 100"]
    by (metis append_Cons hd_append2 list.sel(1) starts_with_iff centipercent_text_def)+
qed

lemma parse_pressure_words:
  assumes "pressure_line_law l"
  shows "parse_pressure_line line (pressure_words l) = Ok l"
proof -
  have split: "split_once (CHR ''='') (''avg10='' @ t) = Some (''avg10'', t)"
    "split_once (CHR ''='') (''avg60='' @ t) = Some (''avg60'', t)"
    "split_once (CHR ''='') (''avg300='' @ t) = Some (''avg300'', t)"
    "split_once (CHR ''='') (''total='' @ t) = Some (''total'', t)" for t
    by (simp_all add: split_once_Some)
  let ?m = "bt_insert ''total'' (show_nat (unat (total_microseconds l)))
    (bt_insert ''avg300'' (centipercent_text (unat (avg300_centipercent l)))
    (bt_insert ''avg60'' (centipercent_text (unat (avg60_centipercent l)))
    (bt_insert ''avg10'' (centipercent_text (unat (avg10_centipercent l))) [])))"
  have "parse_pressure_fields line [] (pressure_words l) = Ok ?m"
    unfolding pressure_words_def
    by (simp only: parse_pressure_fields.simps split option.case prod.case unsigned_texts
        bt_get_insert fun_upd_apply map_of.simps) simp
  moreover have "pressure_field line ?m ''avg10'' = Ok (centipercent_text (unat (avg10_centipercent l)))"
    "pressure_field line ?m ''avg60'' = Ok (centipercent_text (unat (avg60_centipercent l)))"
    "pressure_field line ?m ''avg300'' = Ok (centipercent_text (unat (avg300_centipercent l)))"
    "pressure_field line ?m ''total'' = Ok (show_nat (unat (total_microseconds l)))"
    by (simp_all add: pressure_field_def del: bt_insert.simps)
  moreover have "parse_unsigned 18446744073709551615 (show_nat (unat (total_microseconds l))) =
      Some (unat (total_microseconds l))"
    using assms by (intro parse_unsigned_show_nat) (simp add: pressure_line_law_def)
  ultimately show ?thesis
    using assms
    by (simp add: parse_pressure_line_def pressure_line_law_def parse_centipercent_text
        del: bt_insert.simps)
qed

lemma pressure_line_text_words:
  assumes "kind = ''some'' \<or> kind = ''full''"
  shows "split_ascii_whitespace (pressure_line_text kind l) = kind # pressure_words l"
    and "LF \<notin> set (pressure_line_text kind l)" and "CR \<notin> set (pressure_line_text kind l)"
proof -
  have words: "\<forall>v \<in> set (pressure_words l). v \<noteq> [] \<and> (\<forall>c \<in> set v. \<not> is_ascii_whitespace c)"
    using plain_texts by (auto simp: pressure_words_def is_ascii_whitespace_def)
  have kind: "\<forall>c \<in> set kind. \<not> is_ascii_whitespace c" "kind \<noteq> []"
    using assms by (auto simp: is_ascii_whitespace_def)
  show "split_ascii_whitespace (pressure_line_text kind l) = kind # pressure_words l"
    unfolding pressure_line_text_def using kind words by (rule split_words)
  have "c \<in> set (pressure_line_text kind l) \<Longrightarrow> c = CHR '' '' \<or> \<not> is_ascii_whitespace c" for c
    using kind(1) words by (auto simp: pressure_line_text_def split: if_splits)
  then show "LF \<notin> set (pressure_line_text kind l)" "CR \<notin> set (pressure_line_text kind l)"
    by (fastforce simp: is_ascii_whitespace_def)+
qed

lemma str_lines_two:
  assumes "LF \<notin> set a" "CR \<notin> set a" "LF \<notin> set b" "CR \<notin> set b"
  shows "str_lines (a @ [LF] @ b @ [LF]) = [a, b]"
proof -
  have "split_on LF (l @ LF # r) = l # split_on LF r" if "LF \<notin> set l" for l r
    using that by (induction l) auto
  from this [OF assms(1), of "b @ [LF]"] this [OF assms(3), of "[]"] show ?thesis
    using assms by (auto simp: str_lines_def strip_cr_def Let_def dest: last_in_set)
qed

text \<open>
  Reading the pressure file inverts the kernel's printing of it, for every pair of lines
  within the bounds that admission requires.
\<close>

lemma pressure_file_round_trip:
  assumes "pressure_line_law s" "pressure_line_law f"
  shows "parse_pressure_file (pressure_file_text s f) = Ok (s, f)"
proof -
  have "str_lines (pressure_file_text s f) = [pressure_line_text ''some'' s, pressure_line_text ''full'' f]"
    unfolding pressure_file_text_def
    by (rule str_lines_two) (simp_all add: pressure_line_text_words)
  then show ?thesis
    using assms by (simp add: parse_pressure_file_def pressure_line_text_words parse_pressure_words)
qed

end
