(* ===== verification/Host_Filesystem.thy ===== *)
theory Host_Filesystem
  imports Detector_Core
begin

text \<open>
  The profiles \<open>nq.host_filesystem_capacity\<close> and \<open>nq.host_filesystem_inodes\<close>
  (\<open>crates/nq-profiles/src/host_filesystem.rs\<close>): the identity of a filesystem, admission of a
  snapshot, projection, and the two pressure detectors. The decoders that \<open>serde\<close> derives for the
  scope and the payload are externals.
\<close>

unbundle bit_operations_syntax

section \<open>Vocabulary\<close>

datatype FilesystemFailureCode =
    MachineIdentityUnavailable | MachineIdentityMismatch | MountTableUnavailable | NotAMountpoint
  | UnsupportedFilesystemType | MountRootNotFilesystemRoot | FilesystemIdentityMismatch
  | FilesystemIdentityUnavailable | MountChangedDuringObservation | FilesystemInaccessible
  | MountIdentityUnavailable | StatFailed | StatfsFailed

definition filesystem_failure_ALL :: "FilesystemFailureCode list" where
  "filesystem_failure_ALL =
     [MachineIdentityUnavailable, MachineIdentityMismatch, MountTableUnavailable, NotAMountpoint,
      UnsupportedFilesystemType, MountRootNotFilesystemRoot, FilesystemIdentityMismatch,
      FilesystemIdentityUnavailable, MountChangedDuringObservation, FilesystemInaccessible,
      MountIdentityUnavailable, StatFailed, StatfsFailed]"

fun filesystem_failure_as_str :: "FilesystemFailureCode \<Rightarrow> string" where
  "filesystem_failure_as_str MachineIdentityUnavailable = ''machine_identity_unavailable''"
| "filesystem_failure_as_str MachineIdentityMismatch = ''machine_identity_mismatch''"
| "filesystem_failure_as_str MountTableUnavailable = ''mount_table_unavailable''"
| "filesystem_failure_as_str NotAMountpoint = ''not_a_mountpoint''"
| "filesystem_failure_as_str UnsupportedFilesystemType = ''unsupported_filesystem_type''"
| "filesystem_failure_as_str MountRootNotFilesystemRoot = ''mount_root_not_filesystem_root''"
| "filesystem_failure_as_str FilesystemIdentityMismatch = ''filesystem_identity_mismatch''"
| "filesystem_failure_as_str FilesystemIdentityUnavailable = ''filesystem_identity_unavailable''"
| "filesystem_failure_as_str MountChangedDuringObservation = ''mount_changed_during_observation''"
| "filesystem_failure_as_str FilesystemInaccessible = ''filesystem_inaccessible''"
| "filesystem_failure_as_str MountIdentityUnavailable = ''mount_identity_unavailable''"
| "filesystem_failure_as_str StatFailed = ''stat_failed''"
| "filesystem_failure_as_str StatfsFailed = ''statfs_failed''"

definition filesystem_failure_parse :: "string \<Rightarrow> FilesystemFailureCode option" where
  "filesystem_failure_parse code =
     find (\<lambda>known. filesystem_failure_as_str known = code) filesystem_failure_ALL"

definition filesystem_failure_tokens :: "string list" where
  "filesystem_failure_tokens = map filesystem_failure_as_str filesystem_failure_ALL"

definition FILESYSTEM_SCOPE_SCHEMA :: string where
  "FILESYSTEM_SCOPE_SCHEMA = ''nq.host_filesystem_scope.v1''"

definition FILESYSTEM_OBSERVATION_KIND :: string where
  "FILESYSTEM_OBSERVATION_KIND = ''filesystem_snapshot''"

definition FILESYSTEM_COVERAGE_KIND :: string where
  "FILESYSTEM_COVERAGE_KIND = ''filesystem_statistics''"

definition FILESYSTEM_ACCESS_PATH :: string where
  "FILESYSTEM_ACCESS_PATH = ''mountinfo_statfs''"

definition FILESYSTEM_CAPABILITIES :: "string list" where
  "FILESYSTEM_CAPABILITIES =
     [''read_machine_identity'', ''read_mount_table'', ''read_filesystem_statistics'']"

definition USED_THRESHOLD_PERMILLE :: u32 where
  "USED_THRESHOLD_PERMILLE = 900"

definition FILESYSTEM_MAX_SAFE_COUNTER :: u64 where
  "FILESYSTEM_MAX_SAFE_COUNTER = 2 ^ 53 - 1"

definition filesystem_descriptor :: "string \<Rightarrow> string \<Rightarrow> string \<Rightarrow> ProfileDescriptor" where
  "filesystem_descriptor i title condition_word =
     \<lparr> pd_schema = PROFILE_DESCRIPTOR_SCHEMA,
       pd_family = ''host_filesystem'',
       pd_profile = ProfileKey_new i 1,
       pd_title = title,
       pd_observation_kinds = [VocabularyTerm_new FILESYSTEM_OBSERVATION_KIND
         ''One statfs snapshot of one exact filesystem instance through its declared mountpoint''],
       pd_coverage = [VocabularyTerm_new FILESYSTEM_COVERAGE_KIND
         ''Block, fragment-size, and inode counters for the exact filesystem''],
       pd_subjects = \<lparr> sr_namespace = ''host-filesystem:'', sr_exact_request_subject = True \<rparr>,
       pd_scope_kinds = [VocabularyTerm_new ''host_filesystem''
         ''One exact machine, filesystem UUID, filesystem type, and mountpoint''],
       pd_vantages = [VocabularyTerm_new ''local''
         ''Observation from a process on the machine that mounts the filesystem''],
       pd_access_paths = [VocabularyTerm_new FILESYSTEM_ACCESS_PATH
         ''Mount table selection, identity cross-checks, then statfs on the declared path only''],
       pd_bases = [VocabularyTerm_new ''kernel_snapshot''
         ''A bounded local kernel superblock counter snapshot''],
       pd_regimes = [VocabularyTerm_new ''normal''
         ''Read-only observation that triggers no automount and writes nothing''],
       pd_capabilities =
         [VocabularyTerm_new ''read_machine_identity'' ''Read /etc/machine-id'',
          VocabularyTerm_new ''read_mount_table'' ''Read the process mount table'',
          VocabularyTerm_new ''read_filesystem_statistics''
            ''Resolve the filesystem UUID and read statfs counters for the declared path''],
       pd_freshness = \<lparr> reliance_seconds = 300, alignment_seconds = 0 \<rparr>,
       pd_limits = \<lparr> lim_max_observations = 1, lim_max_payload_bytes = 8192,
         lim_max_subject_bytes = 128, lim_max_coverage_declarations = 1 \<rparr>,
       pd_disturbance_assumptions =
         [''Reading superblock counters does not alter the filesystem'',
          ''One local statfs snapshot establishes '' @ condition_word @ '' pressure only; it is not storage health, integrity, performance, quota, or growth evidence''] \<rparr>"

definition capacity_descriptor :: ProfileDescriptor where
  "capacity_descriptor = filesystem_descriptor ''nq.host_filesystem_capacity''
     ''Local filesystem capacity pressure'' ''capacity''"

definition inodes_descriptor :: ProfileDescriptor where
  "inodes_descriptor = filesystem_descriptor ''nq.host_filesystem_inodes''
     ''Local filesystem inode pressure'' ''inode''"

section \<open>Scope and payload\<close>

record HostFilesystemScope =
  hfs_schema :: string
  hfs_machine_id :: string
  hfs_filesystem_uuid :: string
  hfs_filesystem_type :: string
  hfs_mountpoint :: string

record FilesystemSnapshotPayload =
  fsp_evidence_basis :: EvidenceBasis
  fsp_machine_id :: string
  fsp_filesystem_uuid :: string
  fsp_filesystem_type :: string
  fsp_mountpoint :: string
  fsp_mount_id :: u64
  fsp_device_major :: u32
  fsp_device_minor :: u32
  fsp_fsid_hex :: string
  fsp_fragment_size :: u64
  fsp_blocks_total :: u64
  fsp_blocks_free :: u64
  fsp_blocks_available :: u64
  fsp_inodes_total :: u64
  fsp_inodes_free :: u64

record FilesystemSnapshotProjection =
  fproj_profile :: ProfileKey
  fproj_ordinal :: u32
  fproj_subject :: string
  fproj_payload :: FilesystemSnapshotPayload

record filesystem_externals = profile_externals +
  filesystem_scope_from_value :: "json \<Rightarrow> (HostFilesystemScope, string) result"
  filesystem_payload_from_value :: "json \<Rightarrow> (FilesystemSnapshotPayload, string) result"

definition filesystem_subject_for :: "string \<Rightarrow> string \<Rightarrow> string" where
  "filesystem_subject_for machine_id filesystem_uuid =
     ''host-filesystem:'' @ machine_id @ ''/'' @ filesystem_uuid"

definition filesystem_is_lower_hex :: "string \<Rightarrow> usize \<Rightarrow> bool" where
  "filesystem_is_lower_hex value len \<longleftrightarrow> length value = len \<and> list_all is_lower_hex_digit value"

definition is_canonical_uuid :: "string \<Rightarrow> bool" where
  "is_canonical_uuid value =
     (let parts = split_on (CHR ''-'') value in
      length parts = 5 \<and>
      list_all (\<lambda>(len, part). filesystem_is_lower_hex part len) (zip [8, 4, 4, 4, 12] parts))"

text \<open>
  Hexadecimal digits in pairs, four bytes in little-endian order, and sixteen hexadecimal digits of
  a 64-bit number.
\<close>

definition hex_value :: "char \<Rightarrow> nat" where
  "hex_value c = (if is_ascii_digit c then of_char c - 48 else of_char c - 87)"

fun hex_bytes :: "string \<Rightarrow> nat list" where
  "hex_bytes (a # b # rest) = (16 * hex_value a + hex_value b) # hex_bytes rest"
| "hex_bytes [a] = [hex_value a]"
| "hex_bytes [] = []"

definition u32_from_le_bytes :: "nat list \<Rightarrow> u32" where
  "u32_from_le_bytes bs = of_nat (foldr (\<lambda>b acc. b + 256 * acc) bs 0)"

definition hex_digit_char :: "nat \<Rightarrow> char" where
  "hex_digit_char d = (if d < 10 then char_of (48 + d) else char_of (87 + d))"

definition show_hex16 :: "u64 \<Rightarrow> string" where
  "show_hex16 v = map (\<lambda>i. hex_digit_char (unat v div 16 ^ i mod 16)) (rev [0..<16])"

definition ext4_fsid_hex :: "string \<Rightarrow> string option" where
  "ext4_fsid_hex filesystem_uuid =
     (if \<not> is_canonical_uuid filesystem_uuid then None
      else
        let bs = hex_bytes (filter (\<lambda>c. c \<noteq> CHR ''-'') filesystem_uuid);
            folded = map2 (\<lambda>a b. unat ((of_nat a :: 8 word) XOR of_nat b)) (take 8 bs) (drop 8 bs);
            low = u32_from_le_bytes (take 4 folded);
            high = u32_from_le_bytes (drop 4 folded)
        in Some (show_hex16 ((ucast low :: u64) OR push_bit 32 (ucast high))))"

definition mountpoint_refused :: "string \<Rightarrow> bool" where
  "mountpoint_refused mountpoint \<longleftrightarrow>
     \<not> starts_with mountpoint ''/'' \<or> length mountpoint > 1024 \<or>
     (length mountpoint > 1 \<and> ends_with_char mountpoint (CHR ''/'')) \<or>
     str_contains mountpoint ''//'' \<or>
     list_ex (\<lambda>segment. segment = ''.'' \<or> segment = ''..'') (split_on (CHR ''/'') mountpoint) \<or>
     CHR 0x00 \<in> set mountpoint"

definition filesystem_validate_scope_value ::
  "'x filesystem_externals_scheme \<Rightarrow> json \<Rightarrow> string \<Rightarrow> (HostFilesystemScope, string) result" where
  "filesystem_validate_scope_value x value request_subject =
     and_then
       (map_err (\<lambda>e. ''scope must be exactly '' @ FILESYSTEM_SCOPE_SCHEMA @ '': '' @ e)
          (filesystem_scope_from_value x value))
       (\<lambda>scope. map_ok (\<lambda>_. scope) (run_checks
          [refuse_if (hfs_schema scope \<noteq> FILESYSTEM_SCOPE_SCHEMA)
             (''scope schema must be '' @ FILESYSTEM_SCOPE_SCHEMA),
           refuse_if (\<not> filesystem_is_lower_hex (hfs_machine_id scope) 32)
             ''machine_id must be 32 lowercase hex characters'',
           refuse_if (\<not> is_canonical_uuid (hfs_filesystem_uuid scope))
             ''filesystem_uuid must be a lowercase canonical UUID'',
           refuse_if (hfs_filesystem_type scope \<noteq> ''ext4'') ''v1 admits only filesystem_type ext4'',
           refuse_if (mountpoint_refused (hfs_mountpoint scope))
             ''mountpoint must be an absolute normalized path'',
           refuse_if (request_subject \<noteq>
               filesystem_subject_for (hfs_machine_id scope) (hfs_filesystem_uuid scope))
             ''subject must equal host-filesystem:<machine_id>/<filesystem_uuid>'']))"

definition filesystem_validate_payload_against_scope ::
  "FilesystemSnapshotPayload \<Rightarrow> HostFilesystemScope \<Rightarrow> (unit, string) result" where
  "filesystem_validate_payload_against_scope payload scope = run_checks
     [refuse_if
        (fsp_machine_id payload \<noteq> hfs_machine_id scope \<or>
         fsp_filesystem_uuid payload \<noteq> hfs_filesystem_uuid scope \<or>
         fsp_filesystem_type payload \<noteq> hfs_filesystem_type scope \<or>
         fsp_mountpoint payload \<noteq> hfs_mountpoint scope)
        ''payload identity fields must equal the request scope'',
      refuse_if (ext4_fsid_hex (fsp_filesystem_uuid payload) \<noteq> Some (fsp_fsid_hex payload))
        ''fsid_hex must equal the ext4 fold of the filesystem UUID'',
      run_checks (map
        (\<lambda>(name, value). refuse_if (value > FILESYSTEM_MAX_SAFE_COUNTER)
           (name @ '' exceeds the safe integer bound''))
        [(''mount_id'', fsp_mount_id payload), (''fragment_size'', fsp_fragment_size payload),
         (''blocks_total'', fsp_blocks_total payload), (''blocks_free'', fsp_blocks_free payload),
         (''blocks_available'', fsp_blocks_available payload),
         (''inodes_total'', fsp_inodes_total payload), (''inodes_free'', fsp_inodes_free payload)]),
      refuse_if (fsp_fragment_size payload = 0) ''fragment_size must be positive'',
      refuse_if (fsp_blocks_available payload > fsp_blocks_free payload \<or>
          fsp_blocks_free payload > fsp_blocks_total payload)
        ''block counters must satisfy available <= free <= total'',
      refuse_if (fsp_inodes_free payload > fsp_inodes_total payload)
        ''inode counters must satisfy free <= total'']"

section \<open>The two laws\<close>

definition capacity_pressure_state :: "FilesystemSnapshotPayload \<Rightarrow> u32 \<Rightarrow> DetectorState option" where
  "capacity_pressure_state payload threshold_permille =
     (let used = (ucast (saturating_sub (fsp_blocks_total payload) (fsp_blocks_free payload)) :: u128);
          usable = used + ucast (fsp_blocks_available payload)
      in if usable = 0 then None
         else Some (if 1000 * used \<ge> ucast threshold_permille * usable
                    then DetectorState.Present else DetectorState.ExplicitlyAbsent))"

text \<open>The subtraction of the inode law wraps, as it does in a build without overflow checks.\<close>

definition inode_pressure_state :: "FilesystemSnapshotPayload \<Rightarrow> u32 \<Rightarrow> DetectorState option" where
  "inode_pressure_state payload threshold_permille =
     (let total = (ucast (fsp_inodes_total payload) :: u128) in
      if total = 0 then None
      else let used = total - ucast (fsp_inodes_free payload) in
        Some (if 1000 * used \<ge> ucast threshold_permille * total
              then DetectorState.Present else DetectorState.ExplicitlyAbsent))"

section \<open>Admission\<close>

definition filesystem_inconsistent ::
  "ValidationContext \<Rightarrow> ProfileDescriptor \<Rightarrow> string \<Rightarrow> ProfileRefusal" where
  "filesystem_inconsistent context descriptor message =
     refusal_new context descriptor ProfileRefusalBoundary.Report InconsistentReport message"

definition filesystem_invalid_payload ::
  "ValidationContext \<Rightarrow> ProfileDescriptor \<Rightarrow> string \<Rightarrow> ProfileRefusal" where
  "filesystem_invalid_payload context descriptor message =
     refusal_new context descriptor ProfileRefusalBoundary.Observation InvalidPayload message"

definition filesystem_validate_binding ::
  "'x filesystem_externals_scheme \<Rightarrow> ValidationContext \<Rightarrow> ProfileDescriptor \<Rightarrow>
   (unit, ProfileRefusal) result" where
  "filesystem_validate_binding x context descriptor = run_checks
     [refuse_if (sg_kind (ctx_scope context) \<noteq> ''host_filesystem'')
        (refusal_new context descriptor ProfileRefusalBoundary.Profile ScopeEscape
           ''filesystem scope kind must be host_filesystem''),
      map_ok (\<lambda>_. ())
        (map_err
           (\<lambda>message. with_detail ''error'' message
              (refusal_new context descriptor ProfileRefusalBoundary.Profile ScopeEscape
                 ''filesystem scope does not correlate with its request subject or bounds''))
           (filesystem_validate_scope_value x (sg_value (ctx_scope context))
              (ctx_request_subject context))),
      refuse_if (vg_kind (ctx_vantage context) \<noteq> ''local'' \<or> vg_value (ctx_vantage context) \<noteq> JObject [])
        (refusal_new context descriptor ProfileRefusalBoundary.Profile VantageEscape
           ''filesystem vantage must be the empty local vantage'')]"

definition filesystem_validate_snapshot ::
  "'x filesystem_externals_scheme \<Rightarrow> ProfileDescriptor \<Rightarrow> ValidationContext \<Rightarrow> ValidatedReport \<Rightarrow>
   AdmittedObservation \<Rightarrow> (unit, ProfileRefusal) result" where
  "filesystem_validate_snapshot x descriptor context admitted observation =
     and_then
       (map_err
          (\<lambda>e. with_detail ''error'' e
             (filesystem_invalid_payload context descriptor
                ''filesystem payload does not match the compiled contract''))
          (filesystem_payload_from_value x (ao_payload observation)))
       (\<lambda>payload. let used = eb_capabilities_used (fsp_evidence_basis payload) in run_checks
          [validate_basis descriptor context (fsp_evidence_basis payload),
           refuse_if (used \<noteq> vr_used_capabilities admitted)
             (filesystem_inconsistent context descriptor
                ''payload capabilities differ from report used_capabilities''),
           refuse_if
             (eb_access_path (fsp_evidence_basis payload) \<noteq> FILESYSTEM_ACCESS_PATH \<or>
              length used \<noteq> length FILESYSTEM_CAPABILITIES \<or>
              \<not> list_all (\<lambda>c. c \<in> set used) FILESYSTEM_CAPABILITIES)
             (refusal_new context descriptor ProfileRefusalBoundary.Observation
                ProfileRefusalCode.CapabilityEscape
                ''filesystem access path must declare exactly its three exercised capabilities''),
           refuse_if (ao_observed_at observation \<noteq> vr_observed_at admitted)
             (filesystem_inconsistent context descriptor
                ''filesystem snapshot time must equal the report observation time''),
           and_then
             (map_err (filesystem_invalid_payload context descriptor)
                (filesystem_validate_scope_value x (sg_value (ctx_scope context))
                   (ctx_request_subject context)))
             (\<lambda>scope. map_err (filesystem_invalid_payload context descriptor)
                (filesystem_validate_payload_against_scope payload scope)),
           refuse_if
             (bt_get (vr_coverage admitted) FILESYSTEM_COVERAGE_KIND \<noteq>
                Some SemanticCoverageState.Complete)
             (filesystem_inconsistent context descriptor
                ''a filesystem snapshot requires complete filesystem_statistics coverage'')])"

definition filesystem_validate_report ::
  "'x filesystem_externals_scheme \<Rightarrow> ProfileDescriptor \<Rightarrow> ValidationContext \<Rightarrow> ReportInput \<Rightarrow>
   ValidationResult" where
  "filesystem_validate_report x descriptor context report =
     and_then (filesystem_validate_binding x context descriptor) (\<lambda>_.
     and_then (validate_common x descriptor context report) (\<lambda>admitted.
       if vr_status admitted = SemanticReportStatus.Failed then Ok admitted
       else (case vr_observations admitted of
         [observation] \<Rightarrow> map_ok (\<lambda>_. admitted)
           (filesystem_validate_snapshot x descriptor context admitted observation)
       | _ \<Rightarrow> Err (filesystem_inconsistent context descriptor
           ''a non-failed filesystem report requires exactly one filesystem snapshot''))))"

definition capacity_validate ::
  "'x filesystem_externals_scheme \<Rightarrow> ValidationContext \<Rightarrow> ReportInput \<Rightarrow> ValidationResult" where
  "capacity_validate x = filesystem_validate_report x capacity_descriptor"

definition inodes_validate ::
  "'x filesystem_externals_scheme \<Rightarrow> ValidationContext \<Rightarrow> ReportInput \<Rightarrow> ValidationResult" where
  "inodes_validate x = filesystem_validate_report x inodes_descriptor"

definition filesystem_projection_failure :: "ValidatedReport \<Rightarrow> string \<Rightarrow> ProfileRefusal" where
  "filesystem_projection_failure report e =
     \<lparr> pr_instance_id = vr_instance_id report, pr_profile = vr_profile report,
       pr_boundary = ProfileRefusalBoundary.Observation, pr_code = InvalidPayload,
       pr_message = ''admitted filesystem payload could not be projected'',
       pr_details = bt_from [(''error'', e)] \<rparr>"

definition filesystem_project_report ::
  "'x filesystem_externals_scheme \<Rightarrow> ValidatedReport \<Rightarrow>
   (FilesystemSnapshotProjection list, ProfileRefusal) result" where
  "filesystem_project_report x report =
     collect_results
       (\<lambda>observation. map_ok
          (\<lambda>payload. \<lparr> fproj_profile = vr_profile report, fproj_ordinal = ao_ordinal observation,
             fproj_subject = ao_subject observation, fproj_payload = payload \<rparr>)
          (map_err (filesystem_projection_failure report)
             (filesystem_payload_from_value x (ao_payload observation))))
       (vr_observations report)"

section \<open>The detectors\<close>

definition capacity_detector_descriptor :: "ProfileDigest \<Rightarrow> DetectorDescriptor" where
  "capacity_detector_descriptor digest =
     \<lparr> dd_schema = DETECTOR_DESCRIPTOR_SCHEMA,
       dd_id = ''nq.host_filesystem_capacity.pressure'',
       dd_version = 1,
       dd_profile = pd_profile capacity_descriptor,
       dd_profile_digest = digest,
       dd_title = ''Filesystem capacity pressure'',
       dd_condition = ''filesystem_capacity_pressure'',
       dd_parameters = FilesystemCapacityPressure USED_THRESHOLD_PERMILLE \<rparr>"

definition inodes_detector_descriptor :: "ProfileDigest \<Rightarrow> DetectorDescriptor" where
  "inodes_detector_descriptor digest =
     \<lparr> dd_schema = DETECTOR_DESCRIPTOR_SCHEMA,
       dd_id = ''nq.host_filesystem_inodes.pressure'',
       dd_version = 1,
       dd_profile = pd_profile inodes_descriptor,
       dd_profile_digest = digest,
       dd_title = ''Filesystem inode pressure'',
       dd_condition = ''filesystem_inode_pressure'',
       dd_parameters = FilesystemInodePressure USED_THRESHOLD_PERMILLE \<rparr>"

fun status_text :: "SemanticReportStatus \<Rightarrow> string" where
  "status_text SemanticReportStatus.Complete = ''complete''"
| "status_text SemanticReportStatus.Partial = ''partial''"
| "status_text SemanticReportStatus.Failed = ''failed''"

definition filesystem_newest_current_report ::
  "DetectorInput \<Rightarrow> DetectorDescriptor \<Rightarrow> ProfileDescriptor \<Rightarrow> (DetectorReport, DetectorResult) result" where
  "filesystem_newest_current_report input descriptor profile_descriptor =
     (case newest_report input of
        None \<Rightarrow> Err (cannot_evaluate_with_details input descriptor
          ''no admitted filesystem testimony is available''
          [''Missing testimony cannot establish absence'']
          (bt_from [(''reason'', ''missing_testimony'')]))
      | Some report \<Rightarrow> let admitted = dr_report report in
          if vr_profile admitted \<noteq> dd_profile descriptor \<or>
             vr_profile_digest admitted \<noteq> dd_profile_digest descriptor
          then Err (cannot_evaluate_with_details input descriptor
            ''the newest testimony uses a different profile contract''
            [''Profile revisions are never silently combined'']
            (bt_from [(''reason'', ''profile_contract_mismatch'')]))
          else if vr_status admitted \<noteq> SemanticReportStatus.Complete \<or>
             bt_get (vr_coverage admitted) FILESYSTEM_COVERAGE_KIND \<noteq>
               Some SemanticCoverageState.Complete
          then
            let details = bt_from
                  [(''reason'', ''incomplete_filesystem_coverage''),
                   (''report_status'', status_text (vr_status admitted)),
                   (''failure_error_count'', show_nat (unat (vr_failure_error_count admitted)))]
            in Err (cannot_evaluate_with_details input descriptor
              ''the newest filesystem testimony lacks complete filesystem_statistics coverage''
              [''A newer failed report is not shadowed by older success'']
              (case single_failure_error admitted of
                 None \<Rightarrow> details
               | Some failure \<Rightarrow> (case filesystem_failure_parse (rre_code failure) of
                    None \<Rightarrow> details
                  | Some code \<Rightarrow>
                      bt_insert ''failure_retriable'' (show_bool (rre_retriable failure))
                        (bt_insert ''failure_code'' (filesystem_failure_as_str code) details))))
          else
            let age = di_evaluated_at input - vr_observed_at admitted;
                reliance = duration_seconds (reliance_seconds (pd_freshness profile_descriptor))
            in if age < 0 \<or> age > reliance
               then Err (cannot_evaluate_with_details input descriptor
                 ''the newest filesystem testimony is outside its freshness window''
                 [''Staleness removes reliance; it does not negate testimony'']
                 (bt_from
                   [(''age_seconds'', show_int (num_seconds age)),
                    (''reason'', ''invalid_freshness''),
                    (''reliance_seconds'',
                     show_nat (unat (reliance_seconds (pd_freshness profile_descriptor))))]))
               else Ok report)"

datatype Law = Capacity | Inodes

fun filesystem_law ::
  "Law \<Rightarrow> FilesystemSnapshotPayload \<Rightarrow> u32 \<Rightarrow> DetectorState option \<times> string \<times> string \<times> string \<times> string" where
  "filesystem_law Capacity payload threshold =
     (capacity_pressure_state payload threshold,
      ''available space is at or below 10% of non-reserved capacity on the exact filesystem'',
      ''current complete counters place available space above 10% of non-reserved capacity'',
      ''zero_capacity_reported'', ''the filesystem reports no usable capacity'')"
| "filesystem_law Inodes payload threshold =
     (inode_pressure_state payload threshold,
      ''free inodes are at or below 10% of total inodes on the exact filesystem'',
      ''current complete counters place free inodes above 10% of total inodes'',
      ''inode_accounting_not_reported'', ''the filesystem reports no inode accounting'')"

text \<open>The threshold of the parameters; the other parameters are unreachable in the source.\<close>

definition filesystem_threshold :: "DetectorRuleParameters \<Rightarrow> u32 option" where
  "filesystem_threshold parameters =
     (case parameters of
        FilesystemCapacityPressure t \<Rightarrow> Some t
      | FilesystemInodePressure t \<Rightarrow> Some t
      | _ \<Rightarrow> None)"

definition filesystem_evaluate ::
  "'x filesystem_externals_scheme \<Rightarrow> DetectorInput \<Rightarrow> DetectorDescriptor \<Rightarrow> ProfileDescriptor \<Rightarrow> Law \<Rightarrow>
   DetectorResult option" where
  "filesystem_evaluate x input descriptor profile_descriptor law =
     (case filesystem_newest_current_report input descriptor profile_descriptor of
        Err result \<Rightarrow> Some result
      | Ok occurrence \<Rightarrow> (let report = dr_report occurrence in
          case find (\<lambda>ob. ao_kind ob = FILESYSTEM_OBSERVATION_KIND) (vr_observations report) of
            None \<Rightarrow> Some (cannot_evaluate_with_details input descriptor
              ''the newest report has no filesystem snapshot''
              [''Missing observations cannot establish absence'']
              (bt_from [(''observation_kind'', FILESYSTEM_OBSERVATION_KIND),
                        (''reason'', ''missing_observation'')]))
          | Some observation \<Rightarrow> (case filesystem_payload_from_value x (ao_payload observation) of
              Err _ \<Rightarrow> Some (cannot_evaluate_with_details input descriptor
                ''the admitted filesystem snapshot cannot be projected''
                [''Projection failure requires operator inspection'']
                (bt_from [(''reason'', ''projection_failure'')]))
            | Ok payload \<Rightarrow> (case filesystem_threshold (dd_parameters descriptor) of
                None \<Rightarrow> None
              | Some threshold \<Rightarrow>
                  (case filesystem_law law payload threshold of
                     (None, _, _, reason, message) \<Rightarrow> Some (cannot_evaluate_with_details input descriptor
                       message [''A zero denominator cannot establish presence or absence'']
                       (bt_from [(''reason'', reason)]))
                   | (Some state, present_summary, absent_summary, _, _) \<Rightarrow> Some
                       \<lparr> res_state = state,
                         res_condition = dd_condition descriptor,
                         res_summary = (if state = DetectorState.Present then present_summary
                                        else absent_summary),
                         res_evidence =
                           [\<lparr> de_report_id = dr_report_id occurrence,
                              de_report_sequence = dr_report_sequence occurrence,
                              de_report_digest = vr_report_digest report,
                              de_observation_ordinal = Some (ao_ordinal observation),
                              de_observed_at = ao_observed_at observation \<rparr>],
                         res_limitations =
                           [''One statfs snapshot establishes no storage health, integrity, performance, quota, or growth fact'',
                            ''Root-reserved blocks and per-user quotas are outside the condition''],
                         res_refusal = None,
                         res_watermark = di_watermark input \<rparr>)))))"

definition capacity_evaluate ::
  "'x filesystem_externals_scheme \<Rightarrow> DetectorInput \<Rightarrow> DetectorResult option" where
  "capacity_evaluate x input =
     (case descriptor_digest x capacity_descriptor of
        Err _ \<Rightarrow> None
      | Ok digest \<Rightarrow>
          filesystem_evaluate x input (capacity_detector_descriptor digest) capacity_descriptor Capacity)"

definition inodes_evaluate ::
  "'x filesystem_externals_scheme \<Rightarrow> DetectorInput \<Rightarrow> DetectorResult option" where
  "inodes_evaluate x input =
     (case descriptor_digest x inodes_descriptor of
        Err _ \<Rightarrow> None
      | Ok digest \<Rightarrow>
          filesystem_evaluate x input (inodes_detector_descriptor digest) inodes_descriptor Inodes)"

section \<open>The laws on numbers\<close>

lemma u64_less: "unat (w :: u64) < 2 ^ 64"
  using unsigned_less [of w, where 'a = nat] by simp

lemma u32_less: "unat (w :: u32) < 2 ^ 32"
  using unsigned_less [of w, where 'a = nat] by simp

lemma unat_ucast_u128 [simp]: "unat (ucast (w :: u64) :: u128) = unat w"
  using u64_less [of w] by (simp add: unsigned_ucast_eq take_bit_nat_eq_self_iff)

lemma unat_ucast_u32_u128 [simp]: "unat (ucast (w :: u32) :: u128) = unat w"
  using u32_less [of w] by (simp add: unsigned_ucast_eq take_bit_nat_eq_self_iff)

lemma unat_times_u128:
  "unat (a :: u128) * unat (b :: u128) < 2 ^ 128 \<Longrightarrow> unat (a * b) = unat a * unat b"
  by (simp add: unat_word_ariths)

lemma unat_plus_u128:
  "unat (a :: u128) + unat (b :: u128) < 2 ^ 128 \<Longrightarrow> unat (a + b) = unat a + unat b"
  by (simp add: unat_word_ariths)

lemma ratio_compare:
  assumes "unat (used :: u128) < 2 ^ 64" "unat (whole :: u128) < 2 ^ 65" "unat t < 2 ^ 32"
  shows "t * whole \<le> 1000 * used \<longleftrightarrow> unat t * unat whole \<le> 1000 * unat used"
proof -
  have "unat t * unat whole < 2 ^ 32 * 2 ^ 65"
    using assms(2,3) by (intro mult_strict_mono) auto
  then have "unat (t * whole) = unat t * unat whole"
    by (intro unat_times_u128) simp
  moreover have "unat (1000 * used) = 1000 * unat used"
    using assms(1) unat_times_u128 [of 1000 used] by simp
  ultimately show ?thesis by (simp add: word_le_nat_alt)
qed

lemma capacity_pressure_state_exact:
  "capacity_pressure_state p t =
     (let used = unat (fsp_blocks_total p) - unat (fsp_blocks_free p);
          usable = used + unat (fsp_blocks_available p)
      in if usable = 0 then None
         else Some (if unat t * usable \<le> 1000 * used then DetectorState.Present
                    else DetectorState.ExplicitlyAbsent))"
proof -
  let ?used = "ucast (saturating_sub (fsp_blocks_total p) (fsp_blocks_free p)) :: u128"
  let ?usable = "?used + ucast (fsp_blocks_available p)"
  have used: "unat ?used = unat (fsp_blocks_total p) - unat (fsp_blocks_free p)"
    by (simp add: unat_saturating_sub)
  have small: "unat ?used < 2 ^ 64" using used u64_less [of "fsp_blocks_total p"] by linarith
  have usable: "unat ?usable = unat ?used + unat (fsp_blocks_available p)"
    using unat_plus_u128 [of ?used "ucast (fsp_blocks_available p)"] small
      u64_less [of "fsp_blocks_available p"] by simp
  have "ucast t * ?usable \<le> 1000 * ?used \<longleftrightarrow> unat t * unat ?usable \<le> 1000 * unat ?used"
    using ratio_compare [of ?used ?usable "ucast t"] small usable u32_less [of t]
      u64_less [of "fsp_blocks_available p"] by simp
  moreover have "?usable = 0 \<longleftrightarrow> unat ?usable = 0" by (simp add: unat_eq_0)
  ultimately show ?thesis
    by (simp only: capacity_pressure_state_def Let_def usable used)
qed

lemma inode_pressure_state_exact:
  assumes "fsp_inodes_free p \<le> fsp_inodes_total p"
  shows "inode_pressure_state p t =
     (let total = unat (fsp_inodes_total p)
      in if total = 0 then None
         else Some (if unat t * total \<le> 1000 * (total - unat (fsp_inodes_free p)) then DetectorState.Present
                    else DetectorState.ExplicitlyAbsent))"
proof -
  let ?total = "ucast (fsp_inodes_total p) :: u128"
  let ?used = "?total - ucast (fsp_inodes_free p)"
  have used: "unat ?used = unat (fsp_inodes_total p) - unat (fsp_inodes_free p)"
    using assms by (simp add: unat_sub word_le_nat_alt)
  have "ucast t * ?total \<le> 1000 * ?used \<longleftrightarrow> unat t * unat ?total \<le> 1000 * unat ?used"
    using ratio_compare [of ?used ?total "ucast t"] used u32_less [of t]
      u64_less [of "fsp_inodes_total p"] by simp
  moreover have "?total = 0 \<longleftrightarrow> unat ?total = 0" by (metis unat_eq_0)
  ultimately show ?thesis
    by (simp only: inode_pressure_state_def Let_def used unat_ucast_u128)
qed

section \<open>The detectors keep the detector contract\<close>

lemma filesystem_newest_current_report_Ok:
  assumes "reliance_seconds (pd_freshness pd) = 300"
  shows "filesystem_newest_current_report input d pd = Ok occ \<longleftrightarrow>
     newest_report input = Some occ \<and> reliable d FILESYSTEM_COVERAGE_KIND 300000000000 input occ"
proof -
  have "duration_seconds (reliance_seconds (pd_freshness pd)) = 300000000000"
    by (simp add: assms duration_seconds_def)
  then show ?thesis
    by (auto simp: filesystem_newest_current_report_def reliable_def newest_report_Some Let_def not_less
        split: option.splits)
qed

lemma filesystem_newest_current_report_Err:
  "filesystem_newest_current_report input d pd = Err res \<Longrightarrow>
     refused_result d input res \<and> res_watermark res = di_watermark input"
  by (auto simp: filesystem_newest_current_report_def refused_result_def
      cannot_evaluate_with_details_def Let_def split: option.splits if_splits)

text \<open>The report a decision rests on and the payload of its first snapshot.\<close>

definition filesystem_grounds ::
  "'x filesystem_externals_scheme \<Rightarrow> DetectorDescriptor \<Rightarrow> DetectorInput \<Rightarrow> DetectorReport \<Rightarrow>
   AdmittedObservation \<Rightarrow> FilesystemSnapshotPayload \<Rightarrow> bool" where
  "filesystem_grounds x d input occ ob payload \<longleftrightarrow>
     newest_report input = Some occ \<and> reliable d FILESYSTEM_COVERAGE_KIND 300000000000 input occ \<and>
     find (\<lambda>ob. ao_kind ob = FILESYSTEM_OBSERVATION_KIND) (vr_observations (dr_report occ)) = Some ob \<and>
     filesystem_payload_from_value x (ao_payload ob) = Ok payload"

lemma filesystem_grounds_unique:
  "filesystem_grounds x d input occ ob p \<Longrightarrow> filesystem_grounds x d input occ' ob' p' \<Longrightarrow>
     occ' = occ \<and> ob' = ob \<and> p' = p"
  by (auto simp: filesystem_grounds_def)

lemma filesystem_law_decides: "fst (filesystem_law law p t) \<noteq> Some DetectorState.CannotEvaluate"
  by (cases law) (auto simp: capacity_pressure_state_def inode_pressure_state_def Let_def)

lemma filesystem_evaluate_cases:
  assumes "reliance_seconds (pd_freshness pd) = 300" "filesystem_threshold (dd_parameters d) = Some t"
  obtains (refused) res where "filesystem_evaluate x input d pd law = Some res"
      "refused_result d input res" "res_watermark res = di_watermark input"
      "\<And>occ ob p. filesystem_grounds x d input occ ob p \<Longrightarrow> fst (filesystem_law law p t) = None"
  | (decided) res occ ob p state where "filesystem_evaluate x input d pd law = Some res"
      "filesystem_grounds x d input occ ob p" "fst (filesystem_law law p t) = Some state"
      "res_state res = state" "res_refusal res = None" "res_watermark res = di_watermark input"
      "cites occ FILESYSTEM_OBSERVATION_KIND res"
proof (cases "\<exists>occ ob p state. filesystem_grounds x d input occ ob p \<and>
    fst (filesystem_law law p t) = Some state")
  case True
  then obtain occ ob p state where g: "filesystem_grounds x d input occ ob p"
    and s: "fst (filesystem_law law p t) = Some state" by blast
  have ob: "ob \<in> set (vr_observations (dr_report occ))" "ao_kind ob = FILESYSTEM_OBSERVATION_KIND"
    using g by (auto simp: filesystem_grounds_def find_Some_iff)
  have "filesystem_newest_current_report input d pd = Ok occ"
    using g by (simp add: filesystem_newest_current_report_Ok [OF assms(1)] filesystem_grounds_def)
  then have "\<exists>res. filesystem_evaluate x input d pd law = Some res \<and> res_state res = state \<and>
      res_refusal res = None \<and> res_watermark res = di_watermark input \<and>
      cites occ FILESYSTEM_OBSERVATION_KIND res"
    using g s ob assms(2)
    by (auto simp: filesystem_grounds_def filesystem_evaluate_def Let_def cites_def
        split: prod.split option.split)
  then show ?thesis using decided [OF _ g s] by blast
next
  case False
  have grounds: "filesystem_newest_current_report input d pd = Ok occ \<Longrightarrow>
      find (\<lambda>ob. ao_kind ob = FILESYSTEM_OBSERVATION_KIND) (vr_observations (dr_report occ)) = Some ob \<Longrightarrow>
      filesystem_payload_from_value x (ao_payload ob) = Ok p \<Longrightarrow> fst (filesystem_law law p t) = None"
    for occ ob p
    using False by (auto simp: filesystem_newest_current_report_Ok [OF assms(1)] filesystem_grounds_def)
  have "\<exists>res. filesystem_evaluate x input d pd law = Some res \<and> refused_result d input res \<and>
      res_watermark res = di_watermark input"
    using grounds filesystem_newest_current_report_Err [of input d pd] assms(2)
    by (fastforce simp: filesystem_evaluate_def Let_def refused_result_def
        cannot_evaluate_with_details_def split: result.splits option.splits prod.splits)
  then show ?thesis using refused False by (metis not_None_eq)
qed

lemma filesystem_detector_contract:
  assumes "reliance_seconds (pd_freshness pd) = 300" "filesystem_threshold (dd_parameters d) = Some t"
  shows "governed_detector (\<lambda>input. filesystem_evaluate x input d pd law) d
    FILESYSTEM_COVERAGE_KIND FILESYSTEM_OBSERVATION_KIND 300000000000"
proof
  fix input
  show "\<exists>res. filesystem_evaluate x input d pd law = Some res"
    by (cases rule: filesystem_evaluate_cases [OF assms, of x input law]) auto
next
  fix input res
  assume res: "filesystem_evaluate x input d pd law = Some res"
  show "res_state res \<noteq> DetectorState.CannotEvaluate \<Longrightarrow>
      \<exists>occ. reliable d FILESYSTEM_COVERAGE_KIND 300000000000 input occ \<and>
        cites occ FILESYSTEM_OBSERVATION_KIND res \<and> res_refusal res = None"
    by (cases rule: filesystem_evaluate_cases [OF assms, of x input law])
       (use res in \<open>auto simp: refused_result_def filesystem_grounds_def\<close>)
  show "res_state res = DetectorState.CannotEvaluate \<Longrightarrow> refused_result d input res"
    by (cases rule: filesystem_evaluate_cases [OF assms, of x input law])
       (use res in \<open>auto simp: filesystem_law_decides\<close>)
  show "res_watermark res = di_watermark input"
    by (cases rule: filesystem_evaluate_cases [OF assms, of x input law]) (use res in auto)
qed

lemma filesystem_parameters:
  "reliance_seconds (pd_freshness capacity_descriptor) = 300"
  "reliance_seconds (pd_freshness inodes_descriptor) = 300"
  "filesystem_threshold (dd_parameters (capacity_detector_descriptor digest)) = Some 900"
  "filesystem_threshold (dd_parameters (inodes_detector_descriptor digest)) = Some 900"
  by (simp_all add: capacity_descriptor_def inodes_descriptor_def filesystem_descriptor_def
      capacity_detector_descriptor_def inodes_detector_descriptor_def filesystem_threshold_def
      USED_THRESHOLD_PERMILLE_def)

interpretation cap: governed_detector
  "\<lambda>input. filesystem_evaluate x input (capacity_detector_descriptor digest) capacity_descriptor Capacity"
  "capacity_detector_descriptor digest" FILESYSTEM_COVERAGE_KIND FILESYSTEM_OBSERVATION_KIND 300000000000
  for x :: "'x filesystem_externals_scheme" and digest
  by (rule filesystem_detector_contract [OF filesystem_parameters(1,3)])

interpretation ino: governed_detector
  "\<lambda>input. filesystem_evaluate x input (inodes_detector_descriptor digest) inodes_descriptor Inodes"
  "inodes_detector_descriptor digest" FILESYSTEM_COVERAGE_KIND FILESYSTEM_OBSERVATION_KIND 300000000000
  for x :: "'x filesystem_externals_scheme" and digest
  by (rule filesystem_detector_contract [OF filesystem_parameters(2,4)])

section \<open>The modules are behind the gate\<close>

lemma filesystem_validate_report_Ok:
  "filesystem_validate_report x d c r = Ok v \<longleftrightarrow>
     filesystem_validate_binding x c d = Ok () \<and> validate_common x d c r = Ok v \<and>
     (vr_status v = SemanticReportStatus.Failed \<or>
      (\<exists>ob. vr_observations v = [ob] \<and> filesystem_validate_snapshot x d c v ob = Ok ()))"
proof (cases "validate_common x d c r")
  case (Ok v')
  then show ?thesis
    by (cases "vr_status v' = SemanticReportStatus.Failed")
       (auto simp: filesystem_validate_report_def and_then_Ok exactly_one_Ok)
qed (simp add: filesystem_validate_report_def and_then_Ok)

lemma filesystem_validate_report_refuses: "refuses_for c d (filesystem_validate_report x d c r)"
  by (simp add: filesystem_validate_report_def filesystem_validate_binding_def
      filesystem_validate_snapshot_def filesystem_inconsistent_def filesystem_invalid_payload_def Let_def
      refusals split: list.split)

interpretation filesystem_gate: profile_gate x descriptor "filesystem_validate_report x descriptor"
  for x :: "'x filesystem_externals_scheme" and descriptor
  by unfold_locales (auto simp: filesystem_validate_report_Ok filesystem_validate_report_refuses)

text \<open>The consistency of an admitted snapshot, on numbers instead of machine words.\<close>

definition filesystem_counters_law :: "FilesystemSnapshotPayload \<Rightarrow> bool" where
  "filesystem_counters_law p \<longleftrightarrow>
     (\<forall>n \<in> set [fsp_mount_id p, fsp_fragment_size p, fsp_blocks_total p, fsp_blocks_free p,
        fsp_blocks_available p, fsp_inodes_total p, fsp_inodes_free p]. unat n < 2 ^ 53) \<and>
     0 < unat (fsp_fragment_size p) \<and>
     unat (fsp_blocks_available p) \<le> unat (fsp_blocks_free p) \<and>
     unat (fsp_blocks_free p) \<le> unat (fsp_blocks_total p) \<and>
     unat (fsp_inodes_free p) \<le> unat (fsp_inodes_total p)"

definition filesystem_identity_law :: "FilesystemSnapshotPayload \<Rightarrow> HostFilesystemScope \<Rightarrow> bool" where
  "filesystem_identity_law p s \<longleftrightarrow>
     fsp_machine_id p = hfs_machine_id s \<and> fsp_filesystem_uuid p = hfs_filesystem_uuid s \<and>
     fsp_filesystem_type p = hfs_filesystem_type s \<and> fsp_mountpoint p = hfs_mountpoint s \<and>
     ext4_fsid_hex (hfs_filesystem_uuid s) = Some (fsp_fsid_hex p)"

lemma filesystem_validate_payload_Ok [checks]:
  "filesystem_validate_payload_against_scope p s = Ok u \<longleftrightarrow>
     filesystem_identity_law p s \<and> filesystem_counters_law p"
proof -
  have safe: "n \<le> FILESYSTEM_MAX_SAFE_COUNTER \<longleftrightarrow> unat n < 2 ^ 53" for n
    by (simp add: FILESYSTEM_MAX_SAFE_COUNTER_def word_le_nat_alt less_eq_Suc_le)
  have positive: "0 < unat n \<longleftrightarrow> n \<noteq> 0" for n :: u64 by (simp add: unat_eq_0 flip: neq0_conv)
  show ?thesis
    by (simp add: filesystem_validate_payload_against_scope_def filesystem_identity_law_def
        filesystem_counters_law_def not_less safe positive conj_assoc cong: conj_cong, simp add: word_le_nat_alt) blast
qed

lemma filesystem_scope_Ok [checks]:
  "filesystem_validate_scope_value x v subject = Ok s \<longleftrightarrow>
     filesystem_scope_from_value x v = Ok s \<and> hfs_schema s = ''nq.host_filesystem_scope.v1'' \<and>
     filesystem_is_lower_hex (hfs_machine_id s) 32 \<and> is_canonical_uuid (hfs_filesystem_uuid s) \<and>
     hfs_filesystem_type s = ''ext4'' \<and> \<not> mountpoint_refused (hfs_mountpoint s) \<and>
     subject = filesystem_subject_for (hfs_machine_id s) (hfs_filesystem_uuid s)"
  by (auto simp: filesystem_validate_scope_value_def and_then_Ok FILESYSTEM_SCOPE_SCHEMA_def)

lemma filesystem_snapshot_Ok:
  assumes "filesystem_validate_snapshot x d c v ob = Ok ()"
  obtains payload scope where "filesystem_payload_from_value x (ao_payload ob) = Ok payload"
    "filesystem_validate_scope_value x (sg_value (ctx_scope c)) (ctx_request_subject c) = Ok scope"
    "filesystem_identity_law payload scope" "filesystem_counters_law payload"
proof -
  from assms obtain payload where p: "filesystem_payload_from_value x (ao_payload ob) = Ok payload"
    and rest: "and_then
        (map_err (filesystem_invalid_payload c d)
           (filesystem_validate_scope_value x (sg_value (ctx_scope c)) (ctx_request_subject c)))
        (\<lambda>scope. map_err (filesystem_invalid_payload c d)
           (filesystem_validate_payload_against_scope payload scope)) = Ok ()"
    by (simp only: filesystem_validate_snapshot_def and_then_Ok Let_def run_checks_Cons_Ok map_err_Ok) blast
  from rest obtain scope where "filesystem_validate_scope_value x (sg_value (ctx_scope c))
      (ctx_request_subject c) = Ok scope" "filesystem_identity_law payload scope"
      "filesystem_counters_law payload"
    by (auto simp only: and_then_Ok map_err_Ok filesystem_validate_payload_Ok)
  with p show thesis by (intro that)
qed

text \<open>
  The grounds of a decision on an admitted, newest and fresh report: what the gate, the scope
  and the payload checks established of it.
\<close>

lemma admitted_filesystem_grounds:
  assumes "filesystem_validate_report x pd c r = Ok v" "vr_status v = SemanticReportStatus.Complete"
    and pd: "pd = filesystem_descriptor i title word"
    and d: "dd_profile d = pd_profile pd" "dd_profile_digest d = vr_profile_digest v"
    and "newest_report input = Some occ" "dr_report occ = v"
    and "di_evaluated_at input - vr_observed_at v \<in> {0..300000000000}"
  obtains ob payload scope where "vr_observations v = [ob]"
    "filesystem_grounds x d input occ ob payload" "filesystem_counters_law payload"
    "filesystem_identity_law payload scope"
    "ctx_request_subject c = filesystem_subject_for (hfs_machine_id scope) (hfs_filesystem_uuid scope)"
proof -
  obtain ob where ob: "vr_observations v = [ob]" "filesystem_validate_snapshot x pd c v ob = Ok ()"
    using assms(1,2) by (auto simp: filesystem_validate_report_Ok)
  from ob(2) obtain payload scope
    where p: "filesystem_payload_from_value x (ao_payload ob) = Ok payload"
      "filesystem_validate_scope_value x (sg_value (ctx_scope c)) (ctx_request_subject c) = Ok scope"
      "filesystem_identity_law payload scope" "filesystem_counters_law payload"
    by (rule filesystem_snapshot_Ok)
  have "ao_kind ob = FILESYSTEM_OBSERVATION_KIND"
    using filesystem_gate.admitted_observations(1) [OF assms(1), of ob] ob(1)
    by (simp add: pd filesystem_descriptor_def VocabularyTerm_new_def)
  moreover have "bt_get (vr_coverage v) FILESYSTEM_COVERAGE_KIND = Some SemanticCoverageState.Complete"
    by (rule filesystem_gate.admitted_coverage [OF assms(1,2)])
      (simp add: pd filesystem_descriptor_def VocabularyTerm_new_def)
  ultimately have "filesystem_grounds x d input occ ob payload"
    using assms ob(1) p(1) filesystem_gate.admitted_identity(2) [OF assms(1)]
    by (simp add: filesystem_grounds_def reliable_def newest_report_Some)
  then show thesis using that ob(1) p by (auto simp: filesystem_scope_Ok)
qed

lemma filesystem_state_on_grounds:
  assumes "reliance_seconds (pd_freshness pd) = 300" "filesystem_threshold (dd_parameters d) = Some t"
    and "filesystem_grounds x d input occ ob p"
  shows "\<exists>res. filesystem_evaluate x input d pd law = Some res \<and>
    res_state res = (case fst (filesystem_law law p t) of None \<Rightarrow> DetectorState.CannotEvaluate | Some s \<Rightarrow> s)"
proof (cases rule: filesystem_evaluate_cases [OF assms(1,2), of x input law, case_names refused decided])
  case (refused res)
  then show ?thesis using refused(4) [OF assms(3)] by (simp add: refused_result_def)
next
  case (decided res occ' ob' p' st)
  then show ?thesis using filesystem_grounds_unique [OF assms(3) decided(2)] by simp
qed

section \<open>Properties of the filesystem profiles\<close>

text \<open>
  C4. The capacity law is exact: for every combination of counters and every threshold the
  128-bit arithmetic neither wraps nor loses precision, so that the decision is the comparison of the
  used share with the threshold over the natural numbers, and it is left open exactly when the
  filesystem has no usable block.
\<close>

theorem capacity_law_is_exact:
  "capacity_pressure_state p t =
     (let used = unat (fsp_blocks_total p) - unat (fsp_blocks_free p);
          usable = used + unat (fsp_blocks_available p)
      in if usable = 0 then None
         else Some (if unat t * usable \<le> 1000 * used then DetectorState.Present
                    else DetectorState.ExplicitlyAbsent))"
  by (rule capacity_pressure_state_exact)

text \<open>
  A complete capacity report that the module admitted and that is the newest of its instance and
  fresh is decided by its own counters: the condition is present exactly when the available
  blocks are at most a tenth of the usable ones, which is what the summary of the detector says.
\<close>

lemma admitted_capacity_report_is_decided:
  assumes "capacity_validate x c r = Ok v" "vr_status v = SemanticReportStatus.Complete"
    and "newest_report input = Some occ" "dr_report occ = v"
    and "di_evaluated_at input - vr_observed_at v \<in> {0..300000000000}"
  shows "\<exists>p res. filesystem_payload_from_value x (ao_payload (hd (vr_observations v))) = Ok p \<and>
    filesystem_counters_law p \<and> capacity_evaluate x input = Some res \<and>
    (let available = unat (fsp_blocks_available p);
         usable = unat (fsp_blocks_total p) - unat (fsp_blocks_free p) + available
     in res_state res =
          (if usable = 0 then DetectorState.CannotEvaluate
           else if 10 * available \<le> usable then DetectorState.Present
           else DetectorState.ExplicitlyAbsent))"
proof -
  let ?d = "capacity_detector_descriptor (vr_profile_digest v)"
  obtain ob p scope where ob: "vr_observations v = [ob]"
    and g: "filesystem_grounds x ?d input occ ob p" and law: "filesystem_counters_law p"
    by (rule admitted_filesystem_grounds [of x capacity_descriptor c r v _ _ _ ?d input occ])
      (use assms in \<open>auto simp: capacity_validate_def capacity_descriptor_def capacity_detector_descriptor_def\<close>)
  from filesystem_state_on_grounds [OF filesystem_parameters(1,3) g, of Capacity]
  obtain res where res: "capacity_evaluate x input = Some res"
    "res_state res = (case capacity_pressure_state p 900 of None \<Rightarrow> DetectorState.CannotEvaluate | Some s \<Rightarrow> s)"
    using filesystem_gate.admitted_identity(3) [OF assms(1) [unfolded capacity_validate_def]]
    by (auto simp: capacity_evaluate_def)
  have "filesystem_payload_from_value x (ao_payload ob) = Ok p"
    using g by (simp add: filesystem_grounds_def)
  with res law ob show ?thesis
    by (auto simp: capacity_pressure_state_exact Let_def)
qed

text \<open>
  The same for inodes: the subtraction of the law never wraps on an admitted payload, and the
  condition is present exactly when the free inodes are at most a tenth of all of them.
\<close>

theorem admitted_inode_report_is_decided:
  assumes "inodes_validate x c r = Ok v" "vr_status v = SemanticReportStatus.Complete"
    and "newest_report input = Some occ" "dr_report occ = v"
    and "di_evaluated_at input - vr_observed_at v \<in> {0..300000000000}"
  shows "\<exists>p res. filesystem_payload_from_value x (ao_payload (hd (vr_observations v))) = Ok p \<and>
    filesystem_counters_law p \<and> inodes_evaluate x input = Some res \<and>
    (let free = unat (fsp_inodes_free p); total = unat (fsp_inodes_total p)
     in res_state res =
          (if total = 0 then DetectorState.CannotEvaluate
           else if 10 * free \<le> total then DetectorState.Present
           else DetectorState.ExplicitlyAbsent))"
proof -
  let ?d = "inodes_detector_descriptor (vr_profile_digest v)"
  obtain ob p scope where ob: "vr_observations v = [ob]"
    and g: "filesystem_grounds x ?d input occ ob p" and law: "filesystem_counters_law p"
    by (rule admitted_filesystem_grounds [of x inodes_descriptor c r v _ _ _ ?d input occ])
      (use assms in \<open>auto simp: inodes_validate_def inodes_descriptor_def inodes_detector_descriptor_def\<close>)
  from filesystem_state_on_grounds [OF filesystem_parameters(2,4) g, of Inodes]
  obtain res where res: "inodes_evaluate x input = Some res"
    "res_state res = (case inode_pressure_state p 900 of None \<Rightarrow> DetectorState.CannotEvaluate | Some s \<Rightarrow> s)"
    using filesystem_gate.admitted_identity(3) [OF assms(1) [unfolded inodes_validate_def]]
    by (auto simp: inodes_evaluate_def)
  have "filesystem_payload_from_value x (ao_payload ob) = Ok p"
    using g by (simp add: filesystem_grounds_def)
  moreover have "unat (fsp_inodes_free p) \<le> unat (fsp_inodes_total p)"
    using law by (simp add: filesystem_counters_law_def)
  ultimately show ?thesis
    using res law ob by (auto simp: inode_pressure_state_exact word_le_nat_alt Let_def)
qed

text \<open>
  Stale testimony establishes neither presence nor absence of filesystem pressure: when every
  report of the instance is from the future or more than five minutes old, both detectors refuse
  with no evidence, in the name of the instance.
\<close>

theorem stale_filesystem_testimony_refused:
  assumes "\<forall>s \<in> set (di_reports input). vr_instance_id (dr_report s) = di_instance_id input \<longrightarrow>
      di_evaluated_at input - vr_observed_at (dr_report s) \<notin> {0..300000000000}"
  shows "(\<exists>res. filesystem_evaluate x input (capacity_detector_descriptor digest) capacity_descriptor
             Capacity = Some res \<and> refused_result (capacity_detector_descriptor digest) input res) \<and>
    (\<exists>res. filesystem_evaluate x input (inodes_detector_descriptor digest) inodes_descriptor
             Inodes = Some res \<and> refused_result (inodes_detector_descriptor digest) input res)"
  using cap.stale_testimony_refused [OF assms] ino.stale_testimony_refused [OF assms] by blast

section \<open>Identity of a filesystem\<close>

lemma split_on_nonempty [simp]: "split_on d s \<noteq> []"
  by (induction s) (auto split: list.splits)

lemma split_on_Cons:
  "split_on d s = p # q # ps \<Longrightarrow> d \<notin> set p \<and> (\<exists>r. s = p @ d # r \<and> split_on d r = q # ps)"
proof (induction s arbitrary: p)
  case (Cons c s)
  show ?case
  proof (cases "c = d")
    case False
    then obtain w where "p = c # w" "split_on d s = w # q # ps"
      using Cons.prems by (auto split: list.splits)
    with Cons.IH [of w] False show ?thesis by auto
  qed (use Cons.prems in auto)
qed simp

lemma split_on_single: "split_on d s = [p] \<Longrightarrow> s = p \<and> d \<notin> set p"
  by (induction s arbitrary: p) (auto split: list.splits if_splits)

text \<open>
  The text form of a filesystem identity: a text is a canonical UUID exactly when it is five
  groups of 8, 4, 4, 4 and 12 lowercase hexadecimal digits joined by hyphens, and the
  filesystem id derived from it is defined exactly for these and is 16 lowercase hexadecimal digits.
\<close>

theorem canonical_uuid_form:
  "(is_canonical_uuid u \<longleftrightarrow>
      (\<exists>a b c d e. u = a @ ''-'' @ b @ ''-'' @ c @ ''-'' @ d @ ''-'' @ e \<and>
         filesystem_is_lower_hex a 8 \<and> filesystem_is_lower_hex b 4 \<and> filesystem_is_lower_hex c 4 \<and>
         filesystem_is_lower_hex d 4 \<and> filesystem_is_lower_hex e 12)) \<and>
   (case ext4_fsid_hex u of
      None \<Rightarrow> \<not> is_canonical_uuid u
    | Some fsid \<Rightarrow> is_canonical_uuid u \<and> filesystem_is_lower_hex fsid 16)"
proof
  have hex: "filesystem_is_lower_hex w n \<Longrightarrow> CHR ''-'' \<notin> set w" for w n
    by (auto simp: filesystem_is_lower_hex_def list_all_iff is_lower_hex_digit_def is_ascii_digit_def)
  show "is_canonical_uuid u \<longleftrightarrow>
      (\<exists>a b c d e. u = a @ ''-'' @ b @ ''-'' @ c @ ''-'' @ d @ ''-'' @ e \<and>
         filesystem_is_lower_hex a 8 \<and> filesystem_is_lower_hex b 4 \<and> filesystem_is_lower_hex c 4 \<and>
         filesystem_is_lower_hex d 4 \<and> filesystem_is_lower_hex e 12)" (is "?L \<longleftrightarrow> ?R")
  proof
    assume ?L
    then obtain a b c d e where parts: "split_on (CHR ''-'') u = [a, b, c, d, e]"
      and "filesystem_is_lower_hex a 8" "filesystem_is_lower_hex b 4" "filesystem_is_lower_hex c 4"
        "filesystem_is_lower_hex d 4" "filesystem_is_lower_hex e 12"
      by (auto simp: is_canonical_uuid_def Let_def numeral_eq_Suc length_Suc_conv)
    moreover have "u = a @ ''-'' @ b @ ''-'' @ c @ ''-'' @ d @ ''-'' @ e"
      using split_on_Cons [OF parts] by (auto dest!: split_on_Cons split_on_single)
    ultimately show ?R by blast
  next
    assume ?R
    then show ?L by (auto simp: is_canonical_uuid_def split_on_append split_on_none hex)
  qed
  have digit: "d < 16 \<Longrightarrow> is_lower_hex_digit (hex_digit_char d)" for d
    by (auto simp: hex_digit_char_def is_lower_hex_digit_def is_ascii_digit_def)
  show "case ext4_fsid_hex u of None \<Rightarrow> \<not> is_canonical_uuid u
      | Some fsid \<Rightarrow> is_canonical_uuid u \<and> filesystem_is_lower_hex fsid 16"
    by (auto simp: ext4_fsid_hex_def Let_def filesystem_is_lower_hex_def show_hex16_def list_all_iff digit)
qed

end
