(* ===== verification/Required_Graph.thy ===== *)
theory Required_Graph
  imports NQ_Prelude
begin

text \<open>
  The graph algorithms of \<open>nq-system-contract/src/coherence.rs\<close>: the closure of a component under
  required dependencies (\<open>required_closure\<close>) and the strongly connected components that
  \<open>inconsistent_required_cycle\<close> computes with an explicit work stack. An adjacency map takes a
  consumer to its providers in edge order; a missing key has no providers. Looking up a missing
  key with an index expression panics, which is \<open>None\<close> here and is shown not to happen. Stacks
  are lists with the top first.
\<close>

section \<open>Adjacency\<close>

type_synonym 'v adjacency = "('v, 'v list) btree_map"

definition neighbors :: "'v adjacency \<Rightarrow> 'v \<Rightarrow> 'v list" where
  "neighbors adj node = (case bt_get adj node of None \<Rightarrow> [] | Some providers \<Rightarrow> providers)"

definition graph_nodes :: "'v::linorder adjacency \<Rightarrow> 'v btree_set" where
  "graph_nodes adj = bs_from (concat (map (\<lambda>(consumer, providers). consumer # providers) adj))"

definition edge_relation :: "'v adjacency \<Rightarrow> ('v \<times> 'v) set" where
  "edge_relation adj = {(u, v). v \<in> set (neighbors adj u)}"

lemma edge_relation_iff [simp]: "(u, v) \<in> edge_relation adj \<longleftrightarrow> v \<in> set (neighbors adj u)"
  by (simp add: edge_relation_def)

abbreviation reach :: "'v adjacency \<Rightarrow> ('v \<times> 'v) set" where
  "reach adj \<equiv> (edge_relation adj)\<^sup>*"

lemma reach_edge: "v \<in> set (neighbors adj u) \<Longrightarrow> (v, w) \<in> reach adj \<Longrightarrow> (u, w) \<in> reach adj"
  by (rule converse_rtrancl_into_rtrancl [of u v]) simp_all

lemma neighbors_entry: "v \<in> set (neighbors adj u) \<Longrightarrow> (u, neighbors adj u) \<in> set adj"
  by (auto simp: neighbors_def split: option.splits dest: map_of_SomeD)

lemma set_graph_nodes: "set (graph_nodes adj) = (\<Union>(u, ps) \<in> set adj. insert u (set ps))"
  by (auto simp: graph_nodes_def)

lemma neighbor_in_nodes:
  assumes "v \<in> set (neighbors adj u)"
  shows "v \<in> set (graph_nodes adj)" "u \<in> set (graph_nodes adj)"
  using neighbors_entry [OF assms] assms unfolding set_graph_nodes by blast+

section \<open>Required closure\<close>

function closure_loop :: "'v::linorder adjacency \<Rightarrow> 'v list \<Rightarrow> 'v btree_set \<Rightarrow> 'v btree_set" where
  "closure_loop adj [] seen = seen"
| "closure_loop adj (node # stack) seen =
     (if node \<in> set seen then closure_loop adj stack seen
      else closure_loop adj (rev (neighbors adj node) @ stack) (bs_insert node seen))"
  by pat_completeness auto

definition closure_universe :: "'v::linorder adjacency \<Rightarrow> 'v list \<Rightarrow> 'v set" where
  "closure_universe adj stack = set (graph_nodes adj) \<union> set stack"

lemma closure_universe_push:
  "closure_universe adj (rev (neighbors adj node) @ stack) \<subseteq> closure_universe adj (node # stack)"
  by (auto simp: closure_universe_def dest: neighbor_in_nodes(1))

termination closure_loop
proof (relation "measures [\<lambda>(adj, stack, seen). card (closure_universe adj stack - set seen),
    \<lambda>(adj, stack, seen). length stack]", goal_cases)
  case (2 adj node stack seen)
  then have "closure_universe adj (node # stack) - set seen = closure_universe adj stack - set seen"
    by (auto simp: closure_universe_def)
  then show ?case by simp
next
  case (3 adj node stack seen)
  have "closure_universe adj (rev (neighbors adj node) @ stack) - set (bs_insert node seen)
      \<subset> closure_universe adj (node # stack) - set seen"
    using 3 closure_universe_push [of adj node stack] by (auto simp: closure_universe_def)
  then show ?case
    by (simp add: psubset_card_mono closure_universe_def)
qed simp

definition required_closure :: "'v::linorder \<Rightarrow> 'v adjacency \<Rightarrow> 'v btree_set" where
  "required_closure root adj = closure_loop adj [root] []"

section \<open>Strongly connected components\<close>

record 'v tarjan =
  index_counter :: usize
  indices :: "('v, usize) btree_map"
  lowlink :: "('v, usize) btree_map"
  on_stack :: "'v btree_set"
  stack :: "'v list"
  sccs :: "'v list list"

type_synonym 'v work = "('v \<times> usize) list"

definition tarjan_start :: "'v tarjan" where
  "tarjan_start = \<lparr> index_counter = 0, indices = [], lowlink = [], on_stack = [], stack = [], sccs = [] \<rparr>"

definition visit :: "'v::linorder \<Rightarrow> 'v tarjan \<Rightarrow> 'v tarjan" where
  "visit node st = st
     \<lparr> indices := bt_insert node (index_counter st) (indices st),
       lowlink := bt_insert node (index_counter st) (lowlink st),
       index_counter := index_counter st + 1,
       stack := node # stack st,
       on_stack := bs_insert node (on_stack st) \<rparr>"

fun pop_component :: "'v \<Rightarrow> 'v list \<Rightarrow> 'v btree_set \<Rightarrow> 'v list \<times> 'v list \<times> 'v btree_set" where
  "pop_component node [] on = ([], [], on)"
| "pop_component node (popped # rest) on =
     (let on' = filter (\<lambda>v. v \<noteq> popped) on
      in if popped = node then ([popped], rest, on')
         else let (component, rest', on'') = pop_component node rest on'
              in (popped # component, rest', on''))"

definition emit :: "'v \<Rightarrow> 'v tarjan \<Rightarrow> 'v tarjan" where
  "emit node st =
     (let (component, rest, on) = pop_component node (stack st) (on_stack st)
      in st \<lparr> stack := rest, on_stack := on, sccs := sccs st @ [component] \<rparr>)"

definition follow_edge ::
  "'v::linorder \<Rightarrow> 'v \<Rightarrow> usize \<Rightarrow> 'v work \<Rightarrow> 'v tarjan \<Rightarrow> ('v work \<times> 'v tarjan) option" where
  "follow_edge neighbor node next rest st =
     (let work = (node, next + 1) # rest
      in if bt_get (indices st) neighbor = None then Some ((neighbor, 0) # work, st)
         else if neighbor \<in> set (on_stack st) then
           (case (bt_get (indices st) neighbor, bt_get (lowlink st) node) of
              (Some candidate, Some current) \<Rightarrow>
                Some (work, st \<lparr> lowlink := bt_insert node (min current candidate) (lowlink st) \<rparr>)
            | _ \<Rightarrow> None)
         else Some (work, st))"

definition propagate :: "'v::linorder \<Rightarrow> 'v work \<Rightarrow> 'v tarjan \<Rightarrow> 'v tarjan option" where
  "propagate node rest st =
     (case rest of
        [] \<Rightarrow> Some st
      | (parent, _) # _ \<Rightarrow>
          (case (bt_get (lowlink st) node, bt_get (lowlink st) parent) of
             (Some child, Some parent_low) \<Rightarrow>
               Some (st \<lparr> lowlink := bt_insert parent (min parent_low child) (lowlink st) \<rparr>)
           | _ \<Rightarrow> None))"

definition finish_node ::
  "'v::linorder \<Rightarrow> 'v work \<Rightarrow> 'v tarjan \<Rightarrow> ('v work \<times> 'v tarjan) option" where
  "finish_node node rest st =
     (case propagate node rest st of
        None \<Rightarrow> None
      | Some st' \<Rightarrow>
          (case (bt_get (lowlink st') node, bt_get (indices st') node) of
             (Some low, Some index) \<Rightarrow> Some (rest, if low = index then emit node st' else st')
           | _ \<Rightarrow> None))"

definition tarjan_step ::
  "'v::linorder adjacency \<Rightarrow> 'v \<Rightarrow> usize \<Rightarrow> 'v work \<Rightarrow> 'v tarjan \<Rightarrow> ('v work \<times> 'v tarjan) option" where
  "tarjan_step adj node next rest st =
     (let st' = if next = 0 then visit node st else st;
          ns = neighbors adj node
      in if next < length ns then follow_edge (ns ! next) node next rest st'
         else finish_node node rest st')"

function tarjan_loop :: "'v::linorder adjacency \<Rightarrow> 'v work \<Rightarrow> 'v tarjan \<Rightarrow> 'v tarjan option" where
  "tarjan_loop adj [] st = Some st"
| "tarjan_loop adj ((node, next) # rest) st =
     (case tarjan_step adj node next rest st of
        None \<Rightarrow> None
      | Some (work', st') \<Rightarrow> tarjan_loop adj work' st')"
  by pat_completeness auto

text \<open>
  Each round indexes a new node, or uses up an edge of an indexed one, or drops an entry: the
  number of nodes without an index and then the edges left to the indexed entries decrease.
\<close>

abbreviation unindexed :: "'v::linorder adjacency \<Rightarrow> 'v work \<Rightarrow> 'v tarjan \<Rightarrow> 'v set" where
  "unindexed adj work st \<equiv> (set (graph_nodes adj) \<union> fst ` set work) - dom (bt_get (indices st))"

definition entry_weight :: "'v adjacency \<Rightarrow> ('v, usize) btree_map \<Rightarrow> 'v \<times> usize \<Rightarrow> nat" where
  "entry_weight adj ind = (\<lambda>(node, next).
     if next = 0 \<and> bt_get ind node = None then 0 else Suc (length (neighbors adj node) - next))"

definition work_weight :: "'v adjacency \<Rightarrow> 'v work \<Rightarrow> 'v tarjan \<Rightarrow> nat" where
  "work_weight adj work st = sum_list (map (entry_weight adj (indices st)) work)"

lemma emit_indices [simp]: "indices (emit node st) = indices st"
  by (simp add: emit_def split: prod.split)

lemma finish_node_shape:
  "finish_node node rest st = Some (work', st') \<Longrightarrow> work' = rest \<and> indices st' = indices st"
  by (auto simp: finish_node_def propagate_def split: option.splits list.splits prod.splits if_splits)

lemma follow_edge_shape:
  "follow_edge neighbor node next rest st = Some (work', st') \<Longrightarrow>
     indices st' = indices st \<and>
     (work' = (node, next + 1) # rest \<or>
      work' = (neighbor, 0) # (node, next + 1) # rest \<and> bt_get (indices st) neighbor = None)"
  by (auto simp: follow_edge_def Let_def split: option.splits if_splits)

lemma tarjan_step_shape:
  assumes "tarjan_step adj node next rest st = Some (work', st')"
  shows "dom (bt_get (indices st')) =
      (if next = 0 then insert node (dom (bt_get (indices st))) else dom (bt_get (indices st)))"
    and "fst ` set work' \<subseteq> set (graph_nodes adj) \<union> insert node (fst ` set rest)"
    and "work' = rest \<or> next < length (neighbors adj node) \<and>
      (work' = (node, next + 1) # rest \<or>
       (\<exists>m. work' = (m, 0) # (node, next + 1) # rest \<and> bt_get (indices st') m = None))"
proof -
  show "dom (bt_get (indices st')) =
      (if next = 0 then insert node (dom (bt_get (indices st))) else dom (bt_get (indices st)))"
    using assms by (auto simp: tarjan_step_def Let_def visit_def split: if_splits
        dest!: follow_edge_shape finish_node_shape)
  show *: "work' = rest \<or> next < length (neighbors adj node) \<and>
      (work' = (node, next + 1) # rest \<or>
       (\<exists>m. work' = (m, 0) # (node, next + 1) # rest \<and> bt_get (indices st') m = None))"
    using assms by (auto simp: tarjan_step_def Let_def split: if_splits
        dest!: follow_edge_shape finish_node_shape)
  show "fst ` set work' \<subseteq> set (graph_nodes adj) \<union> insert node (fst ` set rest)"
  proof (cases "next < length (neighbors adj node)")
    case True
    then have "neighbors adj node ! next \<in> set (graph_nodes adj)"
      using neighbor_in_nodes(1) nth_mem by metis
    with True assms show ?thesis
      by (force simp: tarjan_step_def Let_def dest!: follow_edge_shape)
  next
    case False
    with assms show ?thesis by (auto simp: tarjan_step_def Let_def dest!: finish_node_shape)
  qed
qed

lemma tarjan_step_decreases:
  assumes step: "tarjan_step adj node next rest st = Some (work', st')"
  shows "card (unindexed adj work' st') < card (unindexed adj ((node, next) # rest) st) \<or>
    card (unindexed adj work' st') = card (unindexed adj ((node, next) # rest) st) \<and>
    work_weight adj work' st' < work_weight adj ((node, next) # rest) st"
proof -
  let ?old = "unindexed adj ((node, next) # rest) st" and ?new = "unindexed adj work' st'"
  note shape = tarjan_step_shape [OF step]
  have sub: "?new \<subseteq> ?old" using shape(1,2) by (auto split: if_splits)
  show ?thesis
  proof (cases "?new = ?old")
    case False
    with sub have "?new \<subset> ?old" by blast
    then show ?thesis by (simp add: psubset_card_mono)
  next
    case True
    then have "next = 0 \<Longrightarrow> node \<in> dom (bt_get (indices st))"
      using shape(1) by fastforce
    with shape(1) have same: "dom (bt_get (indices st')) = dom (bt_get (indices st))"
      and indexed: "\<not> (next = 0 \<and> bt_get (indices st) node = None)"
      by (auto split: if_splits)
    have none: "bt_get (indices st') v = None \<longleftrightarrow> bt_get (indices st) v = None" for v
      using same by (metis domIff)
    then have "entry_weight adj (indices st') = entry_weight adj (indices st)"
      by (simp add: entry_weight_def fun_eq_iff)
    with shape(3) [unfolded none] indexed
    have "work_weight adj work' st' < work_weight adj ((node, next) # rest) st"
      by (auto simp: work_weight_def) (simp_all add: entry_weight_def)
    with True show ?thesis by simp
  qed
qed

termination tarjan_loop
proof (relation "measures [\<lambda>(adj, work, st). card (unindexed adj work st),
    \<lambda>(adj, work, st). work_weight adj work st]", goal_cases)
  case (2 adj node "next" rest st p work' st')
  then show ?case using tarjan_step_decreases [of adj node "next" rest st work' st'] by auto
qed simp

fun tarjan_all :: "'v::linorder adjacency \<Rightarrow> 'v list \<Rightarrow> 'v tarjan \<Rightarrow> 'v tarjan option" where
  "tarjan_all adj [] st = Some st"
| "tarjan_all adj (start # nodes) st =
     (if bt_get (indices st) start \<noteq> None then tarjan_all adj nodes st
      else case tarjan_loop adj [(start, 0)] st of
        None \<Rightarrow> None
      | Some st' \<Rightarrow> tarjan_all adj nodes st')"

definition required_sccs :: "'v::linorder adjacency \<Rightarrow> 'v list list option" where
  "required_sccs adj = map_option sccs (tarjan_all adj (graph_nodes adj) tarjan_start)"

section \<open>The closure is reachability\<close>

lemma closure_loop_sound:
  "set (closure_loop adj todo seen) \<subseteq> set seen \<union> (edge_relation adj)\<^sup>* `` set todo"
proof (induction adj todo seen rule: closure_loop.induct)
  case (2 adj node todo seen)
  have "(edge_relation adj)\<^sup>* `` set (rev (neighbors adj node) @ todo) \<subseteq>
      (edge_relation adj)\<^sup>* `` set (node # todo)"
    by (auto simp: Image_iff intro: reach_edge)
  with 2 show ?case by (cases "node \<in> set seen") (simp, blast)+
qed simp

lemma closure_loop_keeps: "set seen \<union> set todo \<subseteq> set (closure_loop adj todo seen)"
  by (induction adj todo seen rule: closure_loop.induct) auto

lemma closure_loop_closed:
  assumes "\<And>u v. u \<in> set seen \<Longrightarrow> v \<in> set (neighbors adj u) \<Longrightarrow> v \<in> set seen \<union> set todo"
    and "u \<in> set (closure_loop adj todo seen)" "v \<in> set (neighbors adj u)"
  shows "v \<in> set (closure_loop adj todo seen)"
  using assms
proof (induction adj todo seen rule: closure_loop.induct)
  case (2 adj node todo seen)
  show ?case
  proof (cases "node \<in> set seen")
    case True
    with 2(3-) show ?thesis using 2(1) [OF True] by (simp add: insert_absorb)
  next
    case False
    have "v \<in> set (bs_insert node seen) \<union> set (rev (neighbors adj node) @ todo)"
      if "u \<in> set (bs_insert node seen)" "v \<in> set (neighbors adj u)" for u v
      using that 2(3) [of u v] by auto
    from 2(2) [OF False this] False 2(4,5) show ?thesis by simp
  qed
qed simp

lemma required_closure_reachable:
  "set (required_closure root adj) = (edge_relation adj)\<^sup>* `` {root}"
proof
  show "set (required_closure root adj) \<subseteq> (edge_relation adj)\<^sup>* `` {root}"
    using closure_loop_sound [of adj "[root]" "[]"] by (simp add: required_closure_def)
  have "v \<in> set (required_closure root adj)" if "(root, v) \<in> (edge_relation adj)\<^sup>*" for v
    using that
  proof induction
    case base
    show ?case using closure_loop_keeps [of "[]" "[root]" adj] by (simp add: required_closure_def)
  next
    case (step u v)
    then show ?case
      using closure_loop_closed [of "[]" adj "[root]" u v] by (simp add: required_closure_def)
  qed
  then show "(edge_relation adj)\<^sup>* `` {root} \<subseteq> set (required_closure root adj)" by blast
qed

section \<open>What the search keeps\<close>

definition is_scc :: "('v \<times> 'v) set \<Rightarrow> 'v set \<Rightarrow> bool" where
  "is_scc R C \<longleftrightarrow> C \<noteq> {} \<and> (\<forall>u\<in>C. \<forall>v. v \<in> C \<longleftrightarrow> (u, v) \<in> R\<^sup>* \<and> (v, u) \<in> R\<^sup>*)"

abbreviation indexed :: "'v tarjan \<Rightarrow> 'v set" where
  "indexed st \<equiv> dom (bt_get (indices st))"

abbreviation idx :: "'v tarjan \<Rightarrow> 'v \<Rightarrow> usize" where
  "idx st v \<equiv> the (bt_get (indices st) v)"

abbreviation low :: "'v tarjan \<Rightarrow> 'v \<Rightarrow> usize" where
  "low st v \<equiv> the (bt_get (lowlink st) v)"

definition emitted :: "'v tarjan \<Rightarrow> 'v set" where
  "emitted st = \<Union> (set ` set (sccs st))"

text \<open>The edges of \<open>v\<close> to the nodes \<open>ws\<close> have been followed and are accounted for in its low link.\<close>

definition examined :: "'v tarjan \<Rightarrow> 'v \<Rightarrow> 'v list \<Rightarrow> bool" where
  "examined st v ws \<longleftrightarrow> (\<forall>w \<in> set ws. w \<in> indexed st \<and> (w \<in> set (stack st) \<longrightarrow> low st v \<le> idx st w))"

text \<open>
  The stack is cut into layers by the nodes of the work list. Above each of these lie finished
  nodes that it reaches, whose low links are at least its own and below their indices.
\<close>

fun layered :: "'v adjacency \<Rightarrow> 'v tarjan \<Rightarrow> 'v work \<Rightarrow> 'v list \<Rightarrow> bool" where
  "layered adj st [] stk \<longleftrightarrow> stk = []"
| "layered adj st ((p, k) # path) stk \<longleftrightarrow>
     (\<exists>upper rest. stk = upper @ p # rest \<and>
        (\<forall>v \<in> set upper. (p, v) \<in> reach adj \<and> low st p \<le> low st v \<and> low st v < idx st v \<and>
           examined st v (neighbors adj v)) \<and>
        k \<le> length (neighbors adj p) \<and> examined st p (take k (neighbors adj p)) \<and>
        (case path of [] \<Rightarrow> True | (q, j) # _ \<Rightarrow> p \<in> set (take j (neighbors adj q))) \<and>
        layered adj st path rest)"

definition ledger :: "'v tarjan \<Rightarrow> bool" where
  "ledger st \<longleftrightarrow>
     indexed st = set (stack st) \<union> emitted st \<and> set (stack st) \<inter> emitted st = {} \<and>
     dom (bt_get (lowlink st)) = indexed st \<and> set (on_stack st) = set (stack st) \<and>
     sorted_wrt (\<lambda>a b. idx st b < idx st a) (stack st) \<and>
     (\<forall>v \<in> set (stack st). idx st v < index_counter st)"

definition low_sound :: "'v adjacency \<Rightarrow> 'v tarjan \<Rightarrow> bool" where
  "low_sound adj st \<longleftrightarrow> (\<forall>v \<in> set (stack st).
     low st v \<le> idx st v \<and> (\<exists>w \<in> set (stack st). idx st w = low st v \<and> (v, w) \<in> reach adj))"

definition emitted_ok :: "'v adjacency \<Rightarrow> 'v tarjan \<Rightarrow> bool" where
  "emitted_ok adj st \<longleftrightarrow>
     (\<forall>v \<in> emitted st. set (neighbors adj v) \<subseteq> emitted st) \<and> 
     (\<forall>C \<in> set (sccs st). distinct C \<and> is_scc (edge_relation adj) (set C))"

definition search_inv :: "'v adjacency \<Rightarrow> 'v work \<Rightarrow> 'v tarjan \<Rightarrow> bool" where
  "search_inv adj path st \<longleftrightarrow>
     ledger st \<and> low_sound adj st \<and> emitted_ok adj st \<and> layered adj st path (stack st)"

text \<open>A layer keeps its shape as long as its own indices and low links are kept.\<close>

definition agrees :: "'v tarjan \<Rightarrow> 'v tarjan \<Rightarrow> bool" where
  "agrees st st' \<longleftrightarrow> (\<forall>w \<in> indexed st. w \<in> indexed st' \<and> idx st' w = idx st w \<and>
     (w \<in> set (stack st') \<longrightarrow> w \<in> set (stack st)))"

lemma examined_agrees:
  "examined st v ws \<Longrightarrow> agrees st st' \<Longrightarrow> low st' v \<le> low st v \<Longrightarrow> examined st' v ws"
  by (auto simp: examined_def agrees_def) (metis domI le_trans option.sel)+

lemma layered_agrees:
  "layered adj st path stk \<Longrightarrow> agrees st st' \<Longrightarrow> set stk \<subseteq> indexed st \<Longrightarrow>
   (\<And>v. v \<in> set stk \<Longrightarrow> low st' v = low st v) \<Longrightarrow> layered adj st' path stk"
proof (induction adj st path stk rule: layered.induct)
  case (2 adj st p k path stk)
  then obtain upper rest where stk: "stk = upper @ p # rest"
    and upper: "\<And>v. v \<in> set upper \<Longrightarrow> (p, v) \<in> reach adj \<and> low st p \<le> low st v \<and>
      low st v < idx st v \<and> examined st v (neighbors adj v)"
    and p: "k \<le> length (neighbors adj p)" "examined st p (take k (neighbors adj p))"
      "case path of [] \<Rightarrow> True | (q, j) # _ \<Rightarrow> p \<in> set (take j (neighbors adj q))"
    and rest: "layered adj st path rest"
    by auto
  have "layered adj st' path rest" using 2 rest stk by simp
  moreover have "examined st' v ws" if "examined st v ws" "v \<in> set stk" for v ws
    using examined_agrees [OF that(1) 2(3)] 2(5) [OF that(2)] by simp
  moreover have "idx st' v = idx st v" if "v \<in> set stk" for v
    using that 2(3,4) by (auto simp: agrees_def)
  ultimately have "\<forall>v \<in> set upper. (p, v) \<in> reach adj \<and> low st' p \<le> low st' v \<and>
      low st' v < idx st' v \<and> examined st' v (neighbors adj v)"
    and "examined st' p (take k (neighbors adj p))" "layered adj st' path rest"
    using upper p(2) 2(5) stk by simp_all
  with p stk show ?case by auto
qed simp

subsection \<open>Visiting a node\<close>

lemma visit_simps [simp]:
  "bt_get (indices (visit m st)) v = (if v = m then Some (index_counter st) else bt_get (indices st) v)"
  "bt_get (lowlink (visit m st)) v = (if v = m then Some (index_counter st) else bt_get (lowlink st) v)"
  "indexed (visit m st) = insert m (indexed st)"
  "dom (bt_get (lowlink (visit m st))) = insert m (dom (bt_get (lowlink st)))"
  "stack (visit m st) = m # stack st" "sccs (visit m st) = sccs st"
  "index_counter (visit m st) = Suc (index_counter st)"
  "on_stack (visit m st) = bs_insert m (on_stack st)" "emitted (visit m st) = emitted st"
  by (simp_all add: visit_def emitted_def)

lemma visit_agrees: "m \<notin> indexed st \<Longrightarrow> agrees st (visit m st)"
  by (auto simp: agrees_def)

lemma stack_indexed: "ledger st \<Longrightarrow> v \<in> set (stack st) \<Longrightarrow> v \<in> indexed st"
  by (auto simp: ledger_def)

lemma ledger_visit:
  assumes "ledger st" "m \<notin> indexed st"
  shows "ledger (visit m st)"
proof -
  have "v \<noteq> m" if "v \<in> set (stack st)" for v
    using stack_indexed [OF assms(1) that] assms(2) by auto
  moreover from this have "sorted_wrt (\<lambda>a b. idx (visit m st) b < idx (visit m st) a) (stack st)"
    using assms(1) by (auto simp: ledger_def elim!: sorted_wrt_mono_rel [rotated])
  ultimately show ?thesis
    using assms unfolding ledger_def by auto
qed

lemma low_sound_visit:
  assumes "ledger st" "low_sound adj st" "m \<notin> indexed st"
  shows "low_sound adj (visit m st)"
proof -
  have other: "v \<noteq> m" if "v \<in> set (stack st)" for v
    using stack_indexed [OF assms(1) that] assms(3) by auto
  show ?thesis
    unfolding low_sound_def
  proof
    fix v assume "v \<in> set (stack (visit m st))"
    then consider "v = m" | "v \<in> set (stack st)" by auto
    then show "low (visit m st) v \<le> idx (visit m st) v \<and>
        (\<exists>w \<in> set (stack (visit m st)). idx (visit m st) w = low (visit m st) v \<and> (v, w) \<in> reach adj)"
    proof cases
      case 2
      with assms(2) obtain w where "low st v \<le> idx st v" "w \<in> set (stack st)" "idx st w = low st v"
        "(v, w) \<in> reach adj"
        by (auto simp: low_sound_def)
      with other [OF 2] other [of w] show ?thesis by auto
    qed auto
  qed
qed

lemma emitted_ok_visit: "emitted_ok adj st \<Longrightarrow> emitted_ok adj (visit m st)"
  by (simp add: emitted_ok_def)

lemma layered_visit:
  assumes "ledger st" "m \<notin> indexed st" "layered adj st path (stack st)"
  shows "layered adj (visit m st) path (stack st)"
proof (rule layered_agrees [OF assms(3) visit_agrees [OF assms(2)]])
  show "low (visit m st) v = low st v" if "v \<in> set (stack st)" for v
    using stack_indexed [OF assms(1) that] assms(2) by auto
  show "set (stack st) \<subseteq> indexed st" using assms(1) by (simp add: ledger_def)
qed

lemma layered_top:
  "layered adj st path stk \<Longrightarrow> k \<le> length (neighbors adj p) \<Longrightarrow>
   examined st p (take k (neighbors adj p)) \<Longrightarrow>
   (case path of [] \<Rightarrow> True | (q, j) # _ \<Rightarrow> p \<in> set (take j (neighbors adj q))) \<Longrightarrow>
   layered adj st ((p, k) # path) (p # stk)"
  unfolding layered.simps(2) by (intro exI [of _ "[]"] exI [of _ stk]) simp

lemma search_inv_start:
  assumes "search_inv adj [] st" "m \<notin> indexed st"
  shows "search_inv adj [(m, 0)] (visit m st)"
  using assms unfolding search_inv_def
  by (simp add: ledger_visit low_sound_visit emitted_ok_visit) (simp add: examined_def)

lemma search_inv_visit:
  assumes inv: "search_inv adj ((n, k) # rest) st" and m: "m \<notin> indexed st"
    and k: "k < length (neighbors adj n)" "neighbors adj n ! k = m"
  shows "search_inv adj ((m, 0) # (n, Suc k) # rest) (visit m st)"
proof -
  from inv have led: "ledger st" and "layered adj st ((n, k) # rest) (stack st)"
    by (simp_all add: search_inv_def)
  then have lay: "layered adj (visit m st) ((n, k) # rest) (stack st)"
    using layered_visit m by blast
  have n: "n \<in> set (stack st)" using lay by auto
  with inv have "low st n \<le> idx st n" "idx st n < index_counter st" "n \<noteq> m"
    using stack_indexed [OF led] m by (auto simp: search_inv_def low_sound_def ledger_def)
  then have "examined (visit m st) n [m]" by (simp add: examined_def)
  then have "layered adj (visit m st) ((n, Suc k) # rest) (stack st)"
    using lay k by (auto simp: take_Suc_conv_app_nth examined_def)
  moreover have "m \<in> set (take (Suc k) (neighbors adj n))"
    using k by (auto simp: take_Suc_conv_app_nth)
  ultimately have "layered adj (visit m st) ((m, 0) # (n, Suc k) # rest) (stack (visit m st))"
    using layered_top [of adj "visit m st" "(n, Suc k) # rest" "stack st" 0 m]
    by (simp add: examined_def del: layered.simps(2))
  with inv m show ?thesis
    by (simp add: search_inv_def ledger_visit low_sound_visit emitted_ok_visit)
qed

subsection \<open>Lowering a link\<close>

abbreviation set_low :: "'v::linorder \<Rightarrow> usize \<Rightarrow> 'v tarjan \<Rightarrow> 'v tarjan" where
  "set_low n l st \<equiv> st \<lparr> lowlink := bt_insert n l (lowlink st) \<rparr>"

lemma descending_distinct: "sorted_wrt (\<lambda>a b. f b < (f a :: nat)) xs \<Longrightarrow> distinct xs"
  by (induction xs) auto

lemma stack_distinct: "ledger st \<Longrightarrow> distinct (stack st)"
  unfolding ledger_def by (elim conjE) (rule descending_distinct)

lemma examined_lower:
  "examined st v ws \<Longrightarrow> low st' v \<le> low st v \<Longrightarrow> indices st' = indices st \<Longrightarrow> stack st' = stack st \<Longrightarrow>
   examined st' v ws"
  by (auto simp: examined_def)

lemma layered_lower:
  "layered adj st path stk \<Longrightarrow> n \<in> fst ` set path \<Longrightarrow> distinct stk \<Longrightarrow> set stk \<subseteq> indexed st \<Longrightarrow>
   l \<le> low st n \<Longrightarrow> layered adj (set_low n l st) path stk"
proof (induction adj st path stk rule: layered.induct)
  case (2 adj st p k path stk)
  then obtain upper rest where stk: "stk = upper @ p # rest"
    and upper: "\<And>v. v \<in> set upper \<Longrightarrow> (p, v) \<in> reach adj \<and> low st p \<le> low st v \<and>
      low st v < idx st v \<and> examined st v (neighbors adj v)"
    and p: "k \<le> length (neighbors adj p)" "examined st p (take k (neighbors adj p))"
      "case path of [] \<Rightarrow> True | (q, j) # _ \<Rightarrow> p \<in> set (take j (neighbors adj q))"
    and rest: "layered adj st path rest"
    by auto
  have in_rest: "fst ` set path \<subseteq> set rest" using rest
  proof (induction path arbitrary: rest)
    case (Cons e path)
    then show ?case by (cases e) fastforce
  qed simp
  have n_above: "n \<notin> set upper" using 2(3,4) in_rest stk by auto
  have "layered adj (set_low n l st) path rest"
  proof (cases "n = p")
    case True
    then have "n \<notin> set rest" using 2(4) stk by simp
    then show ?thesis
      using 2(5) stk by (intro layered_agrees [OF rest]) (auto simp: agrees_def)
  next
    case False
    with 2 rest stk show ?thesis by auto
  qed
  moreover have "examined (set_low n l st) v ws" if "examined st v ws" for v ws
    using examined_lower [OF that, of "set_low n l st"] 2(6) by (cases "v = n") simp_all
  ultimately show ?case
    using stk upper p n_above 2(6) unfolding layered.simps(2)
    by (intro exI [of _ upper] exI [of _ rest]) (auto intro: order_trans)
qed simp

lemma search_inv_lower:
  assumes inv: "search_inv adj path st" and n: "n \<in> fst ` set path" "n \<in> set (stack st)"
    and l: "l \<le> low st n" "w \<in> set (stack st)" "idx st w = l" "(n, w) \<in> reach adj"
  shows "search_inv adj path (set_low n l st)"
proof -
  from inv have led: "ledger st" and snd: "low_sound adj st" and em: "emitted_ok adj st"
    and lay: "layered adj st path (stack st)"
    by (simp_all add: search_inv_def)
  have "n \<in> indexed st" using stack_indexed [OF led n(2)] .
  then have "dom (bt_get (lowlink (set_low n l st))) = dom (bt_get (lowlink st))"
    using led by (auto simp: ledger_def)
  then have "ledger (set_low n l st)"
    using led by (simp add: ledger_def emitted_def)
  moreover have "low_sound adj (set_low n l st)"
    using snd n(2) l unfolding low_sound_def by fastforce
  moreover have "emitted_ok adj (set_low n l st)"
    using em by (simp add: emitted_ok_def emitted_def)
  moreover have "layered adj (set_low n l st) path (stack st)"
    using layered_lower [OF lay n(1) stack_distinct [OF led] _ l(1)] led
    by (simp add: ledger_def)
  ultimately show ?thesis by (simp add: search_inv_def)
qed

lemma search_inv_advance:
  assumes "search_inv adj ((n, k) # rest) st" "k < length (neighbors adj n)"
    and "examined st n [neighbors adj n ! k]"
  shows "search_inv adj ((n, Suc k) # rest) st"
  using assms unfolding search_inv_def layered.simps(2)
  by (auto simp: take_Suc_conv_app_nth examined_def)

lemma top_on_stack: "search_inv adj ((n, k) # rest) st \<Longrightarrow> n \<in> set (stack st)"
  by (auto simp: search_inv_def)

lemma search_inv_follow:
  assumes inv: "search_inv adj ((n, k) # rest) st" and k: "k < length (neighbors adj n)"
  shows "\<exists>work st'. follow_edge (neighbors adj n ! k) n k rest st = Some (work, st') \<and>
    (work = (n, Suc k) # rest \<and> search_inv adj work st' \<or>
     work = (neighbors adj n ! k, 0) # (n, Suc k) # rest \<and> neighbors adj n ! k \<notin> indexed st' \<and>
     search_inv adj work (visit (neighbors adj n ! k) st'))"
proof -
  let ?m = "neighbors adj n ! k"
  from inv have led: "ledger st" and snd: "low_sound adj st" by (simp_all add: search_inv_def)
  have n: "n \<in> set (stack st)" using top_on_stack [OF inv] .
  have "n \<in> dom (bt_get (lowlink st))" using stack_indexed [OF led n] led by (simp add: ledger_def)
  then obtain c where low: "bt_get (lowlink st) n = Some c" by auto
  consider "?m \<notin> indexed st" | "?m \<in> set (stack st)" | "?m \<in> indexed st" "?m \<notin> set (stack st)" by blast
  then show ?thesis
  proof cases
    case 1
    with search_inv_visit [OF inv 1 k] show ?thesis by (auto simp: follow_edge_def domIff)
  next
    case 2
    let ?l = "min (low st n) (idx st ?m)"
    obtain w where w: "w \<in> set (stack st)" "idx st w = ?l" "(n, w) \<in> reach adj"
    proof (cases "low st n \<le> idx st ?m")
      case True
      with snd n that show thesis unfolding low_sound_def by (metis min.absorb1)
    next
      case False
      have "(n, ?m) \<in> reach adj" using reach_edge [of ?m adj n ?m] k by simp
      with 2 False that show thesis by auto
    qed
    have "search_inv adj ((n, k) # rest) (set_low n ?l st)"
      by (rule search_inv_lower [OF inv _ n _ w]) simp_all
    moreover have "examined (set_low n ?l st) n [?m]"
      using stack_indexed [OF led 2] by (simp add: examined_def)
    ultimately have "search_inv adj ((n, Suc k) # rest) (set_low n ?l st)"
      using k by (intro search_inv_advance) simp_all
    moreover have "?m \<in> set (on_stack st)" using 2 led by (simp add: ledger_def)
    moreover obtain i where "bt_get (indices st) ?m = Some i"
      using stack_indexed [OF led 2] by blast
    ultimately show ?thesis using low by (simp add: follow_edge_def)
  next
    case 3
    then have "examined st n [?m]" by (simp add: examined_def)
    from search_inv_advance [OF inv k this] 3 led show ?thesis
      by (auto simp: follow_edge_def ledger_def)
  qed
qed

subsection \<open>Finishing a node\<close>

definition top_layer ::
  "'v adjacency \<Rightarrow> 'v tarjan \<Rightarrow> 'v \<Rightarrow> usize \<Rightarrow> 'v work \<Rightarrow> 'v list \<Rightarrow> 'v list \<Rightarrow> bool" where
  "top_layer adj st n k rest upper lower \<longleftrightarrow>
     stack st = upper @ n # lower \<and>
     (\<forall>v \<in> set upper. (n, v) \<in> reach adj \<and> low st n \<le> low st v \<and> low st v < idx st v \<and>
        examined st v (neighbors adj v)) \<and>
     k \<le> length (neighbors adj n) \<and> examined st n (take k (neighbors adj n)) \<and>
     (case rest of [] \<Rightarrow> True | (q, j) # _ \<Rightarrow> n \<in> set (take j (neighbors adj q))) \<and>
     layered adj st rest lower \<and>
     (\<forall>v \<in> set upper. idx st n < idx st v) \<and> (\<forall>v \<in> set lower. idx st v < idx st n) \<and>
     distinct (upper @ n # lower)"

lemma layered_top_elim:
  assumes "search_inv adj ((n, k) # rest) st"
  obtains upper lower where "top_layer adj st n k rest upper lower"
proof -
  have led: "ledger st" using assms by (simp add: search_inv_def)
  from assms obtain upper lower where "stack st = upper @ n # lower"
    and "(\<forall>v \<in> set upper. (n, v) \<in> reach adj \<and> low st n \<le> low st v \<and> low st v < idx st v \<and>
        examined st v (neighbors adj v)) \<and>
      k \<le> length (neighbors adj n) \<and> examined st n (take k (neighbors adj n)) \<and>
      (case rest of [] \<Rightarrow> True | (q, j) # _ \<Rightarrow> n \<in> set (take j (neighbors adj q))) \<and>
      layered adj st rest lower"
    unfolding search_inv_def layered.simps(2) by blast
  moreover from this(1) have "sorted_wrt (\<lambda>a b. idx st b < idx st a) (upper @ n # lower)"
    using led by (simp add: ledger_def)
  moreover have "distinct (stack st)" using stack_distinct [OF led] .
  ultimately have "top_layer adj st n k rest upper lower"
    by (simp add: top_layer_def sorted_wrt_append)
  then show thesis by (rule that)
qed

lemma search_inv_propagate:
  assumes inv: "search_inv adj ((n, k) # rest) st"
  shows "\<exists>st'. propagate n rest st = Some st' \<and> search_inv adj ((n, k) # rest) st' \<and>
    (case rest of [] \<Rightarrow> True | (q, _) # _ \<Rightarrow> low st' q \<le> low st' n)"
proof (cases rest)
  case Nil
  with inv show ?thesis by (simp add: propagate_def)
next
  case (Cons e rest')
  obtain q j where e: "e = (q, j)" by fastforce
  obtain upper lower where "top_layer adj st n k rest upper lower"
    using layered_top_elim [OF inv] .
  then have stk: "stack st = upper @ n # lower"
    and edge: "n \<in> set (take j (neighbors adj q))" and lay: "layered adj st rest lower"
    and "n \<notin> set lower"
    unfolding top_layer_def by (simp_all add: Cons e)
  have led: "ledger st" and snd: "low_sound adj st" using inv by (simp_all add: search_inv_def)
  from lay have q: "q \<in> set lower" by (auto simp: Cons e)
  with \<open>n \<notin> set lower\<close> have qn: "q \<noteq> n" by blast
  have on: "n \<in> set (stack st)" "q \<in> set (stack st)" using stk q by auto
  then have "n \<in> dom (bt_get (lowlink st))" "q \<in> dom (bt_get (lowlink st))"
    using led by (auto simp: ledger_def)
  then obtain c d where cd: "bt_get (lowlink st) n = Some c" "bt_get (lowlink st) q = Some d" by blast
  obtain w where w: "w \<in> set (stack st)" "idx st w = min d c" "(q, w) \<in> reach adj"
  proof (cases "d \<le> c")
    case True
    with snd on(2) cd(2) that show thesis unfolding low_sound_def by (metis min.absorb1 option.sel)
  next
    case False
    from snd on(1) cd(1) obtain w where "w \<in> set (stack st)" "idx st w = c" "(n, w) \<in> reach adj"
      unfolding low_sound_def by (metis option.sel)
    with False that show thesis using reach_edge [of n adj q w] in_set_takeD [OF edge] by simp
  qed
  have "search_inv adj ((n, k) # rest) (set_low q (min d c) st)"
    by (rule search_inv_lower [OF inv _ on(2) _ w]) (simp_all add: Cons e cd)
  with cd qn show ?thesis by (simp add: propagate_def Cons e)
qed

lemma search_inv_merge:
  assumes inv: "search_inv adj ((n, k) # rest) st" and all: "length (neighbors adj n) \<le> k"
    and low: "low st n < idx st n"
    and parent: "case rest of [] \<Rightarrow> True | (q, _) # _ \<Rightarrow> low st q \<le> low st n"
  shows "search_inv adj rest st"
proof -
  obtain upper lower where "top_layer adj st n k rest upper lower"
    using layered_top_elim [OF inv] .
  then have stk: "stack st = upper @ n # lower"
    and upper: "\<And>v. v \<in> set upper \<Longrightarrow> (n, v) \<in> reach adj \<and> low st n \<le> low st v \<and>
      low st v < idx st v \<and> examined st v (neighbors adj v)"
    and n: "examined st n (take k (neighbors adj n))"
      "case rest of [] \<Rightarrow> True | (q, j) # _ \<Rightarrow> n \<in> set (take j (neighbors adj q))"
    and lay: "layered adj st rest lower"
    and idx: "\<And>v. v \<in> set upper \<Longrightarrow> idx st n < idx st v"
    unfolding top_layer_def by blast+
  have "rest \<noteq> []"
  proof
    assume "rest = []"
    with lay have "lower = []" by simp
    moreover obtain w where "w \<in> set (stack st)" "idx st w = low st n"
      using inv stk by (auto simp: search_inv_def low_sound_def)
    ultimately show False using stk idx [of w] low by auto
  qed
  then obtain q j path where rest: "rest = (q, j) # path" by (metis list.exhaust surj_pair)
  with lay obtain upper' lower' where lower: "lower = upper' @ q # lower'"
    and upper': "\<forall>v \<in> set upper'. (q, v) \<in> reach adj \<and> low st q \<le> low st v \<and>
      low st v < idx st v \<and> examined st v (neighbors adj v)"
    and q: "j \<le> length (neighbors adj q)" "examined st q (take j (neighbors adj q))"
      "case path of [] \<Rightarrow> True | (r, i) # _ \<Rightarrow> q \<in> set (take i (neighbors adj r))"
      "layered adj st path lower'"
    by auto
  have "n \<in> set (neighbors adj q)" using n(2) rest by (auto dest: in_set_takeD)
  note reach = reach_edge [OF this]
  have "\<forall>v \<in> set (upper @ n # upper'). (q, v) \<in> reach adj \<and> low st q \<le> low st v \<and>
      low st v < idx st v \<and> examined st v (neighbors adj v)"
    using upper upper' reach parent low n(1) all rest by (auto intro: order_trans)
  then have "layered adj st rest (stack st)"
    unfolding rest layered.simps(2) stk lower using q
    by (intro exI [of _ "upper @ n # upper'"] exI [of _ lower']) simp
  with inv show ?thesis by (simp add: search_inv_def)
qed

lemma pop_component_split:
  "n \<notin> set upper \<Longrightarrow> pop_component n (upper @ n # lower) on =
     (upper @ [n], lower, filter (\<lambda>v. v \<notin> set (upper @ [n])) on)"
  by (induction upper arbitrary: on) (auto simp: filter_filter intro!: filter_cong)

lemma emitted_component_is_scc:
  assumes inv: "search_inv adj ((n, k) # rest) st" and top: "top_layer adj st n k rest upper lower"
    and all: "length (neighbors adj n) \<le> k" and root: "low st n = idx st n"
  shows "\<And>v. v \<in> insert n (set upper) \<Longrightarrow> set (neighbors adj v) \<subseteq> insert n (set upper) \<union> emitted st"
    and "is_scc (edge_relation adj) (insert n (set upper))"
proof -
  let ?C = "insert n (set upper)"
  from top have stk: "stack st = upper @ n # lower"
    and upper: "\<And>v. v \<in> set upper \<Longrightarrow> (n, v) \<in> reach adj \<and> low st n \<le> low st v \<and>
      low st v < idx st v \<and> examined st v (neighbors adj v)"
    and n: "examined st n (neighbors adj n)"
    and lower: "\<And>v. v \<in> set lower \<Longrightarrow> idx st v < idx st n"
    using all unfolding top_layer_def by auto
  from inv have led: "ledger st" and snd: "low_sound adj st" and em: "emitted_ok adj st"
    by (simp_all add: search_inv_def)
  have member: "v \<in> ?C" if "v \<in> set (stack st)" "idx st n \<le> idx st v" for v
    using that stk lower [of v] by auto
  show closed: "set (neighbors adj v) \<subseteq> ?C \<union> emitted st" if "v \<in> ?C" for v
  proof
    fix w assume w: "w \<in> set (neighbors adj v)"
    have "examined st v (neighbors adj v)" "idx st n \<le> low st v" using that upper n root by auto
    with w have "w \<in> indexed st" "w \<in> set (stack st) \<Longrightarrow> idx st n \<le> idx st w"
      unfolding examined_def by (blast, meson order_trans)
    with member led show "w \<in> ?C \<union> emitted st" by (auto simp: ledger_def)
  qed
  have returns: "v \<in> ?C \<Longrightarrow> (v, n) \<in> reach adj" for v
  proof (induction "idx st v" arbitrary: v rule: less_induct)
    case less
    show ?case
    proof (cases "v = n")
      case False
      with less.prems upper root have v: "idx st n \<le> low st v" "low st v < idx st v" by auto
      have "v \<in> set (stack st)" using less.prems stk by auto
      with snd obtain w where w: "w \<in> set (stack st)" "idx st w = low st v" "(v, w) \<in> reach adj"
        unfolding low_sound_def by blast
      with v less.hyps [of w] member [of w] have "(w, n) \<in> reach adj" by simp
      with w(3) show ?thesis by (rule rtrancl_trans)
    qed simp
  qed
  have stays: "v \<in> ?C \<union> emitted st" if "(u, v) \<in> reach adj" "u \<in> ?C \<union> emitted st" for u v
    using that
  proof induction
    case (step v w)
    then show ?case using closed [of v] em by (auto simp: emitted_ok_def)
  qed
  have trapped: "v \<in> emitted st" if "(u, v) \<in> reach adj" "u \<in> emitted st" for u v
    using that by induction (use em in \<open>auto simp: emitted_ok_def\<close>)
  have "v \<in> ?C" if "u \<in> ?C" "(u, v) \<in> reach adj" "(v, u) \<in> reach adj" for u v
  proof (rule ccontr)
    assume "v \<notin> ?C"
    with stays [OF that(2)] that(1) have "v \<in> emitted st" by blast
    with trapped [OF that(3)] have "u \<in> emitted st" by blast
    with that(1) stk led show False by (auto simp: ledger_def)
  qed
  moreover have "(u, v) \<in> reach adj" if "u \<in> ?C" "v \<in> ?C" for u v
  proof -
    have "(n, v) \<in> reach adj" using that(2) upper by blast
    with returns [OF that(1)] show ?thesis by (rule rtrancl_trans)
  qed
  ultimately show "is_scc (edge_relation adj) ?C" unfolding is_scc_def by blast
qed

lemma search_inv_emit:
  assumes inv: "search_inv adj ((n, k) # rest) st" and all: "length (neighbors adj n) \<le> k"
    and root: "low st n = idx st n"
  shows "search_inv adj rest (emit n st)"
proof -
  obtain upper lower where top: "top_layer adj st n k rest upper lower"
    using layered_top_elim [OF inv] .
  then have stk: "stack st = upper @ n # lower" and lay: "layered adj st rest lower"
    and dist: "distinct (upper @ n # lower)" and idx: "\<And>v. v \<in> set lower \<Longrightarrow> idx st v < idx st n"
    "\<And>v. v \<in> set upper \<Longrightarrow> idx st n < idx st v"
    unfolding top_layer_def by blast+
  from inv have led: "ledger st" and snd: "low_sound adj st" and em: "emitted_ok adj st"
    by (simp_all add: search_inv_def)
  have st': "emit n st = st \<lparr> stack := lower, on_stack := filter (\<lambda>v. v \<notin> set (upper @ [n])) (on_stack st),
      sccs := sccs st @ [upper @ [n]] \<rparr>"
    using dist by (simp add: emit_def stk pop_component_split)
  have emitted: "emitted (emit n st) = insert n (set upper) \<union> emitted st"
    by (auto simp: st' emitted_def)
  have ledger: "ledger (emit n st)"
    using led dist unfolding ledger_def emitted by (auto simp: st' stk sorted_wrt_append)
  have "low_sound adj (emit n st)"
    unfolding low_sound_def
  proof
    fix v assume "v \<in> set (stack (emit n st))"
    then have v: "v \<in> set lower" by (simp add: st')
    with snd stk obtain w where w: "low st v \<le> idx st v" "w \<in> set (stack st)" "idx st w = low st v"
      "(v, w) \<in> reach adj"
      unfolding low_sound_def by auto
    with idx(1) [OF v] idx(2) [of w] have "w \<in> set lower" using stk by auto
    with w show "low (emit n st) v \<le> idx (emit n st) v \<and> (\<exists>w \<in> set (stack (emit n st)).
        idx (emit n st) w = low (emit n st) v \<and> (v, w) \<in> reach adj)"
      by (auto simp: st')
  qed
  moreover have "emitted_ok adj (emit n st)"
    using em emitted_component_is_scc [OF inv top all root] dist unfolding emitted_ok_def emitted
    by (auto simp: st')
  moreover have "layered adj (emit n st) rest (stack (emit n st))"
  proof -
    have "agrees st (emit n st)" using stk by (auto simp: agrees_def st')
    moreover have "set lower \<subseteq> indexed st" using led stk by (auto simp: ledger_def)
    ultimately show ?thesis using layered_agrees [OF lay] by (simp add: st')
  qed
  ultimately show ?thesis using ledger by (simp add: search_inv_def)
qed

lemma search_inv_finish:
  assumes inv: "search_inv adj ((n, k) # rest) st" and all: "length (neighbors adj n) \<le> k"
  shows "\<exists>st'. finish_node n rest st = Some (rest, st') \<and> search_inv adj rest st'"
proof -
  obtain st' where st': "propagate n rest st = Some st'" "search_inv adj ((n, k) # rest) st'"
    and parent: "case rest of [] \<Rightarrow> True | (q, _) # _ \<Rightarrow> low st' q \<le> low st' n"
    using search_inv_propagate [OF inv] by blast
  then have led: "ledger st'" and snd: "low_sound adj st'" by (simp_all add: search_inv_def)
  have n: "n \<in> set (stack st')" using top_on_stack [OF st'(2)] .
  then have "n \<in> indexed st'" "n \<in> dom (bt_get (lowlink st'))" using led by (auto simp: ledger_def)
  then obtain i l where il: "bt_get (indices st') n = Some i" "bt_get (lowlink st') n = Some l" by blast
  have "l \<le> i" using snd n il by (auto simp: low_sound_def)
  show ?thesis
  proof (cases "l = i")
    case True
    with search_inv_emit [OF st'(2) all] il st'(1) show ?thesis by (simp add: finish_node_def)
  next
    case False
    with \<open>l \<le> i\<close> search_inv_merge [OF st'(2) all _ parent] il st'(1) show ?thesis
      by (simp add: finish_node_def)
  qed
qed

subsection \<open>The whole search\<close>

text \<open>An entry that has not followed an edge is a node still to be visited.\<close>

fun pending_inv :: "'v::linorder adjacency \<Rightarrow> 'v work \<Rightarrow> 'v tarjan \<Rightarrow> bool" where
  "pending_inv adj [] st \<longleftrightarrow> search_inv adj [] st"
| "pending_inv adj ((n, k) # rest) st \<longleftrightarrow>
     (if k = 0 then n \<notin> indexed st \<and> search_inv adj ((n, k) # rest) (visit n st)
      else search_inv adj ((n, k) # rest) st)"

lemma search_inv_pending:
  assumes inv: "search_inv adj rest st" and parent: "search_inv adj ((n, k) # rest) st0"
  shows "pending_inv adj rest st"
proof (cases rest)
  case (Cons e path)
  obtain q j where e: "e = (q, j)" by fastforce
  have "n \<in> set (take j (neighbors adj q))"
    using parent by (auto simp: search_inv_def Cons e)
  then have "j \<noteq> 0" by (intro notI) simp
  with inv show ?thesis by (simp add: Cons e)
qed (use inv in simp)

lemma tarjan_step_inv:
  assumes "pending_inv adj ((n, k) # rest) st"
  shows "\<exists>work' st'. tarjan_step adj n k rest st = Some (work', st') \<and> pending_inv adj work' st'"
proof -
  let ?st = "if k = 0 then visit n st else st"
  have inv: "search_inv adj ((n, k) # rest) ?st" using assms by (auto split: if_splits)
  show ?thesis
  proof (cases "k < length (neighbors adj n)")
    case True
    then show ?thesis
      using search_inv_follow [OF inv True] by (auto simp: tarjan_step_def Let_def)
  next
    case False
    then obtain st' where "finish_node n rest ?st = Some (rest, st')" "search_inv adj rest st'"
      using search_inv_finish [OF inv] by auto
    with False search_inv_pending [OF _ inv] show ?thesis by (auto simp: tarjan_step_def Let_def)
  qed
qed

lemma tarjan_loop_inv:
  "pending_inv adj work st \<Longrightarrow> \<exists>st'. tarjan_loop adj work st = Some st' \<and> search_inv adj [] st'"
proof (induction adj work st rule: tarjan_loop.induct)
  case (2 adj n k rest st)
  from tarjan_step_inv [OF 2(2)] obtain work' st' where
    step: "tarjan_step adj n k rest st = Some (work', st')" "pending_inv adj work' st'"
    by blast
  from 2(1) [OF step(1) refl step(2)] step(1) show ?case by simp
qed simp

lemma tarjan_loop_indexed:
  "tarjan_loop adj work st = Some st' \<Longrightarrow> indexed st \<subseteq> indexed st'"
proof (induction adj work st rule: tarjan_loop.induct)
  case (2 adj n k rest st)
  then obtain work1 st1 where step: "tarjan_step adj n k rest st = Some (work1, st1)"
    and loop: "tarjan_loop adj work1 st1 = Some st'"
    by (auto split: option.splits)
  from tarjan_step_shape(1) [OF step] have "indexed st \<subseteq> indexed st1" by auto
  with 2(1) [OF step refl loop] show ?case by blast
qed simp

lemma tarjan_loop_indexes_start:
  assumes "tarjan_loop adj [(start, 0)] st = Some st'"
  shows "start \<in> indexed st'"
proof -
  from assms obtain work1 st1 where step: "tarjan_step adj start 0 [] st = Some (work1, st1)"
    and loop: "tarjan_loop adj work1 st1 = Some st'"
    by (auto split: option.splits)
  with tarjan_step_shape(1) [OF step] tarjan_loop_indexed [OF loop] show ?thesis by auto
qed

lemma tarjan_all_inv:
  "search_inv adj [] st \<Longrightarrow>
     \<exists>st'. tarjan_all adj nodes st = Some st' \<and> search_inv adj [] st' \<and>
       set nodes \<union> indexed st \<subseteq> indexed st'"
proof (induction nodes arbitrary: st)
  case (Cons start nodes)
  show ?case
  proof (cases "start \<in> indexed st")
    case True
    with Cons show ?thesis by fastforce
  next
    case False
    have "pending_inv adj [(start, 0)] st"
      using False search_inv_start [OF Cons.prems False] by simp
    then obtain st1 where st1: "tarjan_loop adj [(start, 0)] st = Some st1" "search_inv adj [] st1"
      using tarjan_loop_inv by blast
    from Cons.IH [OF st1(2)] obtain st' where st': "tarjan_all adj nodes st1 = Some st'"
      "search_inv adj [] st'" "set nodes \<union> indexed st1 \<subseteq> indexed st'"
      by blast
    have "set (start # nodes) \<union> indexed st \<subseteq> indexed st'"
      using st'(3) tarjan_loop_indexed [OF st1(1)] tarjan_loop_indexes_start [OF st1(1)] by simp blast
    moreover have "tarjan_all adj (start # nodes) st = Some st'"
      using False st1(1) st'(1) by (simp add: domIff del: tarjan_loop.simps)
    ultimately show ?thesis using st'(2) by blast
  qed
qed simp

lemma search_inv_empty: "search_inv adj [] tarjan_start"
  by (simp add: search_inv_def ledger_def low_sound_def emitted_ok_def emitted_def tarjan_start_def)

section \<open>The interface of the search\<close>

text \<open>
  What the coherence check relies on: the search ends without a panic, every list it returns is
  the members of one strongly connected component, and every node of the graph is in one of them.
\<close>

locale component_partition =
  fixes components :: "'v::linorder adjacency \<Rightarrow> 'v list list option"
  assumes total: "\<exists>cs. components adj = Some cs"
    and exact: "components adj = Some cs \<Longrightarrow> C \<in> set cs \<Longrightarrow> distinct C \<and> is_scc (edge_relation adj) (set C)"
    and covers: "components adj = Some cs \<Longrightarrow> v \<in> set (graph_nodes adj) \<Longrightarrow> \<exists>C \<in> set cs. v \<in> set C"
begin

lemma mutual_in_one_component:
  assumes "components adj = Some cs" "v \<in> set (graph_nodes adj)"
    and "(u, v) \<in> reach adj" "(v, u) \<in> reach adj"
  shows "\<exists>C \<in> set cs. u \<in> set C \<and> v \<in> set C"
  using covers [OF assms(1,2)] exact [OF assms(1)] assms(3,4) unfolding is_scc_def by blast

lemma component_mutual:
  "components adj = Some cs \<Longrightarrow> C \<in> set cs \<Longrightarrow> u \<in> set C \<Longrightarrow> v \<in> set C \<Longrightarrow> (u, v) \<in> reach adj"
  using exact unfolding is_scc_def by blast

end

interpretation tarjan: component_partition required_sccs
proof
  fix adj :: "'v::linorder adjacency"
  obtain st where st: "tarjan_all adj (graph_nodes adj) tarjan_start = Some st"
    "search_inv adj [] st" "set (graph_nodes adj) \<subseteq> indexed st"
    using tarjan_all_inv [OF search_inv_empty, of adj "graph_nodes adj"] by blast
  then have cs: "required_sccs adj = Some (sccs st)" by (simp add: required_sccs_def)
  then show "\<exists>cs. required_sccs adj = Some cs" by blast
  from st(2) have "emitted_ok adj st" "indexed st = emitted st"
    by (auto simp: search_inv_def ledger_def)
  then show "distinct C \<and> is_scc (edge_relation adj) (set C)" if "required_sccs adj = Some cs'" "C \<in> set cs'" for cs' C
    using that cs by (simp add: emitted_ok_def)
  show "\<exists>C \<in> set cs'. v \<in> set C"
    if "required_sccs adj = Some cs'" "v \<in> set (graph_nodes adj)" for cs' v
    using that cs st(3) \<open>indexed st = emitted st\<close> by (auto simp: emitted_def)
qed

section \<open>Exactness\<close>

lemma tarjan_loop_within:
  "tarjan_loop adj work st = Some st' \<Longrightarrow> fst ` set work \<union> indexed st \<subseteq> set (graph_nodes adj) \<Longrightarrow>
   indexed st' \<subseteq> set (graph_nodes adj)"
proof (induction adj work st rule: tarjan_loop.induct)
  case (2 adj n k rest st)
  then obtain work1 st1 where step: "tarjan_step adj n k rest st = Some (work1, st1)"
    and loop: "tarjan_loop adj work1 st1 = Some st'"
    by (auto split: option.splits)
  have "fst ` set work1 \<union> indexed st1 \<subseteq> set (graph_nodes adj)"
    using tarjan_step_shape(1,2) [OF step] 2(3) by (auto split: if_splits)
  with 2(1) [OF step refl loop] show ?case by blast
qed simp

lemma tarjan_all_within:
  "tarjan_all adj nodes st = Some st' \<Longrightarrow> set nodes \<union> indexed st \<subseteq> set (graph_nodes adj) \<Longrightarrow>
   indexed st' \<subseteq> set (graph_nodes adj)"
proof (induction nodes arbitrary: st)
  case (Cons start nodes)
  show ?case
  proof (cases "bt_get (indices st) start")
    case None
    with Cons.prems(1) obtain st1 where st1: "tarjan_loop adj [(start, 0)] st = Some st1"
      "tarjan_all adj nodes st1 = Some st'"
      by (auto simp del: tarjan_loop.simps split: option.splits)
    from tarjan_loop_within [OF st1(1)] Cons.prems(2) Cons.IH [OF st1(2)] show ?thesis by simp
  next
    case (Some i)
    with Cons show ?thesis by simp
  qed
qed simp

lemma sccs_in_graph:
  assumes "required_sccs adj = Some cs" "C \<in> set cs"
  shows "set C \<subseteq> set (graph_nodes adj)"
proof -
  from assms(1) obtain st where st: "tarjan_all adj (graph_nodes adj) tarjan_start = Some st"
    and cs: "cs = sccs st"
    by (auto simp: required_sccs_def)
  from tarjan_all_inv [OF search_inv_empty, of adj "graph_nodes adj"] st
  have "ledger st" by (auto simp: search_inv_def)
  moreover have "indexed st \<subseteq> set (graph_nodes adj)"
    using tarjan_all_within [OF st] by (simp add: tarjan_start_def)
  ultimately show ?thesis using assms(2) cs by (auto simp: ledger_def emitted_def)
qed

lemma is_scc_unique: "is_scc R C \<Longrightarrow> is_scc R D \<Longrightarrow> v \<in> C \<Longrightarrow> v \<in> D \<Longrightarrow> C = D"
  unfolding is_scc_def by blast

text \<open>
  C30. The search with an explicit work stack ends without a panic on every graph, and the lists it
  collects are exactly the strongly connected components of the graph, each once per component and
  without repeated members.
\<close>

theorem required_sccs_exact:
  "\<exists>cs. required_sccs adj = Some cs \<and> list_all distinct cs \<and>
     set ` set cs = {C. is_scc (edge_relation adj) C \<and> C \<inter> set (graph_nodes adj) \<noteq> {}}"
proof -
  obtain cs where cs: "required_sccs adj = Some cs" using tarjan.total by blast
  note exact = tarjan.exact [OF cs]
  have "set C \<inter> set (graph_nodes adj) \<noteq> {}" if "C \<in> set cs" for C
  proof -
    have "set C \<noteq> {}" using exact [OF that] by (simp add: is_scc_def)
    with sccs_in_graph [OF cs that] show ?thesis by (simp only: inf.absorb1 not_False_eq_True)
  qed
  moreover have "D \<in> set ` set cs"
    if D: "is_scc (edge_relation adj) D" and v: "v \<in> D" "v \<in> set (graph_nodes adj)" for D v
  proof -
    from tarjan.covers [OF cs v(2)] obtain C where "C \<in> set cs" "v \<in> set C" by blast
    with exact is_scc_unique [OF D _ v(1)] show ?thesis by blast
  qed
  ultimately show ?thesis using cs exact by (auto simp: list_all_iff)
qed

end
