(* ===== verification/Cut_Coherence.thy ===== *)
theory Cut_Coherence
  imports Required_Graph Profile_Descriptor Detector_Core
begin

text \<open>
  Required-observation coherence of a published scope cut
  (\<open>nq-system-contract/src/coherence.rs\<close>) over the cut types of
  \<open>nq-system-contract/src/lib.rs\<close>. A check returns \<open>None\<close> where the code would panic, which
  is shown not to happen. Formatted refusal texts are kept as the values they are formatted from.
  The deserializers of witnesses are parameters.
\<close>

section \<open>Cuts\<close>

datatype SourceKind = BootstrapTarget | NetboxInventory | OperatorAuthored | OtherDeclaredFacts

datatype AuthoritySemantics = AuthorityNone

record SourceSnapshotV1 =
  ss_source_snapshot_id :: string
  ss_kind :: SourceKind
  ss_content_digest :: Sha256Digest
  ss_captured_at :: instant
  ss_provenance :: string

record TargetV1 =
  tg_target_id :: string
  tg_target_class :: string
  tg_target_identity_digest :: Sha256Digest
  tg_source_snapshot_ids :: "string list"

record ComponentV1 =
  cp_component_id :: string
  cp_kind :: string
  cp_hosted_on :: string
  cp_source_snapshot_ids :: "string list"

datatype DependencyRequirement = Required | Incidental

record DependencyV1 =
  dp_dependency_id :: string
  dp_consumer_component_id :: string
  dp_provider_component_id :: string
  dp_requirement :: DependencyRequirement
  dp_source_snapshot_ids :: "string list"

record ObservationObligationV1 =
  ob_observation_obligation_id :: string
  ob_component_id :: string
  ob_instance_id :: string
  ob_profile :: ProfileBinding
  ob_subject_binding :: SubjectBinding
  ob_required_coverage :: "string list"
  ob_granted_capabilities :: "string list"
  ob_freshness_seconds :: u64
  ob_source_snapshot_ids :: "string list"

record SystemDefinitionV1 =
  sd_system_id :: string
  sd_title :: string
  sd_target_ids :: "string list"
  sd_component_ids :: "string list"
  sd_dependency_ids :: "string list"
  sd_observation_obligation_ids :: "string list"
  sd_source_snapshot_ids :: "string list"

record RatificationV1 =
  rt_ratified_by :: string
  rt_ratified_at :: instant
  rt_ratified_proposal_digest :: Sha256Digest
  rt_ratification_record_digest :: Sha256Digest

record SystemSpecReferenceV1 =
  sr_spec_id :: string
  sr_revision :: u32
  sr_spec_digest :: Sha256Digest

record ScopeCutBodyV1 =
  cb_cut_id :: string
  cb_source_spec :: SystemSpecReferenceV1
  cb_ratification :: RatificationV1
  cb_system :: SystemDefinitionV1
  cb_source_snapshots :: "SourceSnapshotV1 list"
  cb_targets :: "TargetV1 list"
  cb_components :: "ComponentV1 list"
  cb_dependencies :: "DependencyV1 list"
  cb_observation_obligations :: "ObservationObligationV1 list"
  cb_authority :: AuthoritySemantics

record PublishedScopeCutV1 =
  pc_schema :: string
  pc_cut_digest :: Sha256Digest
  pc_cut :: ScopeCutBodyV1

text \<open>The envelope that separates digests of different schemas.\<close>

definition versioned_artifact_digest ::
  "'x externals_scheme \<Rightarrow> string \<Rightarrow> json \<Rightarrow> (Sha256Digest, CanonicalizationError) result" where
  "versioned_artifact_digest x schema artifact =
     semantic_digest x (JObject (bt_from [(''schema'', JString schema), (''artifact'', artifact)]))"

section \<open>Policies, refusals and witnesses\<close>

definition CUT_COHERENCE_WITNESS_SCHEMA :: string where
  "CUT_COHERENCE_WITNESS_SCHEMA = ''nq.cut_coherence_witness.v1''"

definition REQUIRED_OBSERVATION_V1_CLAIM :: string where
  "REQUIRED_OBSERVATION_V1_CLAIM = ''required_observation_v1''"

datatype CutCoherencePolicy = RequiredObservationV1 (coherence_window_seconds: u64)

fun policy_version :: "CutCoherencePolicy \<Rightarrow> string" where
  "policy_version (RequiredObservationV1 _) = REQUIRED_OBSERVATION_V1_CLAIM"

datatype WitnessFault =
    WrongWitnessSchema string
  | ClaimDoesNotMatchPolicy string
  | WitnessDigestMismatch
  | NoPolicyVersion
  | FaultText string

datatype CutFault =
    CitesUnknownSnapshot string string
  | CitesNoSnapshot string
  | UnknownComponent string

datatype CutCoherenceRefusal =
    RequiredProviderObservedLate string string
  | RequiredClosureWindowExceeded string int u64
  | InconsistentRequiredCycle "string list"
  | UnsupportedCoherencePolicy string
  | WitnessCutMismatch string string
  | WitnessInconsistent WitnessFault
  | MalformedCut CutFault

record CutCoherenceWitnessV1 =
  cw_schema :: string
  cw_cut_digest :: Sha256Digest
  cw_coherence_claim :: string
  cw_policy :: CutCoherencePolicy
  cw_witness_digest :: Sha256Digest

record AdmissibleSystemCutV1 =
  ac_cut :: PublishedScopeCutV1
  ac_witness :: CutCoherenceWitnessV1

record coherence_externals = externals +
  value_from_slice :: "bytes \<Rightarrow> (json, string) result"
  witness_from_slice :: "bytes \<Rightarrow> (CutCoherenceWitnessV1, string) result"

fun policy_to_value :: "CutCoherencePolicy \<Rightarrow> json" where
  "policy_to_value (RequiredObservationV1 seconds) = JObject (bt_from
     [(''policy_version'', JString REQUIRED_OBSERVATION_V1_CLAIM),
      (''coherence_window_seconds'', JNumber (PosInt seconds))])"

definition witness_body_value :: "Sha256Digest \<Rightarrow> string \<Rightarrow> CutCoherencePolicy \<Rightarrow> json" where
  "witness_body_value cut_digest claim policy = JObject (bt_from
     [(''cut_digest'', JString cut_digest),
      (''coherence_claim'', JString claim),
      (''policy'', policy_to_value policy)])"

definition witness_digest_of ::
  "'x externals_scheme \<Rightarrow> Sha256Digest \<Rightarrow> string \<Rightarrow> CutCoherencePolicy \<Rightarrow>
   (Sha256Digest, CutCoherenceRefusal) result" where
  "witness_digest_of x cut_digest claim policy =
     map_err (\<lambda>e. WitnessInconsistent (FaultText (show_CanonicalizationError e)))
       (versioned_artifact_digest x CUT_COHERENCE_WITNESS_SCHEMA
          (witness_body_value cut_digest claim policy))"

definition expected_digest ::
  "'x externals_scheme \<Rightarrow> CutCoherenceWitnessV1 \<Rightarrow> (Sha256Digest, CutCoherenceRefusal) result" where
  "expected_digest x self =
     witness_digest_of x (cw_cut_digest self) (cw_coherence_claim self) (cw_policy self)"

section \<open>The checker\<close>

record RequiredEdge =
  re_dependency_id :: string
  re_consumer :: string
  re_provider :: string

definition required_edges :: "ScopeCutBodyV1 \<Rightarrow> RequiredEdge list" where
  "required_edges body =
     sort_key re_dependency_id
       (map (\<lambda>d. \<lparr> re_dependency_id = dp_dependency_id d, re_consumer = dp_consumer_component_id d,
              re_provider = dp_provider_component_id d \<rparr>)
         (filter (\<lambda>d. dp_requirement d = Required) (cb_dependencies body)))"

record ObservationSpan =
  earliest :: instant
  latest :: instant

definition widen :: "ObservationSpan option \<Rightarrow> instant \<Rightarrow> ObservationSpan" where
  "widen sp captured_at =
     (case sp of
        None \<Rightarrow> \<lparr> earliest = captured_at, latest = captured_at \<rparr>
      | Some existing \<Rightarrow>
          \<lparr> earliest = min (earliest existing) captured_at, latest = max (latest existing) captured_at \<rparr>)"

fun component_span ::
  "(string, instant) btree_map \<Rightarrow> string \<Rightarrow> string list \<Rightarrow> ObservationSpan option \<Rightarrow>
   (ObservationSpan, CutCoherenceRefusal) result" where
  "component_span captured component [] sp =
     ok_or (MalformedCut (CitesNoSnapshot component)) sp"
| "component_span captured component (snapshot_id # ids) sp =
     (case bt_get captured snapshot_id of
        None \<Rightarrow> Err (MalformedCut (CitesUnknownSnapshot component snapshot_id))
      | Some captured_at \<Rightarrow> component_span captured component ids (Some (widen sp captured_at)))"

fun collect_spans ::
  "(string, instant) btree_map \<Rightarrow> ComponentV1 list \<Rightarrow> (string, ObservationSpan) btree_map \<Rightarrow>
   ((string, ObservationSpan) btree_map, CutCoherenceRefusal) result" where
  "collect_spans captured [] spans = Ok spans"
| "collect_spans captured (component # components) spans =
     and_then (component_span captured (cp_component_id component) (cp_source_snapshot_ids component) None)
       (\<lambda>sp. collect_spans captured components (bt_insert (cp_component_id component) sp spans))"

definition observation_spans ::
  "ScopeCutBodyV1 \<Rightarrow> ((string, ObservationSpan) btree_map, CutCoherenceRefusal) result" where
  "observation_spans body =
     (let captured = bt_from (map (\<lambda>s. (ss_source_snapshot_id s, ss_captured_at s)) (cb_source_snapshots body))
      in collect_spans captured (cb_components body) [])"

definition add_edge :: "RequiredEdge \<Rightarrow> string adjacency \<Rightarrow> string adjacency" where
  "add_edge edge adj = bt_insert (re_consumer edge) (neighbors adj (re_consumer edge) @ [re_provider edge]) adj"

definition adjacency_of :: "RequiredEdge list \<Rightarrow> string adjacency" where
  "adjacency_of edges = fold add_edge edges []"

definition scc_is_cycle :: "string adjacency \<Rightarrow> string list \<Rightarrow> bool" where
  "scc_is_cycle adj scc \<longleftrightarrow>
     length scc > 1 \<or> (case scc of [] \<Rightarrow> False | node # _ \<Rightarrow> node \<in> set (neighbors adj node))"

definition scc_latests :: "(string, ObservationSpan) btree_map \<Rightarrow> string list \<Rightarrow> instant btree_set" where
  "scc_latests spans scc =
     bs_from (List.map_filter (\<lambda>node. map_option latest (bt_get spans node)) scc)"

fun first_inconsistent ::
  "string adjacency \<Rightarrow> (string, ObservationSpan) btree_map \<Rightarrow> string list list \<Rightarrow> string list option" where
  "first_inconsistent adj spans [] = None"
| "first_inconsistent adj spans (scc # rest) =
     (if scc_is_cycle adj scc \<and> length (scc_latests spans scc) > 1 then Some (sort scc)
      else first_inconsistent adj spans rest)"

definition inconsistent_required_cycle ::
  "string adjacency \<Rightarrow> (string, ObservationSpan) btree_map \<Rightarrow> string list option option" where
  "inconsistent_required_cycle adj spans =
     map_option (first_inconsistent adj spans) (required_sccs adj)"

definition span_of ::
  "(string, ObservationSpan) btree_map \<Rightarrow> string \<Rightarrow> (ObservationSpan, CutCoherenceRefusal) result" where
  "span_of spans component = ok_or (MalformedCut (UnknownComponent component)) (bt_get spans component)"

fun check_edge_order ::
  "(string, ObservationSpan) btree_map \<Rightarrow> RequiredEdge list \<Rightarrow> (unit, CutCoherenceRefusal) result" where
  "check_edge_order spans [] = Ok ()"
| "check_edge_order spans (edge # edges) =
     and_then (span_of spans (re_consumer edge)) (\<lambda>consumer.
     and_then (span_of spans (re_provider edge)) (\<lambda>provider.
       if latest provider > latest consumer then
         Err (RequiredProviderObservedLate (re_consumer edge) (re_provider edge))
       else check_edge_order spans edges))"

fun closure_extent ::
  "(string, ObservationSpan) btree_map \<Rightarrow> string list \<Rightarrow> instant \<Rightarrow> instant \<Rightarrow>
   (instant \<times> instant, CutCoherenceRefusal) result" where
  "closure_extent spans [] early late = Ok (early, late)"
| "closure_extent spans (member # members) early late =
     and_then (span_of spans member)
       (\<lambda>sp. closure_extent spans members (min early (earliest sp)) (max late (latest sp)))"

fun check_windows ::
  "string adjacency \<Rightarrow> (string, ObservationSpan) btree_map \<Rightarrow> u64 \<Rightarrow> string list \<Rightarrow>
   (unit, CutCoherenceRefusal) result" where
  "check_windows adj spans seconds [] = Ok ()"
| "check_windows adj spans seconds (start # starts) =
     and_then (span_of spans start) (\<lambda>sp.
     and_then (closure_extent spans (required_closure start adj) (earliest sp) (latest sp)) (\<lambda>(early, late).
       let span_seconds = num_seconds (late - early)
       in if span_seconds > min (uint seconds) (2 ^ 63 - 1) then
            Err (RequiredClosureWindowExceeded start span_seconds seconds)
          else check_windows adj spans seconds starts))"

fun evaluate_policy ::
  "RequiredEdge list \<Rightarrow> (string, ObservationSpan) btree_map \<Rightarrow> CutCoherencePolicy \<Rightarrow>
   (unit, CutCoherenceRefusal) result option" where
  "evaluate_policy edges spans (RequiredObservationV1 seconds) =
     (let adj = adjacency_of edges
      in case inconsistent_required_cycle adj spans of
           None \<Rightarrow> None
         | Some (Some cycle) \<Rightarrow> Some (Err (InconsistentRequiredCycle cycle))
         | Some None \<Rightarrow>
             Some (and_then (check_edge_order spans edges)
               (\<lambda>_. check_windows adj spans seconds (bt_keys adj))))"

definition evaluate_cut_coherence ::
  "ScopeCutBodyV1 \<Rightarrow> CutCoherencePolicy \<Rightarrow> (unit, CutCoherenceRefusal) result option" where
  "evaluate_cut_coherence body policy =
     (let edges = required_edges body
      in case observation_spans body of
           Err e \<Rightarrow> Some (Err e)
         | Ok spans \<Rightarrow> evaluate_policy edges spans policy)"

section \<open>Witnesses\<close>

definition verify_admissible ::
  "'x externals_scheme \<Rightarrow> PublishedScopeCutV1 \<Rightarrow> CutCoherenceWitnessV1 \<Rightarrow>
   (AdmissibleSystemCutV1, CutCoherenceRefusal) result option" where
  "verify_admissible x published witness =
     (if cw_cut_digest witness \<noteq> pc_cut_digest published then
        Some (Err (WitnessCutMismatch (cw_cut_digest witness) (pc_cut_digest published)))
      else if cw_schema witness \<noteq> CUT_COHERENCE_WITNESS_SCHEMA then
        Some (Err (WitnessInconsistent (WrongWitnessSchema (cw_schema witness))))
      else if cw_coherence_claim witness \<noteq> REQUIRED_OBSERVATION_V1_CLAIM \<or>
          cw_coherence_claim witness \<noteq> policy_version (cw_policy witness) then
        Some (Err (WitnessInconsistent (ClaimDoesNotMatchPolicy (cw_coherence_claim witness))))
      else case expected_digest x witness of
          Err e \<Rightarrow> Some (Err e)
        | Ok expected \<Rightarrow>
            if expected \<noteq> cw_witness_digest witness then
              Some (Err (WitnessInconsistent WitnessDigestMismatch))
            else map_option
              (\<lambda>outcome. map_ok (\<lambda>_. \<lparr> ac_cut = published, ac_witness = witness \<rparr>) outcome)
              (evaluate_cut_coherence (pc_cut published) (cw_policy witness)))"

definition compute_cut_coherence_witness ::
  "'x externals_scheme \<Rightarrow> PublishedScopeCutV1 \<Rightarrow> CutCoherencePolicy \<Rightarrow>
   (CutCoherenceWitnessV1, CutCoherenceRefusal) result option" where
  "compute_cut_coherence_witness x published policy =
     map_option (\<lambda>outcome. and_then outcome (\<lambda>_.
         map_ok (\<lambda>digest. \<lparr> cw_schema = CUT_COHERENCE_WITNESS_SCHEMA,
             cw_cut_digest = pc_cut_digest published,
             cw_coherence_claim = REQUIRED_OBSERVATION_V1_CLAIM,
             cw_policy = policy, cw_witness_digest = digest \<rparr>)
           (witness_digest_of x (pc_cut_digest published) REQUIRED_OBSERVATION_V1_CLAIM policy)))
       (evaluate_cut_coherence (pc_cut published) policy)"

definition parse_and_verify_admissible ::
  "'x coherence_externals_scheme \<Rightarrow> PublishedScopeCutV1 \<Rightarrow> bytes \<Rightarrow>
   (AdmissibleSystemCutV1, CutCoherenceRefusal) result option" where
  "parse_and_verify_admissible x published witness_bytes =
     (case value_from_slice x witness_bytes of
        Err e \<Rightarrow> Some (Err (WitnessInconsistent (FaultText e)))
      | Ok raw \<Rightarrow>
          (case Option.bind (json_get raw ''policy'') (\<lambda>policy. json_get policy ''policy_version'') of
             Some (JString version) \<Rightarrow>
               if version = REQUIRED_OBSERVATION_V1_CLAIM then
                 (case witness_from_slice x witness_bytes of
                    Err e \<Rightarrow> Some (Err (WitnessInconsistent (FaultText e)))
                  | Ok witness \<Rightarrow> verify_admissible x published witness)
               else Some (Err (UnsupportedCoherencePolicy version))
           | _ \<Rightarrow> Some (Err (WitnessInconsistent NoPolicyVersion))))"

section \<open>Coherence as a statement about the cut\<close>

definition captured_time :: "ScopeCutBodyV1 \<Rightarrow> string \<Rightarrow> instant option" where
  "captured_time body =
     map_of (rev (map (\<lambda>s. (ss_source_snapshot_id s, ss_captured_at s)) (cb_source_snapshots body)))"

definition cites_known :: "ScopeCutBodyV1 \<Rightarrow> ComponentV1 \<Rightarrow> bool" where
  "cites_known body c \<longleftrightarrow> cp_source_snapshot_ids c \<noteq> [] \<and>
     list_all (\<lambda>i. captured_time body i \<noteq> None) (cp_source_snapshot_ids c)"

definition cited_times :: "ScopeCutBodyV1 \<Rightarrow> ComponentV1 \<Rightarrow> instant set" where
  "cited_times body c = (\<lambda>i. the (captured_time body i)) ` set (cp_source_snapshot_ids c)"

definition span_over :: "instant set \<Rightarrow> ObservationSpan" where
  "span_over T = \<lparr> earliest = Min T, latest = Max T \<rparr>"

definition observed :: "ScopeCutBodyV1 \<Rightarrow> string \<Rightarrow> ObservationSpan option" where
  "observed body =
     map_of (rev (map (\<lambda>c. (cp_component_id c, span_over (cited_times body c))) (cb_components body)))"

definition required_relation :: "ScopeCutBodyV1 \<Rightarrow> (string \<times> string) set" where
  "required_relation body = {(c, p). \<exists>d \<in> set (cb_dependencies body). dp_requirement d = Required \<and>
     dp_consumer_component_id d = c \<and> dp_provider_component_id d = p}"

definition provider_in_time :: "ScopeCutBodyV1 \<Rightarrow> string \<times> string \<Rightarrow> bool" where
  "provider_in_time body = (\<lambda>(c, p). \<exists>sc sp. observed body c = Some sc \<and> observed body p = Some sp \<and>
     latest sp \<le> latest sc)"

definition closure_in_window :: "ScopeCutBodyV1 \<Rightarrow> u64 \<Rightarrow> string \<Rightarrow> bool" where
  "closure_in_window body seconds start \<longleftrightarrow>
     (\<forall>u \<in> (required_relation body)\<^sup>* `` {start}. \<forall>v \<in> (required_relation body)\<^sup>* `` {start}.
        num_seconds (latest (the (observed body u)) - earliest (the (observed body v))) \<le>
          min (uint seconds) (2 ^ 63 - 1))"

definition coherent_cut :: "ScopeCutBodyV1 \<Rightarrow> u64 \<Rightarrow> bool" where
  "coherent_cut body seconds \<longleftrightarrow>
     (\<forall>c \<in> set (cb_components body). cites_known body c) \<and>
     (\<forall>e \<in> required_relation body. provider_in_time body e) \<and>
     (\<forall>start \<in> Domain (required_relation body). closure_in_window body seconds start)"

section \<open>The stages compute the statement\<close>

lemma component_span_some:
  "component_span captured c ids (Some s) = Ok r \<longleftrightarrow>
     (\<forall>i \<in> set ids. bt_get captured i \<noteq> None) \<and>
     r = \<lparr> earliest = fold min (map (\<lambda>i. the (bt_get captured i)) ids) (earliest s),
           latest = fold max (map (\<lambda>i. the (bt_get captured i)) ids) (latest s) \<rparr>"
proof (induction ids arbitrary: s)
  case (Cons i ids)
  then show ?case
    by (cases "bt_get captured i") (auto simp: widen_def min.commute max.commute)
qed (auto simp: ok_or_def)

lemma component_span_Ok:
  "component_span captured c ids None = Ok r \<longleftrightarrow>
     ids \<noteq> [] \<and> (\<forall>i \<in> set ids. bt_get captured i \<noteq> None) \<and>
     r = span_over ((\<lambda>i. the (bt_get captured i)) ` set ids)"
proof (cases ids)
  case (Cons i ids')
  then show ?thesis
    by (cases "bt_get captured i")
      (auto simp: component_span_some widen_def span_over_def
        simp flip: Min.set_eq_fold Max.set_eq_fold)
qed (simp add: ok_or_def)

abbreviation captured_map :: "ScopeCutBodyV1 \<Rightarrow> (string, instant) btree_map" where
  "captured_map body \<equiv>
     bt_from (map (\<lambda>s. (ss_source_snapshot_id s, ss_captured_at s)) (cb_source_snapshots body))"

lemma captured_map_get: "bt_get (captured_map body) i = captured_time body i"
  by (simp add: bt_get_from captured_time_def rev_map)

lemma collect_spans_Ok:
  "collect_spans (captured_map body) cs acc = Ok spans \<longleftrightarrow>
     (\<forall>c \<in> set cs. cites_known body c) \<and>
     spans = fold (\<lambda>(k, v). bt_insert k v)
       (map (\<lambda>c. (cp_component_id c, span_over (cited_times body c))) cs) acc"
proof (induction cs arbitrary: acc)
  case (Cons c cs)
  have "component_span (captured_map body) (cp_component_id c) (cp_source_snapshot_ids c) None = Ok r \<longleftrightarrow>
      cites_known body c \<and> r = span_over (cited_times body c)" for r
    by (simp add: component_span_Ok captured_map_get cites_known_def cited_times_def list_all_iff)
  with Cons show ?case by (auto simp: and_then_Ok)
qed auto

lemma observation_spans_Ok:
  "observation_spans body = Ok spans \<longleftrightarrow>
     (\<forall>c \<in> set (cb_components body). cites_known body c) \<and>
     spans = bt_from (map (\<lambda>c. (cp_component_id c, span_over (cited_times body c))) (cb_components body))"
  unfolding observation_spans_def Let_def collect_spans_Ok by (simp add: bt_from_def)

lemma spans_get: "observation_spans body = Ok spans \<Longrightarrow> bt_get spans = observed body"
  by (simp add: observation_spans_Ok bt_get_from observed_def fun_eq_iff rev_map)

lemma neighbors_add_edge:
  "neighbors (add_edge e adj) u =
     (if u = re_consumer e then neighbors adj u @ [re_provider e] else neighbors adj u)"
  by (simp add: add_edge_def neighbors_def)

lemma set_neighbors_fold:
  "set (neighbors (fold add_edge es adj) u) =
     set (neighbors adj u) \<union> {re_provider e |e. e \<in> set es \<and> re_consumer e = u}"
  by (induction es arbitrary: adj) (auto simp: neighbors_add_edge)

lemma keys_fold: "fst ` set (fold add_edge es adj) = fst ` set adj \<union> re_consumer ` set es"
  by (induction es arbitrary: adj) (auto simp: add_edge_def)

lemma required_edges_relation:
  "{(re_consumer e, re_provider e) |e. e \<in> set (required_edges body)} = required_relation body"
  by (force simp: required_edges_def required_relation_def image_iff)

lemma adjacency_relation: "edge_relation (adjacency_of (required_edges body)) = required_relation body"
  unfolding required_edges_relation [symmetric]
  by (auto simp: edge_relation_def adjacency_of_def set_neighbors_fold) (simp add: neighbors_def)

lemma adjacency_keys: "set (bt_keys (adjacency_of (required_edges body))) = Domain (required_relation body)"
  unfolding required_edges_relation [symmetric]
  by (auto simp: bt_keys_def adjacency_of_def keys_fold)

lemma span_of_Ok [checks]: "span_of spans c = Ok s \<longleftrightarrow> bt_get spans c = Some s"
  by (auto simp: span_of_def ok_or_def split: option.splits)

lemma check_edge_order_Ok:
  "check_edge_order spans es = Ok () \<longleftrightarrow>
     (\<forall>e \<in> set es. \<exists>sc sp. bt_get spans (re_consumer e) = Some sc \<and>
        bt_get spans (re_provider e) = Some sp \<and> latest sp \<le> latest sc)"
proof (induction es)
  case (Cons e es)
  have "check_edge_order spans (e # es) = Ok () \<longleftrightarrow>
      (\<exists>sc sp. bt_get spans (re_consumer e) = Some sc \<and> bt_get spans (re_provider e) = Some sp \<and>
        latest sp \<le> latest sc) \<and> check_edge_order spans es = Ok ()"
    by (auto simp: and_then_Ok span_of_Ok not_less split: if_splits)
  with Cons show ?case by simp
qed simp

lemma closure_extent_Ok:
  "closure_extent spans ms early late = Ok r \<longleftrightarrow>
     (\<forall>m \<in> set ms. bt_get spans m \<noteq> None) \<and>
     r = (Min (insert early ((\<lambda>m. earliest (the (bt_get spans m))) ` set ms)),
          Max (insert late ((\<lambda>m. latest (the (bt_get spans m))) ` set ms)))"
proof (induction ms arbitrary: early late)
  case (Cons m ms)
  show ?case
  proof (cases "bt_get spans m")
    case (Some s)
    let ?E = "(\<lambda>m. earliest (the (bt_get spans m))) ` set ms"
    let ?L = "(\<lambda>m. latest (the (bt_get spans m))) ` set ms"
    have "Min (insert (min early (earliest s)) ?E) = Min (insert early (insert (earliest s) ?E))"
      "Max (insert (max late (latest s)) ?L) = Max (insert late (insert (latest s) ?L))"
      by (cases "set ms = {}"; simp add: min.assoc max.assoc)+
    with Some Cons.IH show ?thesis by (simp add: and_then_Ok span_of_Ok)
  qed (simp add: and_then_Ok span_of_Ok)
qed auto

lemma num_seconds_mono: "a \<le> b \<Longrightarrow> num_seconds a \<le> num_seconds b"
  by (auto simp: num_seconds_def sgn_if zdiv_mono1 abs_if pos_imp_zdiv_nonneg_iff
      intro: order_trans [of _ 0])

text \<open>The extent of a set of spans, tested once, is the test of every pair.\<close>

lemma extent_pairwise:
  assumes "finite M" "M \<noteq> {}"
  shows "num_seconds (Max (f ` M) - Min (g ` M)) \<le> w \<longleftrightarrow>
    (\<forall>u \<in> M. \<forall>v \<in> M. num_seconds (f u - g v) \<le> w)"
proof
  assume "num_seconds (Max (f ` M) - Min (g ` M)) \<le> w"
  moreover have "f u - g v \<le> Max (f ` M) - Min (g ` M)" if "u \<in> M" "v \<in> M" for u v
    using that assms by (intro diff_mono) auto
  ultimately show "\<forall>u \<in> M. \<forall>v \<in> M. num_seconds (f u - g v) \<le> w"
    using num_seconds_mono order_trans by blast
next
  assume *: "\<forall>u \<in> M. \<forall>v \<in> M. num_seconds (f u - g v) \<le> w"
  have "Max (f ` M) \<in> f ` M" "Min (g ` M) \<in> g ` M" using assms by simp_all
  with * show "num_seconds (Max (f ` M) - Min (g ` M)) \<le> w" by auto
qed

lemma check_windows_Ok:
  "check_windows adj spans seconds starts = Ok () \<longleftrightarrow>
     (\<forall>c \<in> set starts. \<forall>u \<in> reach adj `` {c}. bt_get spans u \<noteq> None \<and>
        (\<forall>v \<in> reach adj `` {c}. num_seconds (latest (the (bt_get spans u)) - earliest (the (bt_get spans v)))
           \<le> min (uint seconds) (2 ^ 63 - 1)))"
proof (induction starts)
  case (Cons c starts)
  let ?M = "reach adj `` {c}"
  have M: "set (required_closure c adj) = ?M" "c \<in> ?M" "?M \<noteq> {}" and fin: "finite ?M"
    using required_closure_reachable [of c adj] finite_set [of "required_closure c adj"] by auto
  show ?case
  proof (cases "bt_get spans c")
    case None
    with M(2) show ?thesis by (auto simp: and_then_Ok span_of_Ok)
  next
    case (Some s)
    let ?f = "\<lambda>m. latest (the (bt_get spans m))" and ?g = "\<lambda>m. earliest (the (bt_get spans m))"
    have "insert (earliest s) (?g ` ?M) = ?g ` ?M" "insert (latest s) (?f ` ?M) = ?f ` ?M"
      using M(2) Some by force+
    then have "closure_extent spans (required_closure c adj) (earliest s) (latest s) = Ok r \<longleftrightarrow>
        (\<forall>m \<in> ?M. bt_get spans m \<noteq> None) \<and> r = (Min (?g ` ?M), Max (?f ` ?M))" for r
      by (simp only: closure_extent_Ok M(1))
    then have "check_windows adj spans seconds (c # starts) = Ok () \<longleftrightarrow>
        (\<forall>m \<in> ?M. bt_get spans m \<noteq> None) \<and>
        num_seconds (Max (?f ` ?M) - Min (?g ` ?M)) \<le> min (uint seconds) (2 ^ 63 - 1) \<and>
        check_windows adj spans seconds starts = Ok ()"
      using Some by (auto simp: and_then_Ok span_of_Ok Let_def split: if_splits)
    then show ?thesis
      unfolding extent_pairwise [OF fin M(3)] Cons.IH list.set by blast
  qed
qed simp

section \<open>Inconsistent cycles\<close>

lemma length_bs_from: "length (bs_from xs) = card (set xs)"
  using bs_ordered_from [of xs] distinct_card [of "bs_from xs"]
  by (simp add: bs_ordered_def strict_sorted_iff)

lemma set_map_filter: "set (List.map_filter f xs) = {y. \<exists>x \<in> set xs. f x = Some y}"
  by (induction xs) (auto simp: List.map_filter_simps split: option.splits)

lemma card_many: "finite A \<Longrightarrow> card A > 1 \<longleftrightarrow> (\<exists>s \<in> A. \<exists>t \<in> A. s \<noteq> t)"
  using card_le_Suc0_iff_eq [of A] by (auto simp: not_le [symmetric])

lemma scc_latests_many:
  "length (scc_latests spans C) > 1 \<longleftrightarrow>
     (\<exists>u \<in> set C. \<exists>v \<in> set C. \<exists>su sv. bt_get spans u = Some su \<and> bt_get spans v = Some sv \<and>
        latest su \<noteq> latest sv)"
  unfolding scc_latests_def length_bs_from card_many [OF finite_set]
  unfolding set_map_filter by auto

lemma first_inconsistent_Some:
  "first_inconsistent adj spans cs = Some ms \<Longrightarrow>
     \<exists>C \<in> set cs. ms = sort C \<and> length (scc_latests spans C) > 1"
  by (induction cs) (auto split: if_splits)

lemma first_inconsistent_None:
  "first_inconsistent adj spans cs = None \<longleftrightarrow>
     (\<forall>C \<in> set cs. \<not> (scc_is_cycle adj C \<and> length (scc_latests spans C) > 1))"
  by (induction cs) auto

definition torn_cycle :: "('v \<times> 'v) set \<Rightarrow> ('v \<Rightarrow> ObservationSpan option) \<Rightarrow> bool" where
  "torn_cycle R obs \<longleftrightarrow> (\<exists>u v su sv. (u, v) \<in> R\<^sup>* \<and> (v, u) \<in> R\<^sup>* \<and>
     obs u = Some su \<and> obs v = Some sv \<and> latest su \<noteq> latest sv)"

lemma reached_node:
  assumes "(u, v) \<in> reach adj" "u \<noteq> v"
  shows "v \<in> set (graph_nodes adj)"
  using assms by (cases rule: rtranclE) (auto dest: neighbor_in_nodes(1))

lemma inconsistent_required_cycle_cases:
  obtains
    (consistent) "inconsistent_required_cycle adj spans = Some None"
      "\<not> torn_cycle (edge_relation adj) (bt_get spans)"
  | (torn) ms where "inconsistent_required_cycle adj spans = Some (Some ms)"
      "torn_cycle (edge_relation adj) (bt_get spans)"
      "sorted_wrt (<) ms" "is_scc (edge_relation adj) (set ms)"
proof -
  obtain cs where cs: "required_sccs adj = Some cs" using tarjan.total by blast
  show thesis
  proof (cases "first_inconsistent adj spans cs")
    case None
    have "\<not> torn_cycle (edge_relation adj) (bt_get spans)"
    proof
      assume "torn_cycle (edge_relation adj) (bt_get spans)"
      then obtain u v su sv where uv: "(u, v) \<in> reach adj" "(v, u) \<in> reach adj"
        and s: "bt_get spans u = Some su" "bt_get spans v = Some sv" "latest su \<noteq> latest sv"
        unfolding torn_cycle_def by blast
      then have "u \<noteq> v" by auto
      with tarjan.mutual_in_one_component [OF cs reached_node [OF uv(1)] uv] obtain C where
        C: "C \<in> set cs" "u \<in> set C" "v \<in> set C" by blast
      with \<open>u \<noteq> v\<close> have "card (set C) > 1" unfolding card_many [OF finite_set] by blast
      then have "scc_is_cycle adj C" using card_length [of C] by (simp add: scc_is_cycle_def)
      with None C s show False unfolding first_inconsistent_None scc_latests_many by blast
    qed
    with None cs consistent show thesis by (simp add: inconsistent_required_cycle_def)
  next
    case (Some ms)
    then obtain C where C: "C \<in> set cs" "ms = sort C" "length (scc_latests spans C) > 1"
      using first_inconsistent_Some by blast
    have scc: "distinct C" "is_scc (edge_relation adj) (set C)" using tarjan.exact [OF cs C(1)] by simp_all
    have "torn_cycle (edge_relation adj) (bt_get spans)"
      using C(3) tarjan.component_mutual [OF cs C(1)] unfolding scc_latests_many torn_cycle_def by blast
    moreover have "sorted_wrt (<) ms" "is_scc (edge_relation adj) (set ms)"
      using scc C(2) by (simp_all add: strict_sorted_iff)
    ultimately show thesis using torn Some cs by (simp add: inconsistent_required_cycle_def)
  qed
qed

text \<open>When no provider is later than its consumer, no cycle is torn.\<close>

lemma ordered_edges_not_torn:
  assumes "\<And>c p. (c, p) \<in> R \<Longrightarrow> \<exists>sc sp. obs c = Some sc \<and> obs p = Some sp \<and> latest sp \<le> latest sc"
  shows "\<not> torn_cycle R obs"
proof -
  have "obs u = Some su \<Longrightarrow> obs v = Some sv \<Longrightarrow> latest sv \<le> latest su" if "(u, v) \<in> R\<^sup>*" for u v su sv
    using that
  proof (induction arbitrary: sv)
    case (step v w)
    from assms [OF step(2)] obtain sv' sw where "obs v = Some sv'" "obs w = Some sw"
      "latest sw \<le> latest sv'"
      by blast
    with step show ?case by fastforce
  qed simp
  then show ?thesis unfolding torn_cycle_def by (metis order_antisym)
qed

lemma evaluate_policy_Ok:
  assumes spans: "observation_spans body = Ok spans"
  shows "evaluate_policy (required_edges body) spans (RequiredObservationV1 seconds) = Some (Ok ()) \<longleftrightarrow>
    (\<forall>e \<in> required_relation body. provider_in_time body e) \<and>
    (\<forall>c \<in> Domain (required_relation body). closure_in_window body seconds c)"
proof -
  let ?adj = "adjacency_of (required_edges body)"
  have get: "bt_get spans = observed body" using spans_get [OF spans] .
  have order: "check_edge_order spans (required_edges body) = Ok () \<longleftrightarrow>
      (\<forall>e \<in> required_relation body. provider_in_time body e)"
    unfolding check_edge_order_Ok get required_edges_relation [symmetric] provider_in_time_def by fast
  have known: "observed body u \<noteq> None"
    if "\<forall>e \<in> required_relation body. provider_in_time body e" "c \<in> Domain (required_relation body)"
      "(c, u) \<in> (required_relation body)\<^sup>*" for c u
    using that(3,1,2) by (cases rule: rtranclE) (auto simp: provider_in_time_def)
  have "check_windows ?adj spans seconds (bt_keys ?adj) = Ok () \<longleftrightarrow>
      (\<forall>c \<in> Domain (required_relation body). closure_in_window body seconds c)"
    if "\<forall>e \<in> required_relation body. provider_in_time body e"
    unfolding check_windows_Ok get adjacency_relation adjacency_keys closure_in_window_def
    using known [OF that] by blast
  moreover have "inconsistent_required_cycle ?adj spans = Some None"
    if "\<forall>e \<in> required_relation body. provider_in_time body e"
  proof -
    have "\<not> torn_cycle (required_relation body) (observed body)"
      using that by (intro ordered_edges_not_torn) (auto simp: provider_in_time_def)
    then show ?thesis
      by (cases rule: inconsistent_required_cycle_cases [of ?adj spans])
        (simp_all add: adjacency_relation get)
  qed
  ultimately show ?thesis
    using order by (auto simp: Let_def and_then_Ok split: option.splits)
qed

lemma evaluate_cut_coherence_Ok:
  "evaluate_cut_coherence body (RequiredObservationV1 seconds) = Some (Ok ()) \<longleftrightarrow> coherent_cut body seconds"
proof (cases "observation_spans body")
  case (Ok spans)
  then have "\<forall>c \<in> set (cb_components body). cites_known body c" by (simp add: observation_spans_Ok)
  with Ok evaluate_policy_Ok [OF Ok] show ?thesis
    by (simp add: evaluate_cut_coherence_def coherent_cut_def del: evaluate_policy.simps)
next
  case (Err e)
  then have "\<not> (\<forall>c \<in> set (cb_components body). cites_known body c)"
    using observation_spans_Ok [of body] by auto
  with Err show ?thesis by (auto simp: evaluate_cut_coherence_def coherent_cut_def)
qed

text \<open>No other stage reports a cycle.\<close>

definition cycle_refusal :: "CutCoherenceRefusal \<Rightarrow> bool" where
  "cycle_refusal e \<longleftrightarrow> (case e of InconsistentRequiredCycle _ \<Rightarrow> True | _ \<Rightarrow> False)"

lemma span_of_Err: "span_of spans c = Err e \<Longrightarrow> \<not> cycle_refusal e"
  by (auto simp: span_of_def ok_or_def cycle_refusal_def split: option.splits)

lemma component_span_Err: "component_span captured c ids sp = Err e \<Longrightarrow> \<not> cycle_refusal e"
  by (induction captured c ids sp rule: component_span.induct)
    (auto simp: ok_or_def cycle_refusal_def split: option.splits)

lemma observation_spans_Err: "observation_spans body = Err e \<Longrightarrow> \<not> cycle_refusal e"
proof -
  have "collect_spans captured cs acc = Err e \<Longrightarrow> \<not> cycle_refusal e" for captured cs acc
    by (induction cs arbitrary: acc) (auto simp: and_then_Err dest: component_span_Err)
  then show "observation_spans body = Err e \<Longrightarrow> ?thesis" by (simp add: observation_spans_def Let_def)
qed

lemma check_edge_order_Err: "check_edge_order spans es = Err e \<Longrightarrow> \<not> cycle_refusal e"
  by (induction es) (auto simp: and_then_Err cycle_refusal_def dest: span_of_Err split: if_splits)

lemma closure_extent_Err: "closure_extent spans ms early late = Err e \<Longrightarrow> \<not> cycle_refusal e"
  by (induction ms arbitrary: early late) (auto simp: and_then_Err dest: span_of_Err)

lemma check_windows_Err: "check_windows adj spans seconds starts = Err e \<Longrightarrow> \<not> cycle_refusal e"
proof (induction starts)
  case (Cons c starts)
  have exceeded: "\<not> cycle_refusal (RequiredClosureWindowExceeded c n w)" for n w
    by (simp add: cycle_refusal_def)
  from Cons.prems show ?case
    by (auto simp: and_then_Err Let_def exceeded split: if_splits prod.splits
        dest: span_of_Err closure_extent_Err Cons.IH)
qed simp

section \<open>Properties\<close>


text \<open>
  C39. A cut is refused as an inconsistent cycle exactly when its components cite known snapshots and
  two components that require each other, directly or through others, were last observed at
  different instants. The refusal lists one whole strongly connected component of the required
  dependencies in ascending order.
\<close>

theorem inconsistent_cycle_exact:
  "case evaluate_cut_coherence body (RequiredObservationV1 seconds) of
     Some (Err (InconsistentRequiredCycle ms)) \<Rightarrow>
       list_all (cites_known body) (cb_components body) \<and>
       torn_cycle (required_relation body) (observed body) \<and>
       sorted_wrt (<) ms \<and> is_scc (required_relation body) (set ms)
   | _ \<Rightarrow>
       \<not> (list_all (cites_known body) (cb_components body) \<and>
          torn_cycle (required_relation body) (observed body))"
proof (cases "observation_spans body")
  case (Ok spans)
  let ?adj = "adjacency_of (required_edges body)"
  have known: "list_all (cites_known body) (cb_components body)"
    using Ok by (simp add: observation_spans_Ok list_all_iff)
  show ?thesis
  proof (cases rule: inconsistent_required_cycle_cases [of ?adj spans])
    case consistent
    let ?r = "and_then (check_edge_order spans (required_edges body))
      (\<lambda>_. check_windows ?adj spans seconds (bt_keys ?adj))"
    have "evaluate_cut_coherence body (RequiredObservationV1 seconds) = Some ?r"
      using consistent Ok by (simp add: evaluate_cut_coherence_def Let_def)
    moreover have "\<not> cycle_refusal e" if "?r = Err e" for e
      using that by (auto simp: and_then_Err dest: check_edge_order_Err check_windows_Err)
    ultimately show ?thesis
      using consistent(2) known
      by (auto simp: adjacency_relation spans_get [OF Ok] cycle_refusal_def
          split: result.split CutCoherenceRefusal.split)
  next
    case (torn ms)
    with Ok known show ?thesis
      by (simp add: evaluate_cut_coherence_def adjacency_relation spans_get [OF Ok])
  qed
next
  case (Err e)
  then have "\<not> list_all (cites_known body) (cb_components body)"
    using observation_spans_Ok [of body] by (auto simp: list_all_iff)
  with Err observation_spans_Err [OF Err] show ?thesis
    by (auto simp: evaluate_cut_coherence_def cycle_refusal_def split: CutCoherenceRefusal.split)
qed

text \<open>
  C31. A witness is accepted for a cut exactly when it is the witness that the checker itself
  computes for that cut under the policy the witness declares: nothing a witness asserts is taken
  on trust.
\<close>

theorem accepted_witness_is_computed_witness:
  "verify_admissible x published witness = Some (Ok \<lparr> ac_cut = published, ac_witness = witness \<rparr>) \<longleftrightarrow>
   compute_cut_coherence_witness x published (cw_policy witness) = Some (Ok witness)"
proof -
  let ?eval = "evaluate_cut_coherence (pc_cut published) (cw_policy witness)"
  have version: "policy_version (cw_policy witness) = REQUIRED_OBSERVATION_V1_CLAIM"
    by (cases "cw_policy witness") simp
  have "verify_admissible x published witness = Some (Ok \<lparr> ac_cut = published, ac_witness = witness \<rparr>) \<longleftrightarrow>
      cw_cut_digest witness = pc_cut_digest published \<and> cw_schema witness = CUT_COHERENCE_WITNESS_SCHEMA \<and>
      cw_coherence_claim witness = REQUIRED_OBSERVATION_V1_CLAIM \<and>
      expected_digest x witness = Ok (cw_witness_digest witness) \<and> ?eval = Some (Ok ())"
    by (auto simp: verify_admissible_def version map_ok_Ok split: result.splits)
  also have "\<dots> \<longleftrightarrow> compute_cut_coherence_witness x published (cw_policy witness) = Some (Ok witness)"
    by (cases witness) (auto simp: compute_cut_coherence_witness_def expected_digest_def and_then_Ok map_ok_Ok)
  finally show ?thesis .
qed

end
