(* ===== verification/Refusal_Carriers.thy ===== *)
theory Refusal_Carriers
  imports Profile_Validation
begin

text \<open>
  The refusals the engine keeps (\<open>nq-core/src/engine.rs\<close>) and the acquisition outcomes they are
  made of (\<open>nq-core/src/runner.rs\<close>), with the checks each carrier runs on itself, and the profile
  registry (\<open>nq-profiles/src/registry.rs\<close>) over the descriptors of the compiled modules, which
  are an argument. What \<open>serde_json\<close> says about one of its errors is a parameter. Of the engine's
  error type the variants that the modelled operations return are present.
\<close>

section \<open>Errors\<close>

text \<open>
  A formatted text with quoted or listed parts is kept as its arguments. \<open>EngineStoredReport\<close> is the
  invariant error of a stored report that the protocol refuses. \<open>EnginePanicked\<close> stands for a panic
  of a detector, which ends the evaluation, and \<open>StorePanicked\<close> for a panic of a string slice.
\<close>

datatype StoreRefusal = Capacity string | Contention string | HistoryChanged string

datatype StoreError =
    StoreInvariant "string list"
  | StoreCanonicalJson string
  | StoreSqlite string
  | StoreIntegrity "string list"
  | StoreIo string
  | StoreWatermarkWrite string
  | StoreRefused StoreRefusal
  | StorePanicked

datatype EngineError =
    EngineStore StoreError
  | EngineCanonical string
  | EngineInvariant "string list"
  | EngineStoredReport ValidationError
  | EnginePanicked

section \<open>The profile registry\<close>

definition resolve_profile :: "ProfileDescriptor list \<Rightarrow> string \<Rightarrow> u32 \<Rightarrow> ProfileDescriptor option" where
  "resolve_profile profiles i version =
     List.find (\<lambda>d. pk_id (pd_profile d) = i \<and> pk_version (pd_profile d) = version) profiles"

definition resolve_profile_key :: "ProfileDescriptor list \<Rightarrow> ProfileKey \<Rightarrow> ProfileDescriptor option" where
  "resolve_profile_key profiles key = resolve_profile profiles (pk_id key) (pk_version key)"

section \<open>Acquisition\<close>

datatype ExchangeTimeoutPhase = WriteRequest | ReadResponse

datatype AcquisitionOutcome =
    Response
  | SpawnFailed string
  | RequestWriteFailed string
  | Timeout
  | ExchangeTimeout ExchangeTimeoutPhase
  | OutputTooLarge
  | StderrTooLarge
  | Eof
  | MalformedFraming string
  | MalformedJson string
  | ExitNonzero "int option"
  | HelperExited "int option"
  | Disconnect string
  | CarrierStartupFailed string
  | NotRunning
  | IoFailed string

datatype RetryDisposition = Retriable | NonRetriable | Unspecified

datatype AcquisitionFailureClass =
    SpawnFailed | RequestWriteFailed | Timeout | OutputTooLarge | StderrTooLarge | Eof
  | MalformedFraming | MalformedJson | ExitNonzero | HelperExited | Disconnect
  | CarrierStartupFailed | NotRunning | IoFailed

record AcquisitionFailure =
  af_class :: AcquisitionFailureClass
  af_retry :: RetryDisposition
  af_outcome :: AcquisitionOutcome

record AcquisitionRefusal =
  aq_responsible_instance_id :: string
  aq_failure :: AcquisitionFailure

fun outcome_class :: "AcquisitionOutcome \<Rightarrow> AcquisitionFailureClass option" where
  "outcome_class AcquisitionOutcome.Response = None"
| "outcome_class (AcquisitionOutcome.SpawnFailed _) = Some AcquisitionFailureClass.SpawnFailed"
| "outcome_class (AcquisitionOutcome.RequestWriteFailed _) = Some AcquisitionFailureClass.RequestWriteFailed"
| "outcome_class AcquisitionOutcome.Timeout = Some AcquisitionFailureClass.Timeout"
| "outcome_class (AcquisitionOutcome.ExchangeTimeout _) = Some AcquisitionFailureClass.Timeout"
| "outcome_class AcquisitionOutcome.OutputTooLarge = Some AcquisitionFailureClass.OutputTooLarge"
| "outcome_class AcquisitionOutcome.StderrTooLarge = Some AcquisitionFailureClass.StderrTooLarge"
| "outcome_class AcquisitionOutcome.Eof = Some AcquisitionFailureClass.Eof"
| "outcome_class (AcquisitionOutcome.MalformedFraming _) = Some AcquisitionFailureClass.MalformedFraming"
| "outcome_class (AcquisitionOutcome.MalformedJson _) = Some AcquisitionFailureClass.MalformedJson"
| "outcome_class (AcquisitionOutcome.ExitNonzero _) = Some AcquisitionFailureClass.ExitNonzero"
| "outcome_class (AcquisitionOutcome.HelperExited _) = Some AcquisitionFailureClass.HelperExited"
| "outcome_class (AcquisitionOutcome.Disconnect _) = Some AcquisitionFailureClass.Disconnect"
| "outcome_class (AcquisitionOutcome.CarrierStartupFailed _) =
     Some AcquisitionFailureClass.CarrierStartupFailed"
| "outcome_class AcquisitionOutcome.NotRunning = Some AcquisitionFailureClass.NotRunning"
| "outcome_class (AcquisitionOutcome.IoFailed _) = Some AcquisitionFailureClass.IoFailed"

definition from_outcome :: "AcquisitionOutcome \<Rightarrow> AcquisitionFailure option" where
  "from_outcome outcome =
     map_option (\<lambda>c. \<lparr> af_class = c, af_retry = Unspecified, af_outcome = outcome \<rparr>)
       (outcome_class outcome)"

definition validate_acquisition_failure :: "AcquisitionFailure \<Rightarrow> (unit, EngineError) result" where
  "validate_acquisition_failure self =
     and_then
       (ok_or (EngineInvariant [''response cannot be represented as acquisition failure''])
         (from_outcome (af_outcome self)))
       (\<lambda>expected. refuse_if (af_class self \<noteq> af_class expected \<or> af_retry self \<noteq> af_retry expected)
          (EngineInvariant [''acquisition failure projections disagree with its exact outcome'']))"

section \<open>Protocol rejections\<close>

datatype JsonErrorCategory = Io | Syntax | Data | Eof

record StructuredJsonError =
  sje_category :: JsonErrorCategory
  sje_line :: usize
  sje_column :: usize
  sje_diagnostic :: string

datatype ProtocolCanonicalizationFailure =
    Serialization StructuredJsonError
  | UnsafeInteger string

datatype ProtocolValidationFailure =
    InvalidSchema string string string
  | InvalidProtocolVersion string string
  | InvalidField string string
  | BoundExceeded string usize usize
  | Duplicate string string
  | EchoMismatch string
  | CapabilityEscape string
  | Canonicalization string ProtocolCanonicalizationFailure

datatype ProtocolRejectionFailure =
    FrameTooLarge usize usize
  | InvalidFraming
  | InvalidJson StructuredJsonError
  | Validation ProtocolValidationFailure
  | Canonicalization ProtocolCanonicalizationFailure

datatype ProtocolRejectionBoundary = Response

datatype ProtocolRejectionCode = InvalidResponse

record ProtocolRejection =
  pj_responsible_instance_id :: string
  pj_boundary :: ProtocolRejectionBoundary
  pj_code :: ProtocolRejectionCode
  pj_failure :: ProtocolRejectionFailure

record refusal_externals = profile_externals +
  structured_json_error :: "json_error \<Rightarrow> StructuredJsonError"
  structured_serialization_error :: "string \<Rightarrow> StructuredJsonError"
  failure_class_to_value :: "AcquisitionFailureClass \<Rightarrow> (json, string) result"
  rejection_boundary_to_value :: "ProtocolRejectionBoundary \<Rightarrow> (json, string) result"
  rejection_code_to_value :: "ProtocolRejectionCode \<Rightarrow> (json, string) result"
  helper_boundary_to_value :: "RefusalBoundary \<Rightarrow> (json, string) result"
  helper_code_to_value :: "RefusalCode \<Rightarrow> (json, string) result"
  profile_boundary_to_value :: "ProfileRefusalBoundary \<Rightarrow> (json, string) result"
  profile_code_to_value :: "ProfileRefusalCode \<Rightarrow> (json, string) result"

fun protocol_canonicalization_failure ::
  "'x refusal_externals_scheme \<Rightarrow> CanonicalizationError \<Rightarrow> ProtocolCanonicalizationFailure" where
  "protocol_canonicalization_failure x (CanonicalizationError.Serialization e) =
     ProtocolCanonicalizationFailure.Serialization (structured_serialization_error x e)"
| "protocol_canonicalization_failure x (CanonicalizationError.UnsafeInteger v) =
     ProtocolCanonicalizationFailure.UnsafeInteger v"

fun protocol_validation_failure ::
  "'x refusal_externals_scheme \<Rightarrow> ValidationError \<Rightarrow> ProtocolValidationFailure" where
  "protocol_validation_failure x (ValidationError.InvalidSchema document expected actual) =
     ProtocolValidationFailure.InvalidSchema document expected actual"
| "protocol_validation_failure x (ValidationError.InvalidProtocolVersion expected actual) =
     ProtocolValidationFailure.InvalidProtocolVersion expected actual"
| "protocol_validation_failure x (ValidationError.InvalidField field reason) =
     ProtocolValidationFailure.InvalidField field reason"
| "protocol_validation_failure x (ValidationError.BoundExceeded field limit actual) =
     ProtocolValidationFailure.BoundExceeded field limit actual"
| "protocol_validation_failure x (ValidationError.Duplicate field value) =
     ProtocolValidationFailure.Duplicate field value"
| "protocol_validation_failure x (ValidationError.EchoMismatch field) =
     ProtocolValidationFailure.EchoMismatch field"
| "protocol_validation_failure x (ValidationError.CapabilityEscape capability) =
     ProtocolValidationFailure.CapabilityEscape capability"
| "protocol_validation_failure x (ValidationError.Canonicalization field source) =
     ProtocolValidationFailure.Canonicalization field (protocol_canonicalization_failure x source)"

fun rejection_failure ::
  "'x refusal_externals_scheme \<Rightarrow> FramingError \<Rightarrow> ProtocolRejectionFailure" where
  "rejection_failure x (TooLarge limit actual) = FrameTooLarge limit actual"
| "rejection_failure x NotExactlyOneLine = InvalidFraming"
| "rejection_failure x (Json e) = InvalidJson (structured_json_error x e)"
| "rejection_failure x (FramingError.Validation e) =
     ProtocolRejectionFailure.Validation (protocol_validation_failure x e)"
| "rejection_failure x (FrameCanonicalization e) =
     ProtocolRejectionFailure.Canonicalization (protocol_canonicalization_failure x e)"

definition protocol_rejection ::
  "'x refusal_externals_scheme \<Rightarrow> string \<Rightarrow> FramingError \<Rightarrow> ProtocolRejection" where
  "protocol_rejection x instance_id e =
     \<lparr> pj_responsible_instance_id = instance_id, pj_boundary = ProtocolRejectionBoundary.Response,
       pj_code = InvalidResponse, pj_failure = rejection_failure x e \<rparr>"

section \<open>Governed refusals\<close>

record GovernedProfileRefusal =
  gpr_profile_semantic_id :: Sha256Digest
  gpr_refusal :: ProfileRefusal

datatype GovernedRefusalOrigin =
    Acquisition AcquisitionRefusal
  | Protocol ProtocolRejection
  | Helper Refusal
  | Profile GovernedProfileRefusal

record GovernedRefusal =
  gr_refusal_id :: string
  gr_origin :: GovernedRefusalOrigin

definition governed_acquisition :: "string \<Rightarrow> AcquisitionRefusal \<Rightarrow> GovernedRefusal" where
  "governed_acquisition refusal_id refusal =
     \<lparr> gr_refusal_id = refusal_id, gr_origin = GovernedRefusalOrigin.Acquisition refusal \<rparr>"

definition governed_protocol :: "string \<Rightarrow> ProtocolRejection \<Rightarrow> GovernedRefusal" where
  "governed_protocol refusal_id refusal =
     \<lparr> gr_refusal_id = refusal_id, gr_origin = GovernedRefusalOrigin.Protocol refusal \<rparr>"

definition governed_helper :: "string \<Rightarrow> Refusal \<Rightarrow> GovernedRefusal" where
  "governed_helper refusal_id refusal =
     \<lparr> gr_refusal_id = refusal_id, gr_origin = GovernedRefusalOrigin.Helper refusal \<rparr>"

definition governed_profile :: "string \<Rightarrow> Sha256Digest \<Rightarrow> ProfileRefusal \<Rightarrow> GovernedRefusal" where
  "governed_profile refusal_id semantic_id refusal =
     \<lparr> gr_refusal_id = refusal_id, gr_origin = GovernedRefusalOrigin.Profile
        \<lparr> gpr_profile_semantic_id = semantic_id, gpr_refusal = refusal \<rparr> \<rparr>"

fun origin_instance_id :: "GovernedRefusalOrigin \<Rightarrow> string" where
  "origin_instance_id (GovernedRefusalOrigin.Acquisition r) = aq_responsible_instance_id r"
| "origin_instance_id (GovernedRefusalOrigin.Protocol r) = pj_responsible_instance_id r"
| "origin_instance_id (GovernedRefusalOrigin.Helper r) = rfs_responsible_instance_id r"
| "origin_instance_id (GovernedRefusalOrigin.Profile p) = pr_instance_id (gpr_refusal p)"

definition responsible_instance_id :: "GovernedRefusal \<Rightarrow> string" where
  "responsible_instance_id self = origin_instance_id (gr_origin self)"

text \<open>The carrier's own table of helper refusal codes and boundaries.\<close>

fun carried_boundary :: "RefusalCode \<Rightarrow> RefusalBoundary" where
  "carried_boundary RefusalCode.UnsupportedProtocol = RefusalBoundary.Protocol"
| "carried_boundary RefusalCode.UnknownProfile = RefusalBoundary.Profile"
| "carried_boundary RefusalCode.ProfileDigestMismatch = RefusalBoundary.Profile"
| "carried_boundary RefusalCode.UnsupportedScope = RefusalBoundary.Scope"
| "carried_boundary RefusalCode.UnsupportedVantage = RefusalBoundary.Vantage"
| "carried_boundary RefusalCode.CapabilityDenied = RefusalBoundary.Capability"
| "carried_boundary RefusalCode.DeadlineExpired = RefusalBoundary.Deadline"
| "carried_boundary RefusalCode.BoundsUnsupported = RefusalBoundary.Resource"
| "carried_boundary RefusalCode.ResourceExhausted = RefusalBoundary.Resource"
| "carried_boundary RefusalCode.CheckpointInvalid = RefusalBoundary.Checkpoint"
| "carried_boundary RefusalCode.CollectionFailed = RefusalBoundary.Collection"
| "carried_boundary RefusalCode.InternalError = RefusalBoundary.Internal"

fun validate_origin :: "GovernedRefusalOrigin \<Rightarrow> (unit, EngineError) result" where
  "validate_origin (GovernedRefusalOrigin.Acquisition refusal) =
     validate_acquisition_failure (aq_failure refusal)"
| "validate_origin (GovernedRefusalOrigin.Protocol refusal) =
     refuse_if (pj_responsible_instance_id refusal = [])
       (EngineInvariant [''protocol refusal responsible instance cannot be empty''])"
| "validate_origin (GovernedRefusalOrigin.Helper refusal) =
     refuse_if (rfs_boundary refusal \<noteq> carried_boundary (rfs_code refusal) \<or> rfs_message refusal = [])
       (EngineInvariant [''helper refusal code, boundary, or message is invalid''])"
| "validate_origin (GovernedRefusalOrigin.Profile p) =
     refuse_if (pk_id (pr_profile (gpr_refusal p)) = [] \<or> pr_message (gpr_refusal p) = [])
       (EngineInvariant [''profile refusal identity or message is empty''])"

definition validate_transport :: "GovernedRefusal \<Rightarrow> (unit, EngineError) result" where
  "validate_transport self = run_checks
     [refuse_if (gr_refusal_id self = [])
        (EngineInvariant [''governed refusal identity cannot be empty'']),
      refuse_if (responsible_instance_id self = [])
        (EngineInvariant [''governed refusal responsible instance cannot be empty'']),
      validate_origin (gr_origin self)]"

definition validate_profile_origin ::
  "'x profile_externals_scheme \<Rightarrow> ProfileDescriptor list \<Rightarrow> GovernedProfileRefusal \<Rightarrow>
   (unit, EngineError) result" where
  "validate_profile_origin x profiles p =
     (let key = pr_profile (gpr_refusal p) in
      and_then
        (ok_or (EngineInvariant [''profile refusal names uncompiled profile'', pk_id key,
            show_nat (unat (pk_version key))])
          (resolve_profile_key profiles key))
        (\<lambda>compiled. and_then
          (map_err (\<lambda>e. EngineCanonical (show_DescriptorError e)) (profile_semantic_id x compiled))
          (\<lambda>expected. refuse_if (gpr_profile_semantic_id p \<noteq> expected)
             (EngineInvariant [''profile refusal semantic identity disagrees with compiled profile'',
               pk_id key, show_nat (unat (pk_version key))]))))"

definition validate_governed ::
  "'x profile_externals_scheme \<Rightarrow> ProfileDescriptor list \<Rightarrow> GovernedRefusal \<Rightarrow>
   (unit, EngineError) result" where
  "validate_governed x profiles self = run_checks
     [validate_transport self,
      (case gr_origin self of
         GovernedRefusalOrigin.Profile p \<Rightarrow> validate_profile_origin x profiles p
       | _ \<Rightarrow> Ok ())]"


definition governed_profile_refusal ::
  "'x profile_externals_scheme \<Rightarrow> string \<Rightarrow> ProfileDescriptor \<Rightarrow> ProfileRefusal \<Rightarrow>
   (GovernedRefusal, EngineError) result" where
  "governed_profile_refusal x refusal_id profile refusal =
     (if pr_profile refusal \<noteq> pd_profile profile
      then Err (EngineInvariant [''profile refusal was produced at another compiled profile boundary'',
        pk_id (pr_profile refusal), show_nat (unat (pk_version (pr_profile refusal))),
        pk_id (pd_profile profile), show_nat (unat (pk_version (pd_profile profile)))])
      else map_ok (\<lambda>semantic_id. governed_profile refusal_id semantic_id refusal)
        (map_err (\<lambda>e. EngineCanonical (show_DescriptorError e)) (profile_semantic_id x profile)))"

text \<open>
  The version of a report that reached normalization is a protocol token, in which \<open>Debug\<close>
  escapes no character.
\<close>

fun show_ReportNormalizationError :: "ReportNormalizationError \<Rightarrow> string" where
  "show_ReportNormalizationError (ProfileVersion v) =
     ''profile version '' @ [CHR 0x22] @ v @ [CHR 0x22] @ '' is not an unsigned integer''"
| "show_ReportNormalizationError (ReportCanonicalization e) =
     ''report canonicalization failed: '' @ e"

definition profile_normalization_refusal ::
  "string \<Rightarrow> ProfileDescriptor \<Rightarrow> ReportNormalizationError \<Rightarrow> ProfileRefusal" where
  "profile_normalization_refusal instance_id profile e =
     \<lparr> pr_instance_id = instance_id, pr_profile = pd_profile profile,
       pr_boundary = ProfileRefusalBoundary.Report, pr_code = ProfileRefusalCode.InvalidPayload,
       pr_message = ''protocol report could not enter profile validation'',
       pr_details = bt_from [(''stage'', ''protocol_normalization''),
         (''error'', show_ReportNormalizationError e)] \<rparr>"

section \<open>Admission refusals\<close>

datatype AdmissionRefusalBoundary =
    ActiveBinding | ExecutionIdentity | Conformance | Storage | Coordination | Profile | Protocol
  | Serialization | Materialization | Internal

datatype AdmissionRefusalCode =
    MissingActiveBinding | BinaryIdentityInvalid | ConfigDrift | ProfileDrift | ProtocolDrift
  | MalformedBinding | ConformanceFailed | ConformanceDrift | StoreFailure | CoordinationFailure
  | UnknownProfile | InvalidIdentityToken | ProtocolFailure | ProfileFailure
  | CanonicalizationFailure | MaterializationFailure | InvariantViolation | UpstreamRefusal

datatype AdmissionRefusalDetails =
    NoDetails
  | BinaryIdentity string
  | ConfigDrift string
  | ProfileDrift string string
  | ProtocolDrift string
  | MalformedBinding string string
  | ConformanceFailed string
  | ConformanceDrift string string
  | Storage string
  | Coordination string
  | ProfileIdentity string u32
  | IdentityToken string
  | Protocol string
  | ProfileProcessing string
  | Canonicalization string
  | Materialization "string option" string
  | Invariant string
  | Governed GovernedRefusal
  | Acquisition AcquisitionFailure

record AdmissionRefusal =
  ar_responsible_instance_id :: string
  ar_boundary :: AdmissionRefusalBoundary
  ar_code :: AdmissionRefusalCode
  ar_details :: AdmissionRefusalDetails

text \<open>
  The boundary and the code that a detail variant belongs to, with the test on its texts. The two
  variants that carry an upstream failure belong to every boundary and have no row.
\<close>

fun details_row ::
  "AdmissionRefusalDetails \<Rightarrow> (AdmissionRefusalBoundary \<times> AdmissionRefusalCode \<times> bool) option" where
  "details_row NoDetails =
     Some (ActiveBinding, AdmissionRefusalCode.MissingActiveBinding, True)"
| "details_row (BinaryIdentity message) =
     Some (ExecutionIdentity, AdmissionRefusalCode.BinaryIdentityInvalid, message \<noteq> [])"
| "details_row (AdmissionRefusalDetails.ConformanceFailed message) =
     Some (Conformance, AdmissionRefusalCode.ConformanceFailed, message \<noteq> [])"
| "details_row (AdmissionRefusalDetails.Storage message) =
     Some (AdmissionRefusalBoundary.Storage, AdmissionRefusalCode.StoreFailure, message \<noteq> [])"
| "details_row (AdmissionRefusalDetails.Coordination message) =
     Some (AdmissionRefusalBoundary.Coordination, AdmissionRefusalCode.CoordinationFailure, message \<noteq> [])"
| "details_row (IdentityToken message) =
     Some (AdmissionRefusalBoundary.Protocol, AdmissionRefusalCode.InvalidIdentityToken, message \<noteq> [])"
| "details_row (AdmissionRefusalDetails.Protocol message) =
     Some (AdmissionRefusalBoundary.Protocol, AdmissionRefusalCode.ProtocolFailure, message \<noteq> [])"
| "details_row (ProfileProcessing message) =
     Some (AdmissionRefusalBoundary.Profile, AdmissionRefusalCode.ProfileFailure, message \<noteq> [])"
| "details_row (AdmissionRefusalDetails.Canonicalization message) =
     Some (AdmissionRefusalBoundary.Serialization, AdmissionRefusalCode.CanonicalizationFailure, message \<noteq> [])"
| "details_row (AdmissionRefusalDetails.Materialization _ message) =
     Some (AdmissionRefusalBoundary.Materialization, AdmissionRefusalCode.MaterializationFailure, message \<noteq> [])"
| "details_row (Invariant message) =
     Some (Internal, AdmissionRefusalCode.InvariantViolation, message \<noteq> [])"
| "details_row (AdmissionRefusalDetails.ConfigDrift observed) =
     Some (ActiveBinding, AdmissionRefusalCode.ConfigDrift, observed \<noteq> [])"
| "details_row (AdmissionRefusalDetails.ProtocolDrift observed) =
     Some (ActiveBinding, AdmissionRefusalCode.ProtocolDrift, observed \<noteq> [])"
| "details_row (AdmissionRefusalDetails.ProfileDrift observed message) =
     Some (ActiveBinding, AdmissionRefusalCode.ProfileDrift, observed \<noteq> [] \<and> message \<noteq> [])"
| "details_row (AdmissionRefusalDetails.MalformedBinding observed message) =
     Some (ActiveBinding, AdmissionRefusalCode.MalformedBinding, observed \<noteq> [] \<and> message \<noteq> [])"
| "details_row (AdmissionRefusalDetails.ConformanceDrift observed message) =
     Some (Conformance, AdmissionRefusalCode.ConformanceDrift, observed \<noteq> [] \<and> message \<noteq> [])"
| "details_row (ProfileIdentity i _) =
     Some (AdmissionRefusalBoundary.Profile, AdmissionRefusalCode.UnknownProfile, i \<noteq> [])"
| "details_row (Governed _) = None"
| "details_row (AdmissionRefusalDetails.Acquisition _) = None"

definition admission_details_disagree :: EngineError where
  "admission_details_disagree =
     EngineInvariant [''admission refusal code disagrees with its typed details'']"

fun upstream_details ::
  "'x profile_externals_scheme \<Rightarrow> ProfileDescriptor list \<Rightarrow> string \<Rightarrow> AdmissionRefusalDetails \<Rightarrow>
   (unit, EngineError) result" where
  "upstream_details x profiles instance_id (Governed refusal) = run_checks
     [validate_governed x profiles refusal,
      refuse_if (responsible_instance_id refusal \<noteq> instance_id)
        (EngineInvariant [''nested governed refusal lost its admission instance association''])]"
| "upstream_details x profiles instance_id (AdmissionRefusalDetails.Acquisition failure) =
     validate_acquisition_failure failure"
| "upstream_details x profiles instance_id _ = Err admission_details_disagree"

definition validate_admission_refusal ::
  "'x profile_externals_scheme \<Rightarrow> ProfileDescriptor list \<Rightarrow> AdmissionRefusal \<Rightarrow>
   (unit, EngineError) result" where
  "validate_admission_refusal x profiles self = run_checks
     [refuse_if (ar_responsible_instance_id self = [])
        (EngineInvariant [''admission refusal responsible instance cannot be empty'']),
      (case details_row (ar_details self) of
         Some (boundary, code, valid) \<Rightarrow>
           refuse_if (\<not> (ar_boundary self = boundary \<and> ar_code self = code \<and> valid))
             admission_details_disagree
       | None \<Rightarrow>
           (if ar_code self = AdmissionRefusalCode.UpstreamRefusal
            then upstream_details x profiles (ar_responsible_instance_id self) (ar_details self)
            else Err admission_details_disagree))]"

section \<open>Stored refusals\<close>

record CanonicalDocument =
  cd_bytes :: bytes
  cd_digest :: string

definition MAX_STORED_JSON_BYTES :: usize where
  "MAX_STORED_JSON_BYTES = MAX_RESPONSE_FRAME_BYTES"

definition validate_document_size :: "usize \<Rightarrow> (unit, StoreError) result" where
  "validate_document_size n =
     (if n \<le> MAX_STORED_JSON_BYTES then Ok ()
      else Err (StoreInvariant [''canonical document exceeds the limit'', show_nat n,
        show_nat MAX_STORED_JSON_BYTES]))"

definition from_serializable ::
  "'x externals_scheme \<Rightarrow> (json, string) result \<Rightarrow> (CanonicalDocument, StoreError) result" where
  "from_serializable x v =
     and_then
       (map_err (\<lambda>e. StoreCanonicalJson (show_CanonicalizationError e))
         (canonical_json_bytes_of x (\<lambda>_. v) ()))
       (\<lambda>bs. and_then (validate_document_size (length bs))
         (\<lambda>_. Ok \<lparr> cd_bytes = bs, cd_digest = sha256_bytes x bs \<rparr>))"

definition canonical_document ::
  "'x externals_scheme \<Rightarrow> (json, string) result \<Rightarrow> (CanonicalDocument, EngineError) result" where
  "canonical_document x v = map_err EngineStore (from_serializable x v)"

definition enum_token :: "(json, string) result \<Rightarrow> (string, EngineError) result" where
  "enum_token v =
     and_then (map_err EngineCanonical v)
       (\<lambda>w. case w of JString t \<Rightarrow> Ok t
          | _ \<Rightarrow> Err (EngineCanonical ''enum did not serialize as a string''))"

definition projection ::
  "string \<Rightarrow> (string, EngineError) result \<Rightarrow> (string, EngineError) result \<Rightarrow>
   (string \<times> string \<times> string, EngineError) result" where
  "projection source_kind boundary code =
     and_then boundary (\<lambda>b. and_then code (\<lambda>c. Ok (source_kind, b, c)))"

fun governed_refusal_projections ::
  "'x refusal_externals_scheme \<Rightarrow> GovernedRefusalOrigin \<Rightarrow>
   (string \<times> string \<times> string, EngineError) result" where
  "governed_refusal_projections x (GovernedRefusalOrigin.Acquisition r) =
     projection ''acquisition'' (Ok ''acquisition'')
       (enum_token (failure_class_to_value x (af_class (aq_failure r))))"
| "governed_refusal_projections x (GovernedRefusalOrigin.Protocol r) =
     projection ''protocol'' (enum_token (rejection_boundary_to_value x (pj_boundary r)))
       (enum_token (rejection_code_to_value x (pj_code r)))"
| "governed_refusal_projections x (GovernedRefusalOrigin.Helper r) =
     projection ''protocol'' (enum_token (helper_boundary_to_value x (rfs_boundary r)))
       (enum_token (helper_code_to_value x (rfs_code r)))"
| "governed_refusal_projections x (GovernedRefusalOrigin.Profile p) =
     projection ''profile'' (enum_token (profile_boundary_to_value x (pr_boundary (gpr_refusal p))))
       (enum_token (profile_code_to_value x (pr_code (gpr_refusal p))))"

record RefusalInput =
  rin_refusal_id :: string
  rin_source_kind :: string
  rin_responsible_instance_id :: string
  rin_boundary :: string
  rin_code :: string
  rin_profile_semantic_id :: "string option"
  rin_detail :: CanonicalDocument
  rin_created_at :: string

fun origin_semantic_id :: "GovernedRefusalOrigin \<Rightarrow> string option" where
  "origin_semantic_id (GovernedRefusalOrigin.Profile p) = Some (gpr_profile_semantic_id p)"
| "origin_semantic_id _ = None"

record stored_externals = refusal_externals +
  governed_to_value :: "GovernedRefusal \<Rightarrow> (json, string) result"
  timestamp :: "instant \<Rightarrow> string"

definition stored_governed_refusal ::
  "'x stored_externals_scheme \<Rightarrow> ProfileDescriptor list \<Rightarrow> GovernedRefusal \<Rightarrow> instant \<Rightarrow>
   (RefusalInput, EngineError) result" where
  "stored_governed_refusal x profiles refusal created_at =
     and_then (validate_governed x profiles refusal) (\<lambda>_.
     and_then (governed_refusal_projections x (gr_origin refusal)) (\<lambda>(source_kind, boundary, code).
     and_then (canonical_document x (governed_to_value x refusal)) (\<lambda>detail.
     Ok \<lparr> rin_refusal_id = gr_refusal_id refusal, rin_source_kind = source_kind,
          rin_responsible_instance_id = responsible_instance_id refusal,
          rin_boundary = boundary, rin_code = code,
          rin_profile_semantic_id = origin_semantic_id (gr_origin refusal),
          rin_detail = detail, rin_created_at = timestamp x created_at \<rparr>)))"

text \<open>
  \<open>insert_refusal\<close>: the row the statement writes, with the table's primary key and checks. A
  refusal belongs to a run and its submission, or to an evaluation.
\<close>

record RefusalRow =
  rrow_input :: RefusalInput
  rrow_run_id :: "string option"
  rrow_submission_id :: "string option"
  rrow_evaluation_id :: "string option"
  rrow_profile :: "(string \<times> string \<times> string) option"

definition sha256_column :: "string \<Rightarrow> bool" where
  "sha256_column d \<longleftrightarrow> length d = 71 \<and> take 7 d = ''sha256:''"

definition refusal_row_allowed :: "RefusalRow list \<Rightarrow> RefusalRow \<Rightarrow> bool" where
  "refusal_row_allowed rows r \<longleftrightarrow>
     rin_refusal_id (rrow_input r) \<notin> (\<lambda>q. rin_refusal_id (rrow_input q)) ` set rows \<and>
     rin_source_kind (rrow_input r) \<in>
       {''acquisition'', ''protocol'', ''admission'', ''profile'', ''evaluation''} \<and>
     (case rin_profile_semantic_id (rrow_input r) of None \<Rightarrow> True | Some d \<Rightarrow> sha256_column d) \<and>
     (rrow_run_id r \<noteq> None \<and> rrow_submission_id r \<noteq> None \<and> rrow_evaluation_id r = None \<or>
      rrow_run_id r = None \<and> rrow_submission_id r = None \<and> rrow_evaluation_id r \<noteq> None)"

definition validate_digest :: "string \<Rightarrow> string \<Rightarrow> (unit, StoreError) result" where
  "validate_digest field digest =
     (case strip_prefix ''sha256:'' digest of
        None \<Rightarrow> Err (StoreInvariant [field, ''must be an algorithm-qualified lowercase SHA-256 digest''])
      | Some hex \<Rightarrow>
          (if length hex = 64 \<and> list_all is_lower_hex_digit hex then Ok ()
           else Err (StoreInvariant [field, ''must be an algorithm-qualified lowercase SHA-256 digest''])))"

definition insert_refusal ::
  "RefusalRow list \<Rightarrow> RefusalInput \<Rightarrow> string option \<Rightarrow> string option \<Rightarrow> string option \<Rightarrow>
   (string \<times> string \<times> string) option \<Rightarrow> (RefusalRow list, StoreError) result" where
  "insert_refusal rows refusal run_id submission_id evaluation_id profile =
     and_then
       (if rin_source_kind refusal = ''profile''
        then run_checks
          [and_then
             (ok_or (StoreInvariant [''profile-origin refusal requires a profile semantic identity''])
               (rin_profile_semantic_id refusal))
             (validate_digest ''profile_semantic_id''),
           refuse_if (profile = None)
             (StoreInvariant [''profile-origin refusal requires an exact profile binding''])]
        else refuse_if (rin_profile_semantic_id refusal \<noteq> None)
          (StoreInvariant [''non-profile refusal cannot carry a profile semantic projection'']))
       (\<lambda>_. let row = \<lparr> rrow_input = refusal, rrow_run_id = run_id, rrow_submission_id = submission_id,
                rrow_evaluation_id = evaluation_id, rrow_profile = profile \<rparr>
            in if refusal_row_allowed rows row then Ok (rows @ [row])
               else Err (StoreSqlite ''refusals''))"

section \<open>Which refusals are valid\<close>

lemma find_Some_member: "List.find P xs = Some d \<Longrightarrow> d \<in> set xs \<and> P d"
  by (induction xs) (auto split: if_splits)

lemma validate_acquisition_failure_Ok [checks]:
  "validate_acquisition_failure f = Ok u \<longleftrightarrow> from_outcome (af_outcome f) = Some f"
  by (cases f; cases "outcome_class (af_outcome f)")
    (auto simp: validate_acquisition_failure_def from_outcome_def checks)

lemma from_outcome_outcome: "from_outcome out = Some f \<Longrightarrow> af_outcome f = out"
  by (auto simp: from_outcome_def)

lemma carried_boundary_expected: "carried_boundary code = expected_boundary code"
  by (cases code) simp_all

text \<open>
  What makes a governed refusal valid, by origin: the exact projection of an acquisition outcome,
  the protocol's own pairing of code and boundary, and the semantic identity of the compiled
  profile that the refusal names.
\<close>

fun origin_law ::
  "'x profile_externals_scheme \<Rightarrow> ProfileDescriptor list \<Rightarrow> GovernedRefusalOrigin \<Rightarrow> bool" where
  "origin_law x profiles (GovernedRefusalOrigin.Acquisition r) \<longleftrightarrow>
     from_outcome (af_outcome (aq_failure r)) = Some (aq_failure r)"
| "origin_law x profiles (GovernedRefusalOrigin.Protocol r) \<longleftrightarrow> True"
| "origin_law x profiles (GovernedRefusalOrigin.Helper r) \<longleftrightarrow>
     validate_refusal_pair r = Ok () \<and> rfs_message r \<noteq> []"
| "origin_law x profiles (GovernedRefusalOrigin.Profile p) \<longleftrightarrow>
     pk_id (pr_profile (gpr_refusal p)) \<noteq> [] \<and> pr_message (gpr_refusal p) \<noteq> [] \<and>
     (\<exists>d. resolve_profile_key profiles (pr_profile (gpr_refusal p)) = Some d \<and>
          profile_semantic_id x d = Ok (gpr_profile_semantic_id p))"

lemma validate_profile_origin_Ok [checks]:
  "validate_profile_origin x profiles p = Ok u \<longleftrightarrow>
     (\<exists>d. resolve_profile_key profiles (pr_profile (gpr_refusal p)) = Some d \<and>
          profile_semantic_id x d = Ok (gpr_profile_semantic_id p))"
  by (auto simp: validate_profile_origin_def Let_def checks)

lemma validate_governed_Ok [checks]:
  "validate_governed x profiles r = Ok u \<longleftrightarrow>
     gr_refusal_id r \<noteq> [] \<and> responsible_instance_id r \<noteq> [] \<and> origin_law x profiles (gr_origin r)"
  by (cases "gr_origin r")
    (auto simp: validate_governed_def validate_transport_def responsible_instance_id_def checks
      carried_boundary_expected)

text \<open>
  The engine's check of a governed refusal accepts exactly the refusals whose identity and
  responsible instance are named and whose origin is what it claims to be. An acquisition refusal
  must be the exact classification of its outcome, a helper refusal must satisfy the protocol's
  pairing of code and boundary, and a profile refusal must carry the semantic identity of the
  compiled profile it names.
\<close>

lemma governed_refusal_decides:
  "validate_governed x profiles r = Ok () \<longleftrightarrow>
     gr_refusal_id r \<noteq> [] \<and> responsible_instance_id r \<noteq> [] \<and> origin_law x profiles (gr_origin r)"
  by (simp add: checks)

lemma validate_admission_refusal_Ok [checks]:
  "validate_admission_refusal x profiles a = Ok u \<longleftrightarrow>
     ar_responsible_instance_id a \<noteq> [] \<and>
     (case details_row (ar_details a) of
        Some row \<Rightarrow> row = (ar_boundary a, ar_code a, True)
      | None \<Rightarrow> ar_code a = AdmissionRefusalCode.UpstreamRefusal \<and>
          (case ar_details a of
             Governed r \<Rightarrow> validate_governed x profiles r = Ok () \<and>
               responsible_instance_id r = ar_responsible_instance_id a
           | AdmissionRefusalDetails.Acquisition f \<Rightarrow> validate_acquisition_failure f = Ok ()
           | _ \<Rightarrow> False))"
  by (cases "ar_details a") (auto simp: validate_admission_refusal_def admission_details_disagree_def
      split: option.splits prod.splits)

lemma exchanged_refusal_law:
  "validate_exchange x q p = Ok u \<Longrightarrow> resp_outcome p = ResponseOutcome.Refusal h \<Longrightarrow>
   refusal_law x h \<and> rfs_responsible_instance_id h = req_instance_id q"
  by (auto simp: validate_exchange_Ok exchange_law_def outcome_law_def)

lemma governed_profile_refusal_Ok [checks]:
  "governed_profile_refusal x rid d p = Ok g \<longleftrightarrow>
     pr_profile p = pd_profile d \<and>
     (\<exists>semantic_id. profile_semantic_id x d = Ok semantic_id \<and> g = governed_profile rid semantic_id p)"
  by (auto simp: governed_profile_refusal_def)


text \<open>The form of the digests that SHA-256 in hexadecimal gives.\<close>

definition hex_digests :: "'x externals_scheme \<Rightarrow> bool" where
  "hex_digests x \<longleftrightarrow>
     (\<forall>bs. length (sha256_hex x bs) = 64 \<and> list_all is_lower_hex_digit (sha256_hex x bs))"

lemma validate_digest_Ok [checks]:
  "validate_digest field digest = Ok u \<longleftrightarrow>
     (\<exists>hex. digest = ''sha256:'' @ hex \<and> length hex = 64 \<and> list_all is_lower_hex_digit hex)"
proof (cases "strip_prefix ''sha256:'' digest")
  case None
  then have "digest \<noteq> ''sha256:'' @ hex" for hex
    using strip_prefix_Some [of "''sha256:''" digest hex] by (metis option.distinct(1))
  with None show ?thesis
    by (simp add: validate_digest_def)
next
  case (Some hex)
  then have "digest = ''sha256:'' @ hex"
    by (simp only: strip_prefix_Some)
  with Some show ?thesis
    by (simp add: validate_digest_def)
qed

lemma validate_digest_sha256: "hex_digests x \<Longrightarrow> validate_digest field (sha256_bytes x bs) = Ok ()"
  by (simp add: checks hex_digests_def sha256_bytes_def)

lemma sha256_column_of_digest: "validate_digest field d = Ok u \<Longrightarrow> sha256_column d"
  by (auto simp: checks sha256_column_def)

lemma profile_semantic_id_digest:
  "hex_digests x \<Longrightarrow> profile_semantic_id x d = Ok s \<Longrightarrow> validate_digest field s = Ok ()"
  by (auto simp: profile_semantic_id_def compose_semantic_id_def semantic_digest_def and_then_Ok
      validate_digest_sha256)

lemma projection_Ok [checks]:
  "projection k b c = Ok t \<longleftrightarrow> (\<exists>vb vc. b = Ok vb \<and> c = Ok vc \<and> t = (k, vb, vc))"
  by (auto simp: projection_def checks)

lemma governed_refusal_projections_kind:
  "governed_refusal_projections x o' = Ok (kind, b, c) \<Longrightarrow>
     kind \<in> {''acquisition'', ''protocol'', ''profile''} \<and>
     (kind = ''profile'' \<longleftrightarrow> origin_semantic_id o' \<noteq> None)"
  by (cases o') (auto simp: checks)

lemma stored_governed_refusal_Ok:
  assumes "stored_governed_refusal x profiles r t = Ok input"
  shows "validate_governed x profiles r = Ok ()"
    and "\<exists>b c. governed_refusal_projections x (gr_origin r) = Ok (rin_source_kind input, b, c)"
    and "rin_refusal_id input = gr_refusal_id r"
    and "rin_responsible_instance_id input = responsible_instance_id r"
    and "rin_profile_semantic_id input = origin_semantic_id (gr_origin r)"
    and "canonical_document x (governed_to_value x r) = Ok (rin_detail input)"
  using assms by (auto simp: stored_governed_refusal_def and_then_Ok split: prod.splits)

lemma origin_semantic_id_digest:
  "hex_digests x \<Longrightarrow> origin_law x profiles o' \<Longrightarrow> origin_semantic_id o' = Some s \<Longrightarrow>
   validate_digest field s = Ok ()"
  by (cases o') (auto intro: profile_semantic_id_digest)

text \<open>
  A refusal that the engine stored is one the store inserts: when digests are hexadecimal and
  the refusal's identity is new, the store accepts the row for an evaluation and for a run with its
  submission, so no retained refusal is lost between the two components. The row keeps the
  refusal's identity and its responsible instance.
\<close>

lemma stored_refusal_is_inserted:
  assumes "hex_digests x" and "stored_governed_refusal x profiles r t = Ok input"
    and "gr_refusal_id r \<notin> (\<lambda>q. rin_refusal_id (rrow_input q)) ` set rows"
  shows "insert_refusal rows input None None (Some ev) (Some prof) =
           Ok (rows @ [\<lparr> rrow_input = input, rrow_run_id = None, rrow_submission_id = None,
             rrow_evaluation_id = Some ev, rrow_profile = Some prof \<rparr>]) \<and>
         insert_refusal rows input (Some run) (Some sub) None (Some prof) =
           Ok (rows @ [\<lparr> rrow_input = input, rrow_run_id = Some run, rrow_submission_id = Some sub,
             rrow_evaluation_id = None, rrow_profile = Some prof \<rparr>]) \<and>
         rin_refusal_id input = gr_refusal_id r \<and>
         rin_responsible_instance_id input = responsible_instance_id r"
proof -
  note stored = stored_governed_refusal_Ok [OF assms(2)]
  obtain b c where "governed_refusal_projections x (gr_origin r) = Ok (rin_source_kind input, b, c)"
    using stored(2) by blast
  note kind = governed_refusal_projections_kind [OF this]
  have digest: "validate_digest field s = Ok ()" if "rin_profile_semantic_id input = Some s" for field s
    using origin_semantic_id_digest [OF assms(1), of profiles "gr_origin r"] stored(1,5) that
    by (simp only: validate_governed_Ok)
  have column: "sha256_column s" if "rin_profile_semantic_id input = Some s" for s
    using sha256_column_of_digest [OF digest [OF that]] .
  show ?thesis
  proof (cases "rin_profile_semantic_id input")
    case None
    then show ?thesis
      using kind stored assms(3) by (auto simp: insert_refusal_def refusal_row_allowed_def)
  next
    case (Some s)
    then show ?thesis
      using kind stored assms(3) digest [OF Some] column [OF Some]
      by (auto simp: insert_refusal_def refusal_row_allowed_def)
  qed
qed

section \<open>Witnesses\<close>

definition sample_stored_externals :: stored_externals where
  "sample_stored_externals =
     \<lparr> jcs_to_vec = (\<lambda>_. Ok ''{}''), sha256_hex = (\<lambda>_. replicate 64 (CHR ''0'')),
       response_to_value = (\<lambda>_. Ok (JObject [])),
       json_events = (\<lambda>_. RawMap []), json_end = (\<lambda>_. Ok ()),
       request_from_value = (\<lambda>_. Ok sample_request), response_from_value = (\<lambda>_. Ok sample_response),
       request_to_value = (\<lambda>_. Ok (JObject [])),
       descriptor_to_value = (\<lambda>_. Ok (JObject [])), report_to_value = (\<lambda>_. Ok (JObject [])),
       evaluator_source_digest = [],
       structured_json_error = (\<lambda>_. \<lparr> sje_category = Syntax, sje_line = 1, sje_column = 1, sje_diagnostic = [] \<rparr>),
       structured_serialization_error =
         (\<lambda>_. \<lparr> sje_category = Data, sje_line = 0, sje_column = 0, sje_diagnostic = [] \<rparr>),
       failure_class_to_value = (\<lambda>_. Ok (JString ''timeout'')),
       rejection_boundary_to_value = (\<lambda>_. Ok (JString ''response'')),
       rejection_code_to_value = (\<lambda>_. Ok (JString ''invalid_response'')),
       helper_boundary_to_value = (\<lambda>_. Ok (JString ''resource'')),
       helper_code_to_value = (\<lambda>_. Ok (JString ''resource_exhausted'')),
       profile_boundary_to_value = (\<lambda>_. Ok (JString ''detector'')),
       profile_code_to_value = (\<lambda>_. Ok (JString ''cannot_evaluate'')),
       governed_to_value = (\<lambda>_. Ok (JObject [])), timestamp = (\<lambda>t. show_nat (nat t)) \<rparr>"

lemma sample_hex_digests: "hex_digests sample_stored_externals"
  by (simp add: hex_digests_def sample_stored_externals_def list_all_iff is_lower_hex_digit_def
      is_ascii_digit_def)

lemma sample_canonical: "json_numbers v = [] \<Longrightarrow> canonical_json_bytes sample_stored_externals v = Ok ''{}''"
  by (simp add: canonical_json_bytes_Ok sample_stored_externals_def)

lemma sample_to_value:
  "descriptor_to_value sample_stored_externals d = Ok (JObject [])"
  "governed_to_value sample_stored_externals g = Ok (JObject [])"
  "sha256_bytes sample_stored_externals bs = ''sha256:'' @ replicate 64 (CHR ''0'')"
  by (simp_all add: sample_stored_externals_def sha256_bytes_def)

definition sample_outcome :: AcquisitionOutcome where
  "sample_outcome = AcquisitionOutcome.ExchangeTimeout ReadResponse"

definition sample_failure :: AcquisitionFailure where
  "sample_failure =
     \<lparr> af_class = AcquisitionFailureClass.Timeout, af_retry = Unspecified, af_outcome = sample_outcome \<rparr>"

definition sample_profile_refusal :: ProfileRefusal where
  "sample_profile_refusal =
     \<lparr> pr_instance_id = ''i-1'', pr_profile = pd_profile sample_descriptor,
       pr_boundary = ProfileRefusalBoundary.Detector, pr_code = ProfileRefusalCode.CannotEvaluate,
       pr_message = ''stale'', pr_details = [] \<rparr>"

definition zero_digest :: string where
  "zero_digest = ''sha256:'' @ replicate 64 (CHR ''0'')"

definition sample_governed :: GovernedRefusal where
  "sample_governed = governed_profile ''f-1'' zero_digest sample_profile_refusal"

lemma sample_exchange_stored: "exchange_law sample_stored_externals sample_request sample_response"
  by (simp add: exchange_law_def request_law_def bounds_law_def binding_law_def json_fits_def
      outcome_law_def refusal_law_def canonical_json_bytes_Ok canonical_json_bytes_of_def
      sample_stored_externals_def sample_response_def sample_request_def HelperRequest_builder_def
      HelperResponse_refusal_def MonotonicDeadline_default_def CollectionBounds_default_def
      protocol_schemas)

lemma sample_semantic_id: "profile_semantic_id sample_stored_externals d = Ok zero_digest"
proof -
  have "json_numbers (semantic_id_preimage a b c e) = []" for a b c e
    by (simp add: semantic_id_preimage_def bt_from_def)
  then show ?thesis
    by (simp only: profile_semantic_id_def descriptor_digest_def compose_semantic_id_def
        semantic_digest_def semantic_digest_of_def canonical_json_bytes_of_def sample_to_value
        zero_digest_def and_then_simps map_err_simps map_ok_simps sample_canonical json_numbers.simps
        list.map concat.simps)
qed

lemma sample_governed_profile:
  "governed_profile_refusal sample_stored_externals ''f-1'' sample_descriptor sample_profile_refusal =
     Ok sample_governed"
  by (simp add: governed_profile_refusal_def sample_semantic_id sample_profile_refusal_def
      sample_governed_def)

lemma sample_resolves: "resolve_profile_key [sample_descriptor] (pd_profile sample_descriptor) = Some sample_descriptor"
  by (simp add: resolve_profile_key_def resolve_profile_def)


end
