(* ===== verification/Finding_Store.thy ===== *)
theory Finding_Store
  imports Refusal_Carriers "HOL-Library.Product_Lexorder"
begin

text \<open>
  The part of the store that keeps evaluations and findings (\<open>nq-store/src/lib.rs\<close>): the commit of
  one evaluation with its watermarks, its refusal and its finding event. The tables are lists of
  rows in the order of insertion, and each statement that inserts a row applies the table's
  primary key, unique, check and foreign key constraints (\<open>nq-store/src/schema.sql\<close>). A failed
  operation returns an error and no new store, as the dropped transaction does. A 64-bit integer
  column is an integer with the bound tested where the code adds to it. SQLite's JSON functions
  are parameters.
\<close>

section \<open>Inputs\<close>

record EvaluationWatermark =
  wm_instance_id :: string
  wm_max_report_sequence :: int
  wm_watermark_received_at :: "string option"

record EvaluationProfileBinding =
  epb_profile_id :: string
  epb_profile_version :: string
  epb_profile_digest :: string
  epb_profile_semantic_id :: Sha256Digest

record EvaluationInput =
  ei_evaluation_id :: string
  ei_trigger_run_id :: "string option"
  ei_detector_id :: string
  ei_detector_version :: string
  ei_detector_digest :: string
  ei_evaluator_artifact_digest :: string
  ei_started_at :: string
  ei_evaluated_at :: string
  ei_outcome :: string
  ei_detail :: CanonicalDocument
  ei_profile :: EvaluationProfileBinding
  ei_watermarks :: "EvaluationWatermark list"
  ei_refusal :: "RefusalInput option"

record FindingEvidenceInput =
  fev_ordinal :: u32
  fev_report_id :: string
  fev_report_semantic_digest :: string
  fev_observation_ordinal :: "u32 option"
  fev_observed_at :: string
  fev_received_at :: string

record FindingEventInput =
  fi_event_id :: string
  fi_finding_id :: string
  fi_event_kind :: string
  fi_instance_id :: string
  fi_profile_id :: string
  fi_profile_version :: string
  fi_profile_digest :: string
  fi_subject :: CanonicalDocument
  fi_condition_name :: string
  fi_condition_state :: string
  fi_visibility_state :: string
  fi_operator_work_state :: string
  fi_severity :: string
  fi_summary :: string
  fi_limitations :: CanonicalDocument
  fi_safe_next_checks :: CanonicalDocument
  fi_freshness :: CanonicalDocument
  fi_basis :: CanonicalDocument
  fi_refusal :: "CanonicalDocument option"
  fi_origin_mode :: string
  fi_historical_refs :: CanonicalDocument
  fi_observed_at :: "string option"
  fi_received_at :: "string option"
  fi_created_at :: string
  fi_evidence :: "FindingEvidenceInput list"

record EvaluationReceipt =
  rcp_evaluation_id :: string
  rcp_evaluation_sequence :: u64
  rcp_evaluation_revision :: u64
  rcp_watermarks :: "EvaluationWatermark list"

record AdmittedReportRow =
  row_report_sequence :: int
  row_report_id :: string
  row_instance_id :: string
  row_profile_id :: string
  row_profile_version :: string
  row_profile_digest :: string
  row_observed_at :: string
  row_received_at :: string
  row_report_status :: string
  row_canonical_json :: bytes
  row_semantic_digest :: string

section \<open>Tables\<close>

text \<open>
  A row of \<open>evaluation_runs\<close> copies the input it was inserted for, and a row of \<open>finding_events\<close>
  copies the finding input with the columns taken from its evaluation. Of the tables that only the
  trigger query reads, the columns it reads are present. The two binding tables are ordered by
  their sequence columns, and \<open>status_autoincrement\<close> is the last sequence the status table gave out.
\<close>

record WatcherRunRow =
  run_run_id :: string
  run_instance_id :: string
  run_admission_id :: "string option"
  run_profile_id :: string
  run_profile_version :: string
  run_profile_digest :: string

record RawSubmissionRow =
  sub_submission_id :: string
  sub_run_id :: string
  sub_admission_outcome :: string

record StoredReportRow =
  srep_row :: AdmittedReportRow
  srep_submission_id :: string
  srep_source_expired :: bool

record EvaluationRunRow =
  er_input :: EvaluationInput
  er_evaluation_sequence :: int
  er_evaluation_revision :: int
  er_min_cited_report_sequence :: "int option"

record FindingEventRow =
  fer_input :: FindingEventInput
  fer_event_revision :: int
  fer_evaluation_id :: string
  fer_detector_id :: string
  fer_detector_version :: string
  fer_detector_digest :: string
  fer_evaluator_artifact_digest :: string
  fer_evaluation_revision :: int
  fer_evaluated_at :: string

record BindingEventInput =
  bei_binding_event_id :: string
  bei_instance_id :: string
  bei_event_kind :: string
  bei_admission_id :: "string option"
  bei_binding_digest :: string
  bei_occurred_at :: string
  bei_reason_code :: "string option"
  bei_detail :: CanonicalDocument

record BindingMaterializationInput =
  bmi_materialization_event_id :: string
  bmi_operation_id :: string
  bmi_instance_id :: string
  bmi_binding_event_id :: string
  bmi_phase :: string
  bmi_occurred_at :: string
  bmi_detail :: CanonicalDocument

record StatusEventInput =
  sei_status_event_id :: string
  sei_component_kind :: string
  sei_component_id :: string
  sei_state :: string
  sei_code :: string
  sei_detail :: CanonicalDocument
  sei_observed_at :: string

record StatusEventRow =
  ser_input :: StatusEventInput
  ser_run_id :: "string option"
  ser_status_sequence :: int

record store =
  user_version :: int
  profile_descriptor_snapshots :: "(string \<times> string \<times> string) list"
  admission_records :: "(string \<times> string) list"
  watcher_runs :: "WatcherRunRow list"
  raw_submissions :: "RawSubmissionRow list"
  admitted_reports :: "StoredReportRow list"
  observations :: "(string \<times> u32) list"
  evaluation_runs :: "EvaluationRunRow list"
  evaluation_watermarks :: "(string \<times> EvaluationWatermark) list"
  refusals_table :: "RefusalRow list"
  finding_events :: "FindingEventRow list"
  finding_evidence :: "(string \<times> FindingEvidenceInput) list"
  finding_current :: "(string, string) btree_map"
  instance_binding_events :: "BindingEventInput list"
  binding_materialization_events :: "BindingMaterializationInput list"
  status_events :: "StatusEventRow list"
  status_autoincrement :: int
  status_current :: "(string \<times> string, string) btree_map"

record sqlite_externals =
  json_valid :: "bytes \<Rightarrow> bool"
  json_texts :: "bytes \<Rightarrow> string list"

abbreviation i64_max :: int where
  "i64_max \<equiv> 9223372036854775807"

definition checked_succ_i64 :: "int \<Rightarrow> int option" where
  "checked_succ_i64 n = (if n < i64_max then Some (n + 1) else None)"

text \<open>\<open>COALESCE(MAX(column), 0)\<close>.\<close>

definition max_or_zero :: "int list \<Rightarrow> int" where
  "max_or_zero ns = (if ns = [] then 0 else Max (set ns))"

definition min_opt :: "int list \<Rightarrow> int option" where
  "min_opt ns = (if ns = [] then None else Some (Min (set ns)))"

definition holes_schema :: "store \<Rightarrow> bool" where
  "holes_schema s \<longleftrightarrow> 15 \<le> user_version s"

definition profile_snapshot_exists :: "store \<Rightarrow> string \<Rightarrow> string \<Rightarrow> string \<Rightarrow> bool" where
  "profile_snapshot_exists s i version digest \<longleftrightarrow>
     (i, version, digest) \<in> set (profile_descriptor_snapshots s)"

section \<open>Constraints of the tables\<close>

definition evaluation_row_allowed ::
  "'y sqlite_externals_scheme \<Rightarrow> store \<Rightarrow> EvaluationRunRow \<Rightarrow> bool" where
  "evaluation_row_allowed y s r \<longleftrightarrow>
     (let e = er_input r in
      ei_evaluation_id e \<notin> (\<lambda>q. ei_evaluation_id (er_input q)) ` set (evaluation_runs s) \<and>
      0 < er_evaluation_sequence r \<and>
      er_evaluation_sequence r \<notin> er_evaluation_sequence ` set (evaluation_runs s) \<and>
      sha256_column (ei_detector_digest e) \<and> sha256_column (ei_evaluator_artifact_digest e) \<and>
      sha256_column (epb_profile_digest (ei_profile e)) \<and>
      sha256_column (epb_profile_semantic_id (ei_profile e)) \<and>
      0 < er_evaluation_revision r \<and>
      (ei_detector_id e, ei_detector_version e, er_evaluation_revision r) \<notin>
        (\<lambda>q. (ei_detector_id (er_input q), ei_detector_version (er_input q), er_evaluation_revision q)) `
          set (evaluation_runs s) \<and>
      ei_outcome e \<in> {''condition_present'', ''condition_explicitly_absent'', ''cannot_evaluate''} \<and>
      json_valid y (cd_bytes (ei_detail e)) \<and>
      (case ei_trigger_run_id e of None \<Rightarrow> True | Some run \<Rightarrow> run \<in> run_run_id ` set (watcher_runs s)) \<and>
      profile_snapshot_exists s (epb_profile_id (ei_profile e)) (epb_profile_version (ei_profile e))
        (epb_profile_digest (ei_profile e)))"

definition watermark_row_allowed :: "store \<Rightarrow> string \<Rightarrow> EvaluationWatermark \<Rightarrow> bool" where
  "watermark_row_allowed s evaluation_id w \<longleftrightarrow>
     0 \<le> wm_max_report_sequence w \<and>
     (evaluation_id, wm_instance_id w) \<notin>
       (\<lambda>(i, q). (i, wm_instance_id q)) ` set (evaluation_watermarks s)"

definition event_row_allowed ::
  "'y sqlite_externals_scheme \<Rightarrow> store \<Rightarrow> FindingEventRow \<Rightarrow> bool" where
  "event_row_allowed y s r \<longleftrightarrow>
     (let f = fer_input r in
      fi_event_id f \<notin> (\<lambda>q. fi_event_id (fer_input q)) ` set (finding_events s) \<and>
      0 < fer_event_revision r \<and>
      fi_event_kind f \<in> {''opened'', ''updated'', ''resolved'', ''reopened'', ''operator_updated''} \<and>
      sha256_column (fer_detector_digest r) \<and> sha256_column (fer_evaluator_artifact_digest r) \<and>
      0 < fer_evaluation_revision r \<and>
      sha256_column (fi_profile_digest f) \<and>
      fi_condition_state f \<in> {''present'', ''explicitly_absent'', ''cannot_evaluate''} \<and>
      fi_visibility_state f \<in> {''sufficient'', ''partial'', ''stale'', ''missing'', ''refused''} \<and>
      list_all (\<lambda>d. json_valid y (cd_bytes d))
        ([fi_subject f, fi_limitations f, fi_safe_next_checks f, fi_freshness f, fi_basis f,
          fi_historical_refs f] @ (case fi_refusal f of None \<Rightarrow> [] | Some d \<Rightarrow> [d])) \<and>
      (fi_finding_id f, fer_event_revision r) \<notin>
        (\<lambda>q. (fi_finding_id (fer_input q), fer_event_revision q)) ` set (finding_events s) \<and>
      (fi_event_kind f \<noteq> ''resolved'' \<or>
       fi_condition_state f = ''explicitly_absent'' \<and> fi_visibility_state f = ''sufficient'') \<and>
      fer_evaluation_id r \<in> (\<lambda>q. ei_evaluation_id (er_input q)) ` set (evaluation_runs s) \<and>
      profile_snapshot_exists s (fi_profile_id f) (fi_profile_version f) (fi_profile_digest f))"

definition evidence_row_allowed :: "store \<Rightarrow> string \<Rightarrow> FindingEvidenceInput \<Rightarrow> bool" where
  "evidence_row_allowed s event_id e \<longleftrightarrow>
     sha256_column (fev_report_semantic_digest e) \<and>
     (event_id, fev_ordinal e) \<notin> (\<lambda>(i, q). (i, fev_ordinal q)) ` set (finding_evidence s) \<and>
     event_id \<in> (\<lambda>q. fi_event_id (fer_input q)) ` set (finding_events s) \<and>
     (fev_report_id e, fev_report_semantic_digest e) \<in>
       (\<lambda>q. (row_report_id (srep_row q), row_semantic_digest (srep_row q))) ` set (admitted_reports s)"

definition current_row_allowed :: "store \<Rightarrow> string \<Rightarrow> string \<Rightarrow> bool" where
  "current_row_allowed s finding_id event_id \<longleftrightarrow>
     list_all (\<lambda>(i, latest). i \<noteq> finding_id \<longrightarrow> latest \<noteq> event_id) (finding_current s) \<and>
     event_id \<in> (\<lambda>q. fi_event_id (fer_input q)) ` set (finding_events s)"

section \<open>Checks before an insertion\<close>

definition validate_ordered_unique :: "string \<Rightarrow> u32 list \<Rightarrow> (unit, StoreError) result" where
  "validate_ordered_unique kind ordinals = run_checks
     (map (\<lambda>(expected, actual). run_checks
        [refuse_if (2 ^ 32 \<le> expected) (StoreInvariant [''too many entries'', kind]),
         refuse_if (actual \<noteq> of_nat expected)
           (StoreInvariant [kind, ''ordinals must be contiguous from zero'', show_nat expected,
             show_nat (unat actual)])])
       (enumerate 0 ordinals))"

definition outcome_disagrees :: StoreError where
  "outcome_disagrees = StoreInvariant [''finding condition disagrees with detector outcome'']"

definition validate_finding_against_evaluation ::
  "FindingEventInput \<Rightarrow> EvaluationInput \<Rightarrow> (unit, StoreError) result" where
  "validate_finding_against_evaluation f e = run_checks
     [validate_digest ''profile_digest'' (fi_profile_digest f),
      refuse_if (fi_profile_id f \<noteq> epb_profile_id (ei_profile e) \<or>
          fi_profile_version f \<noteq> epb_profile_version (ei_profile e) \<or>
          fi_profile_digest f \<noteq> epb_profile_digest (ei_profile e))
        (StoreInvariant [''finding profile binding disagrees with its evaluation'']),
      refuse_if (map_option cd_bytes (fi_refusal f) \<noteq>
          map_option (\<lambda>r. cd_bytes (rin_detail r)) (ei_refusal e))
        (StoreInvariant [''finding refusal must be the exact canonical evaluation refusal'']),
      refuse_if (fi_event_kind f = ''resolved'' \<and>
          (ei_outcome e \<noteq> ''condition_explicitly_absent'' \<or>
           fi_condition_state f \<noteq> ''explicitly_absent'' \<or> fi_visibility_state f \<noteq> ''sufficient''))
        (StoreInvariant
          [''only explicit absence under sufficient current coverage can resolve a finding'']),
      refuse_if (ei_outcome e = ''condition_present'' \<and> fi_condition_state f \<noteq> ''present'')
        outcome_disagrees,
      refuse_if (ei_outcome e = ''condition_explicitly_absent'' \<and>
          fi_condition_state f \<noteq> ''explicitly_absent'')
        outcome_disagrees,
      refuse_if (ei_outcome e = ''cannot_evaluate'' \<and> fi_event_kind f = ''resolved'')
        (StoreInvariant [''a detector refusal cannot resolve a finding'']),
      refuse_if (ei_outcome e = ''cannot_evaluate'' \<and> fi_event_kind f = ''opened'')
        (StoreInvariant
          [''a detector refusal cannot open a finding without a prior present condition'']),
      validate_ordered_unique ''finding evidence'' (map fev_ordinal (fi_evidence f))]"

definition validate_watermark :: "store \<Rightarrow> EvaluationWatermark \<Rightarrow> (unit, StoreError) result" where
  "validate_watermark s w =
     (if wm_max_report_sequence w < 0
      then Err (StoreInvariant [''evaluation watermark cannot be negative''])
      else if wm_max_report_sequence w = 0
      then refuse_if (wm_watermark_received_at w \<noteq> None)
        (StoreInvariant [''empty watermark cannot carry a received time''])
      else refuse_if
        (map_option (\<lambda>r. row_received_at (srep_row r))
           (List.find (\<lambda>r. row_instance_id (srep_row r) = wm_instance_id w \<and>
               row_report_sequence (srep_row r) = wm_max_report_sequence w) (admitted_reports s)) \<noteq>
         wm_watermark_received_at w)
        (StoreInvariant [''watermark does not identify an admitted report'', wm_instance_id w,
          show_nat (nat (wm_max_report_sequence w))]))"

text \<open>The first row of the join that the trigger query makes.\<close>

definition trigger_rows :: "store \<Rightarrow> string \<Rightarrow> (WatcherRunRow \<times> int \<times> string) list" where
  "trigger_rows s trigger_run_id =
     [(run, row_report_sequence (srep_row report), artifact).
        run \<leftarrow> watcher_runs s, run_run_id run = trigger_run_id,
        submission \<leftarrow> raw_submissions s, sub_run_id submission = run_run_id run,
        sub_admission_outcome submission = ''admitted'',
        report \<leftarrow> admitted_reports s, srep_submission_id report = sub_submission_id submission,
        (admission_id, artifact) \<leftarrow> admission_records s, run_admission_id run = Some admission_id]"

definition validate_trigger :: "store \<Rightarrow> EvaluationInput \<Rightarrow> (unit, StoreError) result" where
  "validate_trigger s e =
     (case ei_trigger_run_id e of None \<Rightarrow> Ok ()
      | Some trigger_run_id \<Rightarrow>
          (case trigger_rows s trigger_run_id of
             [] \<Rightarrow> Err (StoreInvariant [''evaluation trigger run is not an admitted collection'', trigger_run_id])
           | (run, report_sequence, artifact) # _ \<Rightarrow> run_checks
               [refuse_if (ei_evaluator_artifact_digest e \<noteq> artifact)
                  (StoreInvariant [''evaluation trigger run uses an evaluator artifact other than its admission binds'',
                    trigger_run_id, ei_evaluator_artifact_digest e, artifact]),
                refuse_if (run_profile_id run \<noteq> epb_profile_id (ei_profile e) \<or>
                    run_profile_version run \<noteq> epb_profile_version (ei_profile e) \<or>
                    run_profile_digest run \<noteq> epb_profile_digest (ei_profile e) \<or>
                    \<not> (case ei_watermarks e of
                         [w] \<Rightarrow> wm_instance_id w = run_instance_id run \<and>
                           wm_max_report_sequence w = report_sequence
                       | _ \<Rightarrow> False))
                  (StoreInvariant [''evaluation trigger run disagrees with its profile or instance watermark'',
                    trigger_run_id])]))"

section \<open>The finding event\<close>

definition current_event :: "store \<Rightarrow> string \<Rightarrow> FindingEventRow option" where
  "current_event s finding_id =
     (case bt_get (finding_current s) finding_id of None \<Rightarrow> None
      | Some event_id \<Rightarrow> List.find (\<lambda>r. fi_event_id (fer_input r) = event_id) (finding_events s))"

definition same_lineage ::
  "store \<Rightarrow> EvaluationInput \<Rightarrow> FindingEventInput \<Rightarrow> FindingEventRow \<Rightarrow> bool" where
  "same_lineage s e f prior \<longleftrightarrow>
     fi_instance_id (fer_input prior) = fi_instance_id f \<and>
     fer_detector_id prior = ei_detector_id e \<and>
     fer_detector_version prior = ei_detector_version e \<and>
     fer_detector_digest prior = ei_detector_digest e \<and>
     fi_profile_id (fer_input prior) = fi_profile_id f \<and>
     fi_profile_version (fer_input prior) = fi_profile_version f \<and>
     fi_profile_digest (fer_input prior) = fi_profile_digest f \<and>
     list_ex (\<lambda>q. ei_evaluation_id (er_input q) = fer_evaluation_id prior \<and>
        epb_profile_semantic_id (ei_profile (er_input q)) = epb_profile_semantic_id (ei_profile e))
       (evaluation_runs s) \<and>
     cd_bytes (fi_subject (fer_input prior)) = cd_bytes (fi_subject f) \<and>
     fi_condition_name (fer_input prior) = fi_condition_name f \<and>
     cd_bytes (fi_basis (fer_input prior)) = cd_bytes (fi_basis f)"

definition validate_against_current ::
  "store \<Rightarrow> EvaluationInput \<Rightarrow> FindingEventInput \<Rightarrow> FindingEventRow option \<Rightarrow>
   (unit, StoreError) result" where
  "validate_against_current s e f current = run_checks
     [(case current of
         None \<Rightarrow> refuse_if (fi_event_kind f \<noteq> ''opened'')
           (StoreInvariant [''a new finding must begin with an opened event''])
       | Some _ \<Rightarrow> refuse_if (fi_event_kind f = ''opened'')
           (StoreInvariant [''an existing finding cannot be opened twice''])),
      (case current of
         None \<Rightarrow> Ok ()
       | Some prior \<Rightarrow> refuse_if (\<not> same_lineage s e f prior)
           (StoreInvariant [''finding update cannot substitute immutable detector, profile, subject, or condition lineage''])),
      (if ei_outcome e \<noteq> ''cannot_evaluate'' then Ok ()
       else case current of
         None \<Rightarrow> Err (StoreInvariant
           [''a detector refusal cannot create a finding without prior condition state''])
       | Some prior \<Rightarrow> run_checks
           [refuse_if (fi_visibility_state f = ''sufficient'')
              (StoreInvariant [''a detector refusal cannot claim sufficient evidence visibility'']),
            refuse_if (fi_condition_state f \<noteq> fi_condition_state (fer_input prior))
              (StoreInvariant [''a detector refusal must retain the prior finding condition state''])])]"

text \<open>The evidence that the current event of a finding cites, with the same bytes and times.\<close>

definition recited :: "store \<Rightarrow> string \<Rightarrow> FindingEvidenceInput \<Rightarrow> bool" where
  "recited s finding_id e \<longleftrightarrow>
     (case bt_get (finding_current s) finding_id of None \<Rightarrow> False
      | Some event_id \<Rightarrow> list_ex (\<lambda>(i, prior). i = event_id \<and>
          fev_report_id prior = fev_report_id e \<and>
          fev_report_semantic_digest prior = fev_report_semantic_digest e \<and>
          fev_observation_ordinal prior = fev_observation_ordinal e \<and>
          fev_observed_at prior = fev_observed_at e \<and> fev_received_at prior = fev_received_at e)
        (finding_evidence s))"

definition validate_evidence ::
  "store \<Rightarrow> string \<Rightarrow> (string, int) btree_map \<Rightarrow> FindingEvidenceInput \<Rightarrow> (unit, StoreError) result" where
  "validate_evidence s finding_id watermark_by_instance e =
     and_then (validate_digest ''report_semantic_digest'' (fev_report_semantic_digest e)) (\<lambda>_.
     and_then
       (ok_or (StoreInvariant [''finding evidence is not an admitted report'', fev_report_id e])
         (List.find (\<lambda>r. row_report_id (srep_row r) = fev_report_id e \<and>
             row_semantic_digest (srep_row r) = fev_report_semantic_digest e) (admitted_reports s)))
       (\<lambda>report.
     and_then
       (ok_or (StoreInvariant [''finding evidence is outside the evaluation watermark'', fev_report_id e])
         (bt_get watermark_by_instance (row_instance_id (srep_row report))))
       (\<lambda>max_sequence.
     and_then
       (refuse_if (max_sequence < row_report_sequence (srep_row report))
         (StoreInvariant [''finding evidence is newer than the evaluation watermark'', fev_report_id e]))
       (\<lambda>_.
     if holes_schema s \<and> srep_source_expired report
     then refuse_if (\<not> recited s finding_id e)
       (StoreInvariant [''finding evidence is a source-expired report that the current event does not cite'',
         fev_report_id e])
     else case fev_observation_ordinal e of
         None \<Rightarrow> Ok ()
       | Some ordinal \<Rightarrow> refuse_if ((fev_report_id e, ordinal) \<notin> set (observations s))
           (StoreInvariant [''finding evidence references missing observation'', fev_report_id e,
             show_nat (unat ordinal)])))))"

definition insert_event_row ::
  "'y sqlite_externals_scheme \<Rightarrow> FindingEventRow \<Rightarrow> store \<Rightarrow> (store, StoreError) result" where
  "insert_event_row y r s =
     (if event_row_allowed y s r then Ok (s \<lparr> finding_events := finding_events s @ [r] \<rparr>)
      else Err (StoreSqlite ''finding_events''))"

fun insert_evidence_rows ::
  "string \<Rightarrow> FindingEvidenceInput list \<Rightarrow> store \<Rightarrow> (store, StoreError) result" where
  "insert_evidence_rows event_id [] s = Ok s"
| "insert_evidence_rows event_id (e # es) s =
     (if evidence_row_allowed s event_id e
      then insert_evidence_rows event_id es
        (s \<lparr> finding_evidence := finding_evidence s @ [(event_id, e)] \<rparr>)
      else Err (StoreSqlite ''finding_evidence''))"

definition upsert_current :: "string \<Rightarrow> string \<Rightarrow> store \<Rightarrow> (store, StoreError) result" where
  "upsert_current finding_id event_id s =
     (if current_row_allowed s finding_id event_id
      then Ok (s \<lparr> finding_current := bt_insert finding_id event_id (finding_current s) \<rparr>)
      else Err (StoreSqlite ''finding_current''))"

definition watermarks_by_instance :: "EvaluationWatermark list \<Rightarrow> (string, int) btree_map" where
  "watermarks_by_instance ws = bt_from (map (\<lambda>w. (wm_instance_id w, wm_max_report_sequence w)) ws)"

definition next_event_revision :: "FindingEventRow option \<Rightarrow> (int, StoreError) result" where
  "next_event_revision current =
     (case current of None \<Rightarrow> Ok 1
      | Some prior \<Rightarrow> ok_or (StoreInvariant [''finding revision space is exhausted''])
          (checked_succ_i64 (fer_event_revision prior)))"

definition event_row :: "EvaluationInput \<Rightarrow> int \<Rightarrow> FindingEventInput \<Rightarrow> int \<Rightarrow> FindingEventRow" where
  "event_row e evaluation_revision f event_revision =
     \<lparr> fer_input = f, fer_event_revision = event_revision, fer_evaluation_id = ei_evaluation_id e,
       fer_detector_id = ei_detector_id e, fer_detector_version = ei_detector_version e,
       fer_detector_digest = ei_detector_digest e,
       fer_evaluator_artifact_digest = ei_evaluator_artifact_digest e,
       fer_evaluation_revision = evaluation_revision, fer_evaluated_at = ei_evaluated_at e \<rparr>"

definition insert_finding_event ::
  "'y sqlite_externals_scheme \<Rightarrow> EvaluationInput \<Rightarrow> int \<Rightarrow> FindingEventInput \<Rightarrow>
   EvaluationWatermark list \<Rightarrow> store \<Rightarrow> (store, StoreError) result" where
  "insert_finding_event y e evaluation_revision f watermarks s =
     (let current = current_event s (fi_finding_id f) in
      and_then (validate_against_current s e f current) (\<lambda>_.
      and_then (next_event_revision current) (\<lambda>event_revision.
      and_then
        (run_checks (map (validate_evidence s (fi_finding_id f) (watermarks_by_instance watermarks))
          (fi_evidence f)))
        (\<lambda>_.
      and_then (insert_event_row y (event_row e evaluation_revision f event_revision) s) (\<lambda>s1.
      and_then (insert_evidence_rows (fi_event_id f) (fi_evidence f) s1) (\<lambda>s2.
      upsert_current (fi_finding_id f) (fi_event_id f) s2))))))"

section \<open>The evaluation\<close>

definition next_evaluation_revision :: "store \<Rightarrow> EvaluationInput \<Rightarrow> (int, StoreError) result" where
  "next_evaluation_revision s e =
     ok_or (StoreInvariant [''evaluation revision space is exhausted''])
       (checked_succ_i64 (max_or_zero (map er_evaluation_revision
          (filter (\<lambda>q. ei_detector_id (er_input q) = ei_detector_id e \<and>
              ei_detector_version (er_input q) = ei_detector_version e) (evaluation_runs s)))))"

definition next_evaluation_sequence :: "store \<Rightarrow> (int, StoreError) result" where
  "next_evaluation_sequence s =
     ok_or (StoreInvariant [''evaluation sequence space is exhausted''])
       (checked_succ_i64 (max_or_zero (map er_evaluation_sequence (evaluation_runs s))))"

text \<open>The least sequence of the admitted reports whose identities the detail names.\<close>

definition min_cited_report_sequence ::
  "'y sqlite_externals_scheme \<Rightarrow> store \<Rightarrow> bytes \<Rightarrow> int option" where
  "min_cited_report_sequence y s detail =
     min_opt (map (\<lambda>r. row_report_sequence (srep_row r))
       (filter (\<lambda>r. row_report_id (srep_row r) \<in> set (json_texts y detail)) (admitted_reports s)))"

definition insert_evaluation_row ::
  "'y sqlite_externals_scheme \<Rightarrow> EvaluationInput \<Rightarrow> int \<Rightarrow> int \<Rightarrow> store \<Rightarrow> (store, StoreError) result" where
  "insert_evaluation_row y e evaluation_sequence evaluation_revision s =
     (let r = \<lparr> er_input = e, er_evaluation_sequence = evaluation_sequence,
                er_evaluation_revision = evaluation_revision,
                er_min_cited_report_sequence =
                  min_cited_report_sequence y s (cd_bytes (ei_detail e)) \<rparr>
      in if evaluation_row_allowed y s r then Ok (s \<lparr> evaluation_runs := evaluation_runs s @ [r] \<rparr>)
         else Err (StoreSqlite ''evaluation_runs''))"

fun insert_watermarks ::
  "string \<Rightarrow> string btree_set \<Rightarrow> EvaluationWatermark list \<Rightarrow> store \<Rightarrow> (store, StoreError) result" where
  "insert_watermarks evaluation_id seen_instances [] s = Ok s"
| "insert_watermarks evaluation_id seen_instances (w # ws) s =
     (if wm_instance_id w \<in> set seen_instances
      then Err (StoreInvariant [''duplicate evaluation watermark'', wm_instance_id w])
      else and_then (validate_watermark s w) (\<lambda>_.
        if watermark_row_allowed s evaluation_id w
        then insert_watermarks evaluation_id (bs_insert (wm_instance_id w) seen_instances) ws
          (s \<lparr> evaluation_watermarks := evaluation_watermarks s @ [(evaluation_id, w)] \<rparr>)
        else Err (StoreSqlite ''evaluation_watermarks'')))"

definition insert_evaluation_refusal :: "EvaluationInput \<Rightarrow> store \<Rightarrow> (store, StoreError) result" where
  "insert_evaluation_refusal e s =
     (case ei_refusal e of None \<Rightarrow> Ok s
      | Some refusal \<Rightarrow>
          and_then
            (refuse_if (rin_source_kind refusal \<noteq> ''profile'' \<or>
                \<not> list_ex (\<lambda>w. wm_instance_id w = rin_responsible_instance_id refusal) (ei_watermarks e) \<or>
                rin_profile_semantic_id refusal \<noteq> Some (epb_profile_semantic_id (ei_profile e)))
              (StoreInvariant
                [''evaluation refusal disagrees with its required profile semantic binding'']))
            (\<lambda>_. map_ok (\<lambda>rows. s \<lparr> refusals_table := rows \<rparr>)
              (insert_refusal (refusals_table s) refusal None None (Some (ei_evaluation_id e))
                (Some (epb_profile_id (ei_profile e), epb_profile_version (ei_profile e),
                  epb_profile_digest (ei_profile e))))))"

definition u64_of_i64 :: "string \<Rightarrow> int \<Rightarrow> (u64, StoreError) result" where
  "u64_of_i64 what n = (if n < 0 then Err (StoreInvariant [what]) else Ok (word_of_int n))"

definition insert_evaluation ::
  "'y sqlite_externals_scheme \<Rightarrow> EvaluationInput \<Rightarrow> FindingEventInput option \<Rightarrow> store \<Rightarrow>
   (EvaluationReceipt \<times> store, StoreError) result" where
  "insert_evaluation y e finding s =
     and_then (run_checks
       [validate_digest ''detector_digest'' (ei_detector_digest e),
        validate_digest ''evaluator_artifact_digest'' (ei_evaluator_artifact_digest e),
        validate_digest ''profile_digest'' (epb_profile_digest (ei_profile e)),
        refuse_if ((ei_outcome e = ''cannot_evaluate'') \<noteq> (ei_refusal e \<noteq> None))
          (StoreInvariant [''cannot_evaluate requires exactly one typed refusal'']),
        check_some (\<lambda>f. validate_finding_against_evaluation f e) finding,
        validate_trigger s e]) (\<lambda>_.
     and_then (next_evaluation_revision s e) (\<lambda>evaluation_revision.
     and_then (next_evaluation_sequence s) (\<lambda>evaluation_sequence.
     and_then (insert_evaluation_row y e evaluation_sequence evaluation_revision s) (\<lambda>s1.
     and_then (insert_watermarks (ei_evaluation_id e) [] (ei_watermarks e) s1) (\<lambda>s2.
     and_then (insert_evaluation_refusal e s2) (\<lambda>s3.
     and_then
       (case finding of None \<Rightarrow> Ok s3
        | Some f \<Rightarrow> insert_finding_event y e evaluation_revision f (ei_watermarks e) s3)
       (\<lambda>s4.
     and_then (u64_of_i64 ''allocated a negative evaluation sequence'' evaluation_sequence) (\<lambda>sequence.
     and_then (u64_of_i64 ''allocated a negative evaluation revision'' evaluation_revision) (\<lambda>revision.
     Ok (\<lparr> rcp_evaluation_id = ei_evaluation_id e, rcp_evaluation_sequence = sequence,
           rcp_evaluation_revision = revision, rcp_watermarks = ei_watermarks e \<rparr>, s4))))))))))"

definition commit_evaluation ::
  "'y sqlite_externals_scheme \<Rightarrow> EvaluationInput \<Rightarrow> FindingEventInput option \<Rightarrow> store \<Rightarrow>
   (EvaluationReceipt \<times> store, StoreError) result" where
  "commit_evaluation y e finding s =
     (if ei_trigger_run_id e \<noteq> None
      then Err (StoreInvariant [''run-triggered evaluation requires atomic admitted completion''])
      else insert_evaluation y e finding s)"

section \<open>What an accepted evaluation changes\<close>

lemma insert_watermarks_Ok:
  "insert_watermarks i seen ws s = Ok s' \<Longrightarrow>
     s' = s \<lparr> evaluation_watermarks := evaluation_watermarks s @ map (Pair i) ws \<rparr>"
proof (induction ws arbitrary: seen s)
  case (Cons w ws)
  then have "insert_watermarks i (bs_insert (wm_instance_id w) seen) ws
      (s \<lparr> evaluation_watermarks := evaluation_watermarks s @ [(i, w)] \<rparr>) = Ok s'"
    by (simp add: and_then_Ok split: if_splits)
  from Cons.IH [OF this] show ?case by simp
qed simp

lemma insert_evidence_rows_Ok:
  "insert_evidence_rows i es s = Ok s' \<Longrightarrow>
     s' = s \<lparr> finding_evidence := finding_evidence s @ map (Pair i) es \<rparr>"
proof (induction es arbitrary: s)
  case (Cons e es)
  then have "insert_evidence_rows i es (s \<lparr> finding_evidence := finding_evidence s @ [(i, e)] \<rparr>) = Ok s'"
    by (simp split: if_splits)
  from Cons.IH [OF this] show ?case by simp
qed simp

lemma insert_finding_event_Ok:
  assumes "insert_finding_event y e revision f ws s = Ok s'"
  obtains n where "validate_against_current s e f (current_event s (fi_finding_id f)) = Ok ()"
    and "next_event_revision (current_event s (fi_finding_id f)) = Ok n"
    and "\<forall>ev \<in> set (fi_evidence f).
           validate_evidence s (fi_finding_id f) (watermarks_by_instance ws) ev = Ok ()"
    and "event_row_allowed y s (event_row e revision f n)"
    and "s' = s \<lparr> finding_events := finding_events s @ [event_row e revision f n],
             finding_evidence := finding_evidence s @ map (Pair (fi_event_id f)) (fi_evidence f),
             finding_current := bt_insert (fi_finding_id f) (fi_event_id f) (finding_current s) \<rparr>"
  using assms
  by (auto simp: insert_finding_event_def Let_def and_then_Ok insert_event_row_def upsert_current_def
      run_checks_map_Ok dest!: insert_evidence_rows_Ok split: if_splits)

definition with_evaluation ::
  "'y sqlite_externals_scheme \<Rightarrow> EvaluationInput \<Rightarrow> int \<Rightarrow> int \<Rightarrow> RefusalRow list \<Rightarrow> store \<Rightarrow> store" where
  "with_evaluation y e sequence revision refusal_rows s =
     s \<lparr> evaluation_runs := evaluation_runs s @ [\<lparr> er_input = e, er_evaluation_sequence = sequence,
           er_evaluation_revision = revision, er_min_cited_report_sequence =
             min_cited_report_sequence y s (cd_bytes (ei_detail e)) \<rparr>],
         evaluation_watermarks := evaluation_watermarks s @
           map (Pair (ei_evaluation_id e)) (ei_watermarks e),
         refusals_table := refusals_table s @ refusal_rows \<rparr>"

lemma insert_refusal_Ok:
  "insert_refusal rows r run sub ev prof = Ok rows' \<Longrightarrow>
     rows' = rows @ [\<lparr> rrow_input = r, rrow_run_id = run, rrow_submission_id = sub,
       rrow_evaluation_id = ev, rrow_profile = prof \<rparr>]"
  by (auto simp: insert_refusal_def and_then_Ok Let_def split: if_splits)

lemma insert_evaluation_Ok:
  assumes "insert_evaluation y e finding s = Ok (receipt, s')"
  obtains sequence revision rows s3 where
    "next_evaluation_sequence s = Ok sequence" and "next_evaluation_revision s e = Ok revision"
    and "s3 = with_evaluation y e sequence revision rows s"
    and "(ei_outcome e = ''cannot_evaluate'') = (ei_refusal e \<noteq> None)"
    and "length rows = (case ei_refusal e of None \<Rightarrow> 0 | Some _ \<Rightarrow> 1)"
    and "evaluation_row_allowed y s \<lparr> er_input = e, er_evaluation_sequence = sequence,
           er_evaluation_revision = revision, er_min_cited_report_sequence =
             min_cited_report_sequence y s (cd_bytes (ei_detail e)) \<rparr>"
    and "case finding of None \<Rightarrow> s' = s3
         | Some f \<Rightarrow> validate_finding_against_evaluation f e = Ok () \<and>
             insert_finding_event y e revision f (ei_watermarks e) s3 = Ok s'"
proof -
  from assms obtain revision sequence s1 s2 s3 where
    checks: "(ei_outcome e = ''cannot_evaluate'') = (ei_refusal e \<noteq> None)"
      "check_some (\<lambda>f. validate_finding_against_evaluation f e) finding = Ok ()"
    and steps: "next_evaluation_revision s e = Ok revision" "next_evaluation_sequence s = Ok sequence"
      "insert_evaluation_row y e sequence revision s = Ok s1"
      "insert_watermarks (ei_evaluation_id e) [] (ei_watermarks e) s1 = Ok s2"
      "insert_evaluation_refusal e s2 = Ok s3"
      "(case finding of None \<Rightarrow> Ok s3
        | Some f \<Rightarrow> insert_finding_event y e revision f (ei_watermarks e) s3) = Ok s'"
    by (auto simp: insert_evaluation_def and_then_Ok)
  obtain rows where rows: "s3 = with_evaluation y e sequence revision rows s"
      "length rows = (case ei_refusal e of None \<Rightarrow> 0 | Some _ \<Rightarrow> 1)"
    using steps(3-5)
    by (auto simp: insert_evaluation_row_def Let_def insert_evaluation_refusal_def and_then_Ok
        with_evaluation_def dest!: insert_watermarks_Ok insert_refusal_Ok split: if_splits option.splits)
  have allowed: "evaluation_row_allowed y s \<lparr> er_input = e, er_evaluation_sequence = sequence,
      er_evaluation_revision = revision, er_min_cited_report_sequence =
        min_cited_report_sequence y s (cd_bytes (ei_detail e)) \<rparr>"
    using steps(3) by (auto simp: insert_evaluation_row_def Let_def split: if_splits)
  have event: "case finding of None \<Rightarrow> s' = s3
      | Some f \<Rightarrow> validate_finding_against_evaluation f e = Ok () \<and>
          insert_finding_event y e revision f (ei_watermarks e) s3 = Ok s'"
    using steps(6) checks(2) by (auto simp: check_some_def split: option.splits)
  show ?thesis
    by (rule that [OF steps(2,1) rows(1) checks(1) rows(2) allowed event])
qed

section \<open>The history of a finding\<close>

abbreviation row_kind :: "FindingEventRow \<Rightarrow> string" where
  "row_kind r \<equiv> fi_event_kind (fer_input r)"

abbreviation row_state :: "FindingEventRow \<Rightarrow> string" where
  "row_state r \<equiv> fi_condition_state (fer_input r)"

abbreviation row_event_id :: "FindingEventRow \<Rightarrow> string" where
  "row_event_id r \<equiv> fi_event_id (fer_input r)"

definition events_of :: "store \<Rightarrow> string \<Rightarrow> FindingEventRow list" where
  "events_of s finding_id = filter (\<lambda>r. fi_finding_id (fer_input r) = finding_id) (finding_events s)"

text \<open>
  What an event says agrees with the evaluation it came from: it carries a refusal exactly when the
  detector could not evaluate, it then claims no sufficient visibility, and it resolves only on
  explicit absence under sufficient visibility.
\<close>

definition agrees_with_evaluation :: "FindingEventInput \<Rightarrow> EvaluationInput \<Rightarrow> bool" where
  "agrees_with_evaluation f e \<longleftrightarrow>
     (fi_refusal f \<noteq> None \<longleftrightarrow> ei_outcome e = ''cannot_evaluate'') \<and>
     (fi_refusal f \<noteq> None \<longrightarrow> fi_visibility_state f \<noteq> ''sufficient'') \<and>
     (fi_event_kind f = ''resolved'' \<longrightarrow> ei_outcome e = ''condition_explicitly_absent'' \<and>
        fi_condition_state f = ''explicitly_absent'' \<and> fi_visibility_state f = ''sufficient'') \<and>
     (ei_outcome e = ''condition_present'' \<longrightarrow> fi_condition_state f = ''present'') \<and>
     (ei_outcome e = ''condition_explicitly_absent'' \<longrightarrow> fi_condition_state f = ''explicitly_absent'') \<and>
     fi_profile_id f = epb_profile_id (ei_profile e) \<and>
     fi_profile_version f = epb_profile_version (ei_profile e) \<and>
     fi_profile_digest f = epb_profile_digest (ei_profile e)"

definition event_law :: "store \<Rightarrow> FindingEventRow \<Rightarrow> bool" where
  "event_law s r \<longleftrightarrow> (\<exists>q \<in> set (evaluation_runs s).
     ei_evaluation_id (er_input q) = fer_evaluation_id r \<and> agrees_with_evaluation (fer_input r) (er_input q))"

text \<open>
  One event after another of the same finding: the next revision, the same instance, detector,
  profile, subject, condition and basis, never a second opening, and a refusal that keeps the
  condition state.
\<close>

definition event_follows :: "store \<Rightarrow> FindingEventRow \<Rightarrow> FindingEventRow \<Rightarrow> bool" where
  "event_follows s p r \<longleftrightarrow>
     fer_event_revision r = fer_event_revision p + 1 \<and> row_kind r \<noteq> ''opened'' \<and>
     (\<exists>q \<in> set (evaluation_runs s). ei_evaluation_id (er_input q) = fer_evaluation_id r \<and>
        same_lineage s (er_input q) (fer_input r) p) \<and>
     (fi_refusal (fer_input r) \<noteq> None \<longrightarrow> row_state r = row_state p)"

definition finding_history :: "store \<Rightarrow> FindingEventRow list \<Rightarrow> bool" where
  "finding_history s rs \<longleftrightarrow> rs = [] \<or>
     row_kind (hd rs) = ''opened'' \<and> fer_event_revision (hd rs) = 1 \<and>
     fi_refusal (fer_input (hd rs)) = None \<and> successively (event_follows s) rs"

definition findings_inv :: "store \<Rightarrow> bool" where
  "findings_inv s \<longleftrightarrow>
     distinct (map row_event_id (finding_events s)) \<and> bt_ordered (finding_current s) \<and>
     (\<forall>r \<in> set (finding_events s). event_law s r) \<and>
     (\<forall>i. finding_history s (events_of s i)) \<and>
     (\<forall>i. bt_get (finding_current s) i =
        (if events_of s i = [] then None else Some (row_event_id (last (events_of s i)))))"

lemma find_distinct_key:
  "distinct (map key xs) \<Longrightarrow> a \<in> set xs \<Longrightarrow> List.find (\<lambda>b. key b = key a) xs = Some a"
  by (induction xs) force+

lemma events_of_subset: "set (events_of s i) \<subseteq> set (finding_events s)"
  by (auto simp: events_of_def)

lemma current_event_last:
  assumes "findings_inv s"
  shows "current_event s i = (if events_of s i = [] then None else Some (last (events_of s i)))"
proof (cases "events_of s i = []")
  case True
  with assms show ?thesis
    by (simp add: findings_inv_def current_event_def)
next
  case False
  then have "last (events_of s i) \<in> set (finding_events s)"
    using events_of_subset last_in_set by blast
  then have "List.find (\<lambda>b. row_event_id b = row_event_id (last (events_of s i))) (finding_events s) =
      Some (last (events_of s i))"
    using assms find_distinct_key [of row_event_id] by (simp add: findings_inv_def)
  with False assms show ?thesis
    by (simp add: findings_inv_def current_event_def)
qed

text \<open>Evaluations are only appended, and what holds of an event keeps holding.\<close>

lemma same_lineage_mono:
  "set (evaluation_runs s) \<subseteq> set (evaluation_runs s') \<Longrightarrow> same_lineage s e f p \<Longrightarrow> same_lineage s' e f p"
  unfolding same_lineage_def list_ex_iff by blast

lemma event_law_mono:
  "set (evaluation_runs s) \<subseteq> set (evaluation_runs s') \<Longrightarrow> event_law s r \<Longrightarrow> event_law s' r"
  unfolding event_law_def by blast

lemma event_follows_mono:
  "set (evaluation_runs s) \<subseteq> set (evaluation_runs s') \<Longrightarrow> event_follows s p r \<Longrightarrow> event_follows s' p r"
  unfolding event_follows_def using same_lineage_mono by blast

lemma finding_history_mono:
  assumes "set (evaluation_runs s) \<subseteq> set (evaluation_runs s')" and "finding_history s rs"
  shows "finding_history s' rs"
proof -
  have "successively (event_follows s) rs \<Longrightarrow> successively (event_follows s') rs"
    by (erule successively_mono) (rule event_follows_mono [OF assms(1)])
  with assms(2) show ?thesis
    by (auto simp: finding_history_def)
qed

lemma findings_inv_evaluations:
  assumes "findings_inv s" and "set (evaluation_runs s) \<subseteq> set (evaluation_runs s')"
    and "finding_events s' = finding_events s" and "finding_current s' = finding_current s"
  shows "findings_inv s'"
proof -
  have "events_of s' i = events_of s i" for i
    by (simp add: events_of_def assms(3))
  with assms show ?thesis
    unfolding findings_inv_def using event_law_mono finding_history_mono by metis
qed

lemma validate_finding_Ok:
  assumes "validate_finding_against_evaluation f e = Ok ()"
    and "(ei_outcome e = ''cannot_evaluate'') = (ei_refusal e \<noteq> None)"
    and "ei_outcome e = ''cannot_evaluate'' \<Longrightarrow> fi_visibility_state f \<noteq> ''sufficient''"
  shows "agrees_with_evaluation f e" and "fi_event_kind f = ''opened'' \<Longrightarrow> fi_refusal f = None"
proof -
  have "fi_refusal f \<noteq> None \<longleftrightarrow> ei_refusal e \<noteq> None"
    using assms(1) unfolding validate_finding_against_evaluation_def checks
    by (metis map_option_is_None)
  then show "agrees_with_evaluation f e" and "fi_event_kind f = ''opened'' \<Longrightarrow> fi_refusal f = None"
    using assms by (auto simp: agrees_with_evaluation_def validate_finding_against_evaluation_def)
qed

lemma event_appended_inv:
  assumes inv: "findings_inv s" and e: "q \<in> set (evaluation_runs s)" "er_input q = e"
    and finding: "validate_finding_against_evaluation f e = Ok ()"
      "(ei_outcome e = ''cannot_evaluate'') = (ei_refusal e \<noteq> None)"
    and insert: "insert_finding_event y e revision f ws s = Ok s'"
  shows "findings_inv s'"
proof -
  let ?rs = "events_of s (fi_finding_id f)"
  let ?current = "if ?rs = [] then None else Some (last ?rs)"
  from insert obtain n where ok: "validate_against_current s e f (current_event s (fi_finding_id f)) = Ok ()"
    "next_event_revision (current_event s (fi_finding_id f)) = Ok n"
    and allowed: "event_row_allowed y s (event_row e revision f n)"
    and s': "s' = s \<lparr> finding_events := finding_events s @ [event_row e revision f n],
             finding_evidence := finding_evidence s @ map (Pair (fi_event_id f)) (fi_evidence f),
             finding_current := bt_insert (fi_finding_id f) (fi_event_id f) (finding_current s) \<rparr>"
    by (rule insert_finding_event_Ok)
  note ok = ok [unfolded current_event_last [OF inv]]
  let ?r = "event_row e revision f n"
  have row: "fer_input ?r = f" "fer_evaluation_id ?r = ei_evaluation_id e" "fer_event_revision ?r = n"
    by (simp_all add: event_row_def)
  have visible: "ei_outcome e = ''cannot_evaluate'' \<Longrightarrow> fi_visibility_state f \<noteq> ''sufficient''"
    using ok(1) by (auto simp: validate_against_current_def split: if_splits)
  note agrees = validate_finding_Ok [OF finding visible]
  have law: "event_law s ?r"
    unfolding event_law_def using e agrees(1) row by auto
  have evaluations: "evaluation_runs s' = evaluation_runs s"
    by (simp add: s')
  have fresh: "fi_event_id f \<notin> row_event_id ` set (finding_events s)"
    using allowed by (simp add: event_row_allowed_def Let_def event_row_def)
  have follows: "event_follows s (last ?rs) ?r" if "?rs \<noteq> []"
    using that ok e agrees(1) row
    by (auto simp: event_follows_def validate_against_current_def next_event_revision_def
        checked_succ_i64_def agrees_with_evaluation_def split: if_splits)
  have history: "finding_history s (?rs @ [?r])"
  proof (cases "?rs = []")
    case True
    with ok agrees(2) row show ?thesis
      by (simp add: finding_history_def validate_against_current_def next_event_revision_def)
  next
    case False
    moreover have "finding_history s ?rs"
      using inv by (simp add: findings_inv_def)
    ultimately show ?thesis
      using follows by (simp add: finding_history_def successively_append_iff)
  qed
  have events: "events_of s' i = (if i = fi_finding_id f then ?rs @ [?r] else events_of s i)" for i
    by (simp add: events_of_def s' row)
  have "finding_history s' rs = finding_history s rs" for rs
    using finding_history_mono [of s s'] finding_history_mono [of s' s] evaluations by auto
  moreover have "event_law s' x = event_law s x" for x
    by (simp add: event_law_def evaluations)
  ultimately show ?thesis
    using inv history law fresh
    by (simp add: findings_inv_def events row bt_ordered_insert) (simp add: s' row image_def bt_ordered_insert)
qed

lemma insert_evaluation_inv:
  assumes "findings_inv s" and "insert_evaluation y e finding s = Ok (receipt, s')"
  shows "findings_inv s'"
proof -
  from assms(2) obtain sequence revision rows s3 where
    s3: "s3 = with_evaluation y e sequence revision rows s"
    and refusal: "(ei_outcome e = ''cannot_evaluate'') = (ei_refusal e \<noteq> None)"
    and event: "case finding of None \<Rightarrow> s' = s3
         | Some f \<Rightarrow> validate_finding_against_evaluation f e = Ok () \<and>
             insert_finding_event y e revision f (ei_watermarks e) s3 = Ok s'"
    by (rule insert_evaluation_Ok)
  have inv3: "findings_inv s3"
    by (rule findings_inv_evaluations [OF assms(1)]) (auto simp: s3 with_evaluation_def)
  show ?thesis
  proof (cases finding)
    case None
    with event inv3 show ?thesis by simp
  next
    case (Some f)
    have "\<exists>q \<in> set (evaluation_runs s3). er_input q = e"
      by (simp add: s3 with_evaluation_def)
    with Some event refusal show ?thesis
      by (auto intro: event_appended_inv [OF inv3])
  qed
qed

text \<open>
  C8. Every evaluation that the store accepts keeps the histories of all findings well formed.
  Event identities stay unique. The events of a finding are its revisions one, two, three and so
  on, of which the first and only the first is an opening and carries no refusal. Each later event
  keeps the finding's instance, detector, profile, subject, condition and basis, and keeps its
  condition state when the detector refused. The current pointer of the finding is its last event.
\<close>

theorem accepted_evaluation_keeps_histories:
  assumes "findings_inv s" and "insert_evaluation y e finding s = Ok (receipt, s')"
  shows "findings_inv s'"
  using assms by (rule insert_evaluation_inv)

section \<open>A sample store\<close>

text \<open>One admitted report, and an evaluation of it that opens a finding.\<close>

definition sample_document :: CanonicalDocument where
  "sample_document = \<lparr> cd_bytes = ''{}'', cd_digest = zero_digest \<rparr>"

definition sample_report_row :: AdmittedReportRow where
  "sample_report_row =
     \<lparr> row_report_sequence = 1, row_report_id = ''r-1'', row_instance_id = ''i-1'',
       row_profile_id = ''nq.host'', row_profile_version = ''1'', row_profile_digest = zero_digest,
       row_observed_at = ''t1'', row_received_at = ''t2'', row_report_status = ''complete'',
       row_canonical_json = ''{}'', row_semantic_digest = zero_digest \<rparr>"

definition sample_store :: store where
  "sample_store =
     \<lparr> user_version = 15, profile_descriptor_snapshots = [(''nq.host'', ''1'', zero_digest)],
       admission_records = [], watcher_runs = [], raw_submissions = [],
       admitted_reports = [\<lparr> srep_row = sample_report_row, srep_submission_id = ''s-1'',
         srep_source_expired = False \<rparr>],
       observations = [(''r-1'', 0)], evaluation_runs = [], evaluation_watermarks = [],
       refusals_table = [], finding_events = [], finding_evidence = [], finding_current = [],
       instance_binding_events = [], binding_materialization_events = [], status_events = [],
       status_autoincrement = 0, status_current = [] \<rparr>"

definition sample_evaluation :: "string \<Rightarrow> string \<Rightarrow> EvaluationInput" where
  "sample_evaluation i outcome =
     \<lparr> ei_evaluation_id = i, ei_trigger_run_id = None, ei_detector_id = ''pressure'',
       ei_detector_version = ''1'', ei_detector_digest = zero_digest,
       ei_evaluator_artifact_digest = zero_digest, ei_started_at = ''t3'', ei_evaluated_at = ''t3'',
       ei_outcome = outcome, ei_detail = sample_document,
       ei_profile = \<lparr> epb_profile_id = ''nq.host'', epb_profile_version = ''1'',
         epb_profile_digest = zero_digest, epb_profile_semantic_id = zero_digest \<rparr>,
       ei_watermarks = [\<lparr> wm_instance_id = ''i-1'', wm_max_report_sequence = 1,
         wm_watermark_received_at = Some ''t2'' \<rparr>],
       ei_refusal = None \<rparr>"

definition sample_finding :: "string \<Rightarrow> string \<Rightarrow> string \<Rightarrow> FindingEventInput" where
  "sample_finding i kind state =
     \<lparr> fi_event_id = i, fi_finding_id = ''f-1'', fi_event_kind = kind, fi_instance_id = ''i-1'',
       fi_profile_id = ''nq.host'', fi_profile_version = ''1'', fi_profile_digest = zero_digest,
       fi_subject = sample_document, fi_condition_name = ''pressure'', fi_condition_state = state,
       fi_visibility_state = ''sufficient'', fi_operator_work_state = ''unreviewed'',
       fi_severity = ''warning'', fi_summary = [], fi_limitations = sample_document,
       fi_safe_next_checks = sample_document, fi_freshness = sample_document,
       fi_basis = sample_document, fi_refusal = None, fi_origin_mode = ''native'',
       fi_historical_refs = sample_document, fi_observed_at = None, fi_received_at = None,
       fi_created_at = ''t3'',
       fi_evidence = [\<lparr> fev_ordinal = 0, fev_report_id = ''r-1'',
         fev_report_semantic_digest = zero_digest, fev_observation_ordinal = Some 0,
         fev_observed_at = ''t1'', fev_received_at = ''t2'' \<rparr>] \<rparr>"

definition sample_sqlite :: sqlite_externals where
  "sample_sqlite = \<lparr> json_valid = (\<lambda>_. True), json_texts = (\<lambda>_. [''r-1'']) \<rparr>"


lemma zero_digest_ok: "validate_digest field zero_digest = Ok ()" "sha256_column zero_digest"
proof -
  show "validate_digest field zero_digest = Ok ()"
    unfolding validate_digest_Ok zero_digest_def
    by (rule exI [of _ "replicate 64 (CHR ''0'')"]) (simp add: list_all_iff is_lower_hex_digit_def is_ascii_digit_def)
  then show "sha256_column zero_digest"
    by (rule sha256_column_of_digest)
qed

lemmas sample_store_defs = sample_store_def sample_evaluation_def sample_finding_def sample_sqlite_def
  sample_report_row_def sample_document_def

lemmas insertion_defs = insert_evaluation_def insert_evaluation_row_def insert_evaluation_refusal_def
  insert_finding_event_def insert_event_row_def upsert_current_def evaluation_row_allowed_def
  event_row_allowed_def evidence_row_allowed_def current_row_allowed_def watermark_row_allowed_def
  validate_finding_against_evaluation_def validate_trigger_def validate_watermark_def
  validate_against_current_def validate_evidence_def validate_ordered_unique_def current_event_def
  next_evaluation_revision_def next_evaluation_sequence_def next_event_revision_def checked_succ_i64_def
  max_or_zero_def profile_snapshot_exists_def watermarks_by_instance_def event_row_def u64_of_i64_def
  holes_schema_def check_some_def bt_from_def

definition opened_store :: store where
  "opened_store = (case insert_evaluation sample_sqlite (sample_evaluation ''v-1'' ''condition_present'')
     (Some (sample_finding ''e-1'' ''opened'' ''present'')) sample_store of
       Ok (_, s) \<Rightarrow> s | Err _ \<Rightarrow> sample_store)"

lemma sample_opens:
  "\<exists>receipt. insert_evaluation sample_sqlite (sample_evaluation ''v-1'' ''condition_present'')
     (Some (sample_finding ''e-1'' ''opened'' ''present'')) sample_store = Ok (receipt, opened_store)"
  "map row_kind (events_of opened_store ''f-1'') = [''opened'']"
  by (simp_all add: opened_store_def insertion_defs sample_store_defs zero_digest_ok events_of_def Let_def)

theorem accepted_evaluation_keeps_histories_witness:
  "findings_inv opened_store \<and> map row_kind (events_of opened_store ''f-1'') = [''opened'']"
proof -
  have "findings_inv sample_store"
    by (simp add: findings_inv_def sample_store_def events_of_def finding_history_def bt.valid_none)
  with sample_opens show ?thesis
    using accepted_evaluation_keeps_histories by blast
qed

end
