(* ===== verification/Store_Projections.thy ===== *)
theory Store_Projections
  imports Finding_Store
begin

text \<open>
  The store's binding transitions, its status events, and the two projections that it keeps beside
  its append-only tables (\<open>nq-store/src/lib.rs\<close>): the current pointers of findings and of
  components, the check that no pointer is stale, and the rebuilding of both from the event
  history. The steps of a store and the states they reach close the theory. Whether a text parses
  as a UUID or as an RFC 3339 time is a parameter.
\<close>

record store_externals = sqlite_externals +
  uuid_parses :: "string \<Rightarrow> bool"
  rfc3339_parses :: "string \<Rightarrow> bool"

section \<open>Binding transitions\<close>

definition MAX_BINDING_MATERIALIZATION_BYTES :: usize where
  "MAX_BINDING_MATERIALIZATION_BYTES = 3 * 1048576"

definition instance_id_ok :: "string \<Rightarrow> bool" where
  "instance_id_ok i \<longleftrightarrow> i \<noteq> [] \<and> length i \<le> 128 \<and>
     list_all (\<lambda>c. is_ascii_alphanumeric c \<or> c \<in> {CHR ''.'', CHR ''_'', CHR ''-''}) i"

definition validate_materialization ::
  "'y store_externals_scheme \<Rightarrow> BindingMaterializationInput \<Rightarrow> string \<Rightarrow> (unit, StoreError) result" where
  "validate_materialization y event expected_phase = run_checks
     [refuse_if (bmi_phase event \<noteq> expected_phase \<or>
          \<not> uuid_parses y (bmi_materialization_event_id event) \<or>
          \<not> uuid_parses y (bmi_operation_id event) \<or>
          \<not> uuid_parses y (bmi_binding_event_id event) \<or>
          \<not> instance_id_ok (bmi_instance_id event) \<or>
          \<not> rfc3339_parses y (bmi_occurred_at event))
        (StoreInvariant [''malformed binding materialization event'', expected_phase]),
      refuse_if (MAX_BINDING_MATERIALIZATION_BYTES < length (cd_bytes (bmi_detail event)))
        (StoreInvariant [''binding materialization detail exceeds its limit'',
          show_nat (length (cd_bytes (bmi_detail event)))])]"

definition validate_binding_event ::
  "'y store_externals_scheme \<Rightarrow> BindingEventInput \<Rightarrow> (unit, StoreError) result" where
  "validate_binding_event y event =
     (let active = bei_event_kind event \<in> {''activate'', ''rollback''};
          inactive = bei_event_kind event \<in> {''quiesce'', ''revoke''}
      in run_checks
        [validate_digest ''binding_digest'' (bei_binding_digest event),
         refuse_if (\<not> uuid_parses y (bei_binding_event_id event) \<or>
             \<not> instance_id_ok (bei_instance_id event) \<or>
             \<not> active \<and> \<not> inactive \<or>
             active \<and> (case bei_admission_id event of None \<Rightarrow> True | Some i \<Rightarrow> \<not> uuid_parses y i) \<or>
             inactive \<and> bei_admission_id event \<noteq> None \<or>
             \<not> rfc3339_parses y (bei_occurred_at event) \<or>
             (case bei_reason_code event of None \<Rightarrow> False
              | Some reason \<Rightarrow> reason = [] \<or> 128 < length reason \<or> has_control reason) \<or>
             65536 < length (cd_bytes (bei_detail event)))
           (StoreInvariant [''malformed authoritative binding event''])])"

definition insert_binding_event ::
  "'y sqlite_externals_scheme \<Rightarrow> BindingEventInput \<Rightarrow> store \<Rightarrow> (store, StoreError) result" where
  "insert_binding_event y event s =
     (if bei_binding_event_id event \<notin> bei_binding_event_id ` set (instance_binding_events s) \<and>
         bei_event_kind event \<in> {''activate'', ''quiesce'', ''revoke'', ''rollback''} \<and>
         sha256_column (bei_binding_digest event) \<and>
         length (cd_bytes (bei_detail event)) \<le> 65536 \<and> json_valid y (cd_bytes (bei_detail event)) \<and>
         (bei_event_kind event \<in> {''activate'', ''rollback''} \<and> bei_admission_id event \<noteq> None \<or>
          bei_event_kind event \<in> {''quiesce'', ''revoke''}) \<and>
         (case bei_admission_id event of None \<Rightarrow> True | Some i \<Rightarrow> i \<in> fst ` set (admission_records s))
      then Ok (s \<lparr> instance_binding_events := instance_binding_events s @ [event] \<rparr>)
      else Err (StoreSqlite ''instance_binding_events''))"

definition insert_materialization_event ::
  "'y sqlite_externals_scheme \<Rightarrow> BindingMaterializationInput \<Rightarrow> store \<Rightarrow> (store, StoreError) result" where
  "insert_materialization_event y event s =
     (if bmi_materialization_event_id event \<notin>
           bmi_materialization_event_id ` set (binding_materialization_events s) \<and>
         bmi_phase event \<in> {''intent'', ''completed''} \<and>
         length (cd_bytes (bmi_detail event)) \<le> 3145728 \<and> json_valid y (cd_bytes (bmi_detail event)) \<and>
         (bmi_operation_id event, bmi_phase event) \<notin>
           (\<lambda>m. (bmi_operation_id m, bmi_phase m)) ` set (binding_materialization_events s) \<and>
         (bmi_binding_event_id event, bmi_phase event) \<notin>
           (\<lambda>m. (bmi_binding_event_id m, bmi_phase m)) ` set (binding_materialization_events s) \<and>
         bmi_binding_event_id event \<in> bei_binding_event_id ` set (instance_binding_events s)
      then Ok (s \<lparr> binding_materialization_events := binding_materialization_events s @ [event] \<rparr>)
      else Err (StoreSqlite ''binding_materialization_events''))"

text \<open>The intents of an instance that no completion of the same operation follows.\<close>

definition pending_intents :: "store \<Rightarrow> string \<Rightarrow> BindingMaterializationInput list" where
  "pending_intents s instance_id =
     filter (\<lambda>intent. bmi_instance_id intent = instance_id \<and> bmi_phase intent = ''intent'' \<and>
         \<not> list_ex (\<lambda>completed. bmi_operation_id completed = bmi_operation_id intent \<and>
             bmi_phase completed = ''completed'') (binding_materialization_events s))
       (binding_materialization_events s)"

definition begin_binding_transition ::
  "'y store_externals_scheme \<Rightarrow> BindingEventInput \<Rightarrow> BindingMaterializationInput \<Rightarrow> store \<Rightarrow>
   (store, StoreError) result" where
  "begin_binding_transition y event intent s =
     and_then (run_checks
       [validate_binding_event y event,
        validate_materialization y intent ''intent'',
        refuse_if (bmi_instance_id intent \<noteq> bei_instance_id event \<or>
            bmi_binding_event_id intent \<noteq> bei_binding_event_id event)
          (StoreInvariant
            [''binding materialization intent must identify its binding event and instance'']),
        refuse_if (length (pending_intents s (bmi_instance_id intent)) \<noteq> 0)
          (StoreInvariant [''instance already has a pending binding materialization'',
            bmi_instance_id intent])]) (\<lambda>_.
     and_then (insert_binding_event y event s) (\<lambda>s1. insert_materialization_event y intent s1))"

definition complete_binding_materialization ::
  "'y store_externals_scheme \<Rightarrow> BindingMaterializationInput \<Rightarrow> store \<Rightarrow> (store, StoreError) result" where
  "complete_binding_materialization y completion s =
     and_then (run_checks
       [validate_materialization y completion ''completed'',
        refuse_if (length (filter (\<lambda>m. bmi_operation_id m = bmi_operation_id completion \<and>
              bmi_instance_id m = bmi_instance_id completion \<and>
              bmi_binding_event_id m = bmi_binding_event_id completion \<and> bmi_phase m = ''intent'')
            (binding_materialization_events s)) \<noteq> 1)
          (StoreInvariant [''binding materialization completion has no exact intent'',
            bmi_operation_id completion])]) (\<lambda>_.
     insert_materialization_event y completion s)"

definition pending_binding_materialization :: "store \<Rightarrow> string \<Rightarrow> BindingMaterializationInput option" where
  "pending_binding_materialization s instance_id =
     (case pending_intents s instance_id of [] \<Rightarrow> None | m # _ \<Rightarrow> Some m)"

definition latest_binding :: "store \<Rightarrow> string \<Rightarrow> BindingEventInput option" where
  "latest_binding s instance_id =
     (case rev (filter (\<lambda>b. bei_instance_id b = instance_id) (instance_binding_events s)) of
        [] \<Rightarrow> None | b # _ \<Rightarrow> Some b)"

section \<open>Status events\<close>

abbreviation status_key :: "StatusEventInput \<Rightarrow> string \<times> string" where
  "status_key e \<equiv> (sei_component_kind e, sei_component_id e)"

definition status_row_allowed ::
  "'y sqlite_externals_scheme \<Rightarrow> store \<Rightarrow> StatusEventInput \<Rightarrow> string option \<Rightarrow> bool" where
  "status_row_allowed y s status run_id \<longleftrightarrow>
     sei_status_event_id status \<notin> (\<lambda>q. sei_status_event_id (ser_input q)) ` set (status_events s) \<and>
     sei_component_kind status \<in> {''daemon'', ''database'', ''profile_catalog'', ''admission'',
       ''scheduler'', ''instance'', ''evaluation'', ''notification''} \<and>
     json_valid y (cd_bytes (sei_detail status)) \<and>
     (case run_id of None \<Rightarrow> True
      | Some run \<Rightarrow> run \<in> run_run_id ` set (watcher_runs s) \<and>
          Some run \<notin> ser_run_id ` set (status_events s))"

definition insert_status_event ::
  "'y sqlite_externals_scheme \<Rightarrow> StatusEventInput \<Rightarrow> string option \<Rightarrow> store \<Rightarrow>
   (store, StoreError) result" where
  "insert_status_event y status run_id s =
     (case checked_succ_i64 (status_autoincrement s) of
        None \<Rightarrow> Err (StoreSqlite ''status_events'')
      | Some sequence \<Rightarrow>
          (if status_row_allowed y s status run_id \<and>
              list_all (\<lambda>(key, latest). key \<noteq> status_key status \<longrightarrow> latest \<noteq> sei_status_event_id status)
                (status_current s)
           then Ok (s \<lparr> status_events := status_events s @
                  [\<lparr> ser_input = status, ser_run_id = run_id, ser_status_sequence = sequence \<rparr>],
                  status_autoincrement := sequence,
                  status_current := bt_insert (status_key status) (sei_status_event_id status)
                    (status_current s) \<rparr>)
           else Err (StoreSqlite ''status_events'')))"

definition record_status ::
  "'y sqlite_externals_scheme \<Rightarrow> StatusEventInput \<Rightarrow> store \<Rightarrow> (store, StoreError) result" where
  "record_status y status s = insert_status_event y status None s"

section \<open>Projections\<close>

text \<open>
  The query that rebuilds a projection: the rows that no later row of the same key supersedes.
\<close>

definition latest_pairs ::
  "('r \<Rightarrow> 'k) \<Rightarrow> ('r \<Rightarrow> 'i) \<Rightarrow> ('r \<Rightarrow> int) \<Rightarrow> 'r list \<Rightarrow> ('k \<times> 'i) list" where
  "latest_pairs key ident rank rows =
     [(key event, ident event). event \<leftarrow> rows,
        \<not> list_ex (\<lambda>later. key later = key event \<and> rank event < rank later) rows]"

text \<open>The primary key and the unique pointer of a projection table, for a whole insertion.\<close>

definition insert_pairs ::
  "string \<Rightarrow> ('k::linorder \<times> 'i) list \<Rightarrow> (('k, 'i) btree_map, StoreError) result" where
  "insert_pairs table pairs =
     (if distinct (map fst pairs) \<and> distinct (map snd pairs) then Ok (bt_from pairs)
      else Err (StoreSqlite table))"

abbreviation finding_key :: "FindingEventRow \<Rightarrow> string" where
  "finding_key r \<equiv> fi_finding_id (fer_input r)"

abbreviation component_key :: "StatusEventRow \<Rightarrow> string \<times> string" where
  "component_key r \<equiv> status_key (ser_input r)"

abbreviation status_id :: "StatusEventRow \<Rightarrow> string" where
  "status_id r \<equiv> sei_status_event_id (ser_input r)"

text \<open>The rows that no pointer of their key covers: the counts of \<open>validate_projection_invariants\<close>.\<close>

definition uncovered ::
  "('r \<Rightarrow> 'k::linorder) \<Rightarrow> ('r \<Rightarrow> 'i) \<Rightarrow> ('r \<Rightarrow> int) \<Rightarrow> 'r list \<Rightarrow> ('k, 'i) btree_map \<Rightarrow> 'r list" where
  "uncovered key ident rank rows pointer =
     filter (\<lambda>event. \<not> list_ex (\<lambda>(k, latest). k = key event \<and>
         list_ex (\<lambda>selected. ident selected = latest \<and> key selected = key event \<and>
             rank event \<le> rank selected) rows) pointer) rows"

text \<open>
  The keys that the check since a frontier reports: a pointer that names no row of its key with the
  highest rank, and a row past the bound whose key has no pointer.
\<close>

definition stale_keys ::
  "('r \<Rightarrow> 'k::linorder) \<Rightarrow> ('r \<Rightarrow> 'i) \<Rightarrow> ('r \<Rightarrow> int) \<Rightarrow> ('r \<Rightarrow> bool) \<Rightarrow> 'r list \<Rightarrow>
   ('k, 'i) btree_map \<Rightarrow> 'k list" where
  "stale_keys key ident rank past rows pointer =
     [k. (k, latest) \<leftarrow> pointer,
        case List.find (\<lambda>selected. ident selected = latest) rows of
          None \<Rightarrow> True
        | Some selected \<Rightarrow> key selected \<noteq> k \<or>
            rank selected \<noteq> max_or_zero (map rank (filter (\<lambda>l. key l = k) rows))] @
     [key event. event \<leftarrow> rows, past event \<and> \<not> list_ex (\<lambda>(k, _). k = key event) pointer]"

text \<open>A frontier is the highest row numbers validated before, or none for a table it does not bound.\<close>

record frontier =
  status_rowid :: "int option"
  finding_rowid :: "int option"

definition past_bound :: "int option \<Rightarrow> int \<Rightarrow> bool" where
  "past_bound bound rowid \<longleftrightarrow> (case bound of None \<Rightarrow> True | Some b \<Rightarrow> b < rowid)"

definition validate_projection_invariants_since :: "store \<Rightarrow> frontier \<Rightarrow> (unit, StoreError) result" where
  "validate_projection_invariants_since s front = run_checks
     [(case stale_keys component_key status_id ser_status_sequence
          (\<lambda>r. past_bound (status_rowid front) (ser_status_sequence r)) (status_events s) (status_current s) of
         [] \<Rightarrow> Ok ()
       | (_, component) # _ \<Rightarrow>
           Err (StoreIntegrity [''status_current is stale or inconsistent for component'', component])),
      (case stale_keys (\<lambda>r. finding_key (snd r)) (\<lambda>r. row_event_id (snd r)) (\<lambda>r. fer_event_revision (snd r))
          (\<lambda>r. past_bound (finding_rowid front) (int (fst r))) (enumerate 1 (finding_events s))
          (finding_current s) of
         [] \<Rightarrow> Ok ()
       | finding # _ \<Rightarrow>
           Err (StoreIntegrity [''finding_current is stale or inconsistent for finding'', finding]))]"

definition bindings_without_intent :: "store \<Rightarrow> BindingEventInput list" where
  "bindings_without_intent s =
     filter (\<lambda>binding. \<not> list_ex (\<lambda>intent. bmi_binding_event_id intent = bei_binding_event_id binding \<and>
         bmi_instance_id intent = bei_instance_id binding \<and> bmi_phase intent = ''intent'')
       (binding_materialization_events s)) (instance_binding_events s)"

definition invalid_completions :: "store \<Rightarrow> BindingMaterializationInput list" where
  "invalid_completions s =
     filter (\<lambda>completed. bmi_phase completed = ''completed'' \<and>
         \<not> list_ex (\<lambda>intent. bmi_operation_id intent = bmi_operation_id completed \<and>
             bmi_instance_id intent = bmi_instance_id completed \<and>
             bmi_binding_event_id intent = bmi_binding_event_id completed \<and> bmi_phase intent = ''intent'')
           (binding_materialization_events s)) (binding_materialization_events s)"

definition multiply_pending_instances :: "store \<Rightarrow> string list" where
  "multiply_pending_instances s =
     filter (\<lambda>i. 1 < length (pending_intents s i))
       (remdups (map bmi_instance_id (binding_materialization_events s)))"

definition refuse_count :: "'a list \<Rightarrow> string \<Rightarrow> (unit, StoreError) result" where
  "refuse_count bad what =
     refuse_if (length bad \<noteq> 0) (StoreIntegrity [show_nat (length bad), what])"

definition validate_projection_invariants ::
  "store \<Rightarrow> frontier option \<Rightarrow> (unit, StoreError) result" where
  "validate_projection_invariants s scope = run_checks
     ([refuse_count (bindings_without_intent s) ''binding events lack a recovery intent'',
       refuse_count (invalid_completions s)
         ''binding materialization completions lack an exact intent'',
       refuse_count (multiply_pending_instances s)
         ''instances have multiple pending binding materializations''] @
      (case scope of
         Some front \<Rightarrow> [validate_projection_invariants_since s front]
       | None \<Rightarrow>
           [refuse_count (uncovered finding_key row_event_id fer_event_revision (finding_events s)
              (finding_current s)) ''events with a stale finding_current'',
            refuse_count (uncovered component_key status_id ser_status_sequence (status_events s)
              (status_current s)) ''events with a stale status_current'']))"

definition rebuild_current_projections :: "store \<Rightarrow> (store, StoreError) result" where
  "rebuild_current_projections s =
     and_then (insert_pairs ''finding_current''
        (latest_pairs finding_key row_event_id fer_event_revision (finding_events s))) (\<lambda>findings.
     and_then (insert_pairs ''status_current''
        (latest_pairs component_key status_id ser_status_sequence (status_events s))) (\<lambda>statuses.
     (let s' = s \<lparr> finding_current := findings, status_current := statuses \<rparr> in
      map_ok (\<lambda>_. s') (validate_projection_invariants s' None))))"

section \<open>A log with a pointer to the last event of each key\<close>

text \<open>
  Both projections are pointers into an append-only log. A log tracks its pointers when identities
  are unique, ranks rise along the events of a key, and each key points to its last event.
\<close>

definition tracks_last ::
  "('r \<Rightarrow> 'k::linorder) \<Rightarrow> ('r \<Rightarrow> 'i) \<Rightarrow> ('r \<Rightarrow> int) \<Rightarrow> 'r list \<Rightarrow> ('k, 'i) btree_map \<Rightarrow> bool" where
  "tracks_last key ident rank rows pointer \<longleftrightarrow>
     distinct (map ident rows) \<and> bt_ordered pointer \<and>
     sorted_wrt (\<lambda>p q. key p = key q \<longrightarrow> rank p < rank q) rows \<and>
     (\<forall>k. bt_get pointer k =
        (let rs = filter (\<lambda>r. key r = k) rows in if rs = [] then None else Some (ident (last rs))))"

lemma sorted_wrt_rank_le_last:
  assumes "sorted_wrt (\<lambda>p q. key p = key q \<longrightarrow> rank p < rank q) rows"
    and "q \<in> set (filter (\<lambda>r. key r = k) rows)"
  shows "rank q \<le> (rank (last (filter (\<lambda>r. key r = k) rows)) :: int)"
  using assms
proof (induction rows)
  case (Cons r rows)
  let ?rs = "filter (\<lambda>r. key r = k) rows"
  show ?case
  proof (cases "q \<in> set ?rs")
    case True
    then have "?rs \<noteq> []" by (metis empty_iff set_empty)
    with True Cons show ?thesis by auto
  next
    case False
    with Cons.prems(2) have q: "q = r" "key r = k" by (auto split: if_splits)
    show ?thesis
    proof (cases "?rs = []")
      case False
      then have "last ?rs \<in> set rows" "key (last ?rs) = k"
        using last_in_set [OF False] by auto
      with q False Cons.prems(1) show ?thesis by (auto intro!: less_imp_le)
    qed (simp add: q)
  qed
qed simp

lemma tracks_last_append:
  assumes t: "tracks_last key ident rank rows pointer"
    and fresh: "ident r \<notin> ident ` set rows"
    and advances: "\<And>q. q \<in> set rows \<Longrightarrow> bt_get pointer (key r) = Some (ident q) \<Longrightarrow> rank q < rank r"
  shows "tracks_last key ident rank (rows @ [r]) (bt_insert (key r) (ident r) pointer)"
proof -
  let ?rs = "filter (\<lambda>q. key q = key r) rows"
  have "rank q < rank r" if q: "q \<in> set rows" "key q = key r" for q
  proof -
    have mem: "q \<in> set ?rs" using q by simp
    then have ne: "?rs \<noteq> []" by (metis empty_iff set_empty)
    then have "last ?rs \<in> set rows"
      using last_in_set [OF ne] by simp
    moreover have "bt_get pointer (key r) = Some (ident (last ?rs))"
      using t ne by (simp add: tracks_last_def Let_def)
    ultimately have "rank (last ?rs) < rank r" by (rule advances)
    moreover have "rank q \<le> rank (last ?rs)"
      using t mem by (intro sorted_wrt_rank_le_last) (auto simp: tracks_last_def)
    ultimately show ?thesis by simp
  qed
  then have "sorted_wrt (\<lambda>p q. key p = key q \<longrightarrow> rank p < rank q) (rows @ [r])"
    using t by (auto simp: tracks_last_def sorted_wrt_append)
  with t fresh show ?thesis
    by (auto simp: tracks_last_def Let_def bt_ordered_insert)
qed

lemma bt_get_iff: "bt_ordered m \<Longrightarrow> bt_get m k = Some v \<longleftrightarrow> (k, v) \<in> set m"
  by (rule map_of_eq_Some_iff) (auto simp: bt_ordered_def strict_sorted_iff)

lemma bt_ordered_set_eq:
  assumes "bt_ordered m" and "bt_ordered m'" and "set m = set m'"
  shows "m = m'"
proof -
  have d: "distinct (map fst m)" "distinct (map fst m')"
    using assms(1,2) by (auto simp: bt_ordered_def strict_sorted_iff)
  have "map fst m = map fst m'"
    using assms by (intro strict_sorted_equal) (auto simp: bt_ordered_def)
  moreover have "map_of m = map_of m'"
    using map_of_inject_set [OF d] assms(3) by simp
  moreover have "map (\<lambda>k. (k, the (map_of l k))) (map fst l) = l" if "distinct (map fst l)" for l :: "('a \<times> 'b) list"
    unfolding map_map by (rule map_idI) (use that in \<open>auto simp: map_of_is_SomeI\<close>)
  ultimately show ?thesis
    using d by metis
qed

lemma bt_from_set: "distinct (map fst es) \<Longrightarrow> set (bt_from es) = set es"
proof -
  assume d: "distinct (map fst es)"
  have "(k, v) \<in> set (bt_from es) \<longleftrightarrow> map_of (rev es) k = Some v" for k v
    by (simp add: bt_get_iff [OF bt_ordered_from, symmetric] bt_get_from)
  also have "map_of (rev es) k = Some v \<longleftrightarrow> (k, v) \<in> set es" for k v
    using d map_of_eq_Some_iff [of "rev es" k v] by (simp add: rev_map [symmetric])
  finally show ?thesis by auto
qed

text \<open>A row that nothing supersedes is the last of its key.\<close>

lemma latest_is_last:
  assumes t: "tracks_last key ident rank rows pointer" and r: "r \<in> set rows"
  shows "\<not> list_ex (\<lambda>later. key later = key r \<and> rank r < rank later) rows \<longleftrightarrow>
     r = last (filter (\<lambda>q. key q = key r) rows)"
proof -
  let ?rs = "filter (\<lambda>q. key q = key r) rows"
  have mem: "r \<in> set ?rs" using r by simp
  then have ne: "?rs \<noteq> []" by (metis empty_iff set_empty)
  have sorted: "sorted_wrt (\<lambda>p q. key p = key q \<longrightarrow> rank p < rank q) rows"
    using t by (simp add: tracks_last_def)
  have le: "rank q \<le> rank (last ?rs)" if "q \<in> set ?rs" for q
    by (rule sorted_wrt_rank_le_last [OF sorted that])
  have last: "last ?rs \<in> set rows" "key (last ?rs) = key r"
    using last_in_set [OF ne] by auto
  have "r = last ?rs" if "rank r = rank (last ?rs)"
  proof -
    have "sorted_wrt (\<lambda>p q. rank p < rank q) ?rs"
      using sorted_wrt_filter [OF sorted] by (rule sorted_wrt_mono_rel [rotated]) auto
    then have "sorted_wrt (\<lambda>p q. rank p < rank q) (butlast ?rs @ [last ?rs])"
      using ne by simp
    then have "rank q < rank (last ?rs)" if "q \<in> set (butlast ?rs)" for q
      using that by (simp only: sorted_wrt_append) auto
    moreover have "set ?rs = insert (last ?rs) (set (butlast ?rs))"
      using ne by (metis append_butlast_last_id list.simps(15) rotate1.simps(2) set_rotate1)
    ultimately show ?thesis
      using mem that by fastforce
  qed
  then have "rank r < rank (last ?rs) \<or> r = last ?rs"
    using le [OF mem] by linarith
  moreover have "\<not> rank (last ?rs) < rank q" if "q \<in> set rows" "key q = key r" for q
    using le [of q] that by simp
  ultimately show ?thesis
    using last by (auto simp: list_ex_iff)
qed

lemma concat_map_if_filter:
  "concat (map (\<lambda>r. if P r then [f r] else []) rows) = map f (filter P rows)"
  by (induction rows) auto

lemma latest_pairs_filter:
  "latest_pairs key ident rank rows = map (\<lambda>r. (key r, ident r))
     (filter (\<lambda>r. \<not> list_ex (\<lambda>later. key later = key r \<and> rank r < rank later) rows) rows)"
  by (simp add: latest_pairs_def concat_map_if_filter)

text \<open>The rebuilt projection is the tracked one.\<close>

lemma rebuild_tracked:
  assumes t: "tracks_last key ident rank rows pointer"
  shows "insert_pairs table (latest_pairs key ident rank rows) = Ok pointer"
proof -
  let ?latest = "filter (\<lambda>r. \<not> list_ex (\<lambda>later. key later = key r \<and> rank r < rank later) rows) rows"
  have d: "distinct (map ident rows)" and o': "bt_ordered pointer"
    using t by (auto simp: tracks_last_def)
  have last: "r \<in> set ?latest \<longleftrightarrow> r \<in> set rows \<and> r = last (filter (\<lambda>q. key q = key r) rows)" for r
    using latest_is_last [OF t] by auto
  have "inj_on key (set ?latest)"
  proof (rule inj_onI)
    fix p q
    assume "p \<in> set ?latest" and "q \<in> set ?latest" and k: "key p = key q"
    then have "p = last (filter (\<lambda>r. key r = key p) rows)" "q = last (filter (\<lambda>r. key r = key q) rows)"
      by (simp_all only: last)
    then show "p = q"
      using k by metis
  qed
  then have fsts: "distinct (map key ?latest)"
    using d by (simp add: distinct_map)
  have snds: "distinct (map ident ?latest)"
    using d by (auto simp: distinct_map intro: inj_on_subset)
  have "(k, i) \<in> set (map (\<lambda>r. (key r, ident r)) ?latest) \<longleftrightarrow> (k, i) \<in> set pointer" for k i
  proof -
    have "(k, i) \<in> set pointer \<longleftrightarrow> bt_get pointer k = Some i"
      by (rule bt_get_iff [OF o', symmetric])
    also have "\<dots> \<longleftrightarrow> (let rs = filter (\<lambda>r. key r = k) rows in rs \<noteq> [] \<and> i = ident (last rs))"
      using t by (auto simp: tracks_last_def Let_def)
    also have "\<dots> \<longleftrightarrow> (\<exists>r \<in> set ?latest. k = key r \<and> i = ident r)"
      (is "?l \<longleftrightarrow> ?r")
    proof
      assume ?l
      then have "last (filter (\<lambda>r. key r = k) rows) \<in> set (filter (\<lambda>r. key r = k) rows)"
        unfolding Let_def using last_in_set by blast
      then have "key (last (filter (\<lambda>r. key r = k) rows)) = k" "last (filter (\<lambda>r. key r = k) rows) \<in> set rows"
        by simp_all
      then show ?r
        using \<open>?l\<close> last [of "last (filter (\<lambda>r. key r = k) rows)"] by (auto simp: Let_def)
    next
      assume ?r
      then obtain r where r: "r \<in> set ?latest" "k = key r" "i = ident r" by blast
      then have "r \<in> set rows" "r = last (filter (\<lambda>q. key q = k) rows)"
        using last [of r] by simp_all
      with r show ?l
        unfolding Let_def by (metis (mono_tags, lifting) filter_empty_conv)
    qed
    finally show ?thesis by auto
  qed
  then have "set (map (\<lambda>r. (key r, ident r)) ?latest) = set pointer"
    by auto
  then have "bt_from (map (\<lambda>r. (key r, ident r)) ?latest) = pointer"
    using fsts by (intro bt_ordered_set_eq bt_ordered_from o') (simp add: bt_from_set comp_def)
  then show ?thesis
    using fsts snds by (simp add: insert_pairs_def latest_pairs_filter comp_def)
qed

text \<open>A tracked row is covered by its key's pointer, and no pointer is stale.\<close>

lemma tracked_pointer:
  assumes t: "tracks_last key ident rank rows pointer" and r: "r \<in> set rows"
  shows "\<exists>l \<in> set rows. (key r, ident l) \<in> set pointer \<and> key l = key r \<and> rank r \<le> rank l"
proof -
  let ?rs = "filter (\<lambda>q. key q = key r) rows"
  have mem: "r \<in> set ?rs" using r by simp
  then have ne: "?rs \<noteq> []" by (metis empty_iff set_empty)
  have "bt_get pointer (key r) = Some (ident (last ?rs))"
    using t ne by (simp add: tracks_last_def Let_def)
  then have "(key r, ident (last ?rs)) \<in> set pointer"
    by (rule map_of_SomeD)
  moreover have "rank r \<le> rank (last ?rs)"
    using t mem by (intro sorted_wrt_rank_le_last) (auto simp: tracks_last_def)
  ultimately show ?thesis
    using last_in_set [OF ne] by auto
qed

lemma uncovered_tracked:
  assumes t: "tracks_last key ident rank rows pointer"
  shows "uncovered key ident rank rows pointer = []"
proof -
  have "list_ex (\<lambda>(k, latest). k = key r \<and> list_ex (\<lambda>selected. ident selected = latest \<and>
      key selected = key r \<and> rank r \<le> rank selected) rows) pointer" if "r \<in> set rows" for r
  proof -
    note tracked_pointer [OF t, of r]
    with that obtain l where "l \<in> set rows" "(key r, ident l) \<in> set pointer" "key l = key r" "rank r \<le> rank l"
      by blast
    then show ?thesis
      unfolding list_ex_iff by blast
  qed
  then show ?thesis
    unfolding uncovered_def filter_empty_conv by blast
qed

lemma max_or_zero_last:
  assumes "sorted_wrt (\<lambda>p q. key p = key q \<longrightarrow> rank p < rank q) rows"
    and "filter (\<lambda>r. key r = k) rows \<noteq> []"
  shows "max_or_zero (map rank (filter (\<lambda>r. key r = k) rows)) = rank (last (filter (\<lambda>r. key r = k) rows))"
proof -
  let ?rs = "filter (\<lambda>r. key r = k) rows"
  have "Max (set (map rank ?rs)) = rank (last ?rs)"
  proof (rule Max_eqI)
    show "rank (last ?rs) \<in> set (map rank ?rs)"
      using last_in_set [OF assms(2)] by simp
  qed (use sorted_wrt_rank_le_last [OF assms(1)] in auto)
  with assms(2) show ?thesis
    by (simp add: max_or_zero_def)
qed

lemma stale_keys_tracked:
  assumes t: "tracks_last key ident rank rows pointer"
  shows "stale_keys key ident rank past rows pointer = []"
proof -
  have sound: "\<exists>r. List.find (\<lambda>selected. ident selected = latest) rows = Some r \<and> key r = k \<and>
      rank r = max_or_zero (map rank (filter (\<lambda>l. key l = k) rows))"
    if "(k, latest) \<in> set pointer" for k latest
  proof -
    let ?rs = "filter (\<lambda>l. key l = k) rows"
    have "bt_ordered pointer"
      using t by (simp only: tracks_last_def)
    then have "bt_get pointer k = Some latest"
      using that by (simp only: bt_get_iff)
    then have ne: "?rs \<noteq> []" and latest: "latest = ident (last ?rs)"
      using t by (auto simp: tracks_last_def Let_def split: if_splits)
    have last: "last ?rs \<in> set rows" "key (last ?rs) = k"
      using last_in_set [OF ne] by auto
    have "List.find (\<lambda>selected. ident selected = ident (last ?rs)) rows = Some (last ?rs)"
      using t last(1) by (intro find_distinct_key) (auto simp: tracks_last_def)
    moreover have "rank (last ?rs) = max_or_zero (map rank ?rs)"
      using t ne by (intro max_or_zero_last [symmetric]) (auto simp: tracks_last_def)
    ultimately show ?thesis
      using last(2) latest by blast
  qed
  have "list_ex (\<lambda>(k, _). k = key r) pointer" if "r \<in> set rows" for r
    using tracked_pointer [OF t that] by (auto simp: list_ex_iff)
  then show ?thesis
    unfolding stale_keys_def using sound by (force simp: concat_eq_Nil_conv)
qed

text \<open>
  The contract between a table of events and its projection. Appending an event writes its row
  and moves the pointer of its key; the identity is new, and in a sound state the rank rises above
  that of the row the key pointed to.
\<close>

locale event_log =
  fixes key :: "'r \<Rightarrow> 'k::linorder" and ident :: "'r \<Rightarrow> 'i" and rank :: "'r \<Rightarrow> int"
    and rows :: "'s \<Rightarrow> 'r list" and pointer :: "'s \<Rightarrow> ('k, 'i) btree_map"
    and sound :: "'s \<Rightarrow> bool" and appends :: "'r \<Rightarrow> 's \<Rightarrow> 's \<Rightarrow> bool"
  assumes appends_row: "appends r s s' \<Longrightarrow> rows s' = rows s @ [r]"
    and appends_pointer: "appends r s s' \<Longrightarrow> pointer s' = bt_insert (key r) (ident r) (pointer s)"
    and appends_fresh: "appends r s s' \<Longrightarrow> ident r \<notin> ident ` set (rows s)"
    and appends_sound: "sound s \<Longrightarrow> appends r s s' \<Longrightarrow> sound s'"
    and appends_rank: "sound s \<Longrightarrow> appends r s s' \<Longrightarrow> q \<in> set (rows s) \<Longrightarrow>
      bt_get (pointer s) (key r) = Some (ident q) \<Longrightarrow> rank q < rank r"
begin

abbreviation tracked :: "'s \<Rightarrow> bool" where
  "tracked s \<equiv> sound s \<and> tracks_last key ident rank (rows s) (pointer s)"

lemma tracked_append:
  assumes "tracked s" and "appends r s s'"
  shows "tracked s'"
proof
  show "sound s'"
    using assms appends_sound by blast
  show "tracks_last key ident rank (rows s') (pointer s')"
    unfolding appends_row [OF assms(2)] appends_pointer [OF assms(2)]
    using assms appends_fresh appends_rank by (intro tracks_last_append) blast+
qed

lemma tracked_projection:
  assumes "tracked s"
  shows "insert_pairs table (latest_pairs key ident rank (rows s)) = Ok (pointer s)"
    and "uncovered key ident rank (rows s) (pointer s) = []"
    and "stale_keys key ident rank past (rows s) (pointer s) = []"
  using assms rebuild_tracked uncovered_tracked stale_keys_tracked by blast+

end

definition appends_finding ::
  "'y sqlite_externals_scheme \<Rightarrow> FindingEventRow \<Rightarrow> store \<Rightarrow> store \<Rightarrow> bool" where
  "appends_finding y r s s' \<longleftrightarrow>
     (\<exists>e revision f ws. insert_finding_event y e revision f ws s = Ok s' \<and> r = last (finding_events s'))"

definition appends_status ::
  "'y sqlite_externals_scheme \<Rightarrow> StatusEventRow \<Rightarrow> store \<Rightarrow> store \<Rightarrow> bool" where
  "appends_status y r s s' \<longleftrightarrow>
     (\<exists>status run. insert_status_event y status run s = Ok s' \<and> r = last (status_events s'))"

definition distinct_findings :: "store \<Rightarrow> bool" where
  "distinct_findings s \<longleftrightarrow> distinct (map row_event_id (finding_events s))"

definition status_bounded :: "store \<Rightarrow> bool" where
  "status_bounded s \<longleftrightarrow> list_all (\<lambda>r. ser_status_sequence r \<le> status_autoincrement s) (status_events s)"

lemma appends_finding_row:
  assumes "appends_finding y r s s'"
  shows "finding_events s' = finding_events s @ [r] \<and>
     finding_current s' = bt_insert (finding_key r) (row_event_id r) (finding_current s) \<and>
     row_event_id r \<notin> row_event_id ` set (finding_events s) \<and>
     next_event_revision (current_event s (finding_key r)) = Ok (fer_event_revision r)"
proof -
  from assms obtain e revision f ws where i: "insert_finding_event y e revision f ws s = Ok s'"
    and r: "r = last (finding_events s')"
    by (auto simp: appends_finding_def)
  from i obtain n where "next_event_revision (current_event s (fi_finding_id f)) = Ok n"
    and "event_row_allowed y s (event_row e revision f n)"
    and "s' = s \<lparr> finding_events := finding_events s @ [event_row e revision f n],
             finding_evidence := finding_evidence s @ map (Pair (fi_event_id f)) (fi_evidence f),
             finding_current := bt_insert (fi_finding_id f) (fi_event_id f) (finding_current s) \<rparr>"
    by (rule insert_finding_event_Ok)
  with r show ?thesis
    by (simp add: event_row_allowed_def Let_def event_row_def)
qed

interpretation findings: event_log finding_key row_event_id fer_event_revision finding_events
  finding_current distinct_findings "appends_finding y" for y :: "'y sqlite_externals_scheme"
proof unfold_locales
  fix r q s s'
  assume s: "distinct_findings s" and a: "appends_finding y r s s'"
  note row = appends_finding_row [OF a]
  show "distinct_findings s'"
    using row s by (simp add: distinct_findings_def)
  assume "q \<in> set (finding_events s)" "bt_get (finding_current s) (finding_key r) = Some (row_event_id q)"
  then have "current_event s (finding_key r) = Some q"
    using s by (simp add: current_event_def distinct_findings_def
        find_distinct_key [of row_event_id])
  with row show "fer_event_revision q < fer_event_revision r"
    by (auto simp: next_event_revision_def checked_succ_i64_def split: if_splits)
qed (auto dest: appends_finding_row)

lemma appends_status_row:
  assumes "appends_status y r s s'"
  shows "status_events s' = status_events s @ [r] \<and>
     status_current s' = bt_insert (component_key r) (status_id r) (status_current s) \<and>
     status_id r \<notin> status_id ` set (status_events s) \<and>
     ser_status_sequence r = status_autoincrement s + 1 \<and>
     status_autoincrement s' = ser_status_sequence r"
  using assms
  by (auto simp: appends_status_def insert_status_event_def status_row_allowed_def checked_succ_i64_def
      split: if_splits)

interpretation statuses: event_log component_key status_id ser_status_sequence status_events
  status_current status_bounded "appends_status y" for y :: "'y sqlite_externals_scheme"
proof unfold_locales
  fix r q s s'
  assume s: "status_bounded s" and a: "appends_status y r s s'"
  note row = appends_status_row [OF a]
  show "status_bounded s'"
    using row s by (auto simp: status_bounded_def list_all_iff)
  assume "q \<in> set (status_events s)"
  with row s show "ser_status_sequence q < ser_status_sequence r"
    by (auto simp: status_bounded_def list_all_iff)
qed (auto dest: appends_status_row)

section \<open>Pending materializations\<close>

definition bindings_inv :: "store \<Rightarrow> bool" where
  "bindings_inv s \<longleftrightarrow> bindings_without_intent s = [] \<and> invalid_completions s = [] \<and>
     (\<forall>i. length (pending_intents s i) \<le> 1)"

lemma insert_binding_event_Ok:
  "insert_binding_event y b s = Ok s' \<Longrightarrow>
     s' = s \<lparr> instance_binding_events := instance_binding_events s @ [b] \<rparr>"
  by (simp add: insert_binding_event_def split: if_splits)

lemma insert_materialization_event_Ok:
  "insert_materialization_event y m s = Ok s' \<Longrightarrow>
     s' = s \<lparr> binding_materialization_events := binding_materialization_events s @ [m] \<rparr> \<and>
     (bmi_operation_id m, bmi_phase m) \<notin>
       (\<lambda>q. (bmi_operation_id q, bmi_phase q)) ` set (binding_materialization_events s)"
  by (simp add: insert_materialization_event_def split: if_splits)

lemma begin_binding_transition_Ok:
  assumes "begin_binding_transition y b m s = Ok s'"
  shows "s' = s \<lparr> instance_binding_events := instance_binding_events s @ [b],
            binding_materialization_events := binding_materialization_events s @ [m] \<rparr>"
    and "bmi_phase m = ''intent''" and "bmi_instance_id m = bei_instance_id b"
    and "bmi_binding_event_id m = bei_binding_event_id b"
    and "pending_intents s (bmi_instance_id m) = []"
  using assms
  by (auto simp: begin_binding_transition_def and_then_Ok validate_materialization_def
      dest!: insert_binding_event_Ok insert_materialization_event_Ok)

lemma complete_binding_materialization_Ok:
  assumes "complete_binding_materialization y m s = Ok s'"
  shows "s' = s \<lparr> binding_materialization_events := binding_materialization_events s @ [m] \<rparr>"
    and "bmi_phase m = ''completed''"
    and "\<exists>q \<in> set (binding_materialization_events s). bmi_operation_id q = bmi_operation_id m \<and>
       bmi_instance_id q = bmi_instance_id m \<and> bmi_binding_event_id q = bmi_binding_event_id m \<and>
       bmi_phase q = ''intent''"
proof -
  from assms show "s' = s \<lparr> binding_materialization_events := binding_materialization_events s @ [m] \<rparr>"
    and "bmi_phase m = ''completed''"
    by (auto simp: complete_binding_materialization_def and_then_Ok validate_materialization_def
        dest!: insert_materialization_event_Ok)
  from assms have "length (filter (\<lambda>q. bmi_operation_id q = bmi_operation_id m \<and>
      bmi_instance_id q = bmi_instance_id m \<and> bmi_binding_event_id q = bmi_binding_event_id m \<and>
      bmi_phase q = ''intent'') (binding_materialization_events s)) = 1"
    by (auto simp: complete_binding_materialization_def and_then_Ok)
  then have "filter (\<lambda>q. bmi_operation_id q = bmi_operation_id m \<and>
      bmi_instance_id q = bmi_instance_id m \<and> bmi_binding_event_id q = bmi_binding_event_id m \<and>
      bmi_phase q = ''intent'') (binding_materialization_events s) \<noteq> []"
    by auto
  then show "\<exists>q \<in> set (binding_materialization_events s). bmi_operation_id q = bmi_operation_id m \<and>
       bmi_instance_id q = bmi_instance_id m \<and> bmi_binding_event_id q = bmi_binding_event_id m \<and>
       bmi_phase q = ''intent''"
    unfolding filter_empty_conv by blast
qed

text \<open>A new intent is the only one of its instance, and a completion only removes intents.\<close>

lemma pending_after_intent:
  assumes "binding_materialization_events s' = binding_materialization_events s @ [m]"
    and "bmi_phase m = ''intent''" and "pending_intents s (bmi_instance_id m) = []"
  shows "length (pending_intents s' i) \<le> max 1 (length (pending_intents s i))"
proof (cases "i = bmi_instance_id m")
  case True
  have "filter (\<lambda>q. bmi_instance_id q = i \<and> bmi_phase q = ''intent'' \<and>
      \<not> list_ex (\<lambda>c. bmi_operation_id c = bmi_operation_id q \<and> bmi_phase c = ''completed'')
        (binding_materialization_events s @ [m])) (binding_materialization_events s) = []"
    using assms(3) True unfolding pending_intents_def filter_empty_conv by auto
  then show ?thesis
    by (simp add: pending_intents_def assms(1))
next
  case False
  then have "length (pending_intents s' i) \<le> length (pending_intents s i)"
    unfolding pending_intents_def assms(1) by (simp add: assms(2))
  then show ?thesis by simp
qed

lemma pending_after_completion:
  assumes "binding_materialization_events s' = binding_materialization_events s @ [m]"
    and "bmi_phase m = ''completed''"
  shows "pending_intents s' i =
     filter (\<lambda>q. bmi_operation_id q \<noteq> bmi_operation_id m) (pending_intents s i)"
  unfolding pending_intents_def assms(1) by (auto simp: assms(2) intro: filter_cong)

lemma begin_bindings_inv:
  assumes inv: "bindings_inv s" and "begin_binding_transition y b m s = Ok s'"
  shows "bindings_inv s'"
proof -
  note ok = begin_binding_transition_Ok [OF assms(2)]
  have "length (pending_intents s' i) \<le> 1" for i
    using pending_after_intent [of s' s m i] ok(1,2,5) inv by (simp add: bindings_inv_def)
  moreover have "bindings_without_intent s' = []"
    using inv ok(1-4) by (auto simp: bindings_inv_def bindings_without_intent_def filter_empty_conv)
  moreover have "invalid_completions s' = []"
    using inv ok(1,2) by (auto simp: bindings_inv_def invalid_completions_def filter_empty_conv)
  ultimately show ?thesis
    by (simp add: bindings_inv_def)
qed

lemma complete_bindings_inv:
  assumes inv: "bindings_inv s" and "complete_binding_materialization y m s = Ok s'"
  shows "bindings_inv s'"
proof -
  note ok = complete_binding_materialization_Ok [OF assms(2)]
  have "pending_intents s' i = filter (\<lambda>q. bmi_operation_id q \<noteq> bmi_operation_id m) (pending_intents s i)" for i
    by (rule pending_after_completion) (simp_all add: ok(1,2))
  then have "length (pending_intents s' i) \<le> length (pending_intents s i)" for i
    by (simp only: length_filter_le)
  then have "length (pending_intents s' i) \<le> 1" for i
    using inv unfolding bindings_inv_def by (blast intro: le_trans)
  moreover have "bindings_without_intent s' = []"
    using inv ok(1) by (auto simp: bindings_inv_def bindings_without_intent_def filter_empty_conv)
  moreover have "invalid_completions s' = []"
    using inv ok by (auto simp: bindings_inv_def invalid_completions_def filter_empty_conv list_ex_iff)
  ultimately show ?thesis
    by (simp add: bindings_inv_def)
qed

section \<open>Steps of a store\<close>

text \<open>
  Every operation of this development that writes the event tables, and one step for the
  collections, which write the tables that evaluations read.
\<close>

inductive store_step :: "'y store_externals_scheme \<Rightarrow> store \<Rightarrow> store \<Rightarrow> bool" for y where
  evaluated: "insert_evaluation y e finding s = Ok (receipt, s') \<Longrightarrow> store_step y s s'"
| status_recorded: "insert_status_event y status run_id s = Ok s' \<Longrightarrow> store_step y s s'"
| binding_begun: "begin_binding_transition y event intent s = Ok s' \<Longrightarrow> store_step y s s'"
| binding_completed: "complete_binding_materialization y completion s = Ok s' \<Longrightarrow> store_step y s s'"
| rebuilt: "rebuild_current_projections s = Ok s' \<Longrightarrow> store_step y s s'"
| collected: "store_step y s (s \<lparr> profile_descriptor_snapshots := snapshots, admission_records := admissions,
     watcher_runs := runs, raw_submissions := submissions, admitted_reports := reports,
     observations := obs \<rparr>)"

definition initialized :: "store \<Rightarrow> bool" where
  "initialized s \<longleftrightarrow>
     evaluation_runs s = [] \<and> finding_events s = [] \<and> finding_current s = [] \<and>
     instance_binding_events s = [] \<and> binding_materialization_events s = [] \<and>
     status_events s = [] \<and> status_current s = []"

abbreviation findings_tracked :: "store \<Rightarrow> bool" where
  "findings_tracked s \<equiv> distinct_findings s \<and>
     tracks_last finding_key row_event_id fer_event_revision (finding_events s) (finding_current s)"

abbreviation statuses_tracked :: "store \<Rightarrow> bool" where
  "statuses_tracked s \<equiv> status_bounded s \<and>
     tracks_last component_key status_id ser_status_sequence (status_events s) (status_current s)"

definition store_inv :: "store \<Rightarrow> bool" where
  "store_inv s \<longleftrightarrow> findings_inv s \<and> findings_tracked s \<and> statuses_tracked s \<and> bindings_inv s"

lemma initialized_inv: "initialized s \<Longrightarrow> store_inv s"
  by (simp add: initialized_def store_inv_def findings_inv_def findings_inv_def events_of_def
      finding_history_def distinct_findings_def tracks_last_def status_bounded_def bindings_inv_def
      bindings_without_intent_def invalid_completions_def pending_intents_def bt.valid_none)

text \<open>An invariant reads only the tables that belong to it.\<close>

lemma findings_inv_same:
  assumes "findings_inv s" and "evaluation_runs s' = evaluation_runs s"
    and "finding_events s' = finding_events s" and "finding_current s' = finding_current s"
  shows "findings_inv s'"
  by (rule findings_inv_evaluations [OF assms(1)]) (simp_all add: assms)

lemma bindings_inv_same:
  "bindings_inv s \<Longrightarrow> instance_binding_events s' = instance_binding_events s \<Longrightarrow>
   binding_materialization_events s' = binding_materialization_events s \<Longrightarrow> bindings_inv s'"
  by (simp add: bindings_inv_def bindings_without_intent_def invalid_completions_def pending_intents_def)

lemma statuses_tracked_same:
  "statuses_tracked s \<Longrightarrow> status_events s' = status_events s \<Longrightarrow> status_current s' = status_current s \<Longrightarrow>
   status_autoincrement s' = status_autoincrement s \<Longrightarrow> statuses_tracked s'"
  by (simp add: status_bounded_def)

lemma findings_tracked_same:
  "findings_tracked s \<Longrightarrow> finding_events s' = finding_events s \<Longrightarrow> finding_current s' = finding_current s \<Longrightarrow>
   findings_tracked s'"
  by (simp add: distinct_findings_def)

definition other_tables :: "store \<Rightarrow> StatusEventRow list \<times> (string \<times> string, string) btree_map \<times> int \<times>
    BindingEventInput list \<times> BindingMaterializationInput list" where
  "other_tables s = (status_events s, status_current s, status_autoincrement s,
     instance_binding_events s, binding_materialization_events s)"

lemma insert_finding_event_tables:
  assumes "insert_finding_event y e revision f ws s = Ok s'"
  shows "other_tables s' = other_tables s" and "findings_tracked s \<Longrightarrow> findings_tracked s'"
proof -
  from assms show "other_tables s' = other_tables s"
    by (rule insert_finding_event_Ok) (simp add: other_tables_def)
  have "appends_finding y (last (finding_events s')) s s'"
    using assms by (auto simp: appends_finding_def)
  then show "findings_tracked s \<Longrightarrow> findings_tracked s'"
    using findings.tracked_append by blast
qed

lemma insert_evaluation_tables:
  assumes "insert_evaluation y e finding s = Ok (receipt, s')"
  shows "other_tables s' = other_tables s" and "findings_tracked s \<Longrightarrow> findings_tracked s'"
proof -
  from assms obtain sequence revision rows s3 where s3: "s3 = with_evaluation y e sequence revision rows s"
    and event: "case finding of None \<Rightarrow> s' = s3
         | Some f \<Rightarrow> validate_finding_against_evaluation f e = Ok () \<and>
             insert_finding_event y e revision f (ei_watermarks e) s3 = Ok s'"
    by (rule insert_evaluation_Ok)
  have same: "other_tables s3 = other_tables s" "findings_tracked s \<Longrightarrow> findings_tracked s3"
    by (simp_all add: s3 with_evaluation_def distinct_findings_def other_tables_def)
  have "other_tables s' = other_tables s3 \<and> (findings_tracked s3 \<longrightarrow> findings_tracked s')"
  proof (cases finding)
    case (Some f)
    with event have "insert_finding_event y e revision f (ei_watermarks e) s3 = Ok s'" by simp
    from insert_finding_event_tables [OF this] show ?thesis by blast
  qed (use event in simp)
  with same show "other_tables s' = other_tables s" and "findings_tracked s \<Longrightarrow> findings_tracked s'"
    by simp_all
qed

lemma insert_status_event_inv:
  assumes "store_inv s" and "insert_status_event y status run_id s = Ok s'"
  shows "store_inv s'"
proof -
  have "appends_status y (last (status_events s')) s s'"
    using assms(2) by (auto simp: appends_status_def)
  then have "statuses_tracked s'"
    using assms(1) statuses.tracked_append unfolding store_inv_def by blast
  moreover have "evaluation_runs s' = evaluation_runs s" "finding_events s' = finding_events s"
    "finding_current s' = finding_current s" "instance_binding_events s' = instance_binding_events s"
    "binding_materialization_events s' = binding_materialization_events s"
    using assms(2) by (auto simp: insert_status_event_def split: option.splits if_splits)
  ultimately show ?thesis
    using assms(1) findings_inv_same [of s s'] findings_tracked_same [of s s'] bindings_inv_same [of s s']
    unfolding store_inv_def by blast
qed

text \<open>A valid store passes its own check, and rebuilding its projections changes nothing.\<close>

lemma tracks_last_map:
  "tracks_last key ident rank (map g rows) pointer =
   tracks_last (\<lambda>r. key (g r)) (\<lambda>r. ident (g r)) (\<lambda>r. rank (g r)) rows pointer"
proof -
  have "(let rs = filter (\<lambda>r. key r = k) (map g rows) in if rs = [] then None else Some (ident (last rs))) =
      (let rs = filter (\<lambda>r. key (g r) = k) rows in if rs = [] then None else Some (ident (g (last rs))))" for k
    by (simp add: Let_def filter_map comp_def last_map)
  then show ?thesis
    by (simp only: tracks_last_def sorted_wrt_map map_map comp_def)
qed

lemma store_inv_checks:
  assumes "store_inv s"
  shows "validate_projection_invariants s scope = Ok ()"
proof -
  have multiply: "multiply_pending_instances s = []"
    using assms by (auto simp: multiply_pending_instances_def filter_empty_conv store_inv_def
        bindings_inv_def not_less)
  have f: "findings_tracked s" and t: "statuses_tracked s"
    using assms unfolding store_inv_def by blast+
  have "tracks_last (\<lambda>r. finding_key (snd r)) (\<lambda>r. row_event_id (snd r)) (\<lambda>r. fer_event_revision (snd r))
      (enumerate 1 (finding_events s)) (finding_current s)"
    using f tracks_last_map [of finding_key row_event_id fer_event_revision snd "enumerate 1 (finding_events s)"]
    by simp
  then have since: "validate_projection_invariants_since s front = Ok ()" for front
    by (simp add: validate_projection_invariants_since_def stale_keys_tracked
        statuses.tracked_projection(3) [OF t])
  show ?thesis
    using assms multiply since findings.tracked_projection(2) [OF f] statuses.tracked_projection(2) [OF t]
    by (cases scope) (simp_all add: validate_projection_invariants_def refuse_count_def store_inv_def
        bindings_inv_def)
qed

lemma store_inv_rebuild:
  assumes "store_inv s"
  shows "rebuild_current_projections s = Ok s"
proof -
  have f: "findings_tracked s" and t: "statuses_tracked s"
    using assms unfolding store_inv_def by blast+
  show ?thesis
    by (simp add: rebuild_current_projections_def findings.tracked_projection(1) [OF f]
        statuses.tracked_projection(1) [OF t] store_inv_checks [OF assms])
qed

lemma store_step_inv:
  assumes "store_step y s s'" and "store_inv s"
  shows "store_inv s'"
  using assms(1)
proof (cases rule: store_step.cases)
  case (evaluated e finding receipt)
  note tables = insert_evaluation_tables [OF evaluated]
  have "findings_inv s'"
    using assms(2) insert_evaluation_inv [OF _ evaluated] unfolding store_inv_def by blast
  moreover have "findings_tracked s'"
    using assms(2) tables(2) unfolding store_inv_def by blast
  ultimately show ?thesis
    using assms(2) tables(1) statuses_tracked_same [of s s'] bindings_inv_same [of s s']
    by (simp add: store_inv_def other_tables_def)
next
  case (status_recorded status run_id)
  with assms(2) show ?thesis by (rule insert_status_event_inv)
next
  case (binding_begun event intent)
  have "bindings_inv s'"
    using assms(2) begin_bindings_inv [OF _ binding_begun] unfolding store_inv_def by blast
  with assms(2) begin_binding_transition_Ok(1) [OF binding_begun] show ?thesis
    using findings_inv_same [of s s'] by (simp add: store_inv_def distinct_findings_def status_bounded_def)
next
  case (binding_completed completion)
  have "bindings_inv s'"
    using assms(2) complete_bindings_inv [OF _ binding_completed] unfolding store_inv_def by blast
  with assms(2) complete_binding_materialization_Ok(1) [OF binding_completed] show ?thesis
    using findings_inv_same [of s s'] by (simp add: store_inv_def distinct_findings_def status_bounded_def)
next
  case rebuilt
  with assms(2) show ?thesis by (simp add: store_inv_rebuild)
next
  case (collected snapshots admissions runs submissions reports obs)
  with assms(2) show ?thesis
    using findings_inv_same [of s s'] bindings_inv_same [of s s']
    by (simp add: store_inv_def distinct_findings_def status_bounded_def)
qed

lemma reachable_inv: "(store_step y)\<^sup>*\<^sup>* s s' \<Longrightarrow> store_inv s \<Longrightarrow> store_inv s'"
  by (induction rule: rtranclp_induct) (auto intro: store_step_inv)

section \<open>Properties of reachable stores\<close>

lemma successively_split: "successively P (xs @ p # r # ys) \<Longrightarrow> P p r"
  by (simp add: successively_append_iff)

text \<open>
  C5. In every store reached from an initialized one by evaluations, status events, binding
  transitions, their completions, rebuildings and collections, the projection check passes for the
  whole history and since any frontier.
\<close>

theorem reachable_store_passes_projection_check:
  assumes "initialized s0" and "(store_step y)\<^sup>*\<^sup>* s0 s"
  shows "validate_projection_invariants s scope = Ok ()"
  using store_inv_checks reachable_inv [OF assms(2)] initialized_inv [OF assms(1)] by blast

text \<open>
  C12. In every such store, rebuilding the current pointers of findings and components from the
  event tables succeeds and gives back exactly the pointers that the operations maintained.
\<close>

theorem rebuilt_projections_are_maintained_ones:
  assumes "initialized s0" and "(store_step y)\<^sup>*\<^sup>* s0 s"
  shows "rebuild_current_projections s = Ok s"
  using store_inv_rebuild reachable_inv [OF assms(2)] initialized_inv [OF assms(1)] by blast

text \<open>
  C34. In every such store, of two consecutive events of a finding the second has the next revision
  and is no opening. It changes the condition state only when it carries no refusal, and it resolves
  the finding only from an evaluation whose outcome was explicit absence, with the condition absent
  and visibility sufficient.
\<close>

theorem finding_events_follow_evaluations:
  assumes "initialized s0" and "(store_step y)\<^sup>*\<^sup>* s0 s"
    and "events_of s i = before @ p # r # rest"
  shows "fer_event_revision r = fer_event_revision p + 1 \<and> row_kind r \<noteq> ''opened'' \<and>
     (row_state r \<noteq> row_state p \<longrightarrow> fi_refusal (fer_input r) = None) \<and>
     (row_kind r = ''resolved'' \<longrightarrow> row_state r = ''explicitly_absent'' \<and>
        fi_visibility_state (fer_input r) = ''sufficient'' \<and>
        (\<exists>q \<in> set (evaluation_runs s). ei_evaluation_id (er_input q) = fer_evaluation_id r \<and>
           ei_outcome (er_input q) = ''condition_explicitly_absent''))"
proof -
  have inv: "findings_inv s"
    using reachable_inv [OF assms(2)] initialized_inv [OF assms(1)] by (simp add: store_inv_def)
  then have "finding_history s (before @ p # r # rest)"
    using assms(3) by (metis findings_inv_def)
  then have "event_follows s p r"
    using successively_split by (auto simp: finding_history_def)
  moreover have "r \<in> set (finding_events s)"
    using events_of_subset [of s i] assms(3) by auto
  then have "event_law s r"
    using inv by (simp add: findings_inv_def)
  ultimately show ?thesis
    by (auto simp: event_follows_def event_law_def agrees_with_evaluation_def)
qed

text \<open>A new intent's operation and binding event have no earlier row of either phase.\<close>

lemma begun_is_new:
  assumes inv: "bindings_inv s" and "begin_binding_transition y event intent s = Ok s1"
    and "m \<in> set (binding_materialization_events s)" and "bmi_phase m \<in> {''intent'', ''completed''}"
  shows "bmi_operation_id m \<noteq> bmi_operation_id intent \<and> bmi_binding_event_id m \<noteq> bmi_binding_event_id intent"
proof -
  have phase: "bmi_phase intent = ''intent''"
    by (rule begin_binding_transition_Ok(2) [OF assms(2)])
  obtain s' where "insert_materialization_event y intent s' = Ok s1"
    and "binding_materialization_events s' = binding_materialization_events s"
    using assms(2) by (auto simp: begin_binding_transition_def and_then_Ok dest!: insert_binding_event_Ok)
  then have fresh: "bmi_operation_id q \<noteq> bmi_operation_id intent \<and>
      bmi_binding_event_id q \<noteq> bmi_binding_event_id intent"
    if "q \<in> set (binding_materialization_events s)" "bmi_phase q = ''intent''" for q
    using that phase by (auto simp: insert_materialization_event_def image_iff split: if_splits)
  show ?thesis
  proof (cases "bmi_phase m = ''intent''")
    case True
    with fresh assms(3) show ?thesis by blast
  next
    case False
    then obtain q where "q \<in> set (binding_materialization_events s)" "bmi_phase q = ''intent''"
      "bmi_operation_id q = bmi_operation_id m" "bmi_binding_event_id q = bmi_binding_event_id m"
      using inv assms(3,4)
      by (auto simp: bindings_inv_def invalid_completions_def filter_empty_conv list_ex_iff)
    with fresh show ?thesis by metis
  qed
qed

text \<open>
  C33. A begun binding transition can be completed and then no longer blocks its instance. After a
  transition of an instance, a well-formed completion of the same operation with a new identity is
  accepted, and the instance then has no pending materialization, so that its next transition is
  not refused for one.
\<close>

theorem begun_transition_completes:
  assumes "initialized s0" and "(store_step y)\<^sup>*\<^sup>* s0 s"
    and begun: "begin_binding_transition y event intent s = Ok s1"
    and same: "bmi_operation_id completion = bmi_operation_id intent"
      "bmi_instance_id completion = bmi_instance_id intent"
      "bmi_binding_event_id completion = bmi_binding_event_id intent"
    and valid: "validate_materialization y completion ''completed'' = Ok ()"
      "json_valid y (cd_bytes (bmi_detail completion))"
    and new: "bmi_materialization_event_id completion \<notin>
       bmi_materialization_event_id ` set (binding_materialization_events s1)"
  shows "\<exists>s2. complete_binding_materialization y completion s1 = Ok s2 \<and>
     pending_binding_materialization s1 (bmi_instance_id intent) = Some intent \<and>
     pending_binding_materialization s2 (bmi_instance_id intent) = None"
proof -
  let ?ms = "binding_materialization_events s"
  have inv: "bindings_inv s"
    using reachable_inv [OF assms(2)] initialized_inv [OF assms(1)] by (simp add: store_inv_def)
  note ok = begin_binding_transition_Ok [OF begun]
  have ms1: "binding_materialization_events s1 = ?ms @ [intent]"
    by (simp add: ok(1))
  note fresh = begun_is_new [OF inv begun]
  have phases: "bmi_phase completion = ''completed''" "length (cd_bytes (bmi_detail completion)) \<le> 3145728"
    using valid(1) by (auto simp: validate_materialization_def MAX_BINDING_MATERIALIZATION_BYTES_def)
  have "filter (\<lambda>q. bmi_operation_id q = bmi_operation_id completion \<and>
      bmi_instance_id q = bmi_instance_id completion \<and>
      bmi_binding_event_id q = bmi_binding_event_id completion \<and> bmi_phase q = ''intent'') ?ms = []"
    unfolding filter_empty_conv using fresh same by auto
  then have "complete_binding_materialization y completion s1 = insert_materialization_event y completion s1"
    using valid(1) same ok(2) by (simp add: complete_binding_materialization_def ms1)
  also have "\<dots> = Ok (s1 \<lparr> binding_materialization_events := ?ms @ [intent, completion] \<rparr>)"
  proof -
    have completed_new: "bmi_phase m \<noteq> ''completed'' \<or>
        bmi_operation_id m \<noteq> bmi_operation_id intent \<and> bmi_binding_event_id m \<noteq> bmi_binding_event_id intent"
      if "m \<in> set ?ms" for m
      using fresh [OF that] by blast
    have "(bmi_operation_id completion, bmi_phase completion) \<notin>
        (\<lambda>m. (bmi_operation_id m, bmi_phase m)) ` set (?ms @ [intent])"
      using phases(1) same(1) ok(2) by (auto dest: completed_new)
    moreover have "(bmi_binding_event_id completion, bmi_phase completion) \<notin>
        (\<lambda>m. (bmi_binding_event_id m, bmi_phase m)) ` set (?ms @ [intent])"
      using phases(1) same(3) ok(2) by (auto dest: completed_new)
    ultimately show ?thesis
      using new phases valid(2) same ok(1,4) by (simp add: insert_materialization_event_def ms1)
  qed
  finally have complete: "complete_binding_materialization y completion s1 =
      Ok (s1 \<lparr> binding_materialization_events := ?ms @ [intent, completion] \<rparr>)" .
  have "pending_intents s1 (bmi_instance_id intent) = [intent]"
    using ok(2,5) fresh by (auto simp: pending_intents_def ms1 filter_empty_conv list_ex_iff)
  moreover from this have "pending_intents (s1 \<lparr> binding_materialization_events := ?ms @ [intent, completion] \<rparr>)
      (bmi_instance_id intent) = []"
    using pending_after_completion [of "s1 \<lparr> binding_materialization_events := ?ms @ [intent, completion] \<rparr>"
        s1 completion "bmi_instance_id intent"] same phases
    by (simp add: ms1)
  ultimately show ?thesis
    using complete by (simp add: pending_binding_materialization_def)
qed

section \<open>Witnesses\<close>

definition sample_store_externals :: store_externals where
  "sample_store_externals = \<lparr> json_valid = (\<lambda>_. True), json_texts = (\<lambda>_. [''r-1'']),
     uuid_parses = (\<lambda>_. True), rfc3339_parses = (\<lambda>_. True) \<rparr>"

definition evaluated_store :: "string \<Rightarrow> string \<Rightarrow> string \<Rightarrow> string \<Rightarrow> string \<Rightarrow> store \<Rightarrow> store" where
  "evaluated_store v outcome e kind state s =
     (case insert_evaluation sample_store_externals (sample_evaluation v outcome)
        (Some (sample_finding e kind state)) s of Ok (_, s') \<Rightarrow> s' | Err _ \<Rightarrow> s)"

definition sample_opened :: store where
  "sample_opened = evaluated_store ''v-1'' ''condition_present'' ''e-1'' ''opened'' ''present'' sample_store"

definition sample_resolved :: store where
  "sample_resolved = evaluated_store ''v-2'' ''condition_explicitly_absent'' ''e-2'' ''resolved''
     ''explicitly_absent'' sample_opened"

lemmas sample_evaluated_defs = evaluated_store_def insertion_defs sample_store_defs zero_digest_ok
  sample_store_externals_def same_lineage_def

lemma sample_opened_step:
  "\<exists>receipt. insert_evaluation sample_store_externals (sample_evaluation ''v-1'' ''condition_present'')
     (Some (sample_finding ''e-1'' ''opened'' ''present'')) sample_store = Ok (receipt, sample_opened)"
  by (simp add: sample_opened_def sample_evaluated_defs Let_def)

lemma sample_opened_eq:
  "sample_opened = sample_store
     \<lparr> evaluation_runs := [\<lparr> er_input = sample_evaluation ''v-1'' ''condition_present'',
         er_evaluation_sequence = 1, er_evaluation_revision = 1, er_min_cited_report_sequence = Some 1 \<rparr>],
       evaluation_watermarks := [(''v-1'', \<lparr> wm_instance_id = ''i-1'', wm_max_report_sequence = 1,
         wm_watermark_received_at = Some ''t2'' \<rparr>)],
       finding_events := [event_row (sample_evaluation ''v-1'' ''condition_present'') 1
         (sample_finding ''e-1'' ''opened'' ''present'') 1],
       finding_evidence := map (Pair ''e-1'') (fi_evidence (sample_finding ''e-1'' ''opened'' ''present'')),
       finding_current := [(''f-1'', ''e-1'')] \<rparr>"
  by (simp add: sample_opened_def sample_evaluated_defs min_cited_report_sequence_def min_opt_def Let_def)

lemma sample_resolved_step:
  "\<exists>receipt. insert_evaluation sample_store_externals (sample_evaluation ''v-2'' ''condition_explicitly_absent'')
     (Some (sample_finding ''e-2'' ''resolved'' ''explicitly_absent'')) sample_opened = Ok (receipt, sample_resolved)"
  by (simp add: sample_resolved_def sample_opened_eq sample_evaluated_defs Let_def)

lemma sample_reachable: "(store_step sample_store_externals)\<^sup>*\<^sup>* sample_store sample_resolved"
proof -
  have "store_step sample_store_externals sample_store sample_opened"
    using sample_opened_step store_step.evaluated by blast
  moreover have "store_step sample_store_externals sample_opened sample_resolved"
    using sample_resolved_step store_step.evaluated by blast
  ultimately show ?thesis by simp
qed

lemma sample_initialized: "initialized sample_store"
  by (simp add: initialized_def sample_store_def)

lemma sample_events:
  "map (\<lambda>r. (row_event_id r, row_kind r)) (events_of sample_resolved ''f-1'') =
     [(''e-1'', ''opened''), (''e-2'', ''resolved'')]"
  by (simp add: sample_resolved_def sample_opened_eq sample_evaluated_defs events_of_def Let_def)

theorem reachable_store_passes_projection_check_witness:
  "validate_projection_invariants sample_resolved None = Ok () \<and>
   validate_projection_invariants sample_resolved
     (Some \<lparr> status_rowid = None, finding_rowid = Some 1 \<rparr>) = Ok ()"
  using reachable_store_passes_projection_check [OF sample_initialized sample_reachable] by blast

theorem rebuilt_projections_are_maintained_ones_witness:
  "rebuild_current_projections sample_resolved = Ok sample_resolved"
  by (rule rebuilt_projections_are_maintained_ones [OF sample_initialized sample_reachable])

theorem finding_events_follow_evaluations_witness:
  "\<exists>p r. events_of sample_resolved ''f-1'' = [p, r] \<and> row_event_id r = ''e-2'' \<and>
     fer_event_revision r = fer_event_revision p + 1 \<and> row_state r = ''explicitly_absent'' \<and>
     fi_visibility_state (fer_input r) = ''sufficient''"
proof -
  obtain p r where e: "events_of sample_resolved ''f-1'' = [p, r]"
    and r: "row_event_id r = ''e-2''" "row_kind r = ''resolved''"
    using sample_events by (auto simp: map_eq_Cons_conv)
  from finding_events_follow_evaluations [OF sample_initialized sample_reachable, of "''f-1''" "[]" p r "[]"]
  show ?thesis
    using e r by auto
qed

definition sample_binding :: BindingEventInput where
  "sample_binding =
     \<lparr> bei_binding_event_id = ''b-1'', bei_instance_id = ''i-1'', bei_event_kind = ''revoke'',
       bei_admission_id = None, bei_binding_digest = zero_digest, bei_occurred_at = ''t4'',
       bei_reason_code = None, bei_detail = sample_document \<rparr>"

definition sample_materialization :: "string \<Rightarrow> string \<Rightarrow> BindingMaterializationInput" where
  "sample_materialization i phase =
     \<lparr> bmi_materialization_event_id = i, bmi_operation_id = ''o-1'', bmi_instance_id = ''i-1'',
       bmi_binding_event_id = ''b-1'', bmi_phase = phase, bmi_occurred_at = ''t4'',
       bmi_detail = sample_document \<rparr>"

definition sample_begun :: store where
  "sample_begun = sample_store \<lparr> instance_binding_events := [sample_binding],
     binding_materialization_events := [sample_materialization ''m-1'' ''intent''] \<rparr>"

lemma sample_begins:
  "begin_binding_transition sample_store_externals sample_binding (sample_materialization ''m-1'' ''intent'')
     sample_store = Ok sample_begun"
  by (simp add: begin_binding_transition_def validate_binding_event_def validate_materialization_def
      instance_id_ok_def is_ascii_alphanumeric_def insert_binding_event_def insert_materialization_event_def
      pending_intents_def sample_begun_def sample_binding_def sample_materialization_def sample_store_def
      sample_document_def sample_store_externals_def zero_digest_ok MAX_BINDING_MATERIALIZATION_BYTES_def Let_def)

theorem begun_transition_completes_witness:
  "\<exists>s2. complete_binding_materialization sample_store_externals
       (sample_materialization ''m-2'' ''completed'') sample_begun = Ok s2 \<and>
     pending_binding_materialization sample_begun ''i-1'' = Some (sample_materialization ''m-1'' ''intent'') \<and>
     pending_binding_materialization s2 ''i-1'' = None"
proof -
  have "validate_materialization sample_store_externals (sample_materialization ''m-2'' ''completed'')
      ''completed'' = Ok ()"
    by (simp add: validate_materialization_def instance_id_ok_def is_ascii_alphanumeric_def
        sample_materialization_def sample_document_def sample_store_externals_def
        MAX_BINDING_MATERIALIZATION_BYTES_def)
  from begun_transition_completes [OF sample_initialized rtranclp.rtrancl_refl sample_begins _ _ _ this]
  show ?thesis
    by (simp add: sample_materialization_def sample_store_externals_def sample_begun_def)
qed

end
