(* ===== verification/Finding_Engine.thy ===== *)
theory Finding_Engine
  imports Detector_Core Finding_Store
begin

text \<open>
  The engine's evaluation of one watcher (\<open>nq-core/src/engine.rs\<close>): the selection of the admitted
  reports in the watcher's context, their reconstruction, the run of each detector of the profile,
  the evaluation envelope, and the finding event that the result calls for. A compiled profile is
  an argument with its descriptor, its detectors and its validation. What the clock and the
  generator of identities return is an argument per detector. Serialization of the engine's types,
  the RFC 3339 texts of instants and the decoding of stored documents are parameters.
\<close>

section \<open>Configuration and carriers\<close>

record ProfileSelection =
  ps_id :: string
  ps_version :: u32

record ScopeConfig =
  sc_kind :: string
  sc_value :: json

record VantageConfig =
  vc_kind :: string
  vc_value :: json

text \<open>The fields of a watcher's configuration that its evaluation reads.\<close>

record WatcherConfig =
  wc_instance_id :: string
  wc_profile :: ProfileSelection
  wc_threshold_policy :: "ThresholdPolicyInput option"
  wc_subject :: string
  wc_scope :: ScopeConfig
  wc_vantage :: VantageConfig

text \<open>The methods of a compiled module that evaluation calls; a detector that panics returns \<open>None\<close>.\<close>

record ProfileModule =
  pm_descriptor :: ProfileDescriptor
  pm_detectors :: "(DetectorDescriptor \<times> (DetectorInput \<Rightarrow> DetectorResult option)) list"
  pm_validate :: "ValidationContext \<Rightarrow> ReportInput \<Rightarrow> ValidationResult"

record PublicEvidenceReference =
  per_report_id :: string
  per_semantic_digest :: string
  per_observation_ordinal :: "u32 option"
  per_observed_at :: instant
  per_received_at :: instant
  per_source_expired :: bool

text \<open>The columns of a current finding that the engine reads.\<close>

record FindingSnapshotRow =
  fs_finding_id :: string
  fs_instance_id :: string
  fs_detector_id :: string
  fs_detector_version :: string
  fs_detector_digest :: string
  fs_profile_id :: string
  fs_profile_version :: string
  fs_profile_digest :: string
  fs_profile_semantic_id :: string
  fs_subject_json :: string
  fs_condition_state :: string
  fs_operator_work_state :: string
  fs_severity :: string
  fs_summary :: string
  fs_basis_json :: string
  fs_evidence_json :: string

record EvidenceSnapshot =
  es_reports :: "AdmittedReportRow list"
  es_expired_citations :: "AdmittedReportRow list"

record EvaluationProfileIdentity =
  epi_profile :: ProfileKey
  epi_profile_digest :: ProfileDigest
  epi_profile_semantic_id :: Sha256Digest

record EvaluationContextV1 =
  ec_instance_id :: string
  ec_subject :: string
  ec_scope :: ScopeConfig
  ec_vantage :: VantageConfig

record EvaluationDetectorIdentity =
  edi_id :: string
  edi_version :: string
  edi_digest :: string

record SemanticIdentityV1 =
  si_id :: string
  si_version :: string
  si_digest :: Sha256Digest

record EvaluationWatermarkV2 =
  ew_instance_id :: string
  ew_max_report_sequence :: u64
  ew_watermark_received_at :: "instant option"

record EvaluationResultV1 =
  er1_profile :: EvaluationProfileIdentity
  er1_state :: DetectorState
  er1_condition :: string
  er1_summary :: string
  er1_evidence :: "DetectorEvidence list"
  er1_limitations :: "string list"
  er1_refusal :: "GovernedRefusal option"
  er1_watermark :: u64

record EvaluationEnvelopeV2 =
  env_evaluation_id :: string
  env_trigger_run_id :: "string option"
  env_context :: EvaluationContextV1
  env_detector :: EvaluationDetectorIdentity
  env_threshold_policy :: "SemanticIdentityV1 option"
  env_evaluator_artifact_digest :: Sha256Digest
  env_profile :: EvaluationProfileIdentity
  env_started_at :: instant
  env_evaluated_at :: instant
  env_watermark :: EvaluationWatermarkV2
  env_result :: EvaluationResultV1

record EvaluationCommitInput =
  eci_evaluation :: EvaluationInput
  eci_finding :: "FindingEventInput option"

record PreparedEvaluation =
  pe_envelope :: EvaluationEnvelopeV2
  pe_commit :: EvaluationCommitInput
  pe_detector_reports :: "DetectorReport list"

record engine_externals = stored_externals +
  rfc3339_parse :: "string \<Rightarrow> (instant, string) result"
  detector_to_value :: "DetectorDescriptor \<Rightarrow> (json, string) result"
  scope_to_value :: "ScopeConfig \<Rightarrow> json"
  vantage_to_value :: "VantageConfig \<Rightarrow> json"
  envelope_to_value :: "EvaluationEnvelopeV2 \<Rightarrow> (json, string) result"
  json_to_string :: "json \<Rightarrow> (string, string) result"
  json_from_slice :: "bytes \<Rightarrow> (json, string) result"
  report_from_slice :: "bytes \<Rightarrow> (EvidenceReport, string) result"
  references_from_str :: "string \<Rightarrow> (PublicEvidenceReference list, string) result"

text \<open>The instant and the identities that one detector's evaluation takes from its surroundings.\<close>

record Fresh =
  fr_now :: instant
  fr_evaluation_id :: string
  fr_refusal_id :: string
  fr_finding_id :: string
  fr_event_id :: string

section \<open>The envelope's own check\<close>

definition validate_envelope ::
  "'x profile_externals_scheme \<Rightarrow> ProfileDescriptor list \<Rightarrow> EvaluationEnvelopeV2 \<Rightarrow>
   (unit, EngineError) result" where
  "validate_envelope x profiles self = run_checks
     [refuse_if
        (env_evaluation_id self = [] \<or> edi_id (env_detector self) = [] \<or>
         edi_version (env_detector self) = [] \<or>
         parse_sha256_digest (edi_digest (env_detector self)) = Err DigestParseError \<or>
         ec_instance_id (env_context self) = [] \<or> ec_subject (env_context self) = [] \<or>
         (case env_threshold_policy self of None \<Rightarrow> False | Some p \<Rightarrow> si_id p = [] \<or> si_version p = []) \<or>
         env_profile self \<noteq> er1_profile (env_result self) \<or>
         ew_instance_id (env_watermark self) \<noteq> ec_instance_id (env_context self) \<or>
         er1_watermark (env_result self) \<noteq> ew_max_report_sequence (env_watermark self) \<or>
         env_evaluated_at self < env_started_at self \<or>
         er1_condition (env_result self) = [] \<or>
         (er1_state (env_result self) = DetectorState.CannotEvaluate) \<noteq>
           (er1_refusal (env_result self) \<noteq> None))
        (EngineInvariant [''evaluation envelope has inconsistent identity, context, time, watermark, profile, or refusal cardinality'']),
      (case er1_refusal (env_result self) of None \<Rightarrow> Ok ()
       | Some refusal \<Rightarrow> run_checks
           [validate_governed x profiles refusal,
            (case gr_origin refusal of
               GovernedRefusalOrigin.Profile p \<Rightarrow> run_checks
                 [refuse_if (pr_instance_id (gpr_refusal p) \<noteq> ec_instance_id (env_context self) \<or>
                      pr_profile (gpr_refusal p) \<noteq> epi_profile (env_profile self) \<or>
                      gpr_profile_semantic_id p \<noteq> epi_profile_semantic_id (env_profile self))
                    (EngineInvariant [''evaluation refusal disagrees with envelope context or profile'']),
                  refuse_if (pr_boundary (gpr_refusal p) \<noteq> ProfileRefusalBoundary.Detector \<or>
                      pr_code (gpr_refusal p) \<noteq> ProfileRefusalCode.CannotEvaluate \<or>
                      pr_message (gpr_refusal p) \<noteq> er1_summary (env_result self) \<or>
                      er1_evidence (env_result self) \<noteq> [])
                    (EngineInvariant [''cannot_evaluate refusal disagrees with the exact detector producer invariant''])]
             | _ \<Rightarrow> Err (EngineInvariant [''detector evaluation refusal must be profile-origin'']))])]"

section \<open>The reports of an evaluation\<close>

definition parse_timestamp :: "'x engine_externals_scheme \<Rightarrow> string \<Rightarrow> (instant, EngineError) result" where
  "parse_timestamp x value =
     map_err (\<lambda>e. EngineInvariant [''invalid stored timestamp'', e]) (rfc3339_parse x value)"

definition from_canonical_bytes ::
  "'x engine_externals_scheme \<Rightarrow> bytes \<Rightarrow> (CanonicalDocument, StoreError) result" where
  "from_canonical_bytes x bs =
     and_then (validate_document_size (length bs)) (\<lambda>_.
     and_then (map_err StoreCanonicalJson (json_from_slice x bs)) (\<lambda>value.
     and_then (map_err (\<lambda>e. StoreCanonicalJson (show_CanonicalizationError e)) (canonical_json_bytes x value))
       (\<lambda>expected.
          if expected \<noteq> bs
          then Err (StoreCanonicalJson ''document bytes are valid JSON but not canonical'')
          else Ok \<lparr> cd_bytes = bs, cd_digest = sha256_bytes x bs \<rparr>)))"

definition report_matches_profile_contract ::
  "AdmittedReportRow \<Rightarrow> string \<Rightarrow> string \<Rightarrow> string \<Rightarrow> bool" where
  "report_matches_profile_contract row profile_id profile_version profile_digest \<longleftrightarrow>
     row_profile_id row = profile_id \<and> row_profile_version row = profile_version \<and>
     row_profile_digest row = profile_digest"

definition show_u32 :: "u32 \<Rightarrow> string" where
  "show_u32 n = show_nat (unat n)"

definition report_matches_evaluation_context ::
  "'x engine_externals_scheme \<Rightarrow> AdmittedReportRow \<Rightarrow> WatcherConfig \<Rightarrow> string \<Rightarrow> (bool, EngineError) result" where
  "report_matches_evaluation_context x row watcher profile_digest =
     (if \<not> report_matches_profile_contract row (ps_id (wc_profile watcher))
          (show_u32 (ps_version (wc_profile watcher))) profile_digest
      then Ok False
      else
        and_then (map_err EngineStore (from_canonical_bytes x (row_canonical_json row))) (\<lambda>document.
        and_then (refuse_if (cd_digest document \<noteq> row_semantic_digest row)
          (EngineInvariant [''admitted report semantic digest was substituted'', row_report_id row])) (\<lambda>_.
        and_then (map_err (\<lambda>e. EngineInvariant [''stored report cannot decode'', e])
          (report_from_slice x (cd_bytes document))) (\<lambda>report.
        and_then (map_err EngineStoredReport (validate_report x report)) (\<lambda>_.
        Ok (pb_id (rep_profile report) = ps_id (wc_profile watcher) \<and>
            pb_version (rep_profile report) = show_u32 (ps_version (wc_profile watcher)) \<and>
            pb_digest (rep_profile report) = profile_digest \<and>
            sb_subject (rep_binding report) = wc_subject watcher \<and>
            scope_kind (sb_scope (rep_binding report)) = sc_kind (wc_scope watcher) \<and>
            scope_value (sb_scope (rep_binding report)) = sc_value (wc_scope watcher) \<and>
            vantage_kind (sb_vantage (rep_binding report)) = vc_kind (wc_vantage watcher) \<and>
            vantage_value (sb_vantage (rep_binding report)) = vc_value (wc_vantage watcher)))))))"

fun evaluation_context_rows ::
  "'x engine_externals_scheme \<Rightarrow> AdmittedReportRow list \<Rightarrow> WatcherConfig \<Rightarrow> string \<Rightarrow>
   (AdmittedReportRow list, EngineError) result" where
  "evaluation_context_rows x [] watcher profile_digest = Ok []"
| "evaluation_context_rows x (row # rows) watcher profile_digest =
     and_then (report_matches_evaluation_context x row watcher profile_digest) (\<lambda>matches.
       map_ok (\<lambda>rest. if matches then row # rest else rest)
         (evaluation_context_rows x rows watcher profile_digest))"

text \<open>\<open>Iterator::max_by_key\<close> on the sequence: the last of the greatest rows.\<close>

fun max_row :: "AdmittedReportRow list \<Rightarrow> AdmittedReportRow option" where
  "max_row [] = None"
| "max_row (r # rs) =
     (case max_row rs of None \<Rightarrow> Some r
      | Some m \<Rightarrow> if row_report_sequence m < row_report_sequence r then Some r else Some m)"

definition reconstruction_context ::
  "ProfileModule \<Rightarrow> AdmittedReportRow \<Rightarrow> EvidenceReport \<Rightarrow> instant \<Rightarrow> ValidationContext" where
  "reconstruction_context profile row report received_at =
     \<lparr> ctx_instance_id = row_instance_id row,
       ctx_request_subject = sb_subject (rep_binding report),
       ctx_scope = \<lparr> sg_kind = scope_kind (sb_scope (rep_binding report)),
         sg_value = scope_value (sb_scope (rep_binding report)) \<rparr>,
       ctx_vantage = \<lparr> vg_kind = vantage_kind (sb_vantage (rep_binding report)),
         vg_value = vantage_value (sb_vantage (rep_binding report)) \<rparr>,
       ctx_granted_capabilities = bs_from (rep_used_capabilities report),
       ctx_received_at = received_at,
       ctx_max_observations = lim_max_observations (pd_limits (pm_descriptor profile)),
       ctx_max_future_skew = 60 * 1000000000 \<rparr>"

definition reconstruct_admitted ::
  "'x engine_externals_scheme \<Rightarrow> ProfileModule \<Rightarrow> AdmittedReportRow \<Rightarrow> (DetectorReport, EngineError) result" where
  "reconstruct_admitted x profile row =
     and_then (map_err (\<lambda>e. EngineInvariant [''stored report cannot decode'', e])
       (report_from_slice x (row_canonical_json row))) (\<lambda>report.
     and_then (map_err (\<lambda>_. EngineInvariant [''invalid semantic digest'', row_semantic_digest row])
       (parse_sha256_digest (row_semantic_digest row))) (\<lambda>digest.
     and_then (map_err (\<lambda>e. EngineInvariant [show_ReportNormalizationError e])
       (from_protocol report digest)) (\<lambda>normalized.
     and_then (parse_timestamp x (row_received_at row)) (\<lambda>received_at.
     and_then (map_err (\<lambda>refusal. EngineInvariant [''previously admitted report no longer validates'',
         row_report_id row, pr_message refusal])
       (pm_validate profile (reconstruction_context profile row report received_at) normalized)) (\<lambda>validated.
     and_then (run_checks
       [refuse_if (row_report_sequence row < 0)
          (EngineInvariant [''admitted report has a negative durable sequence'', row_report_id row]),
        refuse_if (row_report_sequence row = 0)
          (EngineInvariant [''admitted report has a zero durable sequence'', row_report_id row])]) (\<lambda>_.
     Ok \<lparr> dr_report_id = row_report_id row,
          dr_report_sequence = word_of_int (row_report_sequence row), dr_report = validated \<rparr>))))))"

definition parse_identity_digest :: "string \<Rightarrow> string \<Rightarrow> (Sha256Digest, EngineError) result" where
  "parse_identity_digest field value =
     map_err (\<lambda>_. EngineInvariant [field, ''is not a valid sha256 digest'', value])
       (parse_sha256_digest value)"

section \<open>The result of a detector\<close>

definition governed_evaluation_result ::
  "DetectorResult \<Rightarrow> EvaluationProfileIdentity \<Rightarrow> GovernedRefusal option \<Rightarrow>
   (EvaluationResultV1, EngineError) result" where
  "governed_evaluation_result res profile refusal =
     and_then (run_checks
       [refuse_if ((res_state res = DetectorState.CannotEvaluate) \<noteq> (refusal \<noteq> None))
          (EngineInvariant [''cannot_evaluate requires exactly one canonical governed refusal'']),
        refuse_if (\<not> (case res_refusal res of
             None \<Rightarrow> refusal = None
           | Some source \<Rightarrow>
               (case refusal of None \<Rightarrow> False
                | Some g \<Rightarrow> (case gr_origin g of
                    GovernedRefusalOrigin.Profile p \<Rightarrow> source = gpr_refusal p | _ \<Rightarrow> False))))
          (EngineInvariant [''governed evaluation refusal differs from the detector source refusal''])]) (\<lambda>_.
     Ok \<lparr> er1_profile = profile, er1_state = res_state res, er1_condition = res_condition res,
          er1_summary = res_summary res, er1_evidence = res_evidence res,
          er1_limitations = res_limitations res, er1_refusal = refusal,
          er1_watermark = res_watermark res \<rparr>)"

fun detector_state :: "DetectorState \<Rightarrow> string" where
  "detector_state Present = ''present''"
| "detector_state ExplicitlyAbsent = ''explicitly_absent''"
| "detector_state DetectorState.CannotEvaluate = ''cannot_evaluate''"

fun outcome_of_state :: "DetectorState \<Rightarrow> string" where
  "outcome_of_state Present = ''condition_present''"
| "outcome_of_state ExplicitlyAbsent = ''condition_explicitly_absent''"
| "outcome_of_state DetectorState.CannotEvaluate = ''cannot_evaluate''"

definition json_object :: "(string \<times> json) list \<Rightarrow> json" where
  "json_object es = JObject (bt_from es)"

definition visibility_for ::
  "'x engine_externals_scheme \<Rightarrow> DetectorResult \<Rightarrow> ProfileModule \<Rightarrow> instant \<Rightarrow> AdmittedReportRow list \<Rightarrow>
   string \<times> json" where
  "visibility_for x res profile evaluated_at rows =
     (if res_state res \<noteq> DetectorState.CannotEvaluate
      then (''sufficient'', json_object [(''state'', JString ''current'')])
      else case max_row rows of
        None \<Rightarrow> (''missing'', json_object [(''state'', JString ''missing'')])
      | Some latest \<Rightarrow>
          if row_report_status latest = ''partial'' \<or> row_report_status latest = ''failed''
          then (''partial'', json_object [(''state'', JString (row_report_status latest)),
            (''observed_at'', JString (row_observed_at latest))])
          else
            (let reliance = reliance_seconds (pd_freshness (pm_descriptor profile));
                 stale = (case rfc3339_parse x (row_observed_at latest) of
                   Err _ \<Rightarrow> True
                 | Ok observed \<Rightarrow> duration_seconds reliance < evaluated_at - observed)
             in if stale
                then (''stale'', json_object [(''state'', JString ''stale''),
                  (''observed_at'', JString (row_observed_at latest)),
                  (''reliance_seconds'', JNumber (PosInt reliance))])
                else (''refused'', json_object [(''state'', JString ''cannot_evaluate'')])))"

section \<open>The finding event\<close>

definition clamp_ordinal :: "nat \<Rightarrow> u32" where
  "clamp_ordinal n = (if n < 2 ^ 32 then of_nat n else - 1)"

definition retained_finding_evidence ::
  "'x engine_externals_scheme \<Rightarrow> FindingSnapshotRow \<Rightarrow> AdmittedReportRow list \<Rightarrow> AdmittedReportRow list \<Rightarrow>
   (FindingEvidenceInput list, EngineError) result" where
  "retained_finding_evidence x finding rows expired_citations =
     and_then (map_err (\<lambda>e. EngineInvariant [''invalid retained finding evidence'', e])
       (references_from_str x (fs_evidence_json finding))) (\<lambda>references.
     collect_results (\<lambda>(ordinal, reference).
       if \<not> list_ex (\<lambda>row. row_report_id row = per_report_id reference \<and>
             row_semantic_digest row = per_semantic_digest reference) (rows @ expired_citations)
       then Err (EngineInvariant [''retained finding evidence is outside the evaluation watermark'',
         per_report_id reference])
       else Ok \<lparr> fev_ordinal = clamp_ordinal ordinal, fev_report_id = per_report_id reference,
                 fev_report_semantic_digest = per_semantic_digest reference,
                 fev_observation_ordinal = per_observation_ordinal reference,
                 fev_observed_at = timestamp x (per_observed_at reference),
                 fev_received_at = timestamp x (per_received_at reference) \<rparr>)
       (enumerate 0 references))"

definition cited_evidence ::
  "'x engine_externals_scheme \<Rightarrow> AdmittedReportRow list \<Rightarrow> nat \<times> DetectorEvidence \<Rightarrow>
   (FindingEvidenceInput, EngineError) result" where
  "cited_evidence x rows = (\<lambda>(ordinal, evidence).
     and_then (refuse_if (2 ^ 63 \<le> uint (de_report_sequence evidence))
       (EngineInvariant [''detector cited report with a sequence outside SQLite INTEGER'',
         de_report_id evidence])) (\<lambda>_.
     and_then
       (ok_or (EngineInvariant [''detector cited unknown report occurrence'', de_report_id evidence,
           show_nat (unat (de_report_sequence evidence)), de_report_digest evidence])
         (List.find (\<lambda>row. row_report_id row = de_report_id evidence \<and>
             row_report_sequence row = uint (de_report_sequence evidence) \<and>
             row_semantic_digest row = de_report_digest evidence) rows)) (\<lambda>row.
     Ok \<lparr> fev_ordinal = clamp_ordinal ordinal, fev_report_id = row_report_id row,
          fev_report_semantic_digest = row_semantic_digest row,
          fev_observation_ordinal = de_observation_ordinal evidence,
          fev_observed_at = timestamp x (de_observed_at evidence),
          fev_received_at = row_received_at row \<rparr>)))"

fun finding_event_kind :: "FindingSnapshotRow option \<Rightarrow> DetectorState \<Rightarrow> string option" where
  "finding_event_kind None Present = Some ''opened''"
| "finding_event_kind None _ = None"
| "finding_event_kind (Some existing) Present =
     Some (if fs_condition_state existing = ''explicitly_absent'' then ''reopened'' else ''updated'')"
| "finding_event_kind (Some existing) ExplicitlyAbsent =
     (if fs_condition_state existing = ''explicitly_absent'' then None else Some ''resolved'')"
| "finding_event_kind (Some existing) DetectorState.CannotEvaluate = Some ''updated''"

definition basis_value :: "'x engine_externals_scheme \<Rightarrow> WatcherConfig \<Rightarrow> string \<Rightarrow> json" where
  "basis_value x watcher digest = json_object
     [(''profile_digest'', JString digest), (''vantage'', vantage_to_value x (wc_vantage watcher)),
      (''scope'', scope_to_value x (wc_scope watcher))]"

definition safe_next_checks :: json where
  "safe_next_checks = JArray
     [JString ''Inspect the cited admitted evidence'',
      JString ''Run `nq watcher test` if collection remains unavailable'']"

definition finding_evidence_of ::
  "'x engine_externals_scheme \<Rightarrow> DetectorResult \<Rightarrow> FindingSnapshotRow option \<Rightarrow> AdmittedReportRow list \<Rightarrow>
   AdmittedReportRow list \<Rightarrow> (FindingEvidenceInput list, EngineError) result" where
  "finding_evidence_of x res current rows expired_citations =
     (if res_evidence res = []
      then case current of None \<Rightarrow> Ok []
        | Some finding \<Rightarrow> retained_finding_evidence x finding rows expired_citations
      else collect_results (cited_evidence x rows) (enumerate 0 (res_evidence res)))"

definition newest_cited ::
  "FindingEvidenceInput list \<Rightarrow> AdmittedReportRow list \<Rightarrow> AdmittedReportRow option" where
  "newest_cited evidence rows =
     max_row (List.map_filter (\<lambda>e. List.find (\<lambda>row. row_report_id row = fev_report_id e) rows) evidence)"

definition build_finding_event ::
  "'x engine_externals_scheme \<Rightarrow> WatcherConfig \<Rightarrow> ProfileModule \<Rightarrow> DetectorDescriptor \<Rightarrow> DetectorResult \<Rightarrow>
   GovernedRefusal option \<Rightarrow> instant \<Rightarrow> FindingSnapshotRow option \<Rightarrow> AdmittedReportRow list \<Rightarrow>
   AdmittedReportRow list \<Rightarrow> Fresh \<Rightarrow> (FindingEventInput option, EngineError) result" where
  "build_finding_event x watcher profile descriptor res governed_refusal evaluated_at current rows
       expired_citations fresh =
     (case finding_event_kind current (res_state res) of None \<Rightarrow> Ok None
      | Some event_kind \<Rightarrow>
     (let visibility = visibility_for x res profile evaluated_at rows;
          key = pd_profile (pm_descriptor profile);
          undecided = (res_state res = DetectorState.CannotEvaluate)
      in
     and_then (finding_evidence_of x res current rows expired_citations) (\<lambda>evidence.
     and_then (map_err (\<lambda>e. EngineCanonical (show_DescriptorError e))
       (descriptor_digest x (pm_descriptor profile))) (\<lambda>digest.
     and_then (canonical_document x (Ok (JString (wc_subject watcher)))) (\<lambda>subject.
     and_then (canonical_document x (Ok (JArray (map JString (res_limitations res))))) (\<lambda>limitations.
     and_then (canonical_document x (Ok safe_next_checks)) (\<lambda>next_checks.
     and_then (canonical_document x (Ok (snd visibility))) (\<lambda>freshness.
     and_then (canonical_document x (Ok (basis_value x watcher digest))) (\<lambda>basis.
     and_then (case governed_refusal of None \<Rightarrow> Ok None
       | Some refusal \<Rightarrow> map_ok Some (canonical_document x (governed_to_value x refusal))) (\<lambda>refusal.
     and_then (canonical_document x (Ok (JArray []))) (\<lambda>historical_refs.
     Ok (Some
       \<lparr> fi_event_id = fr_event_id fresh,
         fi_finding_id = (case current of None \<Rightarrow> fr_finding_id fresh | Some row \<Rightarrow> fs_finding_id row),
         fi_event_kind = event_kind, fi_instance_id = wc_instance_id watcher,
         fi_profile_id = pk_id key, fi_profile_version = show_u32 (pk_version key),
         fi_profile_digest = digest, fi_subject = subject,
         fi_condition_name = dd_condition descriptor,
         fi_condition_state =
           (if undecided then case current of None \<Rightarrow> ''cannot_evaluate'' | Some row \<Rightarrow> fs_condition_state row
            else detector_state (res_state res)),
         fi_visibility_state = fst visibility,
         fi_operator_work_state =
           (case current of None \<Rightarrow> ''unreviewed'' | Some row \<Rightarrow> fs_operator_work_state row),
         fi_severity =
           (case res_state res of Present \<Rightarrow> ''warning'' | ExplicitlyAbsent \<Rightarrow> ''info''
            | DetectorState.CannotEvaluate \<Rightarrow> (case current of None \<Rightarrow> ''info'' | Some row \<Rightarrow> fs_severity row)),
         fi_summary =
           (if undecided then case current of None \<Rightarrow> res_summary res | Some row \<Rightarrow> fs_summary row
            else res_summary res),
         fi_limitations = limitations, fi_safe_next_checks = next_checks, fi_freshness = freshness,
         fi_basis = basis, fi_refusal = refusal, fi_origin_mode = ''native'',
         fi_historical_refs = historical_refs,
         fi_observed_at = map_option row_observed_at (newest_cited evidence (rows @ expired_citations)),
         fi_received_at = map_option row_received_at (newest_cited evidence (rows @ expired_citations)),
         fi_created_at = timestamp x evaluated_at, fi_evidence = evidence \<rparr>))))))))))))"

section \<open>The evaluations of a watcher\<close>

record FindingLineage =
  fl_instance_id :: string
  fl_detector_id :: string
  fl_detector_version :: string
  fl_detector_digest :: string
  fl_profile_id :: string
  fl_profile_version :: string
  fl_profile_digest :: string
  fl_profile_semantic_id :: string
  fl_subject_json :: string
  fl_basis_json :: string

definition lineage_matches :: "FindingLineage \<Rightarrow> FindingSnapshotRow \<Rightarrow> bool" where
  "lineage_matches self finding \<longleftrightarrow>
     fs_instance_id finding = fl_instance_id self \<and> fs_detector_id finding = fl_detector_id self \<and>
     fs_detector_version finding = fl_detector_version self \<and>
     fs_detector_digest finding = fl_detector_digest self \<and>
     fs_profile_id finding = fl_profile_id self \<and> fs_profile_version finding = fl_profile_version self \<and>
     fs_profile_digest finding = fl_profile_digest self \<and>
     fs_profile_semantic_id finding = fl_profile_semantic_id self \<and>
     fs_subject_json finding = fl_subject_json self \<and> fs_basis_json finding = fl_basis_json self"

definition find_current_finding ::
  "FindingSnapshotRow list \<Rightarrow> FindingLineage \<Rightarrow> FindingSnapshotRow option" where
  "find_current_finding findings lineage = List.find (lineage_matches lineage) findings"

datatype EvaluationReportSelection = AllMatching | ExactCurrent string

fun select_rows ::
  "EvaluationReportSelection \<Rightarrow> AdmittedReportRow list \<Rightarrow> (AdmittedReportRow list, EngineError) result" where
  "select_rows AllMatching rows = Ok rows"
| "select_rows (ExactCurrent report_id) rows =
     (case filter (\<lambda>row. row_report_id row = report_id) rows of
        [selected] \<Rightarrow> Ok [selected]
      | selected \<Rightarrow> Err (EngineInvariant
          [''local successor detector selection requires exactly its newly admitted report'', report_id,
           show_nat (length selected)]))"

definition row_watermark :: "WatcherConfig \<Rightarrow> AdmittedReportRow list \<Rightarrow> EvaluationWatermark" where
  "row_watermark watcher rows =
     \<lparr> wm_instance_id = wc_instance_id watcher,
       wm_max_report_sequence = (case max_row rows of None \<Rightarrow> 0 | Some row \<Rightarrow> row_report_sequence row),
       wm_watermark_received_at = map_option row_received_at (max_row rows) \<rparr>"

text \<open>\<open>u64::try_from(n).unwrap_or(u64::MAX)\<close> of a signed 64-bit integer.\<close>

definition clamp_u64 :: "int \<Rightarrow> u64" where
  "clamp_u64 n = (if n < 0 then - 1 else word_of_int n)"

definition durable_evidence ::
  "'x engine_externals_scheme \<Rightarrow> DetectorResult \<Rightarrow> (DetectorResult, EngineError) result" where
  "durable_evidence x res =
     map_ok (\<lambda>evidence. res \<lparr> res_evidence := evidence \<rparr>)
       (collect_results (\<lambda>e. map_ok (\<lambda>t. e \<lparr> de_observed_at := t \<rparr>)
          (parse_timestamp x (timestamp x (de_observed_at e)))) (res_evidence res))"

text \<open>What the loop over the detectors has computed before it.\<close>

record EvaluationSetup =
  su_profile_digest :: string
  su_profile_semantic :: Sha256Digest
  su_matching_rows :: "AdmittedReportRow list"
  su_reports :: "DetectorReport list"
  su_watermark :: EvaluationWatermark
  su_subject_json :: string

definition prepare_detector_result ::
  "'x engine_externals_scheme \<Rightarrow> WatcherConfig \<Rightarrow> EvaluationSetup \<Rightarrow>
   (DetectorInput \<Rightarrow> DetectorResult option) \<Rightarrow> instant \<Rightarrow> (DetectorResult, EngineError) result" where
  "prepare_detector_result x watcher setup evaluate evaluated_at =
     and_then (ok_or EnginePanicked (evaluate
       \<lparr> di_instance_id = wc_instance_id watcher, di_evaluated_at = evaluated_at,
         di_watermark = clamp_u64 (wm_max_report_sequence (su_watermark setup)),
         di_threshold_policy = wc_threshold_policy watcher, di_reports = su_reports setup \<rparr>))
       (durable_evidence x)"

definition evaluation_profile :: "ProfileModule \<Rightarrow> EvaluationSetup \<Rightarrow> EvaluationProfileIdentity" where
  "evaluation_profile profile setup =
     \<lparr> epi_profile = pd_profile (pm_descriptor profile), epi_profile_digest = su_profile_digest setup,
       epi_profile_semantic_id = su_profile_semantic setup \<rparr>"

definition envelope_of ::
  "WatcherConfig \<Rightarrow> ProfileModule \<Rightarrow> EvaluationSetup \<Rightarrow> DetectorDescriptor \<Rightarrow> string \<Rightarrow> string option \<Rightarrow>
   Sha256Digest \<Rightarrow> instant \<Rightarrow> string \<Rightarrow> instant option \<Rightarrow> EvaluationResultV1 \<Rightarrow> EvaluationEnvelopeV2" where
  "envelope_of watcher profile setup descriptor digest trigger_run_id artifact evaluated_at evaluation_id
       received_at res =
     \<lparr> env_evaluation_id = evaluation_id, env_trigger_run_id = trigger_run_id,
       env_context = \<lparr> ec_instance_id = wc_instance_id watcher, ec_subject = wc_subject watcher,
         ec_scope = wc_scope watcher, ec_vantage = wc_vantage watcher \<rparr>,
       env_detector = \<lparr> edi_id = dd_id descriptor, edi_version = show_u32 (dd_version descriptor),
         edi_digest = digest \<rparr>,
       env_threshold_policy = map_option (\<lambda>policy. \<lparr> si_id = tp_id policy, si_version = tp_version policy,
         si_digest = tp_digest policy \<rparr>) (wc_threshold_policy watcher),
       env_evaluator_artifact_digest = artifact, env_profile = evaluation_profile profile setup,
       env_started_at = evaluated_at, env_evaluated_at = evaluated_at,
       env_watermark = \<lparr> ew_instance_id = wm_instance_id (su_watermark setup),
         ew_max_report_sequence = clamp_u64 (wm_max_report_sequence (su_watermark setup)),
         ew_watermark_received_at = received_at \<rparr>,
       env_result = res \<rparr>"

definition evaluation_input_of ::
  "'x engine_externals_scheme \<Rightarrow> WatcherConfig \<Rightarrow> EvaluationSetup \<Rightarrow> DetectorDescriptor \<Rightarrow> string \<Rightarrow>
   string option \<Rightarrow> string \<Rightarrow> instant \<Rightarrow> string \<Rightarrow> DetectorState \<Rightarrow> CanonicalDocument \<Rightarrow> Sha256Digest \<Rightarrow>
   RefusalInput option \<Rightarrow> EvaluationInput" where
  "evaluation_input_of x watcher setup descriptor digest trigger_run_id artifact evaluated_at evaluation_id
       state detail semantic_id refusal =
     \<lparr> ei_evaluation_id = evaluation_id, ei_trigger_run_id = trigger_run_id,
       ei_detector_id = dd_id descriptor, ei_detector_version = show_u32 (dd_version descriptor),
       ei_detector_digest = digest, ei_evaluator_artifact_digest = artifact,
       ei_started_at = timestamp x evaluated_at, ei_evaluated_at = timestamp x evaluated_at,
       ei_outcome = outcome_of_state state, ei_detail = detail,
       ei_profile = \<lparr> epb_profile_id = ps_id (wc_profile watcher),
         epb_profile_version = show_u32 (ps_version (wc_profile watcher)),
         epb_profile_digest = su_profile_digest setup, epb_profile_semantic_id = semantic_id \<rparr>,
       ei_watermarks = [su_watermark setup], ei_refusal = refusal \<rparr>"

definition lineage_of ::
  "WatcherConfig \<Rightarrow> EvaluationSetup \<Rightarrow> DetectorDescriptor \<Rightarrow> string \<Rightarrow> string \<Rightarrow> FindingLineage" where
  "lineage_of watcher setup descriptor digest basis_json =
     \<lparr> fl_instance_id = wc_instance_id watcher, fl_detector_id = dd_id descriptor,
       fl_detector_version = show_u32 (dd_version descriptor), fl_detector_digest = digest,
       fl_profile_id = ps_id (wc_profile watcher),
       fl_profile_version = show_u32 (ps_version (wc_profile watcher)),
       fl_profile_digest = su_profile_digest setup, fl_profile_semantic_id = su_profile_semantic setup,
       fl_subject_json = su_subject_json setup, fl_basis_json = basis_json \<rparr>"

definition option_result :: "('a \<Rightarrow> ('b, 'e) result) \<Rightarrow> 'a option \<Rightarrow> ('b option, 'e) result" where
  "option_result f v = (case v of None \<Rightarrow> Ok None | Some a \<Rightarrow> map_ok Some (f a))"

definition prepare_detector_evaluation ::
  "'x engine_externals_scheme \<Rightarrow> ProfileDescriptor list \<Rightarrow> WatcherConfig \<Rightarrow> ProfileModule \<Rightarrow> string option \<Rightarrow>
   EvidenceSnapshot \<Rightarrow> FindingSnapshotRow list \<Rightarrow> string \<Rightarrow> EvaluationSetup \<Rightarrow>
   (DetectorDescriptor \<times> (DetectorInput \<Rightarrow> DetectorResult option)) \<Rightarrow> Fresh \<Rightarrow>
   (PreparedEvaluation, EngineError) result" where
  "prepare_detector_evaluation x profiles watcher profile trigger_run_id snapshot current_findings artifact
       setup detector fresh =
     (let descriptor = fst detector in
     and_then (parse_timestamp x (timestamp x (fr_now fresh))) (\<lambda>evaluated_at.
     and_then (prepare_detector_result x watcher setup (snd detector) evaluated_at) (\<lambda>res.
     and_then (map_err EngineCanonical (detector_digest x (detector_to_value x) descriptor)) (\<lambda>digest.
     let governed_refusal = map_option (governed_profile (fr_refusal_id fresh) (su_profile_semantic setup))
           (res_refusal res) in
     and_then (governed_evaluation_result res (evaluation_profile profile setup) governed_refusal) (\<lambda>governed.
     and_then (parse_identity_digest ''evaluator_artifact_digest'' artifact) (\<lambda>artifact_digest.
     and_then (option_result (parse_timestamp x) (wm_watermark_received_at (su_watermark setup))) (\<lambda>received_at.
     let envelope = envelope_of watcher profile setup descriptor digest trigger_run_id artifact_digest
           evaluated_at (fr_evaluation_id fresh) received_at governed in
     and_then (option_result (\<lambda>r. stored_governed_refusal x profiles r evaluated_at) governed_refusal) (\<lambda>refusal.
     and_then (canonical_document x (envelope_to_value x envelope)) (\<lambda>detail.
     and_then (parse_identity_digest ''profile_semantic_id'' (su_profile_semantic setup)) (\<lambda>semantic_id.
     let evaluation = evaluation_input_of x watcher setup descriptor digest trigger_run_id artifact
           evaluated_at (fr_evaluation_id fresh) (res_state res) detail semantic_id refusal in
     and_then (canonical_document x (Ok (basis_value x watcher (su_profile_digest setup)))) (\<lambda>basis.
     and_then (build_finding_event x watcher profile descriptor res governed_refusal evaluated_at
         (find_current_finding current_findings
           (lineage_of watcher setup descriptor digest (cd_bytes basis)))
         (su_matching_rows setup) (es_expired_citations snapshot) fresh) (\<lambda>finding.
     Ok \<lparr> pe_envelope = envelope,
          pe_commit = \<lparr> eci_evaluation = evaluation, eci_finding = finding \<rparr>,
          pe_detector_reports = su_reports setup \<rparr>))))))))))))"

definition evaluation_setup ::
  "'x engine_externals_scheme \<Rightarrow> WatcherConfig \<Rightarrow> ProfileModule \<Rightarrow> EvidenceSnapshot \<Rightarrow>
   EvaluationReportSelection \<Rightarrow> (EvaluationSetup, EngineError) result" where
  "evaluation_setup x watcher profile snapshot selection =
     and_then (map_err (\<lambda>e. EngineCanonical (show_DescriptorError e))
       (descriptor_digest x (pm_descriptor profile))) (\<lambda>profile_digest.
     and_then (map_err (\<lambda>e. EngineCanonical (show_DescriptorError e))
       (profile_semantic_id x (pm_descriptor profile))) (\<lambda>profile_semantic.
     and_then (evaluation_context_rows x (es_reports snapshot) watcher profile_digest) (\<lambda>matching_rows.
     and_then (select_rows selection matching_rows) (\<lambda>selected_rows.
     and_then (collect_results (reconstruct_admitted x profile) selected_rows) (\<lambda>reports.
     and_then (map_err EngineCanonical (json_to_string x (JString (wc_subject watcher)))) (\<lambda>subject_json.
     Ok \<lparr> su_profile_digest = profile_digest, su_profile_semantic = profile_semantic,
          su_matching_rows = matching_rows, su_reports = reports,
          su_watermark = row_watermark watcher matching_rows, su_subject_json = subject_json \<rparr>))))))"

definition prepared_key :: "PreparedEvaluation \<Rightarrow> string \<times> string \<times> string" where
  "prepared_key p = (edi_id (env_detector (pe_envelope p)), edi_version (env_detector (pe_envelope p)),
     env_evaluation_id (pe_envelope p))"

definition prepare_instance_evaluations ::
  "'x engine_externals_scheme \<Rightarrow> ProfileDescriptor list \<Rightarrow> WatcherConfig \<Rightarrow> ProfileModule \<Rightarrow> string option \<Rightarrow>
   EvidenceSnapshot \<Rightarrow> FindingSnapshotRow list \<Rightarrow> string \<Rightarrow> EvaluationReportSelection \<Rightarrow> (nat \<Rightarrow> Fresh) \<Rightarrow>
   (PreparedEvaluation list, EngineError) result" where
  "prepare_instance_evaluations x profiles watcher profile trigger_run_id snapshot current_findings artifact
       selection fresh =
     and_then (evaluation_setup x watcher profile snapshot selection) (\<lambda>setup.
       map_ok (sort_key prepared_key)
         (collect_results (\<lambda>(n, detector). prepare_detector_evaluation x profiles watcher profile trigger_run_id
             snapshot current_findings artifact setup detector (fresh n))
           (enumerate 0 (pm_detectors profile))))"

section \<open>The life of a finding\<close>

text \<open>
  The contract that the events implement: a finding opens on presence, resolves on explicit
  absence, reopens on presence, and stays as it is when the detector cannot evaluate.
\<close>

datatype finding_phase = NoFinding | Open | Resolved

fun lifecycle :: "finding_phase \<Rightarrow> DetectorState \<Rightarrow> finding_phase" where
  "lifecycle phase Present = Open"
| "lifecycle NoFinding ExplicitlyAbsent = NoFinding"
| "lifecycle phase ExplicitlyAbsent = Resolved"
| "lifecycle phase DetectorState.CannotEvaluate = phase"

definition phase_of_state :: "string \<Rightarrow> finding_phase" where
  "phase_of_state state = (if state = ''explicitly_absent'' then Resolved else Open)"

definition current_phase :: "FindingSnapshotRow option \<Rightarrow> finding_phase" where
  "current_phase current =
     (case current of None \<Rightarrow> NoFinding | Some row \<Rightarrow> phase_of_state (fs_condition_state row))"

definition phase_after :: "FindingSnapshotRow option \<Rightarrow> FindingEventInput option \<Rightarrow> finding_phase" where
  "phase_after current event =
     (case event of None \<Rightarrow> current_phase current | Some f \<Rightarrow> phase_of_state (fi_condition_state f))"

fun phase_event :: "finding_phase \<Rightarrow> finding_phase \<Rightarrow> DetectorState \<Rightarrow> string option" where
  "phase_event NoFinding Open state = Some ''opened''"
| "phase_event NoFinding _ state = None"
| "phase_event Open Resolved state = Some ''resolved''"
| "phase_event Resolved Open state = Some ''reopened''"
| "phase_event Open Open state = Some ''updated''"
| "phase_event Resolved _ state = (if state = DetectorState.CannotEvaluate then Some ''updated'' else None)"
| "phase_event Open NoFinding state = None"

text \<open>What a built event takes from its inputs.\<close>

lemma build_finding_event_Ok:
  assumes "build_finding_event x watcher profile descriptor res governed evaluated_at current rows expired
      fresh = Ok event"
  shows "case event of
      None \<Rightarrow> finding_event_kind current (res_state res) = None
    | Some f \<Rightarrow>
        finding_event_kind current (res_state res) = Some (fi_event_kind f) \<and>
        fi_event_id f = fr_event_id fresh \<and>
        fi_finding_id f = (case current of None \<Rightarrow> fr_finding_id fresh | Some row \<Rightarrow> fs_finding_id row) \<and>
        fi_instance_id f = wc_instance_id watcher \<and>
        fi_profile_id f = pk_id (pd_profile (pm_descriptor profile)) \<and>
        fi_profile_version f = show_u32 (pk_version (pd_profile (pm_descriptor profile))) \<and>
        descriptor_digest x (pm_descriptor profile) = Ok (fi_profile_digest f) \<and>
        canonical_document x (Ok (JString (wc_subject watcher))) = Ok (fi_subject f) \<and>
        canonical_document x (Ok (basis_value x watcher (fi_profile_digest f))) = Ok (fi_basis f) \<and>
        fi_condition_name f = dd_condition descriptor \<and>
        fi_condition_state f = (if res_state res = DetectorState.CannotEvaluate
          then case current of None \<Rightarrow> ''cannot_evaluate'' | Some row \<Rightarrow> fs_condition_state row
          else detector_state (res_state res)) \<and>
        fi_visibility_state f = fst (visibility_for x res profile evaluated_at rows) \<and>
        option_result (\<lambda>g. canonical_document x (governed_to_value x g)) governed = Ok (fi_refusal f) \<and>
        finding_evidence_of x res current rows expired = Ok (fi_evidence f)"
proof (cases "finding_event_kind current (res_state res)")
  case None
  with assms show ?thesis by (auto simp: build_finding_event_def)
next
  case (Some kind)
  with assms show ?thesis
    by (cases governed) (auto simp: build_finding_event_def Let_def and_then_Ok option_result_def)
qed

lemma visibility_undecided:
  "res_state res = DetectorState.CannotEvaluate \<Longrightarrow>
     fst (visibility_for x res profile evaluated_at rows) \<in> {''missing'', ''partial'', ''stale'', ''refused''}"
  by (auto simp: visibility_for_def Let_def split: option.splits)

lemma visibility_decided:
  "res_state res \<noteq> DetectorState.CannotEvaluate \<Longrightarrow>
     fst (visibility_for x res profile evaluated_at rows) = ''sufficient''"
  by (simp add: visibility_for_def)

text \<open>
  C7. The engine's finding events implement the life of a finding. Whatever the current finding and
  the detector's state, the event it builds, or the absence of one, moves the finding to the phase
  that the contract names, and its kind is the one that the contract gives to that move: a finding
  opens only on presence, resolves only on explicit absence, reopens only on presence, and a
  detector that cannot evaluate never changes the phase.
\<close>

theorem built_event_refines_lifecycle:
  assumes "build_finding_event x watcher profile descriptor res governed evaluated_at current rows expired
      fresh = Ok event"
  shows "phase_after current event = lifecycle (current_phase current) (res_state res) \<and>
     map_option fi_event_kind event =
       phase_event (current_phase current) (phase_after current event) (res_state res)"
proof (cases event)
  case None
  with build_finding_event_Ok [OF assms] have "finding_event_kind current (res_state res) = None"
    by simp
  with None show ?thesis
    by (cases current; cases "res_state res")
      (auto simp: phase_after_def current_phase_def phase_of_state_def split: if_splits)
next
  case (Some f)
  with build_finding_event_Ok [OF assms] have "finding_event_kind current (res_state res) = Some (fi_event_kind f)"
    and "fi_condition_state f = (if res_state res = DetectorState.CannotEvaluate
          then case current of None \<Rightarrow> ''cannot_evaluate'' | Some row \<Rightarrow> fs_condition_state row
          else detector_state (res_state res))"
    by simp_all
  with Some show ?thesis
    by (cases current; cases "res_state res")
      (auto simp: phase_after_def current_phase_def phase_of_state_def split: if_splits)
qed

section \<open>What the store sees\<close>

lemma collect_enumerate_ordinals:
  assumes "collect_results f (enumerate 0 xs) = Ok es"
    and "\<And>n a e. f (n, a) = Ok e \<Longrightarrow> fev_ordinal e = clamp_ordinal n"
  shows "map fev_ordinal es = map clamp_ordinal [0..<length es]"
proof -
  have l: "list_all2 (\<lambda>p e. f p = Ok e) (enumerate 0 xs) es"
    using assms(1) by (simp add: collect_results_Ok)
  then have len: "length es = length xs"
    by (auto dest: list_all2_lengthD)
  have "fev_ordinal (es ! i) = clamp_ordinal i" if "i < length es" for i
    using list_all2_nthD [OF l, of i] that len assms(2) by (simp add: nth_enumerate_eq)
  then show ?thesis
    by (intro nth_equalityI) auto
qed

lemma finding_evidence_ordinals:
  assumes "finding_evidence_of x res current rows expired = Ok es"
  shows "map fev_ordinal es = map clamp_ordinal [0..<length es]"
  using assms
  by (auto simp: finding_evidence_of_def retained_finding_evidence_def cited_evidence_def and_then_Ok
      split: if_splits option.splits elim!: collect_enumerate_ordinals)

lemma validate_ordered_unique_clamped:
  assumes "ordinals = map clamp_ordinal [0..<n]" and "n \<le> 2 ^ 32"
  shows "validate_ordered_unique kind ordinals = Ok ()"
  using assms by (auto simp: validate_ordered_unique_def run_checks_map_Ok in_set_enumerate_eq clamp_ordinal_def)

lemma prepare_detector_evaluation_Ok:
  assumes "prepare_detector_evaluation x profiles watcher profile trigger snapshot findings artifact setup
      detector fresh = Ok p"
  obtains evaluated_at res digest governed_result refusal detail finding basis received_at where
    "detector_digest x (detector_to_value x) (fst detector) = Ok digest"
    and "prepare_detector_result x watcher setup (snd detector) evaluated_at = Ok res"
    and "governed_evaluation_result res (evaluation_profile profile setup)
      (map_option (governed_profile (fr_refusal_id fresh) (su_profile_semantic setup)) (res_refusal res)) =
        Ok governed_result"
    and "option_result (\<lambda>r. stored_governed_refusal x profiles r evaluated_at)
      (map_option (governed_profile (fr_refusal_id fresh) (su_profile_semantic setup)) (res_refusal res)) =
        Ok refusal"
    and "parse_sha256_digest artifact = Ok artifact"
    and "canonical_document x (Ok (basis_value x watcher (su_profile_digest setup))) = Ok basis"
    and "build_finding_event x watcher profile (fst detector) res
      (map_option (governed_profile (fr_refusal_id fresh) (su_profile_semantic setup)) (res_refusal res))
      evaluated_at (find_current_finding findings
        (lineage_of watcher setup (fst detector) digest (cd_bytes basis)))
      (su_matching_rows setup) (es_expired_citations snapshot) fresh = Ok finding"
    and "pe_envelope p = envelope_of watcher profile setup (fst detector) digest trigger artifact
      evaluated_at (fr_evaluation_id fresh) received_at governed_result"
    and "pe_commit p = \<lparr> eci_evaluation = evaluation_input_of x watcher setup (fst detector) digest trigger
      artifact evaluated_at (fr_evaluation_id fresh) (res_state res) detail (su_profile_semantic setup) refusal,
      eci_finding = finding \<rparr>"
proof -
  have parse: "parse_sha256_digest v = Ok w \<Longrightarrow> w = v" for v w
    by (auto simp: parse_sha256_digest_def split: option.splits if_splits)
  let ?g = "\<lambda>res. map_option (governed_profile (fr_refusal_id fresh) (su_profile_semantic setup)) (res_refusal res)"
  from assms have "\<exists>evaluated_at res digest governed artifact' received_at refusal detail semantic basis finding.
      detector_digest x (detector_to_value x) (fst detector) = Ok digest \<and>
      prepare_detector_result x watcher setup (snd detector) evaluated_at = Ok res \<and>
      governed_evaluation_result res (evaluation_profile profile setup) (?g res) = Ok governed \<and>
      option_result (\<lambda>r. stored_governed_refusal x profiles r evaluated_at) (?g res) = Ok refusal \<and>
      parse_sha256_digest artifact = Ok artifact' \<and>
      parse_sha256_digest (su_profile_semantic setup) = Ok semantic \<and>
      canonical_document x (Ok (basis_value x watcher (su_profile_digest setup))) = Ok basis \<and>
      build_finding_event x watcher profile (fst detector) res (?g res) evaluated_at
        (find_current_finding findings (lineage_of watcher setup (fst detector) digest (cd_bytes basis)))
        (su_matching_rows setup) (es_expired_citations snapshot) fresh = Ok finding \<and>
      \<lparr> pe_envelope = envelope_of watcher profile setup (fst detector) digest trigger artifact'
          evaluated_at (fr_evaluation_id fresh) received_at governed,
        pe_commit = \<lparr> eci_evaluation = evaluation_input_of x watcher setup (fst detector) digest trigger
          artifact evaluated_at (fr_evaluation_id fresh) (res_state res) detail semantic refusal,
          eci_finding = finding \<rparr>,
        pe_detector_reports = su_reports setup \<rparr> = p"
    unfolding prepare_detector_evaluation_def Let_def and_then_Ok parse_identity_digest_def map_err_Ok
      result.inject
    by (elim exE conjE) (intro exI conjI; assumption)
  then obtain evaluated_at res digest governed artifact' received_at refusal detail semantic basis finding where
    r: "detector_digest x (detector_to_value x) (fst detector) = Ok digest"
      "prepare_detector_result x watcher setup (snd detector) evaluated_at = Ok res"
      "governed_evaluation_result res (evaluation_profile profile setup) (?g res) = Ok governed"
      "option_result (\<lambda>r. stored_governed_refusal x profiles r evaluated_at) (?g res) = Ok refusal"
    and d: "parse_sha256_digest artifact = Ok artifact'" "parse_sha256_digest (su_profile_semantic setup) = Ok semantic"
    and b: "canonical_document x (Ok (basis_value x watcher (su_profile_digest setup))) = Ok basis"
      "build_finding_event x watcher profile (fst detector) res (?g res) evaluated_at
        (find_current_finding findings (lineage_of watcher setup (fst detector) digest (cd_bytes basis)))
        (su_matching_rows setup) (es_expired_citations snapshot) fresh = Ok finding"
    and p: "\<lparr> pe_envelope = envelope_of watcher profile setup (fst detector) digest trigger artifact'
          evaluated_at (fr_evaluation_id fresh) received_at governed,
        pe_commit = \<lparr> eci_evaluation = evaluation_input_of x watcher setup (fst detector) digest trigger
          artifact evaluated_at (fr_evaluation_id fresh) (res_state res) detail semantic refusal,
          eci_finding = finding \<rparr>,
        pe_detector_reports = su_reports setup \<rparr> = p"
    by (elim exE conjE)
  have same: "artifact' = artifact" "semantic = su_profile_semantic setup"
    using d parse by blast+
  show ?thesis
    by (rule that [OF r d(1) [unfolded same(1)] b]) (simp_all add: p [symmetric] same)
qed

text \<open>The watcher's profile is the one whose module evaluates it.\<close>

definition watches_profile :: "WatcherConfig \<Rightarrow> ProfileModule \<Rightarrow> bool" where
  "watches_profile watcher profile \<longleftrightarrow>
     ps_id (wc_profile watcher) = pk_id (pd_profile (pm_descriptor profile)) \<and>
     ps_version (wc_profile watcher) = pk_version (pd_profile (pm_descriptor profile))"

lemma descriptor_digest_valid:
  "hex_digests x \<Longrightarrow> descriptor_digest x d = Ok digest \<Longrightarrow> validate_digest field digest = Ok ()"
  by (auto simp: descriptor_digest_def semantic_digest_of_def validate_digest_sha256)

lemma detector_digest_valid:
  "hex_digests x \<Longrightarrow> detector_digest x to_value d = Ok digest \<Longrightarrow> validate_digest field digest = Ok ()"
  by (auto simp: detector_digest_def semantic_digest_of_def validate_digest_sha256)

lemma parse_digest_valid:
  "parse_sha256_digest v = Ok w \<Longrightarrow> validate_digest field v = Ok ()"
  by (auto simp: parse_sha256_digest_def validate_digest_def split: option.splits if_splits)

lemma refusal_details_agree:
  assumes "option_result (\<lambda>r. stored_governed_refusal x profiles r evaluated_at) g = Ok refusal"
    and "option_result (\<lambda>r. canonical_document x (governed_to_value x r)) g = Ok document"
  shows "map_option cd_bytes document = map_option (\<lambda>r. cd_bytes (rin_detail r)) refusal"
  using assms by (cases g) (auto simp: option_result_def dest: stored_governed_refusal_Ok(6))

lemma built_event_consistent:
  assumes "hex_digests x" and "watches_profile watcher profile"
    and profile: "descriptor_digest x (pm_descriptor profile) = Ok (su_profile_digest setup)"
    and build: "build_finding_event x watcher profile descriptor res g evaluated_at current rows expired fresh =
      Ok (Some f)"
    and refusal: "option_result (\<lambda>r. stored_governed_refusal x profiles r evaluated_at) g = Ok refusal"
    and undecided: "res_state res = DetectorState.CannotEvaluate \<longleftrightarrow> res_refusal res \<noteq> None"
    and n: "length (fi_evidence f) \<le> 2 ^ 32"
  shows "validate_finding_against_evaluation f (evaluation_input_of x watcher setup descriptor digest trigger
    artifact evaluated_at evaluation_id (res_state res) detail semantic refusal) = Ok ()"
proof -
  note f = build_finding_event_Ok [OF build, simplified]
  have digest: "fi_profile_digest f = su_profile_digest setup"
    using f profile by simp
  have "validate_digest ''profile_digest'' (fi_profile_digest f) = Ok ()"
    using descriptor_digest_valid [OF assms(1) profile] digest by simp
  moreover have "map_option cd_bytes (fi_refusal f) = map_option (\<lambda>r. cd_bytes (rin_detail r)) refusal"
    using refusal_details_agree [OF refusal] f by blast
  moreover have "validate_ordered_unique ''finding evidence'' (map fev_ordinal (fi_evidence f)) = Ok ()"
    using f n by (intro validate_ordered_unique_clamped [OF finding_evidence_ordinals]) auto
  moreover have "fi_event_kind f = ''resolved'' \<Longrightarrow> res_state res = ExplicitlyAbsent"
    "fi_event_kind f = ''opened'' \<Longrightarrow> res_state res = Present"
    using f by (cases current; cases "res_state res"; simp split: if_splits)+
  moreover have "fi_condition_state f = detector_state (res_state res)"
    if "res_state res \<noteq> DetectorState.CannotEvaluate"
    using f that by simp
  moreover have "fi_visibility_state f = ''sufficient''" if "res_state res \<noteq> DetectorState.CannotEvaluate"
    using f visibility_decided [OF that] by simp
  ultimately show ?thesis
    using f digest assms(2) unfolding validate_finding_against_evaluation_def
    by (cases "res_state res") (auto simp: evaluation_input_of_def watches_profile_def)
qed

text \<open>
  C10. Every evaluation that the engine prepares is one whose parts the store finds consistent: its
  digests are well formed, it carries a stored refusal exactly when its outcome is that the detector
  cannot evaluate, and its finding event, when there is one with at most two to the thirty-two
  citations, passes the store's check of a finding against its evaluation.
\<close>

theorem prepared_commit_is_consistent:
  assumes "hex_digests x" and "watches_profile watcher profile"
    and "evaluation_setup x watcher profile snapshot selection = Ok setup"
    and "prepare_detector_evaluation x profiles watcher profile trigger snapshot findings artifact setup
      detector fresh = Ok p"
  shows "(let e = eci_evaluation (pe_commit p) in
     validate_digest ''detector_digest'' (ei_detector_digest e) = Ok () \<and>
     validate_digest ''evaluator_artifact_digest'' (ei_evaluator_artifact_digest e) = Ok () \<and>
     validate_digest ''profile_digest'' (epb_profile_digest (ei_profile e)) = Ok () \<and>
     (ei_outcome e = ''cannot_evaluate'') = (ei_refusal e \<noteq> None) \<and>
     (\<forall>f. eci_finding (pe_commit p) = Some f \<and> length (fi_evidence f) \<le> 2 ^ 32 \<longrightarrow>
        validate_finding_against_evaluation f e = Ok ()))"
proof -
  let ?g = "\<lambda>res. map_option (governed_profile (fr_refusal_id fresh) (su_profile_semantic setup)) (res_refusal res)"
  obtain evaluated_at res digest governed_result refusal detail finding basis received_at where
    digest: "detector_digest x (detector_to_value x) (fst detector) = Ok digest"
    and result: "prepare_detector_result x watcher setup (snd detector) evaluated_at = Ok res"
    and governed: "governed_evaluation_result res (evaluation_profile profile setup) (?g res) = Ok governed_result"
    and refusal: "option_result (\<lambda>r. stored_governed_refusal x profiles r evaluated_at) (?g res) = Ok refusal"
    and artifact: "parse_sha256_digest artifact = Ok artifact"
    and basis: "canonical_document x (Ok (basis_value x watcher (su_profile_digest setup))) = Ok basis"
    and build: "build_finding_event x watcher profile (fst detector) res (?g res) evaluated_at
      (find_current_finding findings (lineage_of watcher setup (fst detector) digest (cd_bytes basis)))
      (su_matching_rows setup) (es_expired_citations snapshot) fresh = Ok finding"
    and envelope: "pe_envelope p = envelope_of watcher profile setup (fst detector) digest trigger artifact
      evaluated_at (fr_evaluation_id fresh) received_at governed_result"
    and commit: "pe_commit p = \<lparr> eci_evaluation = evaluation_input_of x watcher setup (fst detector) digest trigger
      artifact evaluated_at (fr_evaluation_id fresh) (res_state res) detail (su_profile_semantic setup) refusal,
      eci_finding = finding \<rparr>"
    by (rule prepare_detector_evaluation_Ok [OF assms(4)])
  have profile: "descriptor_digest x (pm_descriptor profile) = Ok (su_profile_digest setup)"
    using assms(3) by (auto simp: evaluation_setup_def and_then_Ok)
  have present: "refusal \<noteq> None \<longleftrightarrow> res_refusal res \<noteq> None"
    using refusal by (cases "res_refusal res") (auto simp: option_result_def)
  have undecided: "res_state res = DetectorState.CannotEvaluate \<longleftrightarrow> res_refusal res \<noteq> None"
    using governed by (auto simp: governed_evaluation_result_def and_then_Ok)
  have outcome: "outcome_of_state (res_state res) = ''cannot_evaluate'' \<longleftrightarrow>
      res_state res = DetectorState.CannotEvaluate"
    by (cases "res_state res") simp_all
  have "validate_finding_against_evaluation f (eci_evaluation (pe_commit p)) = Ok ()"
    if f: "finding = Some f" and n: "length (fi_evidence f) \<le> 2 ^ 32" for f
    using built_event_consistent [OF assms(1,2) profile build [unfolded f] refusal undecided n]
    by (simp add: commit)
  then show ?thesis
    using detector_digest_valid [OF assms(1) digest] descriptor_digest_valid [OF assms(1) profile]
      parse_digest_valid [OF artifact] present undecided outcome
    by (simp add: commit evaluation_input_of_def Let_def)
qed

section \<open>Witnesses\<close>

definition sample_engine_externals :: engine_externals where
  "sample_engine_externals = stored_externals.extend sample_stored_externals
     \<lparr> rfc3339_parse = (\<lambda>_. Ok 5), detector_to_value = (\<lambda>_. Ok (JObject [])),
       scope_to_value = (\<lambda>_. JNull), vantage_to_value = (\<lambda>_. JNull),
       envelope_to_value = (\<lambda>_. Ok (JObject [])), json_to_string = (\<lambda>_. Ok ''{}''),
       json_from_slice = (\<lambda>_. Ok (JObject [])), report_from_slice = (\<lambda>_. Err ''no report''),
       references_from_str = (\<lambda>_. Ok []) \<rparr>"

definition sample_watcher :: WatcherConfig where
  "sample_watcher =
     \<lparr> wc_instance_id = ''i-1'', wc_profile = \<lparr> ps_id = ''nq.host'', ps_version = 1 \<rparr>,
       wc_threshold_policy = None, wc_subject = ''host:a'',
       wc_scope = \<lparr> sc_kind = ''host'', sc_value = JNull \<rparr>,
       wc_vantage = \<lparr> vc_kind = ''local'', vc_value = JNull \<rparr> \<rparr>"

definition sample_detector :: DetectorDescriptor where
  "sample_detector =
     \<lparr> dd_schema = DETECTOR_DESCRIPTOR_SCHEMA, dd_id = ''pressure'', dd_version = 1,
       dd_profile = pd_profile sample_descriptor, dd_profile_digest = zero_digest, dd_title = ''Pressure'',
       dd_condition = ''pressure'', dd_parameters = LoadPressure 1 \<rparr>"

definition sample_present :: "DetectorInput \<Rightarrow> DetectorResult option" where
  "sample_present input = Some
     \<lparr> res_state = Present, res_condition = ''pressure'', res_summary = ''high'', res_evidence = [],
       res_limitations = [], res_refusal = None, res_watermark = di_watermark input \<rparr>"

definition sample_module :: ProfileModule where
  "sample_module = \<lparr> pm_descriptor = sample_descriptor, pm_detectors = [(sample_detector, sample_present)],
     pm_validate = (\<lambda>_ _. Err sample_profile_refusal) \<rparr>"

definition sample_fresh :: Fresh where
  "sample_fresh = \<lparr> fr_now = 7, fr_evaluation_id = ''v-1'', fr_refusal_id = ''x-1'', fr_finding_id = ''f-1'',
     fr_event_id = ''e-1'' \<rparr>"

definition sample_setup :: EvaluationSetup where
  "sample_setup = \<lparr> su_profile_digest = zero_digest, su_profile_semantic = zero_digest, su_matching_rows = [],
     su_reports = [], su_watermark = row_watermark sample_watcher [], su_subject_json = ''{}'' \<rparr>"

lemma sample_engine_fields:
  "canonical_json_bytes sample_engine_externals = canonical_json_bytes sample_stored_externals"
  "sha256_bytes sample_engine_externals bs = zero_digest"
  "rfc3339_parse sample_engine_externals t = Ok 5"
  "detector_to_value sample_engine_externals d = Ok (JObject [])"
  "descriptor_to_value sample_engine_externals pd = Ok (JObject [])"
  "scope_to_value sample_engine_externals sc = JNull" "vantage_to_value sample_engine_externals vc = JNull"
  "envelope_to_value sample_engine_externals env = Ok (JObject [])"
  "json_to_string sample_engine_externals v = Ok ''{}''"
  by (simp_all add: sample_engine_externals_def stored_externals.extend_def sample_stored_externals_def
      canonical_json_bytes_def fun_eq_iff sha256_bytes_def zero_digest_def)

lemma sample_engine_document:
  "json_numbers v = [] \<Longrightarrow> canonical_document sample_engine_externals (Ok v) = Ok sample_document"
  by (simp add: canonical_document_def from_serializable_def canonical_json_bytes_of_def sample_engine_fields
      sample_canonical validate_document_size_def MAX_STORED_JSON_BYTES_def MAX_RESPONSE_FRAME_BYTES_def
      sample_document_def)

lemma sample_engine_digests:
  "descriptor_digest sample_engine_externals d = Ok zero_digest"
  "profile_semantic_id sample_engine_externals d = Ok zero_digest"
  "detector_digest sample_engine_externals (detector_to_value sample_engine_externals) dd = Ok zero_digest"
proof -
  have "json_numbers (semantic_id_preimage a b c e) = []" for a b c e
    by (simp add: semantic_id_preimage_def bt_from_def)
  then show "descriptor_digest sample_engine_externals d = Ok zero_digest"
    and "profile_semantic_id sample_engine_externals d = Ok zero_digest"
    and "detector_digest sample_engine_externals (detector_to_value sample_engine_externals) dd = Ok zero_digest"
    by (simp_all add: descriptor_digest_def profile_semantic_id_def compose_semantic_id_def
        detector_digest_def semantic_digest_def semantic_digest_of_def canonical_json_bytes_of_def
        sample_engine_fields sample_canonical)
qed

lemma sample_hex_engine: "hex_digests sample_engine_externals"
  using sample_hex_digests
  by (simp add: hex_digests_def sample_engine_externals_def stored_externals.extend_def
      sample_stored_externals_def)

lemma sample_setup_eq:
  "evaluation_setup sample_engine_externals sample_watcher sample_module
     \<lparr> es_reports = [], es_expired_citations = [] \<rparr> AllMatching = Ok sample_setup"
  by (simp add: evaluation_setup_def sample_engine_digests sample_engine_fields sample_setup_def)

lemma sample_no_numbers:
  "json_numbers safe_next_checks = []" "json_numbers (json_object [(k, JString t)]) = []"
  "json_numbers (basis_value sample_engine_externals w d) = []"
  by (simp_all add: safe_next_checks_def json_object_def basis_value_def sample_engine_fields bt_from_def)

definition sample_present_result :: DetectorResult where
  "sample_present_result =
     \<lparr> res_state = Present, res_condition = ''pressure'', res_summary = ''high'', res_evidence = [],
       res_limitations = [], res_refusal = None, res_watermark = 0 \<rparr>"

lemma sample_builds:
  "\<exists>f. build_finding_event sample_engine_externals sample_watcher sample_module sample_detector
     sample_present_result None 5 None [] [] sample_fresh = Ok (Some f) \<and> fi_evidence f = []"
  by (simp add: build_finding_event_def sample_present_result_def finding_evidence_of_def
      sample_engine_digests sample_engine_document sample_no_numbers visibility_for_def Let_def)

theorem built_event_refines_lifecycle_witness:
  "\<exists>f. build_finding_event sample_engine_externals sample_watcher sample_module sample_detector
     sample_present_result None 5 None [] [] sample_fresh = Ok (Some f) \<and>
     phase_after None (Some f) = Open \<and> fi_event_kind f = ''opened''"
proof -
  obtain f where f: "build_finding_event sample_engine_externals sample_watcher sample_module sample_detector
     sample_present_result None 5 None [] [] sample_fresh = Ok (Some f)"
    using sample_builds by blast
  from built_event_refines_lifecycle [OF this] show ?thesis
    using f by (auto simp: current_phase_def sample_present_result_def)
qed

lemma sample_prepares:
  "\<exists>p. prepare_detector_evaluation sample_engine_externals [sample_descriptor] sample_watcher sample_module None
     \<lparr> es_reports = [], es_expired_citations = [] \<rparr> [] zero_digest sample_setup (sample_detector, sample_present)
     sample_fresh = Ok p \<and> (\<exists>f. eci_finding (pe_commit p) = Some f \<and> fi_evidence f = [])"
proof -
  have digest: "parse_sha256_digest zero_digest = Ok zero_digest"
    using zero_digest_ok(1) [of field] by (auto simp: validate_digest_def parse_sha256_digest_def
        split: option.splits if_splits)
  have res: "prepare_detector_result sample_engine_externals sample_watcher sample_setup sample_present 5 =
      Ok sample_present_result"
    by (simp add: prepare_detector_result_def sample_present_def durable_evidence_def sample_present_result_def
        sample_setup_def row_watermark_def clamp_u64_def)
  have received: "wm_watermark_received_at (su_watermark sample_setup) = None"
    by (simp add: sample_setup_def row_watermark_def)
  obtain f where "build_finding_event sample_engine_externals sample_watcher sample_module sample_detector
     sample_present_result None 5 None [] [] sample_fresh = Ok (Some f)" "fi_evidence f = []"
    using sample_builds by blast
  moreover have "su_profile_semantic sample_setup = zero_digest" "su_matching_rows sample_setup = []"
    by (simp_all add: sample_setup_def)
  ultimately show ?thesis
    by (simp add: prepare_detector_evaluation_def parse_timestamp_def sample_engine_fields res
        sample_engine_digests governed_evaluation_result_def parse_identity_digest_def digest received
        sample_engine_document sample_no_numbers find_current_finding_def option_result_def Let_def
        sample_present_result_def)
qed

theorem prepared_commit_is_consistent_witness:
  "\<exists>p f. prepare_detector_evaluation sample_engine_externals [sample_descriptor] sample_watcher sample_module None
     \<lparr> es_reports = [], es_expired_citations = [] \<rparr> [] zero_digest sample_setup (sample_detector, sample_present)
     sample_fresh = Ok p \<and> eci_finding (pe_commit p) = Some f \<and>
     validate_finding_against_evaluation f (eci_evaluation (pe_commit p)) = Ok ()"
proof -
  have "watches_profile sample_watcher sample_module"
    by (simp add: watches_profile_def sample_watcher_def sample_module_def sample_descriptor_def
        ProfileKey_new_def)
  then show ?thesis
    using sample_prepares prepared_commit_is_consistent [OF sample_hex_engine _ sample_setup_eq]
    by (force simp: Let_def)
qed

end
