(* ===== verification/Finding_Replay.thy ===== *)
theory Finding_Replay
  imports Finding_Engine
begin

text \<open>
  The replay of the evaluation history (\<open>nq-core/src/engine.rs\<close>): the lineage of an evaluation, the
  heads that a walk over the history keeps, and the step that checks each evaluation's finding
  event against them. The walk is the fold of the step over the rows of a history without expired
  evaluations; its pages are consecutive parts of that list.
\<close>

section \<open>Rows and lineages\<close>

text \<open>The columns of a history row that the replay reads.\<close>

record EvaluationRefusalHistoryRow =
  hr_evaluation_id :: string
  hr_evaluation_sequence :: int
  hr_evaluation_revision :: int
  hr_finding_event_id :: "string option"
  hr_finding_id :: "string option"
  hr_finding_event_revision :: "int option"
  hr_finding_event_kind :: "string option"
  hr_finding_condition_state :: "string option"

text \<open>The row that the history query returns for an evaluation and the event that names it.\<close>

definition history_row :: "EvaluationRunRow \<Rightarrow> FindingEventRow option \<Rightarrow> EvaluationRefusalHistoryRow" where
  "history_row evaluation event =
     \<lparr> hr_evaluation_id = ei_evaluation_id (er_input evaluation),
       hr_evaluation_sequence = er_evaluation_sequence evaluation,
       hr_evaluation_revision = er_evaluation_revision evaluation,
       hr_finding_event_id = map_option row_event_id event,
       hr_finding_id = map_option (\<lambda>r. fi_finding_id (fer_input r)) event,
       hr_finding_event_revision = map_option fer_event_revision event,
       hr_finding_event_kind = map_option row_kind event,
       hr_finding_condition_state = map_option row_state event \<rparr>"

record replay_externals = engine_externals +
  detector_identity_to_value :: "EvaluationDetectorIdentity \<Rightarrow> json"
  profile_identity_to_value :: "EvaluationProfileIdentity \<Rightarrow> json"

definition evaluation_lineage_key ::
  "'x replay_externals_scheme \<Rightarrow> EvaluationEnvelopeV2 \<Rightarrow> (bytes, EngineError) result" where
  "evaluation_lineage_key x envelope =
     map_ok cd_bytes (canonical_document x (Ok (json_object
       [(''instance_id'', JString (ec_instance_id (env_context envelope))),
        (''detector'', detector_identity_to_value x (env_detector envelope)),
        (''profile'', profile_identity_to_value x (env_profile envelope)),
        (''subject'', JString (ec_subject (env_context envelope))),
        (''scope'', scope_to_value x (ec_scope (env_context envelope))),
        (''vantage'', vantage_to_value x (ec_vantage (env_context envelope))),
        (''condition'', JString (er1_condition (env_result envelope)))])))"

section \<open>Heads\<close>

record EvaluationHeadPosition =
  hp_revision :: int
  hp_sequence :: int

record ReplayedFinding =
  rf_finding_id :: string
  rf_event_revision :: int
  rf_condition_state :: string

record HistoryHeads =
  hh_findings :: "(bytes, ReplayedFinding) btree_map"
  hh_evaluations :: "(bytes, EvaluationHeadPosition) btree_map"

definition advance_evaluation ::
  "bytes \<Rightarrow> EvaluationRefusalHistoryRow \<Rightarrow> HistoryHeads \<Rightarrow> bool \<times> HistoryHeads" where
  "advance_evaluation lineage row self =
     (let candidate = \<lparr> hp_revision = hr_evaluation_revision row, hp_sequence = hr_evaluation_sequence row \<rparr>;
          advanced = self \<lparr> hh_evaluations := bt_insert lineage candidate (hh_evaluations self) \<rparr>
      in case bt_get (hh_evaluations self) lineage of
           None \<Rightarrow> (True, advanced)
         | Some head \<Rightarrow>
             if hp_revision head < hp_revision candidate then (True, advanced) else (False, self))"

section \<open>The replay step\<close>

definition requires_event :: "DetectorState \<Rightarrow> ReplayedFinding option \<Rightarrow> bool" where
  "requires_event state prior =
     (case state of
        Present \<Rightarrow> True
      | DetectorState.CannotEvaluate \<Rightarrow> prior \<noteq> None
      | ExplicitlyAbsent \<Rightarrow> (case prior of None \<Rightarrow> False
          | Some finding \<Rightarrow> rf_condition_state finding \<noteq> ''explicitly_absent''))"

definition check_prior ::
  "EvaluationRefusalHistoryRow \<Rightarrow> string \<Rightarrow> string \<Rightarrow> int \<Rightarrow> ReplayedFinding option \<Rightarrow> (unit, EngineError) result" where
  "check_prior row event_id finding_id event_revision prior =
     (case prior of
        None \<Rightarrow> refuse_if (event_revision \<noteq> 1 \<or> hr_finding_event_kind row \<noteq> Some ''opened'')
          (EngineInvariant [''finding event does not open canonical lineage at revision one'', event_id])
      | Some p \<Rightarrow> refuse_if (finding_id \<noteq> rf_finding_id p \<or> event_revision \<noteq> rf_event_revision p + 1)
          (EngineInvariant [''finding event substitutes canonical prior lineage'', event_id]))"

definition validate_evaluation_finding_replay_step ::
  "'x replay_externals_scheme \<Rightarrow> EvaluationRefusalHistoryRow \<Rightarrow> EvaluationEnvelopeV2 \<Rightarrow>
   (bytes, ReplayedFinding) btree_map \<Rightarrow> ((bytes, ReplayedFinding) btree_map, EngineError) result" where
  "validate_evaluation_finding_replay_step x row envelope lineages =
     and_then (evaluation_lineage_key x envelope) (\<lambda>lineage.
     let prior = bt_get lineages lineage;
         required = requires_event (er1_state (env_result envelope)) prior in
     and_then (refuse_if (required \<noteq> (hr_finding_event_id row \<noteq> None))
       (EngineInvariant [if required then ''omits'' else ''invents'',
          ''a finding transition required by canonical history'', hr_evaluation_id row])) (\<lambda>_.
     case hr_finding_event_id row of
       None \<Rightarrow> Ok lineages
     | Some event_id \<Rightarrow>
         and_then (ok_or (EngineInvariant [''finding event has no finding identity'', event_id])
           (hr_finding_id row)) (\<lambda>finding_id.
         and_then (ok_or (EngineInvariant [''finding event has no revision'', event_id])
           (hr_finding_event_revision row)) (\<lambda>event_revision.
         and_then (ok_or (EngineInvariant [''finding event has no condition state'', event_id])
           (hr_finding_condition_state row)) (\<lambda>condition_state.
         and_then (check_prior row event_id finding_id event_revision prior) (\<lambda>_.
         Ok (bt_insert lineage \<lparr> rf_finding_id = finding_id, rf_event_revision = event_revision,
           rf_condition_state = condition_state \<rparr> lineages)))))))"

fun visit_evaluation_history ::
  "'x replay_externals_scheme \<Rightarrow> (EvaluationRefusalHistoryRow \<times> EvaluationEnvelopeV2) list \<Rightarrow> HistoryHeads \<Rightarrow>
   (HistoryHeads, EngineError) result" where
  "visit_evaluation_history x [] replay = Ok replay"
| "visit_evaluation_history x ((row, envelope) # rows) replay =
     and_then (validate_evaluation_finding_replay_step x row envelope (hh_findings replay)) (\<lambda>findings.
     and_then (evaluation_lineage_key x envelope) (\<lambda>lineage.
     visit_evaluation_history x rows
       (snd (advance_evaluation lineage row (replay \<lparr> hh_findings := findings \<rparr>)))))"

section \<open>Replay of what the engine wrote\<close>

text \<open>A replayed finding and the engine's row of the current finding are the same finding.\<close>

definition same_finding :: "ReplayedFinding option \<Rightarrow> FindingSnapshotRow option \<Rightarrow> bool" where
  "same_finding replayed current \<longleftrightarrow>
     map_option (\<lambda>p. (rf_finding_id p, rf_condition_state p)) replayed =
     map_option (\<lambda>row. (fs_finding_id row, fs_condition_state row)) current"

lemma requires_event_iff_built:
  "same_finding replayed current \<Longrightarrow>
     requires_event state replayed \<longleftrightarrow> finding_event_kind current state \<noteq> None"
  by (cases current; cases replayed; cases state) (auto simp: requires_event_def same_finding_def)

text \<open>The row that the store writes for a built event: the next revision of its finding.\<close>

definition stored_event :: "FindingEventInput option \<Rightarrow> ReplayedFinding option \<Rightarrow> FindingEventRow option \<Rightarrow> bool" where
  "stored_event event replayed stored \<longleftrightarrow>
     map_option (\<lambda>r. (fer_input r, fer_event_revision r)) stored =
     map_option (\<lambda>f. (f, case replayed of None \<Rightarrow> 1 | Some p \<Rightarrow> rf_event_revision p + 1)) event"

definition replayed_after :: "ReplayedFinding option \<Rightarrow> FindingEventRow option \<Rightarrow> ReplayedFinding option" where
  "replayed_after replayed stored =
     (case stored of None \<Rightarrow> replayed
      | Some r \<Rightarrow> Some \<lparr> rf_finding_id = fi_finding_id (fer_input r),
          rf_event_revision = fer_event_revision r, rf_condition_state = row_state r \<rparr>)"

text \<open>
  C9. The replay accepts what the engine writes. When the replay's finding of an evaluation's
  lineage is the engine's current finding, and the store wrote the event that the engine built, if
  it built one, at the next revision, the replay step passes: it requires an event exactly when one
  was built, and takes it as the opening or as the next event of the same finding. After the step
  the replay's finding of that lineage is the one just written, and every other lineage is as
  before.
\<close>

theorem replay_accepts_engine_events:
  assumes build: "build_finding_event x watcher profile descriptor res governed evaluated_at current rows
      expired fresh = Ok event"
    and state: "er1_state (env_result envelope) = res_state res"
    and key: "evaluation_lineage_key x envelope = Ok lineage"
    and same: "same_finding (bt_get lineages lineage) current"
    and stored: "stored_event event (bt_get lineages lineage) erow"
  shows "\<exists>lineages'. validate_evaluation_finding_replay_step x (history_row evaluation erow) envelope lineages =
       Ok lineages' \<and>
     (\<forall>other. bt_get lineages' other =
        (if other = lineage then replayed_after (bt_get lineages lineage) erow else bt_get lineages other))"
proof (cases event)
  case None
  then have "\<not> requires_event (res_state res) (bt_get lineages lineage)" and "erow = None"
    using build_finding_event_Ok [OF build] requires_event_iff_built [OF same] stored
    by (auto simp: stored_event_def)
  then show ?thesis
    by (simp add: validate_evaluation_finding_replay_step_def key state Let_def history_row_def replayed_after_def)
next
  case (Some f)
  note f = build_finding_event_Ok [OF build, unfolded Some, simplified]
  obtain r where r: "erow = Some r" "fer_input r = f"
    "fer_event_revision r = (case bt_get lineages lineage of None \<Rightarrow> 1 | Some p \<Rightarrow> rf_event_revision p + 1)"
    using stored by (cases erow) (auto simp: stored_event_def Some)
  have required: "requires_event (res_state res) (bt_get lineages lineage)"
    using f requires_event_iff_built [OF same] by simp
  have "check_prior (history_row evaluation erow) (row_event_id r) (fi_finding_id f) (fer_event_revision r)
      (bt_get lineages lineage) = Ok ()"
  proof (cases "bt_get lineages lineage")
    case None
    then have "current = None" using same by (simp add: same_finding_def)
    then have "fi_event_kind f = ''opened''" using f by (cases "res_state res") auto
    with None r show ?thesis by (simp add: check_prior_def history_row_def)
  next
    case (Some p)
    then obtain row where "current = Some row" "fs_finding_id row = rf_finding_id p"
      using same by (cases current) (auto simp: same_finding_def)
    with Some r f show ?thesis by (simp add: check_prior_def)
  qed
  then show ?thesis
    using required r
    by (simp add: validate_evaluation_finding_replay_step_def key state Let_def history_row_def replayed_after_def)
qed

section \<open>The newest evaluation of a lineage\<close>

text \<open>
  Folding rows into the heads selects, for each lineage, the first of the rows with the greatest
  revision.
\<close>

definition fold_heads :: "(bytes \<times> EvaluationRefusalHistoryRow) list \<Rightarrow> HistoryHeads \<Rightarrow> HistoryHeads" where
  "fold_heads es replay = fold (\<lambda>(lineage, row) h. snd (advance_evaluation lineage row h)) es replay"

definition best_head ::
  "EvaluationHeadPosition option \<Rightarrow> EvaluationRefusalHistoryRow list \<Rightarrow> EvaluationHeadPosition option" where
  "best_head head rows = fold (\<lambda>row h. case h of
       None \<Rightarrow> Some \<lparr> hp_revision = hr_evaluation_revision row, hp_sequence = hr_evaluation_sequence row \<rparr>
     | Some p \<Rightarrow> if hp_revision p < hr_evaluation_revision row
         then Some \<lparr> hp_revision = hr_evaluation_revision row, hp_sequence = hr_evaluation_sequence row \<rparr>
         else Some p) rows head"

lemma advance_evaluation_get:
  "bt_get (hh_evaluations (snd (advance_evaluation lineage row h))) other =
     (if other = lineage then best_head (bt_get (hh_evaluations h) lineage) [row]
      else bt_get (hh_evaluations h) other)"
  by (simp add: advance_evaluation_def best_head_def Let_def split: option.splits)

lemma fold_heads_get:
  "bt_get (hh_evaluations (fold_heads es h)) lineage =
     best_head (bt_get (hh_evaluations h) lineage) (map snd (filter (\<lambda>e. fst e = lineage) es))"
proof (induction es arbitrary: h)
  case (Cons e es)
  show ?case
    using Cons.IH [of "snd (advance_evaluation (fst e) (snd e) h)"]
    by (simp add: fold_heads_def case_prod_unfold advance_evaluation_get) (simp add: best_head_def)
qed (simp add: fold_heads_def best_head_def)

lemma best_head_bounds:
  "best_head head rows = Some p \<Longrightarrow>
     (\<forall>row \<in> set rows. hr_evaluation_revision row \<le> hp_revision p) \<and>
     (\<forall>q. head = Some q \<longrightarrow> hp_revision q \<le> hp_revision p) \<and>
     (head = Some p \<or> (\<exists>row \<in> set rows. p = \<lparr> hp_revision = hr_evaluation_revision row,
        hp_sequence = hr_evaluation_sequence row \<rparr>))"
proof (induction rows arbitrary: head)
  case (Cons row rows)
  let ?c = "\<lparr> hp_revision = hr_evaluation_revision row, hp_sequence = hr_evaluation_sequence row \<rparr>"
  show ?case
  proof (cases head)
    case None
    with Cons.prems have "best_head (Some ?c) rows = Some p"
      by (simp add: best_head_def)
    from Cons.IH [OF this] None show ?thesis by auto
  next
    case (Some q)
    show ?thesis
    proof (cases "hp_revision q < hr_evaluation_revision row")
      case True
      with Some Cons.prems have "best_head (Some ?c) rows = Some p"
        by (simp add: best_head_def)
      from Cons.IH [OF this] Some True show ?thesis by auto
    next
      case False
      with Some Cons.prems have "best_head (Some q) rows = Some p"
        by (simp add: best_head_def)
      from Cons.IH [OF this] Some False show ?thesis by auto
    qed
  qed
qed (simp add: best_head_def)

lemma best_head_present: "best_head (Some q) rows \<noteq> None"
  by (induction rows arbitrary: q) (simp_all add: best_head_def)

lemma best_head_None: "best_head None rows = None \<longleftrightarrow> rows = []"
proof (cases rows)
  case (Cons row rest)
  then have "best_head None rows = best_head (Some \<lparr> hp_revision = hr_evaluation_revision row,
      hp_sequence = hr_evaluation_sequence row \<rparr>) rest"
    by (simp add: best_head_def)
  with Cons best_head_present show ?thesis by simp
qed (simp add: best_head_def)

lemma fold_heads_evaluations:
  "hh_evaluations h = hh_evaluations h' \<Longrightarrow>
     hh_evaluations (fold_heads es h) = hh_evaluations (fold_heads es h')"
proof (induction es arbitrary: h h')
  case (Cons e es)
  then have "hh_evaluations (snd (advance_evaluation (fst e) (snd e) h)) =
      hh_evaluations (snd (advance_evaluation (fst e) (snd e) h'))"
    by (simp add: advance_evaluation_def Let_def split: option.splits)
  from Cons.IH [OF this] show ?case by (simp add: fold_heads_def case_prod_unfold)
qed (simp add: fold_heads_def)

text \<open>A walk that returns folds its rows under their lineages.\<close>

definition keyed ::
  "'x replay_externals_scheme \<Rightarrow> (bytes \<times> EvaluationRefusalHistoryRow) list \<Rightarrow>
   (EvaluationRefusalHistoryRow \<times> EvaluationEnvelopeV2) list \<Rightarrow> bool" where
  "keyed x = list_all2 (\<lambda>(lineage, row) (row', envelope).
     row = row' \<and> evaluation_lineage_key x envelope = Ok lineage)"

lemma visit_folds_heads:
  "visit_evaluation_history x rows h = Ok heads \<Longrightarrow>
     \<exists>es. keyed x es rows \<and> hh_evaluations heads = hh_evaluations (fold_heads es h)"
proof (induction rows arbitrary: h)
  case Nil
  then show ?case by (intro exI [of _ "[]"]) (simp add: keyed_def fold_heads_def)
next
  case (Cons r rows)
  obtain row envelope where r: "r = (row, envelope)" by (cases r)
  from Cons.prems r obtain findings lineage where
    key: "evaluation_lineage_key x envelope = Ok lineage" and
    rest: "visit_evaluation_history x rows
      (snd (advance_evaluation lineage row (h \<lparr> hh_findings := findings \<rparr>))) = Ok heads"
    by (auto simp: and_then_Ok)
  from Cons.IH [OF rest] obtain es where es: "keyed x es rows"
    "hh_evaluations heads =
       hh_evaluations (fold_heads es (snd (advance_evaluation lineage row (h \<lparr> hh_findings := findings \<rparr>))))"
    by blast
  have "hh_evaluations heads = hh_evaluations (fold_heads ((lineage, row) # es) h)"
    using fold_heads_evaluations [of "h \<lparr> hh_findings := findings \<rparr>" h "(lineage, row) # es"] es(2)
    by (simp add: fold_heads_def)
  with es(1) key r show ?case
    by (intro exI [of _ "(lineage, row) # es"]) (simp add: keyed_def)
qed

lemma keyed_members:
  assumes "keyed x es rows"
  shows "(lineage, row) \<in> set es \<longleftrightarrow>
    (\<exists>envelope. (row, envelope) \<in> set rows \<and> evaluation_lineage_key x envelope = Ok lineage)"
  using assms unfolding keyed_def
  by (induction rule: list_all2_induct) auto

text \<open>
  A walk over the history that returns leaves, for every lineage it met, the position of an
  evaluation of that lineage whose revision no other evaluation of the lineage exceeds, and no
  position for a lineage it did not meet.
\<close>

lemma heads_are_newest_evaluations:
  assumes "visit_evaluation_history x rows \<lparr> hh_findings = [], hh_evaluations = [] \<rparr> = Ok heads"
  shows "case bt_get (hh_evaluations heads) lineage of
      None \<Rightarrow> \<not> (\<exists>(row, envelope) \<in> set rows. evaluation_lineage_key x envelope = Ok lineage)
    | Some p \<Rightarrow>
        (\<exists>(row, envelope) \<in> set rows. evaluation_lineage_key x envelope = Ok lineage \<and>
           hp_revision p = hr_evaluation_revision row \<and> hp_sequence p = hr_evaluation_sequence row) \<and>
        (\<forall>(row, envelope) \<in> set rows. evaluation_lineage_key x envelope = Ok lineage \<longrightarrow>
           hr_evaluation_revision row \<le> hp_revision p)"
proof -
  from visit_folds_heads [OF assms] obtain es where es: "keyed x es rows"
    and heads: "hh_evaluations heads = hh_evaluations (fold_heads es \<lparr> hh_findings = [], hh_evaluations = [] \<rparr>)"
    by blast
  let ?rows = "map snd (filter (\<lambda>e. fst e = lineage) es)"
  have head: "bt_get (hh_evaluations heads) lineage = best_head None ?rows"
    by (simp add: heads fold_heads_get)
  have members: "row \<in> set ?rows \<longleftrightarrow>
      (\<exists>envelope. (row, envelope) \<in> set rows \<and> evaluation_lineage_key x envelope = Ok lineage)" for row
    using keyed_members [OF es, of lineage row] by force
  show ?thesis
  proof (cases "best_head None ?rows")
    case None
    then have "?rows = []" by (simp add: best_head_None)
    then have "row \<notin> set ?rows" for row by (simp only: list.set) simp
    then have "\<not> (\<exists>(row, envelope) \<in> set rows. evaluation_lineage_key x envelope = Ok lineage)"
      unfolding members by blast
    with head None show ?thesis by simp
  next
    case (Some p)
    note best = best_head_bounds [OF this]
    then have bound: "\<forall>row \<in> set ?rows. hr_evaluation_revision row \<le> hp_revision p" ..
    from best option.distinct(1) obtain row where row: "row \<in> set ?rows"
      "p = \<lparr> hp_revision = hr_evaluation_revision row, hp_sequence = hr_evaluation_sequence row \<rparr>"
      by metis
    from row(1) obtain envelope where envelope: "(row, envelope) \<in> set rows"
      "evaluation_lineage_key x envelope = Ok lineage"
      unfolding members by blast
    have "\<forall>(row, envelope) \<in> set rows. evaluation_lineage_key x envelope = Ok lineage \<longrightarrow>
        hr_evaluation_revision row \<le> hp_revision p"
      using bound unfolding Ball_def members by blast
    moreover have "\<exists>(row, envelope) \<in> set rows. evaluation_lineage_key x envelope = Ok lineage \<and>
        hp_revision p = hr_evaluation_revision row \<and> hp_sequence p = hr_evaluation_sequence row"
      by (rule bexI [OF _ envelope(1)]) (simp add: envelope(2) row(2))
    ultimately show ?thesis using head Some by simp
  qed
qed

definition sample_replay_externals :: replay_externals where
  "sample_replay_externals = engine_externals.extend sample_engine_externals
     \<lparr> detector_identity_to_value = (\<lambda>_. JNull), profile_identity_to_value = (\<lambda>_. JNull) \<rparr>"

definition sample_envelope :: EvaluationEnvelopeV2 where
  "sample_envelope = envelope_of sample_watcher sample_module sample_setup sample_detector zero_digest None
     zero_digest 5 ''v-1'' None \<lparr> er1_profile = evaluation_profile sample_module sample_setup,
       er1_state = Present, er1_condition = ''pressure'', er1_summary = ''high'', er1_evidence = [],
       er1_limitations = [], er1_refusal = None, er1_watermark = 0 \<rparr>"

lemma sample_replay_fields:
  "canonical_json_bytes sample_replay_externals = canonical_json_bytes sample_engine_externals"
  "sha256_bytes sample_replay_externals bs = sha256_bytes sample_engine_externals bs"
  "descriptor_to_value sample_replay_externals = descriptor_to_value sample_engine_externals"
  by (simp_all add: sample_replay_externals_def engine_externals.extend_def canonical_json_bytes_def
      fun_eq_iff sha256_bytes_def)

lemma sample_replay_document:
  "json_numbers v = [] \<Longrightarrow> canonical_document sample_replay_externals (Ok v) = Ok sample_document"
  using sample_engine_document [of v]
  by (simp add: canonical_document_def from_serializable_def canonical_json_bytes_of_def sample_replay_fields)

lemma sample_lineage: "evaluation_lineage_key sample_replay_externals sample_envelope = Ok ''{}''"
proof -
  have "scope_to_value sample_replay_externals c = JNull" "vantage_to_value sample_replay_externals d = JNull"
    "detector_identity_to_value sample_replay_externals i = JNull"
    "profile_identity_to_value sample_replay_externals j = JNull" for c d i j
    by (simp_all add: sample_replay_externals_def engine_externals.extend_def sample_engine_externals_def
        stored_externals.extend_def)
  then show ?thesis
    by (simp add: evaluation_lineage_key_def sample_replay_document json_object_def bt_from_def
        sample_document_def)
qed

lemma sample_replay_builds:
  "\<exists>f. build_finding_event sample_replay_externals sample_watcher sample_module sample_detector
     sample_present_result None 5 None [] [] sample_fresh = Ok (Some f)"
proof -
  have "descriptor_digest sample_replay_externals d = Ok zero_digest" for d
    using sample_engine_digests(1) [of d]
    by (simp add: descriptor_digest_def semantic_digest_of_def canonical_json_bytes_of_def sample_replay_fields)
  moreover have "json_numbers (basis_value sample_replay_externals w d) = []" for w d
    by (simp add: basis_value_def json_object_def bt_from_def sample_replay_externals_def
        engine_externals.extend_def sample_engine_externals_def stored_externals.extend_def)
  ultimately show ?thesis
    by (simp add: build_finding_event_def sample_present_result_def finding_evidence_of_def
        sample_replay_document sample_no_numbers visibility_for_def Let_def)
qed

theorem replay_accepts_engine_events_witness:
  "\<exists>f lineages'. build_finding_event sample_replay_externals sample_watcher sample_module sample_detector
       sample_present_result None 5 None [] [] sample_fresh = Ok (Some f) \<and>
     validate_evaluation_finding_replay_step sample_replay_externals
       (history_row \<lparr> er_input = sample_evaluation ''v-1'' ''condition_present'', er_evaluation_sequence = 1,
          er_evaluation_revision = 1, er_min_cited_report_sequence = None \<rparr>
         (Some (event_row (sample_evaluation ''v-1'' ''condition_present'') 1 f 1)))
       sample_envelope [] = Ok lineages' \<and>
     map_option rf_event_revision (bt_get lineages' ''{}'') = Some 1"
proof -
  obtain f where f: "build_finding_event sample_replay_externals sample_watcher sample_module sample_detector
     sample_present_result None 5 None [] [] sample_fresh = Ok (Some f)"
    using sample_replay_builds by blast
  let ?r = "event_row (sample_evaluation ''v-1'' ''condition_present'') 1 f 1"
  have state: "er1_state (env_result sample_envelope) = res_state sample_present_result"
    by (simp add: sample_envelope_def envelope_of_def sample_present_result_def)
  have same: "same_finding (bt_get [] ''{}'') None"
    by (simp add: same_finding_def)
  have stored: "stored_event (Some f) (bt_get [] ''{}'') (Some ?r)"
    by (simp add: stored_event_def event_row_def)
  from replay_accepts_engine_events [OF f state sample_lineage same stored] f show ?thesis
    by (fastforce simp: replayed_after_def event_row_def)
qed

text \<open>Two absent evaluations of one lineage, which need no finding event.\<close>

definition sample_absent_envelope :: EvaluationEnvelopeV2 where
  "sample_absent_envelope = sample_envelope
     \<lparr> env_result := (env_result sample_envelope) \<lparr> er1_state := ExplicitlyAbsent \<rparr> \<rparr>"

definition sample_history :: "(EvaluationRefusalHistoryRow \<times> EvaluationEnvelopeV2) list" where
  "sample_history = map (\<lambda>n. (history_row \<lparr> er_input = sample_evaluation ''v-1'' ''condition_explicitly_absent'',
     er_evaluation_sequence = n, er_evaluation_revision = n, er_min_cited_report_sequence = None \<rparr> None,
     sample_absent_envelope)) [1, 2]"

end
