(* ===== verification/Store_Capacity.thy ===== *)
theory Store_Capacity
  imports Refusal_Carriers
begin

text \<open>
  Conservative admission of database writes (\<open>crates/nq-store/src/capacity.rs\<close>): the observation of
  the filesystem, the policy, the operating envelope that bounds the database file, its write-ahead
  log and its shared-memory index, the checks before every write, and the bounds on the recovery of
  a journal.

  The operating system is the record \<open>host\<close>: what \<open>statvfs\<close>, \<open>getrlimit\<close>, \<open>metadata\<close>, \<open>read_dir\<close>
  and the file reads return for one database path. A file that is not found is \<open>Ok None\<close>, any other
  failure of a call is \<open>Err\<close>.
\<close>

unbundle bit_operations_syntax

section \<open>Constants\<close>

definition DEFAULT_HORIZON_SECONDS :: u64 where
  "DEFAULT_HORIZON_SECONDS = 7 * 24 * 60 * 60"

definition FIXED_ALLOWANCE :: u64 where
  "FIXED_ALLOWANCE = 4 * 1024 * 1024"

definition MIN_PAGES :: u64 where
  "MIN_PAGES = 256"

definition MAX_SQLITE_SECTOR_BYTES :: u64 where
  "MAX_SQLITE_SECTOR_BYTES = 65536"

definition SHM_REGION_BYTES :: u64 where
  "SHM_REGION_BYTES = 32768"

definition SHM_FRAMES_PER_REGION :: u64 where
  "SHM_FRAMES_PER_REGION = 4096"

definition SHM_FIRST_REGION_FRAMES :: u64 where
  "SHM_FIRST_REGION_FRAMES = 4062"

lemmas capacity_constants = FIXED_ALLOWANCE_def MIN_PAGES_def MAX_SQLITE_SECTOR_BYTES_def
  SHM_REGION_BYTES_def SHM_FRAMES_PER_REGION_def SHM_FIRST_REGION_FRAMES_def

section \<open>Policies, observations and envelopes\<close>

record CapacityPolicy =
  cp_horizon_seconds :: u64
  cp_byte_ceiling :: "u64 option"
  cp_reserve_bytes :: u64
  cp_reserve_is_automatic :: bool
  cp_auxiliary_bytes :: u64

record CapacityObservation =
  co_device :: u64
  co_available_bytes :: u64
  co_total_bytes :: u64
  co_available_inodes :: u64
  co_file_limit_bytes :: "u64 option"
  co_occupied_bytes :: u64
  co_auxiliary_occupied_bytes :: u64

record OperatingEnvelope =
  oe_schema_version :: u32
  oe_policy :: CapacityPolicy
  oe_observed :: CapacityObservation
  oe_aggregate_bytes :: u64
  oe_page_size :: u64
  oe_max_pages :: u64
  oe_main_bytes :: u64
  oe_wal_bytes :: u64

definition refusal :: "string \<Rightarrow> StoreError" where
  "refusal message = StoreRefused (Capacity message)"

definition envelope_fault :: "string \<Rightarrow> StoreError" where
  "envelope_fault message = StoreInvariant [''capacity refused'', message]"

definition add_u64 :: "u64 \<Rightarrow> u64 \<Rightarrow> (u64, StoreError) result" where
  "add_u64 left right = ok_or (refusal ''byte arithmetic overflow'') (checked_add left right)"

lemma add_u64_Ok [checks]: "add_u64 a b = Ok c \<longleftrightarrow> unat c = unat a + unat b"
  by (simp add: add_u64_def checked_add_Some)

section \<open>The observation of the host\<close>

record statvfs =
  sv_blocks :: u64
  sv_blocks_available :: u64
  sv_fragment_size :: u64
  sv_files_available :: u64

record fs_file =
  file_is_regular :: bool
  file_blocks :: u64
  file_bytes :: bytes

record host =
  h_has_parent :: bool
  h_file_name :: "string option"
  h_statvfs :: "(statvfs, string) result"
  h_rlimit_fsize :: "(u64, string) result"
  h_main :: "(fs_file option, string) result"
  h_wal :: "(fs_file option, string) result"
  h_shm :: "(fs_file option, string) result"
  h_journal :: "(fs_file option, string) result"
  h_watermark :: "(fs_file option, string) result"
  h_directory :: "((string \<times> fs_file, string) result list, string) result"
  h_device :: "(u64, string) result"

definition RLIM_INFINITY :: u64 where
  "RLIM_INFINITY = - 1"

definition file_len :: "fs_file \<Rightarrow> u64" where
  "file_len f = of_nat (length (file_bytes f))"

text \<open>The bytes a file occupies: its length or its allocated blocks, whichever is more.\<close>

definition charge :: "string \<Rightarrow> fs_file \<Rightarrow> (u64, StoreError) result" where
  "charge overflow f =
     map_ok (max (file_len f)) (ok_or (refusal overflow) (checked_mul (file_blocks f) 512))"

definition store_files :: "host \<Rightarrow> (fs_file option, string) result list" where
  "store_files h = [h_main h, h_wal h, h_shm h, h_journal h]"

fun charge_store_files :: "u64 \<Rightarrow> (fs_file option, string) result list \<Rightarrow> (u64, StoreError) result" where
  "charge_store_files occupied [] = Ok occupied"
| "charge_store_files occupied (candidate # rest) =
     (case candidate of
        Err e \<Rightarrow> Err (StoreIo e)
      | Ok None \<Rightarrow> charge_store_files occupied rest
      | Ok (Some f) \<Rightarrow>
          and_then (refuse_if (\<not> file_is_regular f) (envelope_fault ''store member is not a regular file'')) (\<lambda>_.
          and_then (charge ''allocated byte overflow'' f) (\<lambda>bytes.
          and_then (add_u64 occupied bytes) (\<lambda>total. charge_store_files total rest))))"

definition ends_with :: "string \<Rightarrow> string \<Rightarrow> bool" where
  "ends_with s t = starts_with (List.rev s) (List.rev t)"

text \<open>The names that \<open>auxiliary_occupancy\<close> charges, for the database's own file name.\<close>

definition known_sidecar :: "string \<Rightarrow> string \<Rightarrow> bool" where
  "known_sidecar stem name \<longleftrightarrow>
     name = stem @ ''.capacity.lock'' \<or> name = stem @ ''.validation-watermark.json'' \<or>
     starts_with name (stem @ ''.validation-watermark.json.tmp-'') \<or>
     starts_with name (stem @ ''.'') \<and> ends_with name ''.nqd.lock''"

fun charge_sidecars ::
  "string \<Rightarrow> nat \<Rightarrow> u64 \<Rightarrow> (string \<times> fs_file, string) result list \<Rightarrow> (u64, StoreError) result" where
  "charge_sidecars stem index bytes [] = Ok bytes"
| "charge_sidecars stem index bytes (entry # rest) =
     and_then (refuse_if (100000 \<le> index) (refusal ''sidecar directory exceeds bounded inspection'')) (\<lambda>_.
     case entry of
       Err e \<Rightarrow> Err (StoreIo e)
     | Ok (name, f) \<Rightarrow>
         if known_sidecar stem name then
           and_then (refuse_if (\<not> file_is_regular f \<and> name \<noteq> stem @ ''.validation-watermark.json'')
             (refusal ''known sidecar is not a regular file'')) (\<lambda>_.
           and_then (charge ''sidecar allocation overflow'' f) (\<lambda>more.
           and_then (add_u64 bytes more) (\<lambda>total. charge_sidecars stem (Suc index) total rest)))
         else charge_sidecars stem (Suc index) bytes rest)"

definition auxiliary_occupancy :: "host \<Rightarrow> (u64, StoreError) result" where
  "auxiliary_occupancy h =
     and_then (refuse_if (\<not> h_has_parent h) (refusal ''database has no parent'')) (\<lambda>_.
     and_then (ok_or (refusal ''database has no basename'') (h_file_name h)) (\<lambda>stem.
     and_then (map_err StoreIo (h_directory h)) (charge_sidecars stem 0 0)))"

definition observe :: "host \<Rightarrow> (CapacityObservation, StoreError) result" where
  "observe h =
     and_then (refuse_if (\<not> h_has_parent h) (refusal ''database has no parent'')) (\<lambda>_.
     and_then (map_err refusal (h_statvfs h)) (\<lambda>fs.
     and_then (map_err refusal (h_rlimit_fsize h)) (\<lambda>limit.
     and_then (ok_or (refusal ''filesystem capacity overflow'')
       (checked_mul (sv_blocks_available fs) (sv_fragment_size fs))) (\<lambda>available_bytes.
     and_then (charge_store_files 0 (store_files h)) (\<lambda>stored.
     and_then (auxiliary_occupancy h) (\<lambda>auxiliary_occupied_bytes.
     and_then (add_u64 stored auxiliary_occupied_bytes) (\<lambda>occupied_bytes.
     and_then (map_err StoreIo (h_device h)) (\<lambda>device.
     and_then (ok_or (refusal ''filesystem total overflow'')
       (checked_mul (sv_blocks fs) (sv_fragment_size fs))) (\<lambda>total_bytes.
     Ok \<lparr> co_device = device, co_available_bytes = available_bytes, co_total_bytes = total_bytes,
          co_available_inodes = sv_files_available fs,
          co_file_limit_bytes = (if limit = RLIM_INFINITY then None else Some limit),
          co_occupied_bytes = occupied_bytes,
          co_auxiliary_occupied_bytes = auxiliary_occupied_bytes \<rparr>)))))))))"

section \<open>The policy\<close>

text \<open>At least one gibibyte and one fifth of the filesystem.\<close>

definition automatic_reserve :: "CapacityObservation \<Rightarrow> u64" where
  "automatic_reserve observed = max (1024 * 1024 * 1024)
     (co_total_bytes observed div 5 + (if co_total_bytes observed mod 5 \<noteq> 0 then 1 else 0))"

definition resolve_policy ::
  "u64 \<Rightarrow> u64 option \<Rightarrow> u64 option \<Rightarrow> u64 option \<Rightarrow> CapacityObservation \<Rightarrow> (CapacityPolicy, StoreError) result" where
  "resolve_policy horizon_seconds byte_ceiling reserve_bytes auxiliary_bytes observed =
     and_then (refuse_if (horizon_seconds = 0) (refusal ''retention horizon must be positive'')) (\<lambda>_.
     Ok \<lparr> cp_horizon_seconds = horizon_seconds, cp_byte_ceiling = byte_ceiling,
          cp_reserve_bytes = (case reserve_bytes of None \<Rightarrow> automatic_reserve observed | Some b \<Rightarrow> b),
          cp_reserve_is_automatic = (reserve_bytes = None),
          cp_auxiliary_bytes = (case auxiliary_bytes of None \<Rightarrow> 64 * 1024 * 1024 | Some b \<Rightarrow> b) \<rparr>)"

definition policy_for_restore ::
  "CapacityPolicy \<Rightarrow> CapacityObservation \<Rightarrow> (CapacityPolicy, StoreError) result" where
  "policy_for_restore prior target =
     resolve_policy (cp_horizon_seconds prior) (cp_byte_ceiling prior)
       (if cp_reserve_is_automatic prior then None else Some (cp_reserve_bytes prior))
       (Some (cp_auxiliary_bytes prior)) target"

section \<open>The operating envelope\<close>

text \<open>\<open>u64::is_power_of_two\<close>.\<close>

definition is_power_of_two :: "u64 \<Rightarrow> bool" where
  "is_power_of_two n \<longleftrightarrow> n \<noteq> 0 \<and> n AND (n - 1) = 0"

definition shm_allowance :: "u64 \<Rightarrow> (u64, StoreError) result" where
  "shm_allowance max_pages =
     and_then (add_u64 max_pages (SHM_FRAMES_PER_REGION - SHM_FIRST_REGION_FRAMES)) (\<lambda>indexed.
     and_then (add_u64 indexed (SHM_FRAMES_PER_REGION - 1)) (\<lambda>rounded.
     ok_or (refusal ''SHM bound overflow'') (checked_mul (rounded div SHM_FRAMES_PER_REGION) SHM_REGION_BYTES)))"

text \<open>The statements of \<open>derive\<close> before the page arithmetic: they give the aggregate ceiling.\<close>

definition derive_aggregate :: "CapacityPolicy \<Rightarrow> CapacityObservation \<Rightarrow> u64 \<Rightarrow> (u64, StoreError) result" where
  "derive_aggregate policy observed page_size =
     and_then (refuse_if (cp_horizon_seconds policy = 0 \<or> \<not> is_power_of_two page_size \<or>
         \<not> (512 \<le> page_size \<and> page_size \<le> 65536))
       (refusal ''invalid horizon or SQLite page size'')) (\<lambda>_.
     and_then (if cp_reserve_is_automatic policy then
         and_then (resolve_policy (cp_horizon_seconds policy) (cp_byte_ceiling policy) None
             (Some (cp_auxiliary_bytes policy)) observed) (\<lambda>resolved.
         refuse_if (cp_reserve_bytes policy \<noteq> cp_reserve_bytes resolved)
           (refusal ''automatic reserve differs from admission observation''))
       else Ok ()) (\<lambda>_.
     and_then (refuse_if (co_available_inodes observed < 8) (refusal ''insufficient free inodes'')) (\<lambda>_.
     and_then (add_u64 (co_available_bytes observed) (co_occupied_bytes observed)) (\<lambda>total.
     and_then (ok_or (refusal ''filesystem reserve unavailable'')
       (checked_sub total (cp_reserve_bytes policy))) (\<lambda>capacity.
     and_then (ok_or (refusal ''filesystem reserve unavailable'')
       (checked_sub (co_available_bytes observed) (cp_reserve_bytes policy))) (\<lambda>free.
     and_then (add_u64 (co_occupied_bytes observed) (free div 2)) (\<lambda>automatic.
     let aggregate_bytes = (case cp_byte_ceiling policy of None \<Rightarrow> automatic | Some c \<Rightarrow> c) in
     map_ok (\<lambda>_. aggregate_bytes) (refuse_if (aggregate_bytes > capacity)
       (refusal ''requested ceiling exceeds capacity minus reserve'')))))))))"

text \<open>The page ceiling that the aggregate ceiling and the per-file limit leave.\<close>

definition derive_pages ::
  "CapacityPolicy \<Rightarrow> CapacityObservation \<Rightarrow> u64 \<Rightarrow> u64 \<Rightarrow> u64 \<Rightarrow> u64 \<Rightarrow> u64 \<Rightarrow> (u64, StoreError) result" where
  "derive_pages policy observed page_size aggregate_bytes frame_bytes padding_frames padding_bytes =
     and_then (add_u64 FIXED_ALLOWANCE (cp_auxiliary_bytes policy)) (\<lambda>housekeeping.
     and_then (add_u64 padding_bytes (padding_frames * 8)) (\<lambda>padding.
     and_then (add_u64 (SHM_REGION_BYTES + (SHM_FRAMES_PER_REGION - SHM_FIRST_REGION_FRAMES) * 8) padding) (\<lambda>index.
     and_then (add_u64 housekeeping index) (\<lambda>overhead.
     and_then (add_u64 overhead 32) (\<lambda>fixed.
     and_then (ok_or (refusal ''ceiling cannot cover fixed allowance'') (checked_sub aggregate_bytes fixed)) (\<lambda>usable.
     and_then (ok_or (refusal ''page arithmetic overflow'') (checked_mul page_size 2)) (\<lambda>pair.
     and_then (add_u64 pair 32) (\<lambda>per_page.
     and_then (case co_file_limit_bytes observed of
         None \<Rightarrow> Ok (usable div per_page)
       | Some limit \<Rightarrow>
           and_then (ok_or (refusal ''per-file limit below required margin'')
             (checked_sub limit (max page_size 4096))) (\<lambda>usable_file.
           and_then (add_u64 32 padding_bytes) (\<lambda>wal_fixed.
           Ok (min (min (usable div per_page) (usable_file div page_size))
             (saturating_sub usable_file wal_fixed div frame_bytes))))) (\<lambda>max_pages.
     Ok (min max_pages 4294967294))))))))))"

definition derive :: "CapacityPolicy \<Rightarrow> CapacityObservation \<Rightarrow> u64 \<Rightarrow> u64 \<Rightarrow> (OperatingEnvelope, StoreError) result" where
  "derive policy observed page_size existing_pages =
     and_then (derive_aggregate policy observed page_size) (\<lambda>aggregate_bytes.
     and_then (add_u64 page_size 24) (\<lambda>frame_bytes.
     let padding_frames = div_ceil (MAX_SQLITE_SECTOR_BYTES - 1) frame_bytes in
     and_then (ok_or (refusal ''sector padding overflow'') (checked_mul padding_frames frame_bytes)) (\<lambda>padding_bytes.
     and_then (derive_pages policy observed page_size aggregate_bytes frame_bytes padding_frames padding_bytes) (\<lambda>max_pages.
     and_then (refuse_if (max_pages < MIN_PAGES \<or> existing_pages > max_pages)
       (refusal ''main-file or WAL allowance cannot fit current store'')) (\<lambda>_.
     and_then (ok_or (refusal ''main bound overflow'') (checked_mul max_pages page_size)) (\<lambda>main_bytes.
     and_then (add_u64 max_pages padding_frames) (\<lambda>frames.
     and_then (ok_or (refusal ''WAL bound overflow'') (checked_mul frames frame_bytes)) (\<lambda>frames_bytes.
     and_then (add_u64 32 frames_bytes) (\<lambda>wal_bytes.
     and_then (shm_allowance frames) (\<lambda>shm_bytes.
     and_then (add_u64 main_bytes wal_bytes) (\<lambda>files.
     and_then (add_u64 files shm_bytes) (\<lambda>indexed.
     and_then (add_u64 FIXED_ALLOWANCE (cp_auxiliary_bytes policy)) (\<lambda>housekeeping.
     and_then (add_u64 indexed housekeeping) (\<lambda>bound.
     and_then (refuse_if (bound > aggregate_bytes) (refusal ''aggregate bound calculation failed'')) (\<lambda>_.
     Ok \<lparr> oe_schema_version = 2, oe_policy = policy, oe_observed = observed,
          oe_aggregate_bytes = aggregate_bytes, oe_page_size = page_size, oe_max_pages = max_pages,
          oe_main_bytes = main_bytes, oe_wal_bytes = wal_bytes \<rparr>)))))))))))))))"

definition wal_frame_ceiling :: "OperatingEnvelope \<Rightarrow> (u64, StoreError) result" where
  "wal_frame_ceiling envelope =
     map_ok (\<lambda>frame. (oe_wal_bytes envelope - 32) div frame) (add_u64 (oe_page_size envelope) 24)"

definition saturating_add :: "u64 \<Rightarrow> u64 \<Rightarrow> u64" where
  "saturating_add a b = (case checked_add a b of None \<Rightarrow> - 1 | Some c \<Rightarrow> c)"

text \<open>The bound on each existing file of the store, in the order of \<open>store_files\<close>.\<close>

definition file_within :: "(fs_file option, string) result \<Rightarrow> u64 \<Rightarrow> (unit, StoreError) result" where
  "file_within candidate cap =
     (case candidate of
        Ok (Some f) \<Rightarrow> refuse_if (file_len f > cap) (refusal ''existing SQLite file exceeds envelope'')
      | _ \<Rightarrow> Ok ())"

definition preflight :: "OperatingEnvelope \<Rightarrow> host \<Rightarrow> (unit, StoreError) result" where
  "preflight self h =
     and_then (derive (oe_policy self) (oe_observed self) (oe_page_size self) 0) (\<lambda>expected.
     and_then (refuse_if (expected \<noteq> self)
       (envelope_fault ''persisted envelope fields disagree with derivation'')) (\<lambda>_.
     and_then (observe h) (\<lambda>current.
     and_then (refuse_if (oe_schema_version self \<noteq> 2 \<or> co_device current \<noteq> co_device (oe_observed self))
       (envelope_fault ''unsupported envelope or changed filesystem identity'')) (\<lambda>_.
     and_then (add_u64 FIXED_ALLOWANCE (cp_auxiliary_bytes (oe_policy self))) (\<lambda>housekeeping.
     and_then (refuse_if (co_auxiliary_occupied_bytes current > housekeeping)
       (refusal ''known sidecars exceed housekeeping allowance'')) (\<lambda>_.
     and_then (refuse_if (co_available_inodes current < 8) (refusal ''insufficient free inodes'')) (\<lambda>_.
     and_then (ok_or (refusal ''existing store exceeds aggregate ceiling'')
       (checked_sub (oe_aggregate_bytes self) (co_occupied_bytes current))) (\<lambda>remaining.
     and_then (add_u64 (cp_reserve_bytes (oe_policy self)) remaining) (\<lambda>needed.
     and_then (refuse_if (co_available_bytes current < needed)
       (refusal ''filesystem cannot preserve reserve and admitted envelope'')) (\<lambda>_.
     and_then (wal_frame_ceiling self) (\<lambda>frames.
     and_then (shm_allowance frames) (\<lambda>shm_bound.
     and_then (refuse_if (case co_file_limit_bytes current of None \<Rightarrow> False
         | Some limit \<Rightarrow> limit < saturating_add (max (max (oe_main_bytes self) (oe_wal_bytes self)) shm_bound)
             (max (oe_page_size self) 4096))
       (refusal ''current per-file limit is below persisted envelope'')) (\<lambda>_.
     run_checks (map2 file_within (store_files h)
       [oe_main_bytes self, oe_wal_bytes self, shm_bound, oe_wal_bytes self]))))))))))))))"

section \<open>Recovery and the watermark file\<close>

definition from_be_bytes :: "bytes \<Rightarrow> u64" where
  "from_be_bytes bs = of_nat (be_nat bs)"

definition valid_page_size :: "u64 \<Rightarrow> bool" where
  "valid_page_size n \<longleftrightarrow> is_power_of_two n \<and> 512 \<le> n \<and> n \<le> 65536"

definition journal_magic :: bytes where
  "journal_magic = map char_of [217, 213, 5, 249, 32, 161, 99, 215 :: nat]"

text \<open>The page size in the header of the main file, for a journal of the legacy format.\<close>

definition main_page_size :: "host \<Rightarrow> (u64, StoreError) result" where
  "main_page_size h =
     (case h_main h of
        Err e \<Rightarrow> Err (StoreIo e)
      | Ok None \<Rightarrow> Err (StoreIo ''not found'')
      | Ok (Some f) \<Rightarrow>
          if length (file_bytes f) < 18 then Err (StoreIo ''unexpected end of file'')
          else
            and_then (refuse_if (take 16 (file_bytes f) \<noteq> ''SQLite format 3'' @ [char_of (0 :: nat)])
              (refusal ''legacy recovery lacks a valid database page-size header'')) (\<lambda>_.
            let page_size = from_be_bytes (take 2 (drop 16 (file_bytes f)))
            in Ok (if page_size = 1 then 65536 else page_size)))"

definition journal_recovery_extent :: "host \<Rightarrow> (u64 option, StoreError) result" where
  "journal_recovery_extent h =
     (case h_journal h of
        Err e \<Rightarrow> Err (StoreIo e)
      | Ok None \<Rightarrow> Ok None
      | Ok (Some journal) \<Rightarrow>
          let header = take 28 (file_bytes journal) in
          if length header < 28 \<or> take 8 header \<noteq> journal_magic then Ok None
          else
            let pages = from_be_bytes (take 4 (drop 16 header));
                declared = from_be_bytes (take 4 (drop 24 header)) in
            and_then (if declared = 0 then main_page_size h else Ok declared) (\<lambda>page_size.
            and_then (refuse_if (\<not> valid_page_size page_size)
              (refusal ''rollback recovery page size is unsupported'')) (\<lambda>_.
            map_ok Some (ok_or (refusal ''rollback original extent overflow'') (checked_mul pages page_size)))))"

definition wal_frame_count :: "host \<Rightarrow> (u64, StoreError) result" where
  "wal_frame_count h =
     (case h_wal h of
        Err e \<Rightarrow> Err (StoreIo e)
      | Ok None \<Rightarrow> Ok 0
      | Ok (Some wal) \<Rightarrow>
          let candidate = from_be_bytes (take 4 (drop 8 (file_bytes wal)));
              page_size = (if 12 \<le> length (file_bytes wal) \<and> valid_page_size candidate then candidate else 512)
          in Ok (saturating_sub (file_len wal) 32 div (page_size + 24)))"

definition bootstrap_preflight :: "host \<Rightarrow> (u64 option, StoreError) result" where
  "bootstrap_preflight h =
     and_then (observe h) (\<lambda>observed.
     and_then (refuse_if (co_available_inodes observed < 8) (refusal ''insufficient bootstrap inodes'')) (\<lambda>_.
     and_then (wal_frame_count h) (\<lambda>frame_count.
     and_then (shm_allowance (max frame_count 1)) (\<lambda>shm_bytes.
     and_then (journal_recovery_extent h) (\<lambda>recovery_extent.
     let extent = (case recovery_extent of None \<Rightarrow> 0 | Some e \<Rightarrow> e);
         largest_write = max shm_bytes extent in
     and_then (refuse_if (case co_file_limit_bytes observed of None \<Rightarrow> False
         | Some limit \<Rightarrow> limit < saturating_add largest_write 4096)
       (refusal ''per-file limit cannot cover bootstrap SHM or rollback recovery extent'')) (\<lambda>_.
     and_then (add_u64 shm_bytes extent) (\<lambda>rewritten.
     and_then (add_u64 rewritten FIXED_ALLOWANCE) (\<lambda>required.
     map_ok (\<lambda>_. recovery_extent) (refuse_if (co_available_bytes observed < required)
       (refusal ''filesystem cannot cover bootstrap SHM and rollback rewrite headroom''))))))))))"

text \<open>The envelope that the database holds is the argument \<open>persisted\<close>.\<close>

definition preflight_watermark ::
  "host \<Rightarrow> (OperatingEnvelope, string) result \<Rightarrow> usize \<Rightarrow> (unit, StoreError) result" where
  "preflight_watermark h persisted encoded_bytes =
     and_then (case h_watermark h of
         Err e \<Rightarrow> Err (StoreWatermarkWrite e)
       | Ok None \<Rightarrow> Ok ()
       | Ok (Some f) \<Rightarrow> refuse_if (\<not> file_is_regular f)
           (StoreWatermarkWrite ''validation watermark destination is not a regular file; no replacement temporary allocated'')) (\<lambda>_.
     and_then (bootstrap_preflight h) (\<lambda>_.
     and_then (map_err (\<lambda>e. refusal (''invalid watermark operating envelope: '' @ e)) persisted) (\<lambda>envelope.
     and_then (preflight envelope h) (\<lambda>_.
     and_then (observe h) (\<lambda>observed.
     and_then (refuse_if (2 ^ 64 \<le> encoded_bytes) (refusal ''watermark length overflow'')) (\<lambda>_.
     let encoded = (of_nat encoded_bytes :: u64) in
     and_then (refuse_if (case co_file_limit_bytes observed of None \<Rightarrow> False
         | Some limit \<Rightarrow> encoded > saturating_sub limit 4096)
       (refusal ''encoded watermark exceeds current per-file limit'')) (\<lambda>_.
     and_then (map_err refusal (h_statvfs h)) (\<lambda>fs.
     let fragment = max (sv_fragment_size fs) 4096 in
     and_then (ok_or (refusal ''watermark allocation overflow'')
       (checked_mul (div_ceil encoded fragment) fragment)) (\<lambda>allocation.
     and_then (add_u64 (co_auxiliary_occupied_bytes observed) allocation) (\<lambda>sidecars.
     and_then (add_u64 FIXED_ALLOWANCE (cp_auxiliary_bytes (oe_policy envelope))) (\<lambda>housekeeping.
     and_then (refuse_if (sidecars > housekeeping)
       (refusal ''watermark replacement exceeds housekeeping allowance'')) (\<lambda>_.
     and_then (add_u64 (co_occupied_bytes observed) allocation) (\<lambda>occupied.
     and_then (if occupied > oe_aggregate_bytes envelope then Ok True
       else map_ok (\<lambda>needed. co_available_bytes observed < needed)
         (add_u64 (cp_reserve_bytes (oe_policy envelope)) allocation)) (\<lambda>exceeds.
     refuse_if exceeds
       (refusal ''watermark replacement exceeds aggregate or filesystem reserve'')))))))))))))))"

section \<open>The law of the envelope\<close>

text \<open>
  The arithmetic that \<open>derive\<close> performs on 64-bit words, over the natural numbers and without a
  bound on intermediate results.
\<close>

definition aggregate_law :: "CapacityPolicy \<Rightarrow> CapacityObservation \<Rightarrow> nat" where
  "aggregate_law policy observed =
     (case cp_byte_ceiling policy of
        None \<Rightarrow> unat (co_occupied_bytes observed) +
          (unat (co_available_bytes observed) - unat (cp_reserve_bytes policy)) div 2
      | Some c \<Rightarrow> unat c)"

definition reserve_law :: "CapacityPolicy \<Rightarrow> CapacityObservation \<Rightarrow> bool" where
  "reserve_law policy observed \<longleftrightarrow>
     (cp_reserve_is_automatic policy \<longrightarrow>
        unat (cp_reserve_bytes policy) = max (2 ^ 30) ((unat (co_total_bytes observed) + 4) div 5)) \<and>
     unat (co_available_bytes observed) + unat (co_occupied_bytes observed) < 2 ^ 64 \<and>
     unat (cp_reserve_bytes policy) \<le> unat (co_available_bytes observed) \<and>
     aggregate_law policy observed + unat (cp_reserve_bytes policy) \<le>
       unat (co_available_bytes observed) + unat (co_occupied_bytes observed)"

text \<open>The frames that pad a commit to the largest sector, and the bytes that no page can use.\<close>

definition padding_law :: "u64 \<Rightarrow> nat" where
  "padding_law page_size = (65535 + unat page_size + 23) div (unat page_size + 24)"

definition fixed_law :: "CapacityPolicy \<Rightarrow> u64 \<Rightarrow> nat" where
  "fixed_law policy page_size =
     4194304 + unat (cp_auxiliary_bytes policy) + 33040 + padding_law page_size * (unat page_size + 32) + 32"

definition pages_law :: "CapacityPolicy \<Rightarrow> CapacityObservation \<Rightarrow> u64 \<Rightarrow> nat" where
  "pages_law policy observed page_size =
     (let p = unat page_size;
          by_total = (aggregate_law policy observed - fixed_law policy page_size) div (2 * p + 32)
      in case co_file_limit_bytes observed of
           None \<Rightarrow> min by_total 4294967294
         | Some limit \<Rightarrow>
             let usable = unat limit - max p 4096
             in min (min (min by_total (usable div p))
                  ((usable - (32 + padding_law page_size * (p + 24))) div (p + 24))) 4294967294)"

definition envelope_admissible :: "CapacityPolicy \<Rightarrow> CapacityObservation \<Rightarrow> u64 \<Rightarrow> u64 \<Rightarrow> bool" where
  "envelope_admissible policy observed page_size existing_pages \<longleftrightarrow>
     cp_horizon_seconds policy \<noteq> 0 \<and> valid_page_size page_size \<and> 8 \<le> co_available_inodes observed \<and>
     reserve_law policy observed \<and> fixed_law policy page_size \<le> aggregate_law policy observed \<and>
     (\<forall>limit. co_file_limit_bytes observed = Some limit \<longrightarrow> max (unat page_size) 4096 \<le> unat limit) \<and>
     256 \<le> pages_law policy observed page_size \<and> unat existing_pages \<le> pages_law policy observed page_size"

definition envelope_law :: "CapacityPolicy \<Rightarrow> CapacityObservation \<Rightarrow> u64 \<Rightarrow> OperatingEnvelope \<Rightarrow> bool" where
  "envelope_law policy observed page_size e \<longleftrightarrow>
     oe_schema_version e = 2 \<and> oe_policy e = policy \<and> oe_observed e = observed \<and> oe_page_size e = page_size \<and>
     unat (oe_aggregate_bytes e) = aggregate_law policy observed \<and>
     unat (oe_max_pages e) = pages_law policy observed page_size \<and>
     unat (oe_main_bytes e) = pages_law policy observed page_size * unat page_size \<and>
     unat (oe_wal_bytes e) =
       32 + (pages_law policy observed page_size + padding_law page_size) * (unat page_size + 24)"

lemma obtain_u64:
  assumes "n < 2 ^ 64"
  obtains c :: u64 where "unat c = n"
  using assms by (intro that [of "of_nat n"]) (simp add: unsigned_of_nat take_bit_nat_eq_self)

lemma unat_less_64: "unat (a :: u64) < 2 ^ 64"
proof -
  have "unat a < 2 ^ LENGTH(64)" by (rule unsigned_less)
  then show ?thesis by simp
qed

lemma unat_max: "unat (max a b :: u64) = max (unat a) (unat b)"
  by (simp add: max_def word_le_nat_alt)

lemma unat_min: "unat (min a b :: u64) = min (unat a) (unat b)"
  by (simp add: min_def word_le_nat_alt)

lemma unat_automatic_reserve:
  "unat (automatic_reserve observed) = max (2 ^ 30) ((unat (co_total_bytes observed) + 4) div 5)"
proof -
  define t where "t = co_total_bytes observed"
  have small: "unat t div 5 + 1 < 2 ^ 64"
    using unat_less_64 [of t] by simp
  have parts: "unat (t div 5) = unat t div 5" "unat (t mod 5) = unat t mod 5"
    by (simp_all add: unat_div unat_mod)
  have "unat (t div 5 + (if t mod 5 \<noteq> 0 then 1 else 0)) = unat t div 5 + (if unat t mod 5 \<noteq> 0 then 1 else 0)"
    using small parts by (simp add: unat_word_ariths word_unat_eq_iff)
  also have "\<dots> = (unat t + 4) div 5" by presburger
  finally show ?thesis
    by (simp only: automatic_reserve_def unat_max t_def [symmetric]) simp
qed

lemma resolve_policy_Ok [checks]:
  "resolve_policy horizon limit reserve auxiliary observed = Ok policy \<longleftrightarrow>
     horizon \<noteq> 0 \<and> cp_horizon_seconds policy = horizon \<and> cp_byte_ceiling policy = limit \<and>
     cp_reserve_is_automatic policy = (reserve = None) \<and>
     cp_reserve_bytes policy = (case reserve of None \<Rightarrow> automatic_reserve observed | Some b \<Rightarrow> b) \<and>
     cp_auxiliary_bytes policy = (case auxiliary of None \<Rightarrow> 64 * 1024 * 1024 | Some b \<Rightarrow> b)"
  by (cases policy) (auto simp: resolve_policy_def checks)

lemma automatic_checked:
  "(if cp_reserve_is_automatic policy then
      and_then (resolve_policy (cp_horizon_seconds policy) (cp_byte_ceiling policy) None
          (Some (cp_auxiliary_bytes policy)) observed) (\<lambda>resolved.
      refuse_if (cp_reserve_bytes policy \<noteq> cp_reserve_bytes resolved) e) else Ok ()) = Ok u \<longleftrightarrow>
   (cp_reserve_is_automatic policy \<longrightarrow> cp_horizon_seconds policy \<noteq> 0 \<and>
      unat (cp_reserve_bytes policy) = max (2 ^ 30) ((unat (co_total_bytes observed) + 4) div 5))"
  unfolding unat_automatic_reserve [symmetric] word_unat_eq_iff [symmetric]
  by (cases "cp_horizon_seconds policy = 0") (auto simp: resolve_policy_def)

lemma half_free: "unat ((c :: u64) div 2) = unat c div 2"
  by (simp add: unat_div)

lemma derive_aggregate_sound:
  assumes "derive_aggregate policy observed page_size = Ok a"
  shows "cp_horizon_seconds policy \<noteq> 0 \<and> valid_page_size page_size \<and> 8 \<le> co_available_inodes observed \<and>
     reserve_law policy observed \<and> unat a = aggregate_law policy observed"
proof -
  let ?A = "unat (co_available_bytes observed)" and ?O = "unat (co_occupied_bytes observed)"
    and ?R = "unat (cp_reserve_bytes policy)"
    and ?a = "\<lambda>automatic. case cp_byte_ceiling policy of None \<Rightarrow> automatic | Some c \<Rightarrow> c"
  from assms obtain total capacity free automatic :: u64 where
    checks: "cp_horizon_seconds policy \<noteq> 0" "valid_page_size page_size" "8 \<le> co_available_inodes observed"
      "cp_reserve_is_automatic policy \<longrightarrow> ?R = max (2 ^ 30) ((unat (co_total_bytes observed) + 4) div 5)"
    and sums: "unat total = ?A + ?O" "unat capacity = unat total - ?R" "?R \<le> ?A" "unat free = ?A - ?R"
      "unat automatic = ?O + unat free div 2"
    and a: "a = ?a automatic" "unat a \<le> unat capacity"
    unfolding derive_aggregate_def and_then_Ok automatic_checked Let_def map_ok_Ok refuse_if_Ok add_u64_Ok
      ok_or_Ok checked_sub_Some half_free valid_page_size_def not_less word_le_nat_alt de_Morgan_disj not_not
    by blast
  have "unat a = aggregate_law policy observed"
    using a(1) sums(4,5) by (auto simp: aggregate_law_def split: option.splits)
  moreover have "aggregate_law policy observed + unat (cp_reserve_bytes policy) \<le>
      unat (co_available_bytes observed) + unat (co_occupied_bytes observed)"
    using a(2) sums calculation by linarith
  ultimately show ?thesis
    using checks sums unat_less_64 [of total] by (simp add: reserve_law_def)
qed


lemma derive_aggregate_complete:
  assumes "cp_horizon_seconds policy \<noteq> 0" "valid_page_size page_size" "8 \<le> co_available_inodes observed"
    and law: "reserve_law policy observed"
  shows "\<exists>a. derive_aggregate policy observed page_size = Ok a"
proof -
  let ?A = "unat (co_available_bytes observed)" and ?O = "unat (co_occupied_bytes observed)"
    and ?R = "unat (cp_reserve_bytes policy)"
  from law have sums: "?A + ?O < 2 ^ 64" "?R \<le> ?A" "aggregate_law policy observed + ?R \<le> ?A + ?O"
    by (simp_all add: reserve_law_def)
  obtain total :: u64 where total: "unat total = ?A + ?O"
    using sums(1) by (rule obtain_u64)
  have small: "unat total - ?R < 2 ^ 64" "?A - ?R < 2 ^ 64" "?O + (?A - ?R) div 2 < 2 ^ 64"
    using sums total unat_less_64 [of total] by simp_all
  obtain capacity :: u64 where capacity: "unat capacity = unat total - ?R"
    using small(1) by (rule obtain_u64)
  obtain free :: u64 where free: "unat free = ?A - ?R"
    using small(2) by (rule obtain_u64)
  obtain automatic :: u64 where automatic: "unat automatic = ?O + (?A - ?R) div 2"
    using small(3) by (rule obtain_u64)
  have "add_u64 (co_available_bytes observed) (co_occupied_bytes observed) = Ok total"
    "add_u64 (co_occupied_bytes observed) (free div 2) = Ok automatic"
    "checked_sub total (cp_reserve_bytes policy) = Some capacity"
    "checked_sub (co_available_bytes observed) (cp_reserve_bytes policy) = Some free"
    using total capacity free automatic sums(2) by (simp_all add: add_u64_Ok checked_sub_Some half_free)
  moreover have "unat (case cp_byte_ceiling policy of None \<Rightarrow> automatic | Some c \<Rightarrow> c) = aggregate_law policy observed"
    using automatic by (simp add: aggregate_law_def split: option.splits)
  then have "\<not> (case cp_byte_ceiling policy of None \<Rightarrow> automatic | Some c \<Rightarrow> c) > capacity"
    using sums capacity total by (simp add: word_less_nat_alt)
  moreover have "(if cp_reserve_is_automatic policy then
      and_then (resolve_policy (cp_horizon_seconds policy) (cp_byte_ceiling policy) None
          (Some (cp_auxiliary_bytes policy)) observed) (\<lambda>resolved.
      refuse_if (cp_reserve_bytes policy \<noteq> cp_reserve_bytes resolved)
        (refusal ''automatic reserve differs from admission observation'')) else Ok ()) = Ok ()"
    unfolding automatic_checked using assms(1) law by (simp add: reserve_law_def)
  ultimately show ?thesis
    using assms(1-3) unfolding derive_aggregate_def valid_page_size_def by (simp add: Let_def not_less refuse_if_def)
qed

lemmas derive_aggregate_Ok = derive_aggregate_sound derive_aggregate_complete

section \<open>Pages\<close>

lemma valid_page_size_bounds:
  "valid_page_size p \<Longrightarrow> 512 \<le> unat p \<and> unat p \<le> 65536"
  by (simp add: valid_page_size_def word_le_nat_alt)

lemma padding_bounds:
  assumes "valid_page_size p"
  shows "1 \<le> padding_law p" "padding_law p \<le> 123" "padding_law p * (unat p + 24) \<le> 131094"
proof -
  let ?f = "unat p + 24"
  from valid_page_size_bounds [OF assms] have f: "536 \<le> ?f" "?f \<le> 65560" by simp_all
  have law: "padding_law p = (65534 + ?f) div ?f" by (simp add: padding_law_def)
  have "padding_law p = 65534 div ?f + 1"
    unfolding law by (rule div_add_self2) simp
  moreover have "65534 div ?f \<le> 65534 div 536"
    using f by (intro div_le_mono2) simp_all
  moreover have "65534 div ?f * ?f \<le> 65534" by simp
  ultimately show "1 \<le> padding_law p" "padding_law p \<le> 123" "padding_law p * ?f \<le> 131094"
    using f by (simp_all add: algebra_simps)
qed

lemma div_ceil_nat: "0 < f \<Longrightarrow> n div f + (if n mod f = 0 then 0 else 1) = (n + (f - 1)) div (f :: nat)"
proof -
  assume f: "0 < f"
  have "n + (f - 1) = f * (n div f) + (n mod f + (f - 1))" by simp
  then have "(n + (f - 1)) div f = n div f + (n mod f + (f - 1)) div f"
    using f by (metis div_mult_self4 neq0_conv)
  moreover have "(n mod f + (f - 1)) div f = (if n mod f = 0 then 0 else 1)"
  proof (cases "n mod f = 0")
    case False
    then have "n mod f + (f - 1) = f + (n mod f - 1)" using f by simp
    moreover have "n mod f - 1 < f" using f mod_less_divisor [of f n] by linarith
    ultimately show ?thesis using f False by (simp only: div_add_self1 div_less) simp
  qed (use f in simp)
  ultimately show ?thesis by simp
qed

lemma padding_words:
  assumes "valid_page_size p" and "unat f = unat p + 24"
  shows "unat (div_ceil (MAX_SQLITE_SECTOR_BYTES - 1) f) = padding_law p"
proof -
  from valid_page_size_bounds [OF assms(1)] assms(2) have f: "536 \<le> unat f" "unat f \<le> 65560" by simp_all
  have top: "unat (MAX_SQLITE_SECTOR_BYTES - 1) = 65535"
    by (simp add: MAX_SQLITE_SECTOR_BYTES_def)
  have "unat ((MAX_SQLITE_SECTOR_BYTES - 1) div f) = 65535 div unat f"
    "unat ((MAX_SQLITE_SECTOR_BYTES - 1) mod f) = 65535 mod unat f"
    by (simp_all add: unat_div unat_mod top)
  moreover have "Suc (65535 div unat f) < 18446744073709551616"
    using div_le_dividend [of 65535 "unat f"] by linarith
  ultimately have "unat (div_ceil (MAX_SQLITE_SECTOR_BYTES - 1) f) =
      65535 div unat f + (if 65535 mod unat f = 0 then 0 else 1)"
    unfolding div_ceil_def by (auto simp: unat_word_ariths word_unat_eq_iff)
  also have "\<dots> = (65535 + (unat f - 1)) div unat f"
    using f(1) by (rule div_ceil_nat [OF less_le_trans, rotated]) simp
  finally show ?thesis using assms(2) by (simp add: padding_law_def)
qed


text \<open>What \<open>derive\<close> has computed before it looks for the page ceiling.\<close>

definition page_setup :: "u64 \<Rightarrow> u64 \<Rightarrow> u64 \<Rightarrow> u64 \<Rightarrow> bool" where
  "page_setup page_size frame_bytes padding_frames padding_bytes \<longleftrightarrow>
     valid_page_size page_size \<and> unat frame_bytes = unat page_size + 24 \<and>
     unat padding_frames = padding_law page_size \<and>
     unat padding_bytes = padding_law page_size * (unat page_size + 24)"

lemma derive_setup:
  assumes "valid_page_size page_size"
  obtains frame padding where "add_u64 page_size 24 = Ok frame"
    "checked_mul (div_ceil (MAX_SQLITE_SECTOR_BYTES - 1) frame) frame = Some padding"
    "page_setup page_size frame (div_ceil (MAX_SQLITE_SECTOR_BYTES - 1) frame) padding"
proof -
  from valid_page_size_bounds [OF assms] have "unat page_size + 24 < 2 ^ 64" by simp
  then obtain frame :: u64 where frame: "unat frame = unat page_size + 24" by (rule obtain_u64)
  from padding_bounds(3) [OF assms] have "padding_law page_size * (unat page_size + 24) < 2 ^ 64" by simp
  then obtain padding :: u64 where "unat padding = padding_law page_size * (unat page_size + 24)"
    by (rule obtain_u64)
  with frame padding_words [OF assms frame] assms show thesis
    by (intro that [of frame padding]) (simp_all add: add_u64_Ok checked_mul_Some page_setup_def)
qed

lemma padding_times_8:
  assumes "page_setup p f k b"
  shows "unat (k * 8) = unat k * 8"
proof -
  from assms padding_bounds(2) [of p] have "unat k * 8 < 18446744073709551616"
    by (simp add: page_setup_def)
  then show ?thesis by (simp add: unat_word_ariths)
qed

lemma index_constant:
  "unat (SHM_REGION_BYTES + (SHM_FRAMES_PER_REGION - SHM_FIRST_REGION_FRAMES) * 8) = 33040"
  by (simp add: capacity_constants)

lemma unat_fixed_allowance: "unat FIXED_ALLOWANCE = 4194304"
  by (simp add: FIXED_ALLOWANCE_def)

lemma fixed_sum:
  assumes "page_setup p f k b"
  shows "fixed_law policy p = unat FIXED_ALLOWANCE + unat (cp_auxiliary_bytes policy) +
    (33040 + (unat b + unat (k * 8))) + 32"
  using assms padding_times_8 [OF assms]
  by (simp add: fixed_law_def page_setup_def unat_fixed_allowance algebra_simps)

definition limit_ok :: "CapacityObservation \<Rightarrow> u64 \<Rightarrow> bool" where
  "limit_ok observed page_size \<longleftrightarrow>
     (\<forall>limit. co_file_limit_bytes observed = Some limit \<longrightarrow> max (unat page_size) 4096 \<le> unat limit)"

lemma page_words:
  assumes "page_setup p f k b"
  shows "unat (u div f) = unat u div (unat p + 24)"
    "unat (u div p) = unat u div unat p"
    "unat pair = unat p * unat (2 :: u64) \<Longrightarrow> unat per = unat pair + unat (32 :: u64) \<Longrightarrow>
       unat (u div per) = unat u div (2 * unat p + 32)"
    "unat (max p 4096) = max (unat p) 4096"
    "unat w = unat (32 :: u64) + unat b \<Longrightarrow>
       unat (saturating_sub u w) = unat u - (32 + padding_law p * (unat p + 24))"
  using assms
  by (simp_all add: page_setup_def unat_div unat_max unat_saturating_sub mult.commute)

lemma derive_pages_sound:
  assumes words: "page_setup p f k b" and a: "unat a = aggregate_law policy observed"
    and pages: "derive_pages policy observed p a f k b = Ok m"
  shows "fixed_law policy p \<le> aggregate_law policy observed \<and> limit_ok observed p \<and>
    unat m = pages_law policy observed p"
proof -
  from pages obtain housekeeping padding index overhead fixed usable pair per top :: u64 where
    sums: "unat housekeeping = unat FIXED_ALLOWANCE + unat (cp_auxiliary_bytes policy)"
      "unat padding = unat b + unat (k * 8)"
      "unat index = 33040 + unat padding" "unat overhead = unat housekeeping + unat index"
      "unat fixed = unat overhead + unat (32 :: u64)" "unat fixed \<le> unat a" "unat usable = unat a - unat fixed"
      "unat pair = unat p * unat (2 :: u64)" "unat per = unat pair + unat (32 :: u64)"
    and top: "(case co_file_limit_bytes observed of
         None \<Rightarrow> Ok (usable div per)
       | Some limit \<Rightarrow>
           and_then (ok_or (refusal ''per-file limit below required margin'')
             (checked_sub limit (max p 4096))) (\<lambda>usable_file.
           and_then (add_u64 32 b) (\<lambda>wal_fixed.
           Ok (min (min (usable div per) (usable_file div p))
             (saturating_sub usable_file wal_fixed div f))))) = Ok top"
    and m: "m = min top 4294967294"
    unfolding derive_pages_def and_then_Ok add_u64_Ok ok_or_Ok checked_sub_Some checked_mul_Some index_constant
      result.inject by blast
  have fixed: "unat fixed = fixed_law policy p"
    using sums fixed_sum [OF words, of policy] by simp
  have by_total: "unat (usable div per) =
      (aggregate_law policy observed - fixed_law policy p) div (2 * unat p + 32)"
    using page_words(3) [OF words sums(8,9)] sums(7) a fixed by simp
  have m_nat: "unat m = min (unat top) 4294967294"
    by (simp add: m unat_min)
  show ?thesis
  proof (cases "co_file_limit_bytes observed")
    case None
    with top by_total m_nat sums(6) a fixed show ?thesis
      by (auto simp: pages_law_def limit_ok_def Let_def)
  next
    case (Some limit)
    with top obtain usable_file wal_fixed :: u64 where
      within: "max (unat p) 4096 \<le> unat limit" "unat usable_file = unat limit - max (unat p) 4096"
        "unat wal_fixed = unat (32 :: u64) + unat b"
      and t: "top = min (min (usable div per) (usable_file div p)) (saturating_sub usable_file wal_fixed div f)"
      unfolding Some option.case and_then_Ok add_u64_Ok ok_or_Ok checked_sub_Some page_words(4) [OF words]
        result.inject by blast
    have "unat top = min (min (unat (usable div per)) (unat usable_file div unat p))
        ((unat usable_file - (32 + padding_law p * (unat p + 24))) div (unat p + 24))"
      unfolding t unat_min page_words(1) [OF words] page_words(2) [OF words] page_words(5) [OF words within(3)] ..
    then have "unat m = pages_law policy observed p"
      unfolding m_nat by_total within(2) by (simp only: pages_law_def Let_def Some option.case)
    moreover have "limit_ok observed p"
      using within(1) Some by (simp only: limit_ok_def option.inject) blast
    moreover have "fixed_law policy p \<le> aggregate_law policy observed"
      using sums(6) a fixed by simp
    ultimately show ?thesis by blast
  qed
qed


lemma obtain_below:
  assumes "n \<le> unat (a :: u64)"
  obtains c :: u64 where "unat c = n"
  using le_less_trans [OF assms unat_less_64] by (rule obtain_u64)

lemma derive_pages_complete:
  assumes words: "page_setup p f k b" and a: "unat a = aggregate_law policy observed"
    and fixed: "fixed_law policy p \<le> aggregate_law policy observed" and limit: "limit_ok observed p"
  shows "\<exists>m. derive_pages policy observed p a f k b = Ok m"
proof -
  let ?h = "unat FIXED_ALLOWANCE + unat (cp_auxiliary_bytes policy)" and ?d = "unat b + unat (k * 8)"
  have le: "?h + (33040 + ?d) + 32 \<le> unat a"
    using fixed a fixed_sum [OF words, of policy] by simp
  then have parts: "?h \<le> unat a" "?d \<le> unat a" "33040 + ?d \<le> unat a" "?h + (33040 + ?d) \<le> unat a"
    "32 + unat b \<le> unat a"
    by linarith+
  obtain housekeeping :: u64 where housekeeping: "unat housekeeping = ?h"
    using parts(1) by (rule obtain_below)
  obtain padding :: u64 where padding: "unat padding = ?d"
    using parts(2) by (rule obtain_below)
  obtain index :: u64 where index: "unat index = 33040 + ?d"
    using parts(3) by (rule obtain_below)
  obtain overhead :: u64 where overhead: "unat overhead = ?h + (33040 + ?d)"
    using parts(4) by (rule obtain_below)
  obtain all :: u64 where all: "unat all = ?h + (33040 + ?d) + 32"
    using le by (rule obtain_below)
  obtain usable :: u64 where usable: "unat usable = unat a - unat all"
    using diff_le_self by (rule obtain_below)
  from words have p: "unat p \<le> 65536" using valid_page_size_bounds by (simp add: page_setup_def)
  have "unat p * 2 < 2 ^ 64" "unat p * 2 + 32 < 2 ^ 64" using p by simp_all
  then obtain pair per :: u64 where pair: "unat pair = unat p * 2" and per: "unat per = unat p * 2 + 32"
    using obtain_u64 by metis
  have "add_u64 FIXED_ALLOWANCE (cp_auxiliary_bytes policy) = Ok housekeeping"
    "add_u64 b (k * 8) = Ok padding"
    "add_u64 (SHM_REGION_BYTES + (SHM_FRAMES_PER_REGION - SHM_FIRST_REGION_FRAMES) * 8) padding = Ok index"
    "add_u64 housekeeping index = Ok overhead" "add_u64 overhead 32 = Ok all"
    "checked_sub a all = Some usable" "checked_mul p 2 = Some pair" "add_u64 pair 32 = Ok per"
    unfolding add_u64_Ok checked_sub_Some checked_mul_Some index_constant
    using le by (simp_all add: housekeeping padding index overhead all usable pair per)
  moreover have "\<exists>top. (case co_file_limit_bytes observed of
         None \<Rightarrow> Ok (usable div per)
       | Some limit \<Rightarrow>
           and_then (ok_or (refusal ''per-file limit below required margin'')
             (checked_sub limit (max p 4096))) (\<lambda>usable_file.
           and_then (add_u64 32 b) (\<lambda>wal_fixed.
           Ok (min (min (usable div per) (usable_file div p))
             (saturating_sub usable_file wal_fixed div f))))) = Ok top"
  proof (cases "co_file_limit_bytes observed")
    case (Some bound)
    with limit have margin: "unat (max p 4096) \<le> unat bound"
      unfolding limit_ok_def page_words(4) [OF words] by blast
    obtain usable_file :: u64 where "unat usable_file = unat bound - unat (max p 4096)"
      using diff_le_self by (rule obtain_below)
    moreover obtain wal_fixed :: u64 where "unat wal_fixed = 32 + unat b"
      using parts(5) by (rule obtain_below)
    ultimately have "checked_sub bound (max p 4096) = Some usable_file" "add_u64 32 b = Ok wal_fixed"
      using margin by (simp_all add: checked_sub_Some add_u64_Ok)
    then show ?thesis by (simp add: Some)
  qed simp
  ultimately show ?thesis unfolding derive_pages_def by auto
qed

section \<open>The derived envelope\<close>

lemma regions_bound: "n div 4096 * 32768 \<le> n * (8 :: nat)"
proof -
  have "n div 4096 * 4096 \<le> n" by simp
  then show ?thesis by linarith
qed

lemma shm_allowance_Ok:
  assumes "unat n < 2 ^ 40"
  shows "\<exists>s. shm_allowance n = Ok s \<and> unat s = (unat n + 4129) div 4096 * 32768"
proof -
  have small: "unat n + 34 < 2 ^ 64" "unat n + 4129 < 2 ^ 64" "(unat n + 4129) div 4096 * 32768 < 2 ^ 64"
    using assms regions_bound [of "unat n + 4129"] by simp_all
  obtain indexed :: u64 where indexed: "unat indexed = unat n + 34" using small(1) by (rule obtain_u64)
  obtain rounded :: u64 where rounded: "unat rounded = unat n + 4129" using small(2) by (rule obtain_u64)
  obtain s :: u64 where s: "unat s = (unat n + 4129) div 4096 * 32768" using small(3) by (rule obtain_u64)
  have "add_u64 n (SHM_FRAMES_PER_REGION - SHM_FIRST_REGION_FRAMES) = Ok indexed"
    "add_u64 indexed (SHM_FRAMES_PER_REGION - 1) = Ok rounded"
    "checked_mul (rounded div SHM_FRAMES_PER_REGION) SHM_REGION_BYTES = Some s"
    by (simp_all add: add_u64_Ok checked_mul_Some indexed rounded s unat_div capacity_constants)
  then show ?thesis using s by (simp add: shm_allowance_def)
qed

text \<open>
  The two files, the index and the housekeeping fit the aggregate ceiling for every page count that
  \<open>derive\<close> can choose, so its last comparison never refuses.
\<close>

lemma envelope_fits:
  assumes "fixed_law policy p \<le> agg" and "m \<le> (agg - fixed_law policy p) div (2 * unat p + 32)"
  shows "m * unat p + (32 + (m + padding_law p) * (unat p + 24)) +
      (m + padding_law p + 4129) div 4096 * 32768 + (4194304 + unat (cp_auxiliary_bytes policy)) \<le> agg"
proof -
  have "m * (2 * unat p + 32) \<le> agg - fixed_law policy p"
    using assms(2) by (metis mult.commute mult_le_mono1 order_trans times_div_less_eq_dividend)
  moreover note regions_bound [of "m + padding_law p + 4129"]
  ultimately show ?thesis
    using assms(1) by (simp add: fixed_law_def algebra_simps)
qed


lemma pages_law_bounds:
  "pages_law policy observed p \<le> (aggregate_law policy observed - fixed_law policy p) div (2 * unat p + 32)"
  "pages_law policy observed p \<le> 4294967294"
  "co_file_limit_bytes observed = Some limit \<Longrightarrow>
     pages_law policy observed p \<le> (unat limit - max (unat p) 4096) div unat p \<and>
     pages_law policy observed p \<le>
       (unat limit - max (unat p) 4096 - (32 + padding_law p * (unat p + 24))) div (unat p + 24)"
  by (simp_all add: pages_law_def Let_def min_le_iff_disj del: min_less_iff_conj split: option.split)

lemma envelope_law_unique:
  "envelope_law policy observed p e \<Longrightarrow> envelope_law policy observed p e' \<Longrightarrow> e = e'"
  by (cases e; cases e') (simp add: envelope_law_def word_unat_eq_iff)

lemma derive_sound:
  assumes "derive policy observed p existing = Ok e"
  shows "envelope_admissible policy observed p existing \<and> envelope_law policy observed p e"
proof -
  from assms obtain a where a: "derive_aggregate policy observed p = Ok a"
    by (auto simp: derive_def and_then_Ok)
  note agg = derive_aggregate_sound [OF a]
  from agg obtain f b where words: "add_u64 p 24 = Ok f"
    "checked_mul (div_ceil (MAX_SQLITE_SECTOR_BYTES - 1) f) f = Some b"
    "page_setup p f (div_ceil (MAX_SQLITE_SECTOR_BYTES - 1) f) b"
    using derive_setup by blast
  let ?k = "div_ceil (MAX_SQLITE_SECTOR_BYTES - 1) f"
  from assms obtain m main frames bytes wal :: u64 where
    m: "derive_pages policy observed p a f ?k b = Ok m" "\<not> (m < MIN_PAGES \<or> existing > m)"
    and sums: "unat main = unat m * unat p" "unat frames = unat m + unat ?k" "unat bytes = unat frames * unat f"
      "unat wal = unat (32 :: u64) + unat bytes"
    and e: "e = \<lparr> oe_schema_version = 2, oe_policy = policy, oe_observed = observed,
          oe_aggregate_bytes = a, oe_page_size = p, oe_max_pages = m, oe_main_bytes = main, oe_wal_bytes = wal \<rparr>"
    unfolding derive_def a words(1) and_then_simps Let_def words(2) ok_or_simps
    unfolding and_then_Ok add_u64_Ok ok_or_Ok checked_mul_Some refuse_if_Ok result.inject by blast
  have pages: "fixed_law policy p \<le> aggregate_law policy observed \<and> limit_ok observed p \<and>
      unat m = pages_law policy observed p"
    using derive_pages_sound [OF words(3) _ m(1)] agg by blast
  have "envelope_admissible policy observed p existing"
    using agg pages m(2) unfolding envelope_admissible_def limit_ok_def
    by (simp add: word_less_nat_alt MIN_PAGES_def not_less)
  moreover have "envelope_law policy observed p e"
    using agg pages sums words(3) by (simp add: e envelope_law_def page_setup_def)
  ultimately show ?thesis ..
qed

lemma derive_complete:
  assumes "envelope_admissible policy observed p existing"
  shows "\<exists>e. derive policy observed p existing = Ok e"
proof -
  have p: "valid_page_size p" and fits: "fixed_law policy p \<le> aggregate_law policy observed"
    "limit_ok observed p" and range: "256 \<le> pages_law policy observed p" "unat existing \<le> pages_law policy observed p"
    using assms by (auto simp: envelope_admissible_def limit_ok_def)
  obtain a where a: "derive_aggregate policy observed p = Ok a"
    using derive_aggregate_complete assms unfolding envelope_admissible_def by blast
  have agg: "unat a = aggregate_law policy observed" using derive_aggregate_sound [OF a] by blast
  from derive_setup [OF p] obtain f b where words: "add_u64 p 24 = Ok f"
    "checked_mul (div_ceil (MAX_SQLITE_SECTOR_BYTES - 1) f) f = Some b"
    "page_setup p f (div_ceil (MAX_SQLITE_SECTOR_BYTES - 1) f) b" .
  let ?k = "div_ceil (MAX_SQLITE_SECTOR_BYTES - 1) f"
  obtain m where m: "derive_pages policy observed p a f ?k b = Ok m"
    using derive_pages_complete [OF words(3) agg fits] by blast
  have pages: "unat m = pages_law policy observed p"
    using derive_pages_sound [OF words(3) agg m] by blast
  let ?h = "4194304 + unat (cp_auxiliary_bytes policy)" and ?w = "(unat m + unat ?k) * unat f"
    and ?s = "(unat m + unat ?k + 4129) div 4096 * 32768"
  have total: "unat m * unat p + (32 + ?w) + ?s + ?h \<le> unat a"
    using envelope_fits [OF fits(1) pages_law_bounds(1)] words(3) unfolding pages agg page_setup_def by simp
  then have parts: "unat m * unat p \<le> unat a" "?w \<le> unat a" "32 + ?w \<le> unat a" "?h \<le> unat a"
    "unat m * unat p + (32 + ?w) \<le> unat a" "unat m * unat p + (32 + ?w) + ?s \<le> unat a"
    by linarith+
  obtain main :: u64 where main: "unat main = unat m * unat p" using parts(1) by (rule obtain_below)
  obtain bytes :: u64 where bytes: "unat bytes = ?w" using parts(2) by (rule obtain_below)
  obtain wal :: u64 where wal: "unat wal = 32 + ?w" using parts(3) by (rule obtain_below)
  obtain house :: u64 where house: "unat house = ?h" using parts(4) by (rule obtain_below)
  obtain both :: u64 where both: "unat both = unat m * unat p + (32 + ?w)" using parts(5) by (rule obtain_below)
  obtain three :: u64 where three: "unat three = unat m * unat p + (32 + ?w) + ?s" using parts(6) by (rule obtain_below)
  obtain whole :: u64 where whole: "unat whole = unat m * unat p + (32 + ?w) + ?s + ?h" using total by (rule obtain_below)
  have frame_count: "unat m + unat ?k < 2 ^ 40"
    using pages_law_bounds(2) [of policy observed p] pages padding_bounds(2) [OF p] words(3)
    by (simp add: page_setup_def)
  then have "unat m + unat ?k < 2 ^ 64" by simp
  then obtain frames :: u64 where frames: "unat frames = unat m + unat ?k" by (rule obtain_u64)
  obtain shm where shm: "shm_allowance frames = Ok shm" "unat shm = ?s"
    using shm_allowance_Ok [of frames] frame_count frames by auto
  have "checked_mul m p = Some main" "add_u64 m ?k = Ok frames" "checked_mul frames f = Some bytes"
    "add_u64 32 bytes = Ok wal" "add_u64 main wal = Ok both" "add_u64 both shm = Ok three"
    "add_u64 FIXED_ALLOWANCE (cp_auxiliary_bytes policy) = Ok house" "add_u64 three house = Ok whole"
    unfolding add_u64_Ok checked_mul_Some unat_fixed_allowance
    by (simp_all add: main frames bytes wal both three house whole shm(2))
  moreover have "\<not> (m < MIN_PAGES \<or> existing > m)" "\<not> whole > a"
    using range pages total whole by (simp_all add: MIN_PAGES_def word_less_nat_alt)
  ultimately show ?thesis
    unfolding derive_def a words(1) and_then_simps Let_def words(2) ok_or_simps m
    by (simp add: shm(1) refuse_if_def)
qed



section \<open>The check before a write\<close>

lemma add_u64_unat: "add_u64 a b = Ok c \<Longrightarrow> unat c = unat a + unat b"
  by (simp add: add_u64_Ok)

text \<open>The frames that the write-ahead log of a derived envelope can hold, and the index for them.\<close>

lemma derived_frames:
  assumes "envelope_admissible policy observed p existing" and law: "envelope_law policy observed p e"
  shows "\<exists>n s. wal_frame_ceiling e = Ok n \<and> shm_allowance n = Ok s \<and>
    unat s = (unat (oe_max_pages e) + padding_law p + 4129) div 4096 * 32768"
proof -
  have p: "valid_page_size p" using assms(1) by (simp add: envelope_admissible_def)
  then have "unat p + 24 < 2 ^ 64" using valid_page_size_bounds by fastforce
  then obtain f :: u64 where f: "unat f = unat p + 24" by (rule obtain_u64)
  have page: "add_u64 (oe_page_size e) 24 = Ok f"
    using law f by (simp add: add_u64_Ok envelope_law_def)
  have "unat (oe_wal_bytes e - 32) = unat (oe_wal_bytes e) - 32"
    using law by (subst unat_sub) (simp_all add: word_le_nat_alt envelope_law_def)
  then have frames: "unat ((oe_wal_bytes e - 32) div f) = unat (oe_max_pages e) + padding_law p"
    using law f by (simp add: unat_div envelope_law_def)
  have "unat ((oe_wal_bytes e - 32) div f) < 2 ^ 40"
    unfolding frames using law pages_law_bounds(2) [of policy observed p] padding_bounds(2) [OF p]
    by (simp add: envelope_law_def)
  from shm_allowance_Ok [OF this] page show ?thesis
    unfolding frames wal_frame_ceiling_def by auto
qed

lemma derived_fits:
  assumes "envelope_admissible policy observed p existing" and "envelope_law policy observed p e"
  shows "unat (oe_main_bytes e) + unat (oe_wal_bytes e) +
      (unat (oe_max_pages e) + padding_law p + 4129) div 4096 * 32768 +
      (4194304 + unat (cp_auxiliary_bytes policy)) \<le> unat (oe_aggregate_bytes e)"
  using envelope_fits [OF _ pages_law_bounds(1)] assms
  by (auto simp: envelope_admissible_def envelope_law_def)

lemma unat_saturating_add: "unat (saturating_add a b) = min (unat a + unat b) (2 ^ 64 - 1)"
proof (cases "unat a + unat b < 2 ^ 64")
  case True
  then obtain c :: u64 where "unat c = unat a + unat b" by (rule obtain_u64)
  with True show ?thesis
    by (simp add: saturating_add_def checked_add_Some [THEN iffD2])
next
  case False
  then have "checked_add a b = None" by (simp add: checked_add_def)
  with False show ?thesis
    by (simp add: saturating_add_def unsigned_minus_1_eq_mask mask_eq_exp_minus_1)
qed

lemma preflight_Ok:
  assumes "preflight e h = Ok ()" and "observe h = Ok current"
  obtains n s where "derive (oe_policy e) (oe_observed e) (oe_page_size e) 0 = Ok e"
    and "wal_frame_ceiling e = Ok n" "shm_allowance n = Ok s"
    and "unat (co_occupied_bytes current) \<le> unat (oe_aggregate_bytes e)"
    and "unat (cp_reserve_bytes (oe_policy e)) +
      (unat (oe_aggregate_bytes e) - unat (co_occupied_bytes current)) \<le> unat (co_available_bytes current)"
    and "\<And>limit. co_file_limit_bytes current = Some limit \<Longrightarrow>
      \<not> limit < saturating_add (max (max (oe_main_bytes e) (oe_wal_bytes e)) s) (max (oe_page_size e) 4096)"
proof -
  from assms(1) obtain remaining needed n s where
    "derive (oe_policy e) (oe_observed e) (oe_page_size e) 0 = Ok e"
    "wal_frame_ceiling e = Ok n" "shm_allowance n = Ok s"
    "checked_sub (oe_aggregate_bytes e) (co_occupied_bytes current) = Some remaining"
    "add_u64 (cp_reserve_bytes (oe_policy e)) remaining = Ok needed" "\<not> co_available_bytes current < needed"
    "\<not> (case co_file_limit_bytes current of None \<Rightarrow> False
      | Some limit \<Rightarrow> limit < saturating_add (max (max (oe_main_bytes e) (oe_wal_bytes e)) s)
          (max (oe_page_size e) 4096))"
    unfolding preflight_def assms(2) and_then_simps and_then_Ok refuse_if_Ok ok_or_Ok not_not by blast
  then show thesis
    by (intro that [of n s]) (auto simp: checked_sub_Some add_u64_Ok word_less_nat_alt)
qed

text \<open>
  C23. When the check before a write passes, the write can use the whole envelope. However the
  database file, its log, its index and the sidecars grow within their bounds, together they stay
  below the aggregate ceiling, at least the reserve stays free on the filesystem, and no file
  passes the current per-file limit.
\<close>

theorem preflight_protects_reserve:
  assumes "preflight e h = Ok ()" and "observe h = Ok current"
    and "wal_frame_ceiling e = Ok n" and "shm_allowance n = Ok s"
    and "main \<le> unat (oe_main_bytes e)" and "wal \<le> unat (oe_wal_bytes e)" and "shm \<le> unat s"
    and "sidecars \<le> unat FIXED_ALLOWANCE + unat (cp_auxiliary_bytes (oe_policy e))"
  shows "main + wal + shm + sidecars \<le> unat (oe_aggregate_bytes e) \<and>
     main + wal + shm + sidecars + unat (cp_reserve_bytes (oe_policy e)) \<le>
       unat (co_available_bytes current) + unat (co_occupied_bytes current) \<and>
     (\<forall>limit. co_file_limit_bytes current = Some limit \<longrightarrow>
        main \<le> unat limit \<and> wal \<le> unat limit \<and> shm \<le> unat limit)"
proof -
  from preflight_Ok [OF assms(1,2)] obtain n' s' where
    derived: "derive (oe_policy e) (oe_observed e) (oe_page_size e) 0 = Ok e"
    and frames: "wal_frame_ceiling e = Ok n'" "shm_allowance n' = Ok s'"
    and room: "unat (co_occupied_bytes current) \<le> unat (oe_aggregate_bytes e)"
      "unat (cp_reserve_bytes (oe_policy e)) +
        (unat (oe_aggregate_bytes e) - unat (co_occupied_bytes current)) \<le> unat (co_available_bytes current)"
    and limit: "\<And>limit. co_file_limit_bytes current = Some limit \<Longrightarrow>
      \<not> limit < saturating_add (max (max (oe_main_bytes e) (oe_wal_bytes e)) s') (max (oe_page_size e) 4096)"
    by blast
  from frames assms(3,4) have same: "s' = s" by simp
  note law = derive_sound [OF derived]
  from derived_frames [OF conjunct1 [OF law] conjunct2 [OF law]] assms(3,4)
  have "unat s = (unat (oe_max_pages e) + padding_law (oe_page_size e) + 4129) div 4096 * 32768" by simp
  with derived_fits [OF conjunct1 [OF law] conjunct2 [OF law]] assms(5-8)
  have total: "main + wal + shm + sidecars \<le> unat (oe_aggregate_bytes e)"
    by (simp add: unat_fixed_allowance)
  have "main \<le> unat bound \<and> wal \<le> unat bound \<and> shm \<le> unat bound"
    if "co_file_limit_bytes current = Some bound" for bound
  proof -
    from limit [OF that] have "unat (max (max (oe_main_bytes e) (oe_wal_bytes e)) s) \<le> unat bound"
      using unat_less_64 [of "max (max (oe_main_bytes e) (oe_wal_bytes e)) s"]
      unfolding same word_less_nat_alt unat_saturating_add by linarith
    with assms(5-7) show ?thesis by (simp add: unat_max)
  qed
  with total room show ?thesis by auto
qed


text \<open>The index is never larger than the log that it indexes.\<close>

lemma index_below_log:
  assumes "256 \<le> m" and "512 \<le> p"
  shows "(m + k + 4129) div 4096 * 32768 \<le> 32 + (m + k) * (p + (24 :: nat))"
proof -
  note regions_bound [of "m + k + 4129"]
  also have "(m + k + 4129) * 8 \<le> 32 + (m + k) * 536" using assms(1) by simp
  also have "\<dots> \<le> 32 + (m + k) * (p + 24)" using assms(2) by (intro add_left_mono mult_le_mono2) simp
  finally show ?thesis .
qed

lemma derived_limit:
  assumes "envelope_admissible policy observed p existing" and law: "envelope_law policy observed p e"
    and limit: "co_file_limit_bytes observed = Some limit"
  shows "max (unat (oe_main_bytes e)) (unat (oe_wal_bytes e)) + max (unat p) 4096 \<le> unat limit"
proof -
  let ?m = "pages_law policy observed p" and ?u = "unat limit - max (unat p) 4096" and ?f = "unat p + 24"
  have p: "0 < unat p" and m: "256 \<le> ?m" and margin: "max (unat p) 4096 \<le> unat limit"
    using assms(1) valid_page_size_bounds [of p] limit by (auto simp: envelope_admissible_def)
  have "?m * unat p \<le> ?u"
    using pages_law_bounds(3) [OF limit, of policy p] p
    by (meson div_times_less_eq_dividend mult_le_mono1 order_trans)
  moreover have "?m * ?f \<le> ?u - (32 + padding_law p * ?f)"
    using pages_law_bounds(3) [OF limit, of policy p]
    by (meson div_times_less_eq_dividend mult_le_mono1 order_trans)
  moreover have "0 < ?m * ?f" using m by simp
  ultimately have "?m * unat p \<le> ?u" "32 + (?m + padding_law p) * ?f \<le> ?u"
    unfolding add_mult_distrib by linarith+
  with margin law show ?thesis by (simp add: envelope_law_def)
qed

lemma derived_limit_checked:
  assumes adm: "envelope_admissible policy observed p existing" and law: "envelope_law policy observed p e"
    and s: "unat s = (unat (oe_max_pages e) + padding_law p + 4129) div 4096 * 32768"
  shows "\<not> (case co_file_limit_bytes observed of None \<Rightarrow> False
    | Some limit \<Rightarrow> limit < saturating_add (max (max (oe_main_bytes e) (oe_wal_bytes e)) s) (max p 4096))"
proof (cases "co_file_limit_bytes observed")
  case (Some limit)
  have "unat s \<le> unat (oe_wal_bytes e)"
    using index_below_log [of "pages_law policy observed p" "unat p" "padding_law p"] adm law s
      valid_page_size_bounds [of p] by (simp add: envelope_admissible_def envelope_law_def)
  with derived_limit [OF adm law Some] have "unat (max (max (oe_main_bytes e) (oe_wal_bytes e)) s) +
      unat (max p 4096) \<le> unat limit"
    by (simp add: unat_max)
  with Some show ?thesis
    unfolding word_less_nat_alt unat_saturating_add by simp
qed simp

text \<open>What the host must still satisfy when an envelope was derived for it before.\<close>

definition host_within :: "OperatingEnvelope \<Rightarrow> CapacityObservation \<Rightarrow> host \<Rightarrow> u64 \<Rightarrow> bool" where
  "host_within e observed h shm_bound \<longleftrightarrow>
     co_occupied_bytes observed \<le> oe_aggregate_bytes e \<and>
     unat (co_auxiliary_occupied_bytes observed) \<le> 4194304 + unat (cp_auxiliary_bytes (oe_policy e)) \<and>
     run_checks (map2 file_within (store_files h)
       [oe_main_bytes e, oe_wal_bytes e, shm_bound, oe_wal_bytes e]) = Ok ()"

lemma fresh_preflight:
  assumes derived: "derive policy observed p existing = Ok e" and unchanged: "observe h = Ok observed"
    and frames: "wal_frame_ceiling e = Ok n" "shm_allowance n = Ok s" and within: "host_within e observed h s"
  shows "preflight e h = Ok ()"
proof -
  note sound = derive_sound [OF derived]
  from sound have adm: "envelope_admissible policy observed p existing" and law: "envelope_law policy observed p e"
    by simp_all
  have fields: "oe_policy e = policy" "oe_observed e = observed" "oe_page_size e = p" "oe_schema_version e = 2"
    using law by (simp_all add: envelope_law_def)
  have "derive policy observed p 0 = Ok e"
    using derive_complete [of policy observed p 0] derive_sound [of policy observed p 0] adm law envelope_law_unique
    by (fastforce simp: envelope_admissible_def)
  moreover have s: "unat s = (unat (oe_max_pages e) + padding_law p + 4129) div 4096 * 32768"
    using derived_frames [OF adm law] frames by simp
  have house_le: "unat FIXED_ALLOWANCE + unat (cp_auxiliary_bytes policy) \<le> unat (oe_aggregate_bytes e)"
    using derived_fits [OF adm law] by (simp add: unat_fixed_allowance)
  then obtain house :: u64 where house: "unat house = unat FIXED_ALLOWANCE + unat (cp_auxiliary_bytes policy)"
    by (rule obtain_below)
  have occ: "unat (co_occupied_bytes observed) \<le> unat (oe_aggregate_bytes e)"
    using within by (simp add: host_within_def word_le_nat_alt)
  obtain remaining :: u64 where remaining: "unat remaining =
      unat (oe_aggregate_bytes e) - unat (co_occupied_bytes observed)"
    using diff_le_self by (rule obtain_below)
  have needed_le: "unat (cp_reserve_bytes policy) + unat remaining \<le> unat (co_available_bytes observed)"
  proof -
    have "aggregate_law policy observed + unat (cp_reserve_bytes policy) \<le>
        unat (co_available_bytes observed) + unat (co_occupied_bytes observed)"
      using adm by (simp add: envelope_admissible_def reserve_law_def)
    moreover have "unat (oe_aggregate_bytes e) = aggregate_law policy observed"
      using law by (simp add: envelope_law_def)
    ultimately show ?thesis using occ remaining by linarith
  qed
  then obtain needed :: u64 where needed: "unat needed = unat (cp_reserve_bytes policy) + unat remaining"
    by (rule obtain_below)
  have "add_u64 FIXED_ALLOWANCE (cp_auxiliary_bytes policy) = Ok house"
    "checked_sub (oe_aggregate_bytes e) (co_occupied_bytes observed) = Some remaining"
    "add_u64 (cp_reserve_bytes policy) remaining = Ok needed"
    using house remaining needed occ by (simp_all add: add_u64_Ok checked_sub_Some)
  moreover have "\<not> co_auxiliary_occupied_bytes observed > house" "\<not> co_available_inodes observed < 8"
    "\<not> co_available_bytes observed < needed"
    using within adm house needed needed_le fields
    by (simp_all add: host_within_def envelope_admissible_def word_less_nat_alt word_le_nat_alt unat_fixed_allowance)
  moreover note derived_limit_checked [OF adm law s]
  moreover have "run_checks (map2 file_within (store_files h)
       [oe_main_bytes e, oe_wal_bytes e, s, oe_wal_bytes e]) = Ok ()"
    using within by (simp add: host_within_def)
  ultimately show ?thesis
    unfolding preflight_def fields unchanged frames and_then_simps ok_or_simps
    by (simp add: frames refuse_if_def)
qed



section \<open>Recovery and the watermark stay within the envelope\<close>

lemma from_be_bytes_bound: "length bs \<le> 4 \<Longrightarrow> unat (from_be_bytes bs) < 2 ^ 32"
proof -
  assume "length bs \<le> 4"
  then have "(256 :: nat) ^ length bs \<le> 256 ^ 4" by (intro power_increasing) simp_all
  with be_nat_bound [of bs] have "be_nat bs < 2 ^ 32" by simp
  then show ?thesis by (simp add: from_be_bytes_def unsigned_of_nat take_bit_nat_eq_self)
qed

text \<open>
  The extent of a journal's recovery is a page count of 32 bits times a page size, so that its
  product cannot overflow.
\<close>

lemma recovery_extent_never_overflows:
  assumes "length bs \<le> 4" and "valid_page_size p"
  shows "\<exists>x. checked_mul (from_be_bytes bs) p = Some x"
proof -
  have "unat (from_be_bytes bs) * unat p < 2 ^ 64"
    using mult_le_mono [OF less_imp_le [OF from_be_bytes_bound [OF assms(1)]]
        conjunct2 [OF valid_page_size_bounds [OF assms(2)]]]
    by simp
  then show ?thesis by (simp add: checked_mul_def)
qed

lemma exceeds_checked:
  "(\<exists>exceeds. (if c then Ok True else map_ok P r) = Ok exceeds \<and> \<not> exceeds) \<longleftrightarrow>
     \<not> c \<and> (\<exists>v. r = Ok v \<and> \<not> P v)"
  by (cases r) auto

lemma div_ceil_mult: "0 < unat f \<Longrightarrow> unat (div_ceil n (f :: u64)) = unat n div unat f + (if unat n mod unat f = 0 then 0 else 1)"
proof -
  assume f: "0 < unat f"
  have "unat n div unat f + 1 \<le> 2 ^ 64 - 1" if "unat n mod unat f \<noteq> 0"
  proof -
    have "unat f \<noteq> 1" using that by auto
    with f have "2 \<le> unat f" by simp
    then have "unat n div unat f \<le> unat n div 2" by (intro div_le_mono2) simp_all
    with unat_less_64 [of n] show ?thesis by simp
  qed
  moreover have "unat (n div f) = unat n div unat f" "unat (n mod f) = unat n mod unat f"
    by (simp_all add: unat_div unat_mod)
  ultimately show ?thesis
    by (auto simp: div_ceil_def unat_word_ariths word_unat_eq_iff)
qed

lemma watermark_write_keeps_reserve:
  assumes "preflight_watermark h (Ok e) n = Ok ()" and "observe h = Ok c" and "h_statvfs h = Ok fs"
  shows "\<exists>allocation. n \<le> allocation \<and>
    unat (co_auxiliary_occupied_bytes c) + allocation \<le> unat FIXED_ALLOWANCE + unat (cp_auxiliary_bytes (oe_policy e)) \<and>
    unat (co_occupied_bytes c) + allocation \<le> unat (oe_aggregate_bytes e) \<and>
    unat (cp_reserve_bytes (oe_policy e)) + allocation \<le> unat (co_available_bytes c)"
proof -
  let ?f = "max (sv_fragment_size fs) 4096"
  from assms(1) obtain a side house occ where n: "n < 2 ^ 64"
    and a: "checked_mul (div_ceil (of_nat n) ?f) ?f = Some a"
    and sums: "add_u64 (co_auxiliary_occupied_bytes c) a = Ok side"
      "add_u64 FIXED_ALLOWANCE (cp_auxiliary_bytes (oe_policy e)) = Ok house" "\<not> side > house"
      "add_u64 (co_occupied_bytes c) a = Ok occ"
      "\<not> occ > oe_aggregate_bytes e"
      "\<exists>needed. add_u64 (cp_reserve_bytes (oe_policy e)) a = Ok needed \<and> \<not> co_available_bytes c < needed"
    unfolding preflight_watermark_def assms(2,3) map_err_simps and_then_simps Let_def
      and_then_Ok refuse_if_Ok ok_or_Ok not_le exceeds_checked by blast
  have f: "0 < unat ?f" by (simp add: unat_max)
  have "n \<le> unat a"
  proof -
    have "unat (of_nat n :: u64) = n" using n by (simp add: unsigned_of_nat take_bit_nat_eq_self)
    moreover have "n \<le> (n div unat ?f + (if n mod unat ?f = 0 then 0 else 1)) * unat ?f"
      using div_mult_mod_eq [of n "unat ?f"] mod_less_divisor [OF f, of n]
      by (simp only: add_mult_distrib split: if_split) linarith
    ultimately show ?thesis
      using a div_ceil_mult [OF f, of "of_nat n"] by (simp add: checked_mul_Some)
  qed
  with sums show ?thesis
    by (intro exI [of _ "unat a"]) (auto simp: add_u64_Ok word_less_nat_alt)
qed

section \<open>A sample host\<close>

definition sample_host :: host where
  "sample_host =
     \<lparr> h_has_parent = True, h_file_name = Some ''nq.db'',
       h_statvfs = Ok \<lparr> sv_blocks = 52428800, sv_blocks_available = 26214400, sv_fragment_size = 4096,
         sv_files_available = 1000 \<rparr>,
       h_rlimit_fsize = Ok 4294967296, h_main = Ok None, h_wal = Ok None, h_shm = Ok None, h_journal = Ok None,
       h_watermark = Ok None, h_directory = Ok [Ok (''other'', \<lparr> file_is_regular = False, file_blocks = 8,
         file_bytes = [] \<rparr>)], h_device = Ok 7 \<rparr>"

definition sample_observation :: CapacityObservation where
  "sample_observation =
     \<lparr> co_device = 7, co_available_bytes = 107374182400, co_total_bytes = 214748364800,
       co_available_inodes = 1000, co_file_limit_bytes = Some 4294967296, co_occupied_bytes = 0,
       co_auxiliary_occupied_bytes = 0 \<rparr>"

definition sample_policy :: CapacityPolicy where
  "sample_policy = \<lparr> cp_horizon_seconds = DEFAULT_HORIZON_SECONDS, cp_byte_ceiling = Some 1073741824,
     cp_reserve_bytes = 42949672960, cp_reserve_is_automatic = True, cp_auxiliary_bytes = 67108864 \<rparr>"

definition sample_operating_envelope :: OperatingEnvelope where
  "sample_operating_envelope = \<lparr> oe_schema_version = 2, oe_policy = sample_policy,
     oe_observed = sample_observation, oe_aggregate_bytes = 1073741824, oe_page_size = 4096,
     oe_max_pages = 121879, oe_main_bytes = 499216384, oe_wal_bytes = 502207432 \<rparr>"

lemma sample_observe: "observe sample_host = Ok sample_observation"
  by (simp add: observe_def sample_host_def sample_observation_def checked_mul_def store_files_def
      auxiliary_occupancy_def known_sidecar_def add_u64_def checked_add_def RLIM_INFINITY_def)

lemma sample_laws:
  "padding_law 4096 = 16" "fixed_law sample_policy 4096 = 71402288"
  "aggregate_law sample_policy sample_observation = 1073741824"
  "pages_law sample_policy sample_observation 4096 = 121879"
proof -
  show padding: "padding_law 4096 = 16" by (simp add: padding_law_def)
  show total: "fixed_law sample_policy 4096 = 71402288" "aggregate_law sample_policy sample_observation = 1073741824"
    by (simp_all add: padding fixed_law_def aggregate_law_def sample_policy_def)
  show "pages_law sample_policy sample_observation 4096 = 121879"
    unfolding pages_law_def total padding by (simp add: sample_observation_def Let_def)
qed

lemma sample_derive: "derive sample_policy sample_observation 4096 0 = Ok sample_operating_envelope"
proof -
  have "envelope_admissible sample_policy sample_observation 4096 0"
    unfolding envelope_admissible_def reserve_law_def sample_laws
    by (simp add: sample_policy_def sample_observation_def valid_page_size_def
        is_power_of_two_def DEFAULT_HORIZON_SECONDS_def)
  then obtain e where e: "derive sample_policy sample_observation 4096 0 = Ok e"
    using derive_complete by blast
  moreover have "envelope_law sample_policy sample_observation 4096 sample_operating_envelope"
    by (simp add: envelope_law_def sample_laws sample_operating_envelope_def)
  ultimately show ?thesis using derive_sound envelope_law_unique by blast
qed

lemma sample_frames:
  "wal_frame_ceiling sample_operating_envelope = Ok 121895" "shm_allowance 121895 = Ok 983040"
  by (simp_all add: wal_frame_ceiling_def sample_operating_envelope_def add_u64_def checked_add_def
      shm_allowance_def checked_mul_def capacity_constants)

lemma sample_within: "host_within sample_operating_envelope sample_observation sample_host 983040"
  by (simp add: host_within_def sample_operating_envelope_def sample_observation_def sample_host_def
      sample_policy_def store_files_def file_within_def)


theorem preflight_protects_reserve_witness:
  "preflight sample_operating_envelope sample_host = Ok () \<and>
   499216384 + 502207432 + 983040 + 71303168 + unat (cp_reserve_bytes (oe_policy sample_operating_envelope)) \<le>
     unat (co_available_bytes sample_observation) + unat (co_occupied_bytes sample_observation)"
proof -
  have "preflight sample_operating_envelope sample_host = Ok ()"
    using sample_derive sample_observe sample_frames sample_within by (rule fresh_preflight)
  moreover note preflight_protects_reserve [OF this sample_observe sample_frames, of 499216384 502207432 983040 71303168]
  ultimately show ?thesis
    by (simp add: sample_operating_envelope_def sample_policy_def unat_fixed_allowance)
qed

end
