(* ===== verification/History_Accumulator.thy ===== *)
theory History_Accumulator
  imports Refusal_Carriers "HOL-Library.Multiset"
begin

text \<open>
  The content accumulator of validated history (\<open>crates/nq-store/src/history_scope.rs\<close>): the
  256-bit modular sum of one digest per row, kept as 32 big-endian bytes, its hexadecimal text, and
  the encoding of a row that is digested.

  The hash is third-party code and a parameter; what the development uses of it is that a digest
  has 32 bytes.
\<close>

unbundle bit_operations_syntax

section \<open>Addition and subtraction of 32 bytes\<close>

type_synonym u16 = "16 word"

text \<open>
  The loops run over the bytes from the last to the first, so they are recursions over the reversed
  lists. \<open>i16\<close> values stay between -256 and 255 and are \<open>int\<close>.
\<close>

definition u16_from :: "char \<Rightarrow> u16" where
  "u16_from b = of_nat (of_char b)"

fun accumulate_bytes :: "u16 \<Rightarrow> bytes \<Rightarrow> bytes \<Rightarrow> bytes" where
  "accumulate_bytes carry (a # as) (e # es) =
     (let total = u16_from a + u16_from e + carry
      in char_of (unat (total AND 255)) # accumulate_bytes (drop_bit 8 total) as es)"
| "accumulate_bytes carry _ _ = []"

definition accumulate :: "bytes \<Rightarrow> bytes \<Rightarrow> bytes" where
  "accumulate accumulator element = List.rev (accumulate_bytes 0 (List.rev accumulator) (List.rev element))"

fun deduct_bytes :: "int \<Rightarrow> bytes \<Rightarrow> bytes \<Rightarrow> bytes" where
  "deduct_bytes borrow (a # as) (e # es) =
     (let difference = int (of_char a) - int (of_char e) - borrow
      in if difference < 0 then char_of (nat (difference + 256)) # deduct_bytes 1 as es
         else char_of (nat difference) # deduct_bytes 0 as es)"
| "deduct_bytes borrow _ _ = []"

definition deduct :: "bytes \<Rightarrow> bytes \<Rightarrow> bytes" where
  "deduct accumulator element = List.rev (deduct_bytes 0 (List.rev accumulator) (List.rev element))"

definition EMPTY_ACCUMULATOR :: bytes where
  "EMPTY_ACCUMULATOR = replicate 32 (char_of (0 :: nat))"

section \<open>Hexadecimal text\<close>

definition hex_digit :: "nat \<Rightarrow> char" where
  "hex_digit d = (if d < 10 then char_of (48 + d) else char_of (87 + d))"

definition hex :: "bytes \<Rightarrow> string" where
  "hex bs = concat (map (\<lambda>b. [hex_digit (of_char b div 16), hex_digit (of_char b mod 16)]) bs)"

text \<open>\<open>char::to_digit(16)\<close>, and \<open>u8::from_str_radix(_, 16)\<close> on a text of two bytes.\<close>

definition hex_digit_value :: "char \<Rightarrow> nat option" where
  "hex_digit_value c =
     (let n = of_char c in
      if 48 \<le> n \<and> n \<le> 57 then Some (n - 48)
      else if 97 \<le> n \<and> n \<le> 102 then Some (n - 87)
      else if 65 \<le> n \<and> n \<le> 70 then Some (n - 55)
      else None)"

definition from_hex_pair :: "char \<Rightarrow> char \<Rightarrow> nat option" where
  "from_hex_pair a b =
     (if a = CHR ''+'' then hex_digit_value b
      else case (hex_digit_value a, hex_digit_value b) of
        (Some h, Some l) \<Rightarrow> Some (16 * h + l)
      | _ \<Rightarrow> None)"

text \<open>
  A slice of a \<open>str\<close> panics unless both ends are at a character boundary: the end of the text or a
  byte that does not continue a character.
\<close>

definition is_char_boundary :: "string \<Rightarrow> nat \<Rightarrow> bool" where
  "is_char_boundary s i \<longleftrightarrow>
     i = length s \<or> i < length s \<and> \<not> (128 \<le> (of_char (s ! i) :: nat) \<and> (of_char (s ! i) :: nat) < 192)"

fun parse_pairs :: "StoreError \<Rightarrow> string \<Rightarrow> nat list \<Rightarrow> (bytes, StoreError) result" where
  "parse_pairs invalid s [] = Ok []"
| "parse_pairs invalid s (i # is) =
     (if is_char_boundary s (2 * i) \<and> is_char_boundary s (2 * i + 2) then
        case from_hex_pair (s ! (2 * i)) (s ! (2 * i + 1)) of
          None \<Rightarrow> Err invalid
        | Some n \<Rightarrow> map_ok ((#) (char_of n)) (parse_pairs invalid s is)
      else Err StorePanicked)"

definition parse_accumulator :: "string \<Rightarrow> string \<Rightarrow> (bytes, StoreError) result" where
  "parse_accumulator table s =
     (let invalid = StoreIntegrity [''validation watermark accumulator is not 64 hex digits'', table]
      in if length s \<noteq> 64 then Err invalid else parse_pairs invalid s [0..<32])"

section \<open>Row digests\<close>

datatype ValueRef = Null | Integer int | Real u64 | Text bytes | Blob bytes

text \<open>\<open>to_be_bytes\<close> of an \<open>i64\<close> (in two's complement) and of a \<open>u64\<close>.\<close>

definition to_be_bytes :: "int \<Rightarrow> bytes" where
  "to_be_bytes n = map (\<lambda>i. char_of (nat (n div 256 ^ i mod 256))) (List.rev [0..<8])"

definition len_be_bytes :: "bytes \<Rightarrow> bytes" where
  "len_be_bytes bs = to_be_bytes (min (int (length bs)) (2 ^ 64 - 1))"

fun encode_value :: "ValueRef \<Rightarrow> bytes" where
  "encode_value Null = [char_of (0 :: nat)]"
| "encode_value (Integer v) = char_of (1 :: nat) # to_be_bytes v"
| "encode_value (Real bits) = char_of (2 :: nat) # to_be_bytes (uint bits)"
| "encode_value (Text bs) = char_of (3 :: nat) # len_be_bytes bs @ bs"
| "encode_value (Blob bs) = char_of (4 :: nat) # len_be_bytes bs @ bs"

text \<open>A row is its \<open>rowid\<close> and its columns in schema order; a table lists its rows by \<open>rowid\<close>.\<close>

type_synonym history_row = "int \<times> ValueRef list"
type_synonym history_table = "history_row list"

record history_externals =
  sha256 :: "bytes \<Rightarrow> bytes"

definition row_digest :: "'x history_externals_scheme \<Rightarrow> history_row \<Rightarrow> bytes" where
  "row_digest x row = sha256 x (concat (map encode_value (Integer (fst row) # snd row)))"

definition VALIDATION_WATERMARK_SCHEMA :: string where
  "VALIDATION_WATERMARK_SCHEMA = ''nq.validation_watermark.v4''"

definition row_element :: "'x history_externals_scheme \<Rightarrow> string \<Rightarrow> bytes \<Rightarrow> bytes" where
  "row_element x table row =
     sha256 x (VALIDATION_WATERMARK_SCHEMA @ ''/row'' @ [char_of (0 :: nat)] @ table @ [char_of (0 :: nat)] @ row)"

definition digests_32 :: "'x history_externals_scheme \<Rightarrow> bool" where
  "digests_32 x \<longleftrightarrow> (\<forall>bs. length (sha256 x bs) = 32)"

section \<open>The sums\<close>

lemma unat_u16_from: "unat (u16_from b) = of_char b"
proof -
  have "(of_char b :: nat) < 2 ^ LENGTH(16)"
    by (rule less_trans [OF of_char_less]) simp
  then show ?thesis
    by (simp only: u16_from_def unsigned_of_nat take_bit_nat_eq_self of_nat_id)
qed

lemma accumulate_step:
  fixes a e :: char and carry :: u16
  assumes "unat carry \<le> 1"
  defines "w \<equiv> u16_from a + u16_from e + carry"
  shows "unat (w AND 255) = (of_char a + of_char e + unat carry) mod 256"
    and "unat (drop_bit 8 w) = (of_char a + of_char e + unat carry) div 256"
    and "unat (drop_bit 8 w) \<le> 1"
proof -
  define x y :: nat where "x = of_char a" and "y = of_char e"
  have xy: "x < 256" "y < 256" by (simp_all add: x_def y_def)
  have parts: "unat (u16_from a) = x" "unat (u16_from e) = y" by (simp_all add: unat_u16_from x_def y_def)
  have "unat (u16_from a + u16_from e) = x + y"
    using xy by (subst unat_plus_simple [THEN iffD1]) (simp_all add: parts no_olen_add_nat)
  then have w: "unat w = x + y + unat carry"
    unfolding w_def using xy assms(1) by (subst unat_plus_simple [THEN iffD1]) (simp_all add: no_olen_add_nat)
  have "w AND 255 = take_bit 8 w"
    by (simp add: take_bit_eq_mask mask_eq_exp_minus_1)
  then show "unat (w AND 255) = (of_char a + of_char e + unat carry) mod 256"
    using w by (simp add: take_bit_eq_mod unat_mod x_def y_def)
  show div: "unat (drop_bit 8 w) = (of_char a + of_char e + unat carry) div 256"
    using w by (simp add: drop_bit_eq_div unat_div x_def y_def)
  show "unat (drop_bit 8 w) \<le> 1"
    using xy assms(1) unfolding div x_def [symmetric] y_def [symmetric] by simp
qed


lemma digit_mod_nat: "r < 256 \<Longrightarrow> r + 256 * (q mod m) = (r + 256 * q) mod (256 * m)" for r q m :: nat
  by (simp add: mod_mult2_eq)

lemma digit_mod_int: "0 \<le> r \<Longrightarrow> r < 256 \<Longrightarrow> 0 \<le> m \<Longrightarrow> r + 256 * (q mod m) = (r + 256 * q) mod (256 * m)"
  for r q m :: int
  by (simp add: zmod_zmult2_eq)

lemma le_nat_accumulate:
  "length as = length es \<Longrightarrow> unat carry \<le> 1 \<Longrightarrow>
     le_nat (accumulate_bytes carry as es) = (le_nat as + le_nat es + unat carry) mod 256 ^ length as"
proof (induction as es arbitrary: carry rule: list_induct2)
  case (Cons a as e es)
  define w where "w = u16_from a + u16_from e + carry"
  note step = accumulate_step [OF Cons.prems, of a e, folded w_def]
  define x y :: nat where "x = of_char a" and "y = of_char e"
  let ?t = "x + y + unat carry" and ?r = "le_nat as + le_nat es"
  have "le_nat (accumulate_bytes carry (a # as) (e # es)) =
      ?t mod 256 + 256 * ((?r + ?t div 256) mod 256 ^ length as)"
    using Cons.IH [OF step(3)] step(1,2) by (simp add: Let_def w_def [symmetric] x_def y_def)
  also have "\<dots> = (?t mod 256 + 256 * (?r + ?t div 256)) mod (256 * 256 ^ length as)"
    by (rule digit_mod_nat) simp
  also have "?t mod 256 + 256 * (?r + ?t div 256) = ?t + 256 * ?r"
    by (simp add: algebra_simps)
  also have "\<dots> = le_nat (a # as) + le_nat (e # es) + unat carry"
    by (simp add: x_def y_def)
  finally show ?case by simp
qed simp

lemma length_accumulate_bytes: "length as = length es \<Longrightarrow> length (accumulate_bytes carry as es) = length as"
  by (induction as es arbitrary: carry rule: list_induct2) (simp_all add: Let_def)

lemma length_accumulate: "length a = length e \<Longrightarrow> length (accumulate a e) = length a"
  by (simp add: accumulate_def length_accumulate_bytes)

lemma be_nat_accumulate:
  "length a = length e \<Longrightarrow> be_nat (accumulate a e) = (be_nat a + be_nat e) mod 256 ^ length a"
  using le_nat_accumulate [of "List.rev a" "List.rev e" 0] by (simp add: be_nat_def accumulate_def)

lemma le_nat_deduct:
  "length as = length es \<Longrightarrow> borrow \<in> {0, 1} \<Longrightarrow>
     int (le_nat (deduct_bytes borrow as es)) = (int (le_nat as) - int (le_nat es) - borrow) mod 256 ^ length as"
proof (induction as es arbitrary: borrow rule: list_induct2)
  case (Cons a as e es)
  define d where "d = int (of_char a) - int (of_char e) - borrow"
  define x y :: nat where "x = of_char a" and "y = of_char e"
  have xy: "x < 256" "y < 256" by (simp_all add: x_def y_def)
  have d: "d = int x - int y - borrow" by (simp add: d_def x_def y_def)
  let ?b = "if d < 0 then 1 else 0 :: int" and ?r = "int (le_nat as) - int (le_nat es)"
  have range: "- 256 \<le> d" "d < 256" using xy Cons.prems unfolding d by auto
  have digit: "d mod 256 = d + 256 * ?b"
    using range mod_pos_pos_trivial [of "d + 256" 256] mod_pos_pos_trivial [of d 256] by auto
  have head: "int (of_char (char_of (nat (d mod 256)))) = d mod 256" by simp
  have "int (le_nat (deduct_bytes borrow (a # as) (e # es))) =
      d mod 256 + 256 * ((?r - ?b) mod 256 ^ length as)"
  proof (cases "d < 0")
    case True
    then have "deduct_bytes borrow (a # as) (e # es) = char_of (nat (d mod 256)) # deduct_bytes 1 as es"
      using digit by (simp add: Let_def d_def)
    with True head Cons.IH [of 1] show ?thesis by simp
  next
    case False
    then have "deduct_bytes borrow (a # as) (e # es) = char_of (nat (d mod 256)) # deduct_bytes 0 as es"
      using digit by (simp add: Let_def d_def)
    with False head Cons.IH [of 0] show ?thesis by simp
  qed
  also have "\<dots> = (d mod 256 + 256 * (?r - ?b)) mod (256 * 256 ^ length as)"
    by (rule digit_mod_int) simp_all
  also have "d mod 256 + 256 * (?r - ?b) = d + 256 * ?r"
    using digit by (simp add: algebra_simps)
  also have "\<dots> = int (le_nat (a # as)) - int (le_nat (e # es)) - borrow"
    by (simp add: d_def)
  finally show ?case by simp
qed simp


lemma length_deduct_bytes: "length as = length es \<Longrightarrow> length (deduct_bytes borrow as es) = length as"
  by (induction as es arbitrary: borrow rule: list_induct2) (simp_all add: Let_def)

lemma length_deduct: "length a = length e \<Longrightarrow> length (deduct a e) = length a"
  by (simp add: deduct_def length_deduct_bytes)

lemma be_nat_deduct:
  "length a = length e \<Longrightarrow> int (be_nat (deduct a e)) = (int (be_nat a) - int (be_nat e)) mod 256 ^ length a"
  using le_nat_deduct [of "List.rev a" "List.rev e" 0] by (simp add: be_nat_def deduct_def)

section \<open>Additive commitments\<close>

text \<open>
  What the certification of history needs of an accumulator: elements can be added in any order and
  taken out again.
\<close>

locale additive_commitment =
  fixes valid :: "'a \<Rightarrow> bool" and zero :: 'a and put :: "'a \<Rightarrow> 'a \<Rightarrow> 'a" and drop_out :: "'a \<Rightarrow> 'a \<Rightarrow> 'a"
  assumes valid_zero: "valid zero"
    and valid_put: "valid a \<Longrightarrow> valid e \<Longrightarrow> valid (put a e)"
    and put_commute: "valid a \<Longrightarrow> valid e \<Longrightarrow> put a e = put e a"
    and put_assoc: "valid a \<Longrightarrow> valid b \<Longrightarrow> valid c \<Longrightarrow> put (put a b) c = put a (put b c)"
    and put_zero: "valid a \<Longrightarrow> put a zero = a"
    and valid_drop_out: "valid a \<Longrightarrow> valid e \<Longrightarrow> valid (drop_out a e)"
    and drop_out_put: "valid a \<Longrightarrow> valid e \<Longrightarrow> drop_out (put a e) e = a"
    and put_drop_out: "valid a \<Longrightarrow> valid e \<Longrightarrow> put (drop_out a e) e = a"
begin

lemma valid_foldl: "valid a \<Longrightarrow> list_all valid es \<Longrightarrow> valid (foldl put a es)"
  by (induction es arbitrary: a) (simp_all add: valid_put)

lemma foldl_put:
  "valid a \<Longrightarrow> list_all valid es \<Longrightarrow> foldl put a es = put a (foldl put zero es)"
proof (induction es arbitrary: a)
  case (Cons e es)
  then have "foldl put a (e # es) = put (put a e) (foldl put zero es)"
    by (simp add: valid_put)
  also have "\<dots> = put a (put e (foldl put zero es))"
    using Cons.prems by (simp add: put_assoc valid_foldl valid_zero)
  also have "put e (foldl put zero es) = foldl put zero (e # es)"
    using Cons.IH [of e] Cons.prems put_commute [of zero e] put_zero [of e]
    by (simp add: valid_zero)
  finally show ?case .
qed (simp add: put_zero)

lemma foldl_append:
  "list_all valid es \<Longrightarrow> list_all valid es' \<Longrightarrow>
     foldl put zero (es @ es') = put (foldl put zero es) (foldl put zero es')"
  by (simp add: foldl_put [of "foldl put zero es"] valid_foldl valid_zero)

lemma foldl_mset:
  "mset es = mset es' \<Longrightarrow> list_all valid es \<Longrightarrow> foldl put zero es = foldl put zero es'"
proof (induction es arbitrary: es')
  case (Cons e es)
  then have "e \<in> set es'" by (metis list.set_intros(1) set_mset_mset)
  then obtain l r where es': "es' = l @ e # r" by (meson split_list)
  with Cons.prems have rest: "mset es = mset (l @ r)" and valid: "valid e" "list_all valid es"
    by simp_all
  then have "set es = set (l @ r)" by (metis set_mset_mset)
  with valid(2) have lr: "list_all valid l" "list_all valid r" by (auto simp: list_all_iff)
  have "foldl put zero (e # es) = put e (foldl put zero es)"
    using foldl_put [of e es] valid put_commute [of zero e] put_zero [of e] by (simp add: valid_zero)
  also have "\<dots> = put e (put (foldl put zero l) (foldl put zero r))"
    using Cons.IH [OF rest valid(2)] lr by (simp add: foldl_append del: List.foldl_append)
  also have "\<dots> = put (put (foldl put zero l) e) (foldl put zero r)"
    using valid lr by (simp add: put_assoc [symmetric] put_commute [of e] valid_foldl valid_zero)
  also have "\<dots> = foldl put zero es'"
    using foldl_put [of "put (foldl put zero l) e" r] valid lr
    by (simp add: es' valid_put valid_foldl valid_zero)
  finally show ?case .
qed simp

text \<open>
  A sum adjusted by what was taken out and what was put in since is the sum of what is there now,
  even when an element was put in and taken out again.
\<close>

lemma adjusted_sum:
  assumes change: "mset now + mset removed = mset start + mset added"
    and start: "list_all valid start" and added: "list_all valid added"
  shows "put (drop_out (foldl put zero start) (foldl put zero removed)) (foldl put zero added) = foldl put zero now"
proof -
  let ?S = "foldl put zero"
  have both: "mset (now @ removed) = mset (start @ added)" using change by simp
  then have "set (now @ removed) = set (start @ added)" by (metis set_mset_mset)
  then have valid: "list_all valid now" "list_all valid removed"
    using start added by (auto simp: list_all_iff)
  note sums = valid_foldl [OF valid_zero start] valid_foldl [OF valid_zero added]
    valid_foldl [OF valid_zero valid(1)] valid_foldl [OF valid_zero valid(2)]
  let ?rest = "drop_out (?S start) (?S removed)"
  have "put (put ?rest (?S added)) (?S removed) = put (put ?rest (?S removed)) (?S added)"
    using sums put_commute [of "?S added" "?S removed"] by (simp add: put_assoc valid_drop_out)
  also have "\<dots> = put (?S start) (?S added)" using sums by (simp add: put_drop_out)
  also have "\<dots> = ?S (start @ added)" by (rule foldl_append [symmetric, OF start added])
  also have "\<dots> = ?S (now @ removed)"
    using foldl_mset [of "start @ added" "now @ removed"] both start added by simp
  also have "\<dots> = put (?S now) (?S removed)" by (rule foldl_append [OF valid])
  finally have "drop_out (put (put ?rest (?S added)) (?S removed)) (?S removed) = ?S now"
    using sums by (simp add: drop_out_put)
  then show ?thesis using sums by (simp add: drop_out_put valid_put valid_drop_out)
qed

end

abbreviation bytes_32 :: "bytes \<Rightarrow> bool" where
  "bytes_32 bs \<equiv> length bs = 32"

lemma be_nat_EMPTY: "be_nat EMPTY_ACCUMULATOR = 0"
proof -
  have "le_nat (replicate n (char_of (0 :: nat))) = 0" for n
    by (induction n) simp_all
  then show ?thesis by (simp add: be_nat_def EMPTY_ACCUMULATOR_def)
qed

lemma bytes_32_eqI: "bytes_32 a \<Longrightarrow> bytes_32 b \<Longrightarrow> be_nat a = be_nat b \<Longrightarrow> a = b"
  using be_nat_inject [of a b] by simp

definition modulus :: nat where
  "modulus = 256 ^ 32"

lemma bytes_32_values:
  assumes "bytes_32 a" and "bytes_32 e"
  shows "be_nat a < modulus" "be_nat (accumulate a e) = (be_nat a + be_nat e) mod modulus"
    "int (be_nat (deduct a e)) = (int (be_nat a) - int (be_nat e)) mod int modulus"
  using be_nat_bound [of a] be_nat_accumulate [of a e] be_nat_deduct [of a e] assms
  unfolding modulus_def by (simp_all only: of_nat_power of_nat_numeral)

interpretation acc: additive_commitment bytes_32 EMPTY_ACCUMULATOR accumulate deduct
proof unfold_locales
  show empty: "bytes_32 EMPTY_ACCUMULATOR" by (simp add: EMPTY_ACCUMULATOR_def)
  fix a b c :: bytes assume a: "bytes_32 a" and b: "bytes_32 b" and c: "bytes_32 c"
  show ab: "bytes_32 (accumulate a b)" using a b by (simp add: length_accumulate)
  have bc: "bytes_32 (accumulate b c)" using b c by (simp add: length_accumulate)
  show "accumulate a b = accumulate b a"
    using a b by (intro bytes_32_eqI) (simp_all add: length_accumulate bytes_32_values(2) add.commute)
  show "accumulate (accumulate a b) c = accumulate a (accumulate b c)"
    using a b c ab bc by (intro bytes_32_eqI)
      (simp_all add: length_accumulate bytes_32_values(2) mod_add_left_eq mod_add_right_eq add.assoc)
  show "accumulate a EMPTY_ACCUMULATOR = a"
    using a empty bytes_32_values(1) [OF a a]
    by (intro bytes_32_eqI) (simp_all add: length_accumulate bytes_32_values(2) be_nat_EMPTY)
  show dropped: "bytes_32 (deduct a b)" using a b by (simp add: length_deduct)
  have "int (be_nat (deduct (accumulate a b) b)) = (int (be_nat a) + int (be_nat b) - int (be_nat b)) mod int modulus"
    unfolding bytes_32_values(3) [OF ab b] bytes_32_values(2) [OF a b] zmod_int of_nat_add by (rule mod_diff_left_eq)
  also have "\<dots> = int (be_nat a)"
    using bytes_32_values(1) [OF a a] by simp
  finally show "deduct (accumulate a b) b = a"
    using a b ab by (intro bytes_32_eqI) (simp_all add: length_deduct)
  have "int (be_nat (accumulate (deduct a b) b)) = (int (be_nat a) - int (be_nat b) + int (be_nat b)) mod int modulus"
    unfolding bytes_32_values(2) [OF dropped b] zmod_int of_nat_add bytes_32_values(3) [OF a b] by (rule mod_add_left_eq)
  also have "\<dots> = int (be_nat a)"
    using bytes_32_values(1) [OF a a] by simp
  finally show "accumulate (deduct a b) b = a"
    using a b dropped by (intro bytes_32_eqI) (simp_all add: length_accumulate)
qed

section \<open>The hexadecimal round trip\<close>

lemma length_hex: "length (hex bs) = 2 * length bs"
  by (induction bs) (simp_all add: hex_def)

lemma hex_nth:
  "i < length bs \<Longrightarrow> hex bs ! (2 * i) = hex_digit (of_char (bs ! i) div 16) \<and>
     hex bs ! (2 * i + 1) = hex_digit (of_char (bs ! i) mod 16)"
proof (induction bs arbitrary: i)
  case (Cons b bs)
  then show ?case by (cases i) (simp_all add: hex_def)
qed simp

lemma hex_digit_round_trip: "d < 16 \<Longrightarrow> hex_digit_value (hex_digit d) = Some d"
  by (auto simp: hex_digit_def hex_digit_value_def Let_def)

lemma hex_digit_ascii: "d < 16 \<Longrightarrow> (of_char (hex_digit d) :: nat) < 128 \<and> hex_digit d \<noteq> CHR ''+''"
proof -
  assume "d < 16"
  then have "of_char (hex_digit d) \<noteq> (of_char CHR ''+'' :: nat)"
    by (simp add: hex_digit_def)
  with \<open>d < 16\<close> show ?thesis by (auto simp: hex_digit_def)
qed

lemma hex_pair_round_trip:
  "from_hex_pair (hex_digit (of_char b div 16)) (hex_digit (of_char b mod 16)) = Some (of_char b)"
proof -
  have high: "(of_char b :: nat) div 16 < 16" using of_char_less [of b] by (simp add: div_less_iff_less_mult)
  show ?thesis
    using hex_digit_round_trip [OF high] hex_digit_round_trip [of "of_char b mod 16"] hex_digit_ascii [OF high]
    by (simp add: from_hex_pair_def)
qed

lemma hex_ascii: "c \<in> set (hex bs) \<Longrightarrow> (of_char c :: nat) < 128"
proof (induction bs)
  case (Cons b bs)
  have "(of_char b :: nat) div 16 < 16" using of_char_less [of b] by (simp add: div_less_iff_less_mult)
  then show ?case
    using Cons hex_digit_ascii [of "of_char b div 16"] hex_digit_ascii [of "of_char b mod 16"]
    by (auto simp: hex_def)
qed (simp add: hex_def)

lemma hex_boundary: "is_char_boundary (hex bs) i" if "i \<le> 2 * length bs"
proof (cases "i = 2 * length bs")
  case False
  with that have "hex bs ! i \<in> set (hex bs)" by (simp add: length_hex)
  from hex_ascii [OF this] False that show ?thesis by (simp add: is_char_boundary_def length_hex)
qed (simp add: is_char_boundary_def length_hex)

lemma parse_pairs_hex:
  "list_all (\<lambda>i. i < length bs) is \<Longrightarrow> parse_pairs invalid (hex bs) is = Ok (map ((!) bs) is)"
proof (induction "is")
  case (Cons i "is")
  then have "i < length bs" by simp
  with Cons hex_nth [OF this] show ?case by (simp add: hex_boundary hex_pair_round_trip)
qed simp

lemma parse_accumulator_hex: "bytes_32 bs \<Longrightarrow> parse_accumulator table (hex bs) = Ok bs"
  using parse_pairs_hex [of bs "[0..<32]"] map_nth [of bs]
  by (simp add: parse_accumulator_def length_hex list_all_iff)

text \<open>A text of 64 bytes that is not ASCII makes the slices panic instead of being refused.\<close>

lemma parse_accumulator_panics:
  assumes "length s = 64" and "\<not> is_char_boundary s 2"
  shows "parse_accumulator table s = Err StorePanicked"
proof -
  have "[0..<32] = 0 # [1..<32 :: nat]" by (simp add: upt_conv_Cons)
  with assms show ?thesis by (simp add: parse_accumulator_def Let_def numeral_2_eq_2 del: upt_rec_numeral)
qed

lemma parse_accumulator_can_panic:
  "parse_accumulator table (CHR ''a'' # char_of (195 :: nat) # char_of (169 :: nat) # replicate 61 CHR ''a'') =
     Err StorePanicked"
  by (rule parse_accumulator_panics) (simp_all add: is_char_boundary_def nth_Cons')

end
