(* ===== verification/History_Scope.thy ===== *)
theory History_Scope
  imports History_Accumulator "HOL-Library.Option_ord" "HOL-Library.Sublist"
begin

text \<open>
  Certification of the append-only history (\<open>crates/nq-store/src/history_scope.rs\<close>): the frontier of
  a store (per table its last rowid, row count, content accumulator and bounding row), its
  computation from scratch or from an earlier frontier, its comparison with the watermark of an
  earlier validation, and the watermark document.

  A database gives the rows of each table in \<open>rowid\<close> order, as \<open>ORDER BY rowid\<close> returns them. Row
  counts are \<open>i64\<close> in the code and \<open>int\<close> here: a table has fewer rows than there are rowids. Option
  values compare as in Rust, \<open>None\<close> below every \<open>Some\<close>.
\<close>

section \<open>Frontiers\<close>

type_synonym history_db = "string \<Rightarrow> history_table"

definition HISTORY_TABLES :: "string list" where
  "HISTORY_TABLES =
     [''admission_records'', ''admitted_reports'', ''binding_materialization_events'',
      ''diagnostic_artifact_commitments'', ''diagnostic_artifact_import_events'',
      ''diagnostic_artifact_payloads'', ''evaluation_runs'', ''evaluation_watermarks'',
      ''finding_events'', ''finding_evidence'', ''genesis_records'',
      ''imported_diagnostic_artifact_origins'', ''instance_binding_events'', ''legacy_references'',
      ''legacy_v3_watcher_run_intake_gaps'', ''local_diagnostic_artifact_origins'',
      ''local_provider_admissions'', ''local_successor_acquisition_events'',
      ''local_successor_acquisition_intents'', ''local_watcher_provider_intakes'',
      ''maintenance_declarations'', ''notification_attempts'', ''notification_delivery_events'',
      ''notification_delivery_intents'', ''notification_outbox'', ''observation_coverage'',
      ''observations'', ''profile_descriptor_snapshots'', ''provider_intake_acknowledgments'',
      ''provider_intake_attempts'', ''raw_submissions'', ''refusals'', ''report_coverage'',
      ''report_errors'', ''retention_tombstones'', ''saved_check_definitions'',
      ''saved_check_events'', ''status_events'', ''upgrade_receipts'', ''watcher_runs'']"

record TableFrontier =
  tf_max_rowid :: "int option"
  tf_rows :: int
  tf_accumulator :: string
  tf_boundary :: "string option"

record HistoryFrontier =
  hf_tables :: "(string, TableFrontier) btree_map"
  hf_evaluation_sequence :: int

text \<open>The queries on \<open>rowid\<close>.\<close>

definition sql_max_rowid :: "history_table \<Rightarrow> int option" where
  "sql_max_rowid rows = foldr (\<lambda>row. max (Some (fst row))) rows None"

definition row_at :: "history_table \<Rightarrow> int \<Rightarrow> history_row option" where
  "row_at rows rowid = List.find (\<lambda>row. fst row = rowid) rows"

text \<open>\<open>evaluation_sequence\<close> is the second column of \<open>evaluation_runs\<close>.\<close>

definition query_evaluation_sequence :: "history_db \<Rightarrow> int \<Rightarrow> (int, StoreError) result" where
  "query_evaluation_sequence db rowid =
     (case row_at (db ''evaluation_runs'') rowid of
        None \<Rightarrow> Err (StoreSqlite ''Query returned no rows'')
      | Some (_, _ # Integer v # _) \<Rightarrow> Ok v
      | Some _ \<Rightarrow> Err (StoreSqlite ''Invalid column type''))"

definition default_frontier :: TableFrontier where
  "default_frontier = \<lparr>tf_max_rowid = None, tf_rows = 0, tf_accumulator = [], tf_boundary = None\<rparr>"

definition max_rowid :: "HistoryFrontier \<Rightarrow> string \<Rightarrow> int option" where
  "max_rowid frontier table = Option.bind (bt_get (hf_tables frontier) table) tf_max_rowid"

definition capture_bounds :: "history_db \<Rightarrow> (HistoryFrontier, StoreError) result" where
  "capture_bounds db =
     (let tables = bt_from (map (\<lambda>table.
            (table, default_frontier\<lparr>tf_max_rowid := sql_max_rowid (db table)\<rparr>)) HISTORY_TABLES)
      in map_ok (\<lambda>v. \<lparr>hf_tables = tables, hf_evaluation_sequence = v\<rparr>)
           (case Option.bind (bt_get tables ''evaluation_runs'') tf_max_rowid of
              Some bound \<Rightarrow> query_evaluation_sequence db bound
            | None \<Rightarrow> Ok 0))"

section \<open>The watermark document\<close>

record LineageHead =
  lh_lineage :: string
  lh_finding_id :: string
  lh_event_revision :: int
  lh_condition_state :: string

record EvaluationHead =
  eh_lineage :: string
  eh_evaluation_sequence :: int
  eh_evaluation_revision :: int

record SemanticState =
  lineage_heads :: "LineageHead list"
  evaluation_heads :: "EvaluationHead list"

record RetentionWitness =
  rw_generation :: int
  rw_evaluation_floor :: int
  rw_report_floor :: int
  rw_intake_floor :: int
  rw_status_floor :: int
  rw_lineage_floors_digest :: string

record ValidationWatermark =
  vw_schema :: string
  vw_validation_rules :: string
  vw_engine_rules :: string
  vw_genesis_id :: string
  vw_schema_version :: int
  vw_schema_artifact_digest :: string
  vw_retention :: RetentionWitness
  vw_frontier :: HistoryFrontier
  vw_commitment_digest :: string
  vw_semantic :: "SemanticState option"
  vw_validated_at :: string

section \<open>Certification\<close>

definition i64_min :: int where
  "i64_min = - (2 ^ 63)"

definition show_bound :: "int option \<Rightarrow> string" where
  "show_bound bound = (case bound of None \<Rightarrow> ''none'' | Some b \<Rightarrow> show_int b)"

definition certified_at :: "ValidationWatermark option \<Rightarrow> string" where
  "certified_at prior = (case prior of None \<Rightarrow> ''an earlier validation'' | Some w \<Rightarrow> vw_validated_at w)"

definition verify_checkpoint ::
  "string \<Rightarrow> TableFrontier \<Rightarrow> int \<Rightarrow> string \<Rightarrow> ValidationWatermark option \<Rightarrow> (unit, StoreError) result" where
  "verify_checkpoint table checkpoint rows accumulator prior =
     refuse_if (tf_rows checkpoint \<noteq> rows \<or> tf_accumulator checkpoint \<noteq> accumulator)
       (StoreIntegrity [''history table changed at or below the frontier certified'', table, certified_at prior])"

text \<open>The cursor loop, on the row count, the accumulator, the boundary and whether the checkpoint was seen.\<close>

fun certify_rows ::
  "'x history_externals_scheme \<Rightarrow> string \<Rightarrow> int \<Rightarrow> TableFrontier option \<Rightarrow> ValidationWatermark option \<Rightarrow>
    history_row list \<Rightarrow> int \<times> bytes \<times> string option \<times> bool \<Rightarrow>
    (int \<times> bytes \<times> string option \<times> bool, StoreError) result" where
  "certify_rows x table bound checkpoint prior [] state = Ok state"
| "certify_rows x table bound checkpoint prior (row # cursor) (rows, accumulator, boundary, checkpoint_seen) =
     (let digest = row_digest x row;
          accumulator = accumulate accumulator (row_element x table digest);
          rows = rows + 1;
          boundary = (if fst row = bound then Some (hex digest) else boundary)
      in case checkpoint of
           Some c \<Rightarrow>
             if tf_max_rowid c = Some (fst row) then
               and_then (verify_checkpoint table c rows (hex accumulator) prior)
                 (\<lambda>_. certify_rows x table bound checkpoint prior cursor (rows, accumulator, boundary, True))
             else certify_rows x table bound checkpoint prior cursor (rows, accumulator, boundary, checkpoint_seen)
         | None \<Rightarrow> certify_rows x table bound checkpoint prior cursor (rows, accumulator, boundary, checkpoint_seen))"

definition certify_start ::
  "string \<Rightarrow> TableFrontier option \<Rightarrow> (int option \<times> int \<times> bytes \<times> string option, StoreError) result" where
  "certify_start table from =
     (case from of
        Some f \<Rightarrow> map_ok (\<lambda>a. (tf_max_rowid f, tf_rows f, a, tf_boundary f)) (parse_accumulator table (tf_accumulator f))
      | None \<Rightarrow> Ok (None, 0, EMPTY_ACCUMULATOR, None))"

definition select_range :: "int option \<Rightarrow> int \<Rightarrow> history_table \<Rightarrow> history_row list" where
  "select_range start bound rows =
     filter (\<lambda>row. case_option i64_min id start < fst row \<and> fst row \<le> bound) rows"

definition certify_table ::
  "'x history_externals_scheme \<Rightarrow> history_db \<Rightarrow> HistoryFrontier option \<Rightarrow> HistoryFrontier \<Rightarrow>
    ValidationWatermark option \<Rightarrow> string \<Rightarrow> (TableFrontier, StoreError) result" where
  "certify_table x db base bounds prior table =
     (let bound = max_rowid bounds table;
          from = (case Option.bind base (\<lambda>b. bt_get (hf_tables b) table) of
                    Some f \<Rightarrow> if tf_max_rowid f \<le> bound then Some f else None
                  | None \<Rightarrow> None)
      in and_then (certify_start table from) (\<lambda>(start, rows, accumulator, boundary).
         let checkpoint = (if from = None then Option.bind prior (\<lambda>w. bt_get (hf_tables (vw_frontier w)) table) else None);
             checkpoint_bound = Option.bind checkpoint tf_max_rowid
         in if bound < checkpoint_bound then
              Err (StoreIntegrity [''rows certified earlier are missing'', table, show_bound checkpoint_bound, show_bound bound])
            else and_then
              (case bound of
                 Some b \<Rightarrow> certify_rows x table b checkpoint prior (select_range start b (db table))
                             (rows, accumulator, boundary, checkpoint_bound = None)
               | None \<Rightarrow> Ok (rows, accumulator, boundary, checkpoint_bound = None))
              (\<lambda>(rows, accumulator, boundary, checkpoint_seen).
                 if \<not> checkpoint_seen then
                   Err (StoreIntegrity [''history table no longer contains the bounding row'', table,
                     show_int (case_option 0 id checkpoint_bound), certified_at prior])
                 else Ok \<lparr>tf_max_rowid = bound, tf_rows = rows, tf_accumulator = hex accumulator,
                   tf_boundary = (if bound = None then None else boundary)\<rparr>)))"

definition certify ::
  "'x history_externals_scheme \<Rightarrow> history_db \<Rightarrow> HistoryFrontier option \<Rightarrow> HistoryFrontier \<Rightarrow>
    ValidationWatermark option \<Rightarrow> (HistoryFrontier, StoreError) result" where
  "certify x db base bounds prior =
     map_ok (\<lambda>fs. \<lparr>hf_tables = bt_from (zip HISTORY_TABLES fs),
                   hf_evaluation_sequence = hf_evaluation_sequence bounds\<rparr>)
       (collect_results (certify_table x db base bounds prior) HISTORY_TABLES)"

definition boundary_mismatch :: "string \<Rightarrow> int option \<Rightarrow> StoreError" where
  "boundary_mismatch table bound =
     StoreIntegrity [''history table no longer matches its validation watermark'', table,
       case_option ''?'' show_int bound]"

definition verify_boundary ::
  "'x history_externals_scheme \<Rightarrow> HistoryFrontier \<Rightarrow> history_db \<Rightarrow> string \<Rightarrow> (unit, StoreError) result" where
  "verify_boundary x frontier db table =
     and_then (ok_or (StoreIntegrity [''validation watermark has no frontier for history table'', table])
         (bt_get (hf_tables frontier) table))
       (\<lambda>recorded.
          case (tf_max_rowid recorded, tf_boundary recorded) of
            (Some bound, Some boundary) \<Rightarrow>
              refuse_if (map_option (\<lambda>row. hex (row_digest x row)) (row_at (db table) bound) \<noteq> Some boundary)
                (boundary_mismatch table (Some bound))
          | (recorded_bound, _) \<Rightarrow> refuse_if (recorded_bound \<noteq> None) (boundary_mismatch table None))"

definition verify_boundaries ::
  "'x history_externals_scheme \<Rightarrow> HistoryFrontier \<Rightarrow> history_db \<Rightarrow> (unit, StoreError) result" where
  "verify_boundaries x frontier db = run_checks (map (verify_boundary x frontier db) HISTORY_TABLES)"

section \<open>Commitment, applicability and replacement of a watermark\<close>

definition count_be_bytes :: "nat \<Rightarrow> bytes" where
  "count_be_bytes n = to_be_bytes (min (int n) (2 ^ 64 - 1))"

definition field_bytes :: "string \<Rightarrow> bytes" where
  "field_bytes s = len_be_bytes s @ s"

definition frontier_bytes :: "HistoryFrontier \<Rightarrow> bytes" where
  "frontier_bytes frontier =
     concat (map (\<lambda>(table, f).
       [LF] @ ''table'' @ [char_of (0 :: nat)] @ table @
       to_be_bytes (case_option 0 id (tf_max_rowid f)) @ to_be_bytes (tf_rows f) @
       tf_accumulator f @ case_option [] id (tf_boundary f)) (hf_tables frontier)) @
     to_be_bytes (hf_evaluation_sequence frontier)"

definition retention_bytes :: "RetentionWitness \<Rightarrow> bytes" where
  "retention_bytes r =
     [LF] @ ''retention'' @ [char_of (0 :: nat)] @
     concat (map to_be_bytes [rw_generation r, rw_evaluation_floor r, rw_report_floor r,
       rw_intake_floor r, rw_status_floor r]) @ field_bytes (rw_lineage_floors_digest r)"

definition semantic_bytes :: "SemanticState option \<Rightarrow> bytes" where
  "semantic_bytes semantic =
     (case semantic of
        None \<Rightarrow> [char_of (0 :: nat)]
      | Some state \<Rightarrow>
          [char_of (1 :: nat)] @
          concat (map (\<lambda>h. field_bytes (lh_lineage h) @ field_bytes (lh_finding_id h) @
            field_bytes (lh_condition_state h) @ to_be_bytes (lh_event_revision h)) (lineage_heads state)) @
          count_be_bytes (length (evaluation_heads state)) @
          concat (map (\<lambda>h. field_bytes (eh_lineage h) @ to_be_bytes (eh_evaluation_sequence h) @
            to_be_bytes (eh_evaluation_revision h)) (evaluation_heads state)))"

definition computed_commitment :: "'x history_externals_scheme \<Rightarrow> ValidationWatermark \<Rightarrow> string" where
  "computed_commitment x w =
     ''sha256:'' @ hex (sha256 x
       (concat (map field_bytes [vw_schema w, vw_validation_rules w, vw_engine_rules w, vw_genesis_id w,
          vw_schema_artifact_digest w]) @
        to_be_bytes (vw_schema_version w) @ retention_bytes (vw_retention w) @
        frontier_bytes (vw_frontier w) @ semantic_bytes (vw_semantic w)))"

definition VALIDATION_RULES :: string where
  "VALIDATION_RULES = ''nq-store/0.2.6/rules.4''"

record StoreIdentity =
  si_genesis_id :: string
  si_schema_version :: int
  si_schema_artifact_digest :: string
  si_retention :: RetentionWitness

datatype SidecarState = Absent | Unreadable | Present ValidationWatermark

datatype SemanticCertification = Established SemanticState | NotEstablished

definition refuse_foreign :: "string \<Rightarrow> ValidationWatermark \<Rightarrow> StoreIdentity option \<Rightarrow> (unit, StoreError) result" where
  "refuse_foreign path w identity =
     (case identity of
        None \<Rightarrow> Ok ()
      | Some i \<Rightarrow> refuse_if (vw_genesis_id w \<noteq> si_genesis_id i)
          (StoreIntegrity [''validation watermark was written for another store genesis'', path,
             vw_genesis_id w, si_genesis_id i]))"

definition applies_except_retention :: "ValidationWatermark \<Rightarrow> StoreIdentity \<Rightarrow> bool" where
  "applies_except_retention w i \<longleftrightarrow>
     vw_schema w = VALIDATION_WATERMARK_SCHEMA \<and> vw_validation_rules w = VALIDATION_RULES \<and>
     vw_genesis_id w = si_genesis_id i \<and> vw_schema_version w = si_schema_version i \<and>
     vw_schema_artifact_digest w = si_schema_artifact_digest i"

definition applies :: "ValidationWatermark \<Rightarrow> StoreIdentity \<Rightarrow> bool" where
  "applies w i \<longleftrightarrow> applies_except_retention w i \<and> vw_retention w = si_retention i"

definition verify_watermark ::
  "'x history_externals_scheme \<Rightarrow> history_db \<Rightarrow> ValidationWatermark \<Rightarrow> (unit, StoreError) result" where
  "verify_watermark x db w =
     and_then (refuse_if (computed_commitment x w \<noteq> vw_commitment_digest w)
         (StoreIntegrity [''validation watermark commitment does not match its own frontier'', vw_commitment_digest w]))
       (\<lambda>_. verify_boundaries x (vw_frontier w) db)"

definition build_watermark ::
  "'x history_externals_scheme \<Rightarrow> StoreIdentity \<Rightarrow> string \<Rightarrow> HistoryFrontier \<Rightarrow> SemanticCertification \<Rightarrow>
    string \<Rightarrow> ValidationWatermark" where
  "build_watermark x identity engine_rules frontier semantic validated_at =
     (let w = \<lparr>vw_schema = VALIDATION_WATERMARK_SCHEMA, vw_validation_rules = VALIDATION_RULES,
                vw_engine_rules = engine_rules, vw_genesis_id = si_genesis_id identity,
                vw_schema_version = si_schema_version identity,
                vw_schema_artifact_digest = si_schema_artifact_digest identity,
                vw_retention = si_retention identity, vw_frontier = frontier, vw_commitment_digest = [],
                vw_semantic = (case semantic of Established state \<Rightarrow> Some state | NotEstablished \<Rightarrow> None),
                vw_validated_at = validated_at\<rparr>
      in w\<lparr>vw_commitment_digest := computed_commitment x w\<rparr>)"

text \<open>
  \<open>regresses_shared_sidecar\<close> gives the reason as a message; here it is the table of the message with
  the two bounds.
\<close>

definition regresses_shared_sidecar ::
  "SidecarState \<Rightarrow> ValidationWatermark \<Rightarrow> (string \<times> int option \<times> int option) option" where
  "regresses_shared_sidecar sidecar w =
     (case sidecar of
        Present current \<Rightarrow>
          if vw_genesis_id current \<noteq> vw_genesis_id w \<or> vw_retention current \<noteq> vw_retention w \<or>
             vw_schema current \<noteq> vw_schema w \<or> vw_validation_rules current \<noteq> vw_validation_rules w \<or>
             vw_schema_version current \<noteq> vw_schema_version w \<or>
             vw_schema_artifact_digest current \<noteq> vw_schema_artifact_digest w then None
          else map_option (\<lambda>(table, f). (table, tf_max_rowid f, max_rowid (vw_frontier w) table))
            (List.find (\<lambda>(table, f). max_rowid (vw_frontier w) table < tf_max_rowid f)
               (hf_tables (vw_frontier current)))
      | _ \<Rightarrow> None)"

text \<open>
  \<open>write_watermark\<close> returns the new watermark and leaves the sidecar it replaces or keeps;
  \<open>persist\<close> stands for the atomic replacement of the file, which can fail.
\<close>

definition write_watermark ::
  "'x history_externals_scheme \<Rightarrow> (ValidationWatermark \<Rightarrow> (unit, StoreError) result) \<Rightarrow> SidecarState \<Rightarrow>
    StoreIdentity \<Rightarrow> string \<Rightarrow> HistoryFrontier \<Rightarrow> SemanticCertification \<Rightarrow> string \<Rightarrow>
    (ValidationWatermark \<times> SidecarState, StoreError) result" where
  "write_watermark x persist sidecar identity engine_rules frontier semantic validated_at =
     (let w = build_watermark x identity engine_rules frontier semantic validated_at
      in if regresses_shared_sidecar sidecar w \<noteq> None then Ok (w, sidecar)
         else map_ok (\<lambda>_. (w, Present w)) (persist w))"

section \<open>What a certification is of\<close>

text \<open>
  The specification of a certified table: its rows through the bound are counted and summed, and
  the bounding row is named by its digest.
\<close>

definition row_elements :: "'x history_externals_scheme \<Rightarrow> string \<Rightarrow> history_row list \<Rightarrow> bytes list" where
  "row_elements x table rows = map (\<lambda>row. row_element x table (row_digest x row)) rows"

definition accumulated :: "'x history_externals_scheme \<Rightarrow> string \<Rightarrow> history_row list \<Rightarrow> bytes" where
  "accumulated x table rows = foldl accumulate EMPTY_ACCUMULATOR (row_elements x table rows)"

definition covered :: "int option \<Rightarrow> history_table \<Rightarrow> history_row list" where
  "covered bound rows = filter (\<lambda>row. Some (fst row) \<le> bound) rows"

definition bounding_digest :: "'x history_externals_scheme \<Rightarrow> history_table \<Rightarrow> int option \<Rightarrow> string option" where
  "bounding_digest x rows bound = map_option (\<lambda>row. hex (row_digest x row)) (Option.bind bound (row_at rows))"

definition table_certificate ::
  "'x history_externals_scheme \<Rightarrow> string \<Rightarrow> history_table \<Rightarrow> int option \<Rightarrow> TableFrontier" where
  "table_certificate x table rows bound =
     \<lparr>tf_max_rowid = bound, tf_rows = int (length (covered bound rows)),
      tf_accumulator = hex (accumulated x table (covered bound rows)),
      tf_boundary = bounding_digest x rows bound\<rparr>"

definition checkpoint_holds :: "'x history_externals_scheme \<Rightarrow> string \<Rightarrow> history_table \<Rightarrow> TableFrontier \<Rightarrow> bool" where
  "checkpoint_holds x table rows c \<longleftrightarrow>
     (case tf_max_rowid c of
        None \<Rightarrow> True
      | Some k \<Rightarrow> row_at rows k \<noteq> None \<and> tf_rows c = int (length (covered (Some k) rows)) \<and>
          tf_accumulator c = hex (accumulated x table (covered (Some k) rows)))"

text \<open>Rowids are distinct, ascending, and above the least \<open>i64\<close>, which the code uses as "before every row".\<close>

definition ordered_table :: "history_table \<Rightarrow> bool" where
  "ordered_table rows \<longleftrightarrow> sorted_wrt (\<lambda>a b. fst a < fst b) rows \<and> list_all (\<lambda>row. i64_min < fst row) rows"

definition history_ordered :: "history_db \<Rightarrow> bool" where
  "history_ordered db \<longleftrightarrow> list_all (\<lambda>table. ordered_table (db table)) HISTORY_TABLES"

lemma row_at_Nil [simp]: "row_at [] k = None"
  by (simp add: row_at_def)

lemma row_at_Cons [simp]: "row_at (row # rows) k = (if fst row = k then Some row else row_at rows k)"
  by (simp add: row_at_def)

lemma row_at_None: "row_at rows k = None \<longleftrightarrow> k \<notin> fst ` set rows"
  by (induction rows) auto

lemma covered_simps [simp]:
  "covered bound [] = []"
  "covered bound (row # rows) = (if Some (fst row) \<le> bound then row # covered bound rows else covered bound rows)"
  "covered None rows = []"
  by (simp_all add: covered_def)

lemma covered_above: "list_all (\<lambda>row. k < fst row) rows \<Longrightarrow> covered (Some k) rows = []"
  by (simp add: covered_def list_all_iff filter_empty_conv not_le)

lemma row_elements_simps [simp]:
  "row_elements x table [] = []"
  "row_elements x table (row # rows) = row_element x table (row_digest x row) # row_elements x table rows"
  by (simp_all add: row_elements_def)

lemma sorted_rows_above:
  "sorted_wrt (\<lambda>a b. fst a < fst b) (row # rows) \<Longrightarrow> k \<le> fst row \<Longrightarrow> list_all (\<lambda>r. k < fst r) rows"
  for k :: int
  by (fastforce simp: list_all_iff)

section \<open>The cursor loop\<close>

lemma certify_rows_free:
  assumes "Option.bind checkpoint tf_max_rowid = None" and "sorted_wrt (\<lambda>a b. fst a < fst b) rows"
  shows "certify_rows x table bound checkpoint prior rows (n, a, boundary, seen) =
    Ok (n + int (length rows), foldl accumulate a (row_elements x table rows),
        case row_at rows bound of Some row \<Rightarrow> Some (hex (row_digest x row)) | None \<Rightarrow> boundary, seen)"
  using assms
proof (induction rows arbitrary: n a boundary)
  case (Cons row rows)
  have "fst row = bound \<Longrightarrow> row_at rows bound = None"
    using Cons.prems(2) by (auto simp: row_at_None)
  with Cons show ?case
    by (cases checkpoint) (auto simp: Let_def algebra_simps)
qed simp

lemma certify_rows_checked:
  assumes "tf_max_rowid c = Some k" and "sorted_wrt (\<lambda>a b. fst a < fst b) rows"
  shows "certify_rows x table bound (Some c) prior rows (n, a, boundary, seen) = Ok state \<longleftrightarrow>
    state = (n + int (length rows), foldl accumulate a (row_elements x table rows),
        case row_at rows bound of Some row \<Rightarrow> Some (hex (row_digest x row)) | None \<Rightarrow> boundary,
        seen \<or> row_at rows k \<noteq> None) \<and>
    (row_at rows k \<noteq> None \<longrightarrow>
       tf_rows c = n + int (length (covered (Some k) rows)) \<and>
       tf_accumulator c = hex (foldl accumulate a (row_elements x table (covered (Some k) rows))))"
  using assms
proof (induction rows arbitrary: n a boundary seen)
  case (Cons row rows)
  have after: "row_at rows bound = None" if "fst row = bound"
    using Cons.prems(2) that by (auto simp: row_at_None)
  have passed: "covered (Some k) rows = []" "row_at rows k = None" if "k \<le> fst row"
    using sorted_rows_above [OF Cons.prems(2) that] by (auto simp: covered_above row_at_None list_all_iff)
  consider "fst row = k" | "k < fst row" | "fst row < k" by linarith
  then show ?case
  proof cases
    case 1
    with Cons passed show ?thesis
      by (auto simp: Let_def checks verify_checkpoint_def after split: option.splits)
  next
    case 2
    with Cons passed show ?thesis by (auto simp: Let_def after)
  next
    case 3
    with Cons show ?thesis by (auto simp: Let_def after algebra_simps)
  qed
qed auto

section \<open>One table\<close>

lemma sorted_covered: "ordered_table rows \<Longrightarrow> sorted_wrt (\<lambda>a b. fst a < fst b) (covered bound rows)"
  by (simp add: ordered_table_def covered_def sorted_wrt_filter)

lemma row_at_covered: "row_at (covered bound rows) k = (if Some k \<le> bound then row_at rows k else None)"
  by (induction rows) auto

lemma row_at_append:
  "row_at (rows @ rows') k = (case row_at rows k of None \<Rightarrow> row_at rows' k | Some row \<Rightarrow> Some row)"
  by (induction rows) auto

lemma select_range_start: "ordered_table rows \<Longrightarrow> select_range None b rows = covered (Some b) rows"
  by (auto simp: select_range_def covered_def ordered_table_def list_all_iff intro!: filter_cong)

lemma covered_split:
  assumes "ordered_table rows" and "k \<le> b"
  shows "covered (Some b) rows = covered (Some k) rows @ select_range (Some k) b rows"
proof -
  have "sorted_wrt (\<lambda>a b. fst a < fst b) rows" using assms(1) by (simp add: ordered_table_def)
  then show ?thesis
  proof (induction rows)
    case (Cons row rows)
    have "covered (Some k) rows = []" if "k < fst row"
      using sorted_rows_above [OF Cons.prems, of k] that by (simp add: covered_above)
    with Cons assms(2) show ?case by (auto simp: select_range_def)
  qed (simp add: select_range_def)
qed

lemma bytes_32_accumulated:
  assumes "digests_32 x" shows "bytes_32 (accumulated x table rows)"
proof -
  have "list_all bytes_32 (row_elements x table rows)"
    using assms by (simp add: row_elements_def row_element_def digests_32_def list_all_iff)
  from acc.valid_foldl [OF acc.valid_zero this] show ?thesis by (simp add: accumulated_def)
qed

lemma accumulated_append:
  "accumulated x table (rows @ rows') = foldl accumulate (accumulated x table rows) (row_elements x table rows')"
  by (simp add: accumulated_def row_elements_def)

text \<open>From scratch the result is the certificate, and the prior certification is accepted exactly when it holds.\<close>

lemma certify_table_scratch:
  assumes "ordered_table (db table)"
  shows "certify_table x db None bounds prior table = Ok f \<longleftrightarrow>
    f = table_certificate x table (db table) (max_rowid bounds table) \<and>
    (\<forall>c. Option.bind prior (\<lambda>w. bt_get (hf_tables (vw_frontier w)) table) = Some c \<longrightarrow>
       checkpoint_holds x table (covered (max_rowid bounds table) (db table)) c)"
proof -
  define bound where "bound = max_rowid bounds table"
  define cp where "cp = Option.bind prior (\<lambda>w. bt_get (hf_tables (vw_frontier w)) table)"
  have sorted: "sorted_wrt (\<lambda>a b. fst a < fst b) (covered bound (db table))"
    using assms by (rule sorted_covered)
  note defs = certify_table_def certify_start_def table_certificate_def checkpoint_holds_def
    bounding_digest_def accumulated_def Let_def bound_def [symmetric] cp_def [symmetric]
  show ?thesis
  proof (cases "Option.bind cp tf_max_rowid")
    case None
    then have "\<forall>c. cp = Some c \<longrightarrow> tf_max_rowid c = None" by (cases cp) simp_all
    with None sorted show ?thesis
      by (cases bound) (auto simp: defs select_range_start [OF assms] certify_rows_free row_at_covered
          split: option.splits)
  next
    case (Some k)
    then obtain c where c: "cp = Some c" "tf_max_rowid c = Some k" by (cases cp) simp_all
    show ?thesis
    proof (cases bound)
      case None
      with c show ?thesis by (simp add: defs)
    next
      fix b assume b: "bound = Some b"
      have "covered (Some k) (covered (Some b) (db table)) = covered (Some k) (db table)" if "k \<le> b"
        using that by (auto simp: covered_def intro!: filter_cong)
      with b c sorted show ?thesis
        by (auto simp: defs checks select_range_start [OF assms] certify_rows_checked row_at_covered
            split: option.splits)
    qed
  qed
qed

text \<open>From an earlier certificate of the same rows the result is the certificate of all of them.\<close>

lemma certify_table_from:
  assumes x: "digests_32 x" and ordered: "ordered_table (db table)"
    and base: "bt_get (hf_tables base) table = Some (table_certificate x table rows bound)"
    and same: "covered bound rows = covered bound (db table)"
    and bounds: "bound \<le> max_rowid bounds table"
    and present: "Option.bind (max_rowid bounds table) (row_at (db table)) = None \<Longrightarrow> max_rowid bounds table = None"
  shows "certify_table x db (Some base) bounds prior table =
    Ok (table_certificate x table (db table) (max_rowid bounds table))"
proof -
  have digest: "bounding_digest x rows bound = bounding_digest x (db table) bound"
    using row_at_covered [of bound rows] row_at_covered [of bound "db table"] same
    by (cases bound) (simp_all add: bounding_digest_def, metis order_refl)
  have parsed: "parse_accumulator table (hex (accumulated x table r)) = Ok (accumulated x table r)" for r
    by (simp add: parse_accumulator_hex bytes_32_accumulated x)
  note defs = certify_table_def certify_start_def base Let_def table_certificate_def parsed same digest
  show ?thesis
  proof (cases "max_rowid bounds table")
    case None
    with bounds show ?thesis by (cases bound) (simp_all add: defs bounding_digest_def)
  next
    case (Some b)
    define new where "new = select_range bound b (db table)"
    have split: "covered (Some b) (db table) = covered bound (db table) @ new"
      using bounds Some covered_split [OF ordered] select_range_start [OF ordered]
      by (cases bound) (simp_all add: new_def)
    have "sorted_wrt (\<lambda>a b. fst a < fst b) new"
      using ordered by (simp add: new_def select_range_def ordered_table_def sorted_wrt_filter)
    moreover have "(case row_at new b of None \<Rightarrow> bounding_digest x (db table) bound
        | Some row \<Rightarrow> Some (hex (row_digest x row))) = bounding_digest x (db table) (Some b)"
    proof (cases "bound = Some b")
      case True
      then have "new = []" by (simp add: new_def select_range_def filter_empty_conv)
      with True show ?thesis by simp
    next
      case False
      with bounds Some have "\<not> Some b \<le> bound" by auto
      then have "row_at new b = row_at (db table) b"
        using arg_cong [OF split, of "\<lambda>r. row_at r b"] by (simp add: row_at_append row_at_covered)
      with present Some show ?thesis by (auto simp: bounding_digest_def split: option.splits)
    qed
    ultimately show ?thesis
      using bounds Some split
      by (auto simp: defs certify_rows_free accumulated_append new_def [symmetric])
  qed
qed

section \<open>All tables\<close>

definition frontier_certificate :: "'x history_externals_scheme \<Rightarrow> history_db \<Rightarrow> HistoryFrontier \<Rightarrow> HistoryFrontier" where
  "frontier_certificate x db bounds =
     \<lparr>hf_tables = bt_from (map (\<lambda>table. (table, table_certificate x table (db table) (max_rowid bounds table))) HISTORY_TABLES),
      hf_evaluation_sequence = hf_evaluation_sequence bounds\<rparr>"

lemma bt_get_from_map:
  "bt_get (bt_from (map (\<lambda>k. (k, g k)) ks)) k = (if k \<in> set ks then Some (g k) else None)"
  by (simp add: bt_get_from rev_map map_of_map_restrict restrict_map_def)

lemma collect_results_exact:
  assumes "\<And>k v. k \<in> set ks \<Longrightarrow> h k = Ok v \<longleftrightarrow> v = g k \<and> P k"
  shows "collect_results h ks = Ok vs \<longleftrightarrow> vs = map g ks \<and> list_all P ks"
  using assms by (induction ks arbitrary: vs) (auto simp: and_then_Ok)

lemma certify_exact:
  assumes "\<And>table f. table \<in> set HISTORY_TABLES \<Longrightarrow>
      certify_table x db base bounds prior table = Ok f \<longleftrightarrow>
      f = table_certificate x table (db table) (max_rowid bounds table) \<and> P table"
  shows "certify x db base bounds prior = Ok f \<longleftrightarrow> f = frontier_certificate x db bounds \<and> list_all P HISTORY_TABLES"
  using collect_results_exact [of HISTORY_TABLES, OF assms]
  by (auto simp: certify_def frontier_certificate_def zip_map2 zip_same_conv_map comp_def)

lemma max_rowid_certificate:
  "table \<in> set HISTORY_TABLES \<Longrightarrow> max_rowid (frontier_certificate x db bounds) table = max_rowid bounds table"
  by (simp add: max_rowid_def frontier_certificate_def bt_get_from_map table_certificate_def)

lemma sql_max_rowid_upper: "row \<in> set rows \<Longrightarrow> Some (fst row) \<le> sql_max_rowid rows"
  by (induction rows) (auto simp: sql_max_rowid_def le_max_iff_disj)

lemma sql_max_rowid_present: "sql_max_rowid rows = Some b \<Longrightarrow> row_at rows b \<noteq> None"
  by (induction rows) (auto simp: sql_max_rowid_def max_def split: if_splits)

lemma covered_all: "covered (sql_max_rowid rows) rows = rows"
  using sql_max_rowid_upper by (simp add: covered_def)

lemma captured_bound:
  assumes "capture_bounds db = Ok bounds" and "table \<in> set HISTORY_TABLES"
  shows "max_rowid bounds table = sql_max_rowid (db table)"
  using assms by (auto simp: capture_bounds_def max_rowid_def bt_get_from_map Let_def)

definition prior_holds :: "'x history_externals_scheme \<Rightarrow> history_db \<Rightarrow> HistoryFrontier \<Rightarrow> string \<Rightarrow> bool" where
  "prior_holds x db prior table \<longleftrightarrow>
     (case bt_get (hf_tables prior) table of None \<Rightarrow> True | Some c \<Rightarrow> checkpoint_holds x table (db table) c)"

lemma certify_captured:
  assumes "history_ordered db" and "capture_bounds db = Ok bounds"
  shows "certify x db None bounds prior = Ok f \<longleftrightarrow> f = frontier_certificate x db bounds \<and>
    list_all (\<lambda>table. case prior of None \<Rightarrow> True | Some w \<Rightarrow> prior_holds x db (vw_frontier w) table) HISTORY_TABLES"
proof (rule certify_exact)
  fix table and f :: TableFrontier
  assume table: "table \<in> set HISTORY_TABLES"
  with assms(1) have "ordered_table (db table)" by (simp add: history_ordered_def list_all_iff)
  then show "certify_table x db None bounds prior table = Ok f \<longleftrightarrow>
      f = table_certificate x table (db table) (max_rowid bounds table) \<and>
      (case prior of None \<Rightarrow> True | Some w \<Rightarrow> prior_holds x db (vw_frontier w) table)"
    unfolding certify_table_scratch [of db table, OF \<open>ordered_table (db table)\<close>]
      captured_bound [OF assms(2) table] covered_all
    by (auto simp: prior_holds_def split: option.splits)
qed

section \<open>Append-only growth\<close>

definition appended :: "history_db \<Rightarrow> history_db \<Rightarrow> bool" where
  "appended db0 db \<longleftrightarrow> list_all (\<lambda>table. prefix (db0 table) (db table)) HISTORY_TABLES"

lemma covered_prefix:
  assumes "ordered_table rows" and "prefix rows0 rows"
  shows "covered (sql_max_rowid rows0) rows = rows0"
proof -
  obtain new where rows: "rows = rows0 @ new" using assms(2) by (auto elim: prefixE)
  have "covered (sql_max_rowid rows0) new = []"
  proof (cases "sql_max_rowid rows0")
    case (Some b)
    then have "b \<in> fst ` set rows0"
      using sql_max_rowid_present row_at_None by blast
    with assms(1) rows show ?thesis
      unfolding Some by (intro covered_above) (auto simp: ordered_table_def sorted_wrt_append list_all_iff)
  qed simp
  with covered_all [of rows0] show ?thesis by (simp add: rows covered_def)
qed

lemma sql_max_rowid_prefix: "prefix rows0 rows \<Longrightarrow> sql_max_rowid rows0 \<le> sql_max_rowid rows"
  by (cases "sql_max_rowid rows0")
    (use sql_max_rowid_present row_at_None sql_max_rowid_upper set_mono_prefix in fastforce)+

lemma appended_facts:
  assumes "history_ordered db" and "appended db0 db" and "table \<in> set HISTORY_TABLES"
  shows "ordered_table (db table)" and "prefix (db0 table) (db table)" and "ordered_table (db0 table)"
proof -
  show ordered: "ordered_table (db table)" and pre: "prefix (db0 table) (db table)"
    using assms by (simp_all add: history_ordered_def appended_def list_all_iff)
  then show "ordered_table (db0 table)"
    by (auto simp: ordered_table_def sorted_wrt_append elim!: prefixE)
qed

lemma appended_ordered:
  assumes "history_ordered db" and "appended db0 db"
  shows "history_ordered db0"
  unfolding history_ordered_def list_all_iff using appended_facts(3) [OF assms] by blast

lemma row_at_prefix: "prefix rows0 rows \<Longrightarrow> row_at rows0 k = Some row \<Longrightarrow> row_at rows k = Some row"
  by (auto simp: row_at_append elim!: prefixE)

lemma certificate_survives_growth:
  assumes "history_ordered db" and "appended db0 db" and "capture_bounds db0 = Ok bounds0"
    and table: "table \<in> set HISTORY_TABLES"
  shows "prior_holds x db (frontier_certificate x db0 bounds0) table"
    and "verify_boundary x (frontier_certificate x db0 bounds0) db table = Ok ()"
proof -
  note facts = appended_facts [OF assms(1,2) table]
  note bound = captured_bound [OF assms(3) table]
  have entry: "bt_get (hf_tables (frontier_certificate x db0 bounds0)) table =
      Some (table_certificate x table (db0 table) (sql_max_rowid (db0 table)))"
    using table bound by (simp add: frontier_certificate_def bt_get_from_map)
  have row: "\<exists>row. row_at (db0 table) b = Some row \<and> row_at (db table) b = Some row"
    if "sql_max_rowid (db0 table) = Some b" for b
    using sql_max_rowid_present [OF that] row_at_prefix [OF facts(2)] by blast
  show "prior_holds x db (frontier_certificate x db0 bounds0) table"
    using row covered_prefix [OF facts(1,2)] covered_all [of "db0 table"]
    by (auto simp: prior_holds_def entry checkpoint_holds_def table_certificate_def split: option.split)
  show "verify_boundary x (frontier_certificate x db0 bounds0) db table = Ok ()"
    using row by (cases "sql_max_rowid (db0 table)")
      (auto simp: verify_boundary_def entry table_certificate_def bounding_digest_def)
qed

section \<open>The sidecar\<close>

lemma built_watermark:
  assumes "w = build_watermark x identity rules frontier semantic validated_at"
  shows "applies w identity" and "refuse_foreign path w (Some identity) = Ok ()"
    and "verify_watermark x db w = verify_boundaries x frontier db" and "vw_frontier w = frontier"
  by (simp_all add: assms build_watermark_def Let_def applies_def applies_except_retention_def
      refuse_foreign_def verify_watermark_def computed_commitment_def)

lemma max_rowid_entry:
  "bt_ordered (hf_tables f) \<Longrightarrow> (table, c) \<in> set (hf_tables f) \<Longrightarrow> max_rowid f table = tf_max_rowid c"
  unfolding bt_ordered_def by (subst max_rowid_def) (simp add: strict_sorted_iff)

text \<open>
  Under one identity of the store, writing a watermark never moves the bound of a table in the shared
  sidecar backwards.
\<close>

lemma write_keeps_bounds:
  assumes "applies current identity" and "bt_ordered (hf_tables (vw_frontier current))"
    and "write_watermark x persist (Present current) identity rules frontier semantic validated_at = Ok (w, sidecar)"
  obtains w' where "sidecar = Present w'" and "applies w' identity"
    and "\<forall>(table, c) \<in> set (hf_tables (vw_frontier current)). tf_max_rowid c \<le> max_rowid (vw_frontier w') table"
proof (cases "regresses_shared_sidecar (Present current) w")
  case None
  have w: "w = build_watermark x identity rules frontier semantic validated_at"
    using assms(3) by (auto simp: write_watermark_def Let_def split: if_splits)
  have same: "vw_genesis_id current = vw_genesis_id w" "vw_retention current = vw_retention w"
      "vw_schema current = vw_schema w" "vw_validation_rules current = vw_validation_rules w"
      "vw_schema_version current = vw_schema_version w"
      "vw_schema_artifact_digest current = vw_schema_artifact_digest w"
    using assms(1) built_watermark(1) [OF w]
    by (simp_all add: applies_def applies_except_retention_def)
  have "\<forall>(table, c) \<in> set (hf_tables (vw_frontier current)). tf_max_rowid c \<le> max_rowid (vw_frontier w) table"
    using None by (auto simp: regresses_shared_sidecar_def same find_None_iff not_less)
  moreover have "sidecar = Present w"
    using assms(3) None by (auto simp: write_watermark_def Let_def w split: if_splits)
  ultimately show thesis
    using that built_watermark(1) [OF w] by blast
next
  case (Some reason)
  then have "sidecar = Present current"
    using assms(3) by (cases reason) (auto simp: write_watermark_def Let_def split: if_splits)
  moreover have "\<forall>(table, c) \<in> set (hf_tables (vw_frontier current)). tf_max_rowid c \<le> max_rowid (vw_frontier current) table"
    using max_rowid_entry [OF assms(2)] by auto
  ultimately show thesis using that assms(1) by blast
qed

subsection \<open>Sample history\<close>

text \<open>
  A store that appended one watcher run and one evaluation after a validation, with a stand-in digest
  of the first bytes of its input.
\<close>

definition sample_digest_externals :: history_externals where
  "sample_digest_externals = \<lparr>sha256 = (\<lambda>bs. take 32 (bs @ replicate 32 CHR ''.''))\<rparr>"

definition sample_history :: history_db where
  "sample_history table =
     (if table = ''evaluation_runs'' then [(1, [Text ''e1'', Integer 1])]
      else if table = ''watcher_runs'' then [(1, [Text ''r1''])] else [])"

definition sample_grown :: history_db where
  "sample_grown table =
     (if table = ''evaluation_runs'' then [(1, [Text ''e1'', Integer 1]), (2, [Text ''e2'', Integer 2])]
      else if table = ''watcher_runs'' then [(1, [Text ''r1'']), (4, [Text ''r2''])] else [])"

definition sample_bounds :: "history_db \<Rightarrow> int \<Rightarrow> HistoryFrontier" where
  "sample_bounds db v =
     \<lparr>hf_tables = bt_from (map (\<lambda>table. (table, default_frontier\<lparr>tf_max_rowid := sql_max_rowid (db table)\<rparr>)) HISTORY_TABLES),
      hf_evaluation_sequence = v\<rparr>"

definition sample_identity :: StoreIdentity where
  "sample_identity =
     \<lparr>si_genesis_id = ''g'', si_schema_version = 15, si_schema_artifact_digest = ''sha256:0'',
      si_retention = \<lparr>rw_generation = 0, rw_evaluation_floor = 0, rw_report_floor = 0, rw_intake_floor = 0,
        rw_status_floor = 0, rw_lineage_floors_digest = []\<rparr>\<rparr>"

definition sample_watermark :: "HistoryFrontier \<Rightarrow> ValidationWatermark" where
  "sample_watermark frontier =
     build_watermark sample_digest_externals sample_identity ''engine'' frontier NotEstablished ''2026-01-01T00:00:00Z''"

lemma evaluation_runs_history: "''evaluation_runs'' \<in> set HISTORY_TABLES"
  by (simp add: HISTORY_TABLES_def)

lemma sample_digests: "digests_32 sample_digest_externals"
  by (simp add: digests_32_def sample_digest_externals_def min_def)

lemma sample_ordered: "history_ordered sample_history" "history_ordered sample_grown"
  by (auto simp: history_ordered_def list_all_iff sample_history_def sample_grown_def ordered_table_def i64_min_def)

lemma sample_appended: "appended sample_history sample_grown"
  by (simp add: appended_def list_all_iff sample_history_def sample_grown_def)

lemma sample_captured:
  "capture_bounds sample_history = Ok (sample_bounds sample_history 1)"
  "capture_bounds sample_grown = Ok (sample_bounds sample_grown 2)"
  by (simp_all add: capture_bounds_def sample_bounds_def bt_get_from_map evaluation_runs_history
      sample_history_def sample_grown_def sql_max_rowid_def query_evaluation_sequence_def max_def Let_def)

lemma sample_watermark_frontier: "vw_frontier (sample_watermark f) = f"
  by (simp add: sample_watermark_def build_watermark_def Let_def)

lemmas sample_facts = sample_digests sample_ordered sample_appended sample_captured sample_watermark_frontier

section \<open>Properties\<close>

text \<open>
  C21. A full certification of a store against the watermark of an earlier validation succeeds exactly
  when every table of that watermark still has its bounding row and the same row count and content
  sum through it; the result then depends on the store only.
\<close>

theorem full_certification_exact:
  assumes "history_ordered db" and "capture_bounds db = Ok bounds"
  shows "certify x db None bounds (Some w) = Ok f \<longleftrightarrow>
    f = frontier_certificate x db bounds \<and> list_all (prior_holds x db (vw_frontier w)) HISTORY_TABLES"
  using certify_captured [OF assms, of x "Some w" f] by simp

theorem full_certification_exact_witness:
  "history_ordered sample_grown \<and> capture_bounds sample_grown = Ok (sample_bounds sample_grown 2) \<and>
   certify sample_digest_externals sample_grown None (sample_bounds sample_grown 2)
     (Some (sample_watermark (frontier_certificate sample_digest_externals sample_history (sample_bounds sample_history 1)))) =
     Ok (frontier_certificate sample_digest_externals sample_grown (sample_bounds sample_grown 2))"
proof -
  have "list_all (prior_holds sample_digest_externals sample_grown
      (frontier_certificate sample_digest_externals sample_history (sample_bounds sample_history 1))) HISTORY_TABLES"
    unfolding list_all_iff
    using certificate_survives_growth(1) [OF sample_ordered(2) sample_appended sample_captured(1)] by blast
  then show ?thesis
    by (simp add: full_certification_exact [OF sample_ordered(2) sample_captured(2)] sample_facts)
qed

text \<open>
  C20. After append-only growth, extending an earlier certification over the new rows gives the frontier
  that a certification from scratch gives, whatever watermark is at hand; the earlier certification
  raises no false alarm in a full certification, and its bounding rows still verify.
\<close>

theorem incremental_certification_is_full:
  assumes "digests_32 x" and "history_ordered db" and "appended db0 db"
    and "capture_bounds db0 = Ok bounds0" and "certify x db0 None bounds0 None = Ok f0"
    and "capture_bounds db = Ok bounds" and "vw_frontier w = f0"
  shows "\<exists>f. certify x db None bounds None = Ok f \<and> certify x db (Some f0) bounds prior = Ok f \<and>
    certify x db None bounds (Some w) = Ok f \<and> verify_boundaries x f0 db = Ok ()"
proof -
  have f0: "f0 = frontier_certificate x db0 bounds0"
    using certify_captured [OF appended_ordered [OF assms(2,3)] assms(4)] assms(5) by blast
  note survives = certificate_survives_growth [OF assms(2,3,4), of _ x]
  have "certify_table x db (Some f0) bounds prior table = Ok (table_certificate x table (db table) (max_rowid bounds table))"
    if table: "table \<in> set HISTORY_TABLES" for table
  proof (rule certify_table_from [OF assms(1), where rows = "db0 table" and bound = "sql_max_rowid (db0 table)"])
    note facts = appended_facts [OF assms(2,3) table]
    show "ordered_table (db table)" by (rule facts)
    show "bt_get (hf_tables f0) table = Some (table_certificate x table (db0 table) (sql_max_rowid (db0 table)))"
      using table captured_bound [OF assms(4) table] by (simp add: f0 frontier_certificate_def bt_get_from_map)
    show "covered (sql_max_rowid (db0 table)) (db0 table) = covered (sql_max_rowid (db0 table)) (db table)"
      using covered_prefix [OF facts(1,2)] covered_all by simp
    show "sql_max_rowid (db0 table) \<le> max_rowid bounds table"
      using sql_max_rowid_prefix [OF facts(2)] captured_bound [OF assms(6) table] by simp
    show "max_rowid bounds table = None" if "Option.bind (max_rowid bounds table) (row_at (db table)) = None"
      using that sql_max_rowid_present captured_bound [OF assms(6) table]
      by (cases "sql_max_rowid (db table)") fastforce+
  qed
  then have "certify x db (Some f0) bounds prior = Ok (frontier_certificate x db bounds)"
    using certify_exact [of x db "Some f0" bounds prior "\<lambda>_. True"] by (auto simp: list_all_iff)
  moreover have "list_all (prior_holds x db f0) HISTORY_TABLES" "verify_boundaries x f0 db = Ok ()"
    using survives by (simp_all add: f0 list_all_iff verify_boundaries_def checks)
  ultimately show ?thesis
    using certify_captured [OF assms(2,6), of x None] certify_captured [OF assms(2,6), of x "Some w"] assms(7)
    by (auto simp: list_all_iff)
qed

theorem incremental_certification_is_full_witness:
  "\<exists>f0 f. certify sample_digest_externals sample_history None (sample_bounds sample_history 1) None = Ok f0 \<and>
     certify sample_digest_externals sample_grown None (sample_bounds sample_grown 2) None = Ok f \<and>
     certify sample_digest_externals sample_grown (Some f0) (sample_bounds sample_grown 2) None = Ok f"
proof -
  have "certify sample_digest_externals sample_history None (sample_bounds sample_history 1) None =
      Ok (frontier_certificate sample_digest_externals sample_history (sample_bounds sample_history 1))"
    unfolding certify_captured [OF sample_ordered(1) sample_captured(1)] by (simp add: list_all_iff)
  from incremental_certification_is_full [OF sample_digests sample_ordered(2) sample_appended sample_captured(1)
      this sample_captured(2) sample_watermark_frontier, of None] this
  show ?thesis by blast
qed

text \<open>
  C25. A watermark recorded for a certified store is accepted by every later open of the store while its
  history only grew and its identity is the same: it is not foreign, it applies, and it verifies.
\<close>

theorem recorded_watermark_reopens:
  assumes "history_ordered db" and "appended db0 db"
    and "capture_bounds db0 = Ok bounds0" and "certify x db0 None bounds0 None = Ok f0"
    and "write_watermark x persist sidecar identity rules f0 semantic validated_at = Ok (w, sidecar')"
  shows "refuse_foreign path w (Some identity) = Ok () \<and> applies w identity \<and> verify_watermark x db w = Ok ()"
proof -
  have "w = build_watermark x identity rules f0 semantic validated_at"
    using assms(5) by (auto simp: write_watermark_def Let_def split: if_splits)
  note built = built_watermark [OF this]
  have "f0 = frontier_certificate x db0 bounds0"
    using certify_captured [OF appended_ordered [OF assms(1,2)] assms(3)] assms(4) by blast
  then have "verify_boundaries x f0 db = Ok ()"
    using certificate_survives_growth(2) [OF assms(1,2,3), of _ x] by (simp add: verify_boundaries_def checks)
  with built show ?thesis by simp
qed

theorem recorded_watermark_reopens_witness:
  "\<exists>f0 w. certify sample_digest_externals sample_history None (sample_bounds sample_history 1) None = Ok f0 \<and>
     write_watermark sample_digest_externals (\<lambda>_. Ok ()) Absent sample_identity ''engine'' f0 NotEstablished
       ''2026-01-01T00:00:00Z'' = Ok (w, Present w) \<and>
     applies w sample_identity \<and> verify_watermark sample_digest_externals sample_grown w = Ok ()"
proof -
  let ?f0 = "frontier_certificate sample_digest_externals sample_history (sample_bounds sample_history 1)"
  let ?w = "build_watermark sample_digest_externals sample_identity ''engine'' ?f0 NotEstablished ''2026-01-01T00:00:00Z''"
  have certified: "certify sample_digest_externals sample_history None (sample_bounds sample_history 1) None = Ok ?f0"
    unfolding certify_captured [OF sample_ordered(1) sample_captured(1)] by (simp add: list_all_iff)
  have "write_watermark sample_digest_externals (\<lambda>_. Ok ()) Absent sample_identity ''engine'' ?f0 NotEstablished
       ''2026-01-01T00:00:00Z'' = Ok (?w, Present ?w)"
    by (simp add: write_watermark_def regresses_shared_sidecar_def Let_def)
  from recorded_watermark_reopens [OF sample_ordered(2) sample_appended sample_captured(1) certified this] certified this
  show ?thesis by blast
qed

text \<open>
  C26. Under one store identity, a completed watermark write leaves a sidecar that applies and that covers
  in every table at least what the sidecar before covered.
\<close>

theorem shared_sidecar_never_regresses:
  assumes "applies current identity" and "bt_ordered (hf_tables (vw_frontier current))"
    and "write_watermark x persist (Present current) identity rules frontier semantic validated_at = Ok (w, sidecar)"
  shows "\<exists>w'. sidecar = Present w' \<and> applies w' identity \<and>
    list_all (\<lambda>(table, c). tf_max_rowid c \<le> max_rowid (vw_frontier w') table) (hf_tables (vw_frontier current))"
  by (rule write_keeps_bounds [OF assms]) (auto simp: list_all_iff)

theorem shared_sidecar_never_regresses_witness:
  "\<exists>w sidecar w'. write_watermark sample_digest_externals (\<lambda>_. Ok ())
      (Present (sample_watermark (sample_bounds sample_grown 2))) sample_identity ''engine''
      (sample_bounds sample_history 1) NotEstablished ''later'' = Ok (w, sidecar) \<and>
     sidecar = Present w' \<and> list_all (\<lambda>(table, c). tf_max_rowid c \<le> max_rowid (vw_frontier w') table)
       (hf_tables (sample_bounds sample_grown 2))"
proof -
  let ?current = "sample_watermark (sample_bounds sample_grown 2)"
  have "\<exists>w sidecar. write_watermark sample_digest_externals (\<lambda>_. Ok ()) (Present ?current) sample_identity ''engine''
      (sample_bounds sample_history 1) NotEstablished ''later'' = Ok (w, sidecar)"
    by (simp add: write_watermark_def Let_def)
  then obtain w sidecar where w: "write_watermark sample_digest_externals (\<lambda>_. Ok ()) (Present ?current)
      sample_identity ''engine'' (sample_bounds sample_history 1) NotEstablished ''later'' = Ok (w, sidecar)"
    by blast
  have "applies ?current sample_identity" by (rule built_watermark(1) [OF sample_watermark_def])
  moreover have "bt_ordered (hf_tables (vw_frontier ?current))"
    by (simp add: sample_watermark_frontier sample_bounds_def bt_ordered_from)
  ultimately show ?thesis
    using shared_sidecar_never_regresses [of ?current, OF _ _ w] w by (auto simp: sample_watermark_frontier)
qed

end
