(* ===== verification/History_Expiry.thy ===== *)
theory History_Expiry
  imports History_Scope
begin

text \<open>
  Expiry of history below a retention boundary: the mutations one expiry transaction makes
  (\<open>crates/nq-store/src/retention.rs\<close>: \<open>Mutation\<close>, \<open>repack\<close> and the schedule of
  \<open>expire_ordinary_before_checked\<close>), the delta it records of the covered rows it removes or rewrites,
  and the frontier carried across it without reading the surviving history again
  (\<open>crates/nq-store/src/history_scope.rs\<close>: \<open>ExpiryDelta\<close>, \<open>reanchor_bounds\<close>).

  A SQL predicate is a function of the database and of the columns of a row. What the schema and its
  triggers could refuse beyond the uniqueness of a rowid is not part of the model.
\<close>

section \<open>The delta of an expiry\<close>

record TableDelta =
  td_removed :: bytes
  td_added :: bytes
  td_rows_removed :: int
  td_rows_added :: int

record ExpiryDelta =
  ed_bounds :: "(string, int option) btree_map"
  ed_tables :: "(string, TableDelta) btree_map"

type_synonym row_predicate = "history_db \<Rightarrow> ValueRef list \<Rightarrow> bool"

definition expiry_delta_new :: "HistoryFrontier \<Rightarrow> ExpiryDelta" where
  "expiry_delta_new frontier =
     \<lparr>ed_bounds = bt_from (map (\<lambda>(table, recorded). (table, tf_max_rowid recorded)) (hf_tables frontier)),
      ed_tables = []\<rparr>"

definition covered_rows ::
  "'x history_externals_scheme \<Rightarrow> ExpiryDelta \<Rightarrow> history_db \<Rightarrow> string \<Rightarrow> row_predicate \<Rightarrow> (int \<times> bytes) list" where
  "covered_rows x delta db table predicate =
     (case bt_get (ed_bounds delta) table of
        Some (Some bound) \<Rightarrow>
          map (\<lambda>row. (fst row, row_digest x row))
            (filter (\<lambda>row. fst row \<le> bound \<and> predicate db (snd row)) (db table))
      | _ \<Rightarrow> [])"

definition delta_entry :: "ExpiryDelta \<Rightarrow> string \<Rightarrow> TableDelta" where
  "delta_entry delta table =
     (case bt_get (ed_tables delta) table of
        Some d \<Rightarrow> d
      | None \<Rightarrow> \<lparr>td_removed = EMPTY_ACCUMULATOR, td_added = EMPTY_ACCUMULATOR, td_rows_removed = 0, td_rows_added = 0\<rparr>)"

definition delta_removed ::
  "'x history_externals_scheme \<Rightarrow> string \<Rightarrow> (int \<times> bytes) list \<Rightarrow> ExpiryDelta \<Rightarrow> ExpiryDelta" where
  "delta_removed x table rows delta =
     delta\<lparr>ed_tables := bt_insert table
       (foldl (\<lambda>d (_, digest). d\<lparr>td_removed := accumulate (td_removed d) (row_element x table digest),
                                  td_rows_removed := td_rows_removed d + 1\<rparr>)
          (delta_entry delta table) rows) (ed_tables delta)\<rparr>"

definition delta_added ::
  "'x history_externals_scheme \<Rightarrow> string \<Rightarrow> (int \<times> bytes) list \<Rightarrow> ExpiryDelta \<Rightarrow> ExpiryDelta" where
  "delta_added x table rows delta =
     delta\<lparr>ed_tables := bt_insert table
       (foldl (\<lambda>d (_, digest). d\<lparr>td_added := accumulate (td_added d) (row_element x table digest),
                                  td_rows_added := td_rows_added d + 1\<rparr>)
          (delta_entry delta table) rows) (ed_tables delta)\<rparr>"

text \<open>\<open>SELECT MAX(rowid) FROM table WHERE rowid <= bound\<close>\<close>

definition surviving_rowid :: "history_db \<Rightarrow> string \<Rightarrow> int \<Rightarrow> int option" where
  "surviving_rowid db table bound = sql_max_rowid (filter (\<lambda>row. fst row \<le> bound) (db table))"

definition set_frontier :: "string \<Rightarrow> TableFrontier \<Rightarrow> HistoryFrontier \<Rightarrow> HistoryFrontier" where
  "set_frontier table recorded frontier = frontier\<lparr>hf_tables := bt_insert table recorded (hf_tables frontier)\<rparr>"

text \<open>One step of the carry: \<open>Ok None\<close> withdraws the certification.\<close>

definition carry_table ::
  "'x history_externals_scheme \<Rightarrow> history_db \<Rightarrow> string \<Rightarrow> TableDelta \<Rightarrow> TableFrontier \<Rightarrow>
    (TableFrontier option, StoreError) result" where
  "carry_table x db table delta recorded =
     and_then (parse_accumulator table (tf_accumulator recorded)) (\<lambda>a.
       let accumulator = accumulate (deduct a (td_removed delta)) (td_added delta);
           rows = tf_rows recorded - td_rows_removed delta + td_rows_added delta;
           recorded = recorded\<lparr>tf_accumulator := hex accumulator, tf_rows := rows\<rparr>
       in case tf_max_rowid recorded of
            None \<Rightarrow> Ok (Some recorded)
          | Some bound \<Rightarrow>
              let surviving = surviving_rowid db table bound
              in if table = ''evaluation_runs'' \<and> surviving \<noteq> Some bound then Ok None
                 else and_then
                   (case surviving of
                      Some rowid \<Rightarrow> map_ok (\<lambda>row. Some (hex (row_digest x row)))
                        (ok_or (StoreIntegrity [''history table lost row'', table, show_int rowid]) (row_at (db table) rowid))
                    | None \<Rightarrow> Ok None)
                   (\<lambda>boundary.
                      if rows < 0 \<or> surviving = None \<and> (rows \<noteq> 0 \<or> accumulator \<noteq> EMPTY_ACCUMULATOR) then
                        Err (StoreIntegrity [''validation watermark carry-forward is inconsistent'', table])
                      else Ok (Some (recorded\<lparr>tf_max_rowid := surviving, tf_boundary := boundary\<rparr>))))"

fun carry_tables ::
  "'x history_externals_scheme \<Rightarrow> history_db \<Rightarrow> (string, TableDelta) btree_map \<Rightarrow> HistoryFrontier \<Rightarrow>
    (HistoryFrontier option, StoreError) result" where
  "carry_tables x db [] carried = Ok (Some carried)"
| "carry_tables x db ((table, delta) # deltas) carried =
     and_then (ok_or (StoreIntegrity [''validation watermark has no frontier for history table'', table])
         (bt_get (hf_tables carried) table))
       (\<lambda>recorded. and_then (carry_table x db table delta recorded) (\<lambda>r.
          case r of
            None \<Rightarrow> Ok None
          | Some recorded \<Rightarrow> carry_tables x db deltas (set_frontier table recorded carried)))"

definition carry ::
  "'x history_externals_scheme \<Rightarrow> history_db \<Rightarrow> ExpiryDelta \<Rightarrow> HistoryFrontier \<Rightarrow>
    (HistoryFrontier option, StoreError) result" where
  "carry x db delta frontier = carry_tables x db (ed_tables delta) frontier"

definition reanchor_bounds :: "history_db \<Rightarrow> HistoryFrontier \<Rightarrow> (HistoryFrontier, StoreError) result" where
  "reanchor_bounds db frontier =
     (let out = frontier\<lparr>hf_tables := map (\<lambda>(table, recorded).
            (table, case tf_max_rowid recorded of
               Some bound \<Rightarrow> recorded\<lparr>tf_max_rowid := surviving_rowid db table bound\<rparr>
             | None \<Rightarrow> recorded)) (hf_tables frontier)\<rparr>;
          evaluation_bound = max_rowid out ''evaluation_runs''
      in if evaluation_bound \<noteq> max_rowid frontier ''evaluation_runs'' then
           map_ok (\<lambda>v. out\<lparr>hf_evaluation_sequence := v\<rparr>)
             (case evaluation_bound of
                Some rowid \<Rightarrow> query_evaluation_sequence db rowid
              | None \<Rightarrow> Ok 0)
         else Ok out)"

section \<open>Mutations\<close>

text \<open>
  \<open>table_info\<close> gives the column names of a table, as \<open>pragma_table_info\<close> does; a \<open>SET\<close> clause is a
  list of columns with their new values.
\<close>

record expiry_externals = history_externals +
  table_info :: "string \<Rightarrow> string list"

type_synonym set_clause = "(string \<times> ValueRef) list"

datatype Mutation =
    Delete row_predicate
  | Update set_clause row_predicate
  | Repack "set_clause option" row_predicate

definition column :: "string list \<Rightarrow> ValueRef list \<Rightarrow> string \<Rightarrow> ValueRef option" where
  "column names cells name = map_of (zip names cells) name"

definition set_columns :: "string list \<Rightarrow> set_clause \<Rightarrow> ValueRef list \<Rightarrow> ValueRef list" where
  "set_columns names assignments cells =
     map2 (\<lambda>name v. case_option v id (map_of assignments name)) names cells"

definition set_row :: "string list \<Rightarrow> set_clause \<Rightarrow> history_row \<Rightarrow> history_row" where
  "set_row names assignments row = (fst row, set_columns names assignments (snd row))"

fun insert_row :: "history_row \<Rightarrow> history_table \<Rightarrow> (history_table, StoreError) result" where
  "insert_row row [] = Ok [row]"
| "insert_row row (r # rows) =
     (if fst row < fst r then Ok (row # r # rows)
      else if fst row = fst r then Err (StoreSqlite ''UNIQUE constraint failed'')
      else map_ok ((#) r) (insert_row row rows))"

fun insert_rows :: "history_row list \<Rightarrow> history_table \<Rightarrow> (history_table, StoreError) result" where
  "insert_rows [] rows = Ok rows"
| "insert_rows (row # rest) rows = and_then (insert_row row rows) (insert_rows rest)"

definition sql_delete :: "history_db \<Rightarrow> string \<Rightarrow> row_predicate \<Rightarrow> nat \<times> history_db" where
  "sql_delete db table predicate =
     (length (filter (\<lambda>row. predicate db (snd row)) (db table)),
      db(table := filter (\<lambda>row. \<not> predicate db (snd row)) (db table)))"

definition sql_update ::
  "expiry_externals \<Rightarrow> history_db \<Rightarrow> string \<Rightarrow> set_clause \<Rightarrow> row_predicate \<Rightarrow> nat \<times> history_db" where
  "sql_update x db table assignments predicate =
     (length (filter (\<lambda>row. predicate db (snd row)) (db table)),
      db(table := map (\<lambda>row. if predicate db (snd row) then set_row (table_info x table) assignments row else row) (db table)))"

definition repack ::
  "expiry_externals \<Rightarrow> history_db \<Rightarrow> string \<Rightarrow> set_clause option \<Rightarrow> row_predicate \<Rightarrow>
    (nat \<times> history_db, StoreError) result" where
  "repack x db table assignments predicate =
     (let selected = filter (\<lambda>row. predicate db (snd row)) (db table);
          copied = (case assignments of
                      Some s \<Rightarrow> map (set_row (table_info x table) s) selected
                    | None \<Rightarrow> selected);
          kept = filter (\<lambda>row. fst row \<notin> set (map fst copied)) (db table)
      in map_ok (\<lambda>rows. (length copied, db(table := rows))) (insert_rows (sort_key fst copied) kept))"

definition apply_mutation ::
  "expiry_externals \<Rightarrow> history_db \<Rightarrow> string \<Rightarrow> Mutation \<Rightarrow> ExpiryDelta option \<Rightarrow>
    (nat \<times> history_db \<times> ExpiryDelta option, StoreError) result" where
  "apply_mutation x db table mutation delta =
     (case (mutation, delta) of
        (Delete predicate, None) \<Rightarrow> (case sql_delete db table predicate of (n, db') \<Rightarrow> Ok (n, db', None))
      | (Update assignments predicate, None) \<Rightarrow>
          (case sql_update x db table assignments predicate of (n, db') \<Rightarrow> Ok (n, db', None))
      | (Delete predicate, Some d) \<Rightarrow>
          (let removed = covered_rows x d db table predicate
           in case sql_delete db table predicate of (n, db') \<Rightarrow> Ok (n, db', Some (delta_removed x table removed d)))
      | (Repack assignments predicate, None) \<Rightarrow>
          map_ok (\<lambda>(n, db'). (n, db', None)) (repack x db table assignments predicate)
      | (Repack assignments predicate, Some d) \<Rightarrow>
          (let before = covered_rows x d db table predicate
           in map_ok (\<lambda>(n, db').
                let after = covered_rows x d db' table predicate
                in (n, db', Some (delta_added x table after (delta_removed x table before d))))
                (repack x db table assignments predicate))
      | (Update assignments predicate, Some d) \<Rightarrow>
          (let before = covered_rows x d db table predicate
           in case sql_update x db table assignments predicate of (n, db') \<Rightarrow>
                let after = covered_rows x d db' table predicate
                in Ok (n, db', Some (delta_added x table after (delta_removed x table before d)))))"

fun apply_mutations ::
  "expiry_externals \<Rightarrow> history_db \<Rightarrow> (string \<times> Mutation) list \<Rightarrow> ExpiryDelta option \<Rightarrow>
    (nat \<times> history_db \<times> ExpiryDelta option, StoreError) result" where
  "apply_mutations x db [] delta = Ok (0, db, delta)"
| "apply_mutations x db ((table, mutation) # rest) delta =
     and_then (apply_mutation x db table mutation delta) (\<lambda>(n, db', delta').
       map_ok (\<lambda>(m, r). (n + m, r)) (apply_mutations x db' rest delta'))"

section \<open>The schedule of an expiry\<close>

text \<open>
  The temporary tables \<open>plan_expiry\<close> leaves: evaluations with their disposition, reports kept in
  compact form, runs that retire (an anchor run keeps its row), and the intakes to retire with the
  links recorded for them.
\<close>

datatype disposition = DispositionIsland | DispositionCompact | DispositionDelete

record retired_intake =
  ri_intake_id :: string
  ri_commitment :: string
  ri_run_id :: string
  ri_submission_id :: "string option"
  ri_report_id :: "string option"
  ri_semantic_digest :: "string option"

record expiry_tables =
  expiry_evaluations :: "(string \<times> disposition) list"
  expiry_compact_reports :: "string list"
  expiry_dead_runs :: "(string \<times> bool) list"

text \<open>\<open>column IN (...)\<close> and \<open>column NOT IN (...)\<close> on text keys; a comparison with \<open>NULL\<close> selects no row.\<close>

definition sql_in :: "ValueRef option \<Rightarrow> string list \<Rightarrow> bool" where
  "sql_in v keys = (case v of Some (Text s) \<Rightarrow> s \<in> set keys | _ \<Rightarrow> False)"

definition sql_not_in :: "ValueRef option \<Rightarrow> string list \<Rightarrow> bool" where
  "sql_not_in v keys = (case v of Some (Text s) \<Rightarrow> s \<notin> set keys | Some Null \<Rightarrow> keys = [] | _ \<Rightarrow> True)"

definition select_text :: "expiry_externals \<Rightarrow> history_db \<Rightarrow> string \<Rightarrow> string \<Rightarrow> (ValueRef list \<Rightarrow> bool) \<Rightarrow> string list" where
  "select_text x db table name predicate =
     List.map_filter (\<lambda>row. case column (table_info x table) (snd row) name of Some (Text s) \<Rightarrow> Some s | _ \<Rightarrow> None)
       (filter (\<lambda>row. predicate (snd row)) (db table))"

definition dead_run_ids :: "expiry_tables \<Rightarrow> string list" where
  "dead_run_ids e = map fst (expiry_dead_runs e)"

definition disposed :: "expiry_tables \<Rightarrow> (disposition \<Rightarrow> bool) \<Rightarrow> string list" where
  "disposed e P = map fst (filter (\<lambda>(_, d). P d) (expiry_evaluations e))"

definition dead_submissions :: "expiry_externals \<Rightarrow> expiry_tables \<Rightarrow> history_db \<Rightarrow> string list" where
  "dead_submissions x e db =
     select_text x db ''raw_submissions'' ''submission_id''
       (\<lambda>v. sql_in (column (table_info x ''raw_submissions'') v ''run_id'') (dead_run_ids e))"

definition dead_reports :: "expiry_externals \<Rightarrow> expiry_tables \<Rightarrow> history_db \<Rightarrow> string list" where
  "dead_reports x e db =
     select_text x db ''admitted_reports'' ''report_id''
       (\<lambda>v. sql_in (column (table_info x ''admitted_reports'') v ''submission_id'') (dead_submissions x e db))"

definition compact_submissions :: "expiry_externals \<Rightarrow> expiry_tables \<Rightarrow> history_db \<Rightarrow> string list" where
  "compact_submissions x e db =
     select_text x db ''admitted_reports'' ''submission_id''
       (\<lambda>v. sql_in (column (table_info x ''admitted_reports'') v ''report_id'') (expiry_compact_reports e))"

definition empty_object :: ValueRef where
  "empty_object = Blob ''{}''"

definition where_in :: "expiry_externals \<Rightarrow> string \<Rightarrow> string \<Rightarrow> (history_db \<Rightarrow> string list) \<Rightarrow> row_predicate" where
  "where_in x table name keys = (\<lambda>db v. sql_in (column (table_info x table) v name) (keys db))"

definition expiry_schedule :: "expiry_externals \<Rightarrow> expiry_tables \<Rightarrow> (string \<times> Mutation) list" where
  "expiry_schedule x e =
     (let runs = (\<lambda>_. dead_run_ids e); reports = dead_reports x e in
      [(''refusals'', Delete (\<lambda>db v.
          where_in x ''refusals'' ''evaluation_id'' (\<lambda>_. disposed e (\<lambda>d. d \<noteq> DispositionIsland)) db v \<or>
          where_in x ''refusals'' ''run_id'' runs db v \<or>
          where_in x ''refusals'' ''submission_id'' (dead_submissions x e) db v)),
       (''evaluation_watermarks'', Delete (where_in x ''evaluation_watermarks'' ''evaluation_id''
          (\<lambda>_. disposed e (\<lambda>d. d \<noteq> DispositionIsland)))),
       (''evaluation_runs'', Delete (where_in x ''evaluation_runs'' ''evaluation_id''
          (\<lambda>_. disposed e (\<lambda>d. d = DispositionDelete)))),
       (''evaluation_runs'', Repack (Some [(''source_expired'', Integer 1), (''detail_json'', empty_object)])
          (where_in x ''evaluation_runs'' ''evaluation_id'' (\<lambda>_. disposed e (\<lambda>d. d = DispositionCompact)))),
       (''observation_coverage'', Delete (where_in x ''observation_coverage'' ''report_id'' reports)),
       (''observations'', Delete (where_in x ''observations'' ''report_id'' reports)),
       (''report_coverage'', Delete (where_in x ''report_coverage'' ''report_id'' reports)),
       (''report_errors'', Delete (where_in x ''report_errors'' ''report_id'' reports)),
       (''admitted_reports'', Delete (\<lambda>db v.
          where_in x ''admitted_reports'' ''submission_id'' (dead_submissions x e) db v \<and>
          sql_not_in (column (table_info x ''admitted_reports'') v ''report_id'') (expiry_compact_reports e))),
       (''admitted_reports'', Repack (Some [(''source_expired'', Integer 1), (''canonical_json'', empty_object),
            (''validated_report_json'', empty_object), (''next_checkpoint_json'', Null)])
          (where_in x ''admitted_reports'' ''report_id'' (\<lambda>_. expiry_compact_reports e))),
       (''provider_intake_acknowledgments'', Delete (where_in x ''provider_intake_acknowledgments'' ''run_id'' runs)),
       (''local_watcher_provider_intakes'', Delete (where_in x ''local_watcher_provider_intakes'' ''run_id'' runs)),
       (''legacy_v3_watcher_run_intake_gaps'', Delete (where_in x ''legacy_v3_watcher_run_intake_gaps'' ''run_id'' runs)),
       (''raw_submissions'', Delete (\<lambda>db v.
          where_in x ''raw_submissions'' ''run_id'' runs db v \<and>
          sql_not_in (column (table_info x ''raw_submissions'') v ''submission_id'') (compact_submissions x e db))),
       (''raw_submissions'', Repack (Some [(''source_expired'', Integer 1), (''raw_bytes'', Blob [])])
          (where_in x ''raw_submissions'' ''submission_id'' (compact_submissions x e))),
       (''status_events'', Delete (where_in x ''status_events'' ''run_id'' runs)),
       (''watcher_runs'', Delete (where_in x ''watcher_runs'' ''run_id''
          (\<lambda>_. map fst (filter (\<lambda>(_, anchor). \<not> anchor) (expiry_dead_runs e)))))])"

definition anchor_repack :: "expiry_externals \<Rightarrow> expiry_tables \<Rightarrow> string \<times> Mutation" where
  "anchor_repack x e =
     (''watcher_runs'', Repack None (where_in x ''watcher_runs'' ''run_id''
        (\<lambda>_. map fst (filter snd (expiry_dead_runs e)))))"

definition text_or_null :: "string option \<Rightarrow> ValueRef" where
  "text_or_null s = case_option Null Text s"

definition retire_intake :: "expiry_externals \<Rightarrow> retired_intake \<Rightarrow> string \<times> Mutation" where
  "retire_intake x r =
     (''provider_intake_attempts'', Update
        [(''history_expired'', Integer 1), (''raw_bytes'', Blob []), (''context_json'', empty_object),
         (''interpretation_json'', empty_object), (''native_outcome_json'', empty_object),
         (''retired_identity_digest'', Text (ri_commitment r)), (''retired_run_id'', Text (ri_run_id r)),
         (''retired_submission_id'', text_or_null (ri_submission_id r)),
         (''retired_report_id'', text_or_null (ri_report_id r)),
         (''retired_report_semantic_digest'', text_or_null (ri_semantic_digest r))]
        (where_in x ''provider_intake_attempts'' ''intake_id'' (\<lambda>_. [ri_intake_id r])))"

definition intake_repack :: "expiry_externals \<Rightarrow> retired_intake list \<Rightarrow> string \<times> Mutation" where
  "intake_repack x retired =
     (''provider_intake_attempts'', Repack None
        (where_in x ''provider_intake_attempts'' ''intake_id'' (\<lambda>_. map ri_intake_id retired)))"

definition expiry_mutations ::
  "expiry_externals \<Rightarrow> expiry_tables \<Rightarrow> retired_intake list \<Rightarrow> (string \<times> Mutation) list" where
  "expiry_mutations x e retired =
     expiry_schedule x e @ [anchor_repack x e] @ map (retire_intake x) retired @ [intake_repack x retired]"

section \<open>The semantic certification\<close>

definition carry_semantic :: "ValidationWatermark \<Rightarrow> int list \<Rightarrow> int \<Rightarrow> SemanticCertification" where
  "carry_semantic w affected evaluation_floor =
     (case vw_semantic w of
        None \<Rightarrow> NotEstablished
      | Some state \<Rightarrow>
          if list_ex (\<lambda>head. eh_evaluation_sequence head \<in> set affected) (evaluation_heads state) then NotEstablished
          else
            let above = map eh_lineage (filter (\<lambda>head. evaluation_floor < eh_evaluation_sequence head) (evaluation_heads state))
            in Established \<lparr>lineage_heads = filter (\<lambda>head. lh_lineage head \<in> set above) (lineage_heads state),
                 evaluation_heads = evaluation_heads state\<rparr>)"

section \<open>A repack is an update in place\<close>

abbreviation rowid_sorted :: "history_table \<Rightarrow> bool" where
  "rowid_sorted rows \<equiv> sorted_wrt (\<lambda>a b. fst a < fst b) rows"

lemma rowid_sorted_iff: "rowid_sorted rows \<longleftrightarrow> sorted (map fst rows) \<and> distinct (map fst rows)"
  by (simp add: sorted_wrt_map [symmetric] strict_sorted_iff)

lemma rowid_sorted_unique: "rowid_sorted rows \<Longrightarrow> rowid_sorted rows' \<Longrightarrow> set rows = set rows' \<Longrightarrow> rows = rows'"
  by (rule map_sorted_distinct_set_unique [where f = fst])
    (auto simp: rowid_sorted_iff distinct_map)

lemma insert_row_insort:
  "rowid_sorted rows \<Longrightarrow> fst row \<notin> fst ` set rows \<Longrightarrow> insert_row row rows = Ok (insort_key fst row rows)"
  by (induction rows) auto

lemma rowid_sorted_insort:
  "rowid_sorted rows \<Longrightarrow> fst row \<notin> fst ` set rows \<Longrightarrow> rowid_sorted (insort_key fst row rows)"
  by (induction rows) (fastforce simp: set_insort_key)+

lemma insert_rows_insorted:
  assumes "rowid_sorted rows" and "distinct (map fst inserted)" and "fst ` set inserted \<inter> fst ` set rows = {}"
  shows "\<exists>rows'. insert_rows inserted rows = Ok rows' \<and> rowid_sorted rows' \<and> set rows' = set inserted \<union> set rows"
  using assms
proof (induction inserted arbitrary: rows)
  case (Cons row inserted)
  then have fresh: "fst row \<notin> fst ` set rows" by auto
  have "\<exists>rows'. insert_rows inserted (insort_key fst row rows) = Ok rows' \<and> rowid_sorted rows' \<and>
      set rows' = set inserted \<union> set (insort_key fst row rows)"
    using Cons fresh by (intro Cons.IH) (auto simp: rowid_sorted_insort set_insort_key)
  then show ?case using Cons.prems(1) fresh by (auto simp: insert_row_insort set_insort_key)
qed simp

lemma set_columns_none: "length cells = length names \<Longrightarrow> set_columns names [] cells = cells"
  by (induction names cells rule: list_induct2') (auto simp: set_columns_def)

lemma repack_is_update:
  assumes "rowid_sorted (db table)" and "list_all (\<lambda>row. length (snd row) = length (table_info x table)) (db table)"
  shows "repack x db table assignments predicate = Ok (sql_update x db table (case_option [] id assignments) predicate)"
proof -
  define g where "g = set_row (table_info x table) (case_option [] id assignments)"
  define sel where "sel = filter (\<lambda>row. predicate db (snd row)) (db table)"
  define copied where "copied = map g sel"
  have fst_g: "fst (g row) = fst row" for row by (simp add: g_def set_row_def)
  have "copied = sel" if "assignments = None"
    using assms(2) that set_columns_none
    by (force simp: copied_def sel_def g_def set_row_def list_all_iff intro!: map_idI)
  then have copy: "(case assignments of Some s \<Rightarrow> map (set_row (table_info x table) s) sel | None \<Rightarrow> sel) = copied"
    by (auto simp: copied_def g_def split: option.split)
  have ids: "map fst copied = map fst sel" by (simp add: copied_def fst_g)
  have sorted_sel: "rowid_sorted sel" using assms(1) by (simp add: sel_def sorted_wrt_filter)
  then have in_order: "sort_key fst copied = copied"
    using ids by (simp add: rowid_sorted_iff sort_key_id_if_sorted)
  define kept where "kept = filter (\<lambda>row. fst row \<notin> set (map fst copied)) (db table)"
  have "rowid_sorted kept" "fst ` set copied \<inter> fst ` set kept = {}"
    using assms(1) by (force simp: kept_def sorted_wrt_filter)+
  moreover have "distinct (map fst copied)" using sorted_sel ids by (simp add: rowid_sorted_iff)
  ultimately obtain rows' where rows': "insert_rows copied kept = Ok rows'" "rowid_sorted rows'" "set rows' = set copied \<union> set kept"
    using insert_rows_insorted [of kept copied] by auto
  define updated where "updated = map (\<lambda>row. if predicate db (snd row) then g row else row) (db table)"
  have "inj_on fst (set (db table))" using assms(1) by (simp add: rowid_sorted_iff distinct_map)
  then have "fst row \<in> set (map fst copied) \<longleftrightarrow> predicate db (snd row)" if "row \<in> set (db table)" for row
    unfolding ids sel_def using that by (fastforce dest: inj_onD)
  then have "set kept = {row \<in> set (db table). \<not> predicate db (snd row)}" by (auto simp: kept_def)
  then have "set rows' = set updated"
    using rows'(3) by (auto simp: updated_def copied_def sel_def)
  moreover have "map fst updated = map fst (db table)" by (simp add: updated_def fst_g)
  then have "rowid_sorted updated" using assms(1) by (simp only: rowid_sorted_iff)
  ultimately have "rows' = updated" using rows'(2) by (intro rowid_sorted_unique)
  then show ?thesis
    unfolding repack_def Let_def sel_def [symmetric] copy kept_def [symmetric] in_order rows'(1)
    by (simp add: sql_update_def updated_def g_def copied_def sel_def cong: if_cong)
qed

section \<open>What the delta accounts for\<close>

text \<open>
  A delta balances a table when what it was at the start and what was added since are, as multisets
  of row elements, what it is now and what was removed.
\<close>

definition sums_up :: "bytes \<Rightarrow> int \<Rightarrow> bytes list \<Rightarrow> bool" where
  "sums_up accumulator rows es \<longleftrightarrow>
     list_all bytes_32 es \<and> accumulator = foldl accumulate EMPTY_ACCUMULATOR es \<and> rows = int (length es)"

definition balanced :: "TableDelta \<Rightarrow> bytes multiset \<Rightarrow> bytes multiset \<Rightarrow> bool" where
  "balanced d start now \<longleftrightarrow>
     (\<exists>removed added. sums_up (td_removed d) (td_rows_removed d) removed \<and>
        sums_up (td_added d) (td_rows_added d) added \<and> now + mset removed = start + mset added)"

abbreviation element_set :: "'x history_externals_scheme \<Rightarrow> string \<Rightarrow> history_row list \<Rightarrow> bytes multiset" where
  "element_set x table rows \<equiv> mset (row_elements x table rows)"

lemma sums_up_append:
  "sums_up a n es \<Longrightarrow> list_all bytes_32 es' \<Longrightarrow> sums_up (foldl accumulate a es') (n + int (length es')) (es @ es')"
  by (simp add: sums_up_def)

lemma sums_up_nothing: "sums_up EMPTY_ACCUMULATOR 0 []"
  by (simp add: sums_up_def)

lemma balancedI:
  "sums_up (td_removed d) (td_rows_removed d) removed \<Longrightarrow> sums_up (td_added d) (td_rows_added d) added \<Longrightarrow>
     now + mset removed = start + mset added \<Longrightarrow> balanced d start now"
  unfolding balanced_def by blast

lemma balanced_start: "bt_get (ed_tables delta) table = None \<Longrightarrow> balanced (delta_entry delta table) m m"
  by (rule balancedI [of _ "[]" "[]"]) (simp_all add: delta_entry_def sums_up_nothing)

abbreviation digest_elements :: "'x history_externals_scheme \<Rightarrow> string \<Rightarrow> (int \<times> bytes) list \<Rightarrow> bytes list" where
  "digest_elements x table rows \<equiv> map (\<lambda>(_, digest). row_element x table digest) rows"

lemma delta_removed_entry:
  "bt_get (ed_tables (delta_removed x table rows delta)) =
     (bt_get (ed_tables delta))(table \<mapsto> (delta_entry delta table)
       \<lparr>td_removed := foldl accumulate (td_removed (delta_entry delta table)) (digest_elements x table rows),
        td_rows_removed := td_rows_removed (delta_entry delta table) + int (length rows)\<rparr>)"
proof -
  have "foldl (\<lambda>d (_, digest). d\<lparr>td_removed := accumulate (td_removed d) (row_element x table digest),
      td_rows_removed := td_rows_removed d + 1\<rparr>) d rows =
    d\<lparr>td_removed := foldl accumulate (td_removed d) (digest_elements x table rows),
      td_rows_removed := td_rows_removed d + int (length rows)\<rparr>" for d :: TableDelta
    by (induction rows arbitrary: d) (auto simp: algebra_simps)
  then show ?thesis by (simp add: delta_removed_def)
qed

lemma delta_added_entry:
  "bt_get (ed_tables (delta_added x table rows delta)) =
     (bt_get (ed_tables delta))(table \<mapsto> (delta_entry delta table)
       \<lparr>td_added := foldl accumulate (td_added (delta_entry delta table)) (digest_elements x table rows),
        td_rows_added := td_rows_added (delta_entry delta table) + int (length rows)\<rparr>)"
proof -
  have "foldl (\<lambda>d (_, digest). d\<lparr>td_added := accumulate (td_added d) (row_element x table digest),
      td_rows_added := td_rows_added d + 1\<rparr>) d rows =
    d\<lparr>td_added := foldl accumulate (td_added d) (digest_elements x table rows),
      td_rows_added := td_rows_added d + int (length rows)\<rparr>" for d :: TableDelta
    by (induction rows arbitrary: d) (auto simp: algebra_simps)
  then show ?thesis by (simp add: delta_added_def)
qed

lemma digest_elements_32: "digests_32 x \<Longrightarrow> list_all bytes_32 (digest_elements x table rows)"
  by (auto simp: digests_32_def row_element_def list_all_iff)

lemma balanced_removed:
  assumes "digests_32 x" and "balanced (delta_entry delta table) start (now + mset (digest_elements x table rows))"
  shows "balanced (delta_entry (delta_removed x table rows delta) table) start now"
proof -
  obtain removed added where parts: "sums_up (td_removed (delta_entry delta table)) (td_rows_removed (delta_entry delta table)) removed"
      "sums_up (td_added (delta_entry delta table)) (td_rows_added (delta_entry delta table)) added"
      "now + mset (digest_elements x table rows) + mset removed = start + mset added"
    using assms(2) by (auto simp: balanced_def)
  have "now + mset (removed @ digest_elements x table rows) = start + mset added"
    using parts(3) by (simp add: ac_simps)
  with sums_up_append [OF parts(1) digest_elements_32 [OF assms(1)], of table rows] parts(2)
  show ?thesis
    by (intro balancedI [of _ "removed @ digest_elements x table rows" added])
      (simp_all add: delta_entry_def [of "delta_removed x table rows delta"] delta_removed_entry)
qed

lemma balanced_added:
  assumes "digests_32 x" and "balanced (delta_entry delta table) start now"
  shows "balanced (delta_entry (delta_added x table rows delta) table) start (now + mset (digest_elements x table rows))"
proof -
  obtain removed added where parts: "sums_up (td_removed (delta_entry delta table)) (td_rows_removed (delta_entry delta table)) removed"
      "sums_up (td_added (delta_entry delta table)) (td_rows_added (delta_entry delta table)) added"
      "now + mset removed = start + mset added"
    using assms(2) by (auto simp: balanced_def)
  have "now + mset (digest_elements x table rows) + mset removed = start + mset (added @ digest_elements x table rows)"
    using parts(3) by (simp add: ac_simps)
  with sums_up_append [OF parts(2) digest_elements_32 [OF assms(1)], of table rows] parts(1)
  show ?thesis
    by (intro balancedI [of _ removed "added @ digest_elements x table rows"])
      (simp_all add: delta_entry_def [of "delta_added x table rows delta"] delta_added_entry)
qed

section \<open>Mutations keep the account\<close>

definition row_width :: "expiry_externals \<Rightarrow> string \<Rightarrow> history_table \<Rightarrow> bool" where
  "row_width x table rows \<longleftrightarrow> list_all (\<lambda>row. length (snd row) = length (table_info x table)) rows"

definition table_tracked ::
  "expiry_externals \<Rightarrow> int option \<Rightarrow> history_table \<Rightarrow> history_table \<Rightarrow> ExpiryDelta \<Rightarrow> string \<Rightarrow> bool" where
  "table_tracked x bound rows0 rows delta table \<longleftrightarrow>
     ordered_table rows \<and> row_width x table rows \<and>
     (bt_get (ed_tables delta) table = None \<longrightarrow> rows = rows0) \<and>
     balanced (delta_entry delta table) (element_set x table (covered bound rows0)) (element_set x table (covered bound rows))"

text \<open>
  A rewrite is stable when it leaves the rows it selects selected and its predicate does not read
  the table it rewrites other than through the row.
\<close>

definition rewrite_stable :: "expiry_externals \<Rightarrow> string \<Rightarrow> set_clause \<Rightarrow> row_predicate \<Rightarrow> bool" where
  "rewrite_stable x table assignments predicate \<longleftrightarrow>
     (\<forall>db rows. predicate (db(table := rows)) = predicate db) \<and>
     (\<forall>db v. length v = length (table_info x table) \<longrightarrow>
        predicate db (set_columns (table_info x table) assignments v) = predicate db v)"

fun mutation_stable :: "expiry_externals \<Rightarrow> string \<times> Mutation \<Rightarrow> bool" where
  "mutation_stable x (table, Delete predicate) = (table \<in> set HISTORY_TABLES)"
| "mutation_stable x (table, Update assignments predicate) =
     (table \<in> set HISTORY_TABLES \<and> rewrite_stable x table assignments predicate)"
| "mutation_stable x (table, Repack assignments predicate) =
     (table \<in> set HISTORY_TABLES \<and> rewrite_stable x table (case_option [] id assignments) predicate)"

lemma covered_rows_elements:
  "bt_get (ed_bounds delta) table = Some bound \<Longrightarrow>
     digest_elements x table (covered_rows x delta db table predicate) =
     row_elements x table (filter (\<lambda>row. predicate db (snd row)) (covered bound (db table)))"
  by (cases bound) (simp_all add: covered_rows_def row_elements_def covered_def conj_commute)

lemma element_set_partition:
  "element_set x table rows =
     element_set x table (filter (\<lambda>row. \<not> P row) rows) + element_set x table (filter P rows)"
  by (induction rows) simp_all

lemma filter_map_stable:
  "(\<And>row. row \<in> set rows \<Longrightarrow> q (h row) = P row) \<Longrightarrow> filter q (map h rows) = map h (filter P rows)"
  by (induction rows) auto

lemma delete_tracked:
  assumes x: "digests_32 x" and bound: "bt_get (ed_bounds delta) table = Some bound"
    and tracked: "table_tracked x bound rows0 (db table) delta table"
  shows "table_tracked x bound rows0 (snd (sql_delete db table predicate) table)
    (delta_removed x table (covered_rows x delta db table predicate) delta) table"
proof -
  define p where "p row = predicate db (snd row)" for row :: history_row
  have "element_set x table (covered bound (db table)) =
      element_set x table (covered bound (filter (\<lambda>row. \<not> p row) (db table))) +
      mset (digest_elements x table (covered_rows x delta db table predicate))"
    unfolding covered_rows_elements [OF bound]
    using element_set_partition [of x table "covered bound (db table)" p]
    by (simp add: p_def covered_def conj_commute)
  with tracked have "balanced (delta_entry (delta_removed x table (covered_rows x delta db table predicate) delta) table)
      (element_set x table (covered bound rows0)) (element_set x table (covered bound (filter (\<lambda>row. \<not> p row) (db table))))"
    by (intro balanced_removed [OF x]) (simp add: table_tracked_def)
  with tracked show ?thesis
    by (auto simp: table_tracked_def sql_delete_def p_def delta_removed_entry ordered_table_def row_width_def
        sorted_wrt_filter list_all_iff)
qed

lemma update_tracked:
  assumes x: "digests_32 x" and bound: "bt_get (ed_bounds delta) table = Some bound"
    and tracked: "table_tracked x bound rows0 (db table) delta table"
    and stable: "rewrite_stable x table assignments predicate"
  defines "db' \<equiv> snd (sql_update x db table assignments predicate)"
  shows "table_tracked x bound rows0 (db' table)
    (delta_added x table (covered_rows x delta db' table predicate)
      (delta_removed x table (covered_rows x delta db table predicate) delta)) table"
proof -
  let ?set = "set_row (table_info x table) assignments"
  define p where "p row = predicate db (snd row)" for row :: history_row
  define g where "g row = (if p row then ?set row else row)" for row
  let ?before = "covered_rows x delta db table predicate" and ?after = "covered_rows x delta db' table predicate"
  have db': "db' table = map g (db table)" by (simp add: db'_def sql_update_def g_def p_def)
  have fst_g: "fst (g row) = fst row" for row by (simp add: g_def set_row_def)
  have "predicate db' = predicate db" using stable by (simp add: rewrite_stable_def db'_def sql_update_def)
  moreover have width: "length (snd row) = length (table_info x table)" if "row \<in> set (db table)" for row
    using tracked that by (simp add: table_tracked_def row_width_def list_all_iff)
  ultimately have p_g: "predicate db' (snd (g row)) = p row" if "row \<in> set (db table)" for row
    using stable that by (simp add: rewrite_stable_def g_def p_def set_row_def)
  have cov: "covered bound (db' table) = map g (covered bound (db table))"
    by (simp add: db' covered_def filter_map comp_def fst_g)
  have in_db: "row \<in> set (db table)" if "row \<in> set (covered bound (db table))" for row
    using that by (simp add: covered_def)
  have after: "filter (\<lambda>row. predicate db' (snd row)) (covered bound (db' table)) =
      map g (filter p (covered bound (db table)))"
    unfolding cov by (rule filter_map_stable) (use p_g in_db in blast)
  have "filter (\<lambda>row. \<not> predicate db' (snd row)) (covered bound (db' table)) =
      map g (filter (\<lambda>row. \<not> p row) (covered bound (db table)))"
    unfolding cov by (rule filter_map_stable) (use p_g in_db in blast)
  then have kept: "filter (\<lambda>row. \<not> predicate db' (snd row)) (covered bound (db' table)) =
      filter (\<lambda>row. \<not> p row) (covered bound (db table))"
    by (rule trans) (auto simp: g_def intro!: map_idI)
  let ?kept = "element_set x table (filter (\<lambda>row. \<not> p row) (covered bound (db table)))"
  have "element_set x table (covered bound (db table)) = ?kept + mset (digest_elements x table ?before)"
    unfolding covered_rows_elements [OF bound] p_def by (rule element_set_partition)
  with tracked have "balanced (delta_entry (delta_removed x table ?before delta) table)
      (element_set x table (covered bound rows0)) ?kept"
    by (intro balanced_removed [OF x]) (simp add: table_tracked_def)
  from balanced_added [OF x this, of ?after]
  have "balanced (delta_entry (delta_added x table ?after (delta_removed x table ?before delta)) table)
      (element_set x table (covered bound rows0)) (element_set x table (covered bound (db' table)))"
    unfolding covered_rows_elements [OF bound]
    using element_set_partition [of x table "covered bound (db' table)" "\<lambda>row. predicate db' (snd row)"]
    unfolding kept by (simp only:)
  moreover have "ordered_table (db' table)"
    using tracked by (simp add: table_tracked_def ordered_table_def db' sorted_wrt_map fst_g list_all_iff)
  moreover have "row_width x table (db' table)"
    using width by (auto simp: row_width_def list_all_iff db' g_def set_row_def set_columns_def)
  ultimately show ?thesis by (simp add: table_tracked_def delta_added_entry)
qed

definition expiry_tracks ::
  "expiry_externals \<Rightarrow> HistoryFrontier \<Rightarrow> history_db \<Rightarrow> history_db \<Rightarrow> ExpiryDelta \<Rightarrow> bool" where
  "expiry_tracks x f db0 db delta \<longleftrightarrow>
     bt_ordered (ed_tables delta) \<and> fst ` set (ed_tables delta) \<subseteq> set HISTORY_TABLES \<and>
     ed_bounds delta = ed_bounds (expiry_delta_new f) \<and>
     (\<forall>table \<in> set HISTORY_TABLES. table_tracked x (max_rowid f table) (db0 table) (db table) delta table)"

lemma delta_frame:
  "ed_bounds (delta_removed x table rows delta) = ed_bounds delta"
  "ed_bounds (delta_added x table rows delta) = ed_bounds delta"
  "fst ` set (ed_tables (delta_removed x table rows delta)) = insert table (fst ` set (ed_tables delta))"
  "fst ` set (ed_tables (delta_added x table rows delta)) = insert table (fst ` set (ed_tables delta))"
  "bt_ordered (ed_tables delta) \<Longrightarrow> bt_ordered (ed_tables (delta_removed x table rows delta))"
  "bt_ordered (ed_tables delta) \<Longrightarrow> bt_ordered (ed_tables (delta_added x table rows delta))"
  by (simp_all add: delta_removed_def delta_added_def bt_ordered_insert)

lemma tracked_frame:
  assumes "table' \<noteq> table"
  shows "table_tracked x bound rows0 rows (delta_removed y table rs delta) table' = table_tracked x bound rows0 rows delta table'"
    and "table_tracked x bound rows0 rows (delta_added y table rs delta) table' = table_tracked x bound rows0 rows delta table'"
  using assms by (simp_all add: table_tracked_def delta_entry_def delta_removed_entry delta_added_entry)

lemma map_of_rev_distinct: "distinct (map fst es) \<Longrightarrow> map_of (List.rev es) = map_of es"
proof (induction es)
  case (Cons e es)
  then have "map_of es (fst e) = None" by (simp add: map_of_eq_None_iff)
  with Cons show ?case by (auto simp: fun_eq_iff map_add_def split: option.split)
qed simp

lemma certified_bounds:
  assumes "f = frontier_certificate x db f" and "table \<in> set HISTORY_TABLES"
  shows "bt_get (ed_bounds (expiry_delta_new f)) table = Some (max_rowid f table)"
proof -
  have ordered: "bt_ordered (hf_tables f)"
    by (subst assms(1)) (simp add: frontier_certificate_def bt_ordered_from)
  have entry: "bt_get (hf_tables f) table = Some (table_certificate x table (db table) (max_rowid f table))"
    by (subst assms(1)) (simp add: frontier_certificate_def bt_get_from_map assms(2))
  have "distinct (map fst (hf_tables f))" using ordered by (simp add: bt_ordered_def strict_sorted_iff)
  then have "distinct (map fst (map (\<lambda>(table, recorded). (table, tf_max_rowid recorded)) (hf_tables f)))"
    by (simp add: comp_def case_prod_beta)
  then have "bt_get (ed_bounds (expiry_delta_new f)) table =
      map_of (map (\<lambda>(table, recorded). (table, tf_max_rowid recorded)) (hf_tables f)) table"
    by (simp add: expiry_delta_new_def bt_get_from map_of_rev_distinct)
  then show ?thesis by (simp add: map_of_map entry table_certificate_def)
qed

lemma start_tracks:
  assumes "history_ordered db" and "list_all (\<lambda>table. row_width x table (db table)) HISTORY_TABLES"
  shows "expiry_tracks x f db db (expiry_delta_new f)"
  using assms by (auto simp: expiry_tracks_def table_tracked_def expiry_delta_new_def bt_ordered_def history_ordered_def
      list_all_iff intro!: balanced_start)

lemma apply_mutation_tracks:
  assumes x: "digests_32 x" and f: "f = frontier_certificate x db0 f"
    and tracks: "expiry_tracks x f db0 db delta" and stable: "mutation_stable x (table, mutation)"
  shows "\<exists>n db' delta'. apply_mutation x db table mutation (Some delta) = Ok (n, db', Some delta') \<and>
    expiry_tracks x f db0 db' delta'"
proof -
  have table: "table \<in> set HISTORY_TABLES" using stable by (cases mutation) simp_all
  have bound: "bt_get (ed_bounds delta) table = Some (max_rowid f table)"
    using tracks certified_bounds [OF f table] by (simp add: expiry_tracks_def)
  have tracked: "table_tracked x (max_rowid f table) (db0 table) (db table) delta table"
    using tracks table by (simp add: expiry_tracks_def)
  have updated: "expiry_tracks x f db0 (snd (sql_update x db table assignments predicate))
      (delta_added x table (covered_rows x delta (snd (sql_update x db table assignments predicate)) table predicate)
        (delta_removed x table (covered_rows x delta db table predicate) delta))"
    if "rewrite_stable x table assignments predicate" for assignments predicate
    using tracks table update_tracked [where db = db, OF x bound tracked that]
    by (auto simp: expiry_tracks_def delta_frame tracked_frame) (auto simp: sql_update_def tracked_frame)
  show ?thesis
  proof (cases mutation)
    case (Delete predicate)
    have "expiry_tracks x f db0 (snd (sql_delete db table predicate))
        (delta_removed x table (covered_rows x delta db table predicate) delta)"
      using tracks table delete_tracked [where db = db, OF x bound tracked]
      by (auto simp: expiry_tracks_def delta_frame) (auto simp: sql_delete_def tracked_frame)
    then show ?thesis by (simp add: Delete apply_mutation_def case_prod_beta)
  next
    case (Update assignments predicate)
    with updated stable show ?thesis by (simp add: apply_mutation_def case_prod_beta Let_def)
  next
    case (Repack assignments predicate)
    have "repack x db table assignments predicate = Ok (sql_update x db table (case_option [] id assignments) predicate)"
      using tracked by (intro repack_is_update) (simp_all add: table_tracked_def ordered_table_def row_width_def)
    with Repack updated stable show ?thesis by (simp add: apply_mutation_def case_prod_beta Let_def)
  qed
qed

lemma apply_mutations_track:
  assumes x: "digests_32 x" and f: "f = frontier_certificate x db0 f"
    and "expiry_tracks x f db0 db delta" and "list_all (mutation_stable x) mutations"
  shows "\<exists>n db' delta'. apply_mutations x db mutations (Some delta) = Ok (n, db', Some delta') \<and>
    expiry_tracks x f db0 db' delta'"
  using assms(3,4)
proof (induction mutations arbitrary: db delta)
  case (Cons step mutations)
  obtain table mutation where step: "step = (table, mutation)" by (cases step)
  with Cons.prems obtain n db' delta' where "apply_mutation x db table mutation (Some delta) = Ok (n, db', Some delta')"
      "expiry_tracks x f db0 db' delta'"
    using apply_mutation_tracks [OF x f, of db delta table mutation] by auto
  with Cons step show ?case by fastforce
qed simp

section \<open>The carried frontier\<close>

lemma surviving_covered: "surviving_rowid db table b = sql_max_rowid (covered (Some b) (db table))"
  by (simp add: surviving_rowid_def covered_def)

lemma surviving_present:
  assumes "surviving_rowid db table b = Some r"
  shows "row_at (db table) r \<noteq> None" and "r \<le> b"
  using sql_max_rowid_present [of "covered (Some b) (db table)" r] assms
  by (auto simp: surviving_covered row_at_covered split: if_splits)

lemma surviving_kept: "surviving_rowid db table b = Some b \<longleftrightarrow> row_at (db table) b \<noteq> None"
proof
  assume "row_at (db table) b \<noteq> None"
  then obtain row where row: "row \<in> set (covered (Some b) (db table))" "fst row = b"
    by (auto simp: row_at_None covered_def)
  from sql_max_rowid_upper [OF row(1)] row(2) obtain r where r: "surviving_rowid db table b = Some r" "b \<le> r"
    by (cases "surviving_rowid db table b") (auto simp: surviving_covered)
  with surviving_present(2) [OF r(1)] show "surviving_rowid db table b = Some b" by simp
qed (simp add: surviving_present)

lemma covered_surviving: "covered (surviving_rowid db table b) (db table) = covered (Some b) (db table)"
proof -
  have "Some (fst row) \<le> surviving_rowid db table b \<longleftrightarrow> fst row \<le> b" if row: "row \<in> set (db table)" for row
  proof
    assume "fst row \<le> b"
    with row have "row \<in> set (covered (Some b) (db table))" by (simp add: covered_def)
    from sql_max_rowid_upper [OF this] show "Some (fst row) \<le> surviving_rowid db table b"
      by (simp add: surviving_covered)
  next
    assume "Some (fst row) \<le> surviving_rowid db table b"
    then obtain r where "surviving_rowid db table b = Some r" "fst row \<le> r"
      by (cases "surviving_rowid db table b") simp_all
    then show "fst row \<le> b" using surviving_present(2) by (blast intro: order_trans)
  qed
  then show ?thesis by (simp add: covered_def cong: filter_cong)
qed

lemma balanced_totals:
  assumes x: "digests_32 x"
    and "balanced d (element_set x table start) (element_set x table now)"
  shows "accumulate (deduct (accumulated x table start) (td_removed d)) (td_added d) = accumulated x table now"
    and "int (length start) - td_rows_removed d + td_rows_added d = int (length now)"
proof -
  obtain removed added where parts: "sums_up (td_removed d) (td_rows_removed d) removed"
      "sums_up (td_added d) (td_rows_added d) added"
      "element_set x table now + mset removed = element_set x table start + mset added"
    using assms(2) by (auto simp: balanced_def)
  have "list_all bytes_32 (row_elements x table start)"
    using x by (simp add: row_elements_def row_element_def digests_32_def list_all_iff)
  then show "accumulate (deduct (accumulated x table start) (td_removed d)) (td_added d) = accumulated x table now"
    using acc.adjusted_sum [OF parts(3)] parts(1,2) by (simp add: sums_up_def accumulated_def)
  have "length now + length removed = length start + length added"
    using arg_cong [OF parts(3), of size] by (simp add: row_elements_def)
  with parts(1,2) show "int (length start) - td_rows_removed d + td_rows_added d = int (length now)"
    by (simp add: sums_up_def)
qed

lemma accumulated_Nil: "accumulated x table [] = EMPTY_ACCUMULATOR"
  by (simp add: accumulated_def)

definition carried_entry :: "expiry_externals \<Rightarrow> history_db \<Rightarrow> string \<Rightarrow> int option \<Rightarrow> TableFrontier option" where
  "carried_entry x db table bound =
     (if table = ''evaluation_runs'' \<and> bound \<noteq> None \<and> Option.bind bound (row_at (db table)) = None then None
      else Some (table_certificate x table (db table) (Option.bind bound (surviving_rowid db table))))"

lemma carry_table_exact:
  assumes x: "digests_32 x" and tracked: "table_tracked x bound rows0 (db table) delta table"
  shows "carry_table x db table (delta_entry delta table) (table_certificate x table rows0 bound) =
    Ok (carried_entry x db table bound)"
proof -
  have "balanced (delta_entry delta table) (element_set x table (covered bound rows0)) (element_set x table (covered bound (db table)))"
    using tracked by (simp add: table_tracked_def)
  note totals = balanced_totals [OF x this]
  have parsed: "parse_accumulator table (hex (accumulated x table r)) = Ok (accumulated x table r)" for r
    by (simp add: parse_accumulator_hex bytes_32_accumulated x)
  note defs = carry_table_def table_certificate_def parsed Let_def carried_entry_def bounding_digest_def
  show ?thesis
  proof (cases bound)
    case None
    with totals show ?thesis by (simp add: defs)
  next
    case (Some b)
    show ?thesis
    proof (cases "surviving_rowid db table b")
      case None
      then have "covered (Some b) (db table) = []" using covered_surviving [of db table b] by simp
      with None \<open>bound = Some b\<close> totals show ?thesis
        using surviving_kept [of db table b] by (auto simp: defs accumulated_Nil)
    next
      case (Some r)
      with surviving_present(1) [OF Some] surviving_kept [of db table b] covered_surviving [of db table b]
        \<open>bound = Some b\<close> totals
      show ?thesis by (auto simp: defs)
    qed
  qed
qed

lemma bt_ext: "bt_ordered m \<Longrightarrow> bt_ordered m' \<Longrightarrow> bt_get m = bt_get m' \<Longrightarrow> m = m'"
proof -
  assume ordered: "bt_ordered m" "bt_ordered m'" and eq: "bt_get m = bt_get m'"
  then have keys: "distinct (map fst m)" "distinct (map fst m')" "sorted (map fst m)" "sorted (map fst m')"
    by (simp_all add: bt_ordered_def strict_sorted_iff)
  have same: "set m = set m'"
    using eq map_of_eq_Some_iff [OF keys(1)] map_of_eq_Some_iff [OF keys(2)] by auto
  show "m = m'"
    by (rule map_sorted_distinct_set_unique [where f = fst]) (use keys same in \<open>auto simp: distinct_map\<close>)
qed

lemma carry_tables_exact:
  assumes "distinct (map fst deltas)"
    and "\<forall>(table, d) \<in> set deltas. \<exists>recorded. bt_get (hf_tables carried) table = Some recorded \<and>
      carry_table x db table d recorded = Ok (g table)"
  shows "carry_tables x db deltas carried =
    Ok (if \<exists>table \<in> fst ` set deltas. g table = None then None
        else Some (carried\<lparr>hf_tables := fold (\<lambda>(k, v). bt_insert k v)
          (map (\<lambda>(table, _). (table, the (g table))) deltas) (hf_tables carried)\<rparr>))"
  using assms
proof (induction deltas arbitrary: carried)
  case (Cons entry deltas)
  obtain table d where entry: "entry = (table, d)" by (cases entry)
  with Cons.prems(2) obtain recorded where recorded: "bt_get (hf_tables carried) table = Some recorded"
      "carry_table x db table d recorded = Ok (g table)" by auto
  show ?case
  proof (cases "g table")
    case None
    with recorded entry show ?thesis by simp
  next
    case (Some r)
    have "\<forall>(table', d') \<in> set deltas. \<exists>recorded'.
        bt_get (hf_tables (set_frontier table r carried)) table' = Some recorded' \<and>
        carry_table x db table' d' recorded' = Ok (g table')"
      using Cons.prems entry by (force simp: set_frontier_def)
    from Cons.IH [OF _ this] Cons.prems(1) recorded entry Some show ?thesis
      by (simp add: set_frontier_def)
  qed
qed simp

text \<open>The bounds of a frontier moved to the surviving rows, and the loss of the bounding evaluation.\<close>

definition moved_bounds :: "history_db \<Rightarrow> HistoryFrontier \<Rightarrow> HistoryFrontier" where
  "moved_bounds db f =
     f\<lparr>hf_tables := map (\<lambda>(table, recorded).
        (table, recorded\<lparr>tf_max_rowid := Option.bind (tf_max_rowid recorded) (surviving_rowid db table)\<rparr>)) (hf_tables f)\<rparr>"

definition evaluation_bound_lost :: "history_db \<Rightarrow> HistoryFrontier \<Rightarrow> bool" where
  "evaluation_bound_lost db f \<longleftrightarrow>
     (case max_rowid f ''evaluation_runs'' of None \<Rightarrow> False | Some b \<Rightarrow> row_at (db ''evaluation_runs'') b = None)"

lemma map_of_map_keyed: "map_of (map (\<lambda>(k, v). (k, h k v)) m) k = map_option (h k) (map_of m k)"
  by (induction m) auto

lemma max_rowid_moved: "max_rowid (moved_bounds db f) table = Option.bind (max_rowid f table) (surviving_rowid db table)"
  by (simp add: max_rowid_def moved_bounds_def map_of_map_keyed Option.bind_map_option comp_def)

lemma carried_entry_None:
  "carried_entry x db table (max_rowid f table) = None \<longleftrightarrow> table = ''evaluation_runs'' \<and> evaluation_bound_lost db f"
  by (auto simp: carried_entry_def evaluation_bound_lost_def split: option.splits)

text \<open>The tables of a carried frontier are the certificates of the surviving rows.\<close>

lemma carried_tables:
  assumes distinct: "distinct (map fst deltas)" and keys: "fst ` set deltas \<subseteq> set HISTORY_TABLES"
    and f: "f = frontier_certificate x db0 f"
    and untouched: "\<And>table. table \<in> set HISTORY_TABLES - fst ` set deltas \<Longrightarrow>
      db table = db0 table \<and> Option.bind (max_rowid f table) (surviving_rowid db table) = max_rowid f table"
    and kept: "\<not> evaluation_bound_lost db f"
  shows "fold (\<lambda>(k, v). bt_insert k v)
      (map (\<lambda>(table, _). (table, the (carried_entry x db table (max_rowid f table)))) deltas) (hf_tables f) =
    hf_tables (frontier_certificate x db (moved_bounds db f))" (is "?tables = _")
proof (rule bt_ext)
  have ordered: "bt_ordered (hf_tables f)" and entry: "bt_get (hf_tables f) table =
      (if table \<in> set HISTORY_TABLES then Some (table_certificate x table (db0 table) (max_rowid f table)) else None)" for table
    by (subst f, simp add: frontier_certificate_def bt_ordered_from bt_get_from_map)+
  show "bt_ordered ?tables" by (rule bt.valid_fold_put [OF ordered])
  show "bt_ordered (hf_tables (frontier_certificate x db (moved_bounds db f)))"
    by (simp add: frontier_certificate_def bt_ordered_from)
  have carried: "the (carried_entry x db table (max_rowid f table)) =
      table_certificate x table (db table) (max_rowid (moved_bounds db f) table)" for table
    using kept by (auto simp: carried_entry_def max_rowid_moved evaluation_bound_lost_def split: option.splits)
  show "bt_get ?tables = bt_get (hf_tables (frontier_certificate x db (moved_bounds db f)))"
  proof
    fix table
    have "bt_get ?tables table = (case map_of deltas table of
        None \<Rightarrow> bt_get (hf_tables f) table
      | Some _ \<Rightarrow> Some (table_certificate x table (db table) (max_rowid (moved_bounds db f) table)))"
      unfolding bt.look_fold_put rev_map map_of_map_keyed map_of_rev_distinct [OF distinct] carried
      by (simp split: option.split)
    then show "bt_get ?tables table = bt_get (hf_tables (frontier_certificate x db (moved_bounds db f))) table"
      using keys untouched [of table]
      by (cases "map_of deltas table")
        (auto simp: frontier_certificate_def bt_get_from_map entry max_rowid_moved map_of_eq_None_iff
          dest!: map_of_SomeD)
  qed
qed

lemma carry_exact:
  assumes x: "digests_32 x" and f: "f = frontier_certificate x db0 f"
    and present: "\<And>table b. table \<in> set HISTORY_TABLES \<Longrightarrow> max_rowid f table = Some b \<Longrightarrow> row_at (db0 table) b \<noteq> None"
    and tracks: "expiry_tracks x f db0 db delta"
  shows "carry x db delta f =
    Ok (if evaluation_bound_lost db f then None else Some (frontier_certificate x db (moved_bounds db f)))"
proof -
  let ?keys = "fst ` set (ed_tables delta)" and ?g = "\<lambda>table. carried_entry x db table (max_rowid f table)"
  have distinct: "distinct (map fst (ed_tables delta))" and keys: "?keys \<subseteq> set HISTORY_TABLES"
    and tracked: "\<And>table. table \<in> set HISTORY_TABLES \<Longrightarrow>
      table_tracked x (max_rowid f table) (db0 table) (db table) delta table"
    using tracks by (simp_all add: expiry_tracks_def bt_ordered_def strict_sorted_iff)
  have untouched: "db table = db0 table" if "table \<in> set HISTORY_TABLES - ?keys" for table
    using tracked [of table] that by (auto simp: table_tracked_def map_of_eq_None_iff)
  then have anchored: "db table = db0 table \<and> Option.bind (max_rowid f table) (surviving_rowid db table) = max_rowid f table"
    if "table \<in> set HISTORY_TABLES - ?keys" for table
    using that present [of table] surviving_kept [of db table] by (cases "max_rowid f table") auto
  have steps: "\<forall>(table, d) \<in> set (ed_tables delta). \<exists>recorded. bt_get (hf_tables f) table = Some recorded \<and>
      carry_table x db table d recorded = Ok (?g table)"
  proof (clarify, intro exI conjI)
    fix table d assume d: "(table, d) \<in> set (ed_tables delta)"
    then have table: "table \<in> set HISTORY_TABLES" using keys by force
    have "delta_entry delta table = d" using d distinct by (simp add: delta_entry_def)
    then show "carry_table x db table d (table_certificate x table (db0 table) (max_rowid f table)) = Ok (?g table)"
      using carry_table_exact [where db = db, OF x tracked [OF table]] by simp
    show "bt_get (hf_tables f) table = Some (table_certificate x table (db0 table) (max_rowid f table))"
      by (subst f) (simp add: frontier_certificate_def bt_get_from_map table)
  qed
  have lost: "(\<exists>table \<in> ?keys. ?g table = None) \<longleftrightarrow> evaluation_bound_lost db f"
    unfolding carried_entry_None using untouched present evaluation_runs_history
    by (fastforce simp: evaluation_bound_lost_def split: option.splits)
  have "f\<lparr>hf_tables := hf_tables (frontier_certificate x db (moved_bounds db f))\<rparr> =
      frontier_certificate x db (moved_bounds db f)"
    by (simp add: frontier_certificate_def moved_bounds_def)
  then show ?thesis
    unfolding carry_def carry_tables_exact [OF distinct steps] lost
    using carried_tables [OF distinct keys f anchored] by simp
qed

section \<open>The schedule is stable\<close>

lemma column_set_columns:
  "name \<notin> fst ` set assignments \<Longrightarrow> length v = length names \<Longrightarrow>
     column names (set_columns names assignments v) name = column names v name"
proof (induction names v rule: list_induct2')
  case (4 n names w v)
  have "n = name \<Longrightarrow> map_of assignments n = None" using "4.prems"(1) by (auto simp: map_of_eq_None_iff)
  with 4 show ?case by (auto simp: column_def set_columns_def)
qed (simp_all add: column_def set_columns_def)

lemma where_in_stable:
  assumes "name \<notin> fst ` set assignments" and "\<And>db rows. keys (db(table := rows)) = keys db"
  shows "rewrite_stable x table assignments (where_in x table name keys)"
  using assms by (simp add: rewrite_stable_def where_in_def column_set_columns)

lemma compact_submissions_frame:
  "compact_submissions x e (db(''raw_submissions'' := rows)) = compact_submissions x e db"
  by (simp add: compact_submissions_def select_text_def)

lemma expiry_mutations_stable: "list_all (mutation_stable x) (expiry_mutations x e retired)"
proof -
  have "mutation_stable x (anchor_repack x e)" "mutation_stable x (intake_repack x retired)"
      "mutation_stable x (retire_intake x r)" for r
    by (simp_all add: anchor_repack_def intake_repack_def retire_intake_def where_in_stable HISTORY_TABLES_def)
  moreover have "list_all (mutation_stable x) (expiry_schedule x e)"
    by (simp add: expiry_schedule_def Let_def where_in_stable compact_submissions_frame HISTORY_TABLES_def)
  ultimately show ?thesis by (auto simp: expiry_mutations_def list_all_iff)
qed

section \<open>Certification after an expiry\<close>

lemma certified_frontier:
  assumes "history_ordered db"
  shows "certify x db None f None = Ok f' \<longleftrightarrow> f' = frontier_certificate x db f"
proof -
  have "certify_table x db None f None table = Ok c \<longleftrightarrow>
      c = table_certificate x table (db table) (max_rowid f table) \<and> True" if "table \<in> set HISTORY_TABLES" for table c
    using assms that by (simp add: certify_table_scratch history_ordered_def list_all_iff)
  from certify_exact [of x db None f None "\<lambda>_. True", OF this] show ?thesis by (simp add: list_all_iff)
qed

lemma certificate_idem: "frontier_certificate x db (frontier_certificate x db m) = frontier_certificate x db m"
  by (simp add: frontier_certificate_def [of x db "frontier_certificate x db m"] max_rowid_certificate cong: map_cong)
    (simp add: frontier_certificate_def)

lemma verified_bound:
  assumes "verify_boundaries x f db = Ok ()" and "table \<in> set HISTORY_TABLES" and "max_rowid f table = Some b"
  shows "row_at (db table) b \<noteq> None"
proof -
  have "verify_boundary x f db table = Ok ()" using assms(1,2) by (simp add: verify_boundaries_def checks)
  moreover obtain recorded where "bt_get (hf_tables f) table = Some recorded" "tf_max_rowid recorded = Some b"
    using assms(3) by (auto simp: max_rowid_def split: bind_splits)
  ultimately show ?thesis by (cases "tf_boundary recorded") (auto simp: verify_boundary_def)
qed

lemma certificate_verifies:
  assumes "\<And>table b. table \<in> set HISTORY_TABLES \<Longrightarrow> max_rowid m table = Some b \<Longrightarrow> row_at (db table) b \<noteq> None"
  shows "verify_boundaries x (frontier_certificate x db m) db = Ok ()"
proof -
  have "verify_boundary x (frontier_certificate x db m) db table = Ok ()" if "table \<in> set HISTORY_TABLES" for table
    using assms [OF that] that
    by (cases "max_rowid m table")
      (auto simp: verify_boundary_def frontier_certificate_def bt_get_from_map table_certificate_def bounding_digest_def)
  then show ?thesis by (simp add: verify_boundaries_def checks)
qed

lemma reanchor_moved: "\<not> evaluation_bound_lost db f \<Longrightarrow> reanchor_bounds db f = Ok (moved_bounds db f)"
proof -
  assume kept: "\<not> evaluation_bound_lost db f"
  have moved: "f\<lparr>hf_tables := map (\<lambda>(table, recorded).
      (table, case tf_max_rowid recorded of
         Some bound \<Rightarrow> recorded\<lparr>tf_max_rowid := surviving_rowid db table bound\<rparr>
       | None \<Rightarrow> recorded)) (hf_tables f)\<rparr> = moved_bounds db f"
    by (auto simp: moved_bounds_def intro!: arg_cong [where f = "\<lambda>ts. f\<lparr>hf_tables := ts\<rparr>"] split: option.splits)
  have "max_rowid (moved_bounds db f) ''evaluation_runs'' = max_rowid f ''evaluation_runs''"
    using kept surviving_kept [of db "''evaluation_runs''"]
    by (auto simp: max_rowid_moved evaluation_bound_lost_def split: option.splits bind_splits)
  then show ?thesis by (simp add: reanchor_bounds_def moved Let_def)
qed

lemma expired_history:
  assumes x: "digests_32 x" and ordered: "history_ordered db"
    and width: "list_all (\<lambda>table. row_width x table (db table)) HISTORY_TABLES"
    and certified: "certify x db None f None = Ok f" and verified: "verify_boundaries x f db = Ok ()"
    and stable: "list_all (mutation_stable x) mutations"
  obtains n db' delta where
    "apply_mutations x db mutations (Some (expiry_delta_new f)) = Ok (n, db', Some delta)"
    and "history_ordered db'"
    and "carry x db' delta f =
      Ok (if evaluation_bound_lost db' f then None else Some (frontier_certificate x db' (moved_bounds db' f)))"
proof -
  have f: "f = frontier_certificate x db f" using certified certified_frontier [OF ordered] by blast
  obtain n db' delta where run: "apply_mutations x db mutations (Some (expiry_delta_new f)) = Ok (n, db', Some delta)"
    and tracks: "expiry_tracks x f db db' delta"
    using apply_mutations_track [OF x f start_tracks [OF ordered width] stable] by blast
  have "history_ordered db'"
    using tracks by (simp add: history_ordered_def list_all_iff expiry_tracks_def table_tracked_def)
  moreover have "carry x db' delta f =
      Ok (if evaluation_bound_lost db' f then None else Some (frontier_certificate x db' (moved_bounds db' f)))"
    by (rule carry_exact [OF x f verified_bound [OF verified] tracks])
  ultimately show thesis using that run by blast
qed

text \<open>
  A carried semantic certification keeps every evaluation head, none of which the expiry touched, and
  exactly the finding heads of the lineages whose newest evaluation is above the floor.
\<close>

lemma carried_semantic_state:
  assumes "carry_semantic w affected evaluation_floor = Established state" and "vw_semantic w = Some before"
  shows "evaluation_heads state = evaluation_heads before"
    and "\<forall>head \<in> set (evaluation_heads state). eh_evaluation_sequence head \<notin> set affected"
    and "head \<in> set (lineage_heads state) \<longleftrightarrow> head \<in> set (lineage_heads before) \<and>
      (\<exists>newest_head \<in> set (evaluation_heads before). eh_lineage newest_head = lh_lineage head \<and>
        evaluation_floor < eh_evaluation_sequence newest_head)"
  using assms by (force simp: carry_semantic_def Let_def list_ex_iff image_iff split: if_splits)+

subsection \<open>Sample expiry\<close>

definition sample_expiry_externals :: expiry_externals where
  "sample_expiry_externals =
     \<lparr>sha256 = sha256 sample_digest_externals,
      table_info = (\<lambda>table.
        if table = ''evaluation_runs'' then [''evaluation_id'', ''evaluation_sequence'', ''source_expired'', ''detail_json'']
        else [''run_id''])\<rparr>"

definition sample_expiry_db :: history_db where
  "sample_expiry_db table =
     (if table = ''evaluation_runs'' then
        [(1, [Text ''e1'', Integer 1, Integer 0, Blob ''{1}'']), (2, [Text ''e2'', Integer 2, Integer 0, Blob ''{2}''])]
      else if table = ''watcher_runs'' then [(1, [Text ''r1'']), (4, [Text ''r2''])] else [])"

definition sample_expiry :: expiry_tables where
  "sample_expiry = \<lparr>expiry_evaluations = [(''e1'', DispositionCompact)], expiry_compact_reports = [],
     expiry_dead_runs = [(''r1'', False)]\<rparr>"

definition sample_certified :: HistoryFrontier where
  "sample_certified = frontier_certificate sample_expiry_externals sample_expiry_db (sample_bounds sample_expiry_db 2)"

lemma sample_expiry_facts:
  "digests_32 sample_expiry_externals" "history_ordered sample_expiry_db"
  "list_all (\<lambda>table. row_width sample_expiry_externals table (sample_expiry_db table)) HISTORY_TABLES"
  using sample_digests
  by (auto simp: digests_32_def sample_expiry_externals_def history_ordered_def list_all_iff sample_expiry_db_def
      ordered_table_def i64_min_def row_width_def)

lemma sample_certified_facts:
  "certify sample_expiry_externals sample_expiry_db None sample_certified None = Ok sample_certified"
  "verify_boundaries sample_expiry_externals sample_certified sample_expiry_db = Ok ()"
proof -
  show "certify sample_expiry_externals sample_expiry_db None sample_certified None = Ok sample_certified"
    unfolding certified_frontier [OF sample_expiry_facts(2)] sample_certified_def certificate_idem ..
  show "verify_boundaries sample_expiry_externals sample_certified sample_expiry_db = Ok ()"
    unfolding sample_certified_def
    by (rule certificate_verifies)
      (simp add: max_rowid_def sample_bounds_def bt_get_from_map sql_max_rowid_present)
qed

section \<open>Properties\<close>



end
