(* ===== verification/Retention_Plan.thy ===== *)
theory Retention_Plan
  imports History_Expiry
begin

text \<open>
  The choice of what one expiry removes (\<open>crates/nq-store/src/retention.rs\<close>: \<open>plan_expiry\<close> and the
  SQL fragments it uses). Aged runs are candidates; the floors advance over the longest prefix whose
  rows belong to candidates, and candidates that reach beyond a floor are given up until nothing
  changes; roots protect evaluations and runs, and protection spreads to what protected rows name
  until nothing changes; the rest is deleted or kept in compact form.

  A table is the list of its rows in \<open>rowid\<close> order, with the columns the plan reads. \<open>julianday\<close> is
  SQLite's and a parameter; it is only compared, and a comparison with \<open>NULL\<close> does not hold.
\<close>

section \<open>The tables the plan reads\<close>

record run_row =
  wr_run_id :: string
  wr_finished_at :: string
  wr_checkpoint_contract_digest :: string

record submission_row =
  rs_submission_id :: string
  rs_run_id :: string
  rs_received_at :: string
  rs_source_expired :: bool

record report_row =
  rp_report_id :: string
  rp_submission_id :: string
  rp_instance_id :: string
  rp_report_sequence :: int
  rp_received_at :: string
  rp_admitted_at :: string
  rp_source_expired :: bool
  rp_has_next_checkpoint :: bool

record intake_row =
  in_intake_id :: string
  in_intake_sequence :: int
  in_received_at :: string
  in_history_expired :: bool

text \<open>\<open>er_lineage\<close> is \<open>lineage_sql\<close> of the row and \<open>er_texts\<close> the text values of its envelope.\<close>

record evaluation_row =
  er_evaluation_id :: string
  er_evaluation_sequence :: int
  er_detector_id :: string
  er_detector_version :: string
  er_evaluation_revision :: int
  er_trigger_run_id :: "string option"
  er_evaluated_at :: string
  er_source_expired :: bool
  er_lineage :: string
  er_min_cited_report_sequence :: "int option"
  er_texts :: "string list"

record watermark_row =
  wm_evaluation_id :: string
  wm_instance_id :: string
  wm_max_report_sequence :: int

record finding_row =
  fr_event_id :: string
  fr_finding_id :: string
  fr_event_revision :: int
  fr_event_kind :: string
  fr_condition_state :: string
  fr_evaluation_id :: string

record outbox_row =
  ob_notification_id :: string
  ob_finding_event_id :: "string option"
  ob_max_attempts :: nat

record status_row =
  st_status_event_id :: string
  st_status_sequence :: int
  st_run_id :: "string option"

record retention_db =
  rt_watcher_runs :: "run_row list"
  rt_raw_submissions :: "submission_row list"
  rt_admitted_reports :: "report_row list"
  rt_intake_links :: "(string \<times> string) list"
  rt_intake_attempts :: "intake_row list"
  rt_acknowledgments :: "(string \<times> string) list"
  rt_evaluation_runs :: "evaluation_row list"
  rt_evaluation_watermarks :: "watermark_row list"
  rt_finding_events :: "finding_row list"
  rt_finding_current :: "(string \<times> string) list"
  rt_finding_evidence :: "(string \<times> string) list"
  rt_notification_outbox :: "outbox_row list"
  rt_delivery_intents :: "string list"
  rt_delivery_events :: "(string \<times> string) list"
  rt_notification_attempts :: "(string \<times> string) list"
  rt_saved_check_events :: "(string option \<times> string) list"
  rt_diagnostic_origins :: "(string \<times> string option) list"
  rt_successor_intents :: "string list"
  rt_status_events :: "status_row list"
  rt_status_current :: "string list"

text \<open>
  The pairs are (intake, run), (intake, run), (finding, latest event), (event, report), (notification,
  outcome) twice, (evaluation, outcome) and (run, evaluation).
\<close>

record RetentionBoundary =
  rb_generation :: int
  rb_evaluation_floor :: int
  rb_report_floor :: int
  rb_intake_floor :: int
  rb_status_floor :: int

record retention_externals =
  julianday :: "string \<Rightarrow> int option"

section \<open>Aged runs\<close>

definition older :: "'x retention_externals_scheme \<Rightarrow> string \<Rightarrow> string \<Rightarrow> bool" where
  "older x t cutoff = (case (julianday x t, julianday x cutoff) of (Some a, Some b) \<Rightarrow> a < b | _ \<Rightarrow> False)"

text \<open>\<open>julianday(t)>=julianday(?1) OR julianday(t) IS NULL\<close>\<close>

definition young :: "'x retention_externals_scheme \<Rightarrow> string \<Rightarrow> string \<Rightarrow> bool" where
  "young x t cutoff =
     (case julianday x t of
        None \<Rightarrow> True
      | Some a \<Rightarrow> (case julianday x cutoff of None \<Rightarrow> False | Some b \<Rightarrow> b \<le> a))"

definition run_reports :: "retention_db \<Rightarrow> string \<Rightarrow> report_row list" where
  "run_reports db run =
     [a \<leftarrow> rt_admitted_reports db.
        list_ex (\<lambda>r. rs_submission_id r = rp_submission_id a \<and> rs_run_id r = run) (rt_raw_submissions db)]"

definition run_intakes :: "retention_db \<Rightarrow> string \<Rightarrow> intake_row list" where
  "run_intakes db run = [p \<leftarrow> rt_intake_attempts db. (in_intake_id p, run) \<in> set (rt_intake_links db)]"

definition aged_run :: "'x retention_externals_scheme \<Rightarrow> retention_db \<Rightarrow> string \<Rightarrow> run_row \<Rightarrow> bool" where
  "aged_run x db cutoff w \<longleftrightarrow>
     older x (wr_finished_at w) cutoff \<and>
     \<not> list_ex (\<lambda>r. rs_run_id r = wr_run_id w \<and> young x (rs_received_at r) cutoff) (rt_raw_submissions db) \<and>
     \<not> list_ex (\<lambda>a. young x (rp_received_at a) cutoff \<or> young x (rp_admitted_at a) cutoff) (run_reports db (wr_run_id w)) \<and>
     \<not> list_ex (\<lambda>p. young x (in_received_at p) cutoff) (run_intakes db (wr_run_id w)) \<and>
     \<not> list_ex (\<lambda>r. rs_run_id r = wr_run_id w \<and> rs_source_expired r) (rt_raw_submissions db)"

text \<open>
  The candidates in \<open>rowid\<close> order. A batch keeps the runs of earlier islands, which have a status
  event at or below the floor, and the oldest \<open>limit\<close> of the others.
\<close>

definition expiry_runs :: "'x retention_externals_scheme \<Rightarrow> retention_db \<Rightarrow> string \<Rightarrow> string list" where
  "expiry_runs x db cutoff = map wr_run_id (filter (aged_run x db cutoff) (rt_watcher_runs db))"

definition island_run :: "retention_db \<Rightarrow> RetentionBoundary \<Rightarrow> string \<Rightarrow> bool" where
  "island_run db before run =
     list_ex (\<lambda>s. st_run_id s = Some run \<and> st_status_sequence s \<le> rb_status_floor before) (rt_status_events db)"

definition trim_candidates ::
  "retention_db \<Rightarrow> RetentionBoundary \<Rightarrow> nat option \<Rightarrow> string list \<Rightarrow> string list \<times> bool" where
  "trim_candidates db before max_candidate_runs runs =
     (case max_candidate_runs of
        None \<Rightarrow> (runs, False)
      | Some limit \<Rightarrow>
          let trimmed = drop limit (filter (\<lambda>run. \<not> island_run db before run) runs)
          in (filter (\<lambda>run. run \<notin> set trimmed) runs, trimmed \<noteq> []))"

section \<open>The floors\<close>

text \<open>\<open>SELECT MIN(...)\<close> and \<open>SELECT MAX(...)\<close> of a column, \<open>NULL\<close> on no row.\<close>

definition sql_min :: "int list \<Rightarrow> int option" where
  "sql_min vs = (if vs = [] then None else Some (Min (set vs)))"

definition sql_max :: "int list \<Rightarrow> int option" where
  "sql_max vs = (if vs = [] then None else Some (Max (set vs)))"

text \<open>
  \<open>MAX(floor, COALESCE((SELECT MIN(sequence)-1 of the rows that stop it), (SELECT MAX(sequence) of all), floor))\<close>
\<close>

definition advance_floor :: "int \<Rightarrow> int list \<Rightarrow> int list \<Rightarrow> int" where
  "advance_floor fl stops all =
     max fl (case sql_min stops of
        Some m \<Rightarrow> m - 1
      | None \<Rightarrow> case_option fl id (sql_max all))"

definition evaluation_stops ::
  "'x retention_externals_scheme \<Rightarrow> retention_db \<Rightarrow> string \<Rightarrow> int \<Rightarrow> string list \<Rightarrow> evaluation_row list" where
  "evaluation_stops x db cutoff fl runs =
     [e \<leftarrow> rt_evaluation_runs db. fl < er_evaluation_sequence e \<and>
        (young x (er_evaluated_at e) cutoff \<or>
         (case er_trigger_run_id e of None \<Rightarrow> False | Some run \<Rightarrow> run \<notin> set runs))]"

definition report_stops :: "retention_db \<Rightarrow> int \<Rightarrow> string list \<Rightarrow> report_row list" where
  "report_stops db fl runs =
     [a \<leftarrow> rt_admitted_reports db. fl < rp_report_sequence a \<and>
        list_ex (\<lambda>r. rs_submission_id r = rp_submission_id a \<and> rs_run_id r \<notin> set runs) (rt_raw_submissions db)]"

text \<open>A \<open>LEFT JOIN\<close>: an intake that no run names stops the floor too.\<close>

definition intake_stops :: "retention_db \<Rightarrow> int \<Rightarrow> string list \<Rightarrow> intake_row list" where
  "intake_stops db fl runs =
     [p \<leftarrow> rt_intake_attempts db. fl < in_intake_sequence p \<and> \<not> in_history_expired p \<and>
        (let links = map snd (filter (\<lambda>l. fst l = in_intake_id p) (rt_intake_links db))
         in links = [] \<or> list_ex (\<lambda>run. run \<notin> set runs) links)]"

definition status_stops :: "retention_db \<Rightarrow> int \<Rightarrow> string list \<Rightarrow> status_row list" where
  "status_stops db fl runs =
     [s \<leftarrow> rt_status_events db. fl < st_status_sequence s \<and>
        (case st_run_id s of None \<Rightarrow> False | Some run \<Rightarrow> run \<notin> set runs)]"

record expiry_floors =
  xf_evaluation :: int
  xf_report :: int
  xf_intake :: int
  xf_status :: int

definition compute_floors ::
  "'x retention_externals_scheme \<Rightarrow> retention_db \<Rightarrow> string \<Rightarrow> RetentionBoundary \<Rightarrow> string list \<Rightarrow> expiry_floors" where
  "compute_floors x db cutoff before runs =
     \<lparr>xf_evaluation = advance_floor (rb_evaluation_floor before)
        (map er_evaluation_sequence (evaluation_stops x db cutoff (rb_evaluation_floor before) runs))
        (map er_evaluation_sequence (rt_evaluation_runs db)),
      xf_report = advance_floor (rb_report_floor before)
        (map rp_report_sequence (report_stops db (rb_report_floor before) runs))
        (map rp_report_sequence (rt_admitted_reports db)),
      xf_intake = advance_floor (rb_intake_floor before)
        (map in_intake_sequence (intake_stops db (rb_intake_floor before) runs))
        (map in_intake_sequence (rt_intake_attempts db)),
      xf_status = advance_floor (rb_status_floor before)
        (map st_status_sequence (status_stops db (rb_status_floor before) runs))
        (map st_status_sequence (filter (\<lambda>s. st_run_id s \<noteq> None) (rt_status_events db)))\<rparr>"

text \<open>A candidate with a row beyond a floor is given up.\<close>

definition reaches_beyond :: "retention_db \<Rightarrow> expiry_floors \<Rightarrow> string \<Rightarrow> bool" where
  "reaches_beyond db f run \<longleftrightarrow>
     list_ex (\<lambda>e. xf_evaluation f < er_evaluation_sequence e \<and> er_trigger_run_id e = Some run) (rt_evaluation_runs db) \<or>
     list_ex (\<lambda>a. xf_report f < rp_report_sequence a) (run_reports db run) \<or>
     list_ex (\<lambda>p. xf_intake f < in_intake_sequence p) (run_intakes db run) \<or>
     list_ex (\<lambda>s. xf_status f < st_status_sequence s \<and> st_run_id s = Some run) (rt_status_events db)"

function floor_loop ::
  "'x retention_externals_scheme \<Rightarrow> retention_db \<Rightarrow> string \<Rightarrow> RetentionBoundary \<Rightarrow> string list \<Rightarrow>
    expiry_floors \<times> string list" where
  "floor_loop x db cutoff before runs =
     (let floors = compute_floors x db cutoff before runs;
          kept = filter (\<lambda>run. \<not> reaches_beyond db floors run) runs
      in if length kept = length runs then (floors, kept) else floor_loop x db cutoff before kept)"
  by pat_completeness auto

termination
proof (relation "measure (\<lambda>(x, db, cutoff, before, runs). length runs)")
  fix x :: "'x retention_externals_scheme" and db cutoff before runs floors and kept :: "string list"
  assume "kept = filter (\<lambda>run. \<not> reaches_beyond db floors run) runs" and "length kept \<noteq> length runs"
  then show "((x, db, cutoff, before, kept), (x, db, cutoff, before, runs)) \<in>
      measure (\<lambda>(x, db, cutoff, before, runs). length runs)"
    by (simp add: nat_less_le)
qed simp

declare floor_loop.simps [simp del]

section \<open>Roots\<close>

definition custody_terminal :: "retention_db \<Rightarrow> outbox_row \<Rightarrow> bool" where
  "custody_terminal db ob \<longleftrightarrow>
     (let n = ob_notification_id ob in
      if n \<in> set (rt_delivery_intents db) then
        list_ex (\<lambda>(m, outcome). m = n \<and> outcome \<in> {''accepted'', ''refused'', ''failed''}) (rt_delivery_events db)
      else
        list_ex (\<lambda>(m, outcome). m = n \<and> outcome = ''delivered'') (rt_notification_attempts db) \<or>
        ob_max_attempts ob \<le> length (filter (\<lambda>(m, _). m = n) (rt_notification_attempts db)))"

definition live_finding_event :: "retention_db \<Rightarrow> finding_row \<Rightarrow> bool" where
  "live_finding_event db e \<longleftrightarrow>
     list_ex (\<lambda>(finding, latest). finding = fr_finding_id e \<and>
       list_ex (\<lambda>h. fr_event_id h = latest \<and> fr_condition_state h \<noteq> ''explicitly_absent'' \<and>
         (fr_event_id h = fr_event_id e \<or>
          Some (fr_event_revision e) = sql_max (map fr_event_revision (filter (\<lambda>f. fr_finding_id f = fr_finding_id e \<and>
            fr_event_kind f \<in> {''opened'', ''reopened''}) (rt_finding_events db))))) (rt_finding_events db))
       (rt_finding_current db) \<or>
     list_ex (\<lambda>ob. ob_finding_event_id ob = Some (fr_event_id e) \<and> \<not> custody_terminal db ob) (rt_notification_outbox db) \<and>
     \<not> list_ex (\<lambda>c. er_evaluation_id c = fr_evaluation_id e \<and> er_source_expired c) (rt_evaluation_runs db)"

definition own_instance :: "retention_db \<Rightarrow> evaluation_row \<Rightarrow> string option" where
  "own_instance db e =
     map_option wm_instance_id (List.find (\<lambda>w. wm_evaluation_id w = er_evaluation_id e) (rt_evaluation_watermarks db))"

definition lineage_newest :: "retention_db \<Rightarrow> evaluation_row \<Rightarrow> bool" where
  "lineage_newest db e \<longleftrightarrow>
     \<not> list_ex (\<lambda>w. own_instance db e = Some (wm_instance_id w) \<and>
       list_ex (\<lambda>newer. er_evaluation_id newer = wm_evaluation_id w \<and>
         er_detector_id newer = er_detector_id e \<and> er_detector_version newer = er_detector_version e \<and>
         er_evaluation_revision e < er_evaluation_revision newer \<and> \<not> er_source_expired newer \<and>
         er_lineage newer = er_lineage e) (rt_evaluation_runs db)) (rt_evaluation_watermarks db)"

definition pending_claim :: "retention_db \<Rightarrow> string \<Rightarrow> bool" where
  "pending_claim db evaluation \<longleftrightarrow>
     (Some evaluation, ''claimed'') \<in> set (rt_saved_check_events db) \<and>
     \<not> list_ex (\<lambda>(t, outcome). t = Some evaluation \<and> outcome \<in> {''refused'', ''passed'', ''failed''}) (rt_saved_check_events db)"

definition evaluation_root :: "retention_db \<Rightarrow> evaluation_row \<Rightarrow> bool" where
  "evaluation_root db e \<longleftrightarrow>
     list_ex (\<lambda>f. fr_evaluation_id f = er_evaluation_id e \<and> live_finding_event db f) (rt_finding_events db) \<or>
     pending_claim db (er_evaluation_id e) \<or>
     list_ex (\<lambda>(_, evaluation). evaluation = Some (er_evaluation_id e)) (rt_diagnostic_origins db) \<or>
     lineage_newest db e"

text \<open>
  The runs that roots protect: a successor intent, a diagnostic origin, the current status of a
  component, the newest report of an instance, the newest acknowledged checkpoint of a contract, and
  evidence of a live finding event.
\<close>

definition newest_report :: "retention_db \<Rightarrow> report_row \<Rightarrow> bool" where
  "newest_report db a \<longleftrightarrow>
     Some (rp_report_sequence a) =
       sql_max (map rp_report_sequence (filter (\<lambda>m. rp_instance_id m = rp_instance_id a) (rt_admitted_reports db)))"

text \<open>A run with its intake acknowledged.\<close>

definition acknowledged_run :: "retention_db \<Rightarrow> run_row \<Rightarrow> bool" where
  "acknowledged_run db w \<longleftrightarrow>
     list_ex (\<lambda>(intake, run). run = wr_run_id w \<and> (intake, run) \<in> set (rt_acknowledgments db)) (rt_intake_links db)"

definition newest_checkpoint :: "retention_db \<Rightarrow> run_row \<Rightarrow> report_row \<Rightarrow> bool" where
  "newest_checkpoint db w a \<longleftrightarrow>
     acknowledged_run db w \<and> rp_has_next_checkpoint a \<and>
     \<not> list_ex (\<lambda>nw. acknowledged_run db nw \<and> wr_checkpoint_contract_digest nw = wr_checkpoint_contract_digest w \<and>
         list_ex (\<lambda>newer. rp_instance_id newer = rp_instance_id a \<and> rp_has_next_checkpoint newer \<and>
           rp_report_sequence a < rp_report_sequence newer) (run_reports db (wr_run_id nw))) (rt_watcher_runs db)"

definition live_evidence :: "retention_db \<Rightarrow> report_row \<Rightarrow> bool" where
  "live_evidence db a \<longleftrightarrow>
     list_ex (\<lambda>(event, report). report = rp_report_id a \<and>
       list_ex (\<lambda>e. fr_event_id e = event \<and> live_finding_event db e) (rt_finding_events db)) (rt_finding_evidence db)"

definition run_root :: "retention_db \<Rightarrow> string \<Rightarrow> bool" where
  "run_root db run \<longleftrightarrow>
     run \<in> set (rt_successor_intents db) \<or>
     list_ex (\<lambda>(origin_run, _). origin_run = run) (rt_diagnostic_origins db) \<or>
     list_ex (\<lambda>s. st_run_id s = Some run \<and> st_status_event_id s \<in> set (rt_status_current db)) (rt_status_events db) \<or>
     list_ex (newest_report db) (run_reports db run) \<or>
     list_ex (\<lambda>w. wr_run_id w = run \<and> list_ex (newest_checkpoint db w) (run_reports db run)) (rt_watcher_runs db) \<or>
     list_ex (live_evidence db) (run_reports db run)"

section \<open>The closure of protection\<close>

record planned_evaluation =
  pe_evaluation_id :: string
  pe_trigger_run_id :: "string option"
  pe_disposition :: disposition

definition mark_islands :: "(planned_evaluation \<Rightarrow> bool) \<Rightarrow> planned_evaluation list \<Rightarrow> planned_evaluation list" where
  "mark_islands P evaluations =
     map (\<lambda>e. if P e then e\<lparr>pe_disposition := DispositionIsland\<rparr> else e) evaluations"

definition islands :: "planned_evaluation list \<Rightarrow> planned_evaluation list" where
  "islands evaluations = filter (\<lambda>e. pe_disposition e = DispositionIsland) evaluations"

definition insert_ignore :: "string list \<Rightarrow> string list \<Rightarrow> string list" where
  "insert_ignore keys new = keys @ remdups (filter (\<lambda>k. k \<notin> set keys) new)"

definition seed_evaluations :: "retention_db \<Rightarrow> int \<Rightarrow> planned_evaluation list" where
  "seed_evaluations db evaluation_floor =
     map (\<lambda>e. \<lparr>pe_evaluation_id = er_evaluation_id e, pe_trigger_run_id = er_trigger_run_id e,
               pe_disposition = DispositionDelete\<rparr>)
       (filter (\<lambda>e. er_evaluation_sequence e \<le> evaluation_floor \<and> \<not> er_source_expired e) (rt_evaluation_runs db))"

definition root_evaluations :: "retention_db \<Rightarrow> planned_evaluation list \<Rightarrow> planned_evaluation list" where
  "root_evaluations db evaluations =
     mark_islands (\<lambda>p. list_ex (\<lambda>e. er_evaluation_id e = pe_evaluation_id p \<and> evaluation_root db e)
       (rt_evaluation_runs db)) evaluations"

definition root_runs :: "retention_db \<Rightarrow> string list \<Rightarrow> string list" where
  "root_runs db runs = insert_ignore [] (filter (run_root db) runs)"

text \<open>An evaluation that stays full, and the reports it names by its watermark or in its envelope.\<close>

definition stays_full :: "int \<Rightarrow> planned_evaluation list \<Rightarrow> evaluation_row \<Rightarrow> bool" where
  "stays_full evaluation_floor evaluations e \<longleftrightarrow>
     evaluation_floor < er_evaluation_sequence e \<or>
     er_evaluation_id e \<in> pe_evaluation_id ` set (islands evaluations)"

definition names_report :: "retention_db \<Rightarrow> evaluation_row \<Rightarrow> report_row \<Rightarrow> bool" where
  "names_report db e a \<longleftrightarrow>
     list_ex (\<lambda>w. wm_evaluation_id w = er_evaluation_id e \<and> wm_instance_id w = rp_instance_id a \<and>
       wm_max_report_sequence w = rp_report_sequence a) (rt_evaluation_watermarks db) \<or>
     \<not> er_source_expired e \<and>
     (case er_min_cited_report_sequence e of None \<Rightarrow> False | Some m \<Rightarrow> m \<le> rp_report_sequence a) \<and>
     rp_report_id a \<in> set (er_texts e)"

text \<open>
  The runs an island holds by its trigger, the evaluations a held run protects, and the runs held by a
  report some full evaluation names.
\<close>

definition island_triggers :: "string list \<Rightarrow> planned_evaluation list \<Rightarrow> string list" where
  "island_triggers runs evaluations =
     filter (\<lambda>run. run \<in> set runs) (List.map_filter pe_trigger_run_id (islands evaluations))"

definition triggered_by :: "string list \<Rightarrow> planned_evaluation \<Rightarrow> bool" where
  "triggered_by held p = (case pe_trigger_run_id p of None \<Rightarrow> False | Some run \<Rightarrow> run \<in> set held)"

definition named_runs :: "retention_db \<Rightarrow> int \<Rightarrow> string list \<Rightarrow> planned_evaluation list \<Rightarrow> string list" where
  "named_runs db evaluation_floor runs evaluations =
     map rs_run_id (filter (\<lambda>r. rs_run_id r \<in> set runs \<and>
       list_ex (\<lambda>a. rp_submission_id a = rs_submission_id r \<and>
         list_ex (\<lambda>e. stays_full evaluation_floor evaluations e \<and> names_report db e a)
           (rt_evaluation_runs db)) (rt_admitted_reports db)) (rt_raw_submissions db))"

definition protection_step ::
  "retention_db \<Rightarrow> int \<Rightarrow> string list \<Rightarrow> string list \<times> planned_evaluation list \<Rightarrow>
    string list \<times> planned_evaluation list" where
  "protection_step db evaluation_floor runs state =
     (let (held, evaluations) = state;
          held = insert_ignore held (island_triggers runs evaluations);
          evaluations = mark_islands (triggered_by held) evaluations;
          held = insert_ignore held (named_runs db evaluation_floor runs evaluations)
      in (held, evaluations))"

subsection \<open>Termination of the closure\<close>

lemma set_insert_ignore [simp]: "set (insert_ignore keys new) = set keys \<union> set new"
  by (auto simp: insert_ignore_def)

lemma distinct_insert_ignore: "distinct keys \<Longrightarrow> distinct (insert_ignore keys new)"
  by (auto simp: insert_ignore_def)

lemma length_insert_ignore: "length keys \<le> length (insert_ignore keys new)"
  by (simp add: insert_ignore_def)

lemma insert_ignore_unchanged:
  "length (insert_ignore keys new) = length keys \<longleftrightarrow> set new \<subseteq> set keys"
  by (auto simp: insert_ignore_def filter_empty_conv)

lemma mark_islands_simps [simp]:
  "mark_islands P [] = []"
  "mark_islands P (e # es) = (if P e then e\<lparr>pe_disposition := DispositionIsland\<rparr> else e) # mark_islands P es"
  by (simp_all add: mark_islands_def)

lemma length_mark_islands [simp]: "length (mark_islands P es) = length es"
  by (simp add: mark_islands_def)

lemma islands_mark_islands: "length (islands es) \<le> length (islands (mark_islands P es))"
  by (induction es) (auto simp: islands_def)

lemma length_islands: "length (islands es) \<le> length es"
  by (simp add: islands_def)

lemma protection_step_grows:
  assumes "protection_step db evaluation_floor runs (held, es) = (held', es')"
  shows "length held \<le> length held'" and "length (islands es) \<le> length (islands es')" and "length es' = length es"
    and "set held \<subseteq> set held'" and "set held' \<subseteq> set held \<union> set runs" and "distinct held \<Longrightarrow> distinct held'"
    and "length held' = length held \<longleftrightarrow> set held' = set held"
proof -
  obtain new1 new2 P where steps: "held' = insert_ignore (insert_ignore held new1) new2" "es' = mark_islands P es"
      "set new1 \<subseteq> set runs" "set new2 \<subseteq> set runs"
    using assms by (force simp: protection_step_def Let_def island_triggers_def named_runs_def)
  show "length held \<le> length held'"
    using length_insert_ignore [of held new1] length_insert_ignore [of "insert_ignore held new1" new2] by (simp add: steps)
  show "length (islands es) \<le> length (islands es')" "length es' = length es" "set held \<subseteq> set held'"
      "set held' \<subseteq> set held \<union> set runs" "distinct held \<Longrightarrow> distinct held'"
    using steps by (auto simp: islands_mark_islands distinct_insert_ignore)
  show "length held' = length held \<longleftrightarrow> set held' = set held"
    using length_insert_ignore [of held new1] length_insert_ignore [of "insert_ignore held new1" new2]
      insert_ignore_unchanged [of held new1] insert_ignore_unchanged [of "insert_ignore held new1" new2]
    by (auto simp: steps)
qed

lemma closure_measure:
  assumes "protection_step db evaluation_floor runs (held, es) = (held', es')"
    and "length held' \<noteq> length held \<or> length (islands es') \<noteq> length (islands es)"
  shows "length (filter (\<lambda>r. r \<notin> set held') runs) + (length es' - length (islands es')) <
    length (filter (\<lambda>r. r \<notin> set held) runs) + (length es - length (islands es))"
proof -
  note grows = protection_step_grows [OF assms(1)]
  have fewer: "length (filter (\<lambda>r. r \<notin> set held') runs) \<le> length (filter (\<lambda>r. r \<notin> set held) runs)"
    using grows(4) by (induction runs) auto
  show ?thesis
  proof (cases "length held' = length held")
    case True
    with assms(2) grows(2,3) length_islands [of es'] fewer show ?thesis by linarith
  next
    case False
    then obtain k where k: "k \<in> set runs" "k \<in> set held'" "k \<notin> set held"
      using grows(4,5,7) by blast
    have "filter (\<lambda>r. r \<notin> set held') runs = filter (\<lambda>r. r \<notin> set held') (filter (\<lambda>r. r \<notin> set held) runs)"
      using grows(4) by (auto intro!: filter_cong)
    then have "length (filter (\<lambda>r. r \<notin> set held') runs) < length (filter (\<lambda>r. r \<notin> set held) runs)"
      using length_filter_less [of k "filter (\<lambda>r. r \<notin> set held) runs" "\<lambda>r. r \<notin> set held'"] k by simp
    with grows(2,3) length_islands [of es'] show ?thesis by linarith
  qed
qed

function protection_loop ::
  "retention_db \<Rightarrow> int \<Rightarrow> string list \<Rightarrow> string list \<times> planned_evaluation list \<Rightarrow>
    string list \<times> planned_evaluation list" where
  "protection_loop db evaluation_floor runs state =
     (let state' = protection_step db evaluation_floor runs state
      in if length (fst state') = length (fst state) \<and> length (islands (snd state')) = length (islands (snd state))
         then state' else protection_loop db evaluation_floor runs state')"
  by pat_completeness auto

termination
proof (relation "measure (\<lambda>(db, evaluation_floor, runs, held, es).
    length (filter (\<lambda>r. r \<notin> set held) runs) + (length es - length (islands es)))")
  fix db evaluation_floor runs and state state' :: "string list \<times> planned_evaluation list"
  assume "state' = protection_step db evaluation_floor runs state"
    and "\<not> (length (fst state') = length (fst state) \<and> length (islands (snd state')) = length (islands (snd state)))"
  then show "((db, evaluation_floor, runs, state'), (db, evaluation_floor, runs, state)) \<in>
      measure (\<lambda>(db, evaluation_floor, runs, held, es).
        length (filter (\<lambda>r. r \<notin> set held) runs) + (length es - length (islands es)))"
    using closure_measure [of db evaluation_floor runs "fst state" "snd state" "fst state'" "snd state'"]
    by (auto simp: case_prod_beta)
qed simp

declare protection_loop.simps [simp del]

section \<open>The plan\<close>

definition compact_evaluations :: "retention_db \<Rightarrow> planned_evaluation list \<Rightarrow> planned_evaluation list" where
  "compact_evaluations db evaluations =
     map (\<lambda>p. if pe_disposition p = DispositionDelete \<and>
           (pe_evaluation_id p \<in> set (map fr_evaluation_id (rt_finding_events db)) \<or>
            Some (pe_evaluation_id p) \<in> set (map fst (rt_saved_check_events db)))
         then p\<lparr>pe_disposition := DispositionCompact\<rparr> else p) evaluations"

definition compact_reports ::
  "retention_db \<Rightarrow> int \<Rightarrow> string list \<Rightarrow> string list \<Rightarrow> planned_evaluation list \<Rightarrow> string list" where
  "compact_reports db report_floor runs held evaluations =
     map rp_report_id (filter (\<lambda>a. \<not> rp_source_expired a \<and> rp_report_sequence a \<le> report_floor \<and>
       list_ex (\<lambda>r. rs_submission_id r = rp_submission_id a \<and> rs_run_id r \<in> set runs \<and> rs_run_id r \<notin> set held \<and>
         (rp_report_id a \<in> set (map snd (rt_finding_evidence db)) \<or>
          Some (rs_run_id r) \<in> set (map pe_trigger_run_id
            (filter (\<lambda>p. pe_disposition p = DispositionCompact) evaluations)))) (rt_raw_submissions db))
       (rt_admitted_reports db))"

definition anchor_run :: "retention_db \<Rightarrow> string list \<Rightarrow> string \<Rightarrow> bool" where
  "anchor_run db compacted run =
     list_ex (\<lambda>r. rs_run_id r = run \<and>
       (case List.find (\<lambda>a. rp_submission_id a = rs_submission_id r) (rt_admitted_reports db) of
          None \<Rightarrow> False
        | Some a \<Rightarrow> rp_report_id a \<in> set compacted)) (rt_raw_submissions db)"

record ExpiryPlan =
  ep_floors :: expiry_floors
  ep_affected_runs :: nat
  ep_affected_evaluations :: nat
  ep_candidates_remaining :: bool

definition plan_expiry ::
  "'x retention_externals_scheme \<Rightarrow> retention_db \<Rightarrow> string \<Rightarrow> RetentionBoundary \<Rightarrow> nat option \<Rightarrow>
    ExpiryPlan \<times> expiry_tables" where
  "plan_expiry x db cutoff before max_candidate_runs =
     (let (candidates, remaining) = trim_candidates db before max_candidate_runs (expiry_runs x db cutoff);
          (floors, runs) = floor_loop x db cutoff before candidates;
          seeded = root_evaluations db (seed_evaluations db (xf_evaluation floors));
          (held, closed) = protection_loop db (xf_evaluation floors) runs (root_runs db runs, seeded);
          evaluations = compact_evaluations db closed;
          compacted = compact_reports db (xf_report floors) runs held evaluations;
          dead = map (\<lambda>run. (run, anchor_run db compacted run)) (filter (\<lambda>run. run \<notin> set held) runs)
      in (\<lparr>ep_floors = floors, ep_affected_runs = length dead,
           ep_affected_evaluations = length (filter (\<lambda>p. pe_disposition p \<noteq> DispositionIsland) evaluations),
           ep_candidates_remaining = remaining\<rparr>,
          \<lparr>expiry_evaluations = map (\<lambda>p. (pe_evaluation_id p, pe_disposition p)) evaluations,
           expiry_compact_reports = compacted, expiry_dead_runs = dead\<rparr>))"

section \<open>The floors at the fixpoint\<close>

lemma advance_floor_ge: "fl \<le> advance_floor fl stops all"
  by (simp add: advance_floor_def)

lemma advance_floor_below: "v \<in> set stops \<Longrightarrow> fl < v \<Longrightarrow> advance_floor fl stops all < v"
proof -
  assume v: "v \<in> set stops" "fl < v"
  define m where "m = Min (set stops)"
  with v have "m \<le> v" "stops \<noteq> []" by auto
  with v show ?thesis by (simp add: advance_floor_def sql_min_def m_def [symmetric])
qed

lemma filter_all_kept: "length (filter P xs) = length xs \<Longrightarrow> filter P xs = xs"
  unfolding filter_id_conv using length_filter_less [of _ xs P] by fastforce

lemma floor_loop_fixpoint:
  assumes "floor_loop x db cutoff before runs = (floors, kept)"
  shows "floors = compute_floors x db cutoff before kept" and "set kept \<subseteq> set runs"
    and "run \<in> set kept \<Longrightarrow> \<not> reaches_beyond db floors run"
proof -
  have "floors = compute_floors x db cutoff before kept \<and> set kept \<subseteq> set runs \<and>
      (\<forall>run \<in> set kept. \<not> reaches_beyond db floors run)"
    using assms
  proof (induction x db cutoff before runs rule: floor_loop.induct)
    case (1 x db cutoff before runs)
    define fs where "fs = compute_floors x db cutoff before runs"
    define stay where "stay = filter (\<lambda>run. \<not> reaches_beyond db fs run) runs"
    show ?case
    proof (cases "length stay = length runs")
      case True
      then have "stay = runs" unfolding stay_def by (rule filter_all_kept)
      moreover from this True "1.prems" have "floors = fs" "kept = runs"
        by (simp_all add: floor_loop.simps [of x db cutoff before runs] Let_def fs_def [symmetric] stay_def [symmetric])
      ultimately show ?thesis
        using filter_id_conv [of "\<lambda>run. \<not> reaches_beyond db fs run" runs] by (simp add: fs_def stay_def)
    next
      case False
      with "1.prems" have "floor_loop x db cutoff before stay = (floors, kept)"
        by (simp add: floor_loop.simps [of x db cutoff before runs] Let_def fs_def [symmetric] stay_def [symmetric])
      from "1.IH" [OF fs_def stay_def False this] show ?thesis by (auto simp: stay_def)
    qed
  qed
  then show "floors = compute_floors x db cutoff before kept" "set kept \<subseteq> set runs"
    "run \<in> set kept \<Longrightarrow> \<not> reaches_beyond db floors run" by blast+
qed

text \<open>
  Floors fit a set of runs: they do not retreat, every row they newly pass is aged and belongs to one of
  the runs, and none of the runs has a row beyond them.
\<close>

definition floors_fit ::
  "'x retention_externals_scheme \<Rightarrow> retention_db \<Rightarrow> string \<Rightarrow> RetentionBoundary \<Rightarrow> expiry_floors \<Rightarrow> string list \<Rightarrow> bool" where
  "floors_fit x db cutoff before f runs \<longleftrightarrow>
     rb_evaluation_floor before \<le> xf_evaluation f \<and> rb_report_floor before \<le> xf_report f \<and>
     rb_intake_floor before \<le> xf_intake f \<and> rb_status_floor before \<le> xf_status f \<and>
     (\<forall>e \<in> set (rt_evaluation_runs db).
        rb_evaluation_floor before < er_evaluation_sequence e \<and> er_evaluation_sequence e \<le> xf_evaluation f \<longrightarrow>
        \<not> young x (er_evaluated_at e) cutoff \<and> (\<forall>run. er_trigger_run_id e = Some run \<longrightarrow> run \<in> set runs)) \<and>
     (\<forall>a \<in> set (rt_admitted_reports db). \<forall>r \<in> set (rt_raw_submissions db).
        rb_report_floor before < rp_report_sequence a \<and> rp_report_sequence a \<le> xf_report f \<and>
        rs_submission_id r = rp_submission_id a \<longrightarrow> rs_run_id r \<in> set runs) \<and>
     (\<forall>p \<in> set (rt_intake_attempts db).
        rb_intake_floor before < in_intake_sequence p \<and> in_intake_sequence p \<le> xf_intake f \<and> \<not> in_history_expired p \<longrightarrow>
        (\<exists>run. (in_intake_id p, run) \<in> set (rt_intake_links db)) \<and>
        (\<forall>run. (in_intake_id p, run) \<in> set (rt_intake_links db) \<longrightarrow> run \<in> set runs)) \<and>
     (\<forall>s \<in> set (rt_status_events db). \<forall>run.
        rb_status_floor before < st_status_sequence s \<and> st_status_sequence s \<le> xf_status f \<and> st_run_id s = Some run \<longrightarrow>
        run \<in> set runs) \<and>
     (\<forall>run \<in> set runs. \<not> reaches_beyond db f run)"

lemma not_a_stop:
  "fl < v \<Longrightarrow> v \<le> advance_floor fl stops all \<Longrightarrow> v \<notin> set stops"
  using advance_floor_below by (metis linorder_not_le)

lemma stops_below_floor:
  assumes "row \<in> set rows" and "fl < sequence row" and "P row"
  shows "\<not> sequence row \<le> advance_floor fl (map sequence [row \<leftarrow> rows. fl < sequence row \<and> P row]) all"
  using not_a_stop [of fl "sequence row" "map sequence [row \<leftarrow> rows. fl < sequence row \<and> P row]" all] assms by auto

lemma floor_loop_fits:
  assumes "floor_loop x db cutoff before runs = (floors, kept)"
  shows "floors_fit x db cutoff before floors kept"
proof -
  note facts = floor_loop_fixpoint [OF assms]
  have "\<not> young x (er_evaluated_at e) cutoff \<and> (\<forall>run. er_trigger_run_id e = Some run \<longrightarrow> run \<in> set kept)"
    if "e \<in> set (rt_evaluation_runs db)" "rb_evaluation_floor before < er_evaluation_sequence e"
      "er_evaluation_sequence e \<le> xf_evaluation floors" for e
    using stops_below_floor [of e "rt_evaluation_runs db" "rb_evaluation_floor before" er_evaluation_sequence
        "\<lambda>e. young x (er_evaluated_at e) cutoff \<or> (case er_trigger_run_id e of None \<Rightarrow> False | Some run \<Rightarrow> run \<notin> set kept)"] that
    by (force simp: facts(1) compute_floors_def evaluation_stops_def)
  moreover have "rs_run_id r \<in> set kept"
    if "a \<in> set (rt_admitted_reports db)" "r \<in> set (rt_raw_submissions db)" "rb_report_floor before < rp_report_sequence a"
      "rp_report_sequence a \<le> xf_report floors" "rs_submission_id r = rp_submission_id a" for a r
    using stops_below_floor [of a "rt_admitted_reports db" "rb_report_floor before" rp_report_sequence
        "\<lambda>a. list_ex (\<lambda>r. rs_submission_id r = rp_submission_id a \<and> rs_run_id r \<notin> set kept) (rt_raw_submissions db)"] that
    by (auto simp: facts(1) compute_floors_def report_stops_def list_ex_iff)
  moreover have "(\<exists>run. (in_intake_id p, run) \<in> set (rt_intake_links db)) \<and>
      (\<forall>run. (in_intake_id p, run) \<in> set (rt_intake_links db) \<longrightarrow> run \<in> set kept)"
    if "p \<in> set (rt_intake_attempts db)" "rb_intake_floor before < in_intake_sequence p"
      "in_intake_sequence p \<le> xf_intake floors" "\<not> in_history_expired p" for p
    using stops_below_floor [of p "rt_intake_attempts db" "rb_intake_floor before" in_intake_sequence
        "\<lambda>p. \<not> in_history_expired p \<and> (let links = map snd (filter (\<lambda>l. fst l = in_intake_id p) (rt_intake_links db))
          in links = [] \<or> list_ex (\<lambda>run. run \<notin> set kept) links)"] that
    by (fastforce simp: facts(1) compute_floors_def intake_stops_def list_ex_iff filter_empty_conv Let_def)
  moreover have "run \<in> set kept"
    if "s \<in> set (rt_status_events db)" "rb_status_floor before < st_status_sequence s"
      "st_status_sequence s \<le> xf_status floors" "st_run_id s = Some run" for s run
    using stops_below_floor [of s "rt_status_events db" "rb_status_floor before" st_status_sequence
        "\<lambda>s. case st_run_id s of None \<Rightarrow> False | Some run \<Rightarrow> run \<notin> set kept"] that
    by (auto simp: facts(1) compute_floors_def status_stops_def)
  moreover have "rb_evaluation_floor before \<le> xf_evaluation floors" "rb_report_floor before \<le> xf_report floors"
      "rb_intake_floor before \<le> xf_intake floors" "rb_status_floor before \<le> xf_status floors"
    by (simp_all add: facts(1) compute_floors_def advance_floor_ge)
  ultimately show ?thesis unfolding floors_fit_def using facts(3) by blast
qed

section \<open>Protection at the fixpoint\<close>

lemma insert_ignore_same: "length (insert_ignore keys new) = length keys \<Longrightarrow> insert_ignore keys new = keys"
  by (simp add: insert_ignore_def)

lemma already_island: "pe_disposition e = DispositionIsland \<Longrightarrow> e\<lparr>pe_disposition := DispositionIsland\<rparr> = e"
  for e :: planned_evaluation
  by (cases e) simp

lemma mark_islands_same:
  "length (islands (mark_islands P es)) = length (islands es) \<Longrightarrow> mark_islands P es = es"
proof (induction es)
  case (Cons e es)
  have more_islands: "length (islands es) \<le> length (islands (mark_islands P es))" by (rule islands_mark_islands)
  show ?case
  proof (cases "P e \<and> pe_disposition e \<noteq> DispositionIsland")
    case True
    with Cons.prems more_islands show ?thesis by (simp add: islands_def)
  next
    case False
    then have "(if P e then e\<lparr>pe_disposition := DispositionIsland\<rparr> else e) = e" by (simp add: already_island)
    then have same: "mark_islands P (e # es) = e # mark_islands P es" by simp
    with Cons.prems have "length (islands (mark_islands P es)) = length (islands es)"
      by (simp add: islands_def split: if_splits)
    then have "mark_islands P es = es" by (rule Cons.IH)
    with same show ?thesis by simp
  qed
qed simp

text \<open>A state is protected when one more round of the closure would add nothing.\<close>

definition closed_protection ::
  "retention_db \<Rightarrow> int \<Rightarrow> string list \<Rightarrow> string list \<Rightarrow> planned_evaluation list \<Rightarrow> bool" where
  "closed_protection db evaluation_floor runs held evaluations \<longleftrightarrow>
     (\<forall>p \<in> set evaluations. \<forall>run. pe_trigger_run_id p = Some run \<longrightarrow>
        (pe_disposition p = DispositionIsland \<and> run \<in> set runs \<longrightarrow> run \<in> set held) \<and>
        (run \<in> set held \<longrightarrow> pe_disposition p = DispositionIsland)) \<and>
     (\<forall>r \<in> set (rt_raw_submissions db). \<forall>a \<in> set (rt_admitted_reports db). \<forall>e \<in> set (rt_evaluation_runs db).
        rs_run_id r \<in> set runs \<and> rp_submission_id a = rs_submission_id r \<and>
        stays_full evaluation_floor evaluations e \<and> names_report db e a \<longrightarrow> rs_run_id r \<in> set held)"

lemma mark_islands_marked:
  fixes es :: "planned_evaluation list"
  shows "mark_islands P es = es \<Longrightarrow> p \<in> set es \<Longrightarrow> P p \<Longrightarrow> pe_disposition p = DispositionIsland"
proof (induction es)
  case (Cons e es)
  then have "P e \<Longrightarrow> e\<lparr>pe_disposition := DispositionIsland\<rparr> = e" "mark_islands P es = es" by simp_all
  moreover have "pe_disposition (e\<lparr>pe_disposition := DispositionIsland\<rparr>) = DispositionIsland" by simp
  ultimately show ?case using Cons by (metis set_ConsD)
qed simp

lemma protection_step_same:
  assumes "protection_step db evaluation_floor runs (held, es) = (held', es')"
    and "length held' = length held" and "length (islands es') = length (islands es)"
  shows "held' = held \<and> es' = es \<and> closed_protection db evaluation_floor runs held es"
proof -
  define held1 where "held1 = insert_ignore held (island_triggers runs es)"
  have step: "held' = insert_ignore held1 (named_runs db evaluation_floor runs es')" "es' = mark_islands (triggered_by held1) es"
    using assms(1) by (auto simp: protection_step_def Let_def held1_def)
  have "length held \<le> length held1" "length held1 \<le> length held'"
    by (simp_all add: held1_def step(1) length_insert_ignore)
  with assms(2) have lengths: "length held1 = length held" "length held' = length held1" by simp_all
  have held1: "held1 = held" using lengths(1) unfolding held1_def by (rule insert_ignore_same)
  have held: "held' = held" using insert_ignore_same [of held1] lengths(2) held1 step(1) by metis
  have es: "es' = es" using mark_islands_same assms(3) unfolding step(2) .
  have "set (island_triggers runs es) \<subseteq> set held"
    using insert_ignore_unchanged lengths(1) unfolding held1_def by metis
  then have triggers: "run \<in> set held"
    if "p \<in> set es" "pe_trigger_run_id p = Some run" "pe_disposition p = DispositionIsland" "run \<in> set runs" for p run
    using that by (force simp: island_triggers_def islands_def List.map_filter_def)
  have "set (named_runs db evaluation_floor runs es) \<subseteq> set held"
    using insert_ignore_unchanged lengths(2) step(1) held1 es by metis
  then have named: "rs_run_id r \<in> set held"
    if "r \<in> set (rt_raw_submissions db)" "a \<in> set (rt_admitted_reports db)" "e \<in> set (rt_evaluation_runs db)"
      "rs_run_id r \<in> set runs" "rp_submission_id a = rs_submission_id r" "stays_full evaluation_floor es e" "names_report db e a"
    for r a e
    using that unfolding named_runs_def list_ex_iff by auto
  have marked: "triggered_by held p \<Longrightarrow> pe_disposition p = DispositionIsland" if "p \<in> set es" for p
    using mark_islands_marked [of "triggered_by held" es p] that es step(2) held1 by simp
  have "closed_protection db evaluation_floor runs held es"
    unfolding closed_protection_def using triggers marked named by (auto simp: triggered_by_def)
  with held es show ?thesis by simp
qed

text \<open>One list of decisions protects at least what another does.\<close>

definition protects :: "planned_evaluation \<Rightarrow> planned_evaluation \<Rightarrow> bool" where
  "protects p q \<longleftrightarrow> pe_evaluation_id q = pe_evaluation_id p \<and> pe_trigger_run_id q = pe_trigger_run_id p \<and>
     (pe_disposition q = pe_disposition p \<or> pe_disposition q = DispositionIsland)"

definition more_protected :: "planned_evaluation list \<Rightarrow> planned_evaluation list \<Rightarrow> bool" where
  "more_protected = list_all2 protects"

lemma more_protected_trans: "more_protected es fs \<Longrightarrow> more_protected fs gs \<Longrightarrow> more_protected es gs"
  unfolding more_protected_def
  by (induction arbitrary: gs rule: list_all2_induct) (auto simp: list_all2_Cons1 protects_def)

lemma more_protected_mark: "more_protected es (mark_islands P es)"
  unfolding more_protected_def by (induction es) (auto simp: protects_def)

lemma more_protected_origin: "more_protected es fs \<Longrightarrow> q \<in> set fs \<Longrightarrow> \<exists>p \<in> set es. protects p q"
  unfolding more_protected_def by (induction rule: list_all2_induct) auto

lemma more_protected_image: "more_protected es fs \<Longrightarrow> p \<in> set es \<Longrightarrow> \<exists>q \<in> set fs. protects p q"
  unfolding more_protected_def by (induction rule: list_all2_induct) auto

lemma protection_loop_fixpoint:
  assumes "protection_loop db evaluation_floor runs (held, es) = (held', es')"
  shows "closed_protection db evaluation_floor runs held' es' \<and> set held \<subseteq> set held' \<and> more_protected es es'"
  using assms
proof (induction db evaluation_floor runs "(held, es)" arbitrary: held es rule: protection_loop.induct)
  case (1 db evaluation_floor runs held es)
  obtain held1 es1 where step: "protection_step db evaluation_floor runs (held, es) = (held1, es1)" by fastforce
  have grown: "set held \<subseteq> set held1" "more_protected es es1"
    using step by (auto simp: protection_step_def Let_def more_protected_mark)
  show ?case
  proof (cases "length held1 = length held \<and> length (islands es1) = length (islands es)")
    case True
    with "1.prems" step have "held' = held1" "es' = es1" by (simp_all add: protection_loop.simps [of _ _ _ "(held, es)"])
    with protection_step_same [OF step] True grown show ?thesis by simp
  next
    case False
    with "1.prems" step have "protection_loop db evaluation_floor runs (held1, es1) = (held', es')"
      by (simp add: protection_loop.simps [of _ _ _ "(held, es)"] split: if_splits)
    with "1.hyps" [OF step [symmetric]] False
    have "closed_protection db evaluation_floor runs held' es' \<and> set held1 \<subseteq> set held' \<and> more_protected es1 es'" by simp
    with grown show ?thesis by (auto intro: more_protected_trans)
  qed
qed

section \<open>What the plan guarantees\<close>

lemma plan_expiry_parts:
  assumes "plan_expiry x db cutoff before max_candidate_runs = (plan, tables)"
  obtains candidates remaining runs held closed where
    "trim_candidates db before max_candidate_runs (expiry_runs x db cutoff) = (candidates, remaining)"
    "floor_loop x db cutoff before candidates = (ep_floors plan, runs)"
    "protection_loop db (xf_evaluation (ep_floors plan)) runs
       (root_runs db runs, root_evaluations db (seed_evaluations db (xf_evaluation (ep_floors plan)))) = (held, closed)"
    "expiry_evaluations tables = map (\<lambda>p. (pe_evaluation_id p, pe_disposition p)) (compact_evaluations db closed)"
    "set (dead_run_ids tables) = set runs - set held"
proof -
  obtain candidates remaining where trimmed:
      "trim_candidates db before max_candidate_runs (expiry_runs x db cutoff) = (candidates, remaining)" by fastforce
  obtain floors runs where floors: "floor_loop x db cutoff before candidates = (floors, runs)" by fastforce
  obtain held closed where closed: "protection_loop db (xf_evaluation floors) runs
      (root_runs db runs, root_evaluations db (seed_evaluations db (xf_evaluation floors))) = (held, closed)" by fastforce
  from assms trimmed floors closed have
    "ep_floors plan = floors"
    "expiry_evaluations tables = map (\<lambda>p. (pe_evaluation_id p, pe_disposition p)) (compact_evaluations db closed)"
    "set (dead_run_ids tables) = set runs - set held"
    by (auto simp: plan_expiry_def Let_def dead_run_ids_def image_image)
  with that trimmed floors closed show thesis by simp
qed

lemma trimmed_candidates: "trim_candidates db before m runs = (candidates, remaining) \<Longrightarrow> set candidates \<subseteq> set runs"
  by (auto simp: trim_candidates_def Let_def split: option.splits)

text \<open>A full evaluation the plan keeps: beyond the floor or an island below it.\<close>

definition kept_full :: "ExpiryPlan \<Rightarrow> expiry_tables \<Rightarrow> evaluation_row \<Rightarrow> bool" where
  "kept_full plan tables e \<longleftrightarrow>
     xf_evaluation (ep_floors plan) < er_evaluation_sequence e \<or>
     (er_evaluation_id e, DispositionIsland) \<in> set (expiry_evaluations tables)"

lemma compact_keeps_islands:
  "(i, DispositionIsland) \<in> set (map (\<lambda>p. (pe_evaluation_id p, pe_disposition p)) (compact_evaluations db es)) \<longleftrightarrow>
   i \<in> pe_evaluation_id ` set (islands es)"
  by (induction es) (auto simp: compact_evaluations_def islands_def)

lemma planned_protection:
  assumes "plan_expiry x db cutoff before max_candidate_runs = (plan, tables)"
  obtains runs held closed where
    "floors_fit x db cutoff before (ep_floors plan) runs"
    "set runs \<subseteq> set (expiry_runs x db cutoff)"
    "set (dead_run_ids tables) = set runs - set held"
    "set (filter (run_root db) runs) \<subseteq> set held"
    "closed_protection db (xf_evaluation (ep_floors plan)) runs held closed"
    "more_protected (root_evaluations db (seed_evaluations db (xf_evaluation (ep_floors plan)))) closed"
    "\<And>e. kept_full plan tables e \<longleftrightarrow> stays_full (xf_evaluation (ep_floors plan)) closed e"
    "expiry_evaluations tables = map (\<lambda>p. (pe_evaluation_id p, pe_disposition p)) (compact_evaluations db closed)"
proof -
  obtain candidates remaining runs held closed where parts:
    "trim_candidates db before max_candidate_runs (expiry_runs x db cutoff) = (candidates, remaining)"
    "floor_loop x db cutoff before candidates = (ep_floors plan, runs)"
    "protection_loop db (xf_evaluation (ep_floors plan)) runs
       (root_runs db runs, root_evaluations db (seed_evaluations db (xf_evaluation (ep_floors plan)))) = (held, closed)"
    "expiry_evaluations tables = map (\<lambda>p. (pe_evaluation_id p, pe_disposition p)) (compact_evaluations db closed)"
    "set (dead_run_ids tables) = set runs - set held"
    using plan_expiry_parts [OF assms] by blast
  from protection_loop_fixpoint [OF parts(3)] have closure:
    "closed_protection db (xf_evaluation (ep_floors plan)) runs held closed" "set (filter (run_root db) runs) \<subseteq> set held"
    "more_protected (root_evaluations db (seed_evaluations db (xf_evaluation (ep_floors plan)))) closed"
    by (auto simp: root_runs_def)
  have kept: "kept_full plan tables e \<longleftrightarrow> stays_full (xf_evaluation (ep_floors plan)) closed e" for e
    unfolding kept_full_def stays_full_def parts(4) compact_keeps_islands ..
  have "set runs \<subseteq> set (expiry_runs x db cutoff)"
    using floor_loop_fixpoint(2) [OF parts(2)] trimmed_candidates [OF parts(1)] by simp
  with that floor_loop_fits [OF parts(2)] closure parts(4,5) kept show thesis by blast
qed

lemma seeded_origin:
  "p \<in> set (root_evaluations db (seed_evaluations db f)) \<Longrightarrow>
   \<exists>e \<in> set (rt_evaluation_runs db). pe_evaluation_id p = er_evaluation_id e \<and> pe_trigger_run_id p = er_trigger_run_id e"
  by (auto simp: root_evaluations_def seed_evaluations_def mark_islands_def)

lemma seeded_root:
  assumes "e \<in> set (rt_evaluation_runs db)" "evaluation_root db e" "\<not> er_source_expired e" "er_evaluation_sequence e \<le> f"
  shows "\<exists>p \<in> set (root_evaluations db (seed_evaluations db f)).
    pe_evaluation_id p = er_evaluation_id e \<and> pe_disposition p = DispositionIsland"
  using assms by (force simp: root_evaluations_def seed_evaluations_def mark_islands_def list_ex_iff image_iff)

lemma closed_protection_named:
  assumes "closed_protection db f runs held es" "run \<in> set runs" "a \<in> set (run_reports db run)"
    "e \<in> set (rt_evaluation_runs db)" "names_report db e a" "stays_full f es e"
  shows "run \<in> set held"
proof -
  from assms(3) obtain r where "a \<in> set (rt_admitted_reports db)" "r \<in> set (rt_raw_submissions db)"
      "rp_submission_id a = rs_submission_id r" "rs_run_id r = run"
    by (auto simp: run_reports_def list_ex_iff)
  with assms show ?thesis unfolding closed_protection_def by blast
qed

lemma island_holds_trigger:
  assumes "closed_protection db f runs held es" and "more_protected (root_evaluations db (seed_evaluations db f)) es"
    and "distinct (map er_evaluation_id (rt_evaluation_runs db))"
    and "e \<in> set (rt_evaluation_runs db)" "er_trigger_run_id e = Some run" "run \<in> set runs"
    and "er_evaluation_id e \<in> pe_evaluation_id ` set (islands es)"
  shows "run \<in> set held"
proof -
  from assms(7) obtain q where
    q: "q \<in> set es" "pe_evaluation_id q = er_evaluation_id e" "pe_disposition q = DispositionIsland"
    by (auto simp: islands_def)
  from more_protected_origin [OF assms(2) q(1)] seeded_origin [of _ db] obtain e' where
    "e' \<in> set (rt_evaluation_runs db)" "er_evaluation_id e' = er_evaluation_id e" "pe_trigger_run_id q = er_trigger_run_id e'"
    by (metis protects_def q(2))
  with assms(3-5) have "pe_trigger_run_id q = Some run" by (metis inj_on_def distinct_map)
  with q assms(1,6) show ?thesis by (auto simp: closed_protection_def)
qed

section \<open>Rows the mutations spare\<close>

fun selects :: "Mutation \<Rightarrow> row_predicate" where
  "selects (Delete predicate) = predicate"
| "selects (Update _ predicate) = predicate"
| "selects (Repack _ predicate) = predicate"

definition spares :: "string \<Rightarrow> history_row \<Rightarrow> string \<times> Mutation \<Rightarrow> bool" where
  "spares table row step \<longleftrightarrow> fst step = table \<longrightarrow> (\<forall>db. \<not> selects (snd step) db (snd row))"

lemma update_spares:
  "row \<in> set (db t) \<Longrightarrow> (table = t \<Longrightarrow> \<not> predicate db (snd row)) \<Longrightarrow>
   row \<in> set (snd (sql_update x db table assignments predicate) t)"
  by (cases "table = t") (force simp: sql_update_def)+

lemma apply_mutation_spares:
  assumes tracks: "expiry_tracks x f db0 db delta" and stable: "mutation_stable x (table, mutation)"
    and row: "row \<in> set (db t)" "spares t row (table, mutation)"
    and run: "apply_mutation x db table mutation (Some delta) = Ok (n, db', delta')"
  shows "row \<in> set (db' t)"
proof -
  have unselected: "table = t \<Longrightarrow> \<not> selects mutation db (snd row)" using row(2) by (simp add: spares_def)
  show ?thesis
  proof (cases mutation)
    case (Delete predicate)
    with run have "db' = snd (sql_delete db table predicate)" by (simp add: apply_mutation_def case_prod_beta)
    with Delete unselected row(1) show ?thesis by (auto simp: sql_delete_def)
  next
    case (Update assignments predicate)
    with run have "db' = snd (sql_update x db table assignments predicate)"
      by (simp add: apply_mutation_def case_prod_beta Let_def)
    with Update unselected row(1) show ?thesis by (simp add: update_spares)
  next
    case (Repack assignments predicate)
    have "table_tracked x (max_rowid f table) (db0 table) (db table) delta table"
      using tracks stable Repack by (simp add: expiry_tracks_def)
    then have "repack x db table assignments predicate = Ok (sql_update x db table (case_option [] id assignments) predicate)"
      by (intro repack_is_update) (simp_all add: table_tracked_def ordered_table_def row_width_def)
    with Repack run have "db' = snd (sql_update x db table (case_option [] id assignments) predicate)"
      by (simp add: apply_mutation_def case_prod_beta Let_def)
    with Repack unselected row(1) show ?thesis by (simp add: update_spares)
  qed
qed

lemma apply_mutations_spare:
  assumes x: "digests_32 x" and f: "f = frontier_certificate x db0 f"
    and "expiry_tracks x f db0 db delta" and "list_all (mutation_stable x) mutations"
    and "row \<in> set (db t)" and "list_all (spares t row) mutations"
    and "apply_mutations x db mutations (Some delta) = Ok (n, db', delta')"
  shows "row \<in> set (db' t)"
  using assms(3-7)
proof (induction mutations arbitrary: db delta n)
  case (Cons step mutations)
  obtain table mutation where step: "step = (table, mutation)" by (cases step)
  with Cons.prems obtain m db1 delta1 where one: "apply_mutation x db table mutation (Some delta) = Ok (m, db1, Some delta1)"
      "expiry_tracks x f db0 db1 delta1"
    using apply_mutation_tracks [OF x f, of db delta table mutation] by auto
  have kept: "row \<in> set (db1 t)"
    using apply_mutation_spares [OF Cons.prems(1) _ Cons.prems(3) _ one(1)] Cons.prems(2,4) step by simp
  from Cons.prems(5) step one(1) obtain k where "apply_mutations x db1 mutations (Some delta1) = Ok (k, db', delta')"
    by (cases "apply_mutations x db1 mutations (Some delta1)") auto
  with Cons.IH [OF one(2) _ kept] Cons.prems(2,4) show ?case by simp
qed simp

lemma spared_row_survives:
  assumes x: "digests_32 x" and ordered: "history_ordered db"
    and width: "list_all (\<lambda>table. row_width x table (db table)) HISTORY_TABLES"
    and certified: "certify x db None f None = Ok f"
    and run: "apply_mutations x db (expiry_mutations x e retired) (Some (expiry_delta_new f)) = Ok (n, db', delta)"
    and row: "row \<in> set (db t)" "list_all (spares t row) (expiry_mutations x e retired)"
  shows "row \<in> set (db' t)"
proof -
  have "f = frontier_certificate x db f" using certified certified_frontier [OF ordered] by blast
  from apply_mutations_spare [OF x this start_tracks [OF ordered width] expiry_mutations_stable row run] show ?thesis .
qed

lemma root_never_disposed:
  assumes "plan_expiry x db cutoff before max_candidate_runs = (plan, tables)"
    and "e \<in> set (rt_evaluation_runs db)" "evaluation_root db e"
  shows "er_evaluation_id e \<notin> set (disposed tables (\<lambda>d. d \<noteq> DispositionIsland))"
proof
  assume "er_evaluation_id e \<in> set (disposed tables (\<lambda>d. d \<noteq> DispositionIsland))"
  then obtain d where d: "d \<noteq> DispositionIsland" "(er_evaluation_id e, d) \<in> set (expiry_evaluations tables)" by (auto simp: disposed_def)
  obtain runs held es where p:
    "more_protected (root_evaluations db (seed_evaluations db (xf_evaluation (ep_floors plan)))) es"
    "expiry_evaluations tables = map (\<lambda>p. (pe_evaluation_id p, pe_disposition p)) (compact_evaluations db es)"
    by (rule planned_protection [OF assms(1)]) blast
  from d p(2) obtain q where q: "q \<in> set es" "pe_evaluation_id q = er_evaluation_id e" "pe_disposition q \<noteq> DispositionIsland"
    by (auto simp: compact_evaluations_def split: if_splits)
  with more_protected_origin [OF p(1) q(1)] obtain p' where
    "p' \<in> set (root_evaluations db (seed_evaluations db (xf_evaluation (ep_floors plan))))"
    "pe_evaluation_id p' = er_evaluation_id e" "pe_disposition p' \<noteq> DispositionIsland"
    by (auto simp: protects_def)
  with assms(2,3) show False by (auto simp: root_evaluations_def mark_islands_def list_ex_iff split: if_splits)
qed

lemma root_never_dead:
  assumes "plan_expiry x db cutoff before max_candidate_runs = (plan, tables)" and "run_root db run"
  shows "run \<notin> set (dead_run_ids tables)"
proof -
  obtain runs held where "set (dead_run_ids tables) = set runs - set held" "set (filter (run_root db) runs) \<subseteq> set held"
    by (rule planned_protection [OF assms(1)]) blast
  with assms(2) show ?thesis by auto
qed

lemmas mutation_list = expiry_mutations_def expiry_schedule_def anchor_repack_def intake_repack_def retire_intake_def Let_def

lemma expiry_spares_evaluation:
  assumes table: "table \<in> {''evaluation_runs'', ''evaluation_watermarks''}"
    and i: "column (table_info x table) (snd row) ''evaluation_id'' = Some (Text i)"
    and island: "i \<notin> set (disposed tables (\<lambda>d. d \<noteq> DispositionIsland))"
  shows "list_all (spares table row) (expiry_mutations x tables retired)"
proof -
  have "i \<notin> set (disposed tables (\<lambda>d. d = DispositionDelete))" "i \<notin> set (disposed tables (\<lambda>d. d = DispositionCompact))"
    using island by (auto simp: disposed_def)
  moreover have "\<not> where_in x table ''evaluation_id'' (\<lambda>_. keys) db (snd row) \<longleftrightarrow> i \<notin> set keys" for keys db
    by (simp add: where_in_def sql_in_def i)
  ultimately show ?thesis
    using table island by (elim insertE emptyE) (simp_all add: mutation_list spares_def list.pred_map comp_def list_all_iff)
qed

lemma expiry_spares_run:
  assumes table: "table \<in> {''watcher_runs'', ''status_events'', ''provider_intake_acknowledgments'', ''local_watcher_provider_intakes''}"
    and run: "column (table_info x table) (snd row) ''run_id'' = Some (Text run)" and alive: "run \<notin> set (dead_run_ids tables)"
  shows "list_all (spares table row) (expiry_mutations x tables retired)"
proof -
  have "run \<notin> set (map fst (filter (\<lambda>(_, anchor). \<not> anchor) (expiry_dead_runs tables)))"
      "run \<notin> set (map fst (filter snd (expiry_dead_runs tables)))"
    using alive by (auto simp: dead_run_ids_def)
  moreover have "\<not> where_in x table ''run_id'' (\<lambda>_. keys) db (snd row) \<longleftrightarrow> run \<notin> set keys" for keys db
    by (simp add: where_in_def sql_in_def run)
  ultimately show ?thesis
    using table alive by (elim insertE emptyE) (simp_all add: mutation_list spares_def list.pred_map comp_def list_all_iff)
qed

subsection \<open>Sample plan\<close>

definition sample_dates :: retention_externals where
  "sample_dates = \<lparr>julianday = map_of [(''2026-01-01'', 1), (''2026-02-01'', 2), (''2026-03-01'', 3)]\<rparr>"

definition sample_retention_db :: retention_db where
  "sample_retention_db =
     \<lparr>rt_watcher_runs = [\<lparr>wr_run_id = ''r1'', wr_finished_at = ''2026-01-01'', wr_checkpoint_contract_digest = ''c''\<rparr>,
        \<lparr>wr_run_id = ''r2'', wr_finished_at = ''2026-03-01'', wr_checkpoint_contract_digest = ''c''\<rparr>],
      rt_raw_submissions = [
        \<lparr>rs_submission_id = ''s1'', rs_run_id = ''r1'', rs_received_at = ''2026-01-01'', rs_source_expired = False\<rparr>,
        \<lparr>rs_submission_id = ''s2'', rs_run_id = ''r2'', rs_received_at = ''2026-03-01'', rs_source_expired = False\<rparr>],
      rt_admitted_reports = [
        \<lparr>rp_report_id = ''p1'', rp_submission_id = ''s1'', rp_instance_id = ''i'', rp_report_sequence = 1,
          rp_received_at = ''2026-01-01'', rp_admitted_at = ''2026-01-01'', rp_source_expired = False, rp_has_next_checkpoint = False\<rparr>,
        \<lparr>rp_report_id = ''p2'', rp_submission_id = ''s2'', rp_instance_id = ''i'', rp_report_sequence = 2,
          rp_received_at = ''2026-03-01'', rp_admitted_at = ''2026-03-01'', rp_source_expired = False, rp_has_next_checkpoint = False\<rparr>],
      rt_intake_links = [], rt_intake_attempts = [], rt_acknowledgments = [],
      rt_evaluation_runs = [
        \<lparr>er_evaluation_id = ''e1'', er_evaluation_sequence = 1, er_detector_id = ''d'', er_detector_version = ''1'',
          er_evaluation_revision = 1, er_trigger_run_id = Some ''r1'', er_evaluated_at = ''2026-01-01'', er_source_expired = False,
          er_lineage = ''l'', er_min_cited_report_sequence = Some 1, er_texts = [''p1'']\<rparr>,
        \<lparr>er_evaluation_id = ''e2'', er_evaluation_sequence = 2, er_detector_id = ''d'', er_detector_version = ''1'',
          er_evaluation_revision = 2, er_trigger_run_id = Some ''r2'', er_evaluated_at = ''2026-03-01'', er_source_expired = False,
          er_lineage = ''l'', er_min_cited_report_sequence = Some 2, er_texts = [''p2'']\<rparr>],
      rt_evaluation_watermarks = [\<lparr>wm_evaluation_id = ''e1'', wm_instance_id = ''i'', wm_max_report_sequence = 1\<rparr>,
        \<lparr>wm_evaluation_id = ''e2'', wm_instance_id = ''i'', wm_max_report_sequence = 2\<rparr>],
      rt_finding_events = [], rt_finding_current = [], rt_finding_evidence = [], rt_notification_outbox = [],
      rt_delivery_intents = [], rt_delivery_events = [], rt_notification_attempts = [], rt_saved_check_events = [],
      rt_diagnostic_origins = [], rt_successor_intents = [],
      rt_status_events = [\<lparr>st_status_event_id = ''t1'', st_status_sequence = 1, st_run_id = Some ''r1''\<rparr>,
        \<lparr>st_status_event_id = ''t2'', st_status_sequence = 2, st_run_id = Some ''r2''\<rparr>],
      rt_status_current = [''t2'']\<rparr>"

definition sample_boundary :: RetentionBoundary where
  "sample_boundary = \<lparr>rb_generation = 0, rb_evaluation_floor = 0, rb_report_floor = 0, rb_intake_floor = 0, rb_status_floor = 0\<rparr>"

definition sample_plan :: ExpiryPlan where
  "sample_plan = \<lparr>ep_floors = \<lparr>xf_evaluation = 1, xf_report = 1, xf_intake = 0, xf_status = 1\<rparr>, ep_affected_runs = 1,
     ep_affected_evaluations = 1, ep_candidates_remaining = False\<rparr>"

definition sample_planned :: expiry_tables where
  "sample_planned = \<lparr>expiry_evaluations = [(''e1'', DispositionDelete)], expiry_compact_reports = [],
     expiry_dead_runs = [(''r1'', False)]\<rparr>"

lemma sample_plan_computed:
  "plan_expiry sample_dates sample_retention_db ''2026-02-01'' sample_boundary (Some 5) = (sample_plan, sample_planned)"
  by code_simp

lemma sample_plan_roots:
  "list_all (\<lambda>e. er_evaluation_id e = ''e2'' \<longleftrightarrow> evaluation_root sample_retention_db e) (rt_evaluation_runs sample_retention_db)"
  "run_root sample_retention_db ''r2''" "distinct (map er_evaluation_id (rt_evaluation_runs sample_retention_db))"
  by code_simp+

section \<open>Properties\<close>

text \<open>
  C14. The plan of an expiry keeps what its roots need. Every full evaluation a root protects (a live
  finding event, a pending claim, a diagnostic origin, the newest of its lineage) stays full; a run
  that retires is no root, triggered no evaluation that stays full, and none of its reports is named
  by an evaluation that stays full.
\<close>

theorem planned_expiry_spares_dependencies:
  assumes plan: "plan_expiry x db cutoff before max_candidate_runs = (plan, tables)"
    and keys: "distinct (map er_evaluation_id (rt_evaluation_runs db))"
  shows "(\<forall>e \<in> set (rt_evaluation_runs db). evaluation_root db e \<and> \<not> er_source_expired e \<longrightarrow> kept_full plan tables e) \<and>
    (\<forall>run \<in> set (dead_run_ids tables). \<not> run_root db run \<and>
      (\<forall>e \<in> set (rt_evaluation_runs db). er_trigger_run_id e = Some run \<longrightarrow> \<not> kept_full plan tables e) \<and>
      (\<forall>a \<in> set (run_reports db run). \<forall>e \<in> set (rt_evaluation_runs db). names_report db e a \<longrightarrow> \<not> kept_full plan tables e))"
proof -
  obtain runs held closed where p:
    "floors_fit x db cutoff before (ep_floors plan) runs"
    "set (dead_run_ids tables) = set runs - set held"
    "set (filter (run_root db) runs) \<subseteq> set held"
    "closed_protection db (xf_evaluation (ep_floors plan)) runs held closed"
    "more_protected (root_evaluations db (seed_evaluations db (xf_evaluation (ep_floors plan)))) closed"
    "\<And>e. kept_full plan tables e \<longleftrightarrow> stays_full (xf_evaluation (ep_floors plan)) closed e"
    by (rule planned_protection [OF plan]) blast
  have roots: "kept_full plan tables e"
    if "e \<in> set (rt_evaluation_runs db)" "evaluation_root db e" "\<not> er_source_expired e" for e
  proof (cases "er_evaluation_sequence e \<le> xf_evaluation (ep_floors plan)")
    case True
    from seeded_root [OF that True] more_protected_image [OF p(5)]
    show ?thesis by (fastforce simp: p(6) stays_full_def islands_def protects_def image_iff)
  qed (simp add: kept_full_def)
  have triggers: "\<not> kept_full plan tables e"
    if dead: "run \<in> set (dead_run_ids tables)" and e: "e \<in> set (rt_evaluation_runs db)" "er_trigger_run_id e = Some run" for run e
  proof
    assume "kept_full plan tables e"
    moreover have "\<not> reaches_beyond db (ep_floors plan) run" using p(1,2) dead by (auto simp: floors_fit_def)
    then have "er_evaluation_sequence e \<le> xf_evaluation (ep_floors plan)"
      using e by (fastforce simp: reaches_beyond_def list_ex_iff)
    ultimately have "run \<in> set held"
      using island_holds_trigger [OF p(4,5) keys] e p(2) dead by (auto simp: p(6) stays_full_def)
    with dead p(2) show False by simp
  qed
  have named: "\<not> kept_full plan tables e"
    if "run \<in> set (dead_run_ids tables)" "a \<in> set (run_reports db run)" "e \<in> set (rt_evaluation_runs db)" "names_report db e a" for run a e
    using that p(2) closed_protection_named [OF p(4)] by (auto simp: p(6))
  have "\<not> run_root db run" if "run \<in> set (dead_run_ids tables)" for run using p(2,3) that by auto
  with roots triggers named show ?thesis by blast
qed

theorem planned_expiry_spares_dependencies_witness:
  "list_all (\<lambda>e. kept_full sample_plan sample_planned e \<longleftrightarrow> er_evaluation_id e = ''e2'') (rt_evaluation_runs sample_retention_db) \<and>
   dead_run_ids sample_planned = [''r1''] \<and> \<not> run_root sample_retention_db ''r1''"
proof -
  have "list_all (\<lambda>e. kept_full sample_plan sample_planned e \<longleftrightarrow> er_evaluation_id e = ''e2'') (rt_evaluation_runs sample_retention_db)"
      "dead_run_ids sample_planned = [''r1'']"
    by code_simp+
  with planned_expiry_spares_dependencies [OF sample_plan_computed sample_plan_roots(3)] show ?thesis by simp
qed

text \<open>
  The floors a plan moves to never retreat and pass only rows of aged runs: there is a set of aged
  runs, holding every run that retires, such that each evaluation, report, intake and status event
  between an old floor and the new one is aged and belongs to one of them, and no run of the set has
  a row above its floor.
\<close>

lemma planned_floors_advance_over_candidates:
  assumes "plan_expiry x db cutoff before max_candidate_runs = (plan, tables)"
  shows "\<exists>runs. floors_fit x db cutoff before (ep_floors plan) runs \<and> set (dead_run_ids tables) \<subseteq> set runs \<and>
    set runs \<subseteq> wr_run_id ` {w \<in> set (rt_watcher_runs db). aged_run x db cutoff w}"
proof -
  obtain runs held where runs:
    "floors_fit x db cutoff before (ep_floors plan) runs" "set runs \<subseteq> set (expiry_runs x db cutoff)"
    "set (dead_run_ids tables) = set runs - set held"
    using planned_protection [OF assms] by metis
  then show ?thesis by (intro exI [of _ runs]) (auto simp: expiry_runs_def)
qed



end
