(* ===== verification/Notification_Intent.thy ===== *)
theory Notification_Intent
  imports Refusal_Carriers
begin

text \<open>
  Notification intents and the text that leaves or enters the store with them
  (\<open>crates/nq-app/src/notification.rs\<close>): the closed intent documents, the stable condition of a
  PagerDuty alert and its deduplication key, submission against the closed registry and the more
  lenient reading of retained history, and the classification and redaction of what a destination
  answers.

  The derived deserializers, the JSON reader and writer and the HTTP client are third-party code and
  fields of \<open>notification_externals\<close> or arguments.
\<close>

section \<open>Text\<close>

definition is_ascii_uppercase :: "char \<Rightarrow> bool" where
  "is_ascii_uppercase c \<longleftrightarrow> 65 \<le> (of_char c :: nat) \<and> (of_char c :: nat) \<le> 90"

definition is_ascii_lowercase :: "char \<Rightarrow> bool" where
  "is_ascii_lowercase c \<longleftrightarrow> 97 \<le> (of_char c :: nat) \<and> (of_char c :: nat) \<le> 122"

definition is_ascii_hexdigit :: "char \<Rightarrow> bool" where
  "is_ascii_hexdigit c \<longleftrightarrow> is_lower_hex_digit c \<or> 65 \<le> (of_char c :: nat) \<and> (of_char c :: nat) \<le> 70"

definition to_ascii_lowercase :: "string \<Rightarrow> string" where
  "to_ascii_lowercase s = map (\<lambda>c. if is_ascii_uppercase c then char_of ((of_char c :: nat) + 32) else c) s"

text \<open>\<open>slice::windows\<close>\<close>

definition windows :: "nat \<Rightarrow> 'a list \<Rightarrow> 'a list list" where
  "windows n xs = map (\<lambda>i. take n (drop i xs)) [0..<Suc (length xs) - n]"

text \<open>\<open>char::is_whitespace\<close> on UTF-8: the characters of the Unicode property \<open>White_Space\<close>.\<close>

fun has_whitespace :: "string \<Rightarrow> bool" where
  "has_whitespace [] \<longleftrightarrow> False"
| "has_whitespace (c # cs) \<longleftrightarrow>
     (let n = (of_char c :: nat); next2 = map (of_char :: char \<Rightarrow> nat) (take 2 cs) in
      9 \<le> n \<and> n \<le> 13 \<or> n = 32 \<or>
      n = 194 \<and> take 1 next2 \<in> {[133], [160]} \<or>
      n = 225 \<and> next2 = [154, 128] \<or>
      n = 226 \<and> (case next2 of [a, b] \<Rightarrow> a = 128 \<and> (128 \<le> b \<and> b \<le> 138 \<or> b \<in> {168, 169, 175}) \<or> a = 129 \<and> b = 159
                   | _ \<Rightarrow> False) \<or>
      n = 227 \<and> next2 = [128, 128]) \<or>
     has_whitespace cs"

section \<open>Intents\<close>

definition MAX_INTENT_BYTES :: usize where
  "MAX_INTENT_BYTES = 32768"

definition INTENT_V1 :: string where
  "INTENT_V1 = ''nq.notification_delivery_intent.v1''"

definition INTENT_V2 :: string where
  "INTENT_V2 = ''nq.notification_delivery_intent.v2''"

definition PAGERDUTY_DETAILS_MAX_BYTES :: usize where
  "PAGERDUTY_DETAILS_MAX_BYTES = 4096"

definition PAGERDUTY_COMPONENTS :: "string list" where
  "PAGERDUTY_COMPONENTS = [''nq'', ''host_posture'', ''nightshift'', ''docket'', ''ag'', ''service'']"

definition PAGERDUTY_RULES :: "string list" where
  "PAGERDUTY_RULES =
     [''nq-no-fresh-acquisition'', ''host-posture-unknown'', ''nightshift-recurrence-missing'', ''docket-unsettled'',
      ''ag-executor-unavailable'', ''service-down'', ''host-disk'', ''nq-latency-near-bound'', ''nq-open-cost-growing'',
      ''nq-pending-acquisition'', ''host-posture-refusals'', ''host-posture-retention'', ''nightshift-evidence-stale'',
      ''nightshift-cycle-slow'', ''docket-reconciliation-lag'', ''ag-repeated-refusals'', ''build-identity'']"

definition V2_FIELDS :: "string list" where
  "V2_FIELDS = [''action'', ''condition'', ''severity'', ''runbook_url'', ''details'']"

definition RESPONSE_CLASSES :: "string list" where
  "RESPONSE_CLASSES = [''informational'', ''attention'', ''page'']"

record Intent =
  it_schema :: string
  it_attention_kind :: string
  it_stable_event_id :: string
  it_attention_receipt_digest :: "string option"
  it_attention_policy_id :: string
  it_attention_policy_digest :: string
  it_transition_id :: string
  it_route_reference :: string
  it_destination_identity :: string
  it_summary :: string
  it_inspection_reference :: string
  it_owner_receipt :: "json option"
  it_response_class :: "string option"

definition response_class :: "Intent \<Rightarrow> string" where
  "response_class i = case_option ''attention'' id (it_response_class i)"

definition is_page :: "Intent \<Rightarrow> bool" where
  "is_page i \<longleftrightarrow> it_response_class i = Some ''page''"

record Condition =
  cn_site :: string
  cn_component :: string
  cn_rule :: string
  cn_target_class :: "string option"

record PagerDutyFields =
  pg_action :: string
  pg_condition :: Condition
  pg_severity :: string
  pg_runbook_url :: "string option"
  pg_details :: "json option"

datatype NotificationError =
    Bail "string list"
  | StoreFailed StoreError
  | JsonFailed string

record notification_externals = externals +
  json_from_slice :: "bytes \<Rightarrow> (json, string) result"
  json_to_vec :: "json \<Rightarrow> (bytes, string) result"
  intent_from_value :: "json \<Rightarrow> (Intent, string) result"
  pager_from_value :: "json \<Rightarrow> (PagerDutyFields, string) result"

definition dedup_key :: "Condition \<Rightarrow> string" where
  "dedup_key c =
     ''constellation:'' @ cn_site c @ '':'' @ cn_component c @ '':'' @ cn_rule c @
       (case cn_target_class c of None \<Rightarrow> [] | Some t \<Rightarrow> '':'' @ t)"

subsection \<open>Condition tokens\<close>

definition uuid_window :: "string \<Rightarrow> bool" where
  "uuid_window w = list_all (\<lambda>(i, b). if i \<in> {8, 13, 18, 23} then b = CHR ''-'' else is_ascii_hexdigit b) (enumerate 0 w)"

definition date_window :: "string \<Rightarrow> bool" where
  "date_window w = list_all (\<lambda>(i, b). if i \<in> {4, 7} then b = CHR ''-'' else is_ascii_digit b) (enumerate 0 w)"

fun identifier_run :: "nat \<Rightarrow> nat \<Rightarrow> string \<Rightarrow> string option" where
  "identifier_run hex_run digit_run [] = None"
| "identifier_run hex_run digit_run (b # bs) =
     (let hex_run = (if is_ascii_hexdigit b then Suc hex_run else 0);
          digit_run = (if is_ascii_digit b then Suc digit_run else 0)
      in if 32 \<le> hex_run then Some ''a hexadecimal identifier''
         else if 8 \<le> digit_run then Some ''a numeric timestamp or identifier''
         else identifier_run hex_run digit_run bs)"

definition per_event_identity :: "string \<Rightarrow> string option" where
  "per_event_identity value =
     (let lower = to_ascii_lowercase value in
      if str_contains lower ''sha256'' then Some ''a digest''
      else if list_ex uuid_window (windows 36 lower) then Some ''a UUID''
      else if list_ex date_window (windows 10 lower) then Some ''a date''
      else (case identifier_run 0 0 lower of
              Some kind \<Rightarrow> Some kind
            | None \<Rightarrow> if list_all is_ascii_digit lower then Some ''a numeric identifier'' else None))"

datatype Validation = Submission | Retained

definition token_byte :: "char \<Rightarrow> bool" where
  "token_byte b \<longleftrightarrow> is_ascii_lowercase b \<or> is_ascii_digit b \<or> b \<in> {CHR ''.'', CHR ''_'', CHR ''-''}"

definition condition_token :: "string \<Rightarrow> string \<Rightarrow> nat \<Rightarrow> Validation \<Rightarrow> (unit, NotificationError) result" where
  "condition_token label value maximum validation =
     and_then
       (case per_event_identity value of
          Some kind \<Rightarrow> refuse_if (validation = Submission)
            (Bail [''notification condition is refused: it names an event, not a stable class'', label, kind])
        | None \<Rightarrow> Ok ()) (\<lambda>_.
       refuse_if (value = [] \<or> maximum < length value \<or> \<not> is_ascii_alphanumeric (hd value) \<or> \<not> list_all token_byte value)
         (Bail [''notification condition must be characters of [a-z0-9._-]'', label, show_nat maximum]))"

definition secret_like_key :: "string \<Rightarrow> bool" where
  "secret_like_key key =
     (let key = to_ascii_lowercase key in
      list_ex (str_contains key)
        [''routing_key'', ''token'', ''secret'', ''password'', ''api_key'', ''authorization'', ''credential''])"

fun reject_secret_like_keys :: "json \<Rightarrow> (unit, NotificationError) result" where
  "reject_secret_like_keys (JObject es) =
     run_checks (map (\<lambda>e. and_then
       (refuse_if (secret_like_key (fst e)) (Bail [''notification details must not carry credential-like field'', fst e]))
       (\<lambda>_. reject_secret_like_keys (snd e))) es)"
| "reject_secret_like_keys (JArray vs) = run_checks (map reject_secret_like_keys vs)"
| "reject_secret_like_keys JNull = Ok ()"
| "reject_secret_like_keys (JBool _) = Ok ()"
| "reject_secret_like_keys (JNumber _) = Ok ()"
| "reject_secret_like_keys (JString _) = Ok ()"

definition validate_details ::
  "'x notification_externals_scheme \<Rightarrow> json \<Rightarrow> Validation \<Rightarrow> (unit, NotificationError) result" where
  "validate_details x details validation =
     (case details of
        JObject members \<Rightarrow>
          and_then (refuse_if (map_of members ''constellation'' \<noteq> None)
            (Bail [''notification details must not use the reserved constellation key''])) (\<lambda>_.
          and_then (map_err StoreFailed (from_serializable x (Ok details))) (\<lambda>document.
          and_then (refuse_if (PAGERDUTY_DETAILS_MAX_BYTES < length (cd_bytes document))
            (Bail [''notification details exceed bytes'', show_nat PAGERDUTY_DETAILS_MAX_BYTES])) (\<lambda>_.
          if validation = Submission then reject_secret_like_keys details else Ok ())))
      | _ \<Rightarrow> Err (Bail [''notification details must be a JSON object'']))"

definition validate_pagerduty_fields ::
  "'x notification_externals_scheme \<Rightarrow> PagerDutyFields \<Rightarrow> Validation \<Rightarrow> (unit, NotificationError) result" where
  "validate_pagerduty_fields x fds validation =
     (let c = pg_condition fds in run_checks
      [refuse_if (pg_action fds \<notin> {''trigger'', ''resolve''}) (Bail [''notification action must be trigger or resolve'']),
       refuse_if (pg_severity fds \<notin> {''critical'', ''error'', ''warning'', ''info''})
         (Bail [''notification severity must be critical, error, warning or info'']),
       condition_token ''site'' (cn_site c) 64 validation,
       condition_token ''component'' (cn_component c) 64 validation,
       condition_token ''rule'' (cn_rule c) 64 validation,
       refuse_if (validation = Submission \<and> cn_component c \<notin> set PAGERDUTY_COMPONENTS)
         (Bail [''notification condition component is not in the closed component set'']),
       refuse_if (validation = Submission \<and> cn_rule c \<notin> set PAGERDUTY_RULES)
         (Bail [''notification condition rule is not a beta alert registry anchor'']),
       (case cn_target_class c of None \<Rightarrow> Ok () | Some t \<Rightarrow> condition_token ''target_class'' t 48 validation),
       (case pg_runbook_url fds of
          None \<Rightarrow> Ok ()
        | Some url \<Rightarrow> refuse_if (\<not> starts_with url ''https://'' \<or> 1024 < length url \<or> has_control url \<or> has_whitespace url)
            (Bail [''notification runbook_url must be an https URL of at most 1024 bytes''])),
       (case pg_details fds of None \<Rightarrow> Ok () | Some details \<Rightarrow> validate_details x details validation)])"

subsection \<open>Parsing\<close>

definition bounded :: "string \<Rightarrow> string \<Rightarrow> nat \<Rightarrow> (unit, NotificationError) result" where
  "bounded label value maximum =
     refuse_if (value = [] \<or> maximum < length value \<or> has_control value)
       (Bail [''notification field must be non-control bytes'', label, show_nat maximum])"

definition attention_bound :: "Intent \<Rightarrow> bool" where
  "attention_bound i \<longleftrightarrow>
     it_attention_kind i = ''operator_assertion'' \<and> it_attention_receipt_digest i = None \<and> it_owner_receipt i = None \<or>
     it_attention_kind i = ''nightshift_receipt'' \<and> it_attention_receipt_digest i \<noteq> None \<and> it_owner_receipt i \<noteq> None"

definition parse_intent_fields ::
  "'x notification_externals_scheme \<Rightarrow> json \<Rightarrow> nat \<Rightarrow> (Intent, NotificationError) result" where
  "parse_intent_fields x value summary_maximum =
     and_then (map_err JsonFailed (intent_from_value x value)) (\<lambda>i.
     map_ok (\<lambda>_. i) (run_checks
       [bounded ''stable_event_id'' (it_stable_event_id i) 256,
        bounded ''attention_policy_id'' (it_attention_policy_id i) 256,
        bounded ''transition_id'' (it_transition_id i) 256,
        bounded ''route_reference'' (it_route_reference i) 256,
        bounded ''destination_identity'' (it_destination_identity i) 256,
        bounded ''summary'' (it_summary i) summary_maximum,
        bounded ''inspection_reference'' (it_inspection_reference i) 1024,
        (case it_response_class i of
           None \<Rightarrow> Ok ()
         | Some cls \<Rightarrow> refuse_if (cls \<notin> set RESPONSE_CLASSES)
             (Bail [''notification response_class must be informational, attention or page''])),
        refuse_if (\<not> attention_bound i) (Bail [''unsupported or ambiguous notification attention kind''])]))"

definition parse_intent_value ::
  "'x notification_externals_scheme \<Rightarrow> json \<Rightarrow> Validation \<Rightarrow> (Intent \<times> PagerDutyFields option, NotificationError) result" where
  "parse_intent_value x value validation =
     (let schema = json_get value ''schema'' in
      if schema = Some (JString INTENT_V1) then map_ok (\<lambda>i. (i, None)) (parse_intent_fields x value 512)
      else if schema = Some (JString INTENT_V2) then
        and_then (ok_or (Bail [''notification intent is not an object'']) (as_object value)) (\<lambda>members.
        let common = filter (\<lambda>(k, _). k \<notin> set V2_FIELDS) members;
            added = foldl (\<lambda>m k. case map_of members k of None \<Rightarrow> m | Some v \<Rightarrow> bt_insert k v m) [] V2_FIELDS
        in and_then (map_err JsonFailed (pager_from_value x (JObject added))) (\<lambda>pager.
           and_then (validate_pagerduty_fields x pager validation) (\<lambda>_.
           map_ok (\<lambda>i. (i, Some pager)) (parse_intent_fields x (JObject common) 1024))))
      else Err (Bail [''unsupported notification intent schema'']))"

definition parse_submitted ::
  "'x notification_externals_scheme \<Rightarrow> json \<Rightarrow> (Intent \<times> PagerDutyFields option, NotificationError) result" where
  "parse_submitted x value = parse_intent_value x value Submission"

definition parse_retained ::
  "'x notification_externals_scheme \<Rightarrow> json \<Rightarrow> (Intent \<times> PagerDutyFields option, NotificationError) result" where
  "parse_retained x value = parse_intent_value x value Retained"

definition parse_retained_intent :: "'x notification_externals_scheme \<Rightarrow> json \<Rightarrow> (Intent, NotificationError) result" where
  "parse_retained_intent x value = map_ok fst (parse_intent_value x value Retained)"

text \<open>
  A submitted intent is a file already opened: whether it is regular, the length its metadata gives
  and the bytes read from it. Reading stops one byte beyond the limit.
\<close>

record intent_file =
  if_regular :: bool
  if_metadata_len :: nat
  if_bytes :: bytes

definition read_intent ::
  "'x notification_externals_scheme \<Rightarrow> intent_file \<Rightarrow>
    (Intent \<times> PagerDutyFields option \<times> CanonicalDocument, NotificationError) result" where
  "read_intent x opened =
     (let bs = take (Suc MAX_INTENT_BYTES) (if_bytes opened); too_large = Bail [''notification intent exceeds bytes'', show_nat MAX_INTENT_BYTES] in
      and_then (refuse_if (\<not> if_regular opened) (Bail [''notification intent must be a regular file''])) (\<lambda>_.
      and_then (refuse_if (MAX_INTENT_BYTES < if_metadata_len opened) too_large) (\<lambda>_.
      and_then (refuse_if (MAX_INTENT_BYTES < length bs) too_large) (\<lambda>_.
      and_then (map_err JsonFailed (json_from_slice x bs)) (\<lambda>value.
      and_then (map_err StoreFailed (from_serializable x (Ok value))) (\<lambda>document.
      and_then (refuse_if (cd_bytes document \<noteq> bs) (Bail [''notification intent must be canonical JSON''])) (\<lambda>_.
      map_ok (\<lambda>(i, pager). (i, pager, document)) (parse_submitted x value))))))))"

abbreviation json_str :: "json option \<Rightarrow> string option" where
  "json_str v \<equiv> (case v of Some (JString t) \<Rightarrow> Some t | _ \<Rightarrow> None)"

lemma json_str_Some: "json_str v = Some t \<longleftrightarrow> v = Some (JString t)"
  by (auto split: option.splits json.splits)

definition is_u64 :: "json option \<Rightarrow> bool" where
  "is_u64 v = (case v of Some (JNumber n) \<Rightarrow> number_is_u64 n | _ \<Rightarrow> False)"

definition directory_binding_valid :: "(string \<times> json) list \<Rightarrow> bool" where
  "directory_binding_valid binding \<longleftrightarrow>
     length binding = 5 \<and>
     map_of binding ''schema'' = Some (JString ''nq.local-inbox-directory-binding/v1'') \<and>
     (case json_str (map_of binding ''path_sha256'') of None \<Rightarrow> False | Some t \<Rightarrow> is_ok (parse_sha256_digest t)) \<and>
     is_u64 (map_of binding ''device'') \<and> is_u64 (map_of binding ''inode'') \<and> is_u64 (map_of binding ''mode'')"

definition reopen_retained_intent ::
  "'x notification_externals_scheme \<Rightarrow> CanonicalDocument \<Rightarrow> (Intent, NotificationError) result" where
  "reopen_retained_intent x document =
     and_then (map_err JsonFailed (json_from_slice x (cd_bytes document))) (\<lambda>value.
     if json_get value ''schema'' = Some (JString ''nq.local-inbox-delivery-intent/v1'') then
       and_then (ok_or (Bail [''retained local inbox intent is not an object'']) (as_object value)) (\<lambda>wrapper.
       and_then (refuse_if (length wrapper \<noteq> 3 \<or> map_of wrapper ''schema'' = None \<or> map_of wrapper ''intent'' = None \<or>
            map_of wrapper ''directory_binding'' = None)
          (Bail [''retained local inbox intent has an unsupported wrapper shape''])) (\<lambda>_.
       and_then (ok_or (Bail [''retained local inbox intent is missing submitted intent'']) (json_get value ''intent'')) (\<lambda>inner.
       and_then (ok_or (Bail [''retained local inbox intent has no directory binding''])
          (Option.bind (json_get value ''directory_binding'') as_object)) (\<lambda>binding.
       and_then (refuse_if (\<not> directory_binding_valid binding) (Bail [''retained local inbox directory binding is invalid''])) (\<lambda>_.
       parse_retained_intent x inner)))))
     else parse_retained_intent x value)"

section \<open>What a destination answers\<close>

definition valid_routing_key :: "string \<Rightarrow> bool" where
  "valid_routing_key key \<longleftrightarrow> length key = 32 \<and> list_all is_ascii_hexdigit key"

definition inject_routing_key ::
  "'x notification_externals_scheme \<Rightarrow> bytes \<Rightarrow> string \<Rightarrow> (bytes, NotificationError) result" where
  "inject_routing_key x retained routing_key =
     and_then (map_err JsonFailed (json_from_slice x retained)) (\<lambda>value.
     and_then (ok_or (Bail [''retained PagerDuty event is not an object'']) (as_object value)) (\<lambda>event.
     map_err JsonFailed (json_to_vec x (JObject (bt_insert ''routing_key'' (JString routing_key) event)))))"

text \<open>\<open>str::replace\<close> of a pattern that is not empty.\<close>

function str_replace :: "string \<Rightarrow> string \<Rightarrow> string \<Rightarrow> string" where
  "str_replace pat with [] = []"
| "str_replace pat with (c # cs) =
     (if pat \<noteq> [] \<and> starts_with (c # cs) pat then with @ str_replace pat with (drop (length pat) (c # cs))
      else c # str_replace pat with cs)"
  by pat_completeness auto

termination
  by (relation "measure (\<lambda>(pat, with, s). length s)") (auto simp: neq_Nil_conv)

definition flush_run :: "string \<Rightarrow> string" where
  "flush_run run = (if 32 \<le> length run then ''<redacted>'' else run)"

fun redact_runs :: "string \<Rightarrow> string list \<Rightarrow> string" where
  "redact_runs run [] = flush_run run"
| "redact_runs run (c # cs) =
     (if list_all is_ascii_alphanumeric c then redact_runs (run @ c) cs
      else flush_run run @ c @ redact_runs [] cs)"

definition redact_destination_text :: "string \<Rightarrow> string \<Rightarrow> string" where
  "redact_destination_text text routing_key =
     (let replaced = (if routing_key = [] then text else str_replace routing_key ''<redacted>'' text)
      in concat (take 256 (utf8_chars (redact_runs [] (filter (\<lambda>c. \<not> has_control c) (utf8_chars replaced))))))"

datatype body_chunk = Chunk bytes | BodyBroken

fun read_bounded_body :: "bytes \<Rightarrow> body_chunk list \<Rightarrow> nat \<Rightarrow> bytes option" where
  "read_bounded_body body [] maximum = Some body"
| "read_bounded_body body (Chunk chunk # rest) maximum =
     (if maximum < length body + length chunk then None else read_bounded_body (body @ chunk) rest maximum)"
| "read_bounded_body body (BodyBroken # rest) maximum = None"

datatype TransportResult =
    Accepted nat
  | Failed nat
  | Unknown
  | Reported string json

text \<open>The response of a request, or the error the client reports; the client itself is an argument.\<close>

datatype http_exchange =
    ConnectError
  | TimeoutError
  | OtherError
  | HttpResponse nat "body_chunk list"

definition pagerduty_outcome :: "nat \<Rightarrow> string option \<Rightarrow> string \<times> string option \<times> string option" where
  "pagerduty_outcome status pagerduty_status =
     (if status = 202 \<and> pagerduty_status = Some ''success'' then (''accepted'', None, None)
      else if 200 \<le> status \<and> status \<le> 299 then (''unknown'', Some ''success_not_confirmed'', Some ''resubmit_safe'')
      else if status = 429 then (''failed'', Some ''rate_limited'', Some ''retryable'')
      else if 500 \<le> status \<and> status \<le> 599 then (''failed'', Some ''server_error'', Some ''retryable'')
      else if 400 \<le> status \<and> status \<le> 499 then (''failed'', Some ''rejected'', Some ''permanent'')
      else (''failed'', Some ''unexpected_status'', Some ''permanent''))"

definition json_strs :: "json list \<Rightarrow> string list" where
  "json_strs vs = List.map_filter (\<lambda>v. case v of JString t \<Rightarrow> Some t | _ \<Rightarrow> None) vs"

definition put_text :: "string \<Rightarrow> string \<Rightarrow> json \<Rightarrow> string \<Rightarrow> (string \<times> json) list \<Rightarrow> (string \<times> json) list" where
  "put_text name key body routing_key detail =
     (case json_str (json_get body key) of
        None \<Rightarrow> detail
      | Some t \<Rightarrow> bt_insert name (JString (redact_destination_text t routing_key)) detail)"

definition put_errors :: "json \<Rightarrow> string \<Rightarrow> (string \<times> json) list \<Rightarrow> (string \<times> json) list" where
  "put_errors body routing_key detail =
     (case json_get body ''errors'' of
        Some (JArray errors) \<Rightarrow> bt_insert ''pagerduty_errors''
          (JArray (map (\<lambda>e. JString (redact_destination_text e routing_key)) (take 5 (json_strs errors)))) detail
      | _ \<Rightarrow> detail)"

definition destination_detail :: "nat \<Rightarrow> json option \<Rightarrow> string \<Rightarrow> (string \<times> json) list" where
  "destination_detail status parsed routing_key =
     (let detail = [(''http_status'', JNumber (PosInt (of_nat status)))] in
      case parsed of
        None \<Rightarrow> bt_insert ''response_body'' (JString ''unparsed_or_over_limit'') detail
      | Some body \<Rightarrow> put_errors body routing_key
          (put_text ''pagerduty_message'' ''message'' body routing_key
            (put_text ''pagerduty_status'' ''status'' body routing_key detail)))"

definition put_some :: "string \<Rightarrow> string option \<Rightarrow> (string \<times> json) list \<Rightarrow> (string \<times> json) list" where
  "put_some key v detail = (case v of None \<Rightarrow> detail | Some t \<Rightarrow> bt_insert key (JString t) detail)"

definition reason_detail :: "string \<Rightarrow> string \<Rightarrow> json" where
  "reason_detail reason retry_class = JObject [(''reason'', JString reason), (''retry_class'', JString retry_class)]"

definition pagerduty_result ::
  "'x notification_externals_scheme \<Rightarrow> string \<Rightarrow> nat \<Rightarrow> http_exchange \<Rightarrow> TransportResult" where
  "pagerduty_result x routing_key response_limit exchange =
     (case exchange of
       ConnectError \<Rightarrow> Reported ''failed'' (reason_detail ''connect_failed'' ''retryable'')
     | TimeoutError \<Rightarrow> Reported ''unknown'' (reason_detail ''timeout_after_dispatch'' ''resubmit_safe'')
     | OtherError \<Rightarrow> Reported ''unknown'' (reason_detail ''transport_error_or_response_loss'' ''resubmit_safe'')
     | HttpResponse status chunks \<Rightarrow>
         let parsed = Option.bind (read_bounded_body [] chunks response_limit)
               (\<lambda>bs. case json_from_slice x bs of Ok v \<Rightarrow> Some v | Err _ \<Rightarrow> None);
             pagerduty_status = Option.bind parsed (\<lambda>body. json_str (json_get body ''status''));
             (outcome, reason, retry_class) = pagerduty_outcome status pagerduty_status
         in Reported outcome (JObject (put_some ''retry_class'' retry_class
              (put_some ''reason'' reason (destination_detail status parsed routing_key)))))"

definition pagerduty_post ::
  "'x notification_externals_scheme \<Rightarrow> (bytes \<Rightarrow> http_exchange) \<Rightarrow> string \<Rightarrow> bytes \<Rightarrow> nat \<Rightarrow>
    (TransportResult, NotificationError) result" where
  "pagerduty_post x send routing_key retained response_limit =
     map_ok (\<lambda>body. pagerduty_result x routing_key response_limit (send body)) (inject_routing_key x retained routing_key)"

section \<open>Submission and retained history\<close>

lemma condition_token_retained:
  "condition_token label value maximum Submission = Ok u \<Longrightarrow> condition_token label value maximum Retained = Ok u"
  by (auto simp: condition_token_def and_then_Ok split: option.splits)

lemma validate_details_retained: "validate_details x details Submission = Ok u \<Longrightarrow> validate_details x details Retained = Ok ()"
  by (auto simp: validate_details_def and_then_Ok split: json.splits)

lemma pagerduty_fields_retained:
  "validate_pagerduty_fields x fds Submission = Ok u \<Longrightarrow> validate_pagerduty_fields x fds Retained = Ok u"
  by (auto simp: validate_pagerduty_fields_def Let_def condition_token_retained validate_details_retained
      split: option.splits)

lemma submitted_is_retained: "parse_submitted x value = Ok r \<Longrightarrow> parse_retained x value = Ok r"
  unfolding parse_submitted_def parse_retained_def parse_intent_value_def Let_def
  using pagerduty_fields_retained [of x] by (auto simp: and_then_Ok split: if_splits)

section \<open>Conditions and deduplication keys\<close>

definition well_formed_condition :: "Condition \<Rightarrow> bool" where
  "well_formed_condition c \<longleftrightarrow>
     list_all token_byte (cn_site c) \<and> list_all token_byte (cn_component c) \<and> list_all token_byte (cn_rule c) \<and>
     (case cn_target_class c of None \<Rightarrow> True | Some t \<Rightarrow> list_all token_byte t)"

lemma condition_token_bytes: "condition_token label value maximum validation = Ok u \<Longrightarrow> list_all token_byte value"
  by (simp add: condition_token_def and_then_Ok)

lemma validated_condition:
  assumes "validate_pagerduty_fields x fds validation = Ok u"
  shows "well_formed_condition (pg_condition fds)"
proof -
  from assms have "condition_token ''site'' (cn_site (pg_condition fds)) 64 validation = Ok ()"
    "condition_token ''component'' (cn_component (pg_condition fds)) 64 validation = Ok ()"
    "condition_token ''rule'' (cn_rule (pg_condition fds)) 64 validation = Ok ()"
    "(case cn_target_class (pg_condition fds) of None \<Rightarrow> Ok () | Some t \<Rightarrow> condition_token ''target_class'' t 48 validation) = Ok ()"
    by (simp_all add: validate_pagerduty_fields_def Let_def)
  then show ?thesis
    by (cases "cn_target_class (pg_condition fds)") (simp_all add: well_formed_condition_def condition_token_bytes)
qed

lemma no_colon: "list_all token_byte t \<Longrightarrow> CHR '':'' \<notin> set t"
  by (auto simp: list_all_iff token_byte_def is_ascii_lowercase_def is_ascii_digit_def)

lemma dedup_key_parts:
  assumes "well_formed_condition c"
  shows "split_on CHR '':'' (dedup_key c) =
    [''constellation'', cn_site c, cn_component c, cn_rule c] @ (case cn_target_class c of None \<Rightarrow> [] | Some t \<Rightarrow> [t])"
proof -
  have "split_on CHR '':'' (''constellation'' @ CHR '':'' # cn_site c @ CHR '':'' # cn_component c @ CHR '':'' # cn_rule c @
      (case cn_target_class c of None \<Rightarrow> [] | Some t \<Rightarrow> CHR '':'' # t)) =
    [''constellation'', cn_site c, cn_component c, cn_rule c] @ (case cn_target_class c of None \<Rightarrow> [] | Some t \<Rightarrow> [t])"
    using assms by (auto simp: well_formed_condition_def split_on_append split_on_none no_colon split: option.splits)
  then show ?thesis by (cases "cn_target_class c") (simp_all add: dedup_key_def)
qed

lemma dedup_key_injective:
  assumes "well_formed_condition c" "well_formed_condition c'" "dedup_key c = dedup_key c'"
  shows "c = c'"
proof -
  have "[cn_site c, cn_component c, cn_rule c] @ (case cn_target_class c of None \<Rightarrow> [] | Some t \<Rightarrow> [t]) =
      [cn_site c', cn_component c', cn_rule c'] @ (case cn_target_class c' of None \<Rightarrow> [] | Some t \<Rightarrow> [t])"
    using dedup_key_parts [OF assms(1)] dedup_key_parts [OF assms(2)] unfolding assms(3) by simp
  then have "cn_site c = cn_site c'" "cn_component c = cn_component c'" "cn_rule c = cn_rule c'"
      "cn_target_class c = cn_target_class c'"
    by (auto split: option.splits)
  then show ?thesis by (cases c; cases c') simp
qed

section \<open>Redaction\<close>

definition short_runs :: "string \<Rightarrow> bool" where
  "short_runs s \<longleftrightarrow> (\<forall>a k b. s = a @ k @ b \<longrightarrow> list_all is_ascii_alphanumeric k \<longrightarrow> length k < 32)"

lemma short_runs_prefix: "short_runs (s @ t) \<Longrightarrow> short_runs s"
  by (simp add: short_runs_def) (metis append_assoc)

lemma short_runs_length: "length s < 32 \<Longrightarrow> short_runs s"
  by (auto simp: short_runs_def)

lemma short_runs_append:
  assumes "short_runs s" "short_runs t" "t = [] \<or> \<not> is_ascii_alphanumeric (hd t)"
  shows "short_runs (s @ t)"
  unfolding short_runs_def
proof (intro allI impI)
  fix a k b assume split: "s @ t = a @ k @ b" and run: "list_all is_ascii_alphanumeric k"
  show "length k < 32"
  proof (cases "length s \<le> length a")
    case True
    with split obtain a' where "t = a' @ k @ b" by (metis append_eq_append_conv_if append_assoc append_take_drop_id)
    with assms(2) run show ?thesis unfolding short_runs_def by blast
  next
    case False
    with split obtain s' where s': "s = a @ s'" "s' @ t = k @ b"
      by (metis append_eq_append_conv_if append_take_drop_id nat_le_linear)
    show ?thesis
    proof (cases "length k \<le> length s'")
      case True
      with s' obtain s'' where "s' = k @ s''" by (metis append_eq_append_conv_if append_take_drop_id)
      with s' assms(1) run show ?thesis unfolding short_runs_def by blast
    next
      case False
      with s' obtain t' where "k = s' @ t'" "t = t' @ b" "t' \<noteq> []"
        by (metis append_eq_append_conv_if append_take_drop_id append_Nil2 nat_le_linear)
      with run assms(3) show ?thesis by (cases t') auto
    qed
  qed
qed

lemma continuation_not_alphanumeric: "is_continuation c \<Longrightarrow> \<not> is_ascii_alphanumeric c"
  by (auto simp: is_continuation_def is_ascii_alphanumeric_def Let_def)

definition uniform :: "string \<Rightarrow> bool" where
  "uniform c \<longleftrightarrow> c \<noteq> [] \<and> (list_all is_ascii_alphanumeric c \<or> list_all (\<lambda>b. \<not> is_ascii_alphanumeric b) c)"

lemma utf8_char_uniform: "c \<in> set (utf8_chars s) \<Longrightarrow> uniform c"
proof (induction s rule: utf8_chars.induct)
  case (2 b bs)
  have "uniform (b # takeWhile is_continuation bs)" if "\<not> (of_char b :: nat) < 128"
    using that by (auto simp: uniform_def is_ascii_alphanumeric_def Let_def list_all_iff
        dest!: set_takeWhileD continuation_not_alphanumeric)
  with 2 show ?case by (auto simp: uniform_def split: if_splits)
qed simp

lemma short_runs_Cons:
  assumes "\<not> is_ascii_alphanumeric d" "short_runs t"
  shows "short_runs (d # t)"
  unfolding short_runs_def
proof (intro allI impI)
  fix a k b assume split: "d # t = a @ k @ b" and run: "list_all is_ascii_alphanumeric k"
  show "length k < 32"
  proof (cases a)
    case Nil
    with split run assms(1) show ?thesis by (cases k) auto
  next
    case (Cons a0 a')
    with split have "t = a' @ k @ b" by simp
    with run assms(2) show ?thesis unfolding short_runs_def by blast
  qed
qed

lemma flush_run_short: "short_runs (flush_run run)"
  by (simp add: flush_run_def short_runs_length)

lemma short_runs_separator: "list_all (\<lambda>b. \<not> is_ascii_alphanumeric b) c \<Longrightarrow> short_runs t \<Longrightarrow> short_runs (c @ t)"
  by (induction c) (auto intro: short_runs_Cons)

lemma redact_runs_short:
  "\<lbrakk>list_all uniform cs; list_all is_ascii_alphanumeric run\<rbrakk> \<Longrightarrow> short_runs (redact_runs run cs)"
proof (induction cs arbitrary: run)
  case (Cons c cs)
  show ?case
  proof (cases "list_all is_ascii_alphanumeric c")
    case False
    with Cons.prems have c: "c \<noteq> []" "list_all (\<lambda>b. \<not> is_ascii_alphanumeric b) c" by (simp_all add: uniform_def)
    then have "\<not> is_ascii_alphanumeric (hd (c @ redact_runs [] cs))" by (cases c) simp_all
    moreover have "short_runs (c @ redact_runs [] cs)" using c Cons by (intro short_runs_separator) simp_all
    ultimately show ?thesis using False by (simp add: short_runs_append [OF flush_run_short])
  qed (use Cons in simp)
qed (simp add: flush_run_short)

lemma redacted_short: "short_runs (redact_destination_text text routing_key)"
proof -
  define cs where "cs = filter (\<lambda>c. \<not> has_control c)
    (utf8_chars (if routing_key = [] then text else str_replace routing_key ''<redacted>'' text))"
  have "short_runs (redact_runs [] cs)"
    by (rule redact_runs_short) (auto simp: cs_def list_all_iff intro: utf8_char_uniform)
  moreover have "concat (take 256 (utf8_chars (redact_runs [] cs))) @ concat (drop 256 (utf8_chars (redact_runs [] cs))) = redact_runs [] cs"
    by (simp flip: concat_append add: concat_utf8_chars)
  ultimately show ?thesis using short_runs_prefix by (metis (no_types, lifting) cs_def redact_destination_text_def)
qed

lemma short_runs_hide_key: "short_runs s \<Longrightarrow> valid_routing_key key \<Longrightarrow> \<not> str_contains s key"
proof
  assume short: "short_runs s" and key: "valid_routing_key key" and "str_contains s key"
  then obtain i rest where "drop i s = key @ rest"
    by (auto simp: str_contains_def list_ex_iff starts_with_iff)
  then have "s = take i s @ key @ rest" by (metis append_take_drop_id)
  moreover have "list_all is_ascii_alphanumeric key"
    using key by (auto simp: valid_routing_key_def list_all_iff is_ascii_hexdigit_def is_lower_hex_digit_def
        is_ascii_digit_def is_ascii_alphanumeric_def Let_def)
  ultimately show False using short key unfolding short_runs_def valid_routing_key_def by (metis less_irrefl)
qed

text \<open>Every text of a JSON value.\<close>

fun json_texts_of :: "json \<Rightarrow> string list" where
  "json_texts_of (JString t) = [t]"
| "json_texts_of (JArray vs) = concat (map json_texts_of vs)"
| "json_texts_of (JObject es) = concat (map (\<lambda>e. json_texts_of (snd e)) es)"
| "json_texts_of JNull = []"
| "json_texts_of (JBool _) = []"
| "json_texts_of (JNumber _) = []"

definition short_texts :: "(string \<times> json) list \<Rightarrow> bool" where
  "short_texts es \<longleftrightarrow> (\<forall>s \<in> set (json_texts_of (JObject es)). short_runs s)"

lemma short_texts_insert:
  "\<lbrakk>short_texts es; \<And>s. s \<in> set (json_texts_of v) \<Longrightarrow> short_runs s\<rbrakk> \<Longrightarrow> short_texts (bt_insert k v es)"
  by (induction es) (auto simp: short_texts_def split: if_splits)

lemma put_text_short: "short_texts detail \<Longrightarrow> short_texts (put_text name key body routing_key detail)"
  unfolding put_text_def by (cases "json_str (json_get body key)") (auto intro!: short_texts_insert simp: redacted_short)

lemma put_errors_short: "short_texts detail \<Longrightarrow> short_texts (put_errors body routing_key detail)"
  by (auto simp: put_errors_def redacted_short intro!: short_texts_insert split: option.splits json.splits)

lemma destination_detail_short: "short_texts (destination_detail status parsed routing_key)"
proof -
  have start: "short_texts [(''http_status'', JNumber n)]" for n by (simp add: short_texts_def)
  show ?thesis
  proof (cases parsed)
    case None
    show ?thesis
      unfolding destination_detail_def Let_def None option.case
      by (intro short_texts_insert start) (simp add: short_runs_length)
  next
    case (Some body)
    then show ?thesis
      unfolding destination_detail_def Let_def by (simp add: put_errors_short put_text_short start)
  qed
qed

lemma put_some_short:
  "\<lbrakk>short_texts detail; \<And>t. v = Some t \<Longrightarrow> short_runs t\<rbrakk> \<Longrightarrow> short_texts (put_some key v detail)"
  by (auto simp: put_some_def intro!: short_texts_insert split: option.splits)

lemma pagerduty_outcome_short:
  assumes "pagerduty_outcome status pagerduty_status = (outcome, reason, retry_class)"
  shows "reason = Some t \<Longrightarrow> short_runs t" and "retry_class = Some t \<Longrightarrow> short_runs t"
  using assms by (auto simp: pagerduty_outcome_def short_runs_length split: if_splits)

lemma reason_detail_short:
  "length reason < 32 \<Longrightarrow> length retry_class < 32 \<Longrightarrow> s \<in> set (json_texts_of (reason_detail reason retry_class)) \<Longrightarrow> short_runs s"
  by (auto simp: reason_detail_def short_runs_length)

text \<open>
  The transport reason is the one fixed text of that length; it has no run of alphanumeric characters
  as long as a key.
\<close>

lemma transport_reason_short: "short_runs ''transport_error_or_response_loss''"
proof -
  have "short_runs (''transport'' @ ''_error_or_response_loss'')"
    by (intro short_runs_append short_runs_length) (simp_all add: is_ascii_alphanumeric_def)
  then show ?thesis by simp
qed

lemma pagerduty_result_short:
  assumes "pagerduty_result x routing_key response_limit exchange = Reported outcome detail"
  shows "\<forall>s \<in> set (json_texts_of detail). short_runs s"
proof (cases exchange)
  case (HttpResponse status chunks)
  define parsed where "parsed = Option.bind (read_bounded_body [] chunks response_limit)
    (\<lambda>bs. case json_from_slice x bs of Ok v \<Rightarrow> Some v | Err _ \<Rightarrow> None)"
  obtain o' reason retry_class where
    outcome: "pagerduty_outcome status (Option.bind parsed (\<lambda>body. json_str (json_get body ''status''))) = (o', reason, retry_class)"
    by (metis prod_cases3)
  have "detail = JObject (put_some ''retry_class'' retry_class (put_some ''reason'' reason (destination_detail status parsed routing_key)))"
    using assms HttpResponse outcome by (simp add: pagerduty_result_def Let_def parsed_def)
  moreover have "short_texts (put_some ''retry_class'' retry_class (put_some ''reason'' reason (destination_detail status parsed routing_key)))"
    by (intro put_some_short destination_detail_short pagerduty_outcome_short [OF outcome])
  ultimately show ?thesis by (simp add: short_texts_def)
qed (use assms in \<open>auto simp: pagerduty_result_def reason_detail_def short_runs_length transport_reason_short\<close>)

lemma pagerduty_result_accepts:
  assumes "pagerduty_result x routing_key response_limit exchange = Reported outcome detail"
  shows "outcome = ''accepted'' \<longleftrightarrow> (\<exists>chunks bs v. exchange = HttpResponse 202 chunks \<and>
    read_bounded_body [] chunks response_limit = Some bs \<and> json_from_slice x bs = Ok v \<and> json_get v ''status'' = Some (JString ''success''))"
proof (cases exchange)
  case (HttpResponse status chunks)
  define parsed where "parsed = Option.bind (read_bounded_body [] chunks response_limit)
    (\<lambda>bs. case json_from_slice x bs of Ok v \<Rightarrow> Some v | Err _ \<Rightarrow> None)"
  define said where "said = Option.bind parsed (\<lambda>body. json_str (json_get body ''status''))"
  have "outcome = fst (pagerduty_outcome status said)"
    using assms HttpResponse by (simp add: pagerduty_result_def Let_def parsed_def said_def split: prod.splits)
  then have "outcome = ''accepted'' \<longleftrightarrow> status = 202 \<and> said = Some ''success''" by (auto simp: pagerduty_outcome_def)
  moreover have "parsed = Some v \<longleftrightarrow> (\<exists>bs. read_bounded_body [] chunks response_limit = Some bs \<and> json_from_slice x bs = Ok v)" for v
    by (cases "read_bounded_body [] chunks response_limit") (auto simp: parsed_def split: result.splits)
  then have "said = Some t \<longleftrightarrow> (\<exists>bs v. read_bounded_body [] chunks response_limit = Some bs \<and> json_from_slice x bs = Ok v \<and>
      json_get v ''status'' = Some (JString t))" for t
    unfolding said_def bind_eq_Some_conv json_str_Some by blast
  ultimately show ?thesis using HttpResponse by auto
qed (use assms in \<open>auto simp: pagerduty_result_def\<close>)

section \<open>Properties\<close>

text \<open>A page in the second schema; the bytes of an intent document are its stable event identifier.\<close>

definition sample_intent :: "string \<Rightarrow> Intent" where
  "sample_intent event =
     \<lparr>it_schema = INTENT_V2, it_attention_kind = ''operator_assertion'', it_stable_event_id = event,
      it_attention_receipt_digest = None, it_attention_policy_id = ''policy-1'', it_attention_policy_digest = zero_digest,
      it_transition_id = ''transition-1'', it_route_reference = ''oncall'', it_destination_identity = ''pagerduty:oncall'',
      it_summary = ''service down'', it_inspection_reference = ''nq inspect'', it_owner_receipt = None,
      it_response_class = Some ''page''\<rparr>"

definition sample_pager :: PagerDutyFields where
  "sample_pager =
     \<lparr>pg_action = ''trigger'',
      pg_condition = \<lparr>cn_site = ''lab'', cn_component = ''nq'', cn_rule = ''service-down'', cn_target_class = None\<rparr>,
      pg_severity = ''critical'', pg_runbook_url = None, pg_details = None\<rparr>"

definition sample_intent_value :: "string \<Rightarrow> json" where
  "sample_intent_value event =
     JObject [(''action'', JString ''trigger''),
       (''condition'', JObject [(''component'', JString ''nq''), (''rule'', JString ''service-down''), (''site'', JString ''lab'')]),
       (''response_class'', JString ''page''), (''schema'', JString INTENT_V2), (''severity'', JString ''critical''),
       (''stable_event_id'', JString event)]"

definition sample_notification :: notification_externals where
  "sample_notification =
     \<lparr>jcs_to_vec = (\<lambda>v. Ok (case json_get v ''stable_event_id'' of Some (JString t) \<Rightarrow> t | _ \<Rightarrow> ''{}'')),
      sha256_hex = (\<lambda>_. replicate 64 (CHR ''0'')),
      json_from_slice = (\<lambda>bs. Ok (sample_intent_value bs)),
      json_to_vec = (\<lambda>_. Ok ''{}''),
      intent_from_value = (\<lambda>v. case json_get v ''stable_event_id'' of Some (JString t) \<Rightarrow> Ok (sample_intent t) | _ \<Rightarrow> Err ''missing field''),
      pager_from_value = (\<lambda>_. Ok sample_pager)\<rparr>"

text \<open>
  An intent file that the submission reader accepts is retained as a document that the reader of
  retained history reopens, to the same intent.
\<close>

lemma submitted_intent_reopens:
  assumes "read_intent x opened = Ok (i, pager, document)"
  shows "reopen_retained_intent x document = Ok i"
proof -
  obtain v where v: "json_from_slice x (cd_bytes document) = Ok v" "parse_submitted x v = Ok (i, pager)"
    using assms by (auto simp: read_intent_def Let_def and_then_Ok)
  then have "json_get v ''schema'' \<noteq> Some (JString ''nq.local-inbox-delivery-intent/v1'')"
    by (auto simp: parse_submitted_def parse_intent_value_def INTENT_V1_def INTENT_V2_def)
  moreover have "parse_retained x v = Ok (i, pager)" by (rule submitted_is_retained [OF v(2)])
  ultimately show ?thesis
    using v(1) by (simp add: reopen_retained_intent_def parse_retained_def parse_retained_intent_def)
qed

lemma sample_tokens:
  "per_event_identity ''lab'' = None" "per_event_identity ''nq'' = None" "per_event_identity ''service-down'' = None"
  by (simp_all add: per_event_identity_def Let_def to_ascii_lowercase_def str_contains_def starts_with_iff windows_def
      is_ascii_uppercase_def date_window_def is_ascii_hexdigit_def is_ascii_digit_def upt_rec)

lemma sample_pager_valid: "validate_pagerduty_fields x sample_pager validation = Ok ()"
  unfolding validate_pagerduty_fields_def sample_pager_def Let_def
  by (simp add: condition_token_def sample_tokens token_byte_def is_ascii_lowercase_def is_ascii_digit_def
      is_ascii_alphanumeric_def Let_def PAGERDUTY_COMPONENTS_def PAGERDUTY_RULES_def)

lemma sample_fields:
  "json_from_slice sample_notification bs = Ok (sample_intent_value bs)"
  "intent_from_value sample_notification v =
     (case json_get v ''stable_event_id'' of Some (JString t) \<Rightarrow> Ok (sample_intent t) | _ \<Rightarrow> Err ''missing field'')"
  "pager_from_value sample_notification v = Ok sample_pager"
  by (simp_all add: sample_notification_def)

lemma sample_event_document:
  assumes "json_numbers v = []" "jcs_to_vec sample_notification v = Ok bs" "length bs \<le> 256"
  shows "from_serializable sample_notification (Ok v) = Ok \<lparr>cd_bytes = bs, cd_digest = zero_digest\<rparr>"
proof -
  have "canonical_json_bytes sample_notification v = Ok bs"
    using assms by (simp add: canonical_json_bytes_Ok)
  with assms show ?thesis
    by (simp add: from_serializable_def canonical_json_bytes_of_def validate_document_size_def MAX_STORED_JSON_BYTES_def
        MAX_RESPONSE_FRAME_BYTES_def) (simp add: sample_notification_def sha256_bytes_def zero_digest_def)
qed

lemma sample_intent_parses:
  assumes "bounded ''stable_event_id'' event 256 = Ok ()"
  shows "parse_submitted sample_notification (sample_intent_value event) = Ok (sample_intent event, Some sample_pager)"
proof -
  have "parse_intent_fields sample_notification v n = Ok (sample_intent event)"
    if "json_get v ''stable_event_id'' = Some (JString event)" "12 \<le> n" for v n
    using assms that unfolding parse_intent_fields_def sample_fields
    by (simp add: sample_intent_def) (simp add: bounded_def RESPONSE_CLASSES_def attention_bound_def)
  then show ?thesis
    by (simp add: parse_submitted_def parse_intent_value_def sample_intent_value_def sample_fields sample_pager_valid
        INTENT_V1_def INTENT_V2_def V2_FIELDS_def json_get_def)
qed

lemma sample_value_document:
  "length event \<le> 256 \<Longrightarrow>
     from_serializable sample_notification (Ok (sample_intent_value event)) = Ok \<lparr>cd_bytes = event, cd_digest = zero_digest\<rparr>"
  by (rule sample_event_document) (simp_all add: sample_intent_value_def sample_notification_def json_get_def)

text \<open>
  C28. What a PagerDuty call reports never contains the routing key, whatever the destination answers,
  even one that echoes the key; and it reports acceptance exactly for a response of status 202 whose body
  is read within the limit, is JSON and says \<open>success\<close>.
\<close>

theorem pagerduty_report_hides_routing_key:
  assumes "valid_routing_key routing_key"
    and "pagerduty_post x send routing_key retained response_limit = Ok (Reported outcome detail)"
    and "inject_routing_key x retained routing_key = Ok body"
  shows "(\<forall>s \<in> set (json_texts_of detail). \<not> str_contains s routing_key) \<and>
    (outcome = ''accepted'' \<longleftrightarrow> (\<exists>chunks bs v. send body = HttpResponse 202 chunks \<and>
      read_bounded_body [] chunks response_limit = Some bs \<and> json_from_slice x bs = Ok v \<and>
      json_get v ''status'' = Some (JString ''success'')))"
proof -
  have result: "pagerduty_result x routing_key response_limit (send body) = Reported outcome detail"
    using assms(2,3) by (simp add: pagerduty_post_def)
  from pagerduty_result_short [OF result] pagerduty_result_accepts [OF result] show ?thesis
    using short_runs_hide_key [OF _ assms(1)] by blast
qed

definition sample_key :: string where
  "sample_key = replicate 32 (CHR ''a'')"

text \<open>A destination that accepts the event and echoes the key in its message.\<close>

definition echo_externals :: notification_externals where
  "echo_externals = sample_notification\<lparr>json_from_slice := (\<lambda>_. Ok (JObject
     [(''message'', JString (''key: '' @ sample_key)), (''status'', JString ''success'')]))\<rparr>"

lemma echo_redacted: "redact_destination_text (''key: '' @ sample_key) sample_key = ''key: <redacted>''"
proof -
  have "str_replace sample_key ''<redacted>'' (''key: '' @ sample_key) = ''key: <redacted>''"
    by (simp add: sample_key_def starts_with_iff numeral_eq_Suc)
  then show ?thesis by (simp add: redact_destination_text_def sample_key_def flush_run_def is_ascii_alphanumeric_def)
qed

lemma echo_reports:
  "inject_routing_key echo_externals ''{}'' sample_key = Ok ''{}''"
  "\<exists>detail. pagerduty_post echo_externals (\<lambda>_. HttpResponse 202 [Chunk ''{}'']) sample_key ''{}'' 16 = Ok (Reported ''accepted'' detail) \<and>
     json_get detail ''pagerduty_message'' = Some (JString ''key: <redacted>'')"
proof -
  show "inject_routing_key echo_externals ''{}'' sample_key = Ok ''{}''"
    by (simp add: inject_routing_key_def echo_externals_def sample_notification_def)
  then show "\<exists>detail. pagerduty_post echo_externals (\<lambda>_. HttpResponse 202 [Chunk ''{}'']) sample_key ''{}'' 16 = Ok (Reported ''accepted'' detail) \<and>
     json_get detail ''pagerduty_message'' = Some (JString ''key: <redacted>'')"
    using echo_redacted
    by (simp add: pagerduty_post_def pagerduty_result_def echo_externals_def json_get_def pagerduty_outcome_def
        destination_detail_def put_text_def put_errors_def put_some_def)
qed

theorem pagerduty_report_hides_routing_key_witness:
  "\<exists>detail. pagerduty_post echo_externals (\<lambda>_. HttpResponse 202 [Chunk ''{}'']) sample_key ''{}'' 16 = Ok (Reported ''accepted'' detail) \<and>
     json_get detail ''pagerduty_message'' = Some (JString ''key: <redacted>'') \<and>
     \<not> list_ex (\<lambda>s. str_contains s sample_key) (json_texts_of detail)"
proof -
  have key: "valid_routing_key sample_key"
    by (simp add: valid_routing_key_def sample_key_def list_all_iff is_ascii_hexdigit_def is_lower_hex_digit_def)
  obtain detail where run: "pagerduty_post echo_externals (\<lambda>_. HttpResponse 202 [Chunk ''{}'']) sample_key ''{}'' 16 = Ok (Reported ''accepted'' detail)"
      "json_get detail ''pagerduty_message'' = Some (JString ''key: <redacted>'')"
    using echo_reports(2) by blast
  from pagerduty_report_hides_routing_key [OF key run(1) echo_reports(1)] run show ?thesis
    by (auto simp: list_ex_iff)
qed

end
