(* ===== verification/Notification_Custody.thy ===== *)
theory Notification_Custody
  imports Finding_Store
begin

text \<open>
  Custody of notification deliveries in the store (\<open>crates/nq-store/src/lib.rs\<close> from
  \<open>enqueue_notification\<close> on, and the tables, view and triggers of \<open>schema.sql\<close>). A delivery intent is
  retained once per event and destination together with its outbox row; its events are one claim or
  refusal and, after a claim, one outcome. The triggers and constraints of the tables are checks of
  the inserts; all tables are append-only.
\<close>

section \<open>Tables\<close>

record NotificationInput =
  ni_notification_id :: string
  ni_idempotency_key :: string
  ni_finding_event_id :: "string option"
  ni_destination_kind :: string
  ni_payload :: CanonicalDocument
  ni_available_at :: string
  ni_max_attempts :: nat
  ni_created_at :: string

record NotificationAttemptInput =
  na_notification_id :: string
  na_attempt_number :: nat
  na_attempted_at :: string
  na_outcome :: string
  na_delivery_identity :: "string option"
  na_detail :: CanonicalDocument

record NotificationDeliveryIntentInput =
  di_notification_id :: string
  di_stable_event_id :: string
  di_attention_kind :: string
  di_attention_receipt_digest :: "string option"
  di_attention_policy_id :: string
  di_attention_policy_digest :: string
  di_transition_id :: string
  di_route_reference :: string
  di_destination_identity :: string
  di_content_digest :: string
  di_intent :: CanonicalDocument
  di_created_at :: string

record NotificationDeliveryEventInput =
  de_notification_id :: string
  de_event_number :: nat
  de_occurred_at :: string
  de_outcome :: string
  de_detail :: CanonicalDocument

record NotificationDeliveryStatus =
  ds_notification_id :: string
  ds_stable_event_id :: string
  ds_route_reference :: string
  ds_destination_identity :: string
  ds_content_digest :: string
  ds_event_count :: nat
  ds_delivery_state :: string

datatype NotificationDeliveryRetention = Inserted | Existing NotificationDeliveryStatus

text \<open>The tables in \<open>rowid\<close> order, and the keys of the finding events an outbox row may name.\<close>

record custody =
  nt_outbox :: "NotificationInput list"
  nt_attempts :: "NotificationAttemptInput list"
  nt_intents :: "NotificationDeliveryIntentInput list"
  nt_events :: "NotificationDeliveryEventInput list"
  nt_finding_events :: "string list"

section \<open>Inserts\<close>

definition insert_outbox ::
  "'y sqlite_externals_scheme \<Rightarrow> custody \<Rightarrow> NotificationInput \<Rightarrow> (custody, StoreError) result" where
  "insert_outbox y s n =
     and_then (run_checks
       [refuse_if (\<not> json_valid y (cd_bytes (ni_payload n)) \<or> ni_max_attempts n = 0) (StoreSqlite ''CHECK constraint failed''),
        refuse_if (ni_notification_id n \<in> set (map ni_notification_id (nt_outbox s)) \<or>
            ni_idempotency_key n \<in> set (map ni_idempotency_key (nt_outbox s)))
          (StoreSqlite ''UNIQUE constraint failed''),
        refuse_if (case ni_finding_event_id n of None \<Rightarrow> False | Some e \<Rightarrow> e \<notin> set (nt_finding_events s))
          (StoreSqlite ''FOREIGN KEY constraint failed'')]) (\<lambda>_.
     Ok (s\<lparr>nt_outbox := nt_outbox s @ [n]\<rparr>))"

definition enqueue_notification ::
  "'y sqlite_externals_scheme \<Rightarrow> custody \<Rightarrow> NotificationInput \<Rightarrow> (custody, StoreError) result" where
  "enqueue_notification y s n = insert_outbox y s n"

definition append_notification_attempt ::
  "'y sqlite_externals_scheme \<Rightarrow> custody \<Rightarrow> NotificationAttemptInput \<Rightarrow> (custody, StoreError) result" where
  "append_notification_attempt y s a =
     and_then (run_checks
       [refuse_if (na_attempt_number a = 0 \<or> na_outcome a \<notin> {''delivered'', ''failed'', ''retryable''} \<or>
            \<not> json_valid y (cd_bytes (na_detail a))) (StoreSqlite ''CHECK constraint failed''),
        refuse_if ((na_notification_id a, na_attempt_number a) \<in>
            set (map (\<lambda>b. (na_notification_id b, na_attempt_number b)) (nt_attempts s)))
          (StoreSqlite ''UNIQUE constraint failed''),
        refuse_if (na_notification_id a \<notin> set (map ni_notification_id (nt_outbox s)))
          (StoreSqlite ''FOREIGN KEY constraint failed'')]) (\<lambda>_.
     Ok (s\<lparr>nt_attempts := nt_attempts s @ [a]\<rparr>))"

definition digest_shape :: "string \<Rightarrow> bool" where
  "digest_shape d \<longleftrightarrow> length d = 71 \<and> take 7 d = ''sha256:''"

definition insert_intent ::
  "'y sqlite_externals_scheme \<Rightarrow> custody \<Rightarrow> NotificationDeliveryIntentInput \<Rightarrow> (custody, StoreError) result" where
  "insert_intent y s i =
     and_then (run_checks
       [refuse_if (di_attention_kind i \<notin> {''operator_assertion'', ''nightshift_receipt''} \<or>
            \<not> digest_shape (di_attention_policy_digest i) \<or> \<not> digest_shape (di_content_digest i) \<or>
            32768 < length (cd_bytes (di_intent i)) \<or> \<not> json_valid y (cd_bytes (di_intent i)))
          (StoreSqlite ''CHECK constraint failed''),
        refuse_if (di_notification_id i \<in> set (map di_notification_id (nt_intents s)) \<or>
            (di_stable_event_id i, di_destination_identity i) \<in>
              set (map (\<lambda>j. (di_stable_event_id j, di_destination_identity j)) (nt_intents s)))
          (StoreSqlite ''UNIQUE constraint failed''),
        refuse_if (di_notification_id i \<notin> set (map ni_notification_id (nt_outbox s)))
          (StoreSqlite ''FOREIGN KEY constraint failed'')]) (\<lambda>_.
     Ok (s\<lparr>nt_intents := nt_intents s @ [i]\<rparr>))"

section \<open>Delivery events\<close>

definition terminal :: "string \<Rightarrow> bool" where
  "terminal outcome \<longleftrightarrow> outcome \<in> {''refused'', ''failed'', ''unknown'', ''accepted''}"

definition delivery_events :: "custody \<Rightarrow> string \<Rightarrow> NotificationDeliveryEventInput list" where
  "delivery_events s n = filter (\<lambda>e. de_notification_id e = n) (nt_events s)"

text \<open>The three triggers before an insert; a comparison with a missing previous event does not raise.\<close>

definition event_triggers :: "custody \<Rightarrow> NotificationDeliveryEventInput \<Rightarrow> (unit, StoreError) result" where
  "event_triggers s e =
     (let prior = delivery_events s (de_notification_id e) in run_checks
      [refuse_if (de_event_number e = 1 \<and> de_outcome e \<notin> {''claimed'', ''refused''})
         (StoreSqlite ''first notification delivery event must be claimed or refused''),
       refuse_if (1 < de_event_number e \<and>
           (de_event_number e \<noteq> Suc (length prior) \<or>
            (case List.find (\<lambda>p. de_event_number p = de_event_number e - 1) prior of
               None \<Rightarrow> False | Some p \<Rightarrow> de_outcome p \<noteq> ''claimed'') \<or>
            de_outcome e \<notin> {''failed'', ''unknown'', ''accepted''}))
         (StoreSqlite ''notification delivery requires one claim followed by one terminal outcome''),
       refuse_if (list_ex (\<lambda>p. terminal (de_outcome p)) prior)
         (StoreSqlite ''terminal notification delivery outcome cannot be replayed'')])"

definition append_notification_delivery_event ::
  "'y sqlite_externals_scheme \<Rightarrow> custody \<Rightarrow> NotificationDeliveryEventInput \<Rightarrow> (custody, StoreError) result" where
  "append_notification_delivery_event y s e =
     and_then (event_triggers s e) (\<lambda>_.
     and_then (run_checks
       [refuse_if (de_event_number e = 0 \<or> de_outcome e \<notin> {''claimed'', ''refused'', ''failed'', ''unknown'', ''accepted''} \<or>
            32768 < length (cd_bytes (de_detail e)) \<or> \<not> json_valid y (cd_bytes (de_detail e)))
          (StoreSqlite ''CHECK constraint failed''),
        refuse_if (de_event_number e \<in> set (map de_event_number (delivery_events s (de_notification_id e))))
          (StoreSqlite ''UNIQUE constraint failed''),
        refuse_if (de_notification_id e \<notin> set (map di_notification_id (nt_intents s)))
          (StoreSqlite ''FOREIGN KEY constraint failed'')]) (\<lambda>_.
     Ok (s\<lparr>nt_events := nt_events s @ [e]\<rparr>)))"

text \<open>The status view: the greatest terminal outcome, and \<open>pending\<close> without one.\<close>

definition view_delivery_state :: "NotificationDeliveryEventInput list \<Rightarrow> string" where
  "view_delivery_state events =
     (let outcomes = filter terminal (map de_outcome events)
      in if outcomes = [] then ''pending'' else Max (set outcomes))"

definition notification_delivery_state :: "nat \<Rightarrow> string \<Rightarrow> string" where
  "notification_delivery_state event_count state = (if 0 < event_count \<and> state = ''pending'' then ''unknown'' else state)"

definition status_of :: "custody \<Rightarrow> NotificationDeliveryIntentInput \<Rightarrow> NotificationDeliveryStatus" where
  "status_of s i =
     (let events = delivery_events s (di_notification_id i) in
      \<lparr>ds_notification_id = di_notification_id i, ds_stable_event_id = di_stable_event_id i,
       ds_route_reference = di_route_reference i, ds_destination_identity = di_destination_identity i,
       ds_content_digest = di_content_digest i, ds_event_count = length events,
       ds_delivery_state = notification_delivery_state (length events) (view_delivery_state events)\<rparr>)"

definition notification_delivery_status_row :: "custody \<Rightarrow> string \<Rightarrow> (NotificationDeliveryStatus, StoreError) result" where
  "notification_delivery_status_row s n =
     ok_or (StoreSqlite ''Query returned no rows'')
       (map_option (status_of s) (List.find (\<lambda>i. di_notification_id i = n) (nt_intents s)))"

definition find_identity :: "custody \<Rightarrow> string \<Rightarrow> string \<Rightarrow> NotificationDeliveryIntentInput option" where
  "find_identity s event destination =
     List.find (\<lambda>i. di_stable_event_id i = event \<and> di_destination_identity i = destination) (nt_intents s)"

definition notification_delivery_by_identity :: "custody \<Rightarrow> string \<Rightarrow> string \<Rightarrow> NotificationDeliveryStatus option" where
  "notification_delivery_by_identity s event destination = map_option (status_of s) (find_identity s event destination)"

definition notification_delivery_intent_by_identity :: "custody \<Rightarrow> string \<Rightarrow> string \<Rightarrow> CanonicalDocument option" where
  "notification_delivery_intent_by_identity s event destination = map_option di_intent (find_identity s event destination)"

definition notification_delivery_intent_by_id :: "custody \<Rightarrow> string \<Rightarrow> CanonicalDocument option" where
  "notification_delivery_intent_by_id s n = map_option di_intent (List.find (\<lambda>i. di_notification_id i = n) (nt_intents s))"

definition retain_notification_delivery ::
  "'y sqlite_externals_scheme \<Rightarrow> custody \<Rightarrow> NotificationInput \<Rightarrow> NotificationDeliveryIntentInput \<Rightarrow>
    (custody \<times> NotificationDeliveryRetention, StoreError) result" where
  "retain_notification_delivery y s n i =
     and_then (run_checks
       [validate_digest ''attention_policy_digest'' (di_attention_policy_digest i),
        validate_digest ''content_digest'' (di_content_digest i),
        (case di_attention_receipt_digest i of None \<Rightarrow> Ok () | Some r \<Rightarrow> validate_digest ''attention_receipt_digest'' r),
        refuse_if (di_attention_kind i \<notin> {''operator_assertion'', ''nightshift_receipt''} \<or>
            di_attention_kind i = ''nightshift_receipt'' \<and> di_attention_receipt_digest i = None)
          (StoreInvariant [''notification delivery intent has no supported attention binding''])]) (\<lambda>_.
     case find_identity s (di_stable_event_id i) (di_destination_identity i) of
       Some existing \<Rightarrow>
         and_then (refuse_if (di_content_digest existing \<noteq> di_content_digest i \<or>
             cd_bytes (di_intent existing) \<noteq> cd_bytes (di_intent i))
           (StoreInvariant [''notification identity is already retained with different canonical intent''])) (\<lambda>_.
         map_ok (\<lambda>status. (s, Existing status)) (notification_delivery_status_row s (di_notification_id existing)))
     | None \<Rightarrow>
         and_then (insert_outbox y s n) (\<lambda>s'.
         map_ok (\<lambda>s''. (s'', Inserted)) (insert_intent y s' i)))"

section \<open>The life of a delivery\<close>

text \<open>
  The contract of a delivery: undecided, then refused or in flight, and from in flight settled with
  one outcome. \<open>delivery_phase\<close> reads it off the events of a notification.
\<close>

datatype delivery_phase = Undecided | InFlight | Declined | Settled string

definition delivery_next :: "delivery_phase \<Rightarrow> string \<Rightarrow> delivery_phase option" where
  "delivery_next phase outcome =
     (case phase of
        Undecided \<Rightarrow> if outcome = ''claimed'' then Some InFlight else if outcome = ''refused'' then Some Declined else None
      | InFlight \<Rightarrow> if outcome \<in> {''failed'', ''unknown'', ''accepted''} then Some (Settled outcome) else None
      | _ \<Rightarrow> None)"

definition delivery_life :: "string list \<Rightarrow> delivery_phase option" where
  "delivery_life outcomes = foldl (\<lambda>phase outcome. Option.bind phase (\<lambda>p. delivery_next p outcome)) (Some Undecided) outcomes"

definition phase_text :: "delivery_phase \<Rightarrow> string" where
  "phase_text phase =
     (case phase of Undecided \<Rightarrow> ''pending'' | InFlight \<Rightarrow> ''unknown'' | Declined \<Rightarrow> ''refused'' | Settled outcome \<Rightarrow> outcome)"

lemma delivery_life_snoc: "delivery_life (outcomes @ [t]) = Option.bind (delivery_life outcomes) (\<lambda>p. delivery_next p t)"
  by (simp add: delivery_life_def)

lemma life_ended: "foldl (\<lambda>phase outcome. Option.bind phase (\<lambda>p. delivery_next p outcome)) None outcomes = None"
  by (induction outcomes) simp_all

lemma delivery_life_long: "delivery_life (a # b # c # outcomes) = None"
proof -
  have "Option.bind (Option.bind (delivery_next Undecided a) (\<lambda>p. delivery_next p b)) (\<lambda>p. delivery_next p c) = None"
    by (auto simp: delivery_next_def)
  then show ?thesis by (simp add: delivery_life_def life_ended)
qed

lemma delivery_life_Some:
  "delivery_life outcomes = Some phase \<longleftrightarrow>
     (outcomes = [] \<and> phase = Undecided) \<or> (outcomes = [''claimed''] \<and> phase = InFlight) \<or>
     (outcomes = [''refused''] \<and> phase = Declined) \<or>
     (\<exists>t \<in> {''failed'', ''unknown'', ''accepted''}. outcomes = [''claimed'', t] \<and> phase = Settled t)"
proof -
  consider "outcomes = []" | a where "outcomes = [a]" | a b where "outcomes = [a, b]" | a b c cs where "outcomes = a # b # c # cs"
    by (metis list.exhaust)
  then show ?thesis
  proof cases
    case (3 a b)
    have "delivery_life [a, b] = Some phase \<longleftrightarrow> a = ''claimed'' \<and> delivery_next InFlight b = Some phase"
      by (auto simp: delivery_life_def delivery_next_def)
    with 3 show ?thesis by (auto simp: delivery_next_def)
  next
    case 4
    then show ?thesis by (simp add: delivery_life_long)
  qed (auto simp: delivery_life_def delivery_next_def)
qed

definition numbered :: "NotificationDeliveryEventInput list \<Rightarrow> bool" where
  "numbered events \<longleftrightarrow> map de_event_number events = [1..<Suc (length events)]"

text \<open>What every custody keeps.\<close>

definition custody_ok :: "custody \<Rightarrow> bool" where
  "custody_ok s \<longleftrightarrow>
     distinct (map ni_notification_id (nt_outbox s)) \<and>
     distinct (map di_notification_id (nt_intents s)) \<and>
     distinct (map (\<lambda>i. (di_stable_event_id i, di_destination_identity i)) (nt_intents s)) \<and>
     di_notification_id ` set (nt_intents s) \<subseteq> ni_notification_id ` set (nt_outbox s) \<and>
     de_notification_id ` set (nt_events s) \<subseteq> di_notification_id ` set (nt_intents s) \<and>
     (\<forall>n. numbered (delivery_events s n) \<and> delivery_life (map de_outcome (delivery_events s n)) \<noteq> None)"

definition phase_at :: "custody \<Rightarrow> string \<Rightarrow> delivery_phase" where
  "phase_at s n = the (delivery_life (map de_outcome (delivery_events s n)))"

lemma delivery_events_append:
  "delivery_events (s\<lparr>nt_events := nt_events s @ [e]\<rparr>) n =
     delivery_events s n @ (if de_notification_id e = n then [e] else [])"
  by (simp add: delivery_events_def)

lemma phase_at_Some: "custody_ok s \<Longrightarrow> delivery_life (map de_outcome (delivery_events s n)) = Some (phase_at s n)"
  by (auto simp: custody_ok_def phase_at_def)

lemma view_state_phase:
  assumes "custody_ok s"
  shows "notification_delivery_state (length (delivery_events s n)) (view_delivery_state (delivery_events s n)) = phase_text (phase_at s n)"
proof -
  define outcomes where "outcomes = map de_outcome (delivery_events s n)"
  have "length (delivery_events s n) = length outcomes" "delivery_life outcomes = Some (phase_at s n)"
    using phase_at_Some [OF assms] by (simp_all add: outcomes_def)
  then show ?thesis
    unfolding delivery_life_Some
    by (auto simp: view_delivery_state_def outcomes_def [symmetric] notification_delivery_state_def phase_text_def terminal_def Let_def
        simp del: set_filter)
qed

text \<open>The triggers and constraints accept an event exactly when the delivery may take it next.\<close>

lemma triggers_follow_life:
  assumes life: "delivery_life (map de_outcome prior) = Some phase" and numbers: "numbered prior"
    and prior: "prior = delivery_events s (de_notification_id e)" and "de_event_number e \<noteq> 0"
  shows "event_triggers s e = Ok () \<and> de_event_number e \<notin> set (map de_event_number prior) \<longleftrightarrow>
    de_event_number e = Suc (length prior) \<and> delivery_next phase (de_outcome e) \<noteq> None"
proof -
  consider "prior = []" "phase = Undecided" | p where "prior = [p]" "de_outcome p = ''claimed''" "phase = InFlight"
    | p where "prior = [p]" "de_outcome p = ''refused''" "phase = Declined"
    | p q where "prior = [p, q]" "de_outcome p = ''claimed''" "de_outcome q \<in> {''failed'', ''unknown'', ''accepted''}" "phase = Settled (de_outcome q)"
    using life unfolding delivery_life_Some by (auto simp: map_eq_Cons_conv)
  then show ?thesis
    using numbers assms(4) prior [symmetric]
    by cases (auto simp: event_triggers_def Let_def delivery_next_def numbered_def terminal_def)
qed

lemma appended_event:
  assumes "append_notification_delivery_event y s e = Ok s'"
  shows "s' = s\<lparr>nt_events := nt_events s @ [e]\<rparr>"
  using assms by (simp add: append_notification_delivery_event_def and_then_Ok)

definition event_storable :: "'y sqlite_externals_scheme \<Rightarrow> custody \<Rightarrow> NotificationDeliveryEventInput \<Rightarrow> bool" where
  "event_storable y s e \<longleftrightarrow>
     length (cd_bytes (de_detail e)) \<le> 32768 \<and> json_valid y (cd_bytes (de_detail e)) \<and>
     de_notification_id e \<in> di_notification_id ` set (nt_intents s)"

lemma append_event_decides:
  assumes "custody_ok s"
  shows "append_notification_delivery_event y s e = Ok s' \<longleftrightarrow>
    s' = s\<lparr>nt_events := nt_events s @ [e]\<rparr> \<and> event_storable y s e \<and>
    de_event_number e = Suc (length (delivery_events s (de_notification_id e))) \<and>
    delivery_next (phase_at s (de_notification_id e)) (de_outcome e) \<noteq> None"
proof (cases "de_event_number e = 0")
  case True
  then show ?thesis by (simp add: append_notification_delivery_event_def and_then_Ok)
next
  case False
  let ?outcomes = "{''claimed'', ''refused'', ''failed'', ''unknown'', ''accepted''}"
  have "numbered (delivery_events s (de_notification_id e))" using assms by (simp add: custody_ok_def)
  note life = triggers_follow_life [OF phase_at_Some [OF assms, of "de_notification_id e"] this refl False]
  have accepted: "append_notification_delivery_event y s e = Ok s' \<longleftrightarrow>
      (event_triggers s e = Ok () \<and> de_event_number e \<notin> set (map de_event_number (delivery_events s (de_notification_id e)))) \<and>
      de_outcome e \<in> ?outcomes \<and> event_storable y s e \<and> s' = s\<lparr>nt_events := nt_events s @ [e]\<rparr>"
    using False by (simp add: append_notification_delivery_event_def and_then_Ok event_storable_def not_less) blast
  have "delivery_next p outcome \<noteq> None \<Longrightarrow> outcome \<in> ?outcomes" for p outcome
    by (auto simp: delivery_next_def split: delivery_phase.splits if_splits)
  then show ?thesis unfolding accepted life by blast
qed

lemma append_event_ok:
  assumes ok: "custody_ok s" and "append_notification_delivery_event y s e = Ok s'"
  shows "custody_ok s'" and "phase_at s' n = (if n = de_notification_id e
      then the (delivery_next (phase_at s n) (de_outcome e)) else phase_at s n)"
proof -
  let ?n = "de_notification_id e"
  from assms(2) have s': "s' = s\<lparr>nt_events := nt_events s @ [e]\<rparr>" and storable: "event_storable y s e"
    and number: "de_event_number e = Suc (length (delivery_events s ?n))"
    and enabled: "delivery_next (phase_at s ?n) (de_outcome e) \<noteq> None"
    unfolding append_event_decides [OF ok] by simp_all
  have events: "delivery_events s' m = delivery_events s m @ (if ?n = m then [e] else [])" for m
    unfolding s' by (rule delivery_events_append)
  have life: "delivery_life (map de_outcome (delivery_events s' m)) =
      (if m = ?n then delivery_next (phase_at s m) (de_outcome e) else Some (phase_at s m))" for m
    using phase_at_Some [OF ok] by (simp add: events delivery_life_snoc)
  then show "phase_at s' n = (if n = ?n then the (delivery_next (phase_at s n) (de_outcome e)) else phase_at s n)"
    by (simp add: phase_at_def)
  have "numbered (delivery_events s' m)" for m
    using ok number by (simp add: events numbered_def custody_ok_def)
  with ok storable enabled life show "custody_ok s'"
    by (auto simp: custody_ok_def event_storable_def s')
qed

lemma retained_cases:
  assumes "retain_notification_delivery y s n i = Ok (s', r)"
  obtains (existing) status where "s' = s" "r = Existing status" "find_identity s (di_stable_event_id i) (di_destination_identity i) \<noteq> None"
  | (inserted) "r = Inserted" "find_identity s (di_stable_event_id i) (di_destination_identity i) = None"
      "s' = s\<lparr>nt_outbox := nt_outbox s @ [n], nt_intents := nt_intents s @ [i]\<rparr>"
      "ni_notification_id n \<notin> ni_notification_id ` set (nt_outbox s)"
      "di_notification_id i \<notin> di_notification_id ` set (nt_intents s)"
      "di_notification_id i \<in> ni_notification_id ` set (nt_outbox s @ [n])"
  using assms
  by (auto simp: retain_notification_delivery_def and_then_Ok insert_outbox_def insert_intent_def split: option.splits)

lemma no_identity:
  "find_identity s event destination = None \<longleftrightarrow>
     (event, destination) \<notin> (\<lambda>i. (di_stable_event_id i, di_destination_identity i)) ` set (nt_intents s)"
  by (auto simp: find_identity_def find_None_iff)

lemma retain_ok:
  assumes "custody_ok s" and "retain_notification_delivery y s n i = Ok (s', r)"
  shows "custody_ok s'"
  using assms(2)
proof (cases rule: retained_cases)
  case inserted
  have "delivery_events s' m = delivery_events s m" for m by (simp add: inserted delivery_events_def)
  with assms(1) inserted show ?thesis by (auto simp: custody_ok_def no_identity)
qed (use assms(1) in simp)

section \<open>Properties\<close>

text \<open>
  C16. On a custody in order, the constraints and triggers implement the contract of a delivery: an
  event is appended exactly when its detail is storable, its intent is retained, its number is the next
  one and the contract has a step for its outcome; the append takes that step for its own notification
  and no other, keeps the custody in order, and the status row reports the phase the delivery is in.
\<close>

theorem delivery_events_refine_contract:
  assumes "custody_ok s"
  shows "(append_notification_delivery_event y s e = Ok s' \<longleftrightarrow>
      s' = s\<lparr>nt_events := nt_events s @ [e]\<rparr> \<and> event_storable y s e \<and>
      de_event_number e = Suc (length (delivery_events s (de_notification_id e))) \<and>
      delivery_next (phase_at s (de_notification_id e)) (de_outcome e) \<noteq> None) \<and>
    (append_notification_delivery_event y s e = Ok s' \<longrightarrow> custody_ok s' \<and>
      delivery_next (phase_at s (de_notification_id e)) (de_outcome e) = Some (phase_at s' (de_notification_id e)) \<and>
      (\<forall>n. n \<noteq> de_notification_id e \<longrightarrow> phase_at s' n = phase_at s n)) \<and>
    (notification_delivery_status_row s n = Ok status \<longrightarrow> ds_delivery_state status = phase_text (phase_at s n))"
proof (intro conjI impI)
  show "append_notification_delivery_event y s e = Ok s' \<longleftrightarrow>
      s' = s\<lparr>nt_events := nt_events s @ [e]\<rparr> \<and> event_storable y s e \<and>
      de_event_number e = Suc (length (delivery_events s (de_notification_id e))) \<and>
      delivery_next (phase_at s (de_notification_id e)) (de_outcome e) \<noteq> None"
    by (rule append_event_decides [OF assms])
  assume run: "append_notification_delivery_event y s e = Ok s'"
  show "custody_ok s'" by (rule append_event_ok(1) [OF assms run])
  show "delivery_next (phase_at s (de_notification_id e)) (de_outcome e) = Some (phase_at s' (de_notification_id e))"
    using run append_event_ok(2) [OF assms run] by (auto simp: append_event_decides [OF assms])
  show "\<forall>n. n \<noteq> de_notification_id e \<longrightarrow> phase_at s' n = phase_at s n"
    using append_event_ok(2) [OF assms run] by simp
next
  assume "notification_delivery_status_row s n = Ok status"
  then show "ds_delivery_state status = phase_text (phase_at s n)"
    by (auto simp: notification_delivery_status_row_def status_of_def Let_def find_Some_iff view_state_phase [OF assms])
qed

definition sample_detail :: CanonicalDocument where
  "sample_detail = \<lparr>cd_bytes = ''{}'', cd_digest = zero_digest\<rparr>"

definition sample_retained :: custody where
  "sample_retained =
     \<lparr>nt_outbox = [\<lparr>ni_notification_id = ''n-1'', ni_idempotency_key = ''event-1:page'', ni_finding_event_id = None,
        ni_destination_kind = ''pagerduty'', ni_payload = sample_detail, ni_available_at = ''t0'', ni_max_attempts = 1,
        ni_created_at = ''t0''\<rparr>],
      nt_attempts = [],
      nt_intents = [\<lparr>di_notification_id = ''n-1'', di_stable_event_id = ''event-1'', di_attention_kind = ''operator_assertion'',
        di_attention_receipt_digest = None, di_attention_policy_id = ''policy-1'', di_attention_policy_digest = zero_digest,
        di_transition_id = ''transition-1'', di_route_reference = ''oncall'', di_destination_identity = ''page'',
        di_content_digest = zero_digest, di_intent = sample_detail, di_created_at = ''t0''\<rparr>],
      nt_events = [], nt_finding_events = []\<rparr>"

definition sample_claim :: NotificationDeliveryEventInput where
  "sample_claim = \<lparr>de_notification_id = ''n-1'', de_event_number = 1, de_occurred_at = ''t1'', de_outcome = ''claimed'',
     de_detail = sample_detail\<rparr>"

lemma sample_retained_ok: "custody_ok sample_retained"
  by (simp add: custody_ok_def sample_retained_def delivery_events_def numbered_def delivery_life_def)

theorem delivery_events_refine_contract_witness:
  "append_notification_delivery_event sample_sqlite sample_retained sample_claim =
     Ok (sample_retained\<lparr>nt_events := [sample_claim]\<rparr>) \<and>
   phase_at (sample_retained\<lparr>nt_events := [sample_claim]\<rparr>) ''n-1'' = InFlight \<and>
   \<not> is_ok (append_notification_delivery_event sample_sqlite (sample_retained\<lparr>nt_events := [sample_claim]\<rparr>) sample_claim)"
proof -
  let ?s = "sample_retained\<lparr>nt_events := [sample_claim]\<rparr>"
  have events: "nt_events sample_retained = []" "nt_intents sample_retained \<noteq> []"
      "di_notification_id (hd (nt_intents sample_retained)) = ''n-1''" by (simp_all add: sample_retained_def)
  have first: "delivery_events sample_retained ''n-1'' = []" "phase_at sample_retained ''n-1'' = Undecided"
    by (simp_all add: phase_at_def delivery_events_def delivery_life_def events)
  have "event_storable sample_sqlite sample_retained sample_claim"
    by (simp add: event_storable_def sample_claim_def sample_detail_def sample_sqlite_def sample_retained_def)
  with first have run: "append_notification_delivery_event sample_sqlite sample_retained sample_claim = Ok ?s"
    using delivery_events_refine_contract [OF sample_retained_ok, of sample_sqlite sample_claim ?s]
    by (simp add: events sample_claim_def delivery_next_def)
  have next_ok: "custody_ok ?s" "phase_at ?s ''n-1'' = InFlight"
    using delivery_events_refine_contract [OF sample_retained_ok, of sample_sqlite sample_claim ?s] run first
    by (auto simp: sample_claim_def delivery_next_def)
  have "append_notification_delivery_event sample_sqlite ?s sample_claim \<noteq> Ok s'" for s'
    using delivery_events_refine_contract [OF next_ok(1), of sample_sqlite sample_claim s'] next_ok(2)
    by (auto simp: sample_claim_def delivery_next_def)
  then show ?thesis
    using run next_ok(2) by (cases "append_notification_delivery_event sample_sqlite ?s sample_claim") auto
qed

end
