(* ===== verification/Notification_Delivery.thy ===== *)
theory Notification_Delivery
  imports Notification_Intent Notification_Custody
begin

text \<open>
  Submission of notification intents (\<open>crates/nq-app/src/notification.rs\<close> from \<open>replay_nightshift\<close> to
  \<open>resubmit\<close>): the owner replay, duplicates, rendering, the custody boundary around one dispatch, local
  inboxes and resubmission.

  A submission runs in phases, one per store transaction or dispatch: it prepares its rows, retains
  them, declines or claims the delivery, dispatches it and records the outcome. \<open>submit_custody\<close> and
  \<open>deliver_local\<close> are the phases in a row; other processes may run between any two of them, and a
  process may stop after any of them. Clocks, identifiers, secrets, file system and network are fields
  of the environment.
\<close>

section \<open>Configuration and environment\<close>

datatype NotificationTransportKind = Slack | Discord | LocalFile | PagerDuty

record NightshiftAttentionReplayConfig =
  nr_executable :: string
  nr_executable_sha256 :: string
  nr_store_locator :: string
  nr_approved_policy_digest :: string
  nr_execution_account :: string

record NotificationRouteConfig =
  rc_reference :: string
  rc_transport :: NotificationTransportKind
  rc_endpoint_secret_locator :: "string option"
  rc_routing_key_env :: "string option"
  rc_local_inbox_directory :: "string option"
  rc_timeout_ms :: u64
  rc_max_response_bytes :: nat
  rc_nightshift_attention_replay :: "NightshiftAttentionReplayConfig option"

record inbox_root =
  ir_canonical_path :: string
  ir_device :: u64
  ir_inode :: u64
  ir_mode :: u64

text \<open>The results of the file system calls of one inbox write, in call order.\<close>

record inbox_write =
  iw_revalidates :: bool
  iw_creates :: bool
  iw_writes :: bool
  iw_revalidates_again :: bool
  iw_syncs :: bool

text \<open>
  \<open>ev_replay\<close> runs the enrolled replay executable on a bundle (for a saved check or a project
  predicate) and gives its response.
\<close>

record environment =
  ev_uuid :: string
  ev_now :: string
  ev_checked_at :: string
  ev_later :: string
  ev_instant :: instant
  ev_rfc3339 :: "string \<Rightarrow> instant option"
  ev_replay :: "NightshiftAttentionReplayConfig \<Rightarrow> bool \<Rightarrow> bytes \<Rightarrow> (json, NotificationError) result"
  ev_secret :: "string \<Rightarrow> string option"
  ev_client :: "u64 \<Rightarrow> bool"
  ev_dispatch :: "NotificationTransportKind \<Rightarrow> string \<Rightarrow> bytes \<Rightarrow> (TransportResult, NotificationError) result"
  ev_inbox_root :: "string \<Rightarrow> inbox_root option"
  ev_inbox_write :: inbox_write

section \<open>Owner replay\<close>

definition required_json_string :: "json \<Rightarrow> string \<Rightarrow> (string, NotificationError) result" where
  "required_json_string v field = ok_or (Bail [''Nightshift field is missing'', field]) (json_str (json_get v field))"

text \<open>\<open>a? && b? && ...\<close>: operands are read in order until one is false.\<close>

fun all_of :: "(bool, 'e) result list \<Rightarrow> (bool, 'e) result" where
  "all_of [] = Ok True"
| "all_of (r # rs) = and_then r (\<lambda>holds. if holds then all_of rs else Ok False)"

definition string_is :: "json \<Rightarrow> string \<Rightarrow> string \<Rightarrow> (bool, NotificationError) result" where
  "string_is v field expected = map_ok (\<lambda>t. t = expected) (required_json_string v field)"

definition replay_schemas :: "bool \<Rightarrow> string \<times> string \<times> string" where
  "replay_schemas saved_check =
     (if saved_check then
        (''nightshift.saved-check-attention-policy/v1'', ''nightshift.saved-check-attention-receipt/v1'',
         ''nightshift.saved-check-attention-replay/v1'')
      else
        (''nightshift.project-predicate-attention-policy/v1'', ''nightshift.project-predicate-attention/v1'',
         ''nightshift.project-predicate-attention-replay/v1''))"

definition receipt_eligible :: "bool \<Rightarrow> json \<Rightarrow> Intent \<Rightarrow> (bool, NotificationError) result" where
  "receipt_eligible saved_check receipt i =
     and_then (required_json_string receipt ''disposition'') (\<lambda>disposition.
     if saved_check then all_of
       [Ok (disposition \<in> {''ATTENTION_REQUIRED'', ''LOSS_OF_ASSURANCE''}),
        Ok (json_get receipt ''delivery_eligible'' = Some (JBool True)),
        string_is receipt ''authority'' ''none'',
        string_is receipt ''inspection_reference'' (it_inspection_reference i)]
     else Ok (disposition = ''ATTENTION_REQUIRED''))"

definition bundle_bound ::
  "bool \<Rightarrow> NightshiftAttentionReplayConfig \<Rightarrow> json \<Rightarrow> json \<Rightarrow> Intent \<Rightarrow> (bool, NotificationError) result" where
  "bundle_bound saved_check replay policy receipt i =
     (let (policy_schema, receipt_schema, _) = replay_schemas saved_check in
      and_then (receipt_eligible saved_check receipt i) (\<lambda>eligible. all_of
        [Ok eligible,
         string_is policy ''schema'' policy_schema,
         string_is receipt ''schema'' receipt_schema,
         string_is policy ''policy_digest'' (nr_approved_policy_digest replay),
         string_is receipt ''policy_digest'' (nr_approved_policy_digest replay),
         Ok (it_attention_policy_digest i = nr_approved_policy_digest replay),
         string_is receipt ''policy_id'' (it_attention_policy_id i),
         and_then (required_json_string receipt ''receipt_digest'') (\<lambda>digest.
           map_ok (\<lambda>expected. digest = expected)
             (ok_or (Bail [''attention receipt digest is missing'']) (it_attention_receipt_digest i)))]))"

definition replay_reproduces :: "bool \<Rightarrow> json \<Rightarrow> string \<Rightarrow> (unit, NotificationError) result" where
  "replay_reproduces saved_check answer expected =
     and_then (all_of
       [string_is answer ''schema'' (snd (snd (replay_schemas saved_check))),
        Ok (json_get answer ''matches'' = Some (JBool True)),
        string_is answer ''expected_receipt_digest'' expected,
        string_is answer ''recomputed_receipt_digest'' expected]) (\<lambda>reproduced.
     refuse_if (\<not> reproduced) (Bail [''Nightshift replay did not reproduce the exact attention receipt'']))"

definition replay_nightshift ::
  "'x notification_externals_scheme \<Rightarrow> environment \<Rightarrow> NotificationRouteConfig \<Rightarrow> Intent \<Rightarrow> (unit, NotificationError) result" where
  "replay_nightshift x env route i =
     (if it_attention_kind i \<noteq> ''nightshift_receipt'' then Ok () else
      and_then (ok_or (Bail [''Nightshift replay is not configured for this route'']) (rc_nightshift_attention_replay route)) (\<lambda>replay.
      and_then (ok_or (Bail [''Nightshift replay bundle is missing'']) (it_owner_receipt i)) (\<lambda>bundle.
      and_then (ok_or (Bail [''Nightshift bundle policy is missing'']) (json_get bundle ''policy'')) (\<lambda>policy.
      and_then (ok_or (Bail [''Nightshift bundle receipt is missing'']) (json_get bundle ''receipt'')) (\<lambda>receipt.
      and_then (required_json_string bundle ''schema'') (\<lambda>schema.
      and_then (if schema = ''nightshift.project-predicate-attention-replay-bundle/v1'' then Ok False
                else if schema = ''nightshift.saved-check-attention-replay-bundle/v1'' then Ok True
                else Err (Bail [''unsupported Nightshift attention replay bundle schema''])) (\<lambda>saved_check.
      and_then (bundle_bound saved_check replay policy receipt i) (\<lambda>bound.
      and_then (refuse_if (\<not> bound)
          (Bail [''Nightshift attention bundle does not match the approved policy and intent binding''])) (\<lambda>_.
      and_then (required_json_string receipt ''receipt_digest'') (\<lambda>receipt_digest.
      and_then (refuse_if (it_stable_event_id i \<noteq> receipt_digest \<or> it_transition_id i \<noteq> receipt_digest)
          (Bail [''Nightshift delivery event and transition identities must equal the exact attention receipt digest''])) (\<lambda>_.
      and_then (refuse_if (\<not> saved_check \<and> (case json_get bundle ''history'' of Some (JArray _) \<Rightarrow> False | _ \<Rightarrow> True))
          (Bail [''Nightshift attention bundle history is missing''])) (\<lambda>_.
      and_then (map_err StoreFailed (from_serializable x (Ok bundle))) (\<lambda>document.
      and_then (ev_replay env replay saved_check (cd_bytes document)) (\<lambda>answer.
      replay_reproduces saved_check answer (the (it_attention_receipt_digest i))))))))))))))))"

definition saved_check_delivery_is_current :: "environment \<Rightarrow> json option \<Rightarrow> (bool, NotificationError) result" where
  "saved_check_delivery_is_current env owner =
     (case owner of
        None \<Rightarrow> Ok True
      | Some bundle \<Rightarrow>
          if json_get bundle ''schema'' \<noteq> Some (JString ''nightshift.saved-check-attention-replay-bundle/v1'') then Ok True
          else
            and_then (ok_or (Bail [''saved-check receipt missing'']) (json_get bundle ''receipt'')) (\<lambda>receipt.
            let instant_of = (\<lambda>field. and_then (required_json_string receipt field) (\<lambda>t.
                  ok_or (Bail [''not an RFC 3339 instant'']) (ev_rfc3339 env t)))
            in and_then (instant_of ''projection_at'') (\<lambda>projected.
               and_then (instant_of ''evaluated_at'') (\<lambda>evaluated.
               and_then (instant_of ''event_current_until'') (\<lambda>until.
               Ok (projected \<le> evaluated \<and> evaluated \<le> ev_instant env \<and> ev_instant env \<le> until \<and>
                   until - projected \<le> 300 * 1000000000))))))"

section \<open>Duplicates and rendering\<close>

definition status_value :: "NotificationDeliveryStatus \<Rightarrow> json" where
  "status_value status =
     JObject [(''delivery_state'', JString (ds_delivery_state status)), (''notification_id'', JString (ds_notification_id status))]"

definition duplicate_matches ::
  "'x notification_externals_scheme \<Rightarrow> NotificationRouteConfig \<Rightarrow> json \<Rightarrow> json \<Rightarrow> (unit, NotificationError) result" where
  "duplicate_matches x route retained submitted =
     (if rc_transport route = LocalFile then
        and_then (ok_or (Bail [''local inbox directory absent'']) (rc_local_inbox_directory route)) (\<lambda>path.
        refuse_if (json_get retained ''schema'' \<noteq> Some (JString ''nq.local-inbox-delivery-intent/v1'') \<or>
            json_get retained ''intent'' \<noteq> Some submitted \<or>
            Option.bind (json_get retained ''directory_binding'') (\<lambda>b. json_get b ''path_sha256'') \<noteq>
              Some (JString (sha256_bytes x path)))
          (Bail [''notification identity is already retained with different canonical intent or local route'']))
      else refuse_if (retained \<noteq> submitted)
        (Bail [''notification identity is already retained with different canonical intent'']))"

definition retained_duplicate ::
  "'x notification_externals_scheme \<Rightarrow> custody \<Rightarrow> NotificationRouteConfig \<Rightarrow> Intent \<Rightarrow> CanonicalDocument \<Rightarrow>
    (json option, NotificationError) result" where
  "retained_duplicate x s route i document =
     (case notification_delivery_intent_by_identity s (it_stable_event_id i) (it_destination_identity i) of
        None \<Rightarrow> Ok None
      | Some retained \<Rightarrow>
          and_then (map_err JsonFailed (json_from_slice x (cd_bytes retained))) (\<lambda>retained.
          and_then (map_err JsonFailed (json_from_slice x (cd_bytes document))) (\<lambda>submitted.
          and_then (duplicate_matches x route retained submitted) (\<lambda>_.
          and_then (if it_attention_kind i = ''nightshift_receipt'' then
              and_then (ok_or (Bail [''Nightshift replay is not configured for this route''])
                (rc_nightshift_attention_replay route)) (\<lambda>replay.
              refuse_if (nr_approved_policy_digest replay \<noteq> it_attention_policy_digest i)
                (Bail [''retained notification differs from the approved policy of the route'']))
            else Ok ()) (\<lambda>_.
          map_ok (\<lambda>status. Some (status_value status))
            (ok_or (Bail [''retained notification custody is incomplete''])
              (notification_delivery_by_identity s (it_stable_event_id i) (it_destination_identity i))))))))"

definition render ::
  "'x notification_externals_scheme \<Rightarrow> NotificationRouteConfig \<Rightarrow> Intent \<Rightarrow> (CanonicalDocument, NotificationError) result" where
  "render x route i =
     (let message = ''['' @ response_class i @ ''] Attention required: '' @ it_summary i @ LF # ''Inspect: '' @ it_inspection_reference i in
      case rc_transport route of
        Slack \<Rightarrow> map_err StoreFailed (from_serializable x (Ok (JObject [(''text'', JString message)])))
      | Discord \<Rightarrow> map_err StoreFailed (from_serializable x (Ok (JObject [(''content'', JString message)])))
      | LocalFile \<Rightarrow> Err (Bail [''local inbox uses its own bounded message envelope''])
      | PagerDuty \<Rightarrow> Err (Bail [''pagerduty uses its own event envelope'']))"

definition pagerduty_payload :: "Intent \<Rightarrow> PagerDutyFields \<Rightarrow> CanonicalDocument \<Rightarrow> json" where
  "pagerduty_payload i pager document =
     (let c = pg_condition pager;
          custom = (case pg_details pager of Some (JObject details) \<Rightarrow> details | _ \<Rightarrow> []);
          custom = bt_insert ''constellation'' (JObject (bt_from
            [(''schema'', JString (it_schema i)), (''stable_event_id'', JString (it_stable_event_id i)),
             (''transition_id'', JString (it_transition_id i)), (''intent_digest'', JString (cd_digest document)),
             (''inspection_reference'', JString (it_inspection_reference i))])) custom;
          payload = bt_from
            [(''summary'', JString (it_summary i)), (''source'', JString (cn_site c)), (''severity'', JString (pg_severity pager)),
             (''component'', JString (cn_component c)), (''group'', JString (cn_rule c)), (''custom_details'', JObject custom)]
      in JObject (put_some ''class'' (cn_target_class c) payload))"

definition render_pagerduty ::
  "'x notification_externals_scheme \<Rightarrow> Intent \<Rightarrow> PagerDutyFields \<Rightarrow> CanonicalDocument \<Rightarrow>
    (CanonicalDocument, NotificationError) result" where
  "render_pagerduty x i pager document =
     (let key = JString (dedup_key (pg_condition pager)) in
      map_err StoreFailed (from_serializable x (Ok (JObject
        (if pg_action pager = ''resolve'' then bt_from [(''event_action'', JString ''resolve''), (''dedup_key'', key)]
         else
           let event = bt_from [(''event_action'', JString ''trigger''), (''dedup_key'', key),
                 (''payload'', pagerduty_payload i pager document)]
           in (case pg_runbook_url pager of
                 None \<Rightarrow> event
               | Some url \<Rightarrow> bt_insert ''links''
                   (JArray [JObject [(''href'', JString url), (''text'', JString ''Runbook'')]]) event))))))"

definition local_inbox_binding ::
  "'x notification_externals_scheme \<Rightarrow> environment \<Rightarrow> NotificationRouteConfig \<Rightarrow> (inbox_root \<times> CanonicalDocument, NotificationError) result" where
  "local_inbox_binding x env route =
     and_then (ok_or (Bail [''local_file route has no inbox directory'']) (rc_local_inbox_directory route)) (\<lambda>configured.
     and_then (ok_or (Bail [''validate local inbox directory'']) (ev_inbox_root env configured)) (\<lambda>root_dir.
     map_ok (\<lambda>document. (root_dir, document)) (map_err StoreFailed (from_serializable x (Ok (JObject (bt_from
       [(''schema'', JString ''nq.local-inbox-directory-binding/v1''),
        (''path_sha256'', JString (sha256_bytes x (ir_canonical_path root_dir))),
        (''device'', JNumber (PosInt (ir_device root_dir))), (''inode'', JNumber (PosInt (ir_inode root_dir))),
        (''mode'', JNumber (PosInt (take_bit 12 (ir_mode root_dir))))])))))))"

definition render_local_inbox ::
  "'x notification_externals_scheme \<Rightarrow> Intent \<Rightarrow> CanonicalDocument \<Rightarrow> (CanonicalDocument, NotificationError) result" where
  "render_local_inbox x i binding =
     map_err StoreFailed (from_serializable x (Ok (JObject (bt_from
       [(''schema'', JString ''nq.local-inbox-message/v1''), (''stable_event_id'', JString (it_stable_event_id i)),
        (''summary'', JString (''['' @ response_class i @ ''] '' @ it_summary i)),
        (''inspection_reference'', JString (it_inspection_reference i)), (''route_reference'', JString (it_route_reference i)),
        (''destination_identity'', JString (it_destination_identity i)), (''destination_binding_digest'', JString (cd_digest binding)),
        (''delivery_statement'', JString ''local file retained; human receipt is not established'')]))))"

definition LOCAL_INBOX_FILE_MAX_BYTES :: usize where
  "LOCAL_INBOX_FILE_MAX_BYTES = 4096"

definition validate_local_inbox_payload :: "CanonicalDocument \<Rightarrow> (unit, NotificationError) result" where
  "validate_local_inbox_payload payload =
     refuse_if (LOCAL_INBOX_FILE_MAX_BYTES < length (cd_bytes payload))
       (Bail [''local inbox message exceeds bytes before delivery custody'', show_nat LOCAL_INBOX_FILE_MAX_BYTES])"

datatype LocalWriteFailure = BeforeCreate | AfterCreate

text \<open>The failure, if any, with whether the file was created.\<close>

definition write_local_inbox_with :: "inbox_write \<Rightarrow> string \<Rightarrow> bytes \<Rightarrow> (unit, LocalWriteFailure) result" where
  "write_local_inbox_with w filename bs =
     run_checks
       [refuse_if (\<not> iw_revalidates w \<or> LOCAL_INBOX_FILE_MAX_BYTES < length bs \<or> filename = [] \<or> 128 < length filename \<or>
            CHR ''/'' \<in> set filename \<or> CHR 0x00 \<in> set filename) BeforeCreate,
        refuse_if (\<not> iw_creates w) BeforeCreate,
        refuse_if (\<not> iw_writes w) AfterCreate,
        refuse_if (\<not> iw_revalidates_again w \<or> \<not> iw_syncs w) AfterCreate]"

section \<open>Phases of a submission\<close>

record job =
  jb_route :: NotificationRouteConfig
  jb_not_page :: bool
  jb_network :: bool
  jb_owner :: "json option"
  jb_notification :: NotificationInput
  jb_intent :: NotificationDeliveryIntentInput
  jb_binding_digest :: string

abbreviation jb_id :: "job \<Rightarrow> string" where
  "jb_id job \<equiv> ni_notification_id (jb_notification job)"

datatype phase =
    Ready job
  | Holding job
  | Claimed job string
  | Dispatched job string json
  | Done "(json, NotificationError) result"

text \<open>Each call of a transport, with the notification it was for and the bytes handed over.\<close>

record dispatch_call =
  dc_notification_id :: string
  dc_transport :: NotificationTransportKind
  dc_bytes :: bytes

definition destination_kind :: "NotificationTransportKind \<Rightarrow> string" where
  "destination_kind t =
     (case t of Slack \<Rightarrow> ''slack'' | Discord \<Rightarrow> ''discord'' | PagerDuty \<Rightarrow> ''pagerduty'' | LocalFile \<Rightarrow> ''local_file'')"

definition make_job ::
  "environment \<Rightarrow> NotificationRouteConfig \<Rightarrow> Intent \<Rightarrow> CanonicalDocument \<Rightarrow> CanonicalDocument \<Rightarrow> bool \<Rightarrow> bool \<Rightarrow> string \<Rightarrow> job" where
  "make_job env route i payload retained not_page enable_network binding_digest =
     \<lparr>jb_route = route, jb_not_page = not_page, jb_network = enable_network, jb_owner = it_owner_receipt i,
      jb_notification = \<lparr>ni_notification_id = ev_uuid env,
        ni_idempotency_key = it_stable_event_id i @ '':'' @ it_destination_identity i, ni_finding_event_id = None,
        ni_destination_kind = destination_kind (rc_transport route), ni_payload = payload, ni_available_at = ev_now env,
        ni_max_attempts = 1, ni_created_at = ev_now env\<rparr>,
      jb_intent = \<lparr>di_notification_id = ev_uuid env, di_stable_event_id = it_stable_event_id i,
        di_attention_kind = it_attention_kind i, di_attention_receipt_digest = it_attention_receipt_digest i,
        di_attention_policy_id = it_attention_policy_id i, di_attention_policy_digest = it_attention_policy_digest i,
        di_transition_id = it_transition_id i, di_route_reference = it_route_reference i,
        di_destination_identity = it_destination_identity i, di_content_digest = cd_digest payload,
        di_intent = retained, di_created_at = ev_now env\<rparr>,
      jb_binding_digest = binding_digest\<rparr>"

text \<open>What precedes the retaining transaction: an early answer, or the rows to retain.\<close>

definition prepared :: "(job + json, NotificationError) result \<Rightarrow> phase" where
  "prepared r = (case r of Ok (Inl job) \<Rightarrow> Ready job | Ok (Inr answer) \<Rightarrow> Done (Ok answer) | Err e \<Rightarrow> Done (Err e))"

definition find_route :: "NotificationRouteConfig list \<Rightarrow> string \<Rightarrow> (NotificationRouteConfig, NotificationError) result" where
  "find_route routes route_ref =
     ok_or (Bail [''route reference is not configured'']) (List.find (\<lambda>r. rc_reference r = route_ref) routes)"

definition submit_prepare ::
  "'x notification_externals_scheme \<Rightarrow> environment \<Rightarrow> NotificationRouteConfig list \<Rightarrow> custody \<Rightarrow> Intent \<Rightarrow>
    PagerDutyFields option \<Rightarrow> CanonicalDocument \<Rightarrow> string \<Rightarrow> bool \<Rightarrow> phase" where
  "submit_prepare x env routes s i pager document route_ref enable_network = prepared
     (and_then (refuse_if (it_route_reference i \<noteq> route_ref) (Bail [''CLI route does not match intent route reference''])) (\<lambda>_.
      and_then (find_route routes route_ref) (\<lambda>route.
      and_then (refuse_if (rc_transport route = LocalFile) (Bail [''local_file routes require notification deliver-local''])) (\<lambda>_.
      and_then (refuse_if ((rc_transport route = PagerDuty) \<noteq> (pager \<noteq> None))
          (Bail [''pagerduty routes accept only intents of the second schema, which other routes refuse''])) (\<lambda>_.
      and_then (retained_duplicate x s route i document) (\<lambda>duplicate.
      case duplicate of
        Some answer \<Rightarrow> Ok (Inr answer)
      | None \<Rightarrow>
          let not_page = (rc_transport route = PagerDuty \<and> \<not> is_page i) in
          and_then (if not_page then Ok () else replay_nightshift x env route i) (\<lambda>_.
          and_then (case pager of Some fds \<Rightarrow> render_pagerduty x i fds document | None \<Rightarrow> render x route i) (\<lambda>payload.
          Ok (Inl (make_job env route i payload document not_page enable_network []))))))))))"

definition deliver_local_prepare ::
  "'x notification_externals_scheme \<Rightarrow> environment \<Rightarrow> NotificationRouteConfig list \<Rightarrow> custody \<Rightarrow> Intent \<Rightarrow>
    PagerDutyFields option \<Rightarrow> CanonicalDocument \<Rightarrow> string \<Rightarrow> phase" where
  "deliver_local_prepare x env routes s i pager document route_ref = prepared
     (and_then (refuse_if (pager \<noteq> None) (Bail [''intents of the second schema are accepted only by pagerduty routes''])) (\<lambda>_.
      and_then (refuse_if (it_route_reference i \<noteq> route_ref) (Bail [''CLI route does not match intent route reference''])) (\<lambda>_.
      and_then (find_route routes route_ref) (\<lambda>route.
      and_then (refuse_if (rc_transport route \<noteq> LocalFile) (Bail [''notification deliver-local requires a local_file route''])) (\<lambda>_.
      and_then (refuse_if (it_destination_identity i \<noteq> ''local-inbox:'' @ rc_reference route)
          (Bail [''local inbox intent destination identity does not match its configured route''])) (\<lambda>_.
      and_then (retained_duplicate x s route i document) (\<lambda>duplicate.
      case duplicate of
        Some answer \<Rightarrow> Ok (Inr answer)
      | None \<Rightarrow>
          and_then (replay_nightshift x env route i) (\<lambda>_.
          and_then (local_inbox_binding x env route) (\<lambda>(root_dir, binding).
          and_then (render_local_inbox x i binding) (\<lambda>payload.
          and_then (validate_local_inbox_payload payload) (\<lambda>_.
          and_then (map_err JsonFailed (json_from_slice x (cd_bytes document))) (\<lambda>original.
          and_then (map_err JsonFailed (json_from_slice x (cd_bytes binding))) (\<lambda>directory_binding.
          and_then (map_err StoreFailed (from_serializable x (Ok (JObject (bt_from
              [(''schema'', JString ''nq.local-inbox-delivery-intent/v1''), (''intent'', original),
               (''directory_binding'', directory_binding)]))))) (\<lambda>retained.
          Ok (Inl (make_job env route i payload retained False True (cd_digest binding)))))))))))))))))"

text \<open>One delivery event with a detail document; a detail that cannot be written leaves the store as it was.\<close>

definition append_detail ::
  "'x notification_externals_scheme \<Rightarrow> 'y sqlite_externals_scheme \<Rightarrow> custody \<Rightarrow> string \<Rightarrow> nat \<Rightarrow> string \<Rightarrow> string \<Rightarrow> json \<Rightarrow>
    (custody, NotificationError) result" where
  "append_detail x y s n number at_time outcome detail =
     and_then (map_err StoreFailed (from_serializable x (Ok detail))) (\<lambda>document.
     map_err StoreFailed (append_notification_delivery_event y s
       \<lparr>de_notification_id = n, de_event_number = number, de_occurred_at = at_time, de_outcome = outcome, de_detail = document\<rparr>))"

definition delivery_answer :: "string \<Rightarrow> string \<Rightarrow> json" where
  "delivery_answer n state = JObject [(''delivery_state'', JString state), (''notification_id'', JString n)]"

definition retain_refusal ::
  "'x notification_externals_scheme \<Rightarrow> 'y sqlite_externals_scheme \<Rightarrow> custody \<Rightarrow> job \<Rightarrow> string \<Rightarrow> string \<Rightarrow> phase \<times> custody" where
  "retain_refusal x y s job at_time reason =
     (case append_detail x y s (jb_id job) 1 at_time ''refused'' (JObject [(''reason'', JString reason)]) of
        Err e \<Rightarrow> (Done (Err e), s)
      | Ok s' \<Rightarrow> (Done (Ok (delivery_answer (jb_id job) ''refused'')), s'))"

text \<open>The reason to refuse a saved check that is no longer current, if it is not.\<close>

definition expired_saved_check :: "environment \<Rightarrow> json option \<Rightarrow> string option" where
  "expired_saved_check env owner =
     (case saved_check_delivery_is_current env owner of
        Ok True \<Rightarrow> None
      | Ok False \<Rightarrow> Some ''saved_check_attention_event_not_current''
      | Err _ \<Rightarrow> Some ''saved_check_attention_event_time_invalid'')"

definition claim ::
  "'x notification_externals_scheme \<Rightarrow> 'y sqlite_externals_scheme \<Rightarrow> environment \<Rightarrow> custody \<Rightarrow> job \<Rightarrow> (string \<times> json) list \<Rightarrow> string \<Rightarrow>
    phase \<times> custody" where
  "claim x y env s job detail secret =
     (case append_detail x y s (jb_id job) 1 (ev_now env) ''claimed'' (JObject detail) of
        Err e \<Rightarrow> (Done (Err e), s)
      | Ok s' \<Rightarrow> (Claimed job secret, s'))"

definition RESPONSE_CLASS_NOT_PAGE :: string where
  "RESPONSE_CLASS_NOT_PAGE = ''response_class_not_page''"

definition decide_network ::
  "'x notification_externals_scheme \<Rightarrow> 'y sqlite_externals_scheme \<Rightarrow> environment \<Rightarrow> custody \<Rightarrow> job \<Rightarrow> phase \<times> custody" where
  "decide_network x y env s job =
     (let route = jb_route job; pagerduty = (rc_transport route = PagerDuty); refuse = retain_refusal x y s job (ev_now env) in
      if jb_not_page job then refuse RESPONSE_CLASS_NOT_PAGE
      else (case expired_saved_check env (jb_owner job) of
        Some reason \<Rightarrow> retain_refusal x y s job (ev_checked_at env) reason
      | None \<Rightarrow>
          if \<not> jb_network job then refuse ''network_dispatch_not_explicitly_enabled''
          else (case (if pagerduty then rc_routing_key_env route else rc_endpoint_secret_locator route) of
            None \<Rightarrow> (Done (Err (Bail [if pagerduty then ''pagerduty route has no routing key locator''
                                       else ''HTTPS route has no endpoint secret locator''])), s)
          | Some locator \<Rightarrow>
              (case ev_secret env locator of
                 None \<Rightarrow> refuse (if pagerduty then ''routing_key_unavailable'' else ''endpoint_resolution_unavailable'')
               | Some secret \<Rightarrow>
                   if pagerduty \<and> \<not> valid_routing_key secret then refuse ''routing_key_malformed''
                   else if \<not> ev_client env (rc_timeout_ms route) then refuse ''transport_client_unavailable''
                   else claim x y env s job
                     [(''route_reference'', JString (rc_reference route)),
                      (''transport'', JString (if pagerduty then ''pagerduty'' else ''https''))] secret))))"

definition decide_local ::
  "'x notification_externals_scheme \<Rightarrow> 'y sqlite_externals_scheme \<Rightarrow> environment \<Rightarrow> custody \<Rightarrow> job \<Rightarrow> phase \<times> custody" where
  "decide_local x y env s job =
     (case expired_saved_check env (jb_owner job) of
        Some reason \<Rightarrow> retain_refusal x y s job (ev_checked_at env) reason
      | None \<Rightarrow> claim x y env s job
          [(''directory_binding_digest'', JString (jb_binding_digest job)),
           (''route_reference'', JString (rc_reference (jb_route job))), (''transport'', JString ''local_file'')] [])"

definition transport_outcome :: "TransportResult \<Rightarrow> string \<times> json" where
  "transport_outcome r =
     (case r of
        Accepted status \<Rightarrow> (''accepted'', JObject [(''http_status'', JNumber (PosInt (of_nat status)))])
      | Failed status \<Rightarrow> (''failed'', JObject [(''http_status'', JNumber (PosInt (of_nat status)))])
      | Unknown \<Rightarrow> (''unknown'', JObject [(''reason'', JString ''transport_error_or_response_loss'')])
      | Reported outcome detail \<Rightarrow> (outcome, detail))"

definition local_outcome :: "inbox_write \<Rightarrow> job \<Rightarrow> string \<times> json" where
  "local_outcome w job =
     (let filename = jb_id job @ ''.json''; payload = ni_payload (jb_notification job) in
      case write_local_inbox_with w filename (cd_bytes payload) of
        Ok _ \<Rightarrow> (''accepted'', JObject [(''filename'', JString filename), (''message_digest'', JString (cd_digest payload))])
      | Err BeforeCreate \<Rightarrow> (''failed'', JObject [(''reason'', JString ''local_inbox_create_unavailable'')])
      | Err AfterCreate \<Rightarrow> (''unknown'', JObject [(''reason'', JString ''local_inbox_post_create_state_uncertain'')]))"

definition settled_answer :: "job \<Rightarrow> string \<Rightarrow> json" where
  "settled_answer job outcome =
     (if rc_transport (jb_route job) = LocalFile
      then JObject (bt_insert ''human_receipt'' (JString ''not_established'')
        [(''delivery_state'', JString outcome), (''notification_id'', JString (jb_id job))])
      else delivery_answer (jb_id job) outcome)"

text \<open>One phase: the next phase, the store and the calls of a transport.\<close>

fun advance ::
  "'x notification_externals_scheme \<Rightarrow> 'y sqlite_externals_scheme \<Rightarrow> environment \<Rightarrow> phase \<Rightarrow> custody \<Rightarrow>
    phase \<times> custody \<times> dispatch_call list" where
  "advance x y env (Ready job) s =
     (case retain_notification_delivery y s (jb_notification job) (jb_intent job) of
        Err e \<Rightarrow> (Done (Err (StoreFailed e)), s, [])
      | Ok (s', Inserted) \<Rightarrow> (Holding job, s', [])
      | Ok (s', Existing status) \<Rightarrow> (Done (Ok (status_value status)), s', []))"
| "advance x y env (Holding job) s =
     (case (if rc_transport (jb_route job) = LocalFile then decide_local x y env s job else decide_network x y env s job) of
        (p, s') \<Rightarrow> (p, s', []))"
| "advance x y env (Claimed job secret) s =
     (let bs = cd_bytes (ni_payload (jb_notification job)); t = rc_transport (jb_route job);
          call = \<lparr>dc_notification_id = jb_id job, dc_transport = t, dc_bytes = bs\<rparr>
      in if t = LocalFile then (case local_outcome (ev_inbox_write env) job of (outcome, detail) \<Rightarrow> (Dispatched job outcome detail, s, [call]))
         else (case ev_dispatch env t secret bs of
                 Err e \<Rightarrow> (Done (Err e), s, [call])
               | Ok r \<Rightarrow> (case transport_outcome r of (outcome, detail) \<Rightarrow> (Dispatched job outcome detail, s, [call]))))"
| "advance x y env (Dispatched job outcome detail) s =
     (case append_detail x y s (jb_id job) 2 (ev_later env) outcome detail of
        Err e \<Rightarrow> (Done (Err e), s, [])
      | Ok s' \<Rightarrow> (Done (Ok (settled_answer job outcome)), s', []))"
| "advance x y env (Done r) s = (Done r, s, [])"

fun run_phases ::
  "nat \<Rightarrow> 'x notification_externals_scheme \<Rightarrow> 'y sqlite_externals_scheme \<Rightarrow> environment \<Rightarrow> phase \<Rightarrow> custody \<Rightarrow>
    phase \<times> custody \<times> dispatch_call list" where
  "run_phases 0 x y env p s = (p, s, [])"
| "run_phases (Suc n) x y env p s =
     (case advance x y env p s of (p', s', calls) \<Rightarrow>
        (case run_phases n x y env p' s' of (p'', s'', calls') \<Rightarrow> (p'', s'', calls @ calls')))"

definition submit_custody ::
  "'x notification_externals_scheme \<Rightarrow> 'y sqlite_externals_scheme \<Rightarrow> environment \<Rightarrow> NotificationRouteConfig list \<Rightarrow> custody \<Rightarrow>
    Intent \<Rightarrow> PagerDutyFields option \<Rightarrow> CanonicalDocument \<Rightarrow> string \<Rightarrow> bool \<Rightarrow> phase \<times> custody \<times> dispatch_call list" where
  "submit_custody x y env routes s i pager document route_ref enable_network =
     run_phases 4 x y env (submit_prepare x env routes s i pager document route_ref enable_network) s"

definition deliver_local ::
  "'x notification_externals_scheme \<Rightarrow> 'y sqlite_externals_scheme \<Rightarrow> environment \<Rightarrow> NotificationRouteConfig list \<Rightarrow> custody \<Rightarrow>
    intent_file \<Rightarrow> string \<Rightarrow> phase \<times> custody \<times> dispatch_call list" where
  "deliver_local x y env routes s opened route_ref =
     (case read_intent x opened of
        Err e \<Rightarrow> (Done (Err e), s, [])
      | Ok (i, pager, document) \<Rightarrow> run_phases 4 x y env (deliver_local_prepare x env routes s i pager document route_ref) s)"

text \<open>The answer of a submission carries the deduplication key of a PagerDuty event.\<close>

definition with_member :: "string \<Rightarrow> string \<Rightarrow> phase \<Rightarrow> phase" where
  "with_member key v p = (case p of Done (Ok (JObject members)) \<Rightarrow> Done (Ok (JObject (bt_insert key (JString v) members))) | _ \<Rightarrow> p)"

definition submit_parsed_with_dispatch ::
  "'x notification_externals_scheme \<Rightarrow> 'y sqlite_externals_scheme \<Rightarrow> environment \<Rightarrow> NotificationRouteConfig list \<Rightarrow> custody \<Rightarrow>
    Intent \<Rightarrow> PagerDutyFields option \<Rightarrow> CanonicalDocument \<Rightarrow> string \<Rightarrow> bool \<Rightarrow> phase \<times> custody \<times> dispatch_call list" where
  "submit_parsed_with_dispatch x y env routes s i pager document route_ref enable_network =
     (case submit_custody x y env routes s i pager document route_ref enable_network of (p, rest) \<Rightarrow>
        ((case pager of None \<Rightarrow> p | Some fds \<Rightarrow> with_member ''dedup_key'' (dedup_key (pg_condition fds)) p), rest))"

text \<open>The dispatch of the installed program; \<open>send\<close> posts a body to a URL.\<close>

definition PAGERDUTY_ENQUEUE_URL :: string where
  "PAGERDUTY_ENQUEUE_URL = ''https://events.pagerduty.com/v2/enqueue''"

definition http_dispatch ::
  "'x notification_externals_scheme \<Rightarrow> (string \<Rightarrow> bytes \<Rightarrow> http_exchange) \<Rightarrow> bool \<Rightarrow> nat \<Rightarrow> string \<Rightarrow> bytes \<Rightarrow>
    (TransportResult, NotificationError) result" where
  "http_dispatch x send pagerduty response_limit secret body =
     (if pagerduty then pagerduty_post x (send PAGERDUTY_ENQUEUE_URL) secret body response_limit
      else (case send secret body of
              HttpResponse status _ \<Rightarrow> Ok (if 200 \<le> status \<and> status \<le> 299 then Accepted status else Failed status)
            | _ \<Rightarrow> Ok Unknown))"

definition submit_parsed ::
  "'x notification_externals_scheme \<Rightarrow> 'y sqlite_externals_scheme \<Rightarrow> environment \<Rightarrow> (string \<Rightarrow> bytes \<Rightarrow> http_exchange) \<Rightarrow>
    NotificationRouteConfig list \<Rightarrow> custody \<Rightarrow> Intent \<Rightarrow> PagerDutyFields option \<Rightarrow> CanonicalDocument \<Rightarrow> string \<Rightarrow> bool \<Rightarrow>
    phase \<times> custody \<times> dispatch_call list" where
  "submit_parsed x y env send routes s i pager document route_ref enable_network =
     (let route = List.find (\<lambda>r. rc_reference r = route_ref) routes;
          pagerduty = (case route of None \<Rightarrow> False | Some r \<Rightarrow> rc_transport r = PagerDuty);
          response_limit = (case route of None \<Rightarrow> 1 | Some r \<Rightarrow> rc_max_response_bytes r)
      in submit_parsed_with_dispatch x y (env\<lparr>ev_dispatch := (\<lambda>_. http_dispatch x send pagerduty response_limit)\<rparr>) routes s i pager
           document route_ref enable_network)"

definition submit ::
  "'x notification_externals_scheme \<Rightarrow> 'y sqlite_externals_scheme \<Rightarrow> environment \<Rightarrow> (string \<Rightarrow> bytes \<Rightarrow> http_exchange) \<Rightarrow>
    NotificationRouteConfig list \<Rightarrow> custody \<Rightarrow> intent_file \<Rightarrow> string \<Rightarrow> bool \<Rightarrow> phase \<times> custody \<times> dispatch_call list" where
  "submit x y env send routes s opened route_ref enable_network =
     (case read_intent x opened of
        Err e \<Rightarrow> (Done (Err e), s, [])
      | Ok (i, pager, document) \<Rightarrow> submit_parsed x y env send routes s i pager document route_ref enable_network)"

section \<open>Resubmission\<close>

text \<open>
  The condition columns of a retained intent of the second schema, and the later records of the same
  condition on the same route (a comparison with a missing member does not hold, except for the
  target class).
\<close>

definition condition_columns :: "'x notification_externals_scheme \<Rightarrow> bytes \<Rightarrow> string \<Rightarrow> json option" where
  "condition_columns x bs name =
     (case json_from_slice x bs of
        Ok v \<Rightarrow> Option.bind (json_get v ''condition'') (\<lambda>c. json_get c name)
      | Err _ \<Rightarrow> None)"

definition intent_schema :: "'x notification_externals_scheme \<Rightarrow> bytes \<Rightarrow> string option" where
  "intent_schema x bs = (case json_from_slice x bs of Ok v \<Rightarrow> json_str (json_get v ''schema'') | Err _ \<Rightarrow> None)"

definition same_condition :: "'x notification_externals_scheme \<Rightarrow> bytes \<Rightarrow> bytes \<Rightarrow> bool" where
  "same_condition x n r \<longleftrightarrow>
     intent_schema x n = Some INTENT_V2 \<and>
     list_all (\<lambda>name. condition_columns x n name \<noteq> None \<and> condition_columns x n name = condition_columns x r name)
       [''site'', ''component'', ''rule''] \<and>
     condition_columns x n ''target_class'' = condition_columns x r ''target_class''"

definition later_record :: "nat \<times> NotificationDeliveryIntentInput \<Rightarrow> nat \<times> NotificationDeliveryIntentInput \<Rightarrow> bool" where
  "later_record n r \<longleftrightarrow> di_created_at (snd r) < di_created_at (snd n) \<or> di_created_at (snd n) = di_created_at (snd r) \<and> fst r < fst n"

definition notification_delivery_newer_same_condition ::
  "'x notification_externals_scheme \<Rightarrow> custody \<Rightarrow> string \<Rightarrow> string option" where
  "notification_delivery_newer_same_condition x s n =
     (let rows = enumerate 0 (nt_intents s);
          newer = [c \<leftarrow> rows. list_ex (\<lambda>r. di_notification_id (snd r) = n \<and>
            di_route_reference (snd c) = di_route_reference (snd r) \<and> di_notification_id (snd c) \<noteq> di_notification_id (snd r) \<and>
            later_record c r \<and> same_condition x (cd_bytes (di_intent (snd c))) (cd_bytes (di_intent (snd r)))) rows]
      in map_option (\<lambda>c. di_notification_id (snd c))
           (List.find (\<lambda>c. \<not> list_ex (\<lambda>d. later_record d c) newer) newer))"

definition prepare_resubmission ::
  "'x notification_externals_scheme \<Rightarrow> custody \<Rightarrow> string \<Rightarrow> string \<Rightarrow>
    (Intent \<times> PagerDutyFields option \<times> CanonicalDocument, NotificationError) result" where
  "prepare_resubmission x s n event_id =
     and_then (bounded ''stable_event_id'' event_id 256) (\<lambda>_.
     and_then (ok_or (Bail [''notification is not retained'']) (notification_delivery_intent_by_id s n)) (\<lambda>retained.
     and_then (map_err (\<lambda>_. Bail [''retained notification custody is incomplete'']) (notification_delivery_status_row s n)) (\<lambda>status.
     and_then (map_err JsonFailed (json_from_slice x (cd_bytes retained))) (\<lambda>value.
     and_then (refuse_if (json_get value ''schema'' \<noteq> Some (JString INTENT_V2))
         (Bail [''resubmit is defined only for pagerduty records''])) (\<lambda>_.
     and_then (refuse_if (ds_delivery_state status = ''accepted'')
         (Bail [''notification was accepted by its destination; resubmit is refused''])) (\<lambda>_.
     and_then (case notification_delivery_newer_same_condition x s n of
           None \<Rightarrow> Ok ()
         | Some newer \<Rightarrow> Err (Bail [newer, ''is a later record for the same condition on this route''])) (\<lambda>_.
     and_then (refuse_if (json_get value ''stable_event_id'' = Some (JString event_id))
         (Bail [''resubmit requires a new stable_event_id''])) (\<lambda>_.
     let value = (case value of JObject members \<Rightarrow> JObject (bt_insert ''stable_event_id'' (JString event_id) members) | _ \<Rightarrow> value) in
     and_then (map_err StoreFailed (from_serializable x (Ok value))) (\<lambda>document.
     and_then (refuse_if (MAX_INTENT_BYTES < length (cd_bytes document))
         (Bail [''notification intent exceeds bytes'', show_nat MAX_INTENT_BYTES])) (\<lambda>_.
     map_ok (\<lambda>(i, pager). (i, pager, document)) (parse_submitted x value)))))))))))"

definition resubmit ::
  "'x notification_externals_scheme \<Rightarrow> 'y sqlite_externals_scheme \<Rightarrow> environment \<Rightarrow> (string \<Rightarrow> bytes \<Rightarrow> http_exchange) \<Rightarrow>
    NotificationRouteConfig list \<Rightarrow> custody \<Rightarrow> string \<Rightarrow> string \<Rightarrow> bool \<Rightarrow> phase \<times> custody \<times> dispatch_call list" where
  "resubmit x y env send routes s n event_id enable_network =
     (case prepare_resubmission x s n event_id of
        Err e \<Rightarrow> (Done (Err e), s, [])
      | Ok (i, pager, document) \<Rightarrow>
          (case submit_parsed x y env send routes s i pager document (it_route_reference i) enable_network of (p, rest) \<Rightarrow>
             (with_member ''resubmitted_from'' n p, rest)))"

section \<open>Concurrent submissions\<close>

text \<open>
  A system of processes over one store: submissions start at any time from the store they then read,
  take their phases in any order among each other, and may stop for good after any of them; the legacy
  outbox operations run in between.
\<close>

record system =
  sy_custody :: custody
  sy_calls :: "dispatch_call list"
  sy_phases :: "phase list"

definition empty_custody :: custody where
  "empty_custody = \<lparr>nt_outbox = [], nt_attempts = [], nt_intents = [], nt_events = [], nt_finding_events = []\<rparr>"

inductive reachable ::
  "'x notification_externals_scheme \<Rightarrow> 'y sqlite_externals_scheme \<Rightarrow> NotificationRouteConfig list \<Rightarrow> system \<Rightarrow> bool"
  for x y routes where
  opened: "reachable x y routes \<lparr>sy_custody = empty_custody\<lparr>nt_finding_events := es\<rparr>, sy_calls = [], sy_phases = []\<rparr>"
| submits: "reachable x y routes sys \<Longrightarrow>
    reachable x y routes (sys\<lparr>sy_phases := sy_phases sys @
      [submit_prepare x env routes (sy_custody sys) i pager document route_ref enable_network]\<rparr>)"
| delivers: "reachable x y routes sys \<Longrightarrow>
    reachable x y routes (sys\<lparr>sy_phases := sy_phases sys @ [deliver_local_prepare x env routes (sy_custody sys) i pager document route_ref]\<rparr>)"
| advances: "reachable x y routes sys \<Longrightarrow> k < length (sy_phases sys) \<Longrightarrow>
    advance x y env (sy_phases sys ! k) (sy_custody sys) = (p, s', calls) \<Longrightarrow>
    reachable x y routes (sys\<lparr>sy_custody := s', sy_calls := sy_calls sys @ calls, sy_phases := (sy_phases sys)[k := p]\<rparr>)"
| stops: "reachable x y routes sys \<Longrightarrow> k < length (sy_phases sys) \<Longrightarrow>
    reachable x y routes (sys\<lparr>sy_phases := (sy_phases sys)[k := Done (Err (Bail [''stopped'']))]\<rparr>)"
| enqueues: "reachable x y routes sys \<Longrightarrow> enqueue_notification y (sy_custody sys) n = Ok s' \<Longrightarrow>
    reachable x y routes (sys\<lparr>sy_custody := s'\<rparr>)"
| attempts: "reachable x y routes sys \<Longrightarrow> append_notification_attempt y (sy_custody sys) a = Ok s' \<Longrightarrow>
    reachable x y routes (sys\<lparr>sy_custody := s'\<rparr>)"

subsection \<open>The invariant\<close>

fun working :: "phase \<Rightarrow> job option" where
  "working (Holding job) = Some job"
| "working (Claimed job secret) = Some job"
| "working (Dispatched job outcome detail) = Some job"
| "working (Ready job) = None"
| "working (Done r) = None"

definition one_id :: "job \<Rightarrow> bool" where
  "one_id job \<longleftrightarrow> di_notification_id (jb_intent job) = jb_id job"

definition held :: "custody \<Rightarrow> job \<Rightarrow> bool" where
  "held s job \<longleftrightarrow> one_id job \<and> jb_notification job \<in> set (nt_outbox s) \<and> jb_intent job \<in> set (nt_intents s)"

definition called :: "dispatch_call list \<Rightarrow> string set" where
  "called calls = dc_notification_id ` set calls"

fun phase_ok :: "custody \<Rightarrow> dispatch_call list \<Rightarrow> phase \<Rightarrow> bool" where
  "phase_ok s calls (Ready job) = one_id job"
| "phase_ok s calls (Holding job) = (held s job \<and> phase_at s (jb_id job) = Undecided \<and> jb_id job \<notin> called calls)"
| "phase_ok s calls (Claimed job secret) = (held s job \<and> phase_at s (jb_id job) = InFlight \<and> jb_id job \<notin> called calls)"
| "phase_ok s calls (Dispatched job outcome detail) = (held s job \<and> phase_at s (jb_id job) = InFlight)"
| "phase_ok s calls (Done r) = True"

definition call_ok :: "custody \<Rightarrow> dispatch_call \<Rightarrow> bool" where
  "call_ok s c \<longleftrightarrow>
     dc_notification_id c \<in> di_notification_id ` set (nt_intents s) \<and>
     (\<exists>row \<in> set (nt_outbox s). ni_notification_id row = dc_notification_id c \<and> cd_bytes (ni_payload row) = dc_bytes c) \<and>
     (phase_at s (dc_notification_id c) = InFlight \<or> (\<exists>outcome. phase_at s (dc_notification_id c) = Settled outcome))"

definition apart :: "phase list \<Rightarrow> bool" where
  "apart ps \<longleftrightarrow> (\<forall>i < length ps. \<forall>j < length ps. \<forall>a b.
     i \<noteq> j \<and> working (ps ! i) = Some a \<and> working (ps ! j) = Some b \<longrightarrow> jb_id a \<noteq> jb_id b)"

definition system_ok :: "system \<Rightarrow> bool" where
  "system_ok sys \<longleftrightarrow>
     custody_ok (sy_custody sys) \<and>
     list_all (phase_ok (sy_custody sys) (sy_calls sys)) (sy_phases sys) \<and>
     apart (sy_phases sys) \<and>
     distinct (map dc_notification_id (sy_calls sys)) \<and>
     list_all (call_ok (sy_custody sys)) (sy_calls sys)"

subsection \<open>One phase\<close>

lemma append_detail_Ok:
  "append_detail x y s n number at_time outcome detail = Ok s' \<Longrightarrow>
     \<exists>e. append_notification_delivery_event y s e = Ok s' \<and> de_notification_id e = n \<and> de_outcome e = outcome"
  by (auto simp: append_detail_def and_then_Ok)

definition decided :: "'y sqlite_externals_scheme \<Rightarrow> custody \<Rightarrow> job \<Rightarrow> phase \<Rightarrow> custody \<Rightarrow> bool" where
  "decided y s job p' s' \<longleftrightarrow>
     (s' = s \<and> (\<exists>r. p' = Done r)) \<or>
     (\<exists>e. append_notification_delivery_event y s e = Ok s' \<and> de_notification_id e = jb_id job \<and>
        (de_outcome e = ''refused'' \<and> (\<exists>r. p' = Done r) \<or> de_outcome e = ''claimed'' \<and> (\<exists>secret. p' = Claimed job secret)))"

lemma retain_refusal_decided: "retain_refusal x y s job at_time reason = (p', s') \<Longrightarrow> decided y s job p' s'"
  by (auto simp: retain_refusal_def decided_def split: result.splits dest!: append_detail_Ok)

lemma claim_decided: "claim x y env s job detail secret = (p', s') \<Longrightarrow> decided y s job p' s'"
  by (auto simp: claim_def decided_def split: result.splits dest!: append_detail_Ok)

lemma decide_local_decided: "decide_local x y env s job = (p', s') \<Longrightarrow> decided y s job p' s'"
  by (auto simp: decide_local_def split: option.splits intro: retain_refusal_decided claim_decided)

lemma decide_network_decided: "decide_network x y env s job = (p', s') \<Longrightarrow> decided y s job p' s'"
  unfolding decide_network_def Let_def
  by (auto split: if_splits option.splits intro: retain_refusal_decided claim_decided) (auto simp: decided_def)

text \<open>What a phase does: nothing to the store, or one retained delivery, or one event of its own notification.\<close>

lemma advance_effects:
  assumes "advance x y env p s = (p', s', calls)"
  obtains (quiet) "s' = s" "calls = []" "p' = p \<or> working p' = None \<and> (\<exists>r. p' = Done r)"
  | (retained) job where "p = Ready job" "p' = Holding job" "calls = []"
      "retain_notification_delivery y s (jb_notification job) (jb_intent job) = Ok (s', Inserted)"
  | (refused) job r e where "p = Holding job" "p' = Done r" "calls = []"
      "append_notification_delivery_event y s e = Ok s'" "de_notification_id e = jb_id job" "de_outcome e = ''refused''"
  | (claimed) job secret e where "p = Holding job" "p' = Claimed job secret" "calls = []"
      "append_notification_delivery_event y s e = Ok s'" "de_notification_id e = jb_id job" "de_outcome e = ''claimed''"
  | (dispatched) job secret where "p = Claimed job secret" "s' = s"
      "calls = [\<lparr>dc_notification_id = jb_id job, dc_transport = rc_transport (jb_route job),
        dc_bytes = cd_bytes (ni_payload (jb_notification job))\<rparr>]"
      "(\<exists>r. p' = Done r) \<or> (\<exists>outcome detail. p' = Dispatched job outcome detail)"
  | (settled) job outcome detail r e where "p = Dispatched job outcome detail" "p' = Done r" "calls = []"
      "append_notification_delivery_event y s e = Ok s'" "de_notification_id e = jb_id job"
proof (cases p)
  case (Ready job)
  with assms quiet retained show thesis
    by (auto simp: retain_notification_delivery_def and_then_Ok split: result.splits NotificationDeliveryRetention.splits option.splits)
next
  case (Holding job)
  with assms have "decided y s job p' s'" "calls = []"
    by (auto split: if_splits prod.splits intro: decide_local_decided decide_network_decided)
  with Holding quiet refused claimed show thesis unfolding decided_def by (elim disjE exE conjE) auto
next
  case (Claimed job secret)
  with assms dispatched show thesis by (auto simp: Let_def split: if_splits prod.splits result.splits)
next
  case (Dispatched job outcome detail)
  with assms quiet settled show thesis by (auto split: result.splits dest!: append_detail_Ok)
next
  case (Done r)
  with assms quiet show thesis by simp
qed

subsection \<open>Preservation\<close>

definition extends :: "custody \<Rightarrow> custody \<Rightarrow> string \<Rightarrow> bool" where
  "extends s s' n \<longleftrightarrow>
     set (nt_outbox s) \<subseteq> set (nt_outbox s') \<and> set (nt_intents s) \<subseteq> set (nt_intents s') \<and> (\<forall>m. m \<noteq> n \<longrightarrow> phase_at s' m = phase_at s m)"

lemma event_extends:
  "custody_ok s \<Longrightarrow> append_notification_delivery_event y s e = Ok s' \<Longrightarrow> extends s s' (de_notification_id e)"
  using append_event_ok(2) [of s y e s'] appended_event [of y s e s'] by (auto simp: extends_def)

lemma held_extends: "held s job \<Longrightarrow> extends s s' n \<Longrightarrow> held s' job"
  by (auto simp: held_def extends_def)

lemma phase_frame:
  assumes "phase_ok s calls q" "extends s s' n" "\<And>job. working q = Some job \<Longrightarrow> jb_id job \<noteq> n" "called new \<subseteq> {n}"
  shows "phase_ok s' (calls @ new) q"
proof -
  have "called (calls @ new) \<subseteq> insert n (called calls)" using assms(4) by (auto simp: called_def)
  with assms show ?thesis by (cases q) (auto simp: held_extends extends_def)
qed

lemma call_frame: "call_ok s c \<Longrightarrow> extends s s' n \<Longrightarrow> dc_notification_id c \<noteq> n \<Longrightarrow> call_ok s' c"
  by (fastforce simp: call_ok_def extends_def)

lemma apart_update:
  assumes "apart ps" "\<And>j b job. j < length ps \<Longrightarrow> j \<noteq> k \<Longrightarrow> working (ps ! j) = Some b \<Longrightarrow> working p = Some job \<Longrightarrow> jb_id b \<noteq> jb_id job"
  shows "apart (ps[k := p])"
  unfolding apart_def
proof (intro allI impI)
  fix i j a b
  assume bounds: "i < length (ps[k := p])" "j < length (ps[k := p])"
    and both: "i \<noteq> j \<and> working (ps[k := p] ! i) = Some a \<and> working (ps[k := p] ! j) = Some b"
  consider "i = k" "j \<noteq> k" | "j = k" "i \<noteq> k" | "i \<noteq> k" "j \<noteq> k" using both by blast
  then show "jb_id a \<noteq> jb_id b"
  proof cases
    case 1
    with bounds both assms(2) [of j b a] show ?thesis by auto
  next
    case 2
    with bounds both assms(2) [of i a b] show ?thesis by auto
  next
    case 3
    with bounds both assms(1) show ?thesis unfolding apart_def by simp
  qed
qed

text \<open>
  A phase of process \<open>k\<close> about notification \<open>n\<close> keeps the invariant when the others are not working on
  \<open>n\<close>, the phase itself is left in order, and so are the calls for \<open>n\<close>.
\<close>

lemma system_update:
  assumes ok: "system_ok sys" and k: "k < length (sy_phases sys)"
    and s': "custody_ok s'" "extends (sy_custody sys) s' n"
    and others: "\<And>j b. j < length (sy_phases sys) \<Longrightarrow> j \<noteq> k \<Longrightarrow> working (sy_phases sys ! j) = Some b \<Longrightarrow> jb_id b \<noteq> n"
    and p: "phase_ok s' (sy_calls sys @ new) p" "\<And>job. working p = Some job \<Longrightarrow> jb_id job = n"
    and new: "called new \<subseteq> {n}" "list_all (call_ok s') new" "distinct (map dc_notification_id (sy_calls sys @ new))"
    and calls: "\<And>c. c \<in> set (sy_calls sys) \<Longrightarrow> dc_notification_id c = n \<Longrightarrow> call_ok s' c"
  shows "system_ok (sys\<lparr>sy_custody := s', sy_calls := sy_calls sys @ new, sy_phases := (sy_phases sys)[k := p]\<rparr>)"
proof -
  have "phase_ok s' (sy_calls sys @ new) ((sy_phases sys)[k := p] ! j)" if "j < length (sy_phases sys)" for j
  proof (cases "j = k")
    case False
    with that ok have "phase_ok (sy_custody sys) (sy_calls sys) (sy_phases sys ! j)" by (simp add: system_ok_def list_all_length)
    from phase_frame [OF this s'(2) others [OF that False] new(1)] False show ?thesis by simp
  qed (use k p in simp)
  moreover have "list_all (call_ok s') (sy_calls sys @ new)"
    using ok new(2) call_frame [OF _ s'(2)] calls by (fastforce simp: system_ok_def list_all_iff)
  moreover have "apart ((sy_phases sys)[k := p])"
    using ok others p(2) by (intro apart_update) (auto simp: system_ok_def)
  ultimately show ?thesis using s'(1) new(3) by (simp add: system_ok_def list_all_length)
qed

lemma system_stop:
  assumes "system_ok sys"
  shows "system_ok (sys\<lparr>sy_phases := (sy_phases sys)[k := Done r]\<rparr>)"
proof -
  have "phase_ok (sy_custody sys) (sy_calls sys) ((sy_phases sys)[k := Done r] ! j)" if "j < length (sy_phases sys)" for j
    using assms that by (cases "j = k") (simp_all add: system_ok_def list_all_length)
  with assms show ?thesis by (auto simp: system_ok_def list_all_length intro!: apart_update)
qed

lemma fresh_undecided:
  assumes "custody_ok s" "n \<notin> di_notification_id ` set (nt_intents s)"
  shows "delivery_events s n = []"
  using assms by (auto simp: custody_ok_def delivery_events_def filter_empty_conv)

lemma working_others:
  assumes "system_ok sys" "k < length (sy_phases sys)" "working (sy_phases sys ! k) = Some job"
    "j < length (sy_phases sys)" "j \<noteq> k" "working (sy_phases sys ! j) = Some b"
  shows "jb_id b \<noteq> jb_id job"
  using assms unfolding system_ok_def apart_def by blast

lemma working_intent:
  "phase_ok s calls q \<Longrightarrow> working q = Some b \<Longrightarrow> jb_id b \<in> di_notification_id ` set (nt_intents s)"
  by (cases q) (force simp: held_def one_id_def image_iff)+

lemma retain_keeps:
  assumes ok: "system_ok sys" and k: "k < length (sy_phases sys)" "sy_phases sys ! k = Ready job"
    and run: "retain_notification_delivery y (sy_custody sys) (jb_notification job) (jb_intent job) = Ok (s', Inserted)"
  shows "system_ok (sys\<lparr>sy_custody := s', sy_calls := sy_calls sys @ [], sy_phases := (sy_phases sys)[k := Holding job]\<rparr>)"
proof -
  have s: "custody_ok (sy_custody sys)" and phases: "\<And>j. j < length (sy_phases sys) \<Longrightarrow> phase_ok (sy_custody sys) (sy_calls sys) (sy_phases sys ! j)"
    and calls: "\<And>c. c \<in> set (sy_calls sys) \<Longrightarrow> call_ok (sy_custody sys) c"
    using ok by (simp_all add: system_ok_def list_all_length in_set_conv_nth) blast+
  have id: "di_notification_id (jb_intent job) = jb_id job" using phases [OF k(1)] k(2) by (simp add: one_id_def)
  from run have s': "s' = (sy_custody sys)\<lparr>nt_outbox := nt_outbox (sy_custody sys) @ [jb_notification job],
        nt_intents := nt_intents (sy_custody sys) @ [jb_intent job]\<rparr>"
    and fresh: "jb_id job \<notin> di_notification_id ` set (nt_intents (sy_custody sys))"
    by (auto elim!: retained_cases simp: id)
  have events: "delivery_events s' m = delivery_events (sy_custody sys) m" for m by (simp add: s' delivery_events_def)
  show ?thesis
  proof (rule system_update [OF ok k(1), where n = "jb_id job"])
    show "custody_ok s'" by (rule retain_ok [OF s run])
    show "extends (sy_custody sys) s' (jb_id job)" by (auto simp: extends_def phase_at_def events) (simp_all add: s')
    show "phase_ok s' (sy_calls sys @ []) (Holding job)"
      using fresh calls fresh_undecided [OF s fresh]
      by (auto simp: held_def one_id_def id phase_at_def events delivery_life_def called_def call_ok_def) (simp_all add: s')
    show "jb_id b \<noteq> jb_id job" if "j < length (sy_phases sys)" "j \<noteq> k" "working (sy_phases sys ! j) = Some b" for j b
      using working_intent [OF phases [OF that(1)] that(3)] fresh by metis
    show "call_ok s' c" if "c \<in> set (sy_calls sys)" "dc_notification_id c = jb_id job" for c
      using calls [OF that(1)] that(2) fresh by (auto simp: call_ok_def)
  qed (use ok in \<open>auto simp: called_def system_ok_def\<close>)
qed

lemma event_keeps:
  assumes ok: "system_ok sys" and k: "k < length (sy_phases sys)" "working (sy_phases sys ! k) = Some job"
    and run: "append_notification_delivery_event y (sy_custody sys) e = Ok s'" "de_notification_id e = jb_id job"
    and p: "phase_ok s' (sy_calls sys) p" "\<And>other. working p = Some other \<Longrightarrow> other = job"
    and calls: "jb_id job \<in> called (sy_calls sys) \<Longrightarrow> \<exists>outcome. phase_at s' (jb_id job) = Settled outcome"
  shows "system_ok (sys\<lparr>sy_custody := s', sy_calls := sy_calls sys @ [], sy_phases := (sy_phases sys)[k := p]\<rparr>)"
proof -
  have s: "custody_ok (sy_custody sys)" using ok by (simp add: system_ok_def)
  have extends: "extends (sy_custody sys) s' (jb_id job)" using event_extends [OF s run(1)] run(2) by simp
  show ?thesis
  proof (rule system_update [OF ok k(1), where n = "jb_id job"])
    show "custody_ok s'" by (rule append_event_ok(1) [OF s run(1)])
    show "call_ok s' c" if "c \<in> set (sy_calls sys)" "dc_notification_id c = jb_id job" for c
    proof -
      have "call_ok (sy_custody sys) c" using ok that(1) by (simp add: system_ok_def list_all_iff)
      moreover have "\<exists>outcome. phase_at s' (dc_notification_id c) = Settled outcome" using calls that by (force simp: called_def)
      ultimately show ?thesis using extends by (fastforce simp: call_ok_def extends_def)
    qed
    show "jb_id b \<noteq> jb_id job" if "j < length (sy_phases sys)" "j \<noteq> k" "working (sy_phases sys ! j) = Some b" for j b
      by (rule working_others [OF ok k that])
  qed (use ok extends p in \<open>auto simp: called_def system_ok_def\<close>)
qed

lemma dispatch_keeps:
  assumes ok: "system_ok sys" and k: "k < length (sy_phases sys)" "sy_phases sys ! k = Claimed job secret"
    and p: "(\<exists>r. p = Done r) \<or> (\<exists>outcome detail. p = Dispatched job outcome detail)"
  shows "system_ok (sys\<lparr>sy_custody := sy_custody sys, sy_calls := sy_calls sys @
      [\<lparr>dc_notification_id = jb_id job, dc_transport = t, dc_bytes = cd_bytes (ni_payload (jb_notification job))\<rparr>],
      sy_phases := (sy_phases sys)[k := p]\<rparr>)"
proof -
  have claimed: "held (sy_custody sys) job" "phase_at (sy_custody sys) (jb_id job) = InFlight" "jb_id job \<notin> called (sy_calls sys)"
    using ok k by (auto simp: system_ok_def list_all_length)
  have worker: "working (sy_phases sys ! k) = Some job" by (simp add: k(2))
  have "jb_id job \<in> di_notification_id ` set (nt_intents (sy_custody sys))"
    using claimed(1) by (force simp: held_def one_id_def image_iff)
  then have "call_ok (sy_custody sys) \<lparr>dc_notification_id = jb_id job, dc_transport = t, dc_bytes = cd_bytes (ni_payload (jb_notification job))\<rparr>"
    using claimed by (auto simp: call_ok_def held_def)
  then show ?thesis
  proof (intro system_update [OF ok k(1), where n = "jb_id job"])
    show "jb_id b \<noteq> jb_id job" if "j < length (sy_phases sys)" "j \<noteq> k" "working (sy_phases sys ! j) = Some b" for j b
      by (rule working_others [OF ok k(1) worker that])
  qed (use ok p claimed in \<open>auto simp: called_def system_ok_def extends_def list_all_iff\<close>)
qed

lemma advance_keeps:
  assumes ok: "system_ok sys" and k: "k < length (sy_phases sys)"
    and run: "advance x y env (sy_phases sys ! k) (sy_custody sys) = (p, s', calls)"
  shows "system_ok (sys\<lparr>sy_custody := s', sy_calls := sy_calls sys @ calls, sy_phases := (sy_phases sys)[k := p]\<rparr>)"
proof -
  have s: "custody_ok (sy_custody sys)" and here: "phase_ok (sy_custody sys) (sy_calls sys) (sy_phases sys ! k)"
    using ok k by (simp_all add: system_ok_def list_all_length)
  from run show ?thesis
  proof (cases rule: advance_effects)
    case quiet
    then show ?thesis using ok system_stop [OF ok, of k] by auto
  next
    case (retained job)
    with retain_keeps [OF ok k retained(1,4)] show ?thesis by simp
  next
    case (refused job r e)
    then show ?thesis using event_keeps [OF ok k _ refused(4,5), where p = "Done r"] here by simp
  next
    case (claimed job secret e)
    have "phase_at s' (jb_id job) = InFlight"
      using append_event_ok(2) [OF s claimed(4), of "jb_id job"] here claimed(1,5,6) by (simp add: delivery_next_def)
    moreover have "held s' job"
      using here claimed(1) by (intro held_extends [OF _ event_extends [OF s claimed(4)]]) simp
    ultimately show ?thesis
      using event_keeps [OF ok k _ claimed(4,5), where p = "Claimed job secret"] here claimed(1-3) by simp
  next
    case (dispatched job secret)
    then show ?thesis using dispatch_keeps [OF ok k] by simp
  next
    case (settled job outcome detail r e)
    have "delivery_next (phase_at (sy_custody sys) (jb_id job)) (de_outcome e) \<noteq> None"
      using settled(4,5) unfolding append_event_decides [OF s] by simp
    then have "\<exists>outcome. phase_at s' (jb_id job) = Settled outcome"
      using append_event_ok(2) [OF s settled(4), of "jb_id job"] here settled(1,5) by (auto simp: delivery_next_def split: if_splits)
    then show ?thesis using event_keeps [OF ok k _ settled(4,5), where p = p] settled by simp
  qed
qed

lemma prepared_ok:
  "(\<And>job. r = Ok (Inl job) \<Longrightarrow> one_id job) \<Longrightarrow> phase_ok s calls (prepared r) \<and> working (prepared r) = None"
  by (cases r) (auto simp: prepared_def split: sum.splits)

lemma make_job_one_id: "one_id (make_job env route i payload retained not_page enable_network binding_digest)"
  by (simp add: make_job_def one_id_def)

lemma submit_prepared:
  "phase_ok s calls (submit_prepare x env routes s' i pager document route_ref enable_network) \<and>
   working (submit_prepare x env routes s' i pager document route_ref enable_network) = None"
  unfolding submit_prepare_def
  by (rule prepared_ok) (auto simp: and_then_Ok Let_def make_job_one_id split: option.splits if_splits)

lemma deliver_prepared:
  "phase_ok s calls (deliver_local_prepare x env routes s' i pager document route_ref) \<and>
   working (deliver_local_prepare x env routes s' i pager document route_ref) = None"
  unfolding deliver_local_prepare_def
  by (rule prepared_ok) (auto simp: and_then_Ok make_job_one_id split: option.splits)

lemma start_keeps:
  assumes "system_ok sys" "phase_ok (sy_custody sys) (sy_calls sys) p \<and> working p = None"
  shows "system_ok (sys\<lparr>sy_phases := sy_phases sys @ [p]\<rparr>)"
proof -
  have "apart (sy_phases sys @ [p])"
    using assms by (fastforce simp: system_ok_def apart_def nth_append less_Suc_eq)
  with assms show ?thesis by (simp add: system_ok_def)
qed

lemma legacy_keeps:
  assumes ok: "system_ok sys" and outbox: "set (nt_outbox (sy_custody sys)) \<subseteq> set (nt_outbox s')"
    "distinct (map ni_notification_id (nt_outbox s'))"
    and same: "nt_intents s' = nt_intents (sy_custody sys)" "nt_events s' = nt_events (sy_custody sys)"
  shows "system_ok (sys\<lparr>sy_custody := s'\<rparr>)"
proof -
  have events: "delivery_events s' m = delivery_events (sy_custody sys) m" for m by (simp add: same delivery_events_def)
  then have phases: "phase_at s' m = phase_at (sy_custody sys) m" for m by (simp add: phase_at_def)
  have "di_notification_id ` set (nt_intents (sy_custody sys)) \<subseteq> ni_notification_id ` set (nt_outbox s')"
    using ok image_mono [OF outbox(1), of ni_notification_id] unfolding system_ok_def custody_ok_def by (meson subset_trans)
  then have "custody_ok s'" using ok outbox(2) events by (simp add: system_ok_def custody_ok_def same)
  moreover have "phase_ok s' (sy_calls sys) p" if "phase_ok (sy_custody sys) (sy_calls sys) p" for p
    using that outbox(1) by (cases p) (auto simp: phases held_def same)
  moreover have "call_ok s' c" if "call_ok (sy_custody sys) c" for c
    using that outbox(1) by (auto simp: call_ok_def phases same)
  ultimately show ?thesis using ok by (auto simp: system_ok_def list_all_iff)
qed

lemma reachable_ok: "reachable x y routes sys \<Longrightarrow> system_ok sys"
proof (induction rule: reachable.induct)
  case (opened es)
  show ?case
    by (simp add: system_ok_def custody_ok_def empty_custody_def apart_def delivery_events_def numbered_def delivery_life_def)
next
  case (submits sys)
  then show ?case using start_keeps submit_prepared by blast
next
  case (delivers sys)
  then show ?case using start_keeps deliver_prepared by blast
next
  case (advances sys k env p s' calls)
  then show ?case using advance_keeps by blast
next
  case (stops sys k)
  then show ?case using system_stop by blast
next
  case (enqueues sys n s')
  then have "distinct (map ni_notification_id (nt_outbox (sy_custody sys)))" by (simp add: system_ok_def custody_ok_def)
  with enqueues show ?case
    by (intro legacy_keeps) (auto simp: enqueue_notification_def insert_outbox_def and_then_Ok)
next
  case (attempts sys a s')
  then have "distinct (map ni_notification_id (nt_outbox (sy_custody sys)))" by (simp add: system_ok_def custody_ok_def)
  with attempts show ?case
    by (intro legacy_keeps) (auto simp: append_notification_attempt_def and_then_Ok)
qed

definition identity_of :: "custody \<Rightarrow> string \<Rightarrow> (string \<times> string) option" where
  "identity_of s n = map_option (\<lambda>i. (di_stable_event_id i, di_destination_identity i))
     (List.find (\<lambda>i. di_notification_id i = n) (nt_intents s))"

lemma identity_of_intent:
  assumes "custody_ok s" "i \<in> set (nt_intents s)"
  shows "identity_of s (di_notification_id i) = Some (di_stable_event_id i, di_destination_identity i)"
proof -
  have "List.find (\<lambda>j. di_notification_id j = di_notification_id i) (nt_intents s) = Some i"
  proof (cases "List.find (\<lambda>j. di_notification_id j = di_notification_id i) (nt_intents s)")
    case None
    with assms(2) show ?thesis by (auto simp: find_None_iff)
  next
    case (Some j)
    then have "j \<in> set (nt_intents s)" "di_notification_id j = di_notification_id i"
      by (auto simp: find_Some_iff)
    with assms Some show ?thesis by (auto simp: custody_ok_def distinct_map dest: inj_onD)
  qed
  then show ?thesis by (simp add: identity_of_def)
qed

lemma identity_injective:
  assumes "custody_ok s" "n \<in> di_notification_id ` set (nt_intents s)" "m \<in> di_notification_id ` set (nt_intents s)"
    and "identity_of s n = identity_of s m"
  shows "n = m"
proof -
  from assms(2,3) obtain i j where ij: "i \<in> set (nt_intents s)" "n = di_notification_id i" "j \<in> set (nt_intents s)" "m = di_notification_id j" by auto
  with assms(4) identity_of_intent [OF assms(1)]
  have "(di_stable_event_id i, di_destination_identity i) = (di_stable_event_id j, di_destination_identity j)" by simp
  with ij assms(1) have "i = j" unfolding custody_ok_def distinct_map inj_on_def by blast
  with ij show ?thesis by simp
qed

subsection \<open>Sequential submissions\<close>

lemma reachable_run:
  "reachable x y routes sys \<Longrightarrow> k < length (sy_phases sys) \<Longrightarrow>
   run_phases n x y env (sy_phases sys ! k) (sy_custody sys) = (p, s', calls) \<Longrightarrow>
   reachable x y routes (sys\<lparr>sy_custody := s', sy_calls := sy_calls sys @ calls, sy_phases := (sy_phases sys)[k := p]\<rparr>)"
proof (induction n arbitrary: sys calls)
  case 0
  then have "p = sy_phases sys ! k" "s' = sy_custody sys" "calls = []" by simp_all
  with 0 show ?case by simp
next
  case (Suc n)
  obtain p1 s1 c1 where one: "advance x y env (sy_phases sys ! k) (sy_custody sys) = (p1, s1, c1)" by (metis prod_cases3)
  with Suc.prems(3) obtain c2 where rest: "run_phases n x y env p1 s1 = (p, s', c2)" "calls = c1 @ c2"
    by (auto split: prod.splits)
  let ?sys1 = "sys\<lparr>sy_custody := s1, sy_calls := sy_calls sys @ c1, sy_phases := (sy_phases sys)[k := p1]\<rparr>"
  have "reachable x y routes ?sys1" by (rule reachable.advances [OF Suc.prems(1,2) one])
  from Suc.IH [OF this, of c2] rest Suc.prems(2) show ?case by simp
qed

text \<open>Where a claim comes from, and what it presupposes.\<close>

definition dispatch_allowed :: "environment \<Rightarrow> job \<Rightarrow> bool" where
  "dispatch_allowed env job \<longleftrightarrow>
     jb_network job \<and> \<not> jb_not_page job \<and> expired_saved_check env (jb_owner job) = None \<and>
     (rc_transport (jb_route job) = PagerDuty \<longrightarrow>
        (\<exists>locator key. rc_routing_key_env (jb_route job) = Some locator \<and> ev_secret env locator = Some key \<and> valid_routing_key key))"

lemma refusal_no_claim: "retain_refusal x y s job at_time reason \<noteq> (Claimed job' secret, s')"
  by (auto simp: retain_refusal_def split: result.splits)

lemma claim_same: "claim x y env s job detail secret = (Claimed job' secret', s') \<Longrightarrow> job' = job"
  by (auto simp: claim_def split: result.splits)

lemma decide_network_allowed:
  assumes "decide_network x y env s job = (Claimed job' secret, s')"
  shows "job' = job \<and> dispatch_allowed env job"
  using assms unfolding decide_network_def dispatch_allowed_def Let_def
  by (auto simp: refusal_no_claim split: if_splits option.splits dest: claim_same)

lemma decide_ends:
  assumes "decided y s job p s'"
  shows "(\<exists>r. p = Done r) \<or> (\<exists>secret. p = Claimed job secret)"
  using assms by (auto simp: decided_def)

lemma run_done: "run_phases n x y env (Done r) s = (Done r, s, [])"
  by (induction n) simp_all

lemma run_dispatched: "\<exists>r s'. run_phases (Suc n) x y env (Dispatched job outcome detail) s = (Done r, s', [])"
  by (auto simp: run_done split: result.splits)

text \<open>A claimed delivery is dispatched once and then ends.\<close>

lemma run_claimed:
  "\<exists>r s'. run_phases (Suc (Suc n)) x y env (Claimed job secret) s = (Done r, s',
     [\<lparr>dc_notification_id = jb_id job, dc_transport = rc_transport (jb_route job),
       dc_bytes = cd_bytes (ni_payload (jb_notification job))\<rparr>])"
proof -
  obtain p s' calls where one: "advance x y env (Claimed job secret) s = (p, s', calls)" by (metis prod_cases3)
  then show ?thesis
  proof (cases rule: advance_effects)
    case (dispatched job' secret')
    then consider r where "p = Done r" | outcome detail where "p = Dispatched job outcome detail" by auto
    then show ?thesis
    proof cases
      case 1
      with one dispatched show ?thesis by (simp only: run_phases.simps one prod.case) (simp add: run_done)
    next
      case 2
      with one dispatched run_dispatched [of n x y env job outcome detail s'] show ?thesis
        by (auto simp only: run_phases.simps(2) [of "Suc n"] one prod.case phase.inject) auto
    qed
  qed (use one in \<open>auto simp: Let_def split: if_splits prod.splits result.splits\<close>)
qed

definition the_call :: "job \<Rightarrow> dispatch_call" where
  "the_call job = \<lparr>dc_notification_id = jb_id job, dc_transport = rc_transport (jb_route job),
     dc_bytes = cd_bytes (ni_payload (jb_notification job))\<rparr>"

definition ends_with_call :: "environment \<Rightarrow> job \<Rightarrow> phase \<times> custody \<times> dispatch_call list \<Rightarrow> bool" where
  "ends_with_call env job res \<longleftrightarrow> (\<exists>r s' calls. res = (Done r, s', calls) \<and>
     (calls = [] \<or> calls = [the_call job] \<and> (rc_transport (jb_route job) \<noteq> LocalFile \<longrightarrow> dispatch_allowed env job)))"

lemma run_holding: "ends_with_call env job (run_phases (Suc (Suc (Suc n))) x y env (Holding job) s)"
proof -
  obtain p s1 where step: "(if rc_transport (jb_route job) = LocalFile then decide_local x y env s job else decide_network x y env s job) = (p, s1)"
    by (metis surj_pair)
  then have "decided y s job p s1" by (auto split: if_splits intro: decide_local_decided decide_network_decided)
  from decide_ends [OF this] show ?thesis
  proof (elim disjE exE)
    fix r assume "p = Done r"
    with step show ?thesis unfolding ends_with_call_def by (simp add: run_done)
  next
    fix secret assume p: "p = Claimed job secret"
    with step have "rc_transport (jb_route job) \<noteq> LocalFile \<longrightarrow> dispatch_allowed env job"
      by (auto dest: decide_network_allowed)
    moreover obtain r s' where "run_phases (Suc (Suc n)) x y env (Claimed job secret) s1 = (Done r, s', [the_call job])"
      using run_claimed [of n x y env job secret s1] unfolding the_call_def by blast
    ultimately show ?thesis
      using step p unfolding ends_with_call_def by (simp only: run_phases.simps(2) [of "Suc (Suc n)"] advance.simps prod.case) simp
  qed
qed

lemma run_ready: "ends_with_call env job (run_phases (Suc (Suc (Suc (Suc n)))) x y env (Ready job) s)"
proof -
  obtain p s1 where step: "advance x y env (Ready job) s = (p, s1, [])" "(\<exists>r. p = Done r) \<or> p = Holding job"
  proof (cases "retain_notification_delivery y s (jb_notification job) (jb_intent job)")
    case (Ok q)
    obtain s2 v where "q = (s2, v)" by (cases q)
    with Ok that show thesis by (cases v) simp_all
  qed simp
  from step(2) show ?thesis
  proof (elim disjE exE)
    fix r assume "p = Done r"
    with step(1) show ?thesis
      unfolding ends_with_call_def by (simp only: run_phases.simps(2) [of "Suc (Suc (Suc n))"] prod.case) (simp add: run_done)
  next
    assume p: "p = Holding job"
    from run_holding [of env job n x y s1] obtain r s' calls where
      "run_phases (Suc (Suc (Suc n))) x y env (Holding job) s1 = (Done r, s', calls)"
      "calls = [] \<or> calls = [the_call job] \<and> (rc_transport (jb_route job) \<noteq> LocalFile \<longrightarrow> dispatch_allowed env job)"
      unfolding ends_with_call_def by blast
    with step(1) p show ?thesis
      unfolding ends_with_call_def by (simp only: run_phases.simps(2) [of "Suc (Suc (Suc n))"] prod.case) simp
  qed
qed

text \<open>The job a submission prepares.\<close>

lemma submit_prepare_job:
  assumes "submit_prepare x env routes s i pager document route_ref enable_network = Ready job"
  shows "rc_transport (jb_route job) \<noteq> LocalFile \<and> jb_route job \<in> set routes \<and> rc_reference (jb_route job) = route_ref \<and>
    jb_network job = enable_network \<and> jb_id job = ev_uuid env \<and>
    jb_not_page job = (rc_transport (jb_route job) = PagerDuty \<and> \<not> is_page i) \<and> jb_owner job = it_owner_receipt i \<and>
    di_stable_event_id (jb_intent job) = it_stable_event_id i \<and> di_destination_identity (jb_intent job) = it_destination_identity i"
proof -
  obtain r where r: "submit_prepare x env routes s i pager document route_ref enable_network = prepared r" "r = Ok (Inl job)"
    using assms unfolding submit_prepare_def by (auto simp: prepared_def split: result.splits sum.splits)
  with assms show ?thesis
    unfolding submit_prepare_def
    by (auto simp: prepared_def and_then_Ok Let_def make_job_def find_route_def find_Some_iff split: option.splits result.splits sum.splits if_splits)
qed

subsection \<open>Laws of resubmission\<close>

lemma maximal_exists:
  assumes "\<And>a b c. R a b \<Longrightarrow> R b c \<Longrightarrow> R a c" "\<And>a. \<not> R a a" "xs \<noteq> []"
  shows "\<exists>m \<in> set xs. \<forall>d \<in> set xs. \<not> R d m"
  using assms(3)
proof (induction xs rule: list_nonempty_induct)
  case (cons x xs)
  then obtain m where m: "m \<in> set xs" "\<forall>d \<in> set xs. \<not> R d m" by blast
  show ?case
  proof (cases "R x m")
    case True
    with m assms(1) have "\<forall>d \<in> set xs. \<not> R d x" by blast
    with assms(2) show ?thesis by auto
  next
    case False
    with m show ?thesis by auto
  qed
qed (simp add: assms(2))

lemma later_record_order: "later_record a b \<Longrightarrow> later_record b c \<Longrightarrow> later_record a c" "\<not> later_record a a"
  by (auto simp: later_record_def)

text \<open>Without a newer record, no other record of the route is later and of the same condition.\<close>

lemma no_newer_record:
  assumes "notification_delivery_newer_same_condition x s n = None"
    and "r \<in> set (enumerate 0 (nt_intents s))" "di_notification_id (snd r) = n"
    and "c \<in> set (enumerate 0 (nt_intents s))" "di_notification_id (snd c) \<noteq> n"
    and "di_route_reference (snd c) = di_route_reference (snd r)"
    and "same_condition x (cd_bytes (di_intent (snd c))) (cd_bytes (di_intent (snd r)))"
  shows "\<not> later_record c r"
proof
  assume later: "later_record c r"
  define newer where "newer = [c \<leftarrow> enumerate 0 (nt_intents s). list_ex (\<lambda>r. di_notification_id (snd r) = n \<and>
            di_route_reference (snd c) = di_route_reference (snd r) \<and> di_notification_id (snd c) \<noteq> di_notification_id (snd r) \<and>
            later_record c r \<and> same_condition x (cd_bytes (di_intent (snd c))) (cd_bytes (di_intent (snd r)))) (enumerate 0 (nt_intents s))]"
  have "c \<in> set newer" using assms(2-7) later by (auto simp: newer_def list_ex_iff)
  then obtain m where "m \<in> set newer" "\<forall>d \<in> set newer. \<not> later_record d m"
    using maximal_exists [of later_record newer] later_record_order by (metis empty_iff empty_set)
  moreover have "List.find (\<lambda>c. \<not> list_ex (\<lambda>d. later_record d c) newer) newer = None"
    using assms(1) by (simp add: notification_delivery_newer_same_condition_def Let_def newer_def)
  ultimately show False unfolding find_None_iff list_ex_iff by blast
qed

text \<open>The stable event identifier is not a member the destination fields are read from.\<close>

lemma pager_of_renamed:
  assumes "parse_submitted x (JObject (bt_insert ''stable_event_id'' v members)) = Ok (i, pager)"
    and "json_get (JObject members) ''schema'' = Some (JString INTENT_V2)"
    and "parse_retained x (JObject members) = Ok (i', pager')"
  shows "pager = pager'" and "\<exists>fds. pager = Some fds \<and> well_formed_condition (pg_condition fds)"
proof -
  have added: "map_of (bt_insert ''stable_event_id'' v members) k = map_of members k" if "k \<in> set V2_FIELDS" for k
    using that by (auto simp: V2_FIELDS_def bt_get_insert)
  have same: "foldl (\<lambda>m k. case map_of (bt_insert ''stable_event_id'' v members) k of None \<Rightarrow> m | Some v \<Rightarrow> bt_insert k v m) [] V2_FIELDS =
      foldl (\<lambda>m k. case map_of members k of None \<Rightarrow> m | Some v \<Rightarrow> bt_insert k v m) [] V2_FIELDS"
    by (rule foldl_cong) (simp_all only: added)
  have schema: "json_get (JObject (bt_insert ''stable_event_id'' v members)) ''schema'' = Some (JString INTENT_V2)"
    using assms(2) by (simp add: json_get_def bt_get_insert)
  have "INTENT_V2 \<noteq> INTENT_V1" by (simp add: INTENT_V1_def INTENT_V2_def)
  with assms schema same show "pager = pager'" "\<exists>fds. pager = Some fds \<and> well_formed_condition (pg_condition fds)"
    by (auto simp: parse_submitted_def parse_retained_def parse_intent_value_def Let_def and_then_Ok dest: validated_condition)
qed

section \<open>Properties\<close>

text \<open>
  C6. However submissions, local deliveries and legacy outbox writes interleave, and wherever
  processes stop, no two transport calls are for the same stable event and destination; and every call
  is for a retained intent, hands over the payload of its outbox row and has its claim on record, with no
  outcome or one.
\<close>

theorem at_most_one_dispatch:
  assumes "reachable x y routes sys"
  shows "distinct (map (\<lambda>c. identity_of (sy_custody sys) (dc_notification_id c)) (sy_calls sys)) \<and>
    (\<forall>c \<in> set (sy_calls sys). call_ok (sy_custody sys) c)"
proof -
  have ok: "custody_ok (sy_custody sys)" and ids: "distinct (map dc_notification_id (sy_calls sys))"
    and calls: "\<forall>c \<in> set (sy_calls sys). call_ok (sy_custody sys) c"
    using reachable_ok [OF assms] by (simp_all add: system_ok_def list_all_iff)
  have "inj_on (identity_of (sy_custody sys)) (set (map dc_notification_id (sy_calls sys)))"
    using calls by (auto simp: call_ok_def intro!: inj_onI identity_injective [OF ok])
  with ids have "distinct (map (identity_of (sy_custody sys)) (map dc_notification_id (sy_calls sys)))"
    by (simp only: distinct_map)
  with calls show ?thesis by (simp add: comp_def)
qed

text \<open>
  C17. A submission ends with an answer after at most one transport call, and it calls only when the
  caller enabled the network and the saved check of its receipt, if any, is current; it calls PagerDuty
  only for an intent of class page and with a well-formed routing key of the configured route.
\<close>

theorem submission_dispatches_only_when_allowed:
  "\<exists>r s' calls. submit_custody x y env routes s i pager document route_ref enable_network = (Done r, s', calls) \<and> length calls \<le> 1 \<and>
     (\<forall>c \<in> set calls. enable_network \<and> dc_notification_id c = ev_uuid env \<and> dc_transport c \<noteq> LocalFile \<and>
        expired_saved_check env (it_owner_receipt i) = None \<and>
        (dc_transport c = PagerDuty \<longrightarrow> is_page i \<and> (\<exists>route \<in> set routes. rc_reference route = route_ref \<and>
           rc_transport route = PagerDuty \<and> (\<exists>locator key. rc_routing_key_env route = Some locator \<and>
             ev_secret env locator = Some key \<and> valid_routing_key key))))"
proof (cases "submit_prepare x env routes s i pager document route_ref enable_network")
  case (Ready job)
  from run_ready [of env job 0 x y s] obtain r s' calls where
    run: "submit_custody x y env routes s i pager document route_ref enable_network = (Done r, s', calls)"
    and calls: "calls = [] \<or> calls = [the_call job] \<and> (rc_transport (jb_route job) \<noteq> LocalFile \<longrightarrow> dispatch_allowed env job)"
    unfolding submit_custody_def Ready ends_with_call_def by (auto simp: eval_nat_numeral)
  from calls submit_prepare_job [OF Ready] show ?thesis
    unfolding run by (auto simp: the_call_def dispatch_allowed_def)
qed (use submit_prepared [of s "[]" x env routes s i pager document route_ref enable_network] in
  \<open>auto simp: submit_custody_def run_done\<close>)

subsection \<open>Two submissions of one event\<close>

definition sample_route :: NotificationRouteConfig where
  "sample_route =
     \<lparr>rc_reference = ''oncall'', rc_transport = PagerDuty, rc_endpoint_secret_locator = None,
      rc_routing_key_env = Some ''NQ_ROUTING_KEY'', rc_local_inbox_directory = None, rc_timeout_ms = 5000,
      rc_max_response_bytes = 4096, rc_nightshift_attention_replay = None\<rparr>"

definition sample_environment :: "string \<Rightarrow> environment" where
  "sample_environment uuid =
     \<lparr>ev_uuid = uuid, ev_now = ''t1'', ev_checked_at = ''t2'', ev_later = ''t3'', ev_instant = 0, ev_rfc3339 = (\<lambda>_. None),
      ev_replay = (\<lambda>_ _ _. Err (Bail [''no replay''])), ev_secret = (\<lambda>_. Some sample_key), ev_client = (\<lambda>_. True),
      ev_dispatch = (\<lambda>_ _ _. Ok (Reported ''accepted'' (JObject []))), ev_inbox_root = (\<lambda>_. None),
      ev_inbox_write = \<lparr>iw_revalidates = True, iw_creates = True, iw_writes = True, iw_revalidates_again = True, iw_syncs = True\<rparr>\<rparr>"

abbreviation sample_submitted :: "string \<Rightarrow> CanonicalDocument" where
  "sample_submitted event \<equiv> \<lparr>cd_bytes = event, cd_digest = zero_digest\<rparr>"

definition sample_job :: "string \<Rightarrow> job" where
  "sample_job uuid = make_job (sample_environment uuid) sample_route (sample_intent ''event-1'') sample_detail
     (sample_submitted ''event-1'') False True []"

lemma sample_environment_fields:
  "ev_uuid (sample_environment uuid) = uuid" "ev_now (sample_environment uuid) = ''t1''" "ev_later (sample_environment uuid) = ''t3''"
  "ev_secret (sample_environment uuid) locator = Some sample_key" "ev_client (sample_environment uuid) t"
  "ev_dispatch (sample_environment uuid) kind secret bs = Ok (Reported ''accepted'' (JObject []))"
  by (simp_all add: sample_environment_def)

lemma sample_intent_fields:
  "it_stable_event_id (sample_intent event) = event" "it_destination_identity (sample_intent event) = ''pagerduty:oncall''"
  "it_route_reference (sample_intent event) = ''oncall''" "it_attention_kind (sample_intent event) = ''operator_assertion''"
  "it_attention_receipt_digest (sample_intent event) = None" "it_attention_policy_digest (sample_intent event) = zero_digest"
  "it_owner_receipt (sample_intent event) = None" "is_page (sample_intent event)"
  by (simp_all add: sample_intent_def is_page_def)

lemma sample_jcs:
  "jcs_to_vec sample_notification v = Ok (case json_get v ''stable_event_id'' of Some (JString t) \<Rightarrow> t | _ \<Rightarrow> ''{}'')"
  by (simp add: sample_notification_def)

lemma sample_renders:
  "render_pagerduty sample_notification (sample_intent event) sample_pager document = Ok sample_detail"
  by (simp add: render_pagerduty_def sample_pager_def Let_def pagerduty_payload_def put_some_def bt_from_def sample_detail_def
      sample_event_document [where bs = "''{}''"] sample_jcs json_get_def)

lemma sample_submission_prepares:
  "submit_prepare sample_notification (sample_environment uuid) [sample_route] empty_custody (sample_intent ''event-1'')
     (Some sample_pager) (sample_submitted ''event-1'') ''oncall'' True = Ready (sample_job uuid)"
  by (simp add: submit_prepare_def prepared_def sample_intent_fields find_route_def sample_route_def retained_duplicate_def
      notification_delivery_intent_by_identity_def find_identity_def empty_custody_def replay_nightshift_def sample_renders
      sample_job_def Let_def)

lemma sample_job_fields:
  "jb_id (sample_job uuid) = uuid" "jb_route (sample_job uuid) = sample_route" "jb_owner (sample_job uuid) = None"
  "jb_not_page (sample_job uuid) = False" "jb_network (sample_job uuid) = True"
  "di_notification_id (jb_intent (sample_job uuid)) = uuid"
  "di_stable_event_id (jb_intent (sample_job uuid)) = ''event-1''"
  "di_destination_identity (jb_intent (sample_job uuid)) = ''pagerduty:oncall''"
  "di_attention_kind (jb_intent (sample_job uuid)) = ''operator_assertion''"
  "di_attention_receipt_digest (jb_intent (sample_job uuid)) = None"
  "di_attention_policy_digest (jb_intent (sample_job uuid)) = zero_digest"
  "di_content_digest (jb_intent (sample_job uuid)) = zero_digest"
  "di_intent (jb_intent (sample_job uuid)) = sample_submitted ''event-1''"
  "ni_payload (jb_notification (sample_job uuid)) = sample_detail"
  "ni_finding_event_id (jb_notification (sample_job uuid)) = None" "ni_max_attempts (jb_notification (sample_job uuid)) = 1"
  by (simp_all add: sample_job_def make_job_def sample_intent_fields sample_environment_fields sample_detail_def)

definition held_custody :: "string \<Rightarrow> NotificationDeliveryEventInput list \<Rightarrow> custody" where
  "held_custody uuid events = empty_custody\<lparr>nt_outbox := [jb_notification (sample_job uuid)],
     nt_intents := [jb_intent (sample_job uuid)], nt_events := events\<rparr>"

lemma zero_digest_shape: "digest_shape zero_digest"
  by (simp add: digest_shape_def zero_digest_def)

lemma sample_retains:
  "retain_notification_delivery sample_sqlite empty_custody (jb_notification (sample_job uuid)) (jb_intent (sample_job uuid)) =
     Ok (held_custody uuid [], Inserted)"
  by (simp add: retain_notification_delivery_def zero_digest_ok sample_job_fields find_identity_def empty_custody_def insert_outbox_def
      insert_intent_def zero_digest_shape sample_sqlite_def held_custody_def)

definition sample_event :: "string \<Rightarrow> nat \<Rightarrow> string \<Rightarrow> string \<Rightarrow> NotificationDeliveryEventInput" where
  "sample_event uuid number at_time outcome = \<lparr>de_notification_id = uuid, de_event_number = number, de_occurred_at = at_time,
     de_outcome = outcome, de_detail = sample_detail\<rparr>"

lemma sample_appends:
  assumes "json_numbers detail = []" "json_get detail ''stable_event_id'' = None"
  shows "append_detail sample_notification sample_sqlite (held_custody uuid []) uuid 1 at_time ''claimed'' detail =
      Ok (held_custody uuid [sample_event uuid 1 at_time ''claimed''])"
    and "append_detail sample_notification sample_sqlite (held_custody uuid [sample_event uuid 1 t ''claimed'']) uuid 2 at_time ''accepted'' detail =
      Ok (held_custody uuid [sample_event uuid 1 t ''claimed'', sample_event uuid 2 at_time ''accepted''])"
proof -
  have "from_serializable sample_notification (Ok detail) = Ok sample_detail"
    using assms by (simp add: sample_detail_def sample_event_document sample_jcs)
  then show "append_detail sample_notification sample_sqlite (held_custody uuid []) uuid 1 at_time ''claimed'' detail =
      Ok (held_custody uuid [sample_event uuid 1 at_time ''claimed''])"
    and "append_detail sample_notification sample_sqlite (held_custody uuid [sample_event uuid 1 t ''claimed'']) uuid 2 at_time ''accepted'' detail =
      Ok (held_custody uuid [sample_event uuid 1 t ''claimed'', sample_event uuid 2 at_time ''accepted''])"
    by (simp_all add: append_detail_def append_notification_delivery_event_def event_triggers_def delivery_events_def held_custody_def
        sample_event_def sample_detail_def sample_sqlite_def terminal_def sample_job_fields empty_custody_def)
qed

definition sample_history :: "string \<Rightarrow> NotificationDeliveryEventInput list" where
  "sample_history uuid = [sample_event uuid 1 ''t1'' ''claimed'', sample_event uuid 2 ''t3'' ''accepted'']"

lemma sample_runs:
  "run_phases 4 sample_notification sample_sqlite (sample_environment uuid) (Ready (sample_job uuid)) empty_custody =
     (Done (Ok (delivery_answer uuid ''accepted'')), held_custody uuid (sample_history uuid),
      [\<lparr>dc_notification_id = uuid, dc_transport = PagerDuty, dc_bytes = ''{}''\<rparr>])"
proof -
  have key: "valid_routing_key sample_key"
    by (simp add: valid_routing_key_def sample_key_def list_all_iff is_ascii_hexdigit_def is_lower_hex_digit_def)
  have decide: "decide_network sample_notification sample_sqlite (sample_environment uuid) (held_custody uuid []) (sample_job uuid) =
      (Claimed (sample_job uuid) sample_key, held_custody uuid [sample_event uuid 1 ''t1'' ''claimed''])"
    using key by (simp add: decide_network_def sample_job_fields sample_environment_fields sample_route_def expired_saved_check_def
        saved_check_delivery_is_current_def claim_def sample_appends json_get_def del: One_nat_def)
  have routes: "rc_transport sample_route = PagerDuty" by (simp add: sample_route_def)
  have four: "(4 :: nat) = Suc (Suc (Suc (Suc 0)))" by simp
  show ?thesis
    unfolding four sample_history_def
    by (simp add: sample_retains decide sample_job_fields routes sample_environment_fields transport_outcome_def
        sample_appends settled_answer_def json_get_def del: One_nat_def) (simp add: sample_detail_def)
qed

lemma sample_repeats:
  "run_phases 4 sample_notification sample_sqlite (sample_environment other) (Ready (sample_job other)) (held_custody uuid (sample_history uuid)) =
     (Done (Ok (delivery_answer uuid ''accepted'')), held_custody uuid (sample_history uuid), [])"
proof -
  let ?s = "held_custody uuid (sample_history uuid)"
  have found: "find_identity ?s ''event-1'' ''pagerduty:oncall'' = Some (jb_intent (sample_job uuid))"
      "List.find (\<lambda>i. di_notification_id i = uuid) (nt_intents ?s) = Some (jb_intent (sample_job uuid))"
    by (simp_all add: find_identity_def held_custody_def sample_job_fields)
  have "delivery_events ?s uuid = sample_history uuid"
    by (simp add: delivery_events_def held_custody_def sample_history_def sample_event_def)
  then have "status_value (status_of ?s (jb_intent (sample_job uuid))) = delivery_answer uuid ''accepted''"
    by (simp add: status_of_def status_value_def delivery_answer_def sample_job_fields sample_history_def sample_event_def
        view_delivery_state_def terminal_def notification_delivery_state_def Let_def)
  moreover have "retain_notification_delivery sample_sqlite ?s (jb_notification (sample_job other)) (jb_intent (sample_job other)) =
      Ok (?s, Existing (status_of ?s (jb_intent (sample_job uuid))))"
    by (simp add: retain_notification_delivery_def zero_digest_ok sample_job_fields found notification_delivery_status_row_def)
  ultimately show ?thesis by (simp add: eval_nat_numeral)
qed

definition raced :: system where
  "raced = \<lparr>sy_custody = held_custody ''n-1'' (sample_history ''n-1''),
     sy_calls = [\<lparr>dc_notification_id = ''n-1'', dc_transport = PagerDuty, dc_bytes = ''{}''\<rparr>],
     sy_phases = [Done (Ok (delivery_answer ''n-1'' ''accepted'')), Done (Ok (delivery_answer ''n-1'' ''accepted''))]\<rparr>"

lemma raced_reachable: "reachable sample_notification sample_sqlite [sample_route] raced"
proof -
  let ?reach = "reachable sample_notification sample_sqlite [sample_route]"
  have "?reach \<lparr>sy_custody = empty_custody\<lparr>nt_finding_events := []\<rparr>, sy_calls = [], sy_phases = []\<rparr>" by (rule reachable.opened)
  then have "?reach \<lparr>sy_custody = empty_custody, sy_calls = [], sy_phases = []\<rparr>" by (simp add: empty_custody_def)
  from reachable.submits [OF this, of "sample_environment ''n-1''" "sample_intent ''event-1''" "Some sample_pager" "sample_submitted ''event-1''" "''oncall''" True]
  have "?reach \<lparr>sy_custody = empty_custody, sy_calls = [], sy_phases = [Ready (sample_job ''n-1'')]\<rparr>" by (simp add: sample_submission_prepares)
  from reachable.submits [OF this, of "sample_environment ''n-2''" "sample_intent ''event-1''" "Some sample_pager" "sample_submitted ''event-1''" "''oncall''" True]
  have two: "?reach \<lparr>sy_custody = empty_custody, sy_calls = [], sy_phases = [Ready (sample_job ''n-1''), Ready (sample_job ''n-2'')]\<rparr>"
    by (simp add: sample_submission_prepares)
  from reachable_run [OF two, of 0 4 "sample_environment ''n-1''"]
  have "?reach \<lparr>sy_custody = held_custody ''n-1'' (sample_history ''n-1''),
     sy_calls = [\<lparr>dc_notification_id = ''n-1'', dc_transport = PagerDuty, dc_bytes = ''{}''\<rparr>],
     sy_phases = [Done (Ok (delivery_answer ''n-1'' ''accepted'')), Ready (sample_job ''n-2'')]\<rparr>"
    by (simp add: sample_runs del: run_phases.simps)
  from reachable_run [OF this, of 1 4 "sample_environment ''n-2''"] show ?thesis
    by (simp add: sample_repeats raced_def del: run_phases.simps)
qed

text \<open>Both submissions read the empty store before either retained; one call is made and both answer with it.\<close>

theorem at_most_one_dispatch_witness:
  "reachable sample_notification sample_sqlite [sample_route] raced \<and>
   sy_calls raced = [\<lparr>dc_notification_id = ''n-1'', dc_transport = PagerDuty, dc_bytes = ''{}''\<rparr>] \<and>
   call_ok (sy_custody raced) \<lparr>dc_notification_id = ''n-1'', dc_transport = PagerDuty, dc_bytes = ''{}''\<rparr>"
  using raced_reachable at_most_one_dispatch [OF raced_reachable] by (simp add: raced_def)

theorem submission_dispatches_only_when_allowed_witness:
  "\<exists>r s'. submit_custody sample_notification sample_sqlite (sample_environment ''n-1'') [sample_route] empty_custody (sample_intent ''event-1'')
     (Some sample_pager) (sample_submitted ''event-1'') ''oncall'' True =
       (Done r, s', [\<lparr>dc_notification_id = ''n-1'', dc_transport = PagerDuty, dc_bytes = ''{}''\<rparr>]) \<and> is_page (sample_intent ''event-1'')"
  using submission_dispatches_only_when_allowed [of sample_notification sample_sqlite "sample_environment ''n-1''" "[sample_route]" empty_custody
      "sample_intent ''event-1''" "Some sample_pager" "sample_submitted ''event-1''" "''oncall''" True]
  by (simp add: submit_custody_def sample_submission_prepares sample_runs del: run_phases.simps)


lemma held_custody_ok: "custody_ok (held_custody uuid [])"
  by (simp add: custody_ok_def held_custody_def delivery_events_def numbered_def delivery_life_def sample_job_fields empty_custody_def)

lemma sample_resubmits:
  "prepare_resubmission sample_notification (held_custody ''n-1'' []) ''n-1'' ''event-2'' =
     Ok (sample_intent ''event-2'', Some sample_pager, sample_submitted ''event-2'')"
proof -
  have found: "notification_delivery_intent_by_id (held_custody ''n-1'' []) ''n-1'' = Some (sample_submitted ''event-1'')"
      "notification_delivery_newer_same_condition sample_notification (held_custody ''n-1'' []) ''n-1'' = None"
      "\<exists>status. notification_delivery_status_row (held_custody ''n-1'' []) ''n-1'' = Ok status \<and> ds_delivery_state status = ''pending''"
    by (simp_all add: notification_delivery_intent_by_id_def notification_delivery_newer_same_condition_def held_custody_def sample_job_fields
        notification_delivery_status_row_def status_of_def delivery_events_def notification_delivery_state_def view_delivery_state_def empty_custody_def)
  then obtain status where status: "notification_delivery_status_row (held_custody ''n-1'' []) ''n-1'' = Ok status"
      "ds_delivery_state status = ''pending''" by blast
  have members: "json_get (sample_intent_value ''event-1'') ''schema'' = Some (JString INTENT_V2)"
      "json_get (sample_intent_value ''event-1'') ''stable_event_id'' = Some (JString ''event-1'')"
    by (simp_all add: sample_intent_value_def json_get_def)
  have renamed: "(case sample_intent_value ''event-1'' of JObject members \<Rightarrow> JObject (bt_insert ''stable_event_id'' (JString ''event-2'') members)
      | _ \<Rightarrow> v) = sample_intent_value ''event-2''" for v
    by (simp add: sample_intent_value_def)
  show ?thesis
    by (simp add: prepare_resubmission_def bounded_def found status sample_fields members renamed Let_def sample_value_document MAX_INTENT_BYTES_def
        sample_intent_parses)
qed


end
