(* ===== verification/System_Contract.thy ===== *)
theory System_Contract
  imports Cut_Coherence Refusal_Carriers "HOL-Library.Multiset"
begin

text \<open>
  System specifications (\<open>crates/nq-system-contract/src/lib.rs\<close>): the draft from which cuts are
  compiled, its normal form and its validation.

  A \<open>BTreeSet\<close> of identifiers is an ascending list. The serializers of the documents are derived code
  and fields of \<open>contract_externals\<close>; the table of compiled profiles is an argument.
\<close>

section \<open>Documents\<close>

record SystemSpecV1 =
  sp_schema :: string
  sp_spec_id :: string
  sp_revision :: u32
  sp_title :: string
  sp_source_snapshots :: "SourceSnapshotV1 list"
  sp_targets :: "TargetV1 list"
  sp_components :: "ComponentV1 list"
  sp_dependencies :: "DependencyV1 list"
  sp_observation_obligations :: "ObservationObligationV1 list"
  sp_systems :: "SystemDefinitionV1 list"
  sp_authority :: AuthoritySemantics

record ScopeCutProposalBodyV1 =
  pp_cut_id :: string
  pp_source_spec :: SystemSpecReferenceV1
  pp_system :: SystemDefinitionV1
  pp_source_snapshots :: "SourceSnapshotV1 list"
  pp_targets :: "TargetV1 list"
  pp_components :: "ComponentV1 list"
  pp_dependencies :: "DependencyV1 list"
  pp_observation_obligations :: "ObservationObligationV1 list"
  pp_authority :: AuthoritySemantics

record ScopeCutProposalV1 =
  pr_schema :: string
  pr_proposal_digest :: Sha256Digest
  pr_proposal :: ScopeCutProposalBodyV1

record RatificationRecordBodyV1 =
  rb_ratified_by :: string
  rb_ratified_at :: instant
  rb_ratified_proposal_digest :: Sha256Digest

record ScopeCutReferenceV1 =
  cr_cut_id :: string
  cr_cut_digest :: Sha256Digest

record NqObservationProjectionBodyV1 =
  np_projection_id :: string
  np_scope_cut :: ScopeCutReferenceV1
  np_system_id :: string
  np_targets :: "TargetV1 list"
  np_components :: "ComponentV1 list"
  np_dependencies :: "DependencyV1 list"
  np_observation_obligations :: "ObservationObligationV1 list"
  np_authority :: AuthoritySemantics

record NqObservationProjectionV1 =
  nq_schema :: string
  nq_projection_digest :: Sha256Digest
  nq_projection :: NqObservationProjectionBodyV1

record PorterProjectionSelectionV1 =
  ps_target_ids :: "string list"
  ps_component_ids :: "string list"

record PorterActuationProjectionBodyV1 =
  po_projection_id :: string
  po_scope_cut :: ScopeCutReferenceV1
  po_system_id :: string
  po_actuation_targets :: "TargetV1 list"
  po_actuation_components :: "ComponentV1 list"
  po_affected_targets :: "TargetV1 list"
  po_affected_components :: "ComponentV1 list"
  po_boundary_dependencies :: "DependencyV1 list"
  po_verification_obligations :: "ObservationObligationV1 list"
  po_authority :: AuthoritySemantics

record PorterActuationProjectionV1 =
  pa_schema :: string
  pa_projection_digest :: Sha256Digest
  pa_projection :: PorterActuationProjectionBodyV1

datatype ContractError =
    InvalidIdentifier string
  | InvalidText string
  | WrongSchema string string
  | Cardinality string nat nat nat
  | Duplicate string string
  | UnknownReference string string
  | Orphan string string
  | ScopeEscape "string list"
  | InvalidValue string
  | NonCanonical string
  | DigestMismatch string
  | ProjectionCutMismatch
  | SourceSpecMismatch
  | RatificationProposalMismatch
  | RatificationRecordMismatch
  | ProfileMismatch "string list"
  | TooLarge nat nat
  | InvalidJson json_error
  | Canonicalization CanonicalizationError

record contract_externals = profile_externals +
  spec_to_value :: "SystemSpecV1 \<Rightarrow> (json, string) result"
  proposal_body_to_value :: "ScopeCutProposalBodyV1 \<Rightarrow> (json, string) result"
  proposal_to_value :: "ScopeCutProposalV1 \<Rightarrow> (json, string) result"
  ratification_body_to_value :: "RatificationRecordBodyV1 \<Rightarrow> (json, string) result"
  cut_body_to_value :: "ScopeCutBodyV1 \<Rightarrow> (json, string) result"
  cut_to_value :: "PublishedScopeCutV1 \<Rightarrow> (json, string) result"
  observation_body_to_value :: "NqObservationProjectionBodyV1 \<Rightarrow> (json, string) result"
  porter_body_to_value :: "PorterActuationProjectionBodyV1 \<Rightarrow> (json, string) result"
  spec_from_value :: "json \<Rightarrow> (SystemSpecV1, string) result"
  proposal_from_value :: "json \<Rightarrow> (ScopeCutProposalV1, string) result"
  cut_from_value :: "json \<Rightarrow> (PublishedScopeCutV1, string) result"
  observation_from_value :: "json \<Rightarrow> (NqObservationProjectionV1, string) result"
  porter_from_value :: "json \<Rightarrow> (PorterActuationProjectionV1, string) result"

definition SYSTEM_SPEC_SCHEMA :: string where
  "SYSTEM_SPEC_SCHEMA = ''nq.system_spec.v1''"

definition MAX_DOCUMENT_BYTES :: usize where
  "MAX_DOCUMENT_BYTES = 4 * 1048576"

definition MAX_SOURCES :: usize where
  "MAX_SOURCES = 1024"

definition MAX_TARGETS :: usize where
  "MAX_TARGETS = 1024"

definition MAX_SYSTEMS :: usize where
  "MAX_SYSTEMS = 1024"

definition MAX_COMPONENTS :: usize where
  "MAX_COMPONENTS = 4096"

definition MAX_DEPENDENCIES :: usize where
  "MAX_DEPENDENCIES = 8192"

definition MAX_OBSERVATION_OBLIGATIONS :: usize where
  "MAX_OBSERVATION_OBLIGATIONS = 4096"

definition MAX_ID_BYTES :: usize where
  "MAX_ID_BYTES = 255"

definition MAX_TEXT_BYTES :: usize where
  "MAX_TEXT_BYTES = 4096"

definition MAX_BINDING_VALUE_BYTES :: usize where
  "MAX_BINDING_VALUE_BYTES = 64 * 1024"

definition MAX_REQUIRED_COVERAGE :: usize where
  "MAX_REQUIRED_COVERAGE = 256"

definition MAX_FRESHNESS_SECONDS :: u64 where
  "MAX_FRESHNESS_SECONDS = 366 * 24 * 60 * 60"

section \<open>Bounded values\<close>

definition validate_id :: "string \<Rightarrow> (unit, ContractError) result" where
  "validate_id value = run_checks
     [refuse_if (value = [] \<or> MAX_ID_BYTES < length value) (InvalidIdentifier value),
      refuse_if (\<not> list_all (\<lambda>b. is_ascii_alphanumeric b \<or> b \<in> set ''._-:/@'') value) (InvalidIdentifier value)]"

definition validate_count :: "string \<Rightarrow> nat \<Rightarrow> nat \<Rightarrow> nat \<Rightarrow> (unit, ContractError) result" where
  "validate_count kind actual minimum maximum =
     refuse_if (actual < minimum \<or> maximum < actual) (Cardinality kind actual minimum maximum)"

definition display_confusing :: "nat \<Rightarrow> bool" where
  "display_confusing n \<longleftrightarrow>
     n \<in> {0xAD, 0x34F, 0x61C, 0x3164, 0xFEFF, 0xFFA0} \<or>
     list_ex (\<lambda>(first, final). first \<le> n \<and> n \<le> final)
       [(0x115F, 0x1160), (0x17B4, 0x17B5), (0x180B, 0x180F), (0x200B, 0x200F), (0x202A, 0x202E), (0x2060, 0x206F),
        (0xFE00, 0xFE0F), (0x1BCA0, 0x1BCA3), (0x1D173, 0x1D17A), (0xE0000, 0xE0FFF)]"

definition is_control :: "nat \<Rightarrow> bool" where
  "is_control n \<longleftrightarrow> n < 32 \<or> 127 \<le> n \<and> n < 160"

definition bounded_text :: "string \<Rightarrow> bool" where
  "bounded_text value \<longleftrightarrow>
     value \<noteq> [] \<and> length value \<le> MAX_TEXT_BYTES \<and>
     \<not> list_ex (\<lambda>c. is_control (code_point c) \<or> display_confusing (code_point c)) (utf8_chars value)"

definition validate_text :: "string \<Rightarrow> string \<Rightarrow> (unit, ContractError) result" where
  "validate_text kind value = refuse_if (\<not> bounded_text value) (InvalidText kind)"

definition validate_binding_value ::
  "'x externals_scheme \<Rightarrow> string \<Rightarrow> json \<Rightarrow> (unit, ContractError) result" where
  "validate_binding_value x kind value =
     and_then (map_err Canonicalization (canonical_json_bytes x value)) (\<lambda>bs. run_checks
       [refuse_if (MAX_BINDING_VALUE_BYTES < length bs) (ContractError.TooLarge (length bs) MAX_BINDING_VALUE_BYTES),
        refuse_if (as_object value = None) (InvalidText kind)])"

definition validate_size ::
  "'x externals_scheme \<Rightarrow> ('t \<Rightarrow> (json, string) result) \<Rightarrow> 't \<Rightarrow> (unit, ContractError) result" where
  "validate_size x to_value t =
     and_then (map_err Canonicalization (canonical_json_bytes_of x to_value t)) (\<lambda>bs.
     refuse_if (MAX_DOCUMENT_BYTES < length bs) (ContractError.TooLarge (length bs) MAX_DOCUMENT_BYTES))"

section \<open>Identifiers and references\<close>

fun unique_loop :: "string \<Rightarrow> string list \<Rightarrow> string list \<Rightarrow> (unit, ContractError) result" where
  "unique_loop kind seen [] = Ok ()"
| "unique_loop kind seen (v # vs) = (if v \<in> set seen then Err (Duplicate kind v) else unique_loop kind (v # seen) vs)"

definition unique_ids :: "string \<Rightarrow> string list \<Rightarrow> (string btree_set, ContractError) result" where
  "unique_ids kind vs = map_ok (\<lambda>_. bs_from vs) (unique_loop kind [] vs)"

fun validate_unique_refs_from ::
  "string \<Rightarrow> string btree_set \<Rightarrow> string list \<Rightarrow> string list \<Rightarrow> (unit, ContractError) result" where
  "validate_unique_refs_from kind available seen [] = Ok ()"
| "validate_unique_refs_from kind available seen (v # vs) =
     (if v \<notin> set available then Err (UnknownReference kind v)
      else if v \<in> set seen then Err (Duplicate kind v)
      else validate_unique_refs_from kind available (v # seen) vs)"

definition validate_unique_refs :: "string \<Rightarrow> string list \<Rightarrow> string btree_set \<Rightarrow> (unit, ContractError) result" where
  "validate_unique_refs kind vs available = validate_unique_refs_from kind available [] vs"

definition validate_nonempty_unique_refs :: "string \<Rightarrow> string list \<Rightarrow> string btree_set \<Rightarrow> (unit, ContractError) result" where
  "validate_nonempty_unique_refs kind vs available =
     (if vs = [] then Err (Cardinality kind 0 1 (2 ^ 64 - 1)) else validate_unique_refs kind vs available)"

definition require_reference :: "string \<Rightarrow> string \<Rightarrow> string btree_set \<Rightarrow> (unit, ContractError) result" where
  "require_reference kind v available = refuse_if (v \<notin> set available) (UnknownReference kind v)"

definition require_no_orphans :: "string \<Rightarrow> string btree_set \<Rightarrow> string list \<Rightarrow> (unit, ContractError) result" where
  "require_no_orphans kind available used =
     (case List.find (\<lambda>v. v \<notin> set used) available of None \<Rightarrow> Ok () | Some orphan \<Rightarrow> Err (Orphan kind orphan))"

definition require_schema :: "string \<Rightarrow> string \<Rightarrow> (unit, ContractError) result" where
  "require_schema actual expected = refuse_if (actual \<noteq> expected) (WrongSchema expected actual)"

section \<open>The normal form\<close>

definition normalized_target :: "TargetV1 \<Rightarrow> TargetV1" where
  "normalized_target t = t\<lparr>tg_source_snapshot_ids := sort (tg_source_snapshot_ids t)\<rparr>"

definition normalized_component :: "ComponentV1 \<Rightarrow> ComponentV1" where
  "normalized_component c = c\<lparr>cp_source_snapshot_ids := sort (cp_source_snapshot_ids c)\<rparr>"

definition normalized_dependency :: "DependencyV1 \<Rightarrow> DependencyV1" where
  "normalized_dependency d = d\<lparr>dp_source_snapshot_ids := sort (dp_source_snapshot_ids d)\<rparr>"

definition normalized_obligation :: "ObservationObligationV1 \<Rightarrow> ObservationObligationV1" where
  "normalized_obligation b = b\<lparr>ob_required_coverage := sort (ob_required_coverage b),
     ob_granted_capabilities := sort (ob_granted_capabilities b), ob_source_snapshot_ids := sort (ob_source_snapshot_ids b)\<rparr>"

definition normalized_system :: "SystemDefinitionV1 \<Rightarrow> SystemDefinitionV1" where
  "normalized_system sys = sys\<lparr>sd_target_ids := sort (sd_target_ids sys), sd_component_ids := sort (sd_component_ids sys),
     sd_dependency_ids := sort (sd_dependency_ids sys), sd_observation_obligation_ids := sort (sd_observation_obligation_ids sys),
     sd_source_snapshot_ids := sort (sd_source_snapshot_ids sys)\<rparr>"

definition normalized :: "SystemSpecV1 \<Rightarrow> SystemSpecV1" where
  "normalized spec = spec\<lparr>
     sp_source_snapshots := sort_key ss_source_snapshot_id (sp_source_snapshots spec),
     sp_targets := map normalized_target (sort_key tg_target_id (sp_targets spec)),
     sp_components := map normalized_component (sort_key cp_component_id (sp_components spec)),
     sp_dependencies := map normalized_dependency (sort_key dp_dependency_id (sp_dependencies spec)),
     sp_observation_obligations :=
       map normalized_obligation (sort_key ob_observation_obligation_id (sp_observation_obligations spec)),
     sp_systems := map normalized_system (sort_key sd_system_id (sp_systems spec))\<rparr>"

section \<open>Validation\<close>

definition validate_header :: "SystemSpecV1 \<Rightarrow> (unit, ContractError) result" where
  "validate_header spec = run_checks
     [require_schema (sp_schema spec) SYSTEM_SPEC_SCHEMA,
      refuse_if (sp_revision spec = 0) (InvalidValue ''revision must be positive''),
      validate_text ''spec title'' (sp_title spec),
      validate_count ''source snapshots'' (length (sp_source_snapshots spec)) 1 MAX_SOURCES,
      validate_count ''targets'' (length (sp_targets spec)) 1 MAX_TARGETS,
      validate_count ''systems'' (length (sp_systems spec)) 1 MAX_SYSTEMS,
      validate_count ''components'' (length (sp_components spec)) 1 MAX_COMPONENTS,
      validate_count ''dependencies'' (length (sp_dependencies spec)) 0 MAX_DEPENDENCIES,
      validate_count ''observation obligations'' (length (sp_observation_obligations spec)) 1 MAX_OBSERVATION_OBLIGATIONS]"

fun validate_dependencies ::
  "string btree_set \<Rightarrow> string btree_set \<Rightarrow> (string \<times> string) list \<Rightarrow> DependencyV1 list \<Rightarrow> (unit, ContractError) result" where
  "validate_dependencies component_ids source_ids pairs [] = Ok ()"
| "validate_dependencies component_ids source_ids pairs (d # ds) =
     (let pair = (dp_consumer_component_id d, dp_provider_component_id d) in
      and_then (run_checks
        [require_reference ''dependency consumer'' (fst pair) component_ids,
         require_reference ''dependency provider'' (snd pair) component_ids,
         refuse_if (fst pair = snd pair) (InvalidValue ''dependency consumer and provider must differ''),
         refuse_if (pair \<in> set pairs) (Duplicate ''dependency endpoint pair'' (fst pair @ ''->'' @ snd pair)),
         validate_nonempty_unique_refs ''dependency source snapshots'' (dp_source_snapshot_ids d) source_ids]) (\<lambda>_.
      validate_dependencies component_ids source_ids (pair # pairs) ds))"

definition canonical_version :: "string \<Rightarrow> bool" where
  "canonical_version t \<longleftrightarrow> (case parse_unsigned (2 ^ 32 - 1) t of None \<Rightarrow> False | Some v \<Rightarrow> 0 < v \<and> show_nat v = t)"

definition validate_obligation ::
  "'x externals_scheme \<Rightarrow> string btree_set \<Rightarrow> string btree_set \<Rightarrow> ObservationObligationV1 \<Rightarrow> (unit, ContractError) result" where
  "validate_obligation x component_ids source_ids b = run_checks
     [require_reference ''observation component'' (ob_component_id b) component_ids,
      refuse_if (ob_freshness_seconds b = 0 \<or> MAX_FRESHNESS_SECONDS < ob_freshness_seconds b)
        (InvalidValue ''freshness_seconds is outside the compiled bound''),
      refuse_if (\<not> canonical_version (pb_version (ob_profile b)))
        (InvalidValue ''profile version must be a positive canonical u32''),
      validate_count ''required coverage'' (length (ob_required_coverage b)) 1 MAX_REQUIRED_COVERAGE,
      map_ok (\<lambda>_. ()) (unique_ids ''required coverage'' (ob_required_coverage b)),
      validate_count ''granted capabilities'' (length (ob_granted_capabilities b)) 0 MAX_REQUIRED_COVERAGE,
      map_ok (\<lambda>_. ()) (unique_ids ''granted capability'' (ob_granted_capabilities b)),
      validate_nonempty_unique_refs ''observation source snapshots'' (ob_source_snapshot_ids b) source_ids,
      validate_binding_value x ''scope value'' (scope_value (sb_scope (ob_subject_binding b))),
      validate_binding_value x ''vantage value'' (vantage_value (sb_vantage (ob_subject_binding b)))]"

definition lookup :: "string \<Rightarrow> ('a \<Rightarrow> string) \<Rightarrow> 'a list \<Rightarrow> string \<Rightarrow> ('a, ContractError) result" where
  "lookup kind key items i = ok_or (UnknownReference kind i) (List.find (\<lambda>item. key item = i) items)"

record identities =
  id_sources :: "string btree_set"
  id_targets :: "string btree_set"
  id_components :: "string btree_set"
  id_dependencies :: "string btree_set"
  id_obligations :: "string btree_set"

definition validate_membership :: "SystemSpecV1 \<Rightarrow> identities \<Rightarrow> SystemDefinitionV1 \<Rightarrow> (unit, ContractError) result" where
  "validate_membership spec ids sys = run_checks
     ([validate_text ''system title'' (sd_title sys),
       validate_nonempty_unique_refs ''system targets'' (sd_target_ids sys) (id_targets ids),
       validate_nonempty_unique_refs ''system components'' (sd_component_ids sys) (id_components ids),
       validate_unique_refs ''system dependencies'' (sd_dependency_ids sys) (id_dependencies ids),
       validate_nonempty_unique_refs ''system observation obligations'' (sd_observation_obligation_ids sys) (id_obligations ids),
       validate_nonempty_unique_refs ''system source snapshots'' (sd_source_snapshot_ids sys) (id_sources ids)] @
      map (\<lambda>i. and_then (lookup ''system component'' cp_component_id (sp_components spec) i) (\<lambda>c.
          refuse_if (cp_hosted_on c \<notin> set (sd_target_ids sys))
            (ScopeEscape [''component is hosted outside system'', cp_component_id c, cp_hosted_on c, sd_system_id sys])))
        (sd_component_ids sys) @
      map (\<lambda>i. and_then (lookup ''system dependency'' dp_dependency_id (sp_dependencies spec) i) (\<lambda>d.
          refuse_if (dp_consumer_component_id d \<notin> set (sd_component_ids sys) \<or> dp_provider_component_id d \<notin> set (sd_component_ids sys))
            (ScopeEscape [''dependency crosses system component membership'', dp_dependency_id d, sd_system_id sys])))
        (sd_dependency_ids sys) @
      map (\<lambda>i. and_then (lookup ''system observation obligation'' ob_observation_obligation_id (sp_observation_obligations spec) i) (\<lambda>b.
          refuse_if (ob_component_id b \<notin> set (sd_component_ids sys))
            (ScopeEscape [''observation obligation names a component outside system'', ob_observation_obligation_id b, sd_system_id sys])))
        (sd_observation_obligation_ids sys))"

text \<open>The source snapshots a system uses, by its own citations and those of its members.\<close>

definition system_sources :: "SystemSpecV1 \<Rightarrow> SystemDefinitionV1 \<Rightarrow> (string list, ContractError) result" where
  "system_sources spec sys =
     and_then (collect_results (lookup ''system target'' tg_target_id (sp_targets spec)) (sd_target_ids sys)) (\<lambda>targets.
     and_then (collect_results (lookup ''system component'' cp_component_id (sp_components spec)) (sd_component_ids sys)) (\<lambda>components.
     and_then (collect_results (lookup ''system dependency'' dp_dependency_id (sp_dependencies spec)) (sd_dependency_ids sys)) (\<lambda>dependencies.
     and_then (collect_results (lookup ''system observation obligation'' ob_observation_obligation_id (sp_observation_obligations spec))
       (sd_observation_obligation_ids sys)) (\<lambda>obligations.
     Ok (sd_source_snapshot_ids sys @ concat (map tg_source_snapshot_ids targets) @ concat (map cp_source_snapshot_ids components) @
         concat (map dp_source_snapshot_ids dependencies) @ concat (map ob_source_snapshot_ids obligations))))))"

definition validate_systems :: "SystemSpecV1 \<Rightarrow> identities \<Rightarrow> (string list list, ContractError) result" where
  "validate_systems spec ids =
     collect_results (\<lambda>sys. and_then (validate_membership spec ids sys) (\<lambda>_. system_sources spec sys)) (sp_systems spec)"

definition spec_identities :: "SystemSpecV1 \<Rightarrow> (identities, ContractError) result" where
  "spec_identities spec =
     and_then (unique_ids ''source snapshot'' (map ss_source_snapshot_id (sp_source_snapshots spec))) (\<lambda>sources.
     and_then (unique_ids ''target'' (map tg_target_id (sp_targets spec))) (\<lambda>targets.
     and_then (unique_ids ''component'' (map cp_component_id (sp_components spec))) (\<lambda>components.
     and_then (unique_ids ''dependency'' (map dp_dependency_id (sp_dependencies spec))) (\<lambda>dependencies.
     and_then (unique_ids ''observation obligation'' (map ob_observation_obligation_id (sp_observation_obligations spec))) (\<lambda>obligations.
     and_then (unique_ids ''system'' (map sd_system_id (sp_systems spec))) (\<lambda>_.
     Ok \<lparr>id_sources = sources, id_targets = targets, id_components = components, id_dependencies = dependencies,
         id_obligations = obligations\<rparr>))))))"

definition validate_spec :: "'x contract_externals_scheme \<Rightarrow> SystemSpecV1 \<Rightarrow> (unit, ContractError) result" where
  "validate_spec x spec =
     and_then (validate_header spec) (\<lambda>_.
     and_then (spec_identities spec) (\<lambda>ids.
     and_then (run_checks
       (map (\<lambda>s. validate_text ''source provenance'' (ss_provenance s)) (sp_source_snapshots spec) @
        map (\<lambda>t. validate_nonempty_unique_refs ''target source snapshots'' (tg_source_snapshot_ids t) (id_sources ids)) (sp_targets spec) @
        map (\<lambda>c. run_checks
          [require_reference ''component host target'' (cp_hosted_on c) (id_targets ids),
           validate_nonempty_unique_refs ''component source snapshots'' (cp_source_snapshot_ids c) (id_sources ids)]) (sp_components spec))) (\<lambda>_.
     and_then (validate_dependencies (id_components ids) (id_sources ids) [] (sp_dependencies spec)) (\<lambda>_.
     and_then (run_checks (map (validate_obligation x (id_components ids) (id_sources ids)) (sp_observation_obligations spec))) (\<lambda>_.
     and_then (validate_systems spec ids) (\<lambda>sources.
     and_then (run_checks
       [require_no_orphans ''source snapshot'' (id_sources ids) (concat sources),
        require_no_orphans ''target'' (id_targets ids) (concat (map sd_target_ids (sp_systems spec))),
        require_no_orphans ''component'' (id_components ids) (concat (map sd_component_ids (sp_systems spec))),
        require_no_orphans ''dependency'' (id_dependencies ids) (concat (map sd_dependency_ids (sp_systems spec))),
        require_no_orphans ''observation obligation'' (id_obligations ids) (concat (map sd_observation_obligation_ids (sp_systems spec)))]) (\<lambda>_.
     validate_size x (spec_to_value x) (normalized spec))))))))"

definition spec_digest :: "'x contract_externals_scheme \<Rightarrow> SystemSpecV1 \<Rightarrow> (Sha256Digest, ContractError) result" where
  "spec_digest x spec =
     and_then (validate_spec x spec) (\<lambda>_. map_err Canonicalization (semantic_digest_of x (spec_to_value x) (normalized spec)))"

section \<open>What a valid specification is\<close>

definition refs_law :: "string set \<Rightarrow> string list \<Rightarrow> bool" where
  "refs_law S ids \<longleftrightarrow> ids \<noteq> [] \<and> distinct ids \<and> set ids \<subseteq> S"

definition binding_value_law :: "'x externals_scheme \<Rightarrow> json \<Rightarrow> bool" where
  "binding_value_law x v \<longleftrightarrow> (\<exists>es bs. v = JObject es \<and> canonical_json_bytes x v = Ok bs \<and> length bs \<le> MAX_BINDING_VALUE_BYTES)"

definition obligation_law :: "'x externals_scheme \<Rightarrow> ObservationObligationV1 \<Rightarrow> bool" where
  "obligation_law x b \<longleftrightarrow>
     0 < ob_freshness_seconds b \<and> ob_freshness_seconds b \<le> MAX_FRESHNESS_SECONDS \<and> canonical_version (pb_version (ob_profile b)) \<and>
     ob_required_coverage b \<noteq> [] \<and> length (ob_required_coverage b) \<le> MAX_REQUIRED_COVERAGE \<and> distinct (ob_required_coverage b) \<and>
     length (ob_granted_capabilities b) \<le> MAX_REQUIRED_COVERAGE \<and> distinct (ob_granted_capabilities b) \<and>
     binding_value_law x (scope_value (sb_scope (ob_subject_binding b))) \<and>
     binding_value_law x (vantage_value (sb_vantage (ob_subject_binding b)))"

abbreviation source_ids :: "SystemSpecV1 \<Rightarrow> string set" where
  "source_ids spec \<equiv> ss_source_snapshot_id ` set (sp_source_snapshots spec)"

abbreviation target_ids :: "SystemSpecV1 \<Rightarrow> string set" where
  "target_ids spec \<equiv> tg_target_id ` set (sp_targets spec)"

abbreviation component_ids :: "SystemSpecV1 \<Rightarrow> string set" where
  "component_ids spec \<equiv> cp_component_id ` set (sp_components spec)"

abbreviation dependency_ids :: "SystemSpecV1 \<Rightarrow> string set" where
  "dependency_ids spec \<equiv> dp_dependency_id ` set (sp_dependencies spec)"

abbreviation obligation_ids :: "SystemSpecV1 \<Rightarrow> string set" where
  "obligation_ids spec \<equiv> ob_observation_obligation_id ` set (sp_observation_obligations spec)"

text \<open>The members of a system in a specification.\<close>

definition members :: "('a \<Rightarrow> string) \<Rightarrow> 'a list \<Rightarrow> string list \<Rightarrow> 'a set" where
  "members key items ids = {item \<in> set items. key item \<in> set ids}"

definition used_sources :: "SystemSpecV1 \<Rightarrow> SystemDefinitionV1 \<Rightarrow> string set" where
  "used_sources spec sys =
     set (sd_source_snapshot_ids sys) \<union>
     (\<Union>t \<in> members tg_target_id (sp_targets spec) (sd_target_ids sys). set (tg_source_snapshot_ids t)) \<union>
     (\<Union>c \<in> members cp_component_id (sp_components spec) (sd_component_ids sys). set (cp_source_snapshot_ids c)) \<union>
     (\<Union>d \<in> members dp_dependency_id (sp_dependencies spec) (sd_dependency_ids sys). set (dp_source_snapshot_ids d)) \<union>
     (\<Union>b \<in> members ob_observation_obligation_id (sp_observation_obligations spec) (sd_observation_obligation_ids sys).
        set (ob_source_snapshot_ids b))"

definition system_closed :: "SystemSpecV1 \<Rightarrow> SystemDefinitionV1 \<Rightarrow> bool" where
  "system_closed spec sys \<longleftrightarrow>
     bounded_text (sd_title sys) \<and> refs_law (target_ids spec) (sd_target_ids sys) \<and>
     refs_law (component_ids spec) (sd_component_ids sys) \<and>
     distinct (sd_dependency_ids sys) \<and> set (sd_dependency_ids sys) \<subseteq> dependency_ids spec \<and>
     refs_law (obligation_ids spec) (sd_observation_obligation_ids sys) \<and>
     refs_law (source_ids spec) (sd_source_snapshot_ids sys) \<and>
     (\<forall>c \<in> members cp_component_id (sp_components spec) (sd_component_ids sys). cp_hosted_on c \<in> set (sd_target_ids sys)) \<and>
     (\<forall>d \<in> members dp_dependency_id (sp_dependencies spec) (sd_dependency_ids sys).
        dp_consumer_component_id d \<in> set (sd_component_ids sys) \<and> dp_provider_component_id d \<in> set (sd_component_ids sys)) \<and>
     (\<forall>b \<in> members ob_observation_obligation_id (sp_observation_obligations spec) (sd_observation_obligation_ids sys).
        ob_component_id b \<in> set (sd_component_ids sys))"

definition spec_bounds :: "SystemSpecV1 \<Rightarrow> bool" where
  "spec_bounds spec \<longleftrightarrow>
     sp_schema spec = SYSTEM_SPEC_SCHEMA \<and> sp_revision spec \<noteq> 0 \<and> bounded_text (sp_title spec) \<and>
     sp_source_snapshots spec \<noteq> [] \<and> length (sp_source_snapshots spec) \<le> MAX_SOURCES \<and>
     sp_targets spec \<noteq> [] \<and> length (sp_targets spec) \<le> MAX_TARGETS \<and>
     sp_systems spec \<noteq> [] \<and> length (sp_systems spec) \<le> MAX_SYSTEMS \<and>
     sp_components spec \<noteq> [] \<and> length (sp_components spec) \<le> MAX_COMPONENTS \<and>
     length (sp_dependencies spec) \<le> MAX_DEPENDENCIES \<and>
     sp_observation_obligations spec \<noteq> [] \<and> length (sp_observation_obligations spec) \<le> MAX_OBSERVATION_OBLIGATIONS"

definition spec_unique :: "SystemSpecV1 \<Rightarrow> bool" where
  "spec_unique spec \<longleftrightarrow>
     distinct (map ss_source_snapshot_id (sp_source_snapshots spec)) \<and> distinct (map tg_target_id (sp_targets spec)) \<and>
     distinct (map cp_component_id (sp_components spec)) \<and> distinct (map dp_dependency_id (sp_dependencies spec)) \<and>
     distinct (map ob_observation_obligation_id (sp_observation_obligations spec)) \<and> distinct (map sd_system_id (sp_systems spec))"

definition spec_references :: "'x externals_scheme \<Rightarrow> SystemSpecV1 \<Rightarrow> bool" where
  "spec_references x spec \<longleftrightarrow>
     (\<forall>s \<in> set (sp_source_snapshots spec). bounded_text (ss_provenance s)) \<and>
     (\<forall>t \<in> set (sp_targets spec). refs_law (source_ids spec) (tg_source_snapshot_ids t)) \<and>
     (\<forall>c \<in> set (sp_components spec). cp_hosted_on c \<in> target_ids spec \<and> refs_law (source_ids spec) (cp_source_snapshot_ids c)) \<and>
     (\<forall>d \<in> set (sp_dependencies spec). dp_consumer_component_id d \<in> component_ids spec \<and>
        dp_provider_component_id d \<in> component_ids spec \<and> dp_consumer_component_id d \<noteq> dp_provider_component_id d \<and>
        refs_law (source_ids spec) (dp_source_snapshot_ids d)) \<and>
     distinct (map (\<lambda>d. (dp_consumer_component_id d, dp_provider_component_id d)) (sp_dependencies spec)) \<and>
     (\<forall>b \<in> set (sp_observation_obligations spec). ob_component_id b \<in> component_ids spec \<and> obligation_law x b \<and>
        refs_law (source_ids spec) (ob_source_snapshot_ids b))"

definition spec_covered :: "SystemSpecV1 \<Rightarrow> bool" where
  "spec_covered spec \<longleftrightarrow>
     source_ids spec \<subseteq> (\<Union>sys \<in> set (sp_systems spec). used_sources spec sys) \<and>
     target_ids spec \<subseteq> (\<Union>sys \<in> set (sp_systems spec). set (sd_target_ids sys)) \<and>
     component_ids spec \<subseteq> (\<Union>sys \<in> set (sp_systems spec). set (sd_component_ids sys)) \<and>
     dependency_ids spec \<subseteq> (\<Union>sys \<in> set (sp_systems spec). set (sd_dependency_ids sys)) \<and>
     obligation_ids spec \<subseteq> (\<Union>sys \<in> set (sp_systems spec). set (sd_observation_obligation_ids sys))"

definition spec_law :: "'x externals_scheme \<Rightarrow> SystemSpecV1 \<Rightarrow> bool" where
  "spec_law x spec \<longleftrightarrow>
     spec_bounds spec \<and> spec_unique spec \<and> spec_references x spec \<and>
     (\<forall>sys \<in> set (sp_systems spec). system_closed spec sys) \<and> spec_covered spec"

subsection \<open>The checks decide it\<close>

lemma unique_loop_Ok: "unique_loop kind seen vs = Ok u \<longleftrightarrow> distinct vs \<and> set vs \<inter> set seen = {}"
  by (induction vs arbitrary: seen) auto

lemma unique_ids_Ok [checks]: "unique_ids kind vs = Ok ids \<longleftrightarrow> distinct vs \<and> ids = bs_from vs"
  by (auto simp: unique_ids_def unique_loop_Ok)

lemma unique_refs_from_Ok:
  "validate_unique_refs_from kind available seen vs = Ok u \<longleftrightarrow> distinct vs \<and> set vs \<inter> set seen = {} \<and> set vs \<subseteq> set available"
  by (induction vs arbitrary: seen) auto

lemma validate_unique_refs_Ok [checks]: "validate_unique_refs kind vs available = Ok u \<longleftrightarrow> distinct vs \<and> set vs \<subseteq> set available"
  by (simp add: validate_unique_refs_def unique_refs_from_Ok)

lemma nonempty_refs_Ok [checks]: "validate_nonempty_unique_refs kind vs available = Ok u \<longleftrightarrow> refs_law (set available) vs"
  by (auto simp: validate_nonempty_unique_refs_def validate_unique_refs_Ok refs_law_def)

lemma require_no_orphans_Ok [checks]: "require_no_orphans kind available used = Ok u \<longleftrightarrow> set available \<subseteq> set used"
proof (cases "List.find (\<lambda>v. v \<notin> set used) available")
  case (Some orphan)
  then have "orphan \<in> set available" "orphan \<notin> set used" by (auto simp: find_Some_iff)
  with Some show ?thesis by (auto simp: require_no_orphans_def)
next
  case None
  then have "set available \<subseteq> set used" by (auto simp: find_None_iff)
  with None show ?thesis by (simp add: require_no_orphans_def)
qed

lemma binding_value_Ok [checks]: "validate_binding_value x kind v = Ok u \<longleftrightarrow> binding_value_law x v"
  by (cases v) (auto simp: validate_binding_value_def binding_value_law_def and_then_Ok)

lemma small_checks_Ok [checks]:
  "validate_count kind n low_end high_end = Ok u \<longleftrightarrow> low_end \<le> n \<and> n \<le> high_end"
  "validate_text kind t = Ok u \<longleftrightarrow> bounded_text t"
  "require_reference kind v available = Ok u \<longleftrightarrow> v \<in> set available"
  "require_schema actual expected = Ok u \<longleftrightarrow> actual = expected"
  by (auto simp: validate_count_def validate_text_def require_reference_def require_schema_def not_less)

lemma validate_dependencies_Ok:
  "validate_dependencies C S pairs ds = Ok () \<longleftrightarrow>
     (\<forall>d \<in> set ds. dp_consumer_component_id d \<in> set C \<and> dp_provider_component_id d \<in> set C \<and>
        dp_consumer_component_id d \<noteq> dp_provider_component_id d \<and> refs_law (set S) (dp_source_snapshot_ids d)) \<and>
     distinct (map (\<lambda>d. (dp_consumer_component_id d, dp_provider_component_id d)) ds) \<and>
     (\<forall>d \<in> set ds. (dp_consumer_component_id d, dp_provider_component_id d) \<notin> set pairs)"
proof (induction ds arbitrary: pairs)
  case (Cons d ds)
  show ?case by (auto simp: Let_def and_then_Ok checks Cons.IH image_iff)
qed simp

lemma validate_obligation_Ok [checks]:
  "validate_obligation x C S b = Ok u \<longleftrightarrow>
     ob_component_id b \<in> set C \<and> obligation_law x b \<and> refs_law (set S) (ob_source_snapshot_ids b)"
  by (simp add: validate_obligation_def obligation_law_def checks word_gt_0 not_less Suc_le_eq) blast

lemma lookup_Ok:
  assumes "distinct (map key items)"
  shows "lookup kind key items i = Ok item \<longleftrightarrow> item \<in> set items \<and> key item = i"
proof -
  have "List.find (\<lambda>item. key item = i) items = Some item \<longleftrightarrow> item \<in> set items \<and> key item = i"
    using assms by (induction items) (auto simp: rev_image_eqI)
  then show ?thesis by (simp add: lookup_def)
qed

lemma lookup_all_Ok:
  assumes "distinct (map key items)" "set ids \<subseteq> key ` set items"
  obtains found where "collect_results (lookup kind key items) ids = Ok found" "set found = members key items ids"
proof -
  have "\<exists>found. collect_results (lookup kind key items) ids = Ok found \<and> set found = members key items ids"
    using assms(2)
  proof (induction ids)
    case (Cons i ids)
    then obtain item found where "item \<in> set items" "key item = i" "collect_results (lookup kind key items) ids = Ok found"
      "set found = members key items ids" by auto
    moreover from this have "lookup kind key items i = Ok item" by (simp add: lookup_Ok [OF assms(1)])
    moreover from assms(1) \<open>item \<in> set items\<close> \<open>key item = i\<close> have "members key items [i] = {item}"
      by (auto simp: members_def distinct_map dest: inj_onD)
    ultimately show ?case by (auto simp: members_def)
  qed (simp add: members_def)
  then show thesis using that by blast
qed

lemma lookup_each_Ok:
  assumes "distinct (map key items)" "set ids \<subseteq> key ` set items"
  shows "(\<forall>i \<in> set ids. and_then (lookup kind key items i) f = Ok ()) \<longleftrightarrow> (\<forall>item \<in> members key items ids. f item = Ok ())"
proof -
  have found: "and_then (lookup kind key items (key item)) f = f item" if "item \<in> members key items ids" for item
  proof -
    from that have "lookup kind key items (key item) = Ok item" by (simp add: lookup_Ok [OF assms(1)] members_def)
    then show ?thesis by simp
  qed
  have ids: "set ids = key ` members key items ids" using assms(2) by (auto simp: members_def)
  show ?thesis unfolding ids by (simp add: found)
qed

definition identities_of :: "SystemSpecV1 \<Rightarrow> identities" where
  "identities_of spec = \<lparr>id_sources = bs_from (map ss_source_snapshot_id (sp_source_snapshots spec)),
     id_targets = bs_from (map tg_target_id (sp_targets spec)), id_components = bs_from (map cp_component_id (sp_components spec)),
     id_dependencies = bs_from (map dp_dependency_id (sp_dependencies spec)),
     id_obligations = bs_from (map ob_observation_obligation_id (sp_observation_obligations spec))\<rparr>"

lemma spec_identities_Ok: "spec_identities spec = Ok ids \<longleftrightarrow> spec_unique spec \<and> ids = identities_of spec"
  by (auto simp: spec_identities_def and_then_Ok checks spec_unique_def identities_of_def)

lemma identities_sets:
  "set (id_sources (identities_of spec)) = source_ids spec" "set (id_targets (identities_of spec)) = target_ids spec"
  "set (id_components (identities_of spec)) = component_ids spec" "set (id_dependencies (identities_of spec)) = dependency_ids spec"
  "set (id_obligations (identities_of spec)) = obligation_ids spec"
  by (simp_all add: identities_of_def set_bs_from)

lemma validate_membership_Ok:
  assumes "spec_unique spec"
  shows "validate_membership spec (identities_of spec) sys = Ok u \<longleftrightarrow> system_closed spec sys"
proof -
  have unique: "distinct (map cp_component_id (sp_components spec))" "distinct (map dp_dependency_id (sp_dependencies spec))"
    "distinct (map ob_observation_obligation_id (sp_observation_obligations spec))"
    using assms by (simp_all add: spec_unique_def)
  show ?thesis
  proof (cases "refs_law (component_ids spec) (sd_component_ids sys) \<and> set (sd_dependency_ids sys) \<subseteq> dependency_ids spec \<and>
      refs_law (obligation_ids spec) (sd_observation_obligation_ids sys)")
    case True
    then have inside: "set (sd_component_ids sys) \<subseteq> component_ids spec" "set (sd_dependency_ids sys) \<subseteq> dependency_ids spec"
        "set (sd_observation_obligation_ids sys) \<subseteq> obligation_ids spec"
      by (simp_all add: refs_law_def)
    show ?thesis
      unfolding validate_membership_def run_checks_append_Ok run_checks_map_Ok lookup_each_Ok [OF unique(1) inside(1)]
        lookup_each_Ok [OF unique(2) inside(2)] lookup_each_Ok [OF unique(3) inside(3)]
      using True by (simp add: checks identities_sets system_closed_def)
  next
    case False
    then show ?thesis by (auto simp: validate_membership_def run_checks_append_Ok checks identities_sets system_closed_def)
  qed
qed

lemma system_sources_Ok:
  assumes "spec_unique spec" "system_closed spec sys"
  obtains cited where "system_sources spec sys = Ok cited" "set cited = used_sources spec sys"
proof -
  have unique: "distinct (map tg_target_id (sp_targets spec))" "distinct (map cp_component_id (sp_components spec))"
    "distinct (map dp_dependency_id (sp_dependencies spec))"
    "distinct (map ob_observation_obligation_id (sp_observation_obligations spec))"
    using assms(1) by (simp_all add: spec_unique_def)
  have inside: "set (sd_target_ids sys) \<subseteq> target_ids spec" "set (sd_component_ids sys) \<subseteq> component_ids spec"
    "set (sd_dependency_ids sys) \<subseteq> dependency_ids spec" "set (sd_observation_obligation_ids sys) \<subseteq> obligation_ids spec"
    using assms(2) by (simp_all add: system_closed_def refs_law_def)
  obtain ts where ts: "collect_results (lookup ''system target'' tg_target_id (sp_targets spec)) (sd_target_ids sys) = Ok ts"
      "set ts = members tg_target_id (sp_targets spec) (sd_target_ids sys)"
    by (rule lookup_all_Ok [OF unique(1) inside(1)])
  obtain cs where cs: "collect_results (lookup ''system component'' cp_component_id (sp_components spec)) (sd_component_ids sys) = Ok cs"
      "set cs = members cp_component_id (sp_components spec) (sd_component_ids sys)"
    by (rule lookup_all_Ok [OF unique(2) inside(2)])
  obtain ds where ds: "collect_results (lookup ''system dependency'' dp_dependency_id (sp_dependencies spec)) (sd_dependency_ids sys) = Ok ds"
      "set ds = members dp_dependency_id (sp_dependencies spec) (sd_dependency_ids sys)"
    by (rule lookup_all_Ok [OF unique(3) inside(3)])
  obtain bs where bs: "collect_results (lookup ''system observation obligation'' ob_observation_obligation_id (sp_observation_obligations spec))
        (sd_observation_obligation_ids sys) = Ok bs"
      "set bs = members ob_observation_obligation_id (sp_observation_obligations spec) (sd_observation_obligation_ids sys)"
    by (rule lookup_all_Ok [OF unique(4) inside(4)])
  let ?cited = "sd_source_snapshot_ids sys @ concat (map tg_source_snapshot_ids ts) @ concat (map cp_source_snapshot_ids cs) @
      concat (map dp_source_snapshot_ids ds) @ concat (map ob_source_snapshot_ids bs)"
  have "system_sources spec sys = Ok ?cited" by (simp add: system_sources_def ts cs ds bs)
  moreover have "set ?cited = used_sources spec sys" by (simp add: used_sources_def ts cs ds bs Un_assoc)
  ultimately show thesis by (rule that)
qed

lemma validate_systems_Ok:
  assumes "spec_unique spec"
  shows "is_ok (validate_systems spec (identities_of spec)) \<longleftrightarrow> (\<forall>sys \<in> set (sp_systems spec). system_closed spec sys)"
    and "validate_systems spec (identities_of spec) = Ok cited \<Longrightarrow> set (concat cited) = (\<Union>sys \<in> set (sp_systems spec). used_sources spec sys)"
proof -
  define step where "step = (\<lambda>sys. and_then (validate_membership spec (identities_of spec) sys) (\<lambda>_. system_sources spec sys))"
  have closed: "\<exists>l. step sys = Ok l \<and> set l = used_sources spec sys" if c: "system_closed spec sys" for sys
  proof -
    obtain l where "system_sources spec sys = Ok l" "set l = used_sources spec sys" by (rule system_sources_Ok [OF assms c])
    with c show ?thesis by (simp add: step_def and_then_Ok validate_membership_Ok [OF assms])
  qed
  have step: "system_closed spec sys \<and> set l = used_sources spec sys" if "step sys = Ok l" for sys l
  proof -
    from that have "system_closed spec sys" by (simp add: step_def and_then_Ok validate_membership_Ok [OF assms])
    with closed [OF this] that show ?thesis by auto
  qed
  have "is_ok (collect_results step systems) \<longleftrightarrow> (\<forall>sys \<in> set systems. system_closed spec sys)" for systems
  proof (induction systems)
    case (Cons sys systems)
    show ?case
    proof (cases "step sys")
      case (Ok l)
      with step [of sys l] Cons show ?thesis by (cases "collect_results step systems") auto
    qed (use closed [of sys] in auto)
  qed simp
  moreover have "collect_results step systems = Ok cited \<Longrightarrow> set (concat cited) = (\<Union>sys \<in> set systems. used_sources spec sys)" for systems cited
  proof (induction systems arbitrary: cited)
    case (Cons sys systems)
    then obtain l rest where "step sys = Ok l" "collect_results step systems = Ok rest" "cited = l # rest" by (auto simp: and_then_Ok)
    with Cons.IH [of rest] step [of sys l] show ?case by simp
  qed simp
  ultimately show "is_ok (validate_systems spec (identities_of spec)) \<longleftrightarrow> (\<forall>sys \<in> set (sp_systems spec). system_closed spec sys)"
    and "validate_systems spec (identities_of spec) = Ok cited \<Longrightarrow> set (concat cited) = (\<Union>sys \<in> set (sp_systems spec). used_sources spec sys)"
    by (simp_all add: validate_systems_def step_def)
qed

lemma validate_header_Ok [checks]: "validate_header spec = Ok u \<longleftrightarrow> spec_bounds spec"
  by (simp add: validate_header_def checks spec_bounds_def Suc_le_eq)

lemma validate_spec_Ok:
  "validate_spec x spec = Ok () \<longleftrightarrow> spec_law x spec \<and> validate_size x (spec_to_value x) (normalized spec) = Ok ()"
proof (cases "spec_bounds spec \<and> spec_unique spec")
  case True
  note unique = True [THEN conjunct2]
  show ?thesis
  proof (cases "validate_systems spec (identities_of spec)")
    case (Ok cited)
    have closed: "\<forall>sys \<in> set (sp_systems spec). system_closed spec sys" using validate_systems_Ok(1) [OF unique] Ok by simp
    show ?thesis
      using True closed validate_systems_Ok(2) [OF unique Ok]
      by (simp add: validate_spec_def and_then_Ok checks spec_identities_Ok identities_sets Ok validate_dependencies_Ok
          spec_law_def spec_references_def spec_covered_def)
  next
    case (Err e)
    have "\<not> (\<forall>sys \<in> set (sp_systems spec). system_closed spec sys)" using validate_systems_Ok(1) [OF unique] Err by simp
    with True Err show ?thesis
      by (auto simp: validate_spec_def and_then_Ok spec_identities_Ok spec_law_def)
  qed
qed (auto simp: validate_spec_def and_then_Ok checks spec_identities_Ok spec_law_def)

text \<open>Only the size of the document is left to check of a specification that keeps the law.\<close>

lemma validate_spec_law:
  assumes "spec_law x spec"
  shows "validate_spec x spec = validate_size x (spec_to_value x) (normalized spec)"
proof -
  from assms have unique: "spec_unique spec" and closed: "\<forall>sys \<in> set (sp_systems spec). system_closed spec sys"
    and refs: "spec_references x spec" and covered: "spec_covered spec" and bounds: "validate_header spec = Ok ()"
    by (simp_all add: spec_law_def checks)
  from closed validate_systems_Ok(1) [OF unique] obtain cited where systems: "validate_systems spec (identities_of spec) = Ok cited"
    by (cases "validate_systems spec (identities_of spec)") auto
  have ids: "spec_identities spec = Ok (identities_of spec)" using unique by (simp add: spec_identities_Ok)
  have dependencies: "validate_dependencies (id_components (identities_of spec)) (id_sources (identities_of spec)) [] (sp_dependencies spec) = Ok ()"
    using refs by (simp add: validate_dependencies_Ok identities_sets spec_references_def)
  have obligations: "run_checks (map (validate_obligation x (id_components (identities_of spec)) (id_sources (identities_of spec)))
      (sp_observation_obligations spec)) = Ok ()"
    using refs by (simp add: checks identities_sets spec_references_def)
  have objects: "run_checks
       (map (\<lambda>s. validate_text ''source provenance'' (ss_provenance s)) (sp_source_snapshots spec) @
        map (\<lambda>t. validate_nonempty_unique_refs ''target source snapshots'' (tg_source_snapshot_ids t) (id_sources (identities_of spec))) (sp_targets spec) @
        map (\<lambda>c. run_checks
          [require_reference ''component host target'' (cp_hosted_on c) (id_targets (identities_of spec)),
           validate_nonempty_unique_refs ''component source snapshots'' (cp_source_snapshot_ids c) (id_sources (identities_of spec))])
          (sp_components spec)) = Ok ()"
    using refs by (simp add: checks identities_sets spec_references_def)
  have orphans: "run_checks
       [require_no_orphans ''source snapshot'' (id_sources (identities_of spec)) (concat cited),
        require_no_orphans ''target'' (id_targets (identities_of spec)) (concat (map sd_target_ids (sp_systems spec))),
        require_no_orphans ''component'' (id_components (identities_of spec)) (concat (map sd_component_ids (sp_systems spec))),
        require_no_orphans ''dependency'' (id_dependencies (identities_of spec)) (concat (map sd_dependency_ids (sp_systems spec))),
        require_no_orphans ''observation obligation'' (id_obligations (identities_of spec))
          (concat (map sd_observation_obligation_ids (sp_systems spec)))] = Ok ()"
    using covered validate_systems_Ok(2) [OF unique systems]
    by (simp add: checks identities_sets spec_covered_def)
  show ?thesis
    by (simp only: validate_spec_def bounds ids objects dependencies obligations systems orphans and_then_simps)
qed

section \<open>The normal form keeps the law\<close>

lemma distinct_map_sort [simp]: "distinct (map f (sort_key k xs)) \<longleftrightarrow> distinct (map f xs)"
  by (metis mset_eq_imp_distinct_iff mset_map mset_sort)

lemma sort_key_Nil [simp]: "sort_key k xs = [] \<longleftrightarrow> xs = []"
  by (metis length_0_conv length_sort)

lemma refs_law_sort [simp]: "refs_law S (sort ids) \<longleftrightarrow> refs_law S ids"
  by (simp add: refs_law_def)

lemma normalized_ids [simp]:
  "tg_target_id (normalized_target t) = tg_target_id t" "cp_component_id (normalized_component c) = cp_component_id c"
  "cp_hosted_on (normalized_component c) = cp_hosted_on c" "dp_dependency_id (normalized_dependency d) = dp_dependency_id d"
  "dp_consumer_component_id (normalized_dependency d) = dp_consumer_component_id d"
  "dp_provider_component_id (normalized_dependency d) = dp_provider_component_id d"
  "ob_observation_obligation_id (normalized_obligation b) = ob_observation_obligation_id b"
  "ob_component_id (normalized_obligation b) = ob_component_id b"
  "sd_system_id (normalized_system sys) = sd_system_id sys" "sd_title (normalized_system sys) = sd_title sys"
  by (simp_all add: normalized_target_def normalized_component_def normalized_dependency_def normalized_obligation_def normalized_system_def)

lemma normalized_refs [simp]:
  "tg_source_snapshot_ids (normalized_target t) = sort (tg_source_snapshot_ids t)"
  "cp_source_snapshot_ids (normalized_component c) = sort (cp_source_snapshot_ids c)"
  "dp_source_snapshot_ids (normalized_dependency d) = sort (dp_source_snapshot_ids d)"
  "ob_source_snapshot_ids (normalized_obligation b) = sort (ob_source_snapshot_ids b)"
  "sd_target_ids (normalized_system sys) = sort (sd_target_ids sys)"
  "sd_component_ids (normalized_system sys) = sort (sd_component_ids sys)"
  "sd_dependency_ids (normalized_system sys) = sort (sd_dependency_ids sys)"
  "sd_observation_obligation_ids (normalized_system sys) = sort (sd_observation_obligation_ids sys)"
  "sd_source_snapshot_ids (normalized_system sys) = sort (sd_source_snapshot_ids sys)"
  by (simp_all add: normalized_target_def normalized_component_def normalized_dependency_def normalized_obligation_def normalized_system_def)

lemma obligation_law_normalized [simp]: "obligation_law x (normalized_obligation b) \<longleftrightarrow> obligation_law x b"
  by (simp add: obligation_law_def normalized_obligation_def)

lemma normalized_lists [simp]:
  "sp_source_snapshots (normalized spec) = sort_key ss_source_snapshot_id (sp_source_snapshots spec)"
  "sp_targets (normalized spec) = map normalized_target (sort_key tg_target_id (sp_targets spec))"
  "sp_components (normalized spec) = map normalized_component (sort_key cp_component_id (sp_components spec))"
  "sp_dependencies (normalized spec) = map normalized_dependency (sort_key dp_dependency_id (sp_dependencies spec))"
  "sp_observation_obligations (normalized spec) =
     map normalized_obligation (sort_key ob_observation_obligation_id (sp_observation_obligations spec))"
  "sp_systems (normalized spec) = map normalized_system (sort_key sd_system_id (sp_systems spec))"
  "sp_schema (normalized spec) = sp_schema spec" "sp_revision (normalized spec) = sp_revision spec" "sp_title (normalized spec) = sp_title spec"
  "sp_spec_id (normalized spec) = sp_spec_id spec" "sp_authority (normalized spec) = sp_authority spec"
  by (simp_all add: normalized_def)

lemma members_normalized:
  assumes "\<And>item. key (tidy item) = key item"
  shows "members key (map tidy (sort_key k items)) (sort ids) = tidy ` members key items ids"
  using assms by (auto simp: members_def)

lemmas normalized_members =
  members_normalized [where key = tg_target_id and tidy = normalized_target, OF normalized_ids(1)]
  members_normalized [where key = cp_component_id and tidy = normalized_component, OF normalized_ids(2)]
  members_normalized [where key = dp_dependency_id and tidy = normalized_dependency, OF normalized_ids(4)]
  members_normalized [where key = ob_observation_obligation_id and tidy = normalized_obligation, OF normalized_ids(7)]

lemma used_sources_normalized [simp]: "used_sources (normalized spec) (normalized_system sys) = used_sources spec sys"
  by (simp add: used_sources_def normalized_members)

lemma system_closed_normalized [simp]: "system_closed (normalized spec) (normalized_system sys) \<longleftrightarrow> system_closed spec sys"
  by (simp add: system_closed_def normalized_members image_image)

lemma spec_law_normalized: "spec_law x (normalized spec) \<longleftrightarrow> spec_law x spec"
proof -
  have "spec_bounds (normalized spec) \<longleftrightarrow> spec_bounds spec" by (simp add: spec_bounds_def)
  moreover have "spec_unique (normalized spec) \<longleftrightarrow> spec_unique spec" by (simp add: spec_unique_def comp_def)
  moreover have "spec_references x (normalized spec) \<longleftrightarrow> spec_references x spec"
    by (simp add: spec_references_def image_image comp_def)
  moreover have "spec_covered (normalized spec) \<longleftrightarrow> spec_covered spec" by (simp add: spec_covered_def image_image)
  ultimately show ?thesis by (simp add: spec_law_def)
qed

lemma normalized_twice:
  "normalized_target (normalized_target t) = normalized_target t" "normalized_component (normalized_component c) = normalized_component c"
  "normalized_dependency (normalized_dependency d) = normalized_dependency d"
  "normalized_obligation (normalized_obligation b) = normalized_obligation b" "normalized_system (normalized_system sys) = normalized_system sys"
  by (simp_all add: normalized_target_def normalized_component_def normalized_dependency_def normalized_obligation_def normalized_system_def
      sorted_sort_id)

lemma tidy_sort_unique:
  assumes "\<And>item. key (tidy item) = key item" "distinct (map key xs)"
    and same: "image_mset tidy (mset xs) = image_mset tidy (mset ys)"
  shows "map tidy (sort_key key xs) = map tidy (sort_key key ys)"
proof -
  have keys: "map key (map tidy zs) = map key zs" for zs using assms(1) by simp
  have "mset (map tidy xs) = mset (map tidy ys)" using same by simp
  then have "mset (map key (map tidy xs)) = mset (map key (map tidy ys))" by (simp only: mset_map)
  then have distinct: "distinct (map key ys)" unfolding keys using assms(2) by (metis mset_eq_imp_distinct_iff)
  have sets: "set (map tidy (sort_key key xs)) = set (map tidy (sort_key key ys))"
    using same by (metis (no_types, lifting) mset_map mset_sort set_mset_mset)
  show ?thesis
  proof (rule map_sorted_distinct_set_unique [where f = key])
    show "inj_on key (set (map tidy (sort_key key xs)) \<union> set (map tidy (sort_key key ys)))"
      using assms(2) keys [of "sort_key key xs"] unfolding sets by (metis distinct distinct_map distinct_map_sort keys sets sup.idem)
  qed (unfold keys, use assms(2) distinct sets in simp_all)
qed

definition reordered :: "SystemSpecV1 \<Rightarrow> SystemSpecV1 \<Rightarrow> bool" where
  "reordered a b \<longleftrightarrow>
     (sp_schema a, sp_spec_id a, sp_revision a, sp_title a, sp_authority a) = (sp_schema b, sp_spec_id b, sp_revision b, sp_title b, sp_authority b) \<and>
     mset (sp_source_snapshots a) = mset (sp_source_snapshots b) \<and>
     image_mset normalized_target (mset (sp_targets a)) = image_mset normalized_target (mset (sp_targets b)) \<and>
     image_mset normalized_component (mset (sp_components a)) = image_mset normalized_component (mset (sp_components b)) \<and>
     image_mset normalized_dependency (mset (sp_dependencies a)) = image_mset normalized_dependency (mset (sp_dependencies b)) \<and>
     image_mset normalized_obligation (mset (sp_observation_obligations a)) =
       image_mset normalized_obligation (mset (sp_observation_obligations b)) \<and>
     image_mset normalized_system (mset (sp_systems a)) = image_mset normalized_system (mset (sp_systems b))"

lemma reordered_sym: "reordered a b \<longleftrightarrow> reordered b a"
  by (auto simp: reordered_def)

lemma reordered_normalized:
  assumes "spec_unique a" "reordered a b"
  shows "normalized a = normalized b"
proof -
  have "sort_key ss_source_snapshot_id (sp_source_snapshots a) = sort_key ss_source_snapshot_id (sp_source_snapshots b)"
    using tidy_sort_unique [of ss_source_snapshot_id "\<lambda>s. s" "sp_source_snapshots a" "sp_source_snapshots b"] assms
    by (simp add: spec_unique_def reordered_def)
  with assms show ?thesis
    unfolding spec_unique_def reordered_def normalized_def
    by (simp add: tidy_sort_unique [where tidy = normalized_target and ys = "sp_targets b"]
        tidy_sort_unique [where tidy = normalized_component and ys = "sp_components b"]
        tidy_sort_unique [where tidy = normalized_dependency and ys = "sp_dependencies b"]
        tidy_sort_unique [where tidy = normalized_obligation and ys = "sp_observation_obligations b"]
        tidy_sort_unique [where tidy = normalized_system and ys = "sp_systems b"])
qed

lemma validate_spec_reordered:
  assumes "reordered a b" "validate_spec x a = Ok ()"
  shows "validate_spec x b = Ok ()" "normalized a = normalized b"
proof -
  from assms(2) have law: "spec_law x a" "validate_size x (spec_to_value x) (normalized a) = Ok ()"
    unfolding validate_spec_Ok by simp_all
  then have "spec_unique a" by (simp add: spec_law_def)
  from reordered_normalized [OF this assms(1)] show same: "normalized a = normalized b" .
  with law spec_law_normalized [of x a] spec_law_normalized [of x b] show "validate_spec x b = Ok ()"
    unfolding validate_spec_Ok by simp
qed

end
