(* ===== verification/Scope_Cut.thy ===== *)
theory Scope_Cut
  imports System_Contract
begin

text \<open>
  Proposals, published cuts and their projections (\<open>crates/nq-system-contract/src/lib.rs\<close>): what is
  compiled from a specification, what is verified of it, and the two consumer projections.

  The compiled profiles are an argument: each with its descriptor and its binding check.
\<close>

section \<open>Compiled profiles\<close>

record compiled_profile =
  cf_descriptor :: ProfileDescriptor
  cf_validate_binding :: "ValidationContext \<Rightarrow> (unit, ProfileRefusal) result"

definition obligation_context :: "ProfileDescriptor \<Rightarrow> ObservationObligationV1 \<Rightarrow> ValidationContext" where
  "obligation_context descriptor b =
     (let binding = ob_subject_binding b in
      \<lparr>ctx_instance_id = ob_instance_id b, ctx_request_subject = sb_subject binding,
       ctx_scope = \<lparr>sg_kind = scope_kind (sb_scope binding), sg_value = scope_value (sb_scope binding)\<rparr>,
       ctx_vantage = \<lparr>vg_kind = vantage_kind (sb_vantage binding), vg_value = vantage_value (sb_vantage binding)\<rparr>,
       ctx_granted_capabilities = bs_from (ob_granted_capabilities b), ctx_received_at = 0,
       ctx_max_observations = lim_max_observations (pd_limits descriptor), ctx_max_future_skew = 0\<rparr>)"

definition validate_compiled_profile ::
  "'x contract_externals_scheme \<Rightarrow> compiled_profile list \<Rightarrow> ObservationObligationV1 \<Rightarrow> (unit, ContractError) result" where
  "validate_compiled_profile x profiles b =
     (let i = ob_observation_obligation_id b; binding = ob_profile b in
      and_then (ok_or (ProfileMismatch [''profile version did not survive structural validation'']) (parse_unsigned (2 ^ 32 - 1) (pb_version binding))) (\<lambda>version.
      and_then (ok_or (ProfileMismatch [''obligation names profile not compiled into this binary'', i, pb_id binding, show_nat version])
        (List.find (\<lambda>p. pk_id (pd_profile (cf_descriptor p)) = pb_id binding \<and> unat (pk_version (pd_profile (cf_descriptor p))) = version) profiles)) (\<lambda>profile.
      let descriptor = cf_descriptor profile in
      and_then (map_err (\<lambda>e. ProfileMismatch [''cannot identify compiled profile'', show_DescriptorError e]) (descriptor_digest x descriptor)) (\<lambda>digest.
      and_then (run_checks
        [refuse_if (digest \<noteq> pb_digest binding) (ProfileMismatch [''obligation profile descriptor digest does not match compiled'', i]),
         refuse_if (reliance_seconds (pd_freshness descriptor) < ob_freshness_seconds b)
           (ProfileMismatch [''obligation freshness expands compiled profile reliance'', i]),
         refuse_if (set (ob_required_coverage b) \<noteq> set (map vt_name (pd_coverage descriptor)))
           (ProfileMismatch [''obligation must name the complete compiled coverage vocabulary'', i]),
         (case List.find (\<lambda>c. c \<notin> set (map vt_name (pd_capabilities descriptor))) (ob_granted_capabilities b) of
            None \<Rightarrow> Ok ()
          | Some c \<Rightarrow> Err (ProfileMismatch [''obligation grants profile-unknown capability'', i, c]))]) (\<lambda>_.
      map_err (\<lambda>refusal. ProfileMismatch [''obligation binding refused'', i, pr_message refusal])
        (cf_validate_binding profile (obligation_context descriptor b)))))))"

definition validate_compiled_profiles ::
  "'x contract_externals_scheme \<Rightarrow> compiled_profile list \<Rightarrow> SystemSpecV1 \<Rightarrow> (unit, ContractError) result" where
  "validate_compiled_profiles x profiles spec = run_checks (map (validate_compiled_profile x profiles) (sp_observation_obligations spec))"

section \<open>Digests and ratification\<close>

definition SCOPE_CUT_SCHEMA :: string where
  "SCOPE_CUT_SCHEMA = ''nq.scope_cut.v1''"

definition SCOPE_CUT_PROPOSAL_SCHEMA :: string where
  "SCOPE_CUT_PROPOSAL_SCHEMA = ''nq.scope_cut_proposal.v1''"

definition SCOPE_CUT_RATIFICATION_SCHEMA :: string where
  "SCOPE_CUT_RATIFICATION_SCHEMA = ''nq.scope_cut_ratification.v1''"

definition NQ_OBSERVATION_PROJECTION_SCHEMA :: string where
  "NQ_OBSERVATION_PROJECTION_SCHEMA = ''nq.observation_projection.v1''"

definition PORTER_ACTUATION_PROJECTION_SCHEMA :: string where
  "PORTER_ACTUATION_PROJECTION_SCHEMA = ''nq.porter_actuation_projection.v1''"

definition artifact_digest ::
  "'x externals_scheme \<Rightarrow> string \<Rightarrow> ('t \<Rightarrow> (json, string) result) \<Rightarrow> 't \<Rightarrow> (Sha256Digest, ContractError) result" where
  "artifact_digest x schema to_value t =
     map_err Canonicalization (and_then (map_err CanonicalizationError.Serialization (to_value t)) (versioned_artifact_digest x schema))"

definition record_body :: "RatificationV1 \<Rightarrow> RatificationRecordBodyV1" where
  "record_body r = \<lparr>rb_ratified_by = rt_ratified_by r, rb_ratified_at = rt_ratified_at r,
     rb_ratified_proposal_digest = rt_ratified_proposal_digest r\<rparr>"

definition ratification_new ::
  "'x contract_externals_scheme \<Rightarrow> string \<Rightarrow> instant \<Rightarrow> Sha256Digest \<Rightarrow> (RatificationV1, ContractError) result" where
  "ratification_new x ratified_by ratified_at proposal_digest =
     map_ok (\<lambda>digest. \<lparr>rt_ratified_by = ratified_by, rt_ratified_at = ratified_at, rt_ratified_proposal_digest = proposal_digest,
         rt_ratification_record_digest = digest\<rparr>)
       (artifact_digest x SCOPE_CUT_RATIFICATION_SCHEMA (ratification_body_to_value x)
         \<lparr>rb_ratified_by = ratified_by, rb_ratified_at = ratified_at, rb_ratified_proposal_digest = proposal_digest\<rparr>)"

definition ratification_verify :: "'x contract_externals_scheme \<Rightarrow> RatificationV1 \<Rightarrow> (unit, ContractError) result" where
  "ratification_verify x r =
     and_then (artifact_digest x SCOPE_CUT_RATIFICATION_SCHEMA (ratification_body_to_value x) (record_body r)) (\<lambda>expected.
     refuse_if (expected \<noteq> rt_ratification_record_digest r) RatificationRecordMismatch)"

definition validate_ratification_chronology :: "RatificationV1 \<Rightarrow> SourceSnapshotV1 list \<Rightarrow> (unit, ContractError) result" where
  "validate_ratification_chronology r sources =
     refuse_if (list_ex (\<lambda>s. rt_ratified_at r < ss_captured_at s) sources)
       (InvalidValue ''ratification time precedes a contributing source snapshot'')"

section \<open>Proposals\<close>

definition proposal_spec :: "ScopeCutProposalBodyV1 \<Rightarrow> SystemSpecV1" where
  "proposal_spec p =
     \<lparr>sp_schema = SYSTEM_SPEC_SCHEMA, sp_spec_id = sr_spec_id (pp_source_spec p), sp_revision = sr_revision (pp_source_spec p),
      sp_title = sd_title (pp_system p), sp_source_snapshots = pp_source_snapshots p, sp_targets = pp_targets p,
      sp_components = pp_components p, sp_dependencies = pp_dependencies p,
      sp_observation_obligations = pp_observation_obligations p, sp_systems = [pp_system p], sp_authority = AuthorityNone\<rparr>"

definition canonical_arrays :: "SystemSpecV1 \<Rightarrow> bool" where
  "canonical_arrays spec \<longleftrightarrow>
     sp_source_snapshots spec = sp_source_snapshots (normalized spec) \<and> sp_targets spec = sp_targets (normalized spec) \<and>
     sp_components spec = sp_components (normalized spec) \<and> sp_dependencies spec = sp_dependencies (normalized spec) \<and>
     sp_observation_obligations spec = sp_observation_obligations (normalized spec) \<and>
     sp_systems spec ! 0 = sp_systems (normalized spec) ! 0"

definition proposal_verify :: "'x contract_externals_scheme \<Rightarrow> ScopeCutProposalV1 \<Rightarrow> (unit, ContractError) result" where
  "proposal_verify x p =
     and_then (require_schema (pr_schema p) SCOPE_CUT_PROPOSAL_SCHEMA) (\<lambda>_.
     and_then (artifact_digest x SCOPE_CUT_PROPOSAL_SCHEMA (proposal_body_to_value x) (pr_proposal p)) (\<lambda>expected. run_checks
       [refuse_if (expected \<noteq> pr_proposal_digest p) (DigestMismatch ''scope cut proposal''),
        validate_spec x (proposal_spec (pr_proposal p)),
        refuse_if (\<not> canonical_arrays (proposal_spec (pr_proposal p))) (NonCanonical ''scope cut proposal arrays''),
        validate_size x (proposal_to_value x) p]))"

definition proposal_qualify ::
  "'x contract_externals_scheme \<Rightarrow> compiled_profile list \<Rightarrow> ScopeCutProposalV1 \<Rightarrow> (unit, ContractError) result" where
  "proposal_qualify x profiles p =
     and_then (proposal_verify x p) (\<lambda>_. validate_compiled_profiles x profiles (proposal_spec (pr_proposal p)))"

definition selected :: "('a \<Rightarrow> string) \<Rightarrow> string list \<Rightarrow> 'a list \<Rightarrow> 'a list" where
  "selected key ids items = filter (\<lambda>item. key item \<in> set ids) items"

definition proposal_body ::
  "SystemSpecV1 \<Rightarrow> Sha256Digest \<Rightarrow> string \<Rightarrow> SystemDefinitionV1 \<Rightarrow> ScopeCutProposalBodyV1" where
  "proposal_body n digest cut_id sys =
     (let targets = selected tg_target_id (sd_target_ids sys) (sp_targets n);
          components = selected cp_component_id (sd_component_ids sys) (sp_components n);
          dependencies = selected dp_dependency_id (sd_dependency_ids sys) (sp_dependencies n);
          obligations = selected ob_observation_obligation_id (sd_observation_obligation_ids sys) (sp_observation_obligations n);
          sources = sd_source_snapshot_ids sys @ concat (map tg_source_snapshot_ids targets) @
            concat (map cp_source_snapshot_ids components) @ concat (map dp_source_snapshot_ids dependencies) @
            concat (map ob_source_snapshot_ids obligations)
      in \<lparr>pp_cut_id = cut_id,
          pp_source_spec = \<lparr>sr_spec_id = sp_spec_id n, sr_revision = sp_revision n, sr_spec_digest = digest\<rparr>,
          pp_system = sys, pp_source_snapshots = selected ss_source_snapshot_id sources (sp_source_snapshots n), pp_targets = targets,
          pp_components = components, pp_dependencies = dependencies, pp_observation_obligations = obligations,
          pp_authority = AuthorityNone\<rparr>)"

definition build_cut_proposal ::
  "'x contract_externals_scheme \<Rightarrow> SystemSpecV1 \<Rightarrow> string \<Rightarrow> string \<Rightarrow> (ScopeCutProposalV1, ContractError) result" where
  "build_cut_proposal x spec cut_id system_id =
     and_then (validate_spec x spec) (\<lambda>_.
     let n = normalized spec in
     and_then (lookup ''system'' sd_system_id (sp_systems n) system_id) (\<lambda>sys.
     and_then (map_err Canonicalization (semantic_digest_of x (spec_to_value x) n)) (\<lambda>digest.
     let body = proposal_body n digest cut_id sys in
     and_then (artifact_digest x SCOPE_CUT_PROPOSAL_SCHEMA (proposal_body_to_value x) body) (\<lambda>proposal_digest.
     let p = \<lparr>pr_schema = SCOPE_CUT_PROPOSAL_SCHEMA, pr_proposal_digest = proposal_digest, pr_proposal = body\<rparr> in
     map_ok (\<lambda>_. p) (proposal_verify x p)))))"

definition compile_cut_proposal ::
  "'x contract_externals_scheme \<Rightarrow> compiled_profile list \<Rightarrow> SystemSpecV1 \<Rightarrow> string \<Rightarrow> string \<Rightarrow> (ScopeCutProposalV1, ContractError) result" where
  "compile_cut_proposal x profiles spec cut_id system_id =
     and_then (build_cut_proposal x spec cut_id system_id) (\<lambda>p. map_ok (\<lambda>_. p) (proposal_qualify x profiles p))"

section \<open>Published cuts\<close>

definition cut_proposal_body :: "ScopeCutBodyV1 \<Rightarrow> ScopeCutProposalBodyV1" where
  "cut_proposal_body c =
     \<lparr>pp_cut_id = cb_cut_id c, pp_source_spec = cb_source_spec c, pp_system = cb_system c, pp_source_snapshots = cb_source_snapshots c,
      pp_targets = cb_targets c, pp_components = cb_components c, pp_dependencies = cb_dependencies c,
      pp_observation_obligations = cb_observation_obligations c, pp_authority = AuthorityNone\<rparr>"

definition cut_proposal :: "ScopeCutBodyV1 \<Rightarrow> ScopeCutProposalV1" where
  "cut_proposal c = \<lparr>pr_schema = SCOPE_CUT_PROPOSAL_SCHEMA, pr_proposal_digest = rt_ratified_proposal_digest (cb_ratification c),
     pr_proposal = cut_proposal_body c\<rparr>"

definition cut_verify :: "'x contract_externals_scheme \<Rightarrow> PublishedScopeCutV1 \<Rightarrow> (unit, ContractError) result" where
  "cut_verify x published =
     (let c = pc_cut published; spec = proposal_spec (cut_proposal_body c) in
      and_then (run_checks
        [require_schema (pc_schema published) SCOPE_CUT_SCHEMA,
         refuse_if (sr_revision (cb_source_spec c) = 0) (InvalidValue ''source specification revision must be positive'')]) (\<lambda>_.
      and_then (artifact_digest x SCOPE_CUT_SCHEMA (cut_body_to_value x) c) (\<lambda>expected. run_checks
        [refuse_if (expected \<noteq> pc_cut_digest published) (DigestMismatch ''scope cut''),
         ratification_verify x (cb_ratification c),
         validate_ratification_chronology (cb_ratification c) (cb_source_snapshots c),
         map_err (\<lambda>e. if e = DigestMismatch ''scope cut proposal'' then RatificationProposalMismatch else e) (proposal_verify x (cut_proposal c)),
         validate_spec x spec,
         refuse_if (\<not> canonical_arrays spec) (NonCanonical ''scope cut arrays''),
         validate_size x (cut_to_value x) published])))"

definition cut_qualify ::
  "'x contract_externals_scheme \<Rightarrow> compiled_profile list \<Rightarrow> PublishedScopeCutV1 \<Rightarrow> (unit, ContractError) result" where
  "cut_qualify x profiles published =
     and_then (cut_verify x published) (\<lambda>_. proposal_qualify x profiles (cut_proposal (pc_cut published)))"

definition compile_cut ::
  "'x contract_externals_scheme \<Rightarrow> compiled_profile list \<Rightarrow> SystemSpecV1 \<Rightarrow> string \<Rightarrow> string \<Rightarrow> RatificationV1 \<Rightarrow>
    (PublishedScopeCutV1, ContractError) result" where
  "compile_cut x profiles spec cut_id system_id ratification =
     and_then (compile_cut_proposal x profiles spec cut_id system_id) (\<lambda>proposal.
     let p = pr_proposal proposal in
     and_then (run_checks
       [ratification_verify x ratification,
        validate_ratification_chronology ratification (pp_source_snapshots p),
        refuse_if (rt_ratified_proposal_digest ratification \<noteq> pr_proposal_digest proposal) RatificationProposalMismatch]) (\<lambda>_.
     let cut = \<lparr>cb_cut_id = pp_cut_id p, cb_source_spec = pp_source_spec p, cb_ratification = ratification, cb_system = pp_system p,
           cb_source_snapshots = pp_source_snapshots p, cb_targets = pp_targets p, cb_components = pp_components p,
           cb_dependencies = pp_dependencies p, cb_observation_obligations = pp_observation_obligations p, cb_authority = AuthorityNone\<rparr> in
     and_then (artifact_digest x SCOPE_CUT_SCHEMA (cut_body_to_value x) cut) (\<lambda>digest.
     let published = \<lparr>pc_schema = SCOPE_CUT_SCHEMA, pc_cut_digest = digest, pc_cut = cut\<rparr> in
     map_ok (\<lambda>_. published) (cut_qualify x profiles published))))"

definition verify_against_spec ::
  "'x contract_externals_scheme \<Rightarrow> PublishedScopeCutV1 \<Rightarrow> SystemSpecV1 \<Rightarrow> (unit, ContractError) result" where
  "verify_against_spec x published spec =
     (let c = pc_cut published in
      and_then (cut_verify x published) (\<lambda>_.
      and_then (build_cut_proposal x spec (cb_cut_id c) (sd_system_id (cb_system c))) (\<lambda>expected.
      refuse_if (pr_proposal expected \<noteq> cut_proposal_body c \<or>
          pr_proposal_digest expected \<noteq> rt_ratified_proposal_digest (cb_ratification c)) SourceSpecMismatch)))"

section \<open>Projections\<close>

definition reference :: "PublishedScopeCutV1 \<Rightarrow> ScopeCutReferenceV1" where
  "reference published = \<lparr>cr_cut_id = cb_cut_id (pc_cut published), cr_cut_digest = pc_cut_digest published\<rparr>"

definition nq_observation_projection_body :: "PublishedScopeCutV1 \<Rightarrow> string \<Rightarrow> NqObservationProjectionBodyV1" where
  "nq_observation_projection_body published projection_id =
     (let c = pc_cut published in
      \<lparr>np_projection_id = projection_id, np_scope_cut = reference published, np_system_id = sd_system_id (cb_system c),
       np_targets = cb_targets c, np_components = cb_components c, np_dependencies = cb_dependencies c,
       np_observation_obligations = cb_observation_obligations c, np_authority = AuthorityNone\<rparr>)"

definition nq_verify_against ::
  "'x contract_externals_scheme \<Rightarrow> NqObservationProjectionV1 \<Rightarrow> PublishedScopeCutV1 \<Rightarrow> (unit, ContractError) result" where
  "nq_verify_against x projected published =
     and_then (run_checks
       [require_schema (nq_schema projected) NQ_OBSERVATION_PROJECTION_SCHEMA, cut_verify x published]) (\<lambda>_.
     and_then (artifact_digest x NQ_OBSERVATION_PROJECTION_SCHEMA (observation_body_to_value x) (nq_projection projected)) (\<lambda>digest. run_checks
       [refuse_if (digest \<noteq> nq_projection_digest projected) (DigestMismatch ''NQ observation projection''),
        refuse_if (nq_projection projected \<noteq> nq_observation_projection_body published (np_projection_id (nq_projection projected)))
          ProjectionCutMismatch]))"

definition nq_observation_projection ::
  "'x contract_externals_scheme \<Rightarrow> compiled_profile list \<Rightarrow> PublishedScopeCutV1 \<Rightarrow> string \<Rightarrow> (NqObservationProjectionV1, ContractError) result" where
  "nq_observation_projection x profiles published projection_id =
     and_then (cut_qualify x profiles published) (\<lambda>_.
     let body = nq_observation_projection_body published projection_id in
     and_then (artifact_digest x NQ_OBSERVATION_PROJECTION_SCHEMA (observation_body_to_value x) body) (\<lambda>digest.
     let projected = \<lparr>nq_schema = NQ_OBSERVATION_PROJECTION_SCHEMA, nq_projection_digest = digest, nq_projection = body\<rparr> in
     map_ok (\<lambda>_. projected) (nq_verify_against x projected published)))"

subsection \<open>Affected components\<close>

text \<open>One pass over the dependencies, and passes until the set no longer grows.\<close>

definition affected_pass :: "DependencyV1 list \<Rightarrow> string btree_set \<Rightarrow> string btree_set" where
  "affected_pass deps affected =
     fold (\<lambda>d acc. if dp_provider_component_id d \<in> set acc then bs_insert (dp_consumer_component_id d) acc else acc) deps affected"

lemma affected_pass_bounds:
  "set affected \<subseteq> set (affected_pass deps affected)"
  "set (affected_pass deps affected) \<subseteq> set affected \<union> dp_consumer_component_id ` set deps"
proof -
  have "set affected \<subseteq> set (affected_pass deps affected) \<and>
      set (affected_pass deps affected) \<subseteq> set affected \<union> dp_consumer_component_id ` set deps"
    unfolding affected_pass_def
  proof (induction deps arbitrary: affected)
    case (Cons d deps)
    show ?case
      using Cons.IH [of "if dp_provider_component_id d \<in> set affected then bs_insert (dp_consumer_component_id d) affected else affected"]
      by (auto split: if_splits)
  qed simp
  then show "set affected \<subseteq> set (affected_pass deps affected)"
    "set (affected_pass deps affected) \<subseteq> set affected \<union> dp_consumer_component_id ` set deps" by simp_all
qed

function affected_loop :: "DependencyV1 list \<Rightarrow> string btree_set \<Rightarrow> string btree_set" where
  "affected_loop deps affected =
     (let grown = affected_pass deps affected in
      if card (set grown) = card (set affected) then grown else affected_loop deps grown)"
  by pat_completeness auto

termination
proof (relation "measure (\<lambda>(deps, affected). card (dp_consumer_component_id ` set deps - set affected))")
  fix deps :: "DependencyV1 list" and affected grown :: "string btree_set"
  assume grown: "grown = affected_pass deps affected" "card (set grown) \<noteq> card (set affected)"
  then obtain c where "c \<in> set grown" "c \<notin> set affected" using affected_pass_bounds(1) [of affected deps] by (metis subsetI subset_antisym)
  moreover from this grown have "c \<in> dp_consumer_component_id ` set deps" using affected_pass_bounds(2) [of deps affected] by blast
  ultimately have "dp_consumer_component_id ` set deps - set grown \<subset> dp_consumer_component_id ` set deps - set affected"
    using affected_pass_bounds(1) [of affected deps] grown(1) by blast
  then show "((deps, grown), deps, affected) \<in> measure (\<lambda>(deps, affected). card (dp_consumer_component_id ` set deps - set affected))"
    by (simp add: psubset_card_mono)
qed simp

declare affected_loop.simps [simp del]

definition porter_projection_body ::
  "PublishedScopeCutV1 \<Rightarrow> string \<Rightarrow> PorterProjectionSelectionV1 \<Rightarrow> (PorterActuationProjectionBodyV1, ContractError) result" where
  "porter_projection_body published projection_id sel =
     (let c = pc_cut published;
          expected_targets = map cp_hosted_on (selected cp_component_id (ps_component_ids sel) (cb_components c));
          affected = affected_loop (cb_dependencies c) (bs_from (ps_component_ids sel));
          affected_components = selected cp_component_id affected (cb_components c)
      in and_then (run_checks
        [validate_nonempty_unique_refs ''Porter projection targets'' (ps_target_ids sel) (bs_from (map tg_target_id (cb_targets c))),
         validate_nonempty_unique_refs ''Porter projection components'' (ps_component_ids sel) (bs_from (map cp_component_id (cb_components c))),
         refuse_if (set (ps_target_ids sel) \<noteq> set expected_targets)
           (ScopeEscape [''Porter projection targets must equal the host targets of selected components'']),
         refuse_if (list_ex (\<lambda>i. \<not> list_ex (\<lambda>b. ob_component_id b = i) (cb_observation_obligations c)) affected)
           (InvalidValue ''every affected component requires at least one cut witness obligation'')]) (\<lambda>_.
      Ok \<lparr>po_projection_id = projection_id, po_scope_cut = reference published, po_system_id = sd_system_id (cb_system c),
          po_actuation_targets = selected tg_target_id (ps_target_ids sel) (cb_targets c),
          po_actuation_components = selected cp_component_id (ps_component_ids sel) (cb_components c),
          po_affected_targets = selected tg_target_id (map cp_hosted_on affected_components) (cb_targets c),
          po_affected_components = affected_components,
          po_boundary_dependencies = filter (\<lambda>d. dp_consumer_component_id d \<in> set affected \<or> dp_provider_component_id d \<in> set affected)
            (cb_dependencies c),
          po_verification_obligations = filter (\<lambda>b. ob_component_id b \<in> set affected) (cb_observation_obligations c),
          po_authority = AuthorityNone\<rparr>))"

definition projected_selection :: "PorterActuationProjectionBodyV1 \<Rightarrow> PorterProjectionSelectionV1" where
  "projected_selection body = \<lparr>ps_target_ids = map tg_target_id (po_actuation_targets body),
     ps_component_ids = map cp_component_id (po_actuation_components body)\<rparr>"

definition porter_verify_against ::
  "'x contract_externals_scheme \<Rightarrow> PorterActuationProjectionV1 \<Rightarrow> PublishedScopeCutV1 \<Rightarrow> (unit, ContractError) result" where
  "porter_verify_against x projected published =
     (let body = pa_projection projected in
      and_then (run_checks
        [require_schema (pa_schema projected) PORTER_ACTUATION_PROJECTION_SCHEMA, cut_verify x published]) (\<lambda>_.
      and_then (artifact_digest x PORTER_ACTUATION_PROJECTION_SCHEMA (porter_body_to_value x) body) (\<lambda>digest.
      and_then (refuse_if (digest \<noteq> pa_projection_digest projected) (DigestMismatch ''Porter actuation projection'')) (\<lambda>_.
      and_then (porter_projection_body published (po_projection_id body) (projected_selection body)) (\<lambda>expected.
      refuse_if (body \<noteq> expected) ProjectionCutMismatch)))))"

definition porter_actuation_projection ::
  "'x contract_externals_scheme \<Rightarrow> compiled_profile list \<Rightarrow> PublishedScopeCutV1 \<Rightarrow> string \<Rightarrow> PorterProjectionSelectionV1 \<Rightarrow>
    (PorterActuationProjectionV1, ContractError) result" where
  "porter_actuation_projection x profiles published projection_id sel =
     and_then (cut_qualify x profiles published) (\<lambda>_.
     and_then (porter_projection_body published projection_id sel) (\<lambda>body.
     and_then (artifact_digest x PORTER_ACTUATION_PROJECTION_SCHEMA (porter_body_to_value x) body) (\<lambda>digest.
     let projected = \<lparr>pa_schema = PORTER_ACTUATION_PROJECTION_SCHEMA, pa_projection_digest = digest, pa_projection = body\<rparr> in
     map_ok (\<lambda>_. projected) (porter_verify_against x projected published))))"

section \<open>Documents\<close>

definition strict_json ::
  "'x contract_externals_scheme \<Rightarrow> (json \<Rightarrow> ('t, string) result) \<Rightarrow> bytes \<Rightarrow> ('t, ContractError) result" where
  "strict_json x from_value bs =
     and_then (refuse_if (MAX_DOCUMENT_BYTES < length bs) (ContractError.TooLarge (length bs) MAX_DOCUMENT_BYTES)) (\<lambda>_.
     and_then (map_err InvalidJson (no_duplicate_value (json_events x bs))) (\<lambda>v.
     and_then (map_err (\<lambda>e. InvalidJson (Malformed e)) (json_end x bs)) (\<lambda>_.
     map_err (\<lambda>e. InvalidJson (DocumentMismatch e)) (from_value v))))"

definition parse_system_spec :: "'x contract_externals_scheme \<Rightarrow> bytes \<Rightarrow> (SystemSpecV1, ContractError) result" where
  "parse_system_spec x bs = and_then (strict_json x (spec_from_value x) bs) (\<lambda>v. map_ok (\<lambda>_. v) (validate_spec x v))"

definition parse_scope_cut_proposal :: "'x contract_externals_scheme \<Rightarrow> bytes \<Rightarrow> (ScopeCutProposalV1, ContractError) result" where
  "parse_scope_cut_proposal x bs = and_then (strict_json x (proposal_from_value x) bs) (\<lambda>v. map_ok (\<lambda>_. v) (proposal_verify x v))"

definition parse_scope_cut :: "'x contract_externals_scheme \<Rightarrow> bytes \<Rightarrow> (PublishedScopeCutV1, ContractError) result" where
  "parse_scope_cut x bs = and_then (strict_json x (cut_from_value x) bs) (\<lambda>v. map_ok (\<lambda>_. v) (cut_verify x v))"

definition parse_nq_observation_projection ::
  "'x contract_externals_scheme \<Rightarrow> bytes \<Rightarrow> PublishedScopeCutV1 \<Rightarrow> (NqObservationProjectionV1, ContractError) result" where
  "parse_nq_observation_projection x bs published =
     and_then (strict_json x (observation_from_value x) bs) (\<lambda>v. map_ok (\<lambda>_. v) (nq_verify_against x v published))"

definition parse_porter_actuation_projection ::
  "'x contract_externals_scheme \<Rightarrow> bytes \<Rightarrow> PublishedScopeCutV1 \<Rightarrow> (PorterActuationProjectionV1, ContractError) result" where
  "parse_porter_actuation_projection x bs published =
     and_then (strict_json x (porter_from_value x) bs) (\<lambda>v. map_ok (\<lambda>_. v) (porter_verify_against x v published))"

definition contract_document ::
  "'x externals_scheme \<Rightarrow> ('t \<Rightarrow> (json, string) result) \<Rightarrow> 't \<Rightarrow> (bytes, ContractError) result" where
  "contract_document x to_value t =
     and_then (map_err Canonicalization (canonical_json_bytes_of x to_value t)) (\<lambda>bs.
     map_ok (\<lambda>_. bs) (refuse_if (MAX_DOCUMENT_BYTES < length bs) (ContractError.TooLarge (length bs) MAX_DOCUMENT_BYTES)))"

section \<open>Compiled cuts\<close>

text \<open>A proposal of a valid specification: its members, and that they are closed and in normal form.\<close>

lemma selected_members: "set (selected key ids items) = members key items ids"
  by (auto simp: selected_def members_def)

lemma tidy_selected:
  assumes "\<And>item. key (tidy item) = key item" "\<And>item. tidy (tidy item) = tidy item"
  shows "map tidy (sort_key key (selected key ids (map tidy (sort_key key items)))) = selected key ids (map tidy (sort_key key items))"
    (is "map tidy (sort_key key ?xs) = ?xs")
proof -
  have "map key (map tidy (sort_key key items)) = map key (sort_key key items)" using assms(1) by simp
  then have "sorted (map key (map tidy (sort_key key items)))" by (simp only: sorted_sort_key)
  then have "sorted (map key ?xs)" unfolding selected_def by (rule sorted_filter)
  moreover have "\<forall>item \<in> set ?xs. tidy item = item" using assms(2) by (auto simp: selected_def)
  ultimately show ?thesis by (simp add: sort_key_id_if_sorted map_idI)
qed

lemma proposal_normal:
  assumes "sys \<in> set (sp_systems (normalized spec))"
  shows "normalized (proposal_spec (proposal_body (normalized spec) digest cut_id sys)) =
    proposal_spec (proposal_body (normalized spec) digest cut_id sys)"
proof -
  have "normalized_system sys = sys" using assms by (auto simp: normalized_twice)
  moreover have "sort_key ss_source_snapshot_id (selected ss_source_snapshot_id ids (sort_key ss_source_snapshot_id sources)) =
      selected ss_source_snapshot_id ids (sort_key ss_source_snapshot_id sources)" for ids sources
    using tidy_selected [of ss_source_snapshot_id "\<lambda>s. s" ids sources] by simp
  ultimately show ?thesis
    by (simp add: normalized_def proposal_spec_def proposal_body_def Let_def normalized_twice
        tidy_selected [where tidy = normalized_target] tidy_selected [where tidy = normalized_component]
        tidy_selected [where tidy = normalized_dependency] tidy_selected [where tidy = normalized_obligation])
qed

lemma normal_canonical: "normalized spec = spec \<Longrightarrow> canonical_arrays spec"
  by (simp add: canonical_arrays_def)

lemma members_all: "set ids \<subseteq> key ` set items \<Longrightarrow> key ` members key items ids = set ids"
  by (auto simp: members_def)

lemma members_selected: "members key (selected key ids items) ids = members key items ids"
  by (auto simp: members_def selected_def)

lemma proposal_members:
  fixes n sys digest cut_id
  assumes law: "spec_law x n" "sys \<in> set (sp_systems n)"
  defines "spec \<equiv> proposal_spec (proposal_body n digest cut_id sys)"
  shows "target_ids spec = set (sd_target_ids sys)" "component_ids spec = set (sd_component_ids sys)"
    "dependency_ids spec = set (sd_dependency_ids sys)" "obligation_ids spec = set (sd_observation_obligation_ids sys)"
    "source_ids spec = used_sources n sys" "used_sources spec sys = used_sources n sys" "sp_systems spec = [sys]"
    "set (sp_targets spec) = members tg_target_id (sp_targets n) (sd_target_ids sys)"
    "set (sp_components spec) = members cp_component_id (sp_components n) (sd_component_ids sys)"
    "set (sp_dependencies spec) = members dp_dependency_id (sp_dependencies n) (sd_dependency_ids sys)"
    "set (sp_observation_obligations spec) =
      members ob_observation_obligation_id (sp_observation_obligations n) (sd_observation_obligation_ids sys)"
    "set (sp_source_snapshots spec) = {s \<in> set (sp_source_snapshots n). ss_source_snapshot_id s \<in> used_sources n sys}"
proof -
  from law have closed: "system_closed n sys" and refs: "spec_references x n" by (simp_all add: spec_law_def)
  note lists = spec_def proposal_spec_def proposal_body_def Let_def
  show "set (sp_targets spec) = members tg_target_id (sp_targets n) (sd_target_ids sys)"
    "set (sp_components spec) = members cp_component_id (sp_components n) (sd_component_ids sys)"
    "set (sp_dependencies spec) = members dp_dependency_id (sp_dependencies n) (sd_dependency_ids sys)"
    "set (sp_observation_obligations spec) =
      members ob_observation_obligation_id (sp_observation_obligations n) (sd_observation_obligation_ids sys)"
    "sp_systems spec = [sys]"
    by (simp_all add: lists selected_members)
  then show "target_ids spec = set (sd_target_ids sys)" "component_ids spec = set (sd_component_ids sys)"
    "dependency_ids spec = set (sd_dependency_ids sys)" "obligation_ids spec = set (sd_observation_obligation_ids sys)"
    using closed by (simp_all add: members_all system_closed_def refs_law_def)
  have "used_sources n sys \<subseteq> source_ids n"
    using closed refs
    unfolding used_sources_def members_def system_closed_def spec_references_def refs_law_def by blast
  moreover show sources: "set (sp_source_snapshots spec) = {s \<in> set (sp_source_snapshots n). ss_source_snapshot_id s \<in> used_sources n sys}"
    by (auto simp: lists selected_members members_def used_sources_def)
  ultimately show "source_ids spec = used_sources n sys" by auto
  show "used_sources spec sys = used_sources n sys"
    by (simp add: used_sources_def) (simp add: lists members_selected)
qed

lemma distinct_selected: "distinct (map f items) \<Longrightarrow> distinct (map f (selected key ids items))"
  by (simp add: selected_def distinct_map_filter)

lemma proposal_lists:
  "sp_schema (proposal_spec (proposal_body n digest cut_id sys)) = SYSTEM_SPEC_SCHEMA"
  "sp_revision (proposal_spec (proposal_body n digest cut_id sys)) = sp_revision n"
  "sp_title (proposal_spec (proposal_body n digest cut_id sys)) = sd_title sys"
  "\<exists>ids. sp_source_snapshots (proposal_spec (proposal_body n digest cut_id sys)) = selected ss_source_snapshot_id ids (sp_source_snapshots n)"
  "sp_targets (proposal_spec (proposal_body n digest cut_id sys)) = selected tg_target_id (sd_target_ids sys) (sp_targets n)"
  "sp_components (proposal_spec (proposal_body n digest cut_id sys)) = selected cp_component_id (sd_component_ids sys) (sp_components n)"
  "sp_dependencies (proposal_spec (proposal_body n digest cut_id sys)) = selected dp_dependency_id (sd_dependency_ids sys) (sp_dependencies n)"
  "sp_observation_obligations (proposal_spec (proposal_body n digest cut_id sys)) =
    selected ob_observation_obligation_id (sd_observation_obligation_ids sys) (sp_observation_obligations n)"
  by (auto simp: proposal_spec_def proposal_body_def Let_def)

lemma length_selected: "length items \<le> bound \<Longrightarrow> length (selected key ids items) \<le> bound"
  unfolding selected_def using length_filter_le le_trans by blast

lemma proposal_law:
  assumes law: "spec_law x n" "sys \<in> set (sp_systems n)"
  shows "spec_law x (proposal_spec (proposal_body n digest cut_id sys))" (is "spec_law x ?spec")
proof -
  note m = proposal_members [OF law, of digest cut_id]
  obtain ids where sources: "sp_source_snapshots ?spec = selected ss_source_snapshot_id ids (sp_source_snapshots n)"
    using proposal_lists(4) by blast
  from law have closed: "system_closed n sys" and refs: "spec_references x n" and unique: "spec_unique n" and bounds: "spec_bounds n"
    by (simp_all add: spec_law_def)
  have cited: "set (sd_source_snapshot_ids sys) \<subseteq> used_sources n sys" "sd_source_snapshot_ids sys \<noteq> []" "sd_target_ids sys \<noteq> []"
    "sd_component_ids sys \<noteq> []" "sd_observation_obligation_ids sys \<noteq> []"
    using closed by (auto simp: used_sources_def system_closed_def refs_law_def)
  then have "source_ids ?spec \<noteq> {}" "target_ids ?spec \<noteq> {}" "component_ids ?spec \<noteq> {}" "obligation_ids ?spec \<noteq> {}"
    unfolding m(1-5) by auto
  then have nonempty: "sp_source_snapshots ?spec \<noteq> []" "sp_targets ?spec \<noteq> []" "sp_components ?spec \<noteq> []"
    "sp_observation_obligations ?spec \<noteq> []" by auto
  have "spec_bounds ?spec"
    using nonempty bounds closed
    by (simp add: spec_bounds_def proposal_lists(1-3) m(7) system_closed_def MAX_SYSTEMS_def)
      (simp add: sources proposal_lists(5-8) length_selected)
  moreover have "spec_unique ?spec"
    using unique by (simp add: spec_unique_def m(7)) (simp add: sources proposal_lists(5-8) distinct_selected)
  moreover have "spec_references x ?spec"
  proof -
    have inside: "set (sp_source_snapshots ?spec) \<subseteq> set (sp_source_snapshots n)" by (auto simp: sources selected_members members_def)
    have used: "t \<in> members tg_target_id (sp_targets n) (sd_target_ids sys) \<Longrightarrow> set (tg_source_snapshot_ids t) \<subseteq> used_sources n sys"
      "c \<in> members cp_component_id (sp_components n) (sd_component_ids sys) \<Longrightarrow> set (cp_source_snapshot_ids c) \<subseteq> used_sources n sys"
      "d \<in> members dp_dependency_id (sp_dependencies n) (sd_dependency_ids sys) \<Longrightarrow> set (dp_source_snapshot_ids d) \<subseteq> used_sources n sys"
      "b \<in> members ob_observation_obligation_id (sp_observation_obligations n) (sd_observation_obligation_ids sys) \<Longrightarrow>
        set (ob_source_snapshot_ids b) \<subseteq> used_sources n sys" for t c d b
      by (auto simp: used_sources_def)
    have "distinct (map (\<lambda>d. (dp_consumer_component_id d, dp_provider_component_id d)) (sp_dependencies ?spec))"
      using refs by (simp add: spec_references_def proposal_lists(7) distinct_selected)
    moreover have "\<forall>d \<in> set (sp_dependencies ?spec). dp_consumer_component_id d \<noteq> dp_provider_component_id d"
      "\<forall>b \<in> set (sp_observation_obligations ?spec). obligation_law x b"
      "\<forall>s \<in> set (sp_source_snapshots ?spec). bounded_text (ss_provenance s)"
      using refs inside unfolding m(10,11) by (auto simp: spec_references_def members_def)
    ultimately show ?thesis
      using refs closed used unfolding spec_references_def m(1-5) unfolding m(8-11)
      by (auto simp: refs_law_def system_closed_def members_def)
  qed
  moreover have "system_closed ?spec sys"
    using closed cited(1) unfolding system_closed_def m(1-5) refs_law_def by (simp add: proposal_lists(5-8) members_selected)
  moreover have "spec_covered ?spec" unfolding spec_covered_def m(7) m(1-5) by (simp add: m(6))
  ultimately show ?thesis unfolding spec_law_def m(7) by simp
qed

section \<open>What a proposal can be refused for\<close>

fun size_refusal :: "ContractError \<Rightarrow> bool" where
  "size_refusal (Canonicalization e) = True"
| "size_refusal (ContractError.TooLarge actual maximum) = (maximum < actual)"
| "size_refusal _ = False"

lemma validate_size_Err: "validate_size x to_value t = Err e \<Longrightarrow> size_refusal e"
  by (auto simp: validate_size_def and_then_Err map_err_Err refuse_if_def split: if_splits)

lemma artifact_digest_Err: "artifact_digest x schema to_value t = Err e \<Longrightarrow> size_refusal e"
  by (auto simp: artifact_digest_def map_err_Err)

lemma lookup_member: "lookup kind key items i = Ok item \<Longrightarrow> item \<in> set items \<and> key item = i"
  by (auto simp: lookup_def ok_or_def find_Some_iff split: option.splits)

lemma lookup_known:
  assumes "i \<in> key ` set items"
  obtains item where "lookup kind key items i = Ok item"
  using assms by (cases "List.find (\<lambda>item. key item = i) items") (auto simp: lookup_def ok_or_def find_None_iff)

lemma proposal_verify_built:
  assumes "spec_law x spec" "sys \<in> set (sp_systems (normalized spec))"
    and "artifact_digest x SCOPE_CUT_PROPOSAL_SCHEMA (proposal_body_to_value x) (proposal_body (normalized spec) digest cut_id sys) = Ok d"
  defines "p \<equiv> \<lparr>pr_schema = SCOPE_CUT_PROPOSAL_SCHEMA, pr_proposal_digest = d, pr_proposal = proposal_body (normalized spec) digest cut_id sys\<rparr>"
  shows "proposal_verify x p = run_checks
    [validate_size x (spec_to_value x) (proposal_spec (pr_proposal p)), validate_size x (proposal_to_value x) p]"
proof -
  have normal: "normalized (proposal_spec (pr_proposal p)) = proposal_spec (pr_proposal p)"
    using proposal_normal [OF assms(2)] by (simp add: p_def)
  have "spec_law x (proposal_spec (pr_proposal p))"
    using proposal_law [OF _ assms(2)] assms(1) by (simp add: spec_law_normalized p_def)
  from validate_spec_law [OF this] normal show ?thesis
    using assms(3) normal_canonical [OF normal]
    by (cases "validate_size x (spec_to_value x) (proposal_spec (pr_proposal p))")
      (simp_all add: proposal_verify_def require_schema_def refuse_if_def p_def)
qed

definition restricted_proposal :: "SystemSpecV1 \<Rightarrow> string \<Rightarrow> string \<Rightarrow> ScopeCutProposalBodyV1 \<Rightarrow> bool" where
  "restricted_proposal spec cut_id system_id body \<longleftrightarrow>
     pp_cut_id body = cut_id \<and> sr_spec_id (pp_source_spec body) = sp_spec_id spec \<and> sr_revision (pp_source_spec body) = sp_revision spec \<and>
     (\<exists>sys \<in> set (sp_systems spec). sd_system_id sys = system_id \<and> pp_system body = normalized_system sys \<and>
        set (pp_source_snapshots body) = {s \<in> set (sp_source_snapshots spec). ss_source_snapshot_id s \<in> used_sources spec sys} \<and>
        set (pp_targets body) = normalized_target ` members tg_target_id (sp_targets spec) (sd_target_ids sys) \<and>
        set (pp_components body) = normalized_component ` members cp_component_id (sp_components spec) (sd_component_ids sys) \<and>
        set (pp_dependencies body) = normalized_dependency ` members dp_dependency_id (sp_dependencies spec) (sd_dependency_ids sys) \<and>
        set (pp_observation_obligations body) =
          normalized_obligation ` members ob_observation_obligation_id (sp_observation_obligations spec) (sd_observation_obligation_ids sys))"

lemma proposal_body_restricted:
  assumes "spec_law x spec" "sys \<in> set (sp_systems (normalized spec))"
  shows "restricted_proposal spec cut_id (sd_system_id sys) (proposal_body (normalized spec) digest cut_id sys)"
proof -
  obtain own where own: "own \<in> set (sp_systems spec)" "sys = normalized_system own" using assms(2) by auto
  have law: "spec_law x (normalized spec)" using assms(1) by (simp add: spec_law_normalized)
  note m = proposal_members [OF law assms(2), of digest cut_id, unfolded own(2)]
  let ?body = "proposal_body (normalized spec) digest cut_id (normalized_system own)"
  have "set (pp_targets ?body) = normalized_target ` members tg_target_id (sp_targets spec) (sd_target_ids own)"
    "set (pp_components ?body) = normalized_component ` members cp_component_id (sp_components spec) (sd_component_ids own)"
    "set (pp_dependencies ?body) = normalized_dependency ` members dp_dependency_id (sp_dependencies spec) (sd_dependency_ids own)"
    "set (pp_observation_obligations ?body) =
      normalized_obligation ` members ob_observation_obligation_id (sp_observation_obligations spec) (sd_observation_obligation_ids own)"
    "set (pp_source_snapshots ?body) = {s \<in> set (sp_source_snapshots spec). ss_source_snapshot_id s \<in> used_sources spec own}"
    using m(8-12) by (simp_all add: normalized_members proposal_spec_def)
  moreover have "pp_cut_id ?body = cut_id" "sr_spec_id (pp_source_spec ?body) = sp_spec_id spec"
    "sr_revision (pp_source_spec ?body) = sp_revision spec" "pp_system ?body = normalized_system own"
    by (simp_all add: proposal_body_def Let_def)
  ultimately show ?thesis unfolding restricted_proposal_def own(2) using own(1) by (intro conjI bexI [of _ own]) simp_all
qed

section \<open>Verified cuts\<close>

lemma cut_verify_law:
  assumes "cut_verify x published = Ok ()"
  shows "spec_law x (proposal_spec (cut_proposal_body (pc_cut published)))"
    "canonical_arrays (proposal_spec (cut_proposal_body (pc_cut published)))"
    "proposal_verify x (cut_proposal (pc_cut published)) = Ok ()"
  using assms by (simp_all add: cut_verify_def Let_def checks validate_spec_Ok)

lemma cut_lists [simp]:
  "sp_source_snapshots (proposal_spec (cut_proposal_body c)) = cb_source_snapshots c"
  "sp_targets (proposal_spec (cut_proposal_body c)) = cb_targets c"
  "sp_components (proposal_spec (cut_proposal_body c)) = cb_components c"
  "sp_dependencies (proposal_spec (cut_proposal_body c)) = cb_dependencies c"
  "sp_observation_obligations (proposal_spec (cut_proposal_body c)) = cb_observation_obligations c"
  "sp_systems (proposal_spec (cut_proposal_body c)) = [cb_system c]"
  by (simp_all add: proposal_spec_def cut_proposal_body_def)

abbreviation cut_component_ids :: "ScopeCutBodyV1 \<Rightarrow> string set" where
  "cut_component_ids c \<equiv> cp_component_id ` set (cb_components c)"

lemma verified_cut_known:
  assumes "cut_verify x published = Ok ()"
  shows "\<forall>c \<in> set (cb_components (pc_cut published)). cites_known (pc_cut published) c"
    "required_relation (pc_cut published) \<subseteq> cut_component_ids (pc_cut published) \<times> cut_component_ids (pc_cut published)"
proof -
  have refs: "spec_references x (proposal_spec (cut_proposal_body (pc_cut published)))"
    using cut_verify_law(1) [OF assms] by (simp add: spec_law_def)
  have "captured_time body i \<noteq> None \<longleftrightarrow> i \<in> ss_source_snapshot_id ` set (cb_source_snapshots body)" for body i
    by (simp add: captured_time_def map_of_eq_None_iff image_image comp_def)
  with refs show "\<forall>c \<in> set (cb_components (pc_cut published)). cites_known (pc_cut published) c"
    by (auto simp: spec_references_def refs_law_def cites_known_def list_all_iff)
  from refs show "required_relation (pc_cut published) \<subseteq> cut_component_ids (pc_cut published) \<times> cut_component_ids (pc_cut published)"
    by (auto simp: spec_references_def required_relation_def)
qed

subsection \<open>A verified cut is not malformed\<close>

fun malformed :: "CutCoherenceRefusal \<Rightarrow> bool" where
  "malformed (MalformedCut f) = True"
| "malformed _ = False"

lemma check_edge_order_known:
  assumes "check_edge_order spans es = Err e" "\<forall>edge \<in> set es. bt_get spans (re_consumer edge) \<noteq> None \<and> bt_get spans (re_provider edge) \<noteq> None"
  shows "\<not> malformed e"
  using assms by (induction es) (auto simp: span_of_def split: if_splits)

lemma check_windows_known:
  assumes "check_windows adj spans seconds starts = Err e"
    and "\<forall>start \<in> set starts. \<forall>m \<in> (edge_relation adj)\<^sup>* `` {start}. bt_get spans m \<noteq> None"
  shows "\<not> malformed e"
  using assms
proof (induction starts)
  case (Cons start starts)
  from Cons.prems(2) have known: "\<forall>m \<in> set (required_closure start adj). bt_get spans m \<noteq> None" "bt_get spans start \<noteq> None"
    by (auto simp: required_closure_reachable)
  then obtain sp where sp: "span_of spans start = Ok sp" by (auto simp: span_of_def)
  obtain early late where "closure_extent spans (required_closure start adj) (earliest sp) (latest sp) = Ok (early, late)"
    using closure_extent_Ok [of spans "required_closure start adj" "earliest sp" "latest sp"] known(1) by (cases) auto
  with Cons sp show ?case by (auto simp: Let_def split: if_splits)
qed simp

lemma known_cut_not_malformed:
  assumes known: "\<forall>c \<in> set (cb_components body). cites_known body c"
    and inside: "required_relation body \<subseteq> cut_component_ids body \<times> cut_component_ids body"
    and refused: "evaluate_cut_coherence body policy = Some (Err e)"
  shows "\<not> malformed e"
proof -
  obtain spans where spans: "observation_spans body = Ok spans" using known observation_spans_Ok by blast
  obtain seconds where policy: "policy = RequiredObservationV1 seconds" by (cases policy)
  let ?adj = "adjacency_of (required_edges body)"
  have get: "bt_get spans c \<noteq> None \<longleftrightarrow> c \<in> cut_component_ids body" for c
    by (simp add: spans_get [OF spans] observed_def map_of_eq_None_iff image_image comp_def)
  have ends: "\<forall>edge \<in> set (required_edges body). bt_get spans (re_consumer edge) \<noteq> None \<and> bt_get spans (re_provider edge) \<noteq> None"
    unfolding get using inside required_edges_relation [of body] by blast
  have "m \<in> cut_component_ids body" if "(start, m) \<in> (required_relation body)\<^sup>*" "start \<in> Domain (required_relation body)" for start m
    using that inside by (induction rule: rtrancl_induct) auto
  then have starts: "\<forall>start \<in> set (bt_keys ?adj). \<forall>m \<in> (edge_relation ?adj)\<^sup>* `` {start}. bt_get spans m \<noteq> None"
    unfolding get adjacency_keys adjacency_relation by blast
  show ?thesis
  proof (cases rule: inconsistent_required_cycle_cases [of ?adj spans])
    case consistent
    with refused spans policy have "and_then (check_edge_order spans (required_edges body)) (\<lambda>_. check_windows ?adj spans seconds (bt_keys ?adj)) = Err e"
      by (simp add: evaluate_cut_coherence_def Let_def)
    then show ?thesis using check_edge_order_known [OF _ ends] check_windows_known [OF _ starts] by (auto simp: and_then_Err)
  next
    case (torn ms)
    with refused spans policy show ?thesis by (auto simp: evaluate_cut_coherence_def Let_def)
  qed
qed

subsection \<open>A cut and the specification it was compiled from\<close>

lemma build_cut_proposal_Ok:
  "build_cut_proposal x spec cut_id system_id = Ok p \<longleftrightarrow>
    validate_spec x spec = Ok () \<and> proposal_verify x p = Ok () \<and>
    (\<exists>sys digest. lookup ''system'' sd_system_id (sp_systems (normalized spec)) system_id = Ok sys \<and>
       semantic_digest_of x (spec_to_value x) (normalized spec) = Ok digest \<and>
       pr_proposal p = proposal_body (normalized spec) digest cut_id sys)"
proof -
  have "proposal_verify x p = Ok () \<Longrightarrow> pr_schema p = SCOPE_CUT_PROPOSAL_SCHEMA \<and>
      artifact_digest x SCOPE_CUT_PROPOSAL_SCHEMA (proposal_body_to_value x) (pr_proposal p) = Ok (pr_proposal_digest p)"
    by (auto simp: proposal_verify_def require_schema_def and_then_Ok checks)
  then show ?thesis
    by (cases p) (auto simp: build_cut_proposal_def Let_def and_then_Ok)
qed

lemma build_cut_proposal_reordered:
  assumes "reordered a b" "validate_spec x a = Ok ()"
  shows "build_cut_proposal x b cut_id system_id = build_cut_proposal x a cut_id system_id"
  using validate_spec_reordered [OF assms] assms(2) by (simp add: build_cut_proposal_def)

lemma proposal_body_eta:
  "\<lparr>pp_cut_id = pp_cut_id b, pp_source_spec = pp_source_spec b, pp_system = pp_system b, pp_source_snapshots = pp_source_snapshots b,
     pp_targets = pp_targets b, pp_components = pp_components b, pp_dependencies = pp_dependencies b,
     pp_observation_obligations = pp_observation_obligations b, pp_authority = AuthorityNone\<rparr> = b"
  by (cases "pp_authority b") (simp add: ScopeCutProposalBodyV1.equality)

lemma compile_cut_Ok:
  assumes "compile_cut x profiles spec cut_id system_id ratification = Ok published"
  shows "cut_qualify x profiles published = Ok ()" "cb_cut_id (pc_cut published) = cut_id"
    "sd_system_id (cb_system (pc_cut published)) = system_id"
    "build_cut_proposal x spec cut_id system_id = Ok (cut_proposal (pc_cut published))"
proof -
  from assms obtain p where p: "build_cut_proposal x spec cut_id system_id = Ok p" "cut_qualify x profiles published = Ok ()"
    "rt_ratified_proposal_digest (cb_ratification (pc_cut published)) = pr_proposal_digest p"
    "cut_proposal_body (pc_cut published) = pr_proposal p"
    by (auto simp: compile_cut_def compile_cut_proposal_def Let_def and_then_Ok checks cut_proposal_body_def
        proposal_body_eta)
  show "cut_qualify x profiles published = Ok ()" by (rule p(2))
  from p(1) obtain sys digest where sys: "lookup ''system'' sd_system_id (sp_systems (normalized spec)) system_id = Ok sys"
    and body: "pr_proposal p = proposal_body (normalized spec) digest cut_id sys" and ok: "proposal_verify x p = Ok ()"
    unfolding build_cut_proposal_Ok by blast
  from body have "pp_cut_id (pr_proposal p) = cut_id" "pp_system (pr_proposal p) = sys" by (simp_all add: proposal_body_def Let_def)
  with p(4) [symmetric] lookup_member [OF sys]
  show "cb_cut_id (pc_cut published) = cut_id" "sd_system_id (cb_system (pc_cut published)) = system_id"
    by (simp_all add: cut_proposal_body_def)
  from ok have "pr_schema p = SCOPE_CUT_PROPOSAL_SCHEMA" by (simp add: proposal_verify_def require_schema_def and_then_Ok checks)
  with p(3,4) have "cut_proposal (pc_cut published) = p" by (simp add: cut_proposal_def)
  with p(1) show "build_cut_proposal x spec cut_id system_id = Ok (cut_proposal (pc_cut published))" by simp
qed

text \<open>Two lists in the order of a key that names their items, with the same items, are one list.\<close>

lemma keyed_unique:
  assumes "sorted (map key xs)" "distinct (map key xs)" "sorted (map key ys)" "distinct (map key ys)" "set xs = set ys"
  shows "xs = ys"
  using assms by (intro map_sorted_distinct_set_unique [of key]) (auto simp: distinct_map)

lemma canonical_sorted:
  assumes "canonical_arrays spec"
  shows "sorted (map ss_source_snapshot_id (sp_source_snapshots spec))" "sorted (map tg_target_id (sp_targets spec))"
    "sorted (map cp_component_id (sp_components spec))" "sorted (map dp_dependency_id (sp_dependencies spec))"
    "sorted (map ob_observation_obligation_id (sp_observation_obligations spec))"
proof -
  have keyed: "sorted (map key xs)" if "xs = map tidy (sort_key key xs)" "\<And>item. key (tidy item) = key item" for key :: "'i \<Rightarrow> string" and tidy xs
  proof -
    have "map key xs = map key (sort_key key xs)" by (subst that(1)) (simp add: that(2))
    then show ?thesis by (simp only: sorted_sort_key)
  qed
  show "sorted (map ss_source_snapshot_id (sp_source_snapshots spec))"
    using assms keyed [of "sp_source_snapshots spec" "\<lambda>s. s" ss_source_snapshot_id] by (simp add: canonical_arrays_def)
  show "sorted (map tg_target_id (sp_targets spec))" "sorted (map cp_component_id (sp_components spec))"
    "sorted (map dp_dependency_id (sp_dependencies spec))" "sorted (map ob_observation_obligation_id (sp_observation_obligations spec))"
    using assms by (auto simp: canonical_arrays_def intro: keyed)
qed

lemma restricted_unique:
  assumes a: "restricted_proposal spec cut_id system_id a" "canonical_arrays (proposal_spec a)" "spec_unique (proposal_spec a)"
    and b: "restricted_proposal spec cut_id system_id b" "canonical_arrays (proposal_spec b)" "spec_unique (proposal_spec b)"
    and spec: "spec_unique spec" and digest: "sr_spec_digest (pp_source_spec a) = sr_spec_digest (pp_source_spec b)"
  shows "a = b"
proof -
  obtain sys where sys: "sys \<in> set (sp_systems spec)" "sd_system_id sys = system_id" using a(1) by (auto simp: restricted_proposal_def)
  have only: "other = sys" if "other \<in> set (sp_systems spec)" "sd_system_id other = system_id" for other
    using that sys spec by (auto simp: spec_unique_def distinct_map inj_on_def)
  note sets = a(1) [unfolded restricted_proposal_def] b(1) [unfolded restricted_proposal_def]
  have "set (pp_source_snapshots a) = set (pp_source_snapshots b)" "set (pp_targets a) = set (pp_targets b)"
    "set (pp_components a) = set (pp_components b)" "set (pp_dependencies a) = set (pp_dependencies b)"
    "set (pp_observation_obligations a) = set (pp_observation_obligations b)" and own: "pp_system a = pp_system b"
    using sets only by metis+
  then have "pp_source_snapshots a = pp_source_snapshots b" "pp_targets a = pp_targets b" "pp_components a = pp_components b"
    "pp_dependencies a = pp_dependencies b" "pp_observation_obligations a = pp_observation_obligations b"
    using canonical_sorted [OF a(2)] canonical_sorted [OF b(2)] a(3) b(3)
    by (auto simp: proposal_spec_def spec_unique_def intro: keyed_unique [where key = ss_source_snapshot_id]
        keyed_unique [where key = tg_target_id] keyed_unique [where key = cp_component_id] keyed_unique [where key = dp_dependency_id]
        keyed_unique [where key = ob_observation_obligation_id])
  moreover have "pp_source_spec a = pp_source_spec b" "pp_cut_id a = pp_cut_id b"
    using sets digest by (simp_all add: SystemSpecReferenceV1.equality)
  moreover have "pp_authority a = pp_authority b" by (cases "pp_authority a"; cases "pp_authority b") simp
  ultimately show ?thesis using own by (simp add: ScopeCutProposalBodyV1.equality)
qed

lemma verify_against_spec_build:
  "verify_against_spec x published spec = Ok () \<longleftrightarrow> cut_verify x published = Ok () \<and>
    build_cut_proposal x spec (cb_cut_id (pc_cut published)) (sd_system_id (cb_system (pc_cut published))) = Ok (cut_proposal (pc_cut published))"
proof -
  have "p = cut_proposal c" if "proposal_verify x p = Ok ()" "pr_proposal p = cut_proposal_body c"
    "pr_proposal_digest p = rt_ratified_proposal_digest (cb_ratification c)" for p c
    using that by (auto simp: proposal_verify_def require_schema_def cut_proposal_def checks)
  then show ?thesis
    by (auto simp: verify_against_spec_def Let_def and_then_Ok checks) (auto simp: build_cut_proposal_Ok cut_proposal_def)
qed

lemma built_cut_restricts:
  assumes "cut_verify x published = Ok ()"
  defines "c \<equiv> pc_cut published"
  shows "build_cut_proposal x spec (cb_cut_id c) (sd_system_id (cb_system c)) = Ok (cut_proposal c) \<longleftrightarrow>
    spec_digest x spec = Ok (sr_spec_digest (cb_source_spec c)) \<and>
    restricted_proposal spec (cb_cut_id c) (sd_system_id (cb_system c)) (cut_proposal_body c)" (is "?built \<longleftrightarrow> ?digest \<and> ?restricted")
proof
  assume ?built
  then obtain sys digest where valid: "validate_spec x spec = Ok ()"
    and sys: "lookup ''system'' sd_system_id (sp_systems (normalized spec)) (sd_system_id (cb_system c)) = Ok sys"
    and digest: "semantic_digest_of x (spec_to_value x) (normalized spec) = Ok digest"
    and body: "cut_proposal_body c = proposal_body (normalized spec) digest (cb_cut_id c) sys"
    by (auto simp: build_cut_proposal_Ok cut_proposal_def)
  from body have "sr_spec_digest (cb_source_spec c) = digest" by (simp add: cut_proposal_body_def proposal_body_def Let_def)
  moreover have "spec_law x spec" using valid by (simp add: validate_spec_Ok)
  note proposal_body_restricted [OF this, of sys "cb_cut_id c" digest]
  ultimately show "?digest \<and> ?restricted" using valid digest lookup_member [OF sys] body by (simp add: spec_digest_def)
next
  assume restricted: "?digest \<and> ?restricted"
  then have valid: "validate_spec x spec = Ok ()"
    and digest: "semantic_digest_of x (spec_to_value x) (normalized spec) = Ok (sr_spec_digest (cb_source_spec c))"
    by (auto simp: spec_digest_def and_then_Ok)
  have law: "spec_law x spec" using valid by (simp add: validate_spec_Ok)
  from restricted have "sd_system_id (cb_system c) \<in> sd_system_id ` set (sp_systems spec)"
    unfolding restricted_proposal_def by (metis imageI)
  then have "sd_system_id (cb_system c) \<in> sd_system_id ` set (sp_systems (normalized spec))" by (simp add: image_image)
  then obtain sys where sys: "lookup ''system'' sd_system_id (sp_systems (normalized spec)) (sd_system_id (cb_system c)) = Ok sys"
    by (rule lookup_known)
  let ?body = "proposal_body (normalized spec) (sr_spec_digest (cb_source_spec c)) (cb_cut_id c) sys"
  have known: "sys \<in> set (sp_systems (normalized spec))" "sd_system_id sys = sd_system_id (cb_system c)" using lookup_member [OF sys] by simp_all
  note cut = cut_verify_law [OF assms(1), folded c_def]
  have "cut_proposal_body c = ?body"
  proof (rule restricted_unique)
    show "restricted_proposal spec (cb_cut_id c) (sd_system_id (cb_system c)) (cut_proposal_body c)" using restricted by simp
    show "restricted_proposal spec (cb_cut_id c) (sd_system_id (cb_system c)) ?body"
      using proposal_body_restricted [OF law known(1)] known(2) by simp
    show "canonical_arrays (proposal_spec ?body)" by (rule normal_canonical [OF proposal_normal [OF known(1)]])
    show "spec_unique (proposal_spec ?body)"
      using proposal_law [OF law [folded spec_law_normalized [of x spec]] known(1)] by (simp add: spec_law_def)
  qed (use cut law in \<open>simp_all add: spec_law_def cut_proposal_body_def proposal_body_def Let_def\<close>)
  with valid sys digest cut(3) show ?built by (auto simp: build_cut_proposal_Ok cut_proposal_def)
qed

section \<open>The components a selection affects\<close>

definition consumption :: "DependencyV1 list \<Rightarrow> (string \<times> string) set" where
  "consumption deps = (\<lambda>d. (dp_provider_component_id d, dp_consumer_component_id d)) ` set deps"

lemma reached_further: "p \<in> R\<^sup>* `` A \<Longrightarrow> (p, c) \<in> R\<^sup>* \<Longrightarrow> c \<in> R\<^sup>* `` A"
  by (auto intro: rtrancl_trans)

lemma affected_pass_sound: "set (affected_pass deps affected) \<subseteq> (consumption deps)\<^sup>* `` set affected"
proof -
  have "set (fold (\<lambda>d acc. if dp_provider_component_id d \<in> set acc then bs_insert (dp_consumer_component_id d) acc else acc) ds acc)
      \<subseteq> (consumption deps)\<^sup>* `` set affected"
    if "set ds \<subseteq> set deps" "set acc \<subseteq> (consumption deps)\<^sup>* `` set affected" for ds and acc :: "string btree_set"
    using that
  proof (induction ds arbitrary: acc)
    case (Cons d ds)
    have "(dp_provider_component_id d, dp_consumer_component_id d) \<in> consumption deps" using Cons.prems(1) by (auto simp: consumption_def)
    then have "dp_consumer_component_id d \<in> (consumption deps)\<^sup>* `` set affected" if "dp_provider_component_id d \<in> set acc"
      using that Cons.prems(2) by (intro reached_further [OF subsetD r_into_rtrancl])
    with Cons.prems have "set (if dp_provider_component_id d \<in> set acc then bs_insert (dp_consumer_component_id d) acc else acc)
        \<subseteq> (consumption deps)\<^sup>* `` set affected" by simp
    with Cons show ?case by simp
  qed simp
  from this [of deps affected] show ?thesis unfolding affected_pass_def by auto
qed

lemma affected_pass_step:
  assumes "(p, c) \<in> consumption deps" "p \<in> set affected"
  shows "c \<in> set (affected_pass deps affected)"
  using assms
proof (induction deps arbitrary: affected)
  case (Cons d deps)
  let ?next = "if dp_provider_component_id d \<in> set affected then bs_insert (dp_consumer_component_id d) affected else affected"
  have unfold: "affected_pass (d # deps) affected = affected_pass deps ?next" by (simp add: affected_pass_def)
  show ?case
  proof (cases "(p, c) = (dp_provider_component_id d, dp_consumer_component_id d)")
    case True
    with Cons.prems affected_pass_bounds(1) [of ?next deps] show ?thesis unfolding unfold by auto
  next
    case False
    with Cons.prems Cons.IH [of ?next] show ?thesis unfolding unfold by (auto simp: consumption_def)
  qed
qed (simp add: consumption_def)

lemma affected_loop_exact: "set (affected_loop deps affected) = (consumption deps)\<^sup>* `` set affected"
proof (induction deps affected rule: affected_loop.induct)
  case (1 deps affected)
  let ?grown = "affected_pass deps affected"
  have inside: "set affected \<subseteq> set ?grown" by (rule affected_pass_bounds)
  show ?case
  proof (cases "card (set ?grown) = card (set affected)")
    case True
    then have same: "set ?grown = set affected" using inside card_subset_eq [of "set ?grown" "set affected"] by simp
    have "c \<in> set affected" if "(p, c) \<in> (consumption deps)\<^sup>*" "p \<in> set affected" for p c
      using that affected_pass_step same by (induction rule: rtrancl_induct) blast+
    with True same show ?thesis by (subst affected_loop.simps) (auto simp: Let_def)
  next
    case False
    have "(consumption deps)\<^sup>* `` set ?grown = (consumption deps)\<^sup>* `` set affected"
      using affected_pass_sound [of deps affected] inside reached_further [of _ "consumption deps" "set affected"] by blast
    with 1 False show ?thesis by (subst affected_loop.simps) (simp add: Let_def)
  qed
qed

lemma selected_cong: "set ids = set others \<Longrightarrow> selected key ids items = selected key others items"
  by (simp add: selected_def)

lemma bs_from_cong: "set xs = set ys \<Longrightarrow> bs_from xs = bs_from ys"
  by (rule bs_ordered_eq) (simp_all add: bs_ordered_from)

lemma set_selected: "set ids \<subseteq> key ` set items \<Longrightarrow> key ` set (selected key ids items) = set ids"
  by (auto simp: selected_def)

definition projected_body :: "PublishedScopeCutV1 \<Rightarrow> string \<Rightarrow> PorterProjectionSelectionV1 \<Rightarrow> PorterActuationProjectionBodyV1" where
  "projected_body published projection_id sel =
     (let c = pc_cut published; affected = affected_loop (cb_dependencies c) (bs_from (ps_component_ids sel));
          components = selected cp_component_id affected (cb_components c)
      in \<lparr>po_projection_id = projection_id, po_scope_cut = reference published, po_system_id = sd_system_id (cb_system c),
          po_actuation_targets = selected tg_target_id (ps_target_ids sel) (cb_targets c),
          po_actuation_components = selected cp_component_id (ps_component_ids sel) (cb_components c),
          po_affected_targets = selected tg_target_id (map cp_hosted_on components) (cb_targets c), po_affected_components = components,
          po_boundary_dependencies = filter (\<lambda>d. dp_consumer_component_id d \<in> set affected \<or> dp_provider_component_id d \<in> set affected)
            (cb_dependencies c),
          po_verification_obligations = filter (\<lambda>b. ob_component_id b \<in> set affected) (cb_observation_obligations c),
          po_authority = AuthorityNone\<rparr>)"

definition selection_law :: "ScopeCutBodyV1 \<Rightarrow> PorterProjectionSelectionV1 \<Rightarrow> bool" where
  "selection_law c sel \<longleftrightarrow>
     refs_law (tg_target_id ` set (cb_targets c)) (ps_target_ids sel) \<and> refs_law (cut_component_ids c) (ps_component_ids sel) \<and>
     set (ps_target_ids sel) = cp_hosted_on ` set (selected cp_component_id (ps_component_ids sel) (cb_components c)) \<and>
     (consumption (cb_dependencies c))\<^sup>* `` set (ps_component_ids sel) \<subseteq> ob_component_id ` set (cb_observation_obligations c)"

lemma porter_projection_body_Ok:
  "porter_projection_body published projection_id sel = Ok body \<longleftrightarrow>
    selection_law (pc_cut published) sel \<and> body = projected_body published projection_id sel"
proof -
  have "list_ex (\<lambda>i. \<not> list_ex (\<lambda>b. ob_component_id b = i) obligations) affected \<longleftrightarrow>
      \<not> set affected \<subseteq> ob_component_id ` set obligations" for affected and obligations :: "ObservationObligationV1 list"
    by (auto simp: list_ex_iff image_iff) metis
  then show ?thesis
    by (auto simp: porter_projection_body_def projected_body_def selection_law_def Let_def and_then_Ok checks affected_loop_exact)
qed

lemma projected_selection_stable:
  fixes projection_id :: string
  assumes "cut_verify x published = Ok ()" "selection_law (pc_cut published) sel"
  defines "again \<equiv> projected_selection (projected_body published projection_id sel)"
  shows "selection_law (pc_cut published) again" "projected_body published projection_id again = projected_body published projection_id sel"
proof -
  let ?c = "pc_cut published"
  have unique: "distinct (map tg_target_id (cb_targets ?c))" "distinct (map cp_component_id (cb_components ?c))"
    using cut_verify_law(1) [OF assms(1)] by (simp_all add: spec_law_def spec_unique_def)
  have ids: "ps_target_ids again = map tg_target_id (selected tg_target_id (ps_target_ids sel) (cb_targets ?c))"
    "ps_component_ids again = map cp_component_id (selected cp_component_id (ps_component_ids sel) (cb_components ?c))"
    by (simp_all add: again_def projected_selection_def projected_body_def Let_def)
  have same: "set (ps_target_ids again) = set (ps_target_ids sel)" "set (ps_component_ids again) = set (ps_component_ids sel)"
    using assms(2) unfolding ids selection_law_def refs_law_def set_map by (metis set_selected)+
  moreover have "distinct (ps_target_ids again)" "distinct (ps_component_ids again)"
    using unique by (simp_all add: ids distinct_selected)
  moreover have "ps_target_ids again \<noteq> []" "ps_component_ids again \<noteq> []"
    using same assms(2) by (auto simp: selection_law_def refs_law_def)
  ultimately show "selection_law ?c again"
    using assms(2) unfolding selection_law_def refs_law_def same selected_cong [OF same(2)] by blast
  show "projected_body published projection_id again = projected_body published projection_id sel"
    by (simp add: projected_body_def Let_def selected_cong [OF same(1)] selected_cong [OF same(2)] bs_from_cong [OF same(2)])
qed

lemma porter_actuation_projection_Ok:
  "porter_actuation_projection x profiles published projection_id sel = Ok projected \<longleftrightarrow>
    cut_qualify x profiles published = Ok () \<and> selection_law (pc_cut published) sel \<and>
    pa_schema projected = PORTER_ACTUATION_PROJECTION_SCHEMA \<and> pa_projection projected = projected_body published projection_id sel \<and>
    artifact_digest x PORTER_ACTUATION_PROJECTION_SCHEMA (porter_body_to_value x) (pa_projection projected) = Ok (pa_projection_digest projected)"
proof -
  have "po_projection_id (projected_body published projection_id sel) = projection_id" by (simp add: projected_body_def Let_def)
  then show ?thesis
    using projected_selection_stable [of x published sel projection_id]
    by (cases projected)
      (auto simp: porter_actuation_projection_def porter_verify_against_def Let_def and_then_Ok checks porter_projection_body_Ok
        cut_qualify_def require_schema_def)
qed

section \<open>Properties\<close>

text \<open>
  C38. A system specification is accepted exactly when it is a closed model within the bounds of the
  contract and its normal form fits a document: identifiers are unique, every reference resolves,
  every system contains the hosts, endpoints and subjects of its members, and nothing declared is
  left out of every system.
\<close>

theorem validate_spec_decides:
  "validate_spec x spec = Ok () \<longleftrightarrow> spec_law x spec \<and> validate_size x (spec_to_value x) (normalized spec) = Ok ()"
  by (rule validate_spec_Ok)

text \<open>
  C36. Proposing a cut of a system that an accepted specification declares can be refused only because
  a document cannot be canonicalized or is too large. A proposal that is built passes its own
  verification and holds exactly the normal forms of the system's members.
\<close>

theorem proposal_refused_only_for_size:
  assumes "validate_spec x spec = Ok ()" "system_id \<in> sd_system_id ` set (sp_systems spec)"
  shows "case build_cut_proposal x spec cut_id system_id of
      Ok p \<Rightarrow> proposal_verify x p = Ok () \<and> restricted_proposal spec cut_id system_id (pr_proposal p)
    | Err e \<Rightarrow> size_refusal e"
proof -
  have law: "spec_law x spec" using assms(1) by (simp add: validate_spec_Ok)
  have "system_id \<in> sd_system_id ` set (sp_systems (normalized spec))" using assms(2) by (auto simp: image_image)
  then obtain sys where sys: "lookup ''system'' sd_system_id (sp_systems (normalized spec)) system_id = Ok sys" by (rule lookup_known)
  have known: "sys \<in> set (sp_systems (normalized spec))" "sd_system_id sys = system_id" by (simp_all only: lookup_member [OF sys])
  show ?thesis
  proof (cases "build_cut_proposal x spec cut_id system_id")
    case (Ok p)
    then obtain digest where "proposal_verify x p = Ok ()" "pr_proposal p = proposal_body (normalized spec) digest cut_id sys"
      using assms(1) sys by (auto simp: build_cut_proposal_def Let_def and_then_Ok)
    with Ok proposal_body_restricted [OF law known(1), of cut_id digest] known(2) show ?thesis by simp
  next
    case (Err e)
    have "size_refusal e"
    proof (cases "semantic_digest_of x (spec_to_value x) (normalized spec)")
      fix digest assume digest: "semantic_digest_of x (spec_to_value x) (normalized spec) = Ok digest"
      show ?thesis
      proof (cases "artifact_digest x SCOPE_CUT_PROPOSAL_SCHEMA (proposal_body_to_value x) (proposal_body (normalized spec) digest cut_id sys)")
        fix d assume d: "artifact_digest x SCOPE_CUT_PROPOSAL_SCHEMA (proposal_body_to_value x)
          (proposal_body (normalized spec) digest cut_id sys) = Ok d"
        show ?thesis
          using Err assms(1) sys digest d proposal_verify_built [OF law known(1) d]
          by (auto simp: build_cut_proposal_def Let_def map_ok_def run_checks.simps dest: validate_size_Err split: result.splits)
      qed (use Err assms(1) sys digest in \<open>auto simp: build_cut_proposal_def Let_def dest: artifact_digest_Err\<close>)
    qed (use Err assms(1) sys in \<open>auto simp: build_cut_proposal_def Let_def\<close>)
    with Err show ?thesis by simp
  qed
qed

text \<open>
  C37. A cut compiled from a specification verifies against that specification in every order of its
  arrays.
\<close>

theorem compiled_cut_verifies_in_any_order:
  assumes compiled: "compile_cut x profiles spec cut_id system_id ratification = Ok published" and "reordered spec other"
  shows "verify_against_spec x published other = Ok ()"
proof -
  note built = compile_cut_Ok [OF compiled]
  have "validate_spec x spec = Ok ()" using built(4) by (simp add: build_cut_proposal_Ok)
  from build_cut_proposal_reordered [OF assms(2) this] built show ?thesis
    by (simp add: verify_against_spec_build cut_qualify_def and_then_Ok)
qed

text \<open>
  C18. A cut verifies against a specification exactly when it verifies alone, names the digest of that
  specification, and holds exactly the normal forms of the members of its system there: no member
  can be dropped, added or altered.
\<close>

theorem cut_against_spec_decides:
  "verify_against_spec x published spec = Ok () \<longleftrightarrow>
    cut_verify x published = Ok () \<and> spec_digest x spec = Ok (sr_spec_digest (cb_source_spec (pc_cut published))) \<and>
    restricted_proposal spec (cb_cut_id (pc_cut published)) (sd_system_id (cb_system (pc_cut published)))
      (cut_proposal_body (pc_cut published))"
  unfolding verify_against_spec_build using built_cut_restricts by blast

text \<open>
  C19. The coherence check of a verified cut returns and never finds the cut malformed: every refusal
  is about when its components were observed.
\<close>

theorem verified_cut_is_well_formed:
  assumes "cut_verify x published = Ok ()"
  shows "case evaluate_cut_coherence (pc_cut published) policy of None \<Rightarrow> False | Some (Err e) \<Rightarrow> \<not> malformed e | Some (Ok _) \<Rightarrow> True"
proof -
  obtain seconds where policy: "policy = RequiredObservationV1 seconds" by (cases policy)
  have "evaluate_policy es spans policy \<noteq> None" for es spans
    by (cases rule: inconsistent_required_cycle_cases [of "adjacency_of es" spans]) (simp_all add: policy Let_def)
  then have "evaluate_cut_coherence (pc_cut published) policy \<noteq> None"
    by (cases "observation_spans (pc_cut published)") (simp_all add: evaluate_cut_coherence_def Let_def)
  with known_cut_not_malformed [OF verified_cut_known [OF assms]] show ?thesis by (auto split: option.split result.split)
qed

text \<open>
  C35. A derived actuation projection affects exactly the selected components and everything that
  consumes them, directly or through others; its obligations verify exactly those components, and its
  targets are the hosts of the selected ones. The projection verifies against its cut.
\<close>

theorem projection_covers_consumers:
  assumes derived: "porter_actuation_projection x profiles published projection_id sel = Ok projected"
  defines "body \<equiv> pa_projection projected"
    and "affected \<equiv> (consumption (cb_dependencies (pc_cut published)))\<^sup>* `` set (ps_component_ids sel)"
  shows "cp_component_id ` set (po_affected_components body) = affected \<and>
    ob_component_id ` set (po_verification_obligations body) = affected \<and>
    tg_target_id ` set (po_actuation_targets body) = cp_hosted_on ` set (po_actuation_components body) \<and>
    porter_verify_against x projected published = Ok ()"
proof -
  let ?c = "pc_cut published"
  from derived have law: "selection_law ?c sel" and body: "body = projected_body published projection_id sel"
    and ok: "cut_verify x published = Ok ()"
    unfolding porter_actuation_projection_Ok body_def by (simp_all add: cut_qualify_def and_then_Ok)
  have ends: "consumption (cb_dependencies ?c) \<subseteq> cut_component_ids ?c \<times> cut_component_ids ?c"
    using cut_verify_law(1) [OF ok] by (auto simp: spec_law_def spec_references_def consumption_def)
  have reached: "i \<in> cut_component_ids ?c" if "(s, i) \<in> (consumption (cb_dependencies ?c))\<^sup>*" "s \<in> cut_component_ids ?c" for s i
    using that ends by (induction rule: rtrancl_induct) auto
  have chosen: "set (ps_component_ids sel) \<subseteq> cut_component_ids ?c" using law by (simp add: selection_law_def refs_law_def)
  have inside: "affected \<subseteq> cut_component_ids ?c"
    unfolding affected_def by (rule subsetI) (elim ImageE, rule reached, assumption, erule subsetD [OF chosen])
  have affected: "set (affected_loop (cb_dependencies ?c) (bs_from (ps_component_ids sel))) = affected"
    by (simp add: affected_loop_exact affected_def)
  have "cp_component_id ` set (po_affected_components body) = affected"
    using inside by (simp add: body projected_body_def Let_def set_selected affected)
  moreover have "ob_component_id ` set (po_verification_obligations body) = affected"
    using law by (auto simp: body projected_body_def Let_def affected selection_law_def affected_def [symmetric])
  moreover have "tg_target_id ` set (po_actuation_targets body) = cp_hosted_on ` set (po_actuation_components body)"
  proof -
    have "tg_target_id ` set (selected tg_target_id (ps_target_ids sel) (cb_targets ?c)) = set (ps_target_ids sel)"
      using law unfolding selection_law_def refs_law_def by (intro set_selected) blast
    also have "\<dots> = cp_hosted_on ` set (selected cp_component_id (ps_component_ids sel) (cb_components ?c))"
      using law unfolding selection_law_def by blast
    finally show ?thesis by (simp add: body projected_body_def Let_def)
  qed
  moreover have "porter_verify_against x projected published = Ok ()"
    using derived by (auto simp: porter_actuation_projection_def Let_def and_then_Ok)
  ultimately show ?thesis by simp
qed

section \<open>Witnesses\<close>

text \<open>A shop of two components on one host: the web component requires the database.\<close>

definition sample_contract_externals :: contract_externals where
  "sample_contract_externals = profile_externals.extend sample_profile_externals
     \<lparr>spec_to_value = (\<lambda>_. Ok (JObject [])), proposal_body_to_value = (\<lambda>_. Ok (JObject [])), proposal_to_value = (\<lambda>_. Ok (JObject [])),
      ratification_body_to_value = (\<lambda>_. Ok (JObject [])), cut_body_to_value = (\<lambda>_. Ok (JObject [])), cut_to_value = (\<lambda>_. Ok (JObject [])),
      observation_body_to_value = (\<lambda>_. Ok (JObject [])), porter_body_to_value = (\<lambda>_. Ok (JObject [])),
      spec_from_value = (\<lambda>_. Err ''spec''), proposal_from_value = (\<lambda>_. Err ''proposal''), cut_from_value = (\<lambda>_. Err ''cut''),
      observation_from_value = (\<lambda>_. Err ''projection''), porter_from_value = (\<lambda>_. Err ''projection'')\<rparr>"

definition sample_component :: "string \<Rightarrow> ComponentV1" where
  "sample_component i = \<lparr>cp_component_id = i, cp_kind = ''service'', cp_hosted_on = ''h'', cp_source_snapshot_ids = [''s'']\<rparr>"

definition sample_obligation :: "string \<Rightarrow> ObservationObligationV1" where
  "sample_obligation i = \<lparr>ob_observation_obligation_id = i, ob_component_id = i, ob_instance_id = ''i'',
     ob_profile = \<lparr>pb_id = ''nq.host'', pb_version = ''1'', pb_digest = ''sha256:''\<rparr>,
     ob_subject_binding = \<lparr>sb_subject = ''host:a'', sb_scope = \<lparr>scope_kind = ''host'', scope_value = JObject []\<rparr>,
       sb_vantage = \<lparr>vantage_kind = ''local'', vantage_value = JObject []\<rparr>\<rparr>,
     ob_required_coverage = [''memory''], ob_granted_capabilities = [], ob_freshness_seconds = 60, ob_source_snapshot_ids = [''s'']\<rparr>"

definition sample_shop :: SystemDefinitionV1 where
  "sample_shop = \<lparr>sd_system_id = ''shop'', sd_title = ''Shop'', sd_target_ids = [''h''], sd_component_ids = [''db'', ''web''],
     sd_dependency_ids = [''d''], sd_observation_obligation_ids = [''db'', ''web''], sd_source_snapshot_ids = [''s'']\<rparr>"

definition sample_spec :: SystemSpecV1 where
  "sample_spec = \<lparr>sp_schema = SYSTEM_SPEC_SCHEMA, sp_spec_id = ''spec'', sp_revision = 1, sp_title = ''Shop'',
     sp_source_snapshots = [\<lparr>ss_source_snapshot_id = ''s'', ss_kind = OperatorAuthored, ss_content_digest = ''sha256:'', ss_captured_at = 5,
       ss_provenance = ''desk''\<rparr>],
     sp_targets = [\<lparr>tg_target_id = ''h'', tg_target_class = ''host'', tg_target_identity_digest = ''sha256:'', tg_source_snapshot_ids = [''s'']\<rparr>],
     sp_components = [sample_component ''db'', sample_component ''web''],
     sp_dependencies = [\<lparr>dp_dependency_id = ''d'', dp_consumer_component_id = ''web'', dp_provider_component_id = ''db'',
       dp_requirement = Required, dp_source_snapshot_ids = [''s'']\<rparr>],
     sp_observation_obligations = [sample_obligation ''db'', sample_obligation ''web''], sp_systems = [sample_shop], sp_authority = AuthorityNone\<rparr>"

definition sample_ratification :: RatificationV1 where
  "sample_ratification = \<lparr>rt_ratified_by = ''operator'', rt_ratified_at = 9, rt_ratified_proposal_digest = ''sha256:'',
     rt_ratification_record_digest = ''sha256:''\<rparr>"

definition sample_compiled :: "compiled_profile list" where
  "sample_compiled = [\<lparr>cf_descriptor = sample_descriptor, cf_validate_binding = (\<lambda>_. Ok ())\<rparr>]"

lemma sample_bytes:
  "canonical_json_bytes sample_contract_externals (JObject []) = Ok ''{}''"
  "semantic_digest sample_contract_externals (JObject (bt_from [(''schema'', JString schema), (''artifact'', JObject [])])) = Ok ''sha256:''"
  "sha256_bytes sample_contract_externals bs = ''sha256:''"
  "descriptor_digest sample_contract_externals d = Ok ''sha256:''"
  by (simp_all add: sample_contract_externals_def profile_externals.extend_def sample_profile_externals_def frame_externals.extend_def
      sample_externals_def descriptor_digest_def semantic_digest_of_def canonical_json_bytes_of_def canonical_json_bytes_Ok sha256_bytes_def
      semantic_digest_def bt_from_def)

lemma sample_documents:
  "to_value t = Ok (JObject []) \<Longrightarrow> validate_size sample_contract_externals to_value t = Ok ()"
  "to_value t = Ok (JObject []) \<Longrightarrow> artifact_digest sample_contract_externals schema to_value t = Ok ''sha256:''"
  "to_value t = Ok (JObject []) \<Longrightarrow> semantic_digest_of sample_contract_externals to_value t = Ok ''sha256:''"
  by (simp_all add: validate_size_def artifact_digest_def versioned_artifact_digest_def semantic_digest_of_def canonical_json_bytes_of_def
      sample_bytes MAX_DOCUMENT_BYTES_def)

lemma sample_values:
  "spec_to_value sample_contract_externals d1 = Ok (JObject [])" "proposal_body_to_value sample_contract_externals d2 = Ok (JObject [])"
  "proposal_to_value sample_contract_externals d3 = Ok (JObject [])" "ratification_body_to_value sample_contract_externals d4 = Ok (JObject [])"
  "cut_body_to_value sample_contract_externals d5 = Ok (JObject [])" "cut_to_value sample_contract_externals d6 = Ok (JObject [])"
  "porter_body_to_value sample_contract_externals d7 = Ok (JObject [])"
  by (simp_all add: sample_contract_externals_def profile_externals.extend_def sample_profile_externals_def frame_externals.extend_def
      sample_externals_def)

lemma sample_version: "0 < greatest \<Longrightarrow> parse_unsigned greatest ''1'' = Some 1"
  by (simp add: parse_unsigned_def digits_value_def is_ascii_digit_def)

lemma sample_digit: "show_nat (Suc 0) = ''1''"
  by code_simp

lemma sample_text: "bounded_text ''Shop''" "bounded_text ''desk''" "canonical_version ''1''"
  by (simp_all add: bounded_text_def MAX_TEXT_BYTES_def is_control_def display_confusing_def code_point_def canonical_version_def sample_version
      sample_digit)

lemma sample_spec_law: "spec_law sample_contract_externals sample_spec"
  by (simp add: spec_law_def spec_bounds_def spec_unique_def spec_references_def spec_covered_def system_closed_def used_sources_def
      members_def refs_law_def obligation_law_def binding_value_law_def sample_bytes sample_text sample_spec_def sample_shop_def
      sample_component_def sample_obligation_def MAX_SOURCES_def MAX_TARGETS_def MAX_SYSTEMS_def MAX_COMPONENTS_def MAX_DEPENDENCIES_def
      MAX_OBSERVATION_OBLIGATIONS_def MAX_REQUIRED_COVERAGE_def MAX_BINDING_VALUE_BYTES_def MAX_FRESHNESS_SECONDS_def) auto

lemma sample_validates: "validate_spec sample_contract_externals sample_spec = Ok ()"
  by (simp add: validate_spec_Ok sample_spec_law sample_documents sample_values)

definition sample_proposal :: ScopeCutProposalV1 where
  "sample_proposal = \<lparr>pr_schema = SCOPE_CUT_PROPOSAL_SCHEMA, pr_proposal_digest = ''sha256:'',
     pr_proposal = proposal_body (normalized sample_spec) ''sha256:'' ''cut'' (normalized_system sample_shop)\<rparr>"

lemma sample_system: "normalized_system sample_shop \<in> set (sp_systems (normalized sample_spec))"
  "lookup ''system'' sd_system_id (sp_systems (normalized sample_spec)) ''shop'' = Ok (normalized_system sample_shop)"
  by (simp_all add: sample_spec_def lookup_def) (simp add: sample_shop_def normalized_system_def)

lemma sample_proposal_verifies: "proposal_verify sample_contract_externals sample_proposal = Ok ()"
  unfolding sample_proposal_def by (subst proposal_verify_built [OF sample_spec_law sample_system(1)]) (simp_all add: sample_documents sample_values)

lemma sample_proposal_built: "build_cut_proposal sample_contract_externals sample_spec ''cut'' ''shop'' = Ok sample_proposal"
  unfolding build_cut_proposal_Ok using sample_system(2)
  by (intro conjI exI [of _ "normalized_system sample_shop"] exI [of _ "''sha256:''"])
    (simp_all only: sample_validates sample_proposal_verifies sample_documents sample_values, simp add: sample_proposal_def)

lemma sample_obligation_compiled:
  "validate_compiled_profile sample_contract_externals sample_compiled (normalized_obligation (sample_obligation i)) = Ok ()"
  by (simp add: validate_compiled_profile_def sample_compiled_def sample_obligation_def normalized_obligation_def sample_version sample_bytes
      sample_descriptor_def ProfileKey_new_def VocabularyTerm_new_def Let_def)

definition sample_published :: PublishedScopeCutV1 where
  "sample_published =
     (let p = pr_proposal sample_proposal
      in \<lparr>pc_schema = SCOPE_CUT_SCHEMA, pc_cut_digest = ''sha256:'',
          pc_cut = \<lparr>cb_cut_id = pp_cut_id p, cb_source_spec = pp_source_spec p, cb_ratification = sample_ratification, cb_system = pp_system p,
            cb_source_snapshots = pp_source_snapshots p, cb_targets = pp_targets p, cb_components = pp_components p,
            cb_dependencies = pp_dependencies p, cb_observation_obligations = pp_observation_obligations p, cb_authority = AuthorityNone\<rparr>\<rparr>)"

lemma sample_published_body: "cut_proposal_body (pc_cut sample_published) = pr_proposal sample_proposal"
  by (simp add: sample_published_def Let_def cut_proposal_body_def proposal_body_eta)

lemma sample_published_proposal: "cut_proposal (pc_cut sample_published) = sample_proposal"
  unfolding cut_proposal_def sample_published_body by (simp add: sample_published_def sample_ratification_def sample_proposal_def Let_def)

lemma sample_proposal_lists:
  "pp_source_snapshots (pr_proposal sample_proposal) = sp_source_snapshots sample_spec"
  "pp_targets (pr_proposal sample_proposal) = sp_targets sample_spec"
  "pp_components (pr_proposal sample_proposal) = sp_components sample_spec"
  "pp_dependencies (pr_proposal sample_proposal) = sp_dependencies sample_spec"
  "pp_observation_obligations (pr_proposal sample_proposal) = map normalized_obligation (sp_observation_obligations sample_spec)"
  "sr_revision (pp_source_spec (pr_proposal sample_proposal)) = 1"
  by (simp_all add: sample_proposal_def proposal_body_def Let_def selected_def sample_spec_def sample_shop_def sample_component_def
      sample_obligation_def normalized_target_def normalized_component_def normalized_dependency_def normalized_obligation_def)

lemma sample_published_verifies: "cut_verify sample_contract_externals sample_published = Ok ()"
proof -
  have spec: "validate_spec sample_contract_externals (proposal_spec (pr_proposal sample_proposal)) = Ok ()"
    "canonical_arrays (proposal_spec (pr_proposal sample_proposal))"
    using sample_proposal_verifies by (auto simp: proposal_verify_def and_then_Ok checks)
  have "validate_ratification_chronology sample_ratification (pp_source_snapshots (pr_proposal sample_proposal)) = Ok ()"
    by (simp add: sample_proposal_lists validate_ratification_chronology_def sample_ratification_def sample_spec_def)
  moreover have "ratification_verify sample_contract_externals sample_ratification = Ok ()"
    by (simp add: ratification_verify_def sample_documents sample_values sample_ratification_def)
  moreover have "pc_schema sample_published = SCOPE_CUT_SCHEMA" "pc_cut_digest sample_published = ''sha256:''"
    "cb_ratification (pc_cut sample_published) = sample_ratification" "sr_revision (cb_source_spec (pc_cut sample_published)) = 1"
    "cb_source_snapshots (pc_cut sample_published) = pp_source_snapshots (pr_proposal sample_proposal)"
    by (simp_all add: sample_published_def Let_def sample_proposal_lists)
  ultimately show ?thesis
    using spec
    by (simp add: cut_verify_def Let_def sample_published_body sample_published_proposal sample_proposal_verifies require_schema_def
        sample_documents sample_values)
qed

lemma sample_published_qualifies: "cut_qualify sample_contract_externals sample_compiled sample_published = Ok ()"
proof -
  have "validate_compiled_profiles sample_contract_externals sample_compiled (proposal_spec (pr_proposal sample_proposal)) = Ok ()"
    by (simp add: validate_compiled_profiles_def proposal_spec_def sample_proposal_lists sample_spec_def sample_obligation_compiled)
  then show ?thesis
    by (simp add: cut_qualify_def proposal_qualify_def sample_published_verifies sample_published_proposal sample_proposal_verifies)
qed

lemma sample_compiles:
  "compile_cut sample_contract_externals sample_compiled sample_spec ''cut'' ''shop'' sample_ratification = Ok sample_published"
proof -
  have "compile_cut_proposal sample_contract_externals sample_compiled sample_spec ''cut'' ''shop'' = Ok sample_proposal"
    using sample_published_qualifies
    by (simp add: compile_cut_proposal_def sample_proposal_built cut_qualify_def sample_published_verifies sample_published_proposal)
  moreover have "ratification_verify sample_contract_externals sample_ratification = Ok ()"
    "validate_ratification_chronology sample_ratification (pp_source_snapshots (pr_proposal sample_proposal)) = Ok ()"
    "rt_ratified_proposal_digest sample_ratification = pr_proposal_digest sample_proposal"
    by (simp_all add: ratification_verify_def sample_documents sample_values sample_proposal_lists validate_ratification_chronology_def
        sample_ratification_def sample_spec_def) (simp add: sample_proposal_def)
  ultimately show ?thesis
    using sample_published_qualifies by (simp add: compile_cut_def Let_def sample_documents sample_values sample_published_def)
qed

theorem proposal_refused_only_for_size_witness:
  "case build_cut_proposal sample_contract_externals sample_spec ''cut'' ''shop'' of
      Ok p \<Rightarrow> proposal_verify sample_contract_externals p = Ok () \<and> restricted_proposal sample_spec ''cut'' ''shop'' (pr_proposal p)
    | Err e \<Rightarrow> size_refusal e"
  by (rule proposal_refused_only_for_size [OF sample_validates]) (simp add: sample_spec_def sample_shop_def)

theorem compiled_cut_verifies_in_any_order_witness:
  "verify_against_spec sample_contract_externals sample_published
    (sample_spec\<lparr>sp_components := [sample_component ''web'', sample_component ''db'']\<rparr>) = Ok ()"
  by (rule compiled_cut_verifies_in_any_order [OF sample_compiles]) (simp add: reordered_def sample_spec_def add_mset_commute)

theorem verified_cut_is_well_formed_witness:
  "case evaluate_cut_coherence (pc_cut sample_published) (RequiredObservationV1 60) of
    None \<Rightarrow> False | Some (Err e) \<Rightarrow> \<not> malformed e | Some (Ok _) \<Rightarrow> True"
  by (rule verified_cut_is_well_formed [OF sample_published_verifies])

lemma sample_consumers:
  "(consumption (cb_dependencies (pc_cut sample_published)))\<^sup>* `` {''db''} = {''db'', ''web''}"
proof -
  have "consumption (cb_dependencies (pc_cut sample_published)) = {(''db'', ''web'')}"
    by (simp add: consumption_def sample_published_def Let_def sample_proposal_lists sample_spec_def)
  moreover have "(p, c) \<in> {(''db'', ''web'')}\<^sup>* \<Longrightarrow> p = ''db'' \<Longrightarrow> c \<in> {''db'', ''web''}" for p c
    by (induction rule: rtrancl_induct) auto
  ultimately show ?thesis by auto
qed

theorem projection_covers_consumers_witness:
  "\<exists>projected. porter_actuation_projection sample_contract_externals sample_compiled sample_published ''projection''
      \<lparr>ps_target_ids = [''h''], ps_component_ids = [''db'']\<rparr> = Ok projected \<and>
    cp_component_id ` set (po_affected_components (pa_projection projected)) = {''db'', ''web''}"
proof -
  let ?sel = "\<lparr>ps_target_ids = [''h''], ps_component_ids = [''db'']\<rparr>"
  have "selection_law (pc_cut sample_published) ?sel"
    using sample_consumers
    by (simp add: selection_law_def refs_law_def selected_def)
      (simp add: sample_published_def Let_def sample_proposal_lists sample_spec_def sample_component_def sample_obligation_def, force)
  then have derived: "porter_actuation_projection sample_contract_externals sample_compiled sample_published ''projection'' ?sel =
      Ok \<lparr>pa_schema = PORTER_ACTUATION_PROJECTION_SCHEMA, pa_projection_digest = ''sha256:'',
        pa_projection = projected_body sample_published ''projection'' ?sel\<rparr>"
    by (simp add: porter_actuation_projection_Ok sample_published_qualifies sample_documents sample_values)
  from projection_covers_consumers [OF this] derived sample_consumers show ?thesis by auto
qed

end
