(* ===== verification/Spec2Isabelle.thy ===== *)
theory Spec2Isabelle
  imports Host_Memory Host_Filesystem Cut_Coherence Store_Projections Finding_Replay Store_Capacity Retention_Plan Notification_Delivery Scope_Cut
begin

text \<open>
  A verification development of NQ (\<open>src/crates\<close>), an evidence engine: it asks helper processes for
  testimony about a host, admits the testimony against compiled profiles, evaluates detectors over what
  was admitted, keeps evaluations and findings in an append-only SQLite store, certifies and expires
  that history, and submits notifications about it.

  \<^bold>\<open>How the parts interact.\<close> The engine writes a request, a helper answers with one NDJSON frame, and
  \<open>nq-protocol\<close> decides whether the exchange keeps the protocol. An accepted report is normalized and
  given to the profile it names (\<open>nq-profiles\<close>), which admits or refuses it. Everything refused becomes
  a governed refusal that is stored. Admitted reports are the input of the detectors of the profile; the
  engine (\<open>nq-core\<close>) turns each result into an evaluation and, where the state of a finding changes,
  into a finding event; the store (\<open>nq-store\<close>) checks and commits them and moves the current pointers.
  Replay walks the evaluations again and must find exactly the events the engine would have built. The
  store also certifies its history by frontiers, expires old history, and refuses writes that would eat
  the reserve of its filesystem. \<open>nq-system-contract\<close> compiles a cut of several components out of a system
  specification, judges whether it is coherent and projects it to its consumers. Attention that an operator or the saved-check service raises leaves the program as
  a notification (\<open>nq-app\<close>), with a claim and an outcome in the store around the one call it may make.

  \<^bold>\<open>The model.\<close> A Rust struct is a record and an enum a datatype with the constructors of the source. A
  function that returns \<open>Result\<close> is a function into \<open>result\<close>; \<open>and_then\<close> is the \<open>?\<close> operator and
  \<open>run_checks\<close> a sequence of checks of which the first failure is returned. \<open>u16\<close>, \<open>u32\<close>, \<open>u64\<close> and \<open>u128\<close> are
  words, \<open>usize\<close> is \<open>nat\<close>, \<open>i64\<close> is \<open>int\<close> with its bounds written out where the code adds. A \<open>String\<close> and a
  byte vector are lists of characters that stand for bytes. A \<open>BTreeMap\<close> is an association list in
  ascending key order. A table is the list of its rows in \<open>rowid\<close> order, and an insert applies the
  constraints and triggers of \<open>schema.sql\<close> in the order SQLite does. A failed operation returns no new
  state, as the dropped transaction does. The text of an error message is the list of what it is formatted
  from. Code outside \<open>src\<close> (the RFC 8785 encoder, SHA-256, the JSON tokenizer, code that \<open>serde\<close> derives,
  SQLite's JSON and date functions, clocks, generators of identifiers, the operating system, HTTP) is a
  field of a record of externals or an argument.

  \<^bold>\<open>Theories.\<close>

  \<^item> \<open>NQ_Prelude\<close>: results, integers, text, ordered maps; the locale \<open>keyed_store\<close> gives the laws of an
  ordered map and is interpreted on \<open>bt_insert\<close> and \<open>bt_get\<close>.

  \<^item> \<open>Protocol_Primitives\<close>, \<open>Protocol_Model\<close>, \<open>Protocol_Validation\<close>, \<open>Protocol_Framing\<close> (\<open>nq-protocol\<close>:
  \<open>canonical.rs\<close>, \<open>ids.rs\<close>, \<open>model.rs\<close>, \<open>builder.rs\<close>, \<open>validation.rs\<close>, \<open>framing.rs\<close>): an exchange is accepted
  exactly when it meets a declarative contract, and a response that is written is read back.

  \<^item> \<open>Profile_Descriptor\<close>, \<open>Profile_Validation\<close>, \<open>Detector_Core\<close> (\<open>nq-profiles\<close>: \<open>descriptor.rs\<close>, \<open>identity.rs\<close>,
  \<open>validation.rs\<close>, \<open>detector.rs\<close>): the shared laws admit a report exactly when it is admissible. The locale
  \<open>profile_gate\<close> is what the engine relies on in the validation of a profile, \<open>governed_detector\<close> what it
  relies on in a detector; both are interpreted on the profiles below.

  \<^item> \<open>Host_Memory\<close>, \<open>Host_Filesystem\<close> (\<open>host_memory.rs\<close>, \<open>host_filesystem.rs\<close>): admission, and detectors that
  decide by their compiled law and only from a current complete report; the capacity comparison is exact
  in 128 bits for every counter.

  \<^item> \<open>Refusal_Carriers\<close> (\<open>engine.rs\<close>, \<open>runner.rs\<close>): acquisition outcomes, protocol rejections and the governed
  refusals made of them; what the engine builds passes the validation of what it stores.

  \<^item> \<open>Finding_Store\<close>, \<open>Finding_Engine\<close>, \<open>Finding_Replay\<close> (\<open>nq-store/src/lib.rs\<close>, \<open>engine.rs\<close>): the life of a
  finding as a small machine; the event the engine builds is a step of it, an accepted commit keeps every
  history a run of it, and replay accepts what the engine built.

  \<^item> \<open>Store_Projections\<close> (\<open>nq-store/src/lib.rs\<close>): binding transitions, status events and the current
  projections; in every reachable store the projection check passes and rebuilding changes nothing. The
  locale \<open>event_log\<close> is what both projections need of an append-only log.

  \<^item> \<open>Store_Capacity\<close> (\<open>capacity.rs\<close>): the operating envelope is derived exactly when the numbers fit, and a
  write that passes the checks leaves the reserve.

  \<^item> \<open>History_Accumulator\<close>, \<open>History_Scope\<close>, \<open>History_Expiry\<close>, \<open>Retention_Plan\<close> (\<open>history_scope.rs\<close>, \<open>retention.rs\<close>):
  incremental certification equals full certification, the frontier carried across an expiry equals the
  one computed afresh after it, and the plan of an expiry spares what surviving rows depend on. The
  locale \<open>additive_commitment\<close> is what certification needs of the accumulator.

  \<^item> \<open>Required_Graph\<close>, \<open>Cut_Coherence\<close> (\<open>nq-system-contract/src/coherence.rs\<close>): the iterative component search
  returns the strongly connected components, and the verdict on a cut is decided by its definition. The
  locale \<open>component_partition\<close> is what the verdict needs of the search.

  \<^item> \<open>System_Contract\<close>, \<open>Scope_Cut\<close> (\<open>nq-system-contract/src/lib.rs\<close>): a specification is accepted exactly when it
  is a closed model within its bounds; the cut of a declared system is refused only for size, verifies
  against its specification in every order of the arrays and against no other content; a verified cut is
  never malformed for the coherence check; an actuation projection affects exactly the selected components
  and their transitive consumers.

  \<^item> \<open>Notification_Intent\<close>, \<open>Notification_Custody\<close>, \<open>Notification_Delivery\<close> (\<open>nq-app/src/notification.rs\<close>, the
  notification part of \<open>nq-store/src/lib.rs\<close> and \<open>schema.sql\<close>): the triggers implement the life of a
  delivery, and over every interleaving of submissions that may stop at any point no event is dispatched
  twice to one destination; routing keys never reach a report; a resubmission keeps its condition.

  \<^bold>\<open>Bounds and termination.\<close> Loops are structural recursions or functions with a measure: the component
  search has a measure on unvisited nodes and the work stack; the closure loops of the retention plan and
  of a cut recurse on what is not yet protected, reached or affected. \<open>run_phases\<close> takes a number of phases; a
  submission has four, and four are shown to end it (\<open>run_ready\<close>). Byte limits and row limits are those
  of the source.

  \<^bold>\<open>Not modelled.\<close> Process creation, pipes, signals and the sandbox (\<open>unix_runner.rs\<close>, \<open>nq-helper-sandbox\<close>);
  the helpers themselves, which read the operating system; the command line, HTTP API and daemon, which
  parse arguments and move files; SQLite configuration, checkpoints, locks and file replacement; queries
  that reopen rows from SQL text, whose results are the rows of the model; nine profiles that use the
  same interfaces as the two modelled ones; qualification and support
  records beside the evidence path; summaries and inspection of deliveries.
\<close>

end
